(* ===== verification/Prelude.thy ===== *)
theory Prelude
  imports Main "HOL-Library.AList" "HOL-Library.Monad_Syntax" "HOL-Library.List_Lexorder"
    "HOL-Library.Char_ord"
begin

text \<open>
  What every component shares: the collections of simplification rules, Python's dictionaries as
  association lists in insertion order, keyed tables (the rows of one SQL table, with the column
  that is its key), and generic facts on lists and options.

  A Python function that may raise returns an \<open>option\<close>; \<^term>\<open>None\<close> is "an exception was
  raised".  The journal code turns every exception into one fixed answer, so the kind of exception
  is not part of the model where only that answer depends on it.
\<close>

named_theorems codec_simps \<open>decoding what the code encoded\<close>
named_theorems table_simps \<open>facts on table look-up, insertion and update\<close>
named_theorems step_inv \<open>an operation keeps the invariant of the journal\<close>

section \<open>Dictionaries\<close>

type_synonym ('k, 'v) dict = "('k \<times> 'v) list"

abbreviation dict_get :: "('k, 'v) dict \<Rightarrow> 'k \<Rightarrow> 'v option" where
  "dict_get d k \<equiv> map_of d k"

abbreviation dict_keys :: "('k, 'v) dict \<Rightarrow> 'k list" where
  "dict_keys d \<equiv> map fst d"

text \<open>\<open>d[k] = v\<close>: an existing key keeps its position, a new key goes to the end.\<close>

abbreviation dict_set :: "'k \<Rightarrow> 'v \<Rightarrow> ('k, 'v) dict \<Rightarrow> ('k, 'v) dict" where
  "dict_set k v d \<equiv> AList.update k v d"

text \<open>\<open>dict(pairs)\<close>: the last value of a repeated key wins, at the key's first position.\<close>

definition dict_of_pairs :: "('k \<times> 'v) list \<Rightarrow> ('k, 'v) dict" where
  "dict_of_pairs ps = foldl (\<lambda>d (k, v). dict_set k v d) [] ps"

lemma dict_set_fresh: "k \<notin> fst ` set d \<Longrightarrow> dict_set k v d = d @ [(k, v)]"
  by (induction d) auto

lemma dict_set_get: "dict_get (dict_set k v d) k' = (if k' = k then Some v else dict_get d k')"
  by (simp add: update_conv')

lemma distinct_dict_set: "distinct (dict_keys d) \<Longrightarrow> distinct (dict_keys (dict_set k v d))"
  by (simp add: distinct_update)

lemma foldl_dict_set_distinct:
  assumes "distinct (map fst ps)" and "fst ` set d \<inter> fst ` set ps = {}"
  shows "foldl (\<lambda>d (k, v). dict_set k v d) d ps = d @ ps"
  using assms
proof (induction ps arbitrary: d)
  case Nil
  then show ?case by simp
next
  case (Cons p ps)
  obtain k v where p: "p = (k, v)" by (cases p)
  from Cons.prems p have "dict_set k v d = d @ [(k, v)]"
    by (intro dict_set_fresh) auto
  moreover from Cons.prems p have "foldl (\<lambda>d (k, v). dict_set k v d) (d @ [(k, v)]) ps = (d @ [(k, v)]) @ ps"
    by (intro Cons.IH) auto
  ultimately show ?case using p by simp
qed

lemma dict_of_pairs_distinct: "distinct (map fst ps) \<Longrightarrow> dict_of_pairs ps = ps"
  by (simp add: dict_of_pairs_def foldl_dict_set_distinct)

section \<open>Sorting by key\<close>

lemma insort_key_map_prod:
  "insort_key fst (a, f b) (map (map_prod id f) d) = map (map_prod id f) (insort_key fst (a, b) d)"
  by (induction d) auto

lemma sort_key_map_prod: "sort_key fst (map (map_prod id f) d) = map (map_prod id f) (sort_key fst d)"
  by (induction d) (auto simp: insort_key_map_prod [unfolded id_def] id_def)

lemma distinct_map_fst_insort:
  "distinct (map fst (insort_key fst p d)) \<longleftrightarrow> fst p \<notin> fst ` set d \<and> distinct (map fst d)"
  by (induction d) (auto simp: set_insort_key)

lemma distinct_map_fst_sort: "distinct (map fst (sort_key fst d)) = distinct (map fst d)"
  by (induction d) (auto simp: distinct_map_fst_insort)

lemma map_of_insort_key:
  "k' \<notin> fst ` set d \<Longrightarrow> map_of (insort_key fst (k', v) d) = (map_of d)(k' \<mapsto> v)"
  by (induction d) (auto simp: fun_eq_iff)

lemma map_of_sort_key: "distinct (map fst d) \<Longrightarrow> map_of (sort_key fst d) = map_of d"
  by (induction d) (auto simp: map_of_insort_key)

lemma sort_key_sorted: "sort_key fst (sort_key fst d) = sort_key fst d"
  by (simp add: sort_key_id_if_sorted)


section \<open>Tables\<close>

text \<open>
  The rows of a table are a list, in the order they were inserted.  \<open>UPDATE ... SET f WHERE P\<close> is
  \<open>update_where\<close>, the only row with a given key is \<^const>\<open>find\<close>.
\<close>

definition update_where :: "('r \<Rightarrow> bool) \<Rightarrow> ('r \<Rightarrow> 'r) \<Rightarrow> 'r list \<Rightarrow> 'r list" where
  "update_where P f rows = map (\<lambda>r. if P r then f r else r) rows"

lemma set_update_where: "set (update_where P f rows) = (\<lambda>r. if P r then f r else r) ` set rows"
  by (simp add: update_where_def)

lemma update_where_Nil [simp]: "update_where P f [] = []"
  by (simp add: update_where_def)

lemma length_update_where [simp]: "length (update_where P f rows) = length rows"
  by (simp add: update_where_def)

lemma map_update_where: "(\<And>r. g (f r) = g r) \<Longrightarrow> map g (update_where P f rows) = map g rows"
  by (simp add: update_where_def)

lemma image_update_where:
  assumes "\<And>r. g (f r) = g r"
  shows "g ` set (update_where P f rows) = g ` set rows"
  by (metis assms map_update_where set_map)

lemma ball_update_where:
  "\<forall>r\<in>set rows. Q r \<Longrightarrow> (\<And>r. Q r \<Longrightarrow> Q (f r)) \<Longrightarrow> \<forall>r\<in>set (update_where P f rows). Q r"
  by (auto simp: update_where_def)

lemma find_append: "find P (xs @ ys) = (case find P xs of Some x \<Rightarrow> Some x | None \<Rightarrow> find P ys)"
  by (induction xs) auto

lemma find_SomeD: "find P xs = Some x \<Longrightarrow> x \<in> set xs \<and> P x"
  by (induction xs) (auto split: if_splits)

lemma find_NoneD: "find P xs = None \<Longrightarrow> x \<in> set xs \<Longrightarrow> \<not> P x"
  by (simp add: find_None_iff)

lemma find_key: "distinct (map key rows) \<Longrightarrow> r \<in> set rows \<Longrightarrow> find (\<lambda>x. key x = key r) rows = Some r"
  by (induction rows) (auto simp: rev_image_eqI)

lemma find_map_same:
  "(\<And>r. r \<in> set rows \<Longrightarrow> P (g r) = P r) \<Longrightarrow> find P (map g rows) = map_option g (find P rows)"
  by (induction rows) auto

text \<open>An update that does not touch the column (or columns) \<open>key\<close> of the table.\<close>

locale row_update =
  fixes key :: "'r \<Rightarrow> 'k"
    and upd :: "'r \<Rightarrow> 'r"
  assumes key_kept [simp]: "key (upd r) = key r"
begin

lemma keys_kept: "map key (update_where P upd rows) = map key rows"
  by (simp add: update_where_def)

lemma distinct_kept: "distinct (map key (update_where P upd rows)) = distinct (map key rows)"
  by (simp only: keys_kept)

lemma key_set_kept: "key ` set (update_where P upd rows) = key ` set rows"
  by (metis keys_kept set_map)

lemma lookup_updated:
  "find (\<lambda>r. key r = k) (update_where P upd rows)
     = map_option (\<lambda>r. if P r then upd r else r) (find (\<lambda>r. key r = k) rows)"
  unfolding update_where_def by (rule find_map_same) auto

end

text \<open>An update that also keeps a condition on the row.\<close>

locale checked_update = row_update key upd for key :: "'r \<Rightarrow> 'k" and upd :: "'r \<Rightarrow> 'r" +
  fixes ok :: "'r \<Rightarrow> bool"
  assumes ok_kept: "ok r \<Longrightarrow> ok (upd r)"
begin

lemma all_ok_kept: "\<forall>r\<in>set rows. ok r \<Longrightarrow> \<forall>r\<in>set (update_where P upd rows). ok r"
  by (auto simp: set_update_where ok_kept)

end

end
