(* ===== verification/PyString.thy ===== *)
theory PyString
  imports Prelude
begin

text \<open>
  Python strings.  A \<open>str\<close> is modelled by \<^typ>\<open>string\<close>, each character being the code
  point U+0000 to U+00FF of its number: the model covers Latin-1 text, so that UTF-8 lengths,
  \<open>casefold\<close> and the two escaping modes of \<open>json.dumps\<close> still differ outside ASCII as they
  do in Python.  A file's bytes are the UTF-8 encoding of a text; \<open>utf8_inject\<close> shows that
  comparing texts is comparing bytes.
\<close>

abbreviation ord :: "char \<Rightarrow> nat" where
  "ord c \<equiv> of_char c"

abbreviation chr :: "nat \<Rightarrow> char" where
  "chr n \<equiv> char_of n"

text \<open>\<open>s.encode("utf-8")\<close>, the bytes as numbers.\<close>

definition utf8_char :: "char \<Rightarrow> nat list" where
  "utf8_char c = (if ord c < 128 then [ord c] else [192 + ord c div 64, 128 + ord c mod 64])"

definition utf8 :: "string \<Rightarrow> nat list" where
  "utf8 s = concat (map utf8_char s)"

definition utf8_len :: "string \<Rightarrow> int" where
  "utf8_len s = int (length (utf8 s))"

text \<open>
  \<open>s.casefold()\<close>: capital letters to small ones, and the sharp s (U+00DF) to two letters.  The
  micro sign folds to a Greek letter outside Latin-1; it stays as it is here, which no search for
  an ASCII substring can tell.
\<close>

definition casefold_char :: "char \<Rightarrow> string" where
  "casefold_char c =
     (if 65 \<le> ord c \<and> ord c \<le> 90 then [chr (ord c + 32)]
      else if 192 \<le> ord c \<and> ord c \<le> 222 \<and> ord c \<noteq> 215 then [chr (ord c + 32)]
      else if ord c = 223 then ''ss'' else [c])"

definition casefold :: "string \<Rightarrow> string" where
  "casefold s = concat (map casefold_char s)"

text \<open>\<open>part in s\<close>.\<close>

fun starts_with :: "string \<Rightarrow> string \<Rightarrow> bool" where
  "starts_with [] s = True"
| "starts_with (p # ps) [] = False"
| "starts_with (p # ps) (c # cs) = (p = c \<and> starts_with ps cs)"

fun is_substring :: "string \<Rightarrow> string \<Rightarrow> bool" where
  "is_substring p [] = (p = [])"
| "is_substring p (c # cs) = (starts_with p (c # cs) \<or> is_substring p cs)"

text \<open>\<open>sep.join(parts)\<close>.\<close>

fun join :: "string \<Rightarrow> string list \<Rightarrow> string" where
  "join sep [] = []"
| "join sep [x] = x"
| "join sep (x # y # zs) = x @ sep @ join sep (y # zs)"

section \<open>Numbers as text\<close>

definition digit_char :: "nat \<Rightarrow> char" where
  "digit_char d = chr (48 + d)"

fun nat_str :: "nat \<Rightarrow> string" where
  "nat_str n = (if n < 10 then [digit_char n] else nat_str (n div 10) @ [digit_char (n mod 10)])"

declare nat_str.simps [simp del]

definition int_str :: "int \<Rightarrow> string" where
  "int_str i = (if i < 0 then CHR ''-'' # nat_str (nat (- i)) else nat_str (nat i))"

text \<open>\<open>f"{n:012d}"\<close> and its kin: padded with zeros on the left.\<close>

definition zfill :: "nat \<Rightarrow> string \<Rightarrow> string" where
  "zfill w s = replicate (w - length s) CHR ''0'' @ s"

definition is_digit :: "char \<Rightarrow> bool" where
  "is_digit c = (48 \<le> ord c \<and> ord c \<le> 57)"

definition digits_val :: "string \<Rightarrow> nat" where
  "digits_val s = foldl (\<lambda>n c. 10 * n + (ord c - 48)) 0 s"

definition hex_digit :: "nat \<Rightarrow> char" where
  "hex_digit d = (if d < 10 then chr (48 + d) else chr (87 + d))"

definition hex_val :: "char \<Rightarrow> nat option" where
  "hex_val c =
     (if 48 \<le> ord c \<and> ord c \<le> 57 then Some (ord c - 48)
      else if 97 \<le> ord c \<and> ord c \<le> 102 then Some (ord c - 87)
      else if 65 \<le> ord c \<and> ord c \<le> 70 then Some (ord c - 55) else None)"

section \<open>Facts\<close>

lemma ord_chr: "n < 256 \<Longrightarrow> ord (chr n) = n"
  by simp

lemma ord_inject: "ord c = ord d \<longleftrightarrow> c = d"
  by simp

lemma char_eqI: "ord c = ord d \<Longrightarrow> c = d"
  by simp

lemma utf8_char_inject:
  assumes "utf8_char c @ xs = utf8_char d @ ys"
  shows "c = d \<and> xs = ys"
proof -
  have *: "ord c = ord d" if "ord c div 64 = ord d div 64" "ord c mod 64 = ord d mod 64"
    using that by (metis div_mult_mod_eq)
  have "192 + x \<noteq> y" if "y < 128" for x y :: nat using that by simp
  then show ?thesis
    using assms * by (auto simp: utf8_char_def ord_inject split: if_splits)
qed

lemma utf8_inject: "utf8 s = utf8 t \<longleftrightarrow> s = t"
proof
  show "utf8 s = utf8 t \<Longrightarrow> s = t"
  proof (induction s arbitrary: t)
    case Nil
    then show ?case by (cases t) (auto simp: utf8_def utf8_char_def split: if_splits)
  next
    case (Cons c s)
    from Cons.prems obtain d t' where t: "t = d # t'"
      by (cases t) (auto simp: utf8_def utf8_char_def split: if_splits)
    from Cons.prems t have "utf8_char c @ utf8 s = utf8_char d @ utf8 t'"
      by (simp add: utf8_def)
    then have "c = d \<and> utf8 s = utf8 t'" by (rule utf8_char_inject)
    with Cons.IH t show ?case by simp
  qed
qed simp

lemma digit_char_is_digit: "d < 10 \<Longrightarrow> is_digit (digit_char d)"
  by (simp add: digit_char_def is_digit_def)

lemma ord_digit_char: "d < 10 \<Longrightarrow> ord (digit_char d) = 48 + d"
  by (simp add: digit_char_def)

lemma nat_str_digits: "c \<in> set (nat_str n) \<Longrightarrow> is_digit c"
proof (induction n rule: nat_str.induct)
  case (1 n)
  then show ?case
    by (subst (asm) (2) nat_str.simps) (auto simp: digit_char_is_digit split: if_splits)
qed

lemma nat_str_not_empty [simp]: "nat_str n \<noteq> []"
  by (subst nat_str.simps) simp

lemma digits_val_nat_str [simp]: "digits_val (nat_str n) = n"
proof (induction n rule: nat_str.induct)
  case (1 n)
  show ?case
  proof (cases "n < 10")
    case True
    then show ?thesis by (subst nat_str.simps) (simp add: digits_val_def ord_digit_char)
  next
    case False
    then have "digits_val (nat_str n) = 10 * digits_val (nat_str (n div 10)) + n mod 10"
      by (subst nat_str.simps) (simp add: digits_val_def ord_digit_char)
    with 1 False show ?thesis by simp
  qed
qed

lemma nat_str_inject [simp]: "nat_str m = nat_str n \<longleftrightarrow> m = n"
  by (metis digits_val_nat_str)

text \<open>No leading zero but in \<open>"0"\<close> itself.\<close>

lemma nat_str_no_leading_zero: "n \<noteq> 0 \<Longrightarrow> hd (nat_str n) \<noteq> CHR ''0''"
proof (induction n rule: nat_str.induct)
  case (1 n)
  have nz: "digit_char d \<noteq> CHR ''0''" if "d < 10" "d \<noteq> 0" for d
  proof -
    from that have "ord (digit_char d) \<noteq> ord CHR ''0''"
      by (simp add: ord_digit_char del: of_char_eq_iff)
    then show ?thesis by metis
  qed
  show ?case
  proof (cases "n < 10")
    case True
    with 1 nz show ?thesis by (subst nat_str.simps) simp
  next
    case False
    with 1 have "hd (nat_str (n div 10)) \<noteq> CHR ''0''" by simp
    with False show ?thesis by (subst nat_str.simps) simp
  qed
qed

lemma digit_char_0: "digit_char 0 = CHR ''0''"
  by (rule char_eqI) (simp add: digit_char_def del: of_char_eq_iff)

lemma nat_str_0: "nat_str 0 = ''0''"
  by (subst nat_str.simps) (simp add: digit_char_0)

lemma digits_val_zeros: "digits_val (replicate k CHR ''0'' @ s) = digits_val s"
  by (induction k) (auto simp: digits_val_def)

lemma length_nat_str: "n < 10 ^ w \<Longrightarrow> 0 < w \<Longrightarrow> length (nat_str n) \<le> w"
proof (induction n arbitrary: w rule: nat_str.induct)
  case (1 n)
  show ?case
  proof (cases "n < 10")
    case True
    with 1 show ?thesis by (subst nat_str.simps) simp
  next
    case False
    with 1 obtain v where w: "w = Suc v" "0 < v" by (cases w; cases "w - 1") auto
    then have "n div 10 < 10 ^ v" using 1 by (simp add: div_less_iff_less_mult mult.commute)
    with 1 False w have "length (nat_str (n div 10)) \<le> v" by blast
    with False w show ?thesis by (subst nat_str.simps) simp
  qed
qed

lemma length_zfill: "n < 10 ^ w \<Longrightarrow> 0 < w \<Longrightarrow> length (zfill w (nat_str n)) = w"
  using length_nat_str [of n w] by (simp add: zfill_def)

lemma digits_val_append: "digits_val (s @ t) = digits_val s * 10 ^ length t + digits_val t"
proof (induction t rule: rev_induct)
  case (snoc c t)
  then show ?case by (simp add: digits_val_def algebra_simps)
qed (simp add: digits_val_def)

lemma zfill_digits: "c \<in> set (zfill w (nat_str n)) \<Longrightarrow> is_digit c"
  by (auto simp: zfill_def dest: nat_str_digits) (simp add: is_digit_def)

lemma digits_val_zfill [simp]: "digits_val (zfill w (nat_str n)) = n"
  by (simp add: zfill_def digits_val_zeros)

lemma zfill_inject: "zfill w (nat_str m) = zfill w (nat_str n) \<longleftrightarrow> m = n"
  by (metis digits_val_nat_str digits_val_zeros zfill_def)

lemma int_str_not_empty [simp]: "int_str i \<noteq> []"
  by (simp add: int_str_def)

lemma hex_val_hex_digit: "d < 16 \<Longrightarrow> hex_val (hex_digit d) = Some d"
  by (auto simp: hex_digit_def hex_val_def)

end
