(* ===== verification/Json.thy ===== *)
theory Json
  imports PyString
begin

text \<open>
  JSON values as Python's \<open>json\<close> module reads and writes them: \<open>json.dumps\<close> with sorted keys and
  the separators \<open>(",", ":")\<close> in both escaping modes, \<open>json.loads\<close> with and without a hook for objects, Python's
  equality and type tests on the values, and the round trip between the two.  A float \<open>JFloat m e\<close> is kept as the
  decimal m * 10 ^ e its text denotes; rounding to a double, NaN and the infinities are outside the
  model.  The only floats that the code writes are clock readings; their text is Python's \<open>repr\<close>, with the digits
  that the reading has.
\<close>

datatype json =
    JNull
  | JBool bool
  | JInt int
  | JFloat int int
  | JStr string
  | JArr "json list"
  | JObj "(string \<times> json) list"

section \<open>Type tests, truth and equality\<close>

fun is_jstr :: "json \<Rightarrow> bool" where
  "is_jstr (JStr _) = True"
| "is_jstr _ = False"

text \<open>\<open>type(v) is int\<close>: a \<open>bool\<close> is not one.\<close>

fun is_jint :: "json \<Rightarrow> bool" where
  "is_jint (JInt _) = True"
| "is_jint _ = False"

fun is_jfloat :: "json \<Rightarrow> bool" where
  "is_jfloat (JFloat _ _) = True"
| "is_jfloat _ = False"

fun is_jobj :: "json \<Rightarrow> bool" where
  "is_jobj (JObj _) = True"
| "is_jobj _ = False"

fun is_jarr :: "json \<Rightarrow> bool" where
  "is_jarr (JArr _) = True"
| "is_jarr _ = False"

text \<open>\<open>bool(v)\<close>.\<close>

fun truthy :: "json \<Rightarrow> bool" where
  "truthy JNull = False"
| "truthy (JBool b) = b"
| "truthy (JInt i) = (i \<noteq> 0)"
| "truthy (JFloat m e) = (m \<noteq> 0)"
| "truthy (JStr s) = (s \<noteq> [])"
| "truthy (JArr xs) = (xs \<noteq> [])"
| "truthy (JObj d) = (d \<noteq> [])"

text \<open>\<open>d.get(k)\<close>, and \<open>d[k]\<close> which raises.\<close>

definition jget :: "(string, json) dict \<Rightarrow> string \<Rightarrow> json" where
  "jget d k = (case dict_get d k of None \<Rightarrow> JNull | Some v \<Rightarrow> v)"

fun jindex :: "json \<Rightarrow> string \<Rightarrow> json option" where
  "jindex (JObj d) k = dict_get d k"
| "jindex _ k = None"

fun jstr :: "json \<Rightarrow> string option" where
  "jstr (JStr s) = Some s"
| "jstr _ = None"

fun jint :: "json \<Rightarrow> int option" where
  "jint (JInt i) = Some i"
| "jint _ = None"

fun jobj :: "json \<Rightarrow> (string, json) dict option" where
  "jobj (JObj d) = Some d"
| "jobj _ = None"

fun jarr :: "json \<Rightarrow> json list option" where
  "jarr (JArr xs) = Some xs"
| "jarr _ = None"

text \<open>
  \<open>==\<close>: \<open>True == 1 == 1.0\<close>, lists elementwise, dictionaries whatever their order.  Both sides are
  brought to one form, in which numbers are integers or reduced fractions (\<open>JFloat\<close> holding
  numerator and denominator) and the keys are sorted.
\<close>

definition number_form :: "int \<Rightarrow> int \<Rightarrow> json" where
  "number_form m e =
     (if 0 \<le> e then JInt (m * 10 ^ nat e)
      else let d = 10 ^ nat (- e); g = gcd m d
           in if d dvd m then JInt (m div d) else JFloat (m div g) (d div g))"

primrec eq_form :: "json \<Rightarrow> json" where
  "eq_form JNull = JNull"
| "eq_form (JBool b) = JInt (if b then 1 else 0)"
| "eq_form (JInt i) = JInt i"
| "eq_form (JFloat m e) = number_form m e"
| "eq_form (JStr s) = JStr s"
| "eq_form (JArr xs) = JArr (map eq_form xs)"
| "eq_form (JObj d) = JObj (sort_key fst (map (map_prod id eq_form) d))"

definition py_eq :: "json \<Rightarrow> json \<Rightarrow> bool" where
  "py_eq a b = (eq_form a = eq_form b)"

section \<open>json.dumps\<close>

definition escape_char :: "bool \<Rightarrow> char \<Rightarrow> string" where
  "escape_char ascii c =
     (if c = CHR 0x22 \<or> c = CHR 0x5C then [CHR 0x5C, c]
      else if ord c = 10 then [CHR 0x5C, CHR ''n'']
      else if ord c = 13 then [CHR 0x5C, CHR ''r'']
      else if ord c = 9 then [CHR 0x5C, CHR ''t'']
      else if ord c = 8 then [CHR 0x5C, CHR ''b'']
      else if ord c = 12 then [CHR 0x5C, CHR ''f'']
      else if ord c < 32 \<or> ascii \<and> 126 < ord c
        then [CHR 0x5C, CHR ''u'', CHR ''0'', CHR ''0'', hex_digit (ord c div 16), hex_digit (ord c mod 16)]
      else [c])"

definition dumps_str :: "bool \<Rightarrow> string \<Rightarrow> string" where
  "dumps_str ascii s = CHR 0x22 # concat (map (escape_char ascii) s) @ [CHR 0x22]"

text \<open>
  A float in plain notation, as \<open>repr\<close> writes one from 0.0001 up to 10^16: the point stands before the
  last \<open>-e\<close> digits.
\<close>

definition plain_float :: "nat \<Rightarrow> nat \<Rightarrow> string" where
  "plain_float k n = nat_str (n div 10 ^ k) @ ''.'' @ zfill k (nat_str (n mod 10 ^ k))"

definition float_str :: "int \<Rightarrow> int \<Rightarrow> string" where
  "float_str m e =
     (if e < 0 then (if m < 0 then ''-'' else []) @ plain_float (nat (- e)) (nat \<bar>m\<bar>)
      else int_str m @ ''e'' @ int_str e)"

primrec render :: "bool \<Rightarrow> json \<Rightarrow> string" where
  "render ascii JNull = ''null''"
| "render ascii (JBool b) = (if b then ''true'' else ''false'')"
| "render ascii (JInt i) = int_str i"
| "render ascii (JFloat m e) = float_str m e"
| "render ascii (JStr s) = dumps_str ascii s"
| "render ascii (JArr xs) = ''['' @ join '','' (map (render ascii) xs) @ '']''"
| "render ascii (JObj d) =
     ''{'' @ join '','' (map (\<lambda>(k, t). dumps_str ascii k @ '':'' @ t) (map (map_prod id (render ascii)) d)) @ ''}''"

text \<open>\<open>sort_keys=True\<close>, at every depth.\<close>

primrec sort_json :: "json \<Rightarrow> json" where
  "sort_json JNull = JNull"
| "sort_json (JBool b) = JBool b"
| "sort_json (JInt i) = JInt i"
| "sort_json (JFloat m e) = JFloat m e"
| "sort_json (JStr s) = JStr s"
| "sort_json (JArr xs) = JArr (map sort_json xs)"
| "sort_json (JObj d) = JObj (sort_key fst (map (map_prod id sort_json) d))"

definition dumps :: "bool \<Rightarrow> json \<Rightarrow> string" where
  "dumps ascii v = render ascii (sort_json v)"

section \<open>json.loads\<close>

definition is_ws :: "char \<Rightarrow> bool" where
  "is_ws c = (ord c = 32 \<or> ord c = 9 \<or> ord c = 10 \<or> ord c = 13)"

definition skip_ws :: "string \<Rightarrow> string" where
  "skip_ws s = dropWhile is_ws s"

definition unescape :: "char \<Rightarrow> char option" where
  "unescape c =
     (if c = CHR 0x22 \<or> c = CHR 0x5C \<or> c = CHR ''/'' then Some c
      else if c = CHR ''n'' then Some (chr 10)
      else if c = CHR ''r'' then Some (chr 13)
      else if c = CHR ''t'' then Some (chr 9)
      else if c = CHR ''b'' then Some (chr 8)
      else if c = CHR ''f'' then Some (chr 12) else None)"

definition unicode_escape :: "char \<Rightarrow> char \<Rightarrow> char \<Rightarrow> char \<Rightarrow> char option" where
  "unicode_escape a b c d =
     do { w \<leftarrow> hex_val a; x \<leftarrow> hex_val b; y \<leftarrow> hex_val c; z \<leftarrow> hex_val d;
          if w = 0 \<and> x = 0 then Some (chr (16 * y + z)) else None }"

text \<open>The text after an opening quote: the string, and what follows its closing quote.\<close>

fun parse_str :: "string \<Rightarrow> (string \<times> string) option" where
  "parse_str [] = None"
| "parse_str (c # s) =
     (if c = CHR 0x22 then Some ([], s)
      else if ord c < 32 then None
      else if c = CHR 0x5C then
        (case s of
           [] \<Rightarrow> None
         | e # t \<Rightarrow>
             if e = CHR ''u'' then
               (case t of
                  w # x # y # z # r \<Rightarrow>
                    do { d \<leftarrow> unicode_escape w x y z; p \<leftarrow> parse_str r; Some (d # fst p, snd p) }
                | _ \<Rightarrow> None)
             else do { d \<leftarrow> unescape e; p \<leftarrow> parse_str t; Some (d # fst p, snd p) })
      else do { p \<leftarrow> parse_str s; Some (c # fst p, snd p) })"

text \<open>A number token: the digits, then an optional fraction and an optional exponent.\<close>

definition parse_frac :: "string \<Rightarrow> string \<times> string" where
  "parse_frac s =
     (case s of
        c # r \<Rightarrow> if c = CHR ''.'' \<and> takeWhile is_digit r \<noteq> []
                 then (takeWhile is_digit r, dropWhile is_digit r) else ([], s)
      | [] \<Rightarrow> ([], s))"

definition parse_exp :: "string \<Rightarrow> int option \<times> string" where
  "parse_exp s =
     (case s of
        c # r \<Rightarrow>
          if c = CHR ''e'' \<or> c = CHR ''E'' then
            (let neg = (r \<noteq> [] \<and> hd r = CHR ''-'');
                 t = (if r \<noteq> [] \<and> (hd r = CHR ''-'' \<or> hd r = CHR ''+'') then tl r else r);
                 n = int (digits_val (takeWhile is_digit t))
             in if takeWhile is_digit t = [] then (None, s)
                else (Some (if neg then - n else n), dropWhile is_digit t))
          else (None, s)
      | [] \<Rightarrow> (None, s))"

text \<open>The integer part ends after a leading zero.\<close>

definition int_part :: "string \<Rightarrow> string" where
  "int_part ds = (if ds \<noteq> [] \<and> hd ds = CHR ''0'' then ''0'' else ds)"

definition parse_number :: "string \<Rightarrow> (json \<times> string) option" where
  "parse_number s =
     (let neg = (s \<noteq> [] \<and> hd s = CHR ''-'');
          t = (if neg then tl s else s);
          ds = takeWhile is_digit t;
          ip = int_part ds;
          (fs, r1) = parse_frac (drop (length ip) t);
          (ex, r2) = parse_exp r1;
          sign = (if neg then - 1 else (1::int))
      in if ds = [] then None
         else if fs = [] \<and> ex = None then Some (JInt (sign * int (digits_val ip)), r2)
         else Some (JFloat (sign * int (digits_val (ip @ fs)))
                      ((case ex of None \<Rightarrow> 0 | Some x \<Rightarrow> x) - int (length fs)), r2))"

text \<open>
  The recursive descent; \<open>n\<close> bounds its depth, and \<open>loads\<close> starts with more than it can use.  The hook makes
  the members of an object its dictionary (\<open>object_pairs_hook\<close>), or refuses them.
\<close>

type_synonym object_hook = "(string \<times> json) list \<Rightarrow> (string, json) dict option"

fun parse_value :: "object_hook \<Rightarrow> nat \<Rightarrow> string \<Rightarrow> (json \<times> string) option"
and parse_items :: "object_hook \<Rightarrow> nat \<Rightarrow> string \<Rightarrow> (json list \<times> string) option"
and parse_members :: "object_hook \<Rightarrow> nat \<Rightarrow> string \<Rightarrow> ((string \<times> json) list \<times> string) option"
where
  "parse_value h 0 s = None"
| "parse_value h (Suc n) s =
     (case skip_ws s of
        [] \<Rightarrow> None
      | c # t \<Rightarrow>
          if c = CHR 0x22 then do { p \<leftarrow> parse_str t; Some (JStr (fst p), snd p) }
          else if c = CHR ''['' then
            (case skip_ws t of
               [] \<Rightarrow> None
             | d # r \<Rightarrow> if d = CHR '']'' then Some (JArr [], r)
                        else do { p \<leftarrow> parse_items h n (d # r); Some (JArr (fst p), snd p) })
          else if c = CHR ''{'' then
            (case skip_ws t of
               [] \<Rightarrow> None
             | d # r \<Rightarrow> if d = CHR ''}'' then Some (JObj [], r)
                        else do { p \<leftarrow> parse_members h n (d # r); o' \<leftarrow> h (fst p); Some (JObj o', snd p) })
          else if starts_with ''null'' (c # t) then Some (JNull, drop 3 t)
          else if starts_with ''true'' (c # t) then Some (JBool True, drop 3 t)
          else if starts_with ''false'' (c # t) then Some (JBool False, drop 4 t)
          else parse_number (c # t))"
| "parse_items h 0 s = None"
| "parse_items h (Suc n) s =
     do { p \<leftarrow> parse_value h n s;
          case skip_ws (snd p) of
            [] \<Rightarrow> None
          | c # r \<Rightarrow> if c = CHR '']'' then Some ([fst p], r)
                     else if c = CHR '','' then do { q \<leftarrow> parse_items h n r; Some (fst p # fst q, snd q) }
                     else None }"
| "parse_members h 0 s = None"
| "parse_members h (Suc n) s =
     (case skip_ws s of
        [] \<Rightarrow> None
      | q # t \<Rightarrow>
          if q \<noteq> CHR 0x22 then None
          else do { k \<leftarrow> parse_str t;
                    case skip_ws (snd k) of
                      [] \<Rightarrow> None
                    | c # r \<Rightarrow>
                        if c \<noteq> CHR '':'' then None
                        else do { p \<leftarrow> parse_value h n r;
                                  case skip_ws (snd p) of
                                    [] \<Rightarrow> None
                                  | e # u \<Rightarrow>
                                      if e = CHR ''}'' then Some ([(fst k, fst p)], u)
                                      else if e = CHR '','' then
                                        do { m \<leftarrow> parse_members h n u; Some ((fst k, fst p) # fst m, snd m) }
                                      else None } })"

definition loads_with :: "object_hook \<Rightarrow> string \<Rightarrow> json option" where
  "loads_with h s = (case parse_value h (Suc (length s)) s of
                None \<Rightarrow> None
              | Some (v, r) \<Rightarrow> if skip_ws r = [] then Some v else None)"

text \<open>By default the last member of a key counts.\<close>

definition last_member :: object_hook where
  "last_member ps = Some (dict_of_pairs ps)"

definition loads :: "string \<Rightarrow> json option" where
  "loads = loads_with last_member"

text \<open>The hook that raises when a key comes twice.\<close>

definition unique_members :: object_hook where
  "unique_members ps = (if distinct (map fst ps) then Some ps else None)"

definition loads_unique :: "string \<Rightarrow> json option" where
  "loads_unique = loads_with unique_members"

section \<open>Dictionaries and numbers\<close>

text \<open>\<open>set(d) == {...}\<close> for a dictionary, whose keys are distinct.\<close>

definition has_fields :: "string list \<Rightarrow> (string, json) dict \<Rightarrow> bool" where
  "has_fields ks d = (list_all (\<lambda>k. k \<in> set (dict_keys d)) ks \<and> list_all (\<lambda>k. k \<in> set ks) (dict_keys d))"

text \<open>A number as digits and exponent; \<open>a <= b\<close> and \<open>a + i\<close> on numbers.\<close>

fun decimal_of :: "json \<Rightarrow> (int \<times> int) option" where
  "decimal_of (JInt i) = Some (i, 0)"
| "decimal_of (JFloat m e) = Some (m, e)"
| "decimal_of _ = None"

fun dec_le :: "int \<times> int \<Rightarrow> int \<times> int \<Rightarrow> bool" where
  "dec_le (m, e) (m', e') = (m * 10 ^ nat (e - min e e') \<le> m' * 10 ^ nat (e' - min e e'))"

fun dec_add :: "int \<times> int \<Rightarrow> int \<Rightarrow> int \<times> int" where
  "dec_add (m, e) i = (m * 10 ^ nat (e - min e 0) + i * 10 ^ nat (- min e 0), min e 0)"

end
