(* ===== verification/JsonRound.thy ===== *)
theory JsonRound
  imports Json
begin

text \<open>
  \<open>json.loads\<close> reads back what \<open>json.dumps\<close> wrote, in both escaping modes: the parsed value is the
  one written, with the keys of every object sorted.  The values it holds for are those the
  code stores: no object has a key twice.
\<close>

primrec json_wf :: "json \<Rightarrow> bool" where
  "json_wf JNull = True"
| "json_wf (JBool b) = True"
| "json_wf (JInt i) = True"
| "json_wf (JFloat m e) = True"
| "json_wf (JStr s) = True"
| "json_wf (JArr xs) = list_all (\<lambda>b. b) (map json_wf xs)"
| "json_wf (JObj d) = (distinct (map fst d) \<and> list_all snd (map (map_prod id json_wf) d))"

lemma json_wf_arr [simp]: "json_wf (JArr xs) = (\<forall>x\<in>set xs. json_wf x)"
  by (simp add: list_all_iff)

lemma json_wf_obj [simp]: "json_wf (JObj d) = (distinct (map fst d) \<and> (\<forall>(k, v)\<in>set d. json_wf v))"
  by (auto simp: list_all_iff)

declare json_wf.simps(6) [simp del] json_wf.simps(7) [simp del]

section \<open>Strings\<close>

lemma nibbles: "ord c div 16 < 16" "ord c mod 16 < 16"
proof -
  have "ord c < 256" by (rule nat_of_char_less_256)
  then show "ord c div 16 < 16" by (subst div_less_iff_less_mult) simp_all
qed simp

lemma unicode_escape_ord:
  "unicode_escape CHR ''0'' CHR ''0'' (hex_digit (ord c div 16)) (hex_digit (ord c mod 16)) = Some c"
proof -
  have z: "hex_val CHR ''0'' = Some 0" by (simp add: hex_val_def)
  have "16 * (ord c div 16) + ord c mod 16 = ord c" by (rule mult_div_mod_eq)
  with z show ?thesis by (simp add: unicode_escape_def hex_val_hex_digit nibbles)
qed

lemma parse_str_simple_escape:
  "unescape e = Some c \<Longrightarrow> e \<noteq> CHR ''u'' \<Longrightarrow>
   parse_str (CHR 0x5C # e # s) = map_option (map_prod (Cons c) id) (parse_str s)"
  by (cases "parse_str s") auto

lemma parse_str_unicode_escape:
  "parse_str (CHR 0x5C # CHR ''u'' # CHR ''0'' # CHR ''0'' # hex_digit (ord c div 16) # hex_digit (ord c mod 16) # s)
     = map_option (map_prod (Cons c) id) (parse_str s)"
  by (cases "parse_str s") (auto simp: unicode_escape_ord)

lemma parse_str_plain:
  "c \<noteq> CHR 0x22 \<Longrightarrow> c \<noteq> CHR 0x5C \<Longrightarrow> \<not> ord c < 32 \<Longrightarrow>
   parse_str (c # s) = map_option (map_prod (Cons c) id) (parse_str s)"
  by (cases "parse_str s") auto

lemma unescape_controls:
  "ord c = 10 \<Longrightarrow> unescape CHR ''n'' = Some c" "ord c = 13 \<Longrightarrow> unescape CHR ''r'' = Some c"
  "ord c = 9 \<Longrightarrow> unescape CHR ''t'' = Some c" "ord c = 8 \<Longrightarrow> unescape CHR ''b'' = Some c"
  "ord c = 12 \<Longrightarrow> unescape CHR ''f'' = Some c"
  by (simp_all add: unescape_def char_eqI)

lemma parse_str_escape_char:
  "parse_str (escape_char ascii c @ s) = map_option (map_prod (Cons c) id) (parse_str s)"
proof (cases "c = CHR 0x22 \<or> c = CHR 0x5C")
  case True
  then have "unescape c = Some c" "c \<noteq> CHR ''u''" by (auto simp: unescape_def)
  with True show ?thesis by (simp add: escape_char_def parse_str_simple_escape del: parse_str.simps)
next
  case False
  then show ?thesis
    by (simp add: escape_char_def parse_str_simple_escape parse_str_unicode_escape parse_str_plain
        unescape_controls del: parse_str.simps)
qed

lemma parse_str_escape:
  "parse_str (concat (map (escape_char ascii) s) @ CHR 0x22 # r) = Some (s, r)"
  by (induction s) (simp_all add: parse_str_escape_char)

section \<open>Numbers\<close>

text \<open>What may follow a value: nothing, or the punctuation of an enclosing array or object.\<close>

definition delim :: "string \<Rightarrow> bool" where
  "delim r = (r = [] \<or> hd r = CHR '','' \<or> hd r = CHR '']'' \<or> hd r = CHR ''}'')"

lemma delim_not_digit: "delim r \<Longrightarrow> takeWhile is_digit r = []"
  by (cases r) (auto simp: delim_def is_digit_def)

lemma delim_parse_frac: "delim r \<Longrightarrow> parse_frac r = ([], r)"
  by (cases r) (auto simp: delim_def parse_frac_def)

lemma delim_parse_exp: "delim r \<Longrightarrow> parse_exp r = (None, r)"
  by (cases r) (auto simp: delim_def parse_exp_def)

lemma takeWhile_nat_str: "delim r \<Longrightarrow> takeWhile is_digit (nat_str n @ r) = nat_str n"
  by (simp add: delim_not_digit nat_str_digits)

lemma int_part_nat_str: "int_part (nat_str n) = nat_str n"
  using nat_str_no_leading_zero [of n] by (cases "n = 0") (auto simp: int_part_def nat_str_0)

lemma hd_nat_str_digit: "is_digit (hd (nat_str n))"
  by (rule nat_str_digits [of _ n]) simp

lemma hd_nat_str_not: "\<not> is_digit c \<Longrightarrow> hd (nat_str n) \<noteq> c"
  using hd_nat_str_digit by metis

lemma parse_number_nat:
  "delim r \<Longrightarrow> parse_number (nat_str n @ r) = Some (JInt (int n), r)"
proof -
  assume r: "delim r"
  have "hd (nat_str n) \<noteq> CHR ''-''" by (rule hd_nat_str_not) (simp add: is_digit_def)
  then show ?thesis
    by (simp add: parse_number_def takeWhile_nat_str [OF r] int_part_nat_str Let_def
        delim_parse_frac [OF r] delim_parse_exp [OF r])
qed

lemma parse_number_neg:
  "delim r \<Longrightarrow> parse_number (CHR ''-'' # nat_str n @ r) = Some (JInt (- int n), r)"
  by (simp add: parse_number_def takeWhile_nat_str int_part_nat_str Let_def
      delim_parse_frac delim_parse_exp)

lemma parse_number_int: "delim r \<Longrightarrow> parse_number (int_str i @ r) = Some (JInt i, r)"
  by (simp add: int_str_def parse_number_nat parse_number_neg)

text \<open>The text of a float, in exponent and in plain notation.\<close>

lemma all_digits: "\<forall>c\<in>set (nat_str n). is_digit c" "\<forall>c\<in>set (zfill w (nat_str n)). is_digit c"
  by (auto dest: nat_str_digits zfill_digits)

lemma digits_then: "takeWhile is_digit (nat_str n @ c # r) = nat_str n" if "\<not> is_digit c"
  using that all_digits by (simp add: takeWhile_append2)

lemma dropWhile_digits:
  assumes "\<forall>c\<in>set ds. is_digit c" "delim r"
  shows "takeWhile is_digit (ds @ r) = ds" "dropWhile is_digit (ds @ r) = r"
proof -
  show "takeWhile is_digit (ds @ r) = ds" using assms by (simp add: takeWhile_append2 delim_not_digit)
  show "dropWhile is_digit (ds @ r) = r"
    using assms delim_not_digit [of r] by (cases r) (auto simp: dropWhile_append2 split: if_splits)
qed

lemma not_digits: "\<not> is_digit CHR ''e''" "\<not> is_digit CHR ''.''" "\<not> is_digit CHR ''-''" "\<not> is_digit CHR ''+''"
  by (simp_all add: is_digit_def)

lemma parse_frac_e: "parse_frac (CHR ''e'' # r) = ([], CHR ''e'' # r)"
  by (simp add: parse_frac_def)

lemma parse_exp_int:
  assumes r: "delim r"
  shows "parse_exp (CHR ''e'' # int_str e @ r) = (Some e, r)"
proof (cases "e < 0")
  case True
  then show ?thesis
    by (simp add: parse_exp_def int_str_def dropWhile_digits [OF all_digits(1) r])
next
  case False
  have "hd (nat_str (nat e) @ r) \<noteq> CHR ''-''" "hd (nat_str (nat e) @ r) \<noteq> CHR ''+''"
    using hd_nat_str_not [of _ "nat e"] not_digits by simp_all
  then show ?thesis
    using False by (simp add: parse_exp_def int_str_def dropWhile_digits [OF all_digits(1) r])
qed

lemma parse_number_signed:
  assumes "parse_number (ds @ r) = Some (JFloat (int n) e, q)" "is_digit (hd ds)" "ds \<noteq> []"
  shows "parse_number (CHR ''-'' # ds @ r) = Some (JFloat (- int n) e, q)"
proof -
  have "hd (ds @ r) \<noteq> CHR ''-''" using assms(2,3) not_digits(3) by (cases ds) auto
  then show ?thesis using assms(1,3)
    by (auto simp: parse_number_def Let_def split: prod.splits if_splits)
qed

lemma parse_number_exp:
  assumes r: "delim r"
  shows "parse_number (nat_str n @ CHR ''e'' # int_str e @ r) = Some (JFloat (int n) e, r)"
proof -
  have "hd (nat_str n) \<noteq> CHR ''-''" by (rule hd_nat_str_not) (rule not_digits)
  then show ?thesis
    by (simp add: parse_number_def digits_then [OF not_digits(1)] int_part_nat_str Let_def parse_frac_e
        parse_exp_int [OF r])
qed

lemma parse_number_plain:
  assumes r: "delim r" and k: "0 < k"
  shows "parse_number (plain_float k n @ r) = Some (JFloat (int n) (- int k), r)"
proof -
  let ?f = "zfill k (nat_str (n mod 10 ^ k))"
  have len: "length ?f = k" using k by (intro length_zfill) simp_all
  have ne: "?f \<noteq> []" using len k by force
  have frac: "parse_frac (CHR ''.'' # ?f @ r) = (?f, r)"
    using ne by (simp add: parse_frac_def dropWhile_digits [OF all_digits(2) r])
  have val: "digits_val (nat_str (n div 10 ^ k) @ ?f) = n"
    by (simp add: digits_val_append len div_mult_mod_eq)
  have "hd (nat_str (n div 10 ^ k)) \<noteq> CHR ''-''" by (rule hd_nat_str_not) (rule not_digits)
  then show ?thesis
    using ne by (simp add: parse_number_def plain_float_def digits_then [OF not_digits(2)] int_part_nat_str Let_def
        frac delim_parse_exp [OF r] val len)
qed

lemma number_start_plain: "is_digit (hd (plain_float k n))" "plain_float k n \<noteq> []"
  by (simp_all add: plain_float_def hd_nat_str_digit)

lemma parse_number_float:
  assumes r: "delim r"
  shows "parse_number (float_str m e @ r) = Some (JFloat m e, r)"
proof (cases "e < 0")
  case True
  then have "parse_number (plain_float (nat (- e)) (nat \<bar>m\<bar>) @ r) = Some (JFloat (int (nat \<bar>m\<bar>)) e, r)"
    using parse_number_plain [OF r, of "nat (- e)"] by simp
  from this parse_number_signed [OF this number_start_plain] show ?thesis
    using True by (cases "m < 0") (simp_all add: float_str_def)
next
  case False
  then show ?thesis
    using parse_number_exp [OF r, of "nat m" e]
      parse_number_signed [OF parse_number_exp [OF r, of "nat (- m)" e] hd_nat_str_digit]
    by (cases "m < 0") (simp_all add: float_str_def int_str_def [of m])
qed

section \<open>Values\<close>

text \<open>The first character of a rendered value decides the branch of the parser.\<close>

definition number_start :: "char \<Rightarrow> bool" where
  "number_start c = (is_digit c \<or> c = CHR ''-'')"

lemma number_start_hd_int_str: "number_start (hd (int_str i))"
  by (simp add: number_start_def int_str_def hd_nat_str_digit)

lemma number_start_float_str: "number_start (hd (float_str m e))" "float_str m e \<noteq> []"
  using number_start_hd_int_str [of m] number_start_plain [of "nat (- e)" "nat \<bar>m\<bar>"]
  by (auto simp: float_str_def number_start_def)

lemma parse_value_number:
  assumes "number_start c"
  shows "parse_value h (Suc n) (c # t) = parse_number (c # t)"
proof -
  from assms have "\<not> is_ws c \<and> c \<noteq> CHR 0x22 \<and> c \<noteq> CHR ''['' \<and> c \<noteq> CHR ''{'' \<and> c \<noteq> CHR ''n''
      \<and> c \<noteq> CHR ''t'' \<and> c \<noteq> CHR ''f''"
    by (auto simp: number_start_def is_digit_def is_ws_def)
  then show ?thesis by (auto simp: skip_ws_def)
qed

lemma parse_value_int:
  assumes "delim r"
  shows "parse_value h (Suc n) (int_str i @ r) = Some (JInt i, r)"
proof -
  obtain c t where ct: "int_str i = c # t" by (cases "int_str i") auto
  have "number_start c" using number_start_hd_int_str [of i] ct by simp
  then have "parse_value h (Suc n) (int_str i @ r) = parse_number (int_str i @ r)"
    using ct by (simp add: parse_value_number del: parse_value.simps)
  then show ?thesis using assms by (simp add: parse_number_int)
qed

lemma parse_value_float:
  assumes "delim r"
  shows "parse_value h (Suc n) (float_str m e @ r) = Some (JFloat m e, r)"
proof -
  obtain c t where ct: "float_str m e = c # t" and "number_start c"
    using number_start_float_str [of m e] by (cases "float_str m e") auto
  then have "parse_value h (Suc n) (float_str m e @ r) = parse_number (float_str m e @ r)"
    using ct by (simp add: parse_value_number del: parse_value.simps)
  then show ?thesis using parse_number_float [OF assms] by simp
qed

lemma skip_ws_nonws: "\<not> is_ws c \<Longrightarrow> skip_ws (c # s) = c # s"
  by (simp add: skip_ws_def)

lemma nonws_punct [simp]:
  "\<not> is_ws CHR 0x22" "\<not> is_ws CHR ''[''" "\<not> is_ws CHR '']''" "\<not> is_ws CHR ''{''"
  "\<not> is_ws CHR ''}''" "\<not> is_ws CHR '',''" "\<not> is_ws CHR '':''" "\<not> is_ws CHR ''n''"
  "\<not> is_ws CHR ''t''" "\<not> is_ws CHR ''f''" "\<not> is_ws CHR ''-''"
  by (simp_all add: is_ws_def)

text \<open>How deep the descent into a value goes, and that its text is longer than that.\<close>

primrec need :: "json \<Rightarrow> nat" where
  "need JNull = 1"
| "need (JBool b) = 1"
| "need (JInt i) = 1"
| "need (JFloat m e) = 1"
| "need (JStr s) = 1"
| "need (JArr xs) = Suc (sum_list (map Suc (map need xs)))"
| "need (JObj d) = Suc (sum_list (map (Suc \<circ> snd) (map (map_prod id need) d)))"

lemma length_join: "length (join '','' xs) = sum_list (map length xs) + (length xs - 1)"
  by (induction "'',''" xs rule: join.induct) auto

lemma sum_list_Suc: "sum_list (map (\<lambda>x. Suc (f x)) xs) = sum_list (map f xs) + length xs"
  by (induction xs) auto

lemma sum_list_le:
  "(\<And>x. x \<in> set xs \<Longrightarrow> f x \<le> g x) \<Longrightarrow> sum_list (map f xs) \<le> sum_list (map g xs :: nat list)"
  by (induction xs) (auto intro: add_mono)

lemma length_dumps_str: "2 \<le> length (dumps_str ascii s)"
  by (simp add: dumps_str_def)

lemma need_le_render: "need v \<le> length (render ascii v)"
proof (induction v)
  case (JInt i)
  then show ?case by (cases "int_str i") auto
next
  case (JFloat m e)
  then show ?case by (cases "int_str m") (simp_all add: float_str_def plain_float_def)
next
  case (JStr s)
  then show ?case using length_dumps_str [of ascii s] by simp
next
  case (JArr xs)
  then have "sum_list (map need xs) \<le> sum_list (map (length \<circ> render ascii) xs)"
    by (intro sum_list_le) auto
  then show ?case by (simp add: length_join sum_list_Suc comp_def)
next
  case (JObj d)
  then have "sum_list (map (need \<circ> snd) d) \<le> sum_list (map (length \<circ> render ascii \<circ> snd) d)"
    by (intro sum_list_le) (auto simp: snds.simps)
  moreover have "sum_list (map (length \<circ> render ascii \<circ> snd) d)
      \<le> sum_list (map (length \<circ> ((\<lambda>(k, t). dumps_str ascii k @ '':'' @ t) \<circ> map_prod id (render ascii))) d)"
    by (intro sum_list_le) auto
  ultimately show ?case by (simp add: length_join sum_list_Suc comp_def)
qed auto

lemma render_obj [simp]:
  "render ascii (JObj d) = ''{'' @ join '','' (map (\<lambda>(k, x). dumps_str ascii k @ '':'' @ render ascii x) d) @ ''}''"
proof -
  have "(\<lambda>(k, t). dumps_str ascii k @ '':'' @ t) \<circ> map_prod id (render ascii)
      = (\<lambda>(k, x). dumps_str ascii k @ '':'' @ render ascii x)"
    by auto
  then show ?thesis by simp
qed

declare render.simps(7) [simp del]

text \<open>The first character of a value's text; it is no white space and closes nothing.\<close>

definition opens_value :: "string \<Rightarrow> bool" where
  "opens_value s = (s \<noteq> [] \<and> \<not> is_ws (hd s) \<and> hd s \<noteq> CHR '']'' \<and> hd s \<noteq> CHR ''}'')"

lemma opens_value_int: "opens_value (int_str i)"
  using number_start_hd_int_str [of i] by (auto simp: opens_value_def number_start_def is_digit_def is_ws_def)

lemma opens_value_render: "json_wf v \<Longrightarrow> opens_value (render ascii v)"
proof (cases v)
  case (JInt i)
  then show ?thesis by (simp add: opens_value_int)
next
  case (JFloat m e)
  then show ?thesis
    using number_start_float_str [of m e] by (auto simp: opens_value_def number_start_def is_digit_def is_ws_def)
qed (simp_all add: opens_value_def dumps_str_def)

lemma delim_simps [simp]: "delim []" "delim (CHR '','' # r)" "delim (CHR '']'' # r)" "delim (CHR ''}'' # r)"
  by (simp_all add: delim_def)

text \<open>The parser reads the elements of an array, or the members of an object, when it reads each.\<close>

lemma parse_items_render:
  assumes "\<And>x n r. x \<in> set xs \<Longrightarrow> delim r \<Longrightarrow> need x \<le> n \<Longrightarrow> parse_value h n (render ascii x @ r) = Some (x, r)"
    and "xs \<noteq> []" and "sum_list (map Suc (map need xs)) \<le> n"
  shows "parse_items h n (join '','' (map (render ascii) xs) @ CHR '']'' # r) = Some (xs, r)"
  using assms
proof (induction xs arbitrary: n)
  case Nil
  then show ?case by simp
next
  case (Cons x xs)
  from Cons.prems(3) obtain m where n: "n = Suc m" and m: "need x \<le> m"
    by (cases n) auto
  show ?case
  proof (cases xs)
    case Nil
    with n m Cons.prems(1) [of x] show ?thesis by (simp add: skip_ws_nonws)
  next
    case (Cons y ys)
    have "parse_items h m (join '','' (map (render ascii) xs) @ CHR '']'' # r) = Some (xs, r)"
      using Cons.prems n local.Cons by (intro Cons.IH) auto
    with n m Cons.prems(1) [of x] local.Cons show ?thesis by (simp add: skip_ws_nonws)
  qed
qed

lemma parse_members_render:
  assumes "\<And>k x n r. (k, x) \<in> set d \<Longrightarrow> delim r \<Longrightarrow> need x \<le> n \<Longrightarrow> parse_value h n (render ascii x @ r) = Some (x, r)"
    and "d \<noteq> []" and "sum_list (map (\<lambda>(k, x). Suc (need x)) d) \<le> n"
  shows "parse_members h n
    (join '','' (map (\<lambda>(k, x). dumps_str ascii k @ '':'' @ render ascii x) d) @ CHR ''}'' # r) = Some (d, r)"
  using assms
proof (induction d arbitrary: n)
  case Nil
  then show ?case by simp
next
  case (Cons p d)
  obtain k x where p: "p = (k, x)" by (cases p)
  from Cons.prems(3) p obtain m where n: "n = Suc m" and m: "need x \<le> m"
    by (cases n) auto
  note val = Cons.prems(1) [of k x] and str = parse_str_escape [of ascii k]
  show ?case
  proof (cases d)
    case Nil
    with n m p val str show ?thesis by (simp add: skip_ws_nonws dumps_str_def)
  next
    case (Cons q e)
    have "parse_members h m
      (join '','' (map (\<lambda>(k, x). dumps_str ascii k @ '':'' @ render ascii x) d) @ CHR ''}'' # r) = Some (d, r)"
      using Cons.prems n p local.Cons by (intro Cons.IH) auto
    with n m p val str local.Cons show ?thesis by (simp add: skip_ws_nonws dumps_str_def)
  qed
qed

text \<open>What is asked of a hook: it keeps an object without a key twice, and makes no other.\<close>

locale faithful_hook =
  fixes h :: object_hook
  assumes keeps_distinct: "distinct (map fst d) \<Longrightarrow> h d = Some d"
    and makes_distinct: "h ps = Some d \<Longrightarrow> distinct (map fst d) \<and> snd ` set d \<subseteq> snd ` set ps"

context faithful_hook begin

lemma parse_value_render:
  "json_wf v \<Longrightarrow> delim r \<Longrightarrow> need v \<le> n \<Longrightarrow> parse_value h n (render ascii v @ r) = Some (v, r)"
proof (induction v arbitrary: n r)
  case (JArr xs)
  then obtain m where n: "n = Suc m" and m: "sum_list (map Suc (map need xs)) \<le> m" by (cases n) auto
  show ?case
  proof (cases xs)
    case Nil
    with n show ?thesis by (simp add: skip_ws_nonws)
  next
    case (Cons x ys)
    have "opens_value (render ascii x)"
      using JArr.prems Cons by (simp add: opens_value_render)
    then obtain c t where ct: "render ascii x = c # t" "\<not> is_ws c" "c \<noteq> CHR '']''"
      by (cases "render ascii x") (auto simp: opens_value_def)
    then obtain u where u: "join '','' (map (render ascii) xs) @ CHR '']'' # r = c # u"
      using Cons by (cases ys) auto
    have "parse_items h m (join '','' (map (render ascii) xs) @ CHR '']'' # r) = Some (xs, r)"
      using JArr m Cons by (intro parse_items_render) auto
    with n u ct show ?thesis by (simp add: skip_ws_nonws)
  qed
next
  case (JObj d)
  then obtain m where n: "n = Suc m" and m: "sum_list (map (\<lambda>(k, x). Suc (need x)) d) \<le> m"
    by (cases n) (auto simp: comp_def split_def)
  show ?case
  proof (cases d)
    case Nil
    with n show ?thesis by (simp add: skip_ws_nonws)
  next
    case (Cons p e)
    let ?t = "join '','' (map (\<lambda>(k, x). dumps_str ascii k @ '':'' @ render ascii x) d) @ CHR ''}'' # r"
    obtain u where u: "?t = CHR 0x22 # u"
      using Cons by (cases p; cases e) (auto simp: dumps_str_def)
    have ih: "parse_value h n (render ascii x @ r) = Some (x, r)"
      if "(k, x) \<in> set d" "delim r" "need x \<le> n" for k x n r
      using that JObj.prems(1) by (intro JObj.IH [of "(k, x)"]) (auto simp: snds.simps)
    have "parse_members h m ?t = Some (d, r)"
      using ih m Cons by (intro parse_members_render) auto
    with n u JObj.prems(1) show ?thesis by (simp add: skip_ws_nonws keeps_distinct)
  qed
next
  case (JInt i)
  then show ?case by (cases n) (simp_all add: parse_value_int del: parse_value.simps(2))
next
  case (JStr s)
  then show ?case by (cases n) (simp_all add: dumps_str_def skip_ws_nonws parse_str_escape)
next
  case JNull
  then show ?case by (cases n) (simp_all add: skip_ws_nonws)
next
  case (JBool b)
  then show ?case by (cases n; cases b) (simp_all add: skip_ws_nonws)
next
  case (JFloat m e)
  then show ?case by (cases n) (simp_all add: parse_value_float del: parse_value.simps(2))
qed

end

lemma json_wf_sort_json: "json_wf v \<Longrightarrow> json_wf (sort_json v)"
  by (induction v) (auto simp: distinct_map_fst_sort comp_def snds.simps)

text \<open>The round trip: what \<open>dumps\<close> wrote is read, and the fuel the reader starts with is enough.\<close>

context faithful_hook begin

lemma reads_back: "json_wf v \<Longrightarrow> loads_with h (dumps ascii v) = Some (sort_json v)"
proof -
  assume "json_wf v"
  then have "json_wf (sort_json v)" by (rule json_wf_sort_json)
  then have "parse_value h (Suc (length (dumps ascii v))) (render ascii (sort_json v) @ []) = Some (sort_json v, [])"
    using need_le_render [of "sort_json v" ascii] by (intro parse_value_render) (simp_all add: dumps_def)
  then show ?thesis by (simp add: loads_with_def dumps_def skip_ws_def)
qed

end

lemma sort_json_idem [simp]: "sort_json (sort_json v) = sort_json v"
proof (induction v)
  case (JObj d)
  have "map_prod id sort_json (map_prod id sort_json p) = map_prod id sort_json p" if "p \<in> set d" for p
    using that JObj.IH [of p "snd p"] by (cases p rule: prod.exhaust) (auto simp: snds.simps)
  then have "map (map_prod id sort_json) (map (map_prod id sort_json) (sort_key fst d))
      = map (map_prod id sort_json) (sort_key fst d)"
    by simp
  then show ?case by (simp only: sort_json.simps sort_key_map_prod sort_key_sorted)
qed auto

lemma dumps_sort_json [simp]: "dumps ascii (sort_json v) = dumps ascii v"
  by (simp add: dumps_def)

section \<open>Parsed objects have no key twice\<close>

primrec json_distinct :: "json \<Rightarrow> bool" where
  "json_distinct JNull = True"
| "json_distinct (JBool b) = True"
| "json_distinct (JInt i) = True"
| "json_distinct (JFloat m e) = True"
| "json_distinct (JStr s) = True"
| "json_distinct (JArr xs) = list_all (\<lambda>b. b) (map json_distinct xs)"
| "json_distinct (JObj d) = (distinct (map fst d) \<and> list_all snd (map (map_prod id json_distinct) d))"

lemma json_distinct_arr [simp]: "json_distinct (JArr xs) = (\<forall>x\<in>set xs. json_distinct x)"
  by (simp add: list_all_iff)

lemma json_distinct_obj [simp]:
  "json_distinct (JObj d) = (distinct (map fst d) \<and> (\<forall>p\<in>set d. json_distinct (snd p)))"
  by (auto simp: list_all_iff)

declare json_distinct.simps(6,7) [simp del]

lemma dict_set_keeps: "\<forall>q\<in>set d. Q (snd q) \<Longrightarrow> Q v \<Longrightarrow> \<forall>q\<in>set (dict_set k v d). Q (snd q)"
  by (induction d) (auto split: if_splits)

lemma foldl_dict_set_keeps:
  "distinct (map fst d) \<Longrightarrow> \<forall>p\<in>set d. Q (snd p) \<Longrightarrow> \<forall>p\<in>set ps. Q (snd p) \<Longrightarrow>
     distinct (map fst (foldl (\<lambda>d (k, v). dict_set k v d) d ps))
     \<and> (\<forall>p\<in>set (foldl (\<lambda>d (k, v). dict_set k v d) d ps). Q (snd p))"
proof (induction ps arbitrary: d)
  case Nil
  then show ?case by simp
next
  case (Cons p ps)
  obtain k v where p: "p = (k, v)" by (cases p rule: prod.exhaust)
  have "distinct (map fst (dict_set k v d))" using Cons.prems(1) by (rule distinct_dict_set)
  moreover have "\<forall>q\<in>set (dict_set k v d). Q (snd q)" using Cons.prems(2,3) p by (intro dict_set_keeps) auto
  moreover have "\<forall>q\<in>set ps. Q (snd q)" using Cons.prems(3) by simp
  ultimately show ?case using Cons.IH [of "dict_set k v d"] p by simp
qed

lemma dict_of_pairs_keeps:
  "\<forall>p\<in>set ps. Q (snd p) \<Longrightarrow> distinct (map fst (dict_of_pairs ps)) \<and> (\<forall>p\<in>set (dict_of_pairs ps). Q (snd p))"
  unfolding dict_of_pairs_def using foldl_dict_set_keeps [of "[]" Q ps] by simp

lemma parse_number_distinct: "parse_number s = Some (v, r) \<Longrightarrow> json_distinct v"
  by (auto simp: parse_number_def Let_def split: if_splits prod.splits list.splits)

text \<open>The branches of the parser's choice, without its conditions.\<close>

lemma if_chain:
  "(if p1 then a else if p2 then b else if p3 then c else if p4 then d else if p5 then e else if p6 then f else g) = x
     \<Longrightarrow> x = a \<or> x = b \<or> x = c \<or> x = d \<or> x = e \<or> x = f \<or> x = g"
  by (auto split: if_splits)

context faithful_hook begin

lemma parse_distinct:
  "parse_value h n s = Some (v, r) \<Longrightarrow> json_distinct v"
  "parse_items h n s' = Some (xs, r) \<Longrightarrow> \<forall>x\<in>set xs. json_distinct x"
  "parse_members h n s'' = Some (ps, r) \<Longrightarrow> \<forall>p\<in>set ps. json_distinct (snd p)"
proof (induction n arbitrary: s s' s'' v xs ps r)
  case 0
  {
    case 1 then show ?case by simp
  next
    case 2 then show ?case by simp
  next
    case 3 then show ?case by simp
  }
next
  case (Suc n)
  {
    case 1
    then obtain c t where "skip_ws s = c # t" by (auto split: list.splits)
    note this [simp]
    from 1 consider
        (str) p where "v = JStr (fst p)"
      | (empty) "v = JArr []"
      | (items) d u q where "parse_items h n (d # u) = Some q" "v = JArr (fst q)"
      | (none) "v = JObj []"
      | (members) d u q o' where "parse_members h n (d # u) = Some q" "h (fst q) = Some o'" "v = JObj o'"
      | (const) "v = JNull \<or> v = JBool True \<or> v = JBool False"
      | (number) "parse_number (c # t) = Some (v, r)"
      apply (simp only: parse_value.simps \<open>skip_ws s = c # t\<close> list.case)
      apply (drule if_chain)
      apply (elim disjE)
            apply (auto split: list.splits Option.bind_splits if_splits)
      done
    then show ?case
    proof cases
      case (items d u q)
      then show ?thesis using Suc.IH(2) [of "d # u" "fst q" "snd q"] by simp
    next
      case (members d u q o')
      then have "\<forall>p\<in>set (fst q). json_distinct (snd p)" using Suc.IH(3) [of "d # u" "fst q" "snd q"] by simp
      then show ?thesis using members(2,3) makes_distinct [OF members(2)] by fastforce
    next
      case number
      then show ?thesis by (rule parse_number_distinct)
    qed auto
  next
    case 2
    then have "\<exists>p. parse_value h n s = Some p
      \<and> (xs = [fst p] \<or> (\<exists>u q. parse_items h n u = Some q \<and> xs = fst p # fst q))"
      by (auto split: list.splits if_splits Option.bind_splits)
    then obtain p where p: "parse_value h n s = Some p"
      and rest: "xs = [fst p] \<or> (\<exists>u q. parse_items h n u = Some q \<and> xs = fst p # fst q)" by blast
    have "json_distinct (fst p)" using Suc.IH(1) [of s "fst p" "snd p"] p by simp
    moreover have "\<forall>x\<in>set (fst q). json_distinct x" if "parse_items h n u = Some q" for u q
      using Suc.IH(2) [of u "fst q" "snd q"] that by simp
    ultimately show ?case using rest by auto
  next
    case 3
    then have "\<exists>k u p. parse_value h n u = Some p
      \<and> (ps = [(k, fst p)] \<or> (\<exists>u q. parse_members h n u = Some q \<and> ps = (k, fst p) # fst q))"
      by (fastforce split: list.splits if_splits Option.bind_splits)
    then obtain k u p where p: "parse_value h n u = Some p"
      and rest: "ps = [(k, fst p)] \<or> (\<exists>u q. parse_members h n u = Some q \<and> ps = (k, fst p) # fst q)" by blast
    have "json_distinct (fst p)" using Suc.IH(1) [of u "fst p" "snd p"] p by simp
    moreover have "\<forall>x\<in>set (fst q). json_distinct (snd x)" if "parse_members h n u = Some q" for u q
      using Suc.IH(3) [of u "fst q" "snd q"] that by simp
    ultimately show ?case using rest by fastforce
  }
qed

lemma reads_distinct: "loads_with h s = Some v \<Longrightarrow> json_distinct v"
proof -
  assume "loads_with h s = Some v"
  then obtain r where "parse_value h (Suc (length s)) s = Some (v, r)"
    unfolding loads_with_def by (auto simp del: parse_value.simps split: option.splits prod.splits if_splits)
  then show "json_distinct v" by (rule parse_distinct(1))
qed

end

section \<open>The two readers\<close>

interpretation last_wins: faithful_hook last_member
proof unfold_locales
  show "distinct (map fst d) \<Longrightarrow> last_member d = Some d" for d :: "(string \<times> json) list"
    by (simp add: last_member_def dict_of_pairs_distinct)
  show "last_member ps = Some d \<Longrightarrow> distinct (map fst d) \<and> snd ` set d \<subseteq> snd ` set ps" for ps d
    using dict_of_pairs_keeps [of ps "\<lambda>v. v \<in> snd ` set ps"] by (auto simp: last_member_def)
qed

interpretation no_twice: faithful_hook unique_members
  by unfold_locales (auto simp: unique_members_def split: if_splits)

lemma loads_dumps [codec_simps]: "json_wf v \<Longrightarrow> loads (dumps ascii v) = Some (sort_json v)"
  unfolding loads_def by (rule last_wins.reads_back)

lemma loads_unique_dumps [codec_simps]: "json_wf v \<Longrightarrow> loads_unique (dumps ascii v) = Some (sort_json v)"
  unfolding loads_unique_def by (rule no_twice.reads_back)

lemma dumps_inject:
  "json_wf v \<Longrightarrow> json_wf w \<Longrightarrow> dumps ascii v = dumps ascii w \<longleftrightarrow> sort_json v = sort_json w"
  by (metis loads_dumps option.inject dumps_def)

lemma loads_distinct: "loads s = Some v \<Longrightarrow> json_distinct v"
  unfolding loads_def by (rule last_wins.reads_distinct)

lemma loads_unique_distinct: "loads_unique s = Some v \<Longrightarrow> json_distinct v"
  unfolding loads_unique_def by (rule no_twice.reads_distinct)

end
