(* ===== verification/PyTime.thy ===== *)
theory PyTime
  imports PyString
begin

text \<open>
  Aware \<open>datetime\<close> values and the text the journal keeps them as.  A datetime is its instant, the
  number of microseconds since 0001-01-01T00:00:00Z; the type holds exactly the instants of the
  years 1 to 9999, so adding a \<open>timedelta\<close> may raise.  \<open>format_time\<close> is
  \<open>value.astimezone(UTC).isoformat().replace("+00:00", "Z")\<close> and \<open>parse_time\<close> is
  \<open>datetime.fromisoformat(value.replace("Z", "+00:00")).astimezone(UTC)\<close> on texts of the form that
  \<open>isoformat\<close> writes, with any offset of whole minutes; on other texts the model raises.
\<close>

abbreviation max_micros :: nat where
  "max_micros \<equiv> 315537897600000000"

typedef datetime = "{t::nat. t < max_micros}"
  morphisms micros Abs_datetime
  by (rule exI [of _ 0]) simp

setup_lifting type_definition_datetime

lift_definition datetime_of :: "nat \<Rightarrow> datetime" is "\<lambda>n. min n (max_micros - 1)"
  by simp

lemma micros_less [simp]: "micros t < max_micros"
  using micros by simp

lemma micros_datetime_of: "n < max_micros \<Longrightarrow> micros (datetime_of n) = n"
  by transfer simp

lemma datetime_of_micros [simp]: "datetime_of (micros t) = t"
  by transfer simp

instantiation datetime :: linorder
begin

definition less_eq_datetime :: "datetime \<Rightarrow> datetime \<Rightarrow> bool" where
  "less_eq_datetime s t = (micros s \<le> micros t)"

definition less_datetime :: "datetime \<Rightarrow> datetime \<Rightarrow> bool" where
  "less_datetime s t = (micros s < micros t)"

instance
  by standard (auto simp: less_eq_datetime_def less_datetime_def micros_inject)

end

instantiation datetime :: equal
begin

definition equal_datetime :: "datetime \<Rightarrow> datetime \<Rightarrow> bool" where
  "equal_datetime s t = (micros s = micros t)"

instance
  by standard (simp add: equal_datetime_def micros_inject)

end

text \<open>\<open>value + timedelta(seconds=n)\<close>, which raises \<open>OverflowError\<close> out of range.\<close>

definition add_seconds :: "datetime \<Rightarrow> int \<Rightarrow> datetime option" where
  "add_seconds t n =
     (let u = int (micros t) + n * 1000000
      in if 0 \<le> u \<and> u < int max_micros then Some (datetime_of (nat u)) else None)"

lemma add_seconds_micros:
  "add_seconds t n = Some u \<Longrightarrow> int (micros u) = int (micros t) + n * 1000000"
  by (auto simp: add_seconds_def Let_def micros_datetime_of split: if_splits)

section \<open>The civil calendar\<close>

text \<open>Days before the first of January of a year, from the epoch.\<close>

definition days_before_year :: "nat \<Rightarrow> nat" where
  "days_before_year y = (y - 1) * 365 + (y - 1) div 4 - (y - 1) div 100 + (y - 1) div 400"

definition leap :: "nat \<Rightarrow> bool" where
  "leap y = (y mod 4 = 0 \<and> (y mod 100 \<noteq> 0 \<or> y mod 400 = 0))"

definition month_lengths :: "nat \<Rightarrow> nat list" where
  "month_lengths y = [31, if leap y then 29 else 28, 31, 30, 31, 30, 31, 31, 30, 31, 30, 31]"

lemma days_before_year_Suc:
  assumes "0 < y"
  shows "days_before_year (Suc y) = days_before_year y + (if leap y then 366 else 365)"
proof -
  obtain x where y: "y = Suc x" using assms by (cases y) auto
  have d: "Suc x mod 400 = 0 \<longrightarrow> Suc x mod 100 = 0" "Suc x mod 100 = 0 \<longrightarrow> Suc x mod 4 = 0"
    by (auto simp: mod_eq_0_iff_dvd intro: dvd_trans [of 100 400 "Suc x"] dvd_trans [of 4 100 "Suc x"])
  define a where "a = x div 4"
  define b where "b = x div 100"
  define c where "c = x div 400"
  have e: "b \<le> a" unfolding a_def b_def by (rule div_le_mono2) simp_all
  have quot: "Suc x div 4 = (if Suc x mod 4 = 0 then Suc a else a)"
    "Suc x div 100 = (if Suc x mod 100 = 0 then Suc b else b)"
    "Suc x div 400 = (if Suc x mod 400 = 0 then Suc c else c)"
    unfolding a_def b_def c_def by (rule div_Suc)+
  have "days_before_year y = x * 365 + a - b + c"
    by (simp add: days_before_year_def y a_def b_def c_def)
  moreover have "days_before_year (Suc y) = Suc x * 365 + Suc x div 4 - Suc x div 100 + Suc x div 400"
    by (simp add: days_before_year_def y)
  ultimately show ?thesis
    using d e unfolding quot leap_def y by (auto split: if_splits)
qed

lemma length_month_lengths: "length (month_lengths y) = 12"
  by (simp add: month_lengths_def)

lemma sum_month_lengths: "sum_list (month_lengths y) = (if leap y then 366 else 365)"
  by (simp add: month_lengths_def)

lemma year_search_measure:
  assumes "0 < y" and "days_before_year (Suc y) \<le> d"
  shows "d - days_before_year (Suc y) < d - days_before_year y"
  using days_before_year_Suc [OF assms(1)] assms(2) by (auto split: if_splits)

function year_search :: "nat \<Rightarrow> nat \<Rightarrow> nat" where
  "year_search y d = (if 0 < y \<and> days_before_year (Suc y) \<le> d then year_search (Suc y) d else y)"
  by pat_completeness auto
termination
  by (relation "measure (\<lambda>(y, d). d - days_before_year y)") (auto intro: year_search_measure)

declare year_search.simps [simp del]

fun month_search :: "nat list \<Rightarrow> nat \<Rightarrow> nat \<Rightarrow> nat \<times> nat" where
  "month_search [] m d = (m, d)"
| "month_search (l # ls) m d = (if d < l then (m, d) else month_search ls (Suc m) (d - l))"

text \<open>Year, month and day of the month of a day number, and back.\<close>

definition civil :: "nat \<Rightarrow> nat \<times> nat \<times> nat" where
  "civil d =
     (let y = year_search (d div 366 + 1) d;
          (m, k) = month_search (month_lengths y) 1 (d - days_before_year y)
      in (y, m, Suc k))"

definition day_number :: "nat \<Rightarrow> nat \<Rightarrow> nat \<Rightarrow> nat" where
  "day_number y m k = days_before_year y + sum_list (take (m - 1) (month_lengths y)) + (k - 1)"

definition valid_civil :: "nat \<Rightarrow> nat \<Rightarrow> nat \<Rightarrow> bool" where
  "valid_civil y m k =
     (1 \<le> y \<and> y \<le> 9999 \<and> 1 \<le> m \<and> m \<le> 12 \<and> 1 \<le> k \<and> k \<le> month_lengths y ! (m - 1))"

lemma year_search_bounds:
  "0 < y \<Longrightarrow> days_before_year y \<le> d \<Longrightarrow>
   0 < year_search y d \<and> days_before_year (year_search y d) \<le> d
     \<and> d < days_before_year (Suc (year_search y d))"
proof (induction y d rule: year_search.induct)
  case (1 y d)
  then show ?case by (cases "days_before_year (Suc y) \<le> d") (auto simp: year_search.simps [of y d])
qed

lemma days_before_year_le: "days_before_year (Suc x) \<le> 366 * x"
  by (simp add: days_before_year_def)

lemma days_before_year_mono: "0 < x \<Longrightarrow> x \<le> y \<Longrightarrow> days_before_year x \<le> days_before_year y"
proof (induction y)
  case (Suc y)
  then show ?case by (cases "x = Suc y") (auto simp: days_before_year_Suc split: if_splits)
qed simp

lemma month_search_bounds:
  "d < sum_list ls \<Longrightarrow> month_search ls m d = (m', k) \<Longrightarrow>
   m \<le> m' \<and> m' < m + length ls \<and> k < ls ! (m' - m) \<and> sum_list (take (m' - m) ls) + k = d"
proof (induction ls m d rule: month_search.induct)
  case (2 l ls m d)
  show ?case
  proof (cases "d < l")
    case True
    with 2 show ?thesis by simp
  next
    case False
    with 2 have "Suc m \<le> m' \<and> m' < Suc m + length ls \<and> k < ls ! (m' - Suc m)
        \<and> sum_list (take (m' - Suc m) ls) + k = d - l"
      by auto
    then have "m' - m = Suc (m' - Suc m)" "Suc m \<le> m'" by auto
    with 2 False \<open>Suc m \<le> m' \<and> _\<close> show ?thesis by auto
  qed
qed simp

lemma civil_correct:
  assumes "civil d = (y, m, k)" and "d < 3652059"
  shows "valid_civil y m k \<and> day_number y m k = d"
proof -
  have "days_before_year (d div 366 + 1) \<le> d"
    using days_before_year_le [of "d div 366"] by simp
  then have y: "0 < y \<and> days_before_year y \<le> d \<and> d < days_before_year (Suc y)"
    using assms(1) year_search_bounds [of "d div 366 + 1" d] by (auto simp: civil_def Let_def split: prod.splits)
  have "y \<le> 9999"
  proof (rule ccontr)
    assume "\<not> y \<le> 9999"
    then have "days_before_year 10000 \<le> days_before_year y" by (intro days_before_year_mono) auto
    moreover have "days_before_year 10000 = 3652059" by (simp add: days_before_year_def)
    ultimately show False using y assms(2) by linarith
  qed
  moreover have lt: "d - days_before_year y < sum_list (month_lengths y)"
    using y days_before_year_Suc [of y] by (auto simp: sum_month_lengths split: if_splits)
  moreover obtain k' where k': "month_search (month_lengths y) 1 (d - days_before_year y) = (m, k')" "k = Suc k'"
    using assms(1) by (auto simp: civil_def Let_def split: prod.splits)
  ultimately show ?thesis
    using month_search_bounds [OF lt k'(1)] y
    by (auto simp: valid_civil_def day_number_def month_lengths_def [of y] simp del: nth_Cons_numeral)
qed

section \<open>The text of a datetime\<close>

definition pad :: "nat \<Rightarrow> nat \<Rightarrow> string" where
  "pad w n = zfill w (nat_str n)"

definition format_time :: "datetime \<Rightarrow> string" where
  "format_time t =
     (let us = micros t mod 1000000;
          s = micros t div 1000000 mod 86400;
          (y, m, k) = civil (micros t div 86400000000)
      in pad 4 y @ ''-'' @ pad 2 m @ ''-'' @ pad 2 k @ ''T'' @
         pad 2 (s div 3600) @ '':'' @ pad 2 (s div 60 mod 60) @ '':'' @ pad 2 (s mod 60) @
         (if us = 0 then [] else ''.'' @ pad 6 us) @ ''Z'')"

text \<open>A number of exactly \<open>w\<close> digits, and one given character.\<close>

definition take_num :: "nat \<Rightarrow> string \<Rightarrow> (nat \<times> string) option" where
  "take_num w s =
     (if length s < w \<or> \<not> list_all is_digit (take w s) then None
      else Some (digits_val (take w s), drop w s))"

fun expect :: "char \<Rightarrow> string \<Rightarrow> string option" where
  "expect c [] = None"
| "expect c (d # s) = (if c = d then Some s else None)"

definition parse_date :: "string \<Rightarrow> (nat \<times> string) option" where
  "parse_date s0 =
     do { (y, s1) \<leftarrow> take_num 4 s0; s2 \<leftarrow> expect CHR ''-'' s1;
          (m, s3) \<leftarrow> take_num 2 s2; s4 \<leftarrow> expect CHR ''-'' s3;
          (k, s5) \<leftarrow> take_num 2 s4;
          if valid_civil y m k then Some (day_number y m k, s5) else None }"

definition parse_clock :: "string \<Rightarrow> (nat \<times> string) option" where
  "parse_clock s0 =
     do { (h, s1) \<leftarrow> take_num 2 s0; s2 \<leftarrow> expect CHR '':'' s1;
          (m, s3) \<leftarrow> take_num 2 s2; s4 \<leftarrow> expect CHR '':'' s3;
          (s, s5) \<leftarrow> take_num 2 s4;
          if h < 24 \<and> m < 60 \<and> s < 60 then Some (h * 3600 + m * 60 + s, s5) else None }"

definition parse_micros :: "string \<Rightarrow> (nat \<times> string) option" where
  "parse_micros s = (case expect CHR ''.'' s of None \<Rightarrow> Some (0, s) | Some r \<Rightarrow> take_num 6 r)"

text \<open>The offset, in minutes east of UTC.\<close>

definition parse_offset :: "string \<Rightarrow> int option" where
  "parse_offset s0 =
     (if s0 = ''Z'' then Some 0
      else do { s1 \<leftarrow> (case expect CHR ''+'' s0 of Some r \<Rightarrow> Some (1::int, r)
                       | None \<Rightarrow> map_option (Pair (- 1)) (expect CHR ''-'' s0));
                (h, s2) \<leftarrow> take_num 2 (snd s1); s3 \<leftarrow> expect CHR '':'' s2;
                (m, s4) \<leftarrow> take_num 2 s3;
                if s4 = [] \<and> h < 24 \<and> m < 60 then Some (fst s1 * int (60 * h + m)) else None })"

definition parse_time :: "string \<Rightarrow> datetime option" where
  "parse_time s0 =
     do { (d, s1) \<leftarrow> parse_date s0; s2 \<leftarrow> expect CHR ''T'' s1;
          (s, s3) \<leftarrow> parse_clock s2; (us, s4) \<leftarrow> parse_micros s3; off \<leftarrow> parse_offset s4;
          let u = int ((d * 86400 + s) * 1000000 + us) - off * 60000000
          in if 0 \<le> u \<and> u < int max_micros then Some (datetime_of (nat u)) else None }"

section \<open>Parsing what was formatted\<close>

lemma length_pad: "n < 10 ^ w \<Longrightarrow> 0 < w \<Longrightarrow> length (pad w n) = w"
  using length_nat_str [of n w] by (simp add: pad_def zfill_def)

lemma pad_digits: "list_all is_digit (pad w n)"
  by (auto simp: pad_def zfill_def list_all_iff is_digit_def dest: nat_str_digits [unfolded is_digit_def])

lemma take_num_pad [simp]: "n < 10 ^ w \<Longrightarrow> 0 < w \<Longrightarrow> take_num w (pad w n @ r) = Some (n, r)"
  using length_pad [of n w] pad_digits [of w n]
  by (simp add: take_num_def) (simp add: pad_def zfill_def digits_val_zeros)

lemma parse_date_pad:
  "valid_civil y m k \<Longrightarrow>
   parse_date (pad 4 y @ CHR ''-'' # pad 2 m @ CHR ''-'' # pad 2 k @ r) = Some (day_number y m k, r)"
proof -
  assume v: "valid_civil y m k"
  have "k \<le> 31"
  proof -
    have "l \<le> 31" if "l \<in> set (month_lengths y)" for l
      using that by (auto simp: month_lengths_def split: if_splits)
    moreover have "month_lengths y ! (m - 1) \<in> set (month_lengths y)"
      using v by (intro nth_mem) (auto simp: valid_civil_def length_month_lengths)
    ultimately show ?thesis using v by (fastforce simp: valid_civil_def)
  qed
  with v show ?thesis by (simp add: parse_date_def valid_civil_def)
qed

lemma parse_clock_pad:
  "s < 86400 \<Longrightarrow>
   parse_clock (pad 2 (s div 3600) @ CHR '':'' # pad 2 (s div 60 mod 60) @ CHR '':'' # pad 2 (s mod 60) @ r)
     = Some (s, r)"
proof -
  assume s: "s < 86400"
  then have h: "s div 3600 < 24" by (simp add: div_less_iff_less_mult)
  have b: "s div 60 mod 60 < 60" "s mod 60 < 60" by simp_all
  have "s div 3600 = s div 60 div 60" by (simp add: div_mult2_eq [symmetric])
  then have "s div 3600 * 3600 + s div 60 mod 60 * 60 + s mod 60 = s"
    using mult_div_mod_eq [of 60 "s div 60"] mult_div_mod_eq [of 60 s] by linarith
  with h b show ?thesis by (simp add: parse_clock_def)
qed

lemma parse_format_time [codec_simps, simp]: "parse_time (format_time t) = Some t"
proof -
  let ?n = "micros t"
  define us where "us = ?n mod 1000000"
  define s where "s = ?n div 1000000 mod 86400"
  define d where "d = ?n div 86400000000"
  obtain y m k where c: "civil d = (y, m, k)" by (cases "civil d")
  have "d < 3652059" unfolding d_def using micros_less [of t] by (simp add: div_less_iff_less_mult)
  with c have v: "valid_civil y m k" and dn: "day_number y m k = d"
    using civil_correct by auto
  have us: "us < 1000000" and s: "s < 86400" by (simp_all add: us_def s_def)
  have "d = ?n div 1000000 div 86400" by (simp add: d_def div_mult2_eq [symmetric])
  then have sum: "(d * 86400 + s) * 1000000 + us = ?n"
    using mult_div_mod_eq [of 86400 "?n div 1000000"] mult_div_mod_eq [of 1000000 ?n]
    by (simp add: us_def s_def mult.commute)
  have tail: "parse_micros ((if us = 0 then [] else ''.'' @ pad 6 us) @ ''Z'') = Some (us, ''Z'')"
    using us by (simp add: parse_micros_def)
  have "int ((d * 86400 + s) * 1000000 + us) < int max_micros"
    unfolding sum using micros_less [of t] by (simp only: of_nat_less_iff)
  then have "parse_time (pad 4 y @ ''-'' @ pad 2 m @ ''-'' @ pad 2 k @ ''T'' @
      pad 2 (s div 3600) @ '':'' @ pad 2 (s div 60 mod 60) @ '':'' @ pad 2 (s mod 60) @
      (if us = 0 then [] else ''.'' @ pad 6 us) @ ''Z'') = Some (datetime_of (nat (int ((d * 86400 + s) * 1000000 + us))))"
    using tail by (simp add: parse_time_def parse_date_pad [OF v] dn parse_clock_pad [OF s] parse_offset_def Let_def
        del: of_nat_add of_nat_mult)
  then show ?thesis
    unfolding sum by (simp add: format_time_def us_def [symmetric] s_def [symmetric] d_def [symmetric] c)
qed

lemma format_time_inject [simp]: "format_time s = format_time t \<longleftrightarrow> s = t"
  by (metis option.inject parse_format_time)

end
