(* ===== verification/Signals.thy ===== *)
theory Signals
  imports JsonRound PyTime
begin

text \<open>
  The data of the signal engine (\<open>src/src/codex_wake/signals.py\<close>): the dataclasses, field by field and
  with their union types as datatypes, the checks every engine makes of a request, an anchor and an
  observation, and the source runner that only reports bad health.  Identifiers (\<open>WakeId\<close>, \<open>ArmId\<close>,
  \<open>ReceiptId\<close>, \<open>MatchToken\<close>) are strings.  A frozenset is a list whose order and repetitions no
  operation reads; a mapping is a dictionary, and a \<open>MappingProxyType\<close> of a copy is the value itself.
\<close>

section \<open>Scalars\<close>

datatype scalar = SStr string | SInt int | SBool bool

datatype py_type = TStr | TInt | TBool | TOther string

fun type_of :: "scalar \<Rightarrow> py_type" where
  "type_of (SStr _) = TStr"
| "type_of (SInt _) = TInt"
| "type_of (SBool _) = TBool"

text \<open>Python's \<open>==\<close>, under which \<open>True\<close> is 1 and \<open>False\<close> is 0.\<close>

fun scalar_num :: "scalar \<Rightarrow> int option" where
  "scalar_num (SInt i) = Some i"
| "scalar_num (SBool b) = Some (if b then 1 else 0)"
| "scalar_num (SStr _) = None"

definition scalar_eq :: "scalar \<Rightarrow> scalar \<Rightarrow> bool" where
  "scalar_eq v w =
     (case (v, w) of (SStr s, SStr t) \<Rightarrow> s = t
      | _ \<Rightarrow> scalar_num v \<noteq> None \<and> scalar_num v = scalar_num w)"

fun scalar_json :: "scalar \<Rightarrow> json" where
  "scalar_json (SStr s) = JStr s"
| "scalar_json (SInt i) = JInt i"
| "scalar_json (SBool b) = JBool b"

fun json_scalar :: "json \<Rightarrow> scalar option" where
  "json_scalar (JStr s) = Some (SStr s)"
| "json_scalar (JInt i) = Some (SInt i)"
| "json_scalar (JBool b) = Some (SBool b)"
| "json_scalar _ = None"

definition scalars_json :: "(string, scalar) dict \<Rightarrow> json" where
  "scalars_json d = JObj (map (map_prod id scalar_json) d)"

definition dict_eq :: "(string, scalar) dict \<Rightarrow> (string, scalar) dict \<Rightarrow> bool" where
  "dict_eq d e =
     (length d = length e
      \<and> list_all (\<lambda>(k, v). case dict_get e k of None \<Rightarrow> False | Some w \<Rightarrow> scalar_eq v w) d)"

section \<open>Requests, anchors and contracts\<close>

datatype where_clause =
    Eq string scalar
  | In string "scalar list"

fun clause_field :: "where_clause \<Rightarrow> string" where
  "clause_field (Eq f _) = f"
| "clause_field (In f _) = f"

record signal_request =
  rq_contract_version :: scalar
  rq_source :: string
  rq_source_instance :: string
  rq_semantics :: string
  rq_kind :: string
  rq_subject :: string
  rq_condition :: string
  rq_where :: "where_clause list"
  rq_verification :: string

record resume =
  rs_prompt :: string
  rs_cwd :: string
  rs_target :: "(string, json) dict"

record wake_intent =
  wi_when :: signal_request
  wi_resume :: resume
  wi_expires_at :: "datetime option"
  wi_max_attempts :: int

record source_anchor =
  an_local_after_sequence :: int
  an_source_anchor :: string
  an_baseline :: "(string, scalar) dict"
  an_recovery :: string

record source_contract =
  ct_source :: string
  ct_source_instance :: string
  ct_kinds :: "string list"
  ct_subjects :: "string list"
  ct_allowed_attributes :: "(string, py_type) dict"
  ct_max_clauses :: int
  ct_max_in_values :: int
  ct_max_attribute_bytes :: int
  ct_max_evidence_ref_bytes :: int
  ct_occurrence_order_attribute :: "string option"

section \<open>Observations and receipts\<close>

record verification =
  vf_state :: string
  vf_method :: string

record observation =
  ob_source :: string
  ob_source_instance :: string
  ob_kind :: string
  ob_subject :: string
  ob_occurrence_namespace :: string
  ob_occurrence_value :: string
  ob_occurred_at :: datetime
  ob_observed_at :: datetime
  ob_attributes :: "(string, scalar) dict"
  ob_verification :: verification
  ob_evidence_ref :: "string option"

type_synonym identity = "string \<times> string \<times> string \<times> string"

definition identity_of :: "observation \<Rightarrow> identity" where
  "identity_of ob =
     (ob_source ob, ob_source_instance ob, ob_occurrence_namespace ob, ob_occurrence_value ob)"

text \<open>The dataclass's \<open>==\<close>: field by field, the attributes as dictionaries.\<close>

definition observation_eq :: "observation \<Rightarrow> observation \<Rightarrow> bool" where
  "observation_eq a b =
     (a\<lparr>ob_attributes := []\<rparr> = b\<lparr>ob_attributes := []\<rparr> \<and> dict_eq (ob_attributes a) (ob_attributes b))"

record source_commit =
  cm_source :: string
  cm_source_instance :: string
  cm_checkpoint :: string
  cm_checkpoint_order :: int
  cm_observed_through :: datetime

record receipt_ref =
  rr_receipt_id :: string
  rr_local_sequence :: int
  rr_duplicate :: bool

record ingested =
  ig_receipts :: "receipt_ref list"
  ig_checkpoint :: string

record evaluation_limits =
  lm_max_candidates :: int
  lm_max_attribute_bytes :: int
  lm_max_evidence_ref_bytes :: int

record evidence_summary =
  ev_receipt_id :: string
  ev_local_sequence :: int
  ev_evidence_ref :: "string option"
  ev_attributes :: "(string, scalar) dict"
  ev_verification_state :: string
  ev_verification_method :: string

record matched =
  mt_wake_id :: string
  mt_match_token :: string
  mt_receipt :: evidence_summary
  mt_matched_at :: datetime

record armed_signal =
  am_wake_id :: string
  am_arm_id :: string
  am_spec :: signal_request
  am_anchor :: source_anchor
  am_registered_at :: datetime
  am_expires_at :: "datetime option"
  am_publication :: string

record registration =
  rg_wake_id :: string
  rg_arm_id :: string
  rg_contract_version :: scalar
  rg_source :: string
  rg_source_instance :: string
  rg_subject :: string
  rg_registered_at :: datetime
  rg_recovery :: string

section \<open>Outcomes\<close>

datatype invalid = InvalidOf (iv_wake_id: "string option") (iv_code: string) (iv_issues: "string list")

datatype degraded =
  DegradedOf (dg_wake_id: "string option") (dg_code: string) (dg_retry_at: "datetime option")
    (dg_evidence_ref: "string option")

text \<open>The union a call of the engine returns: its own result, \<open>Degraded\<close> or \<open>Invalid\<close>.\<close>

datatype 'a outcome = Ok 'a | Degraded degraded | Invalid invalid

abbreviation degraded_at :: "string option \<Rightarrow> string \<Rightarrow> datetime option \<Rightarrow> 'a outcome" where
  "degraded_at w code retry \<equiv> Degraded (DegradedOf w code retry None)"

abbreviation invalid_as :: "string option \<Rightarrow> string \<Rightarrow> string \<Rightarrow> 'a outcome" where
  "invalid_as w code issue \<equiv> Invalid (InvalidOf w code [issue])"

datatype evaluation =
    Matched matched
  | NotReady string int
  | Expired string datetime

text \<open>An adapter: \<open>contract()\<close> and \<open>establish_anchor(spec, now)\<close> are code of the source; either may raise.\<close>

record source_adapter =
  ad_contract :: "source_contract option"
  ad_establish_anchor :: "signal_request \<Rightarrow> datetime \<Rightarrow> source_anchor outcome option"

record arm_context =
  ac_idempotency_key :: string
  ac_intent_fingerprint :: string
  ac_registered_at :: datetime
  ac_expires_at :: "datetime option"
  ac_resume :: resume
  ac_adapter :: source_adapter
  ac_max_attempts :: int

section \<open>Checking a request against its contract\<close>

definition invalid_signal :: invalid where
  "invalid_signal = InvalidOf None ''INVALID_SIGNAL'' [''signal specification is invalid'']"

definition valid_occurrence_order :: "source_contract \<Rightarrow> signal_request \<Rightarrow> bool" where
  "valid_occurrence_order contract spec =
     (case ct_occurrence_order_attribute contract of
        None \<Rightarrow> True
      | Some key \<Rightarrow>
          dict_get (ct_allowed_attributes contract) key = Some TInt
          \<and> (rq_semantics spec, rq_condition spec) = (''occurrence'', ''occurs''))"

definition valid_clause :: "source_contract \<Rightarrow> where_clause \<Rightarrow> bool" where
  "valid_clause contract clause =
     (case dict_get (ct_allowed_attributes contract) (clause_field clause) of
        None \<Rightarrow> False
      | Some expected \<Rightarrow>
          (case clause of
             Eq _ v \<Rightarrow> type_of v = expected
           | In _ vs \<Rightarrow>
               vs \<noteq> [] \<and> int (length vs) \<le> ct_max_in_values contract
               \<and> list_all (\<lambda>v. type_of v = expected) vs))"

definition validate_signal :: "signal_request \<Rightarrow> source_contract \<Rightarrow> invalid option" where
  "validate_signal spec contract =
     (if \<not> valid_occurrence_order contract spec then Some invalid_signal
      else if rq_contract_version spec \<noteq> SInt 1 then Some invalid_signal
      else if rq_source spec \<noteq> ct_source contract
           \<or> rq_source_instance spec \<noteq> ct_source_instance contract then Some invalid_signal
      else if rq_kind spec \<notin> set (ct_kinds contract)
           \<or> rq_subject spec \<notin> set (ct_subjects contract) then Some invalid_signal
      else if (rq_semantics spec, rq_condition spec)
           \<notin> {(''occurrence'', ''occurs''), (''state'', ''holds''), (''state'', ''becomes'')}
        then Some invalid_signal
      else if int (length (rq_where spec)) > ct_max_clauses contract then Some invalid_signal
      else if \<not> list_all (valid_clause contract) (rq_where spec) then Some invalid_signal
      else None)"

section \<open>Occurrence ordering\<close>

definition validate_occurrence_anchor ::
  "source_contract \<Rightarrow> signal_request \<Rightarrow> source_anchor \<Rightarrow> invalid option" where
  "validate_occurrence_anchor contract spec anchor =
     (if valid_occurrence_order contract spec
         \<and> (case ct_occurrence_order_attribute contract of
              None \<Rightarrow> True
            | Some key \<Rightarrow> map_option type_of (dict_get (an_baseline anchor) key) = Some TInt)
      then None
      else Some (InvalidOf None ''OCCURRENCE_ANCHOR_INVALID''
                   [''occurrence ordering configuration is invalid'']))"

text \<open>\<open>None\<close>: the baseline has no such entry, or one that does not compare with a number.\<close>

definition occurrence_is_after_anchor ::
  "observation \<Rightarrow> source_contract \<Rightarrow> source_anchor \<Rightarrow> (invalid + bool) option" where
  "occurrence_is_after_anchor ob contract anchor =
     (case ct_occurrence_order_attribute contract of
        None \<Rightarrow> Some (Inr True)
      | Some key \<Rightarrow>
          (case dict_get (ob_attributes ob) key of
             Some (SInt v) \<Rightarrow>
               do { b \<leftarrow> dict_get (an_baseline anchor) key; n \<leftarrow> scalar_num b; Some (Inr (v > n)) }
           | _ \<Rightarrow> Some (Inl (InvalidOf None ''OCCURRENCE_ORDER_INVALID''
                               [''observation ordering evidence is invalid'']))))"

definition matches_clause :: "observation \<Rightarrow> where_clause \<Rightarrow> bool" where
  "matches_clause ob clause =
     (case dict_get (ob_attributes ob) (clause_field clause) of
        None \<Rightarrow> False
      | Some v \<Rightarrow> (case clause of Eq _ w \<Rightarrow> scalar_eq v w | In _ ws \<Rightarrow> list_ex (scalar_eq v) ws))"

definition matches :: "observation \<Rightarrow> where_clause list \<Rightarrow> bool" where
  "matches ob clauses = list_all (matches_clause ob) clauses"

text \<open>Names that an attribute must not contain, whatever the case of its letters.\<close>

definition forbidden_parts :: "string list" where
  "forbidden_parts = [''authorization'', ''cookie'', ''password'', ''secret'', ''signature'', ''token'']"

definition forbidden_name :: "string \<Rightarrow> bool" where
  "forbidden_name name = list_ex (\<lambda>part. is_substring part (casefold name)) forbidden_parts"

text \<open>The loop over the attributes of an observation: the first one the contract refuses decides.\<close>

fun check_attributes :: "source_contract \<Rightarrow> (string, scalar) dict \<Rightarrow> invalid option" where
  "check_attributes contract [] = None"
| "check_attributes contract ((name, v) # rest) =
     (if forbidden_name name
      then Some (InvalidOf None ''ATTRIBUTE_NOT_ALLOWED'' [''observation contains a forbidden attribute''])
      else if dict_get (ct_allowed_attributes contract) name \<noteq> Some (type_of v)
      then Some (InvalidOf None ''ATTRIBUTE_NOT_ALLOWED'' [''observation contains an unsupported attribute''])
      else check_attributes contract rest)"

section \<open>Reporting health\<close>

definition source_health_codes :: "string list" where
  "source_health_codes =
    [''RUNTIME_NOT_OBSERVED'', ''RUNTIME_READY'', ''RUNTIME_SOURCE_UNSUPPORTED'',
     ''RUNTIME_AUTHORIZATION_DENIED'', ''RUNTIME_OBSERVATION_UNAVAILABLE'',
     ''RUNTIME_OBSERVATION_AMBIGUOUS'', ''RUNTIME_BASELINE_MATCHES'', ''RUNTIME_RESOURCE_LIMIT'',
     ''RUNTIME_ANCHOR_INVALID'', ''RUNTIME_REQUEST_INVALID'', ''RUNTIME_CHECKPOINT_UNAVAILABLE'',
     ''RUNTIME_CHECKPOINT_INVALID'', ''RUNTIME_INGEST_UNAVAILABLE'', ''RUNTIME_PUBLICATION_UNAVAILABLE'',
     ''SYSTEMD_READY'', ''SYSTEMD_SOURCE_UNSUPPORTED'', ''SYSTEMD_CAPABILITY_DENIED'',
     ''SYSTEMD_AUTHORIZATION_DENIED'', ''SYSTEMD_SIGNAL_NOT_ALLOWED'', ''SYSTEMD_BASELINE_MATCHES'',
     ''SYSTEMD_OBSERVATION_UNAVAILABLE'', ''SYSTEMD_UNIT_UNAVAILABLE'', ''SYSTEMD_RESOURCE_LIMIT'',
     ''SYSTEMD_CHECKPOINT_UNAVAILABLE'', ''SYSTEMD_CHECKPOINT_INVALID'', ''SYSTEMD_INGEST_UNAVAILABLE'',
     ''SYSTEMD_ANCHOR_INVALID'',
     ''GITHUB_AUTH_UNAVAILABLE'', ''GITHUB_RATE_LIMITED'', ''GITHUB_SOURCE_UNAVAILABLE'',
     ''GITHUB_VERIFICATION_FAILED'', ''GITHUB_RESPONSE_INVALID'',
     ''GITHUB_POLL_BUDGET_EXHAUSTED'', ''GITHUB_COVERAGE_UNPROVEN'',
     ''GITHUB_HISTORY_GAP'', ''GITHUB_PAGINATION_INVALID'', ''STORE_UNAVAILABLE'',
     ''HTTP_JSON_SOURCE_UNAVAILABLE'',
     ''A2A_READY'', ''A2A_ANCHOR_INVALID'', ''A2A_AUTHORITY_UNAVAILABLE'',
     ''A2A_PUBLICATION_UNAVAILABLE'']"

record instance_result =
  ir_source :: string
  ir_source_instance :: string
  ir_scanned :: int
  ir_observed :: int
  ir_degraded :: int
  ir_health_code :: string
  ir_observed_at :: "datetime option"

text \<open>The constructor with its \<open>__post_init__\<close>, which raises \<open>ValueError\<close>; datetimes are aware here.\<close>

definition make_instance_result ::
  "string \<Rightarrow> string \<Rightarrow> int \<Rightarrow> int \<Rightarrow> int \<Rightarrow> string \<Rightarrow> datetime option \<Rightarrow> instance_result option" where
  "make_instance_result src inst scanned observed degraded code at =
     (if length code > 80 \<or> (code \<noteq> [] \<and> code \<notin> set source_health_codes) then None
      else Some \<lparr>ir_source = src, ir_source_instance = inst, ir_scanned = scanned,
                 ir_observed = observed, ir_degraded = degraded, ir_health_code = code,
                 ir_observed_at = at\<rparr>)"

record reconcile_result =
  sr_source :: string
  sr_scanned :: int
  sr_observed :: int
  sr_degraded :: int
  sr_instances :: "instance_result list"

record unavailable_runner =
  ur_source :: string
  ur_source_instance :: string
  ur_health_code :: string

definition unavailable_reconcile :: "unavailable_runner \<Rightarrow> datetime \<Rightarrow> reconcile_result option" where
  "unavailable_reconcile r now =
     do { row \<leftarrow> make_instance_result (ur_source r) (ur_source_instance r) 0 0 1 (ur_health_code r) (Some now);
          Some \<lparr>sr_source = ur_source r, sr_scanned = 0, sr_observed = 0, sr_degraded = 1,
                sr_instances = [row]\<rparr> }"

section \<open>The scripted adapter\<close>

text \<open>It answers from a list of anchor results, repeating the last one; the constructor refuses an empty list.\<close>

record scripted_adapter =
  sa_contract :: source_contract
  sa_anchors :: "source_anchor outcome list"
  sa_anchor_calls :: nat

definition make_scripted_adapter ::
  "source_contract \<Rightarrow> source_anchor option \<Rightarrow> source_anchor outcome list \<Rightarrow> scripted_adapter option" where
  "make_scripted_adapter contract anchor anchors =
     (let configured = (if anchors \<noteq> [] then anchors
                        else case anchor of None \<Rightarrow> [] | Some a \<Rightarrow> [Ok a])
      in if configured = [] then None
         else Some \<lparr>sa_contract = contract, sa_anchors = configured, sa_anchor_calls = 0\<rparr>)"

definition scripted_establish :: "scripted_adapter \<Rightarrow> source_anchor outcome \<times> scripted_adapter" where
  "scripted_establish a =
     (sa_anchors a ! min (sa_anchor_calls a) (length (sa_anchors a) - 1),
      a\<lparr>sa_anchor_calls := Suc (sa_anchor_calls a)\<rparr>)"

section \<open>Facts on the checks\<close>

lemma json_scalar_json [codec_simps, simp]: "json_scalar (scalar_json v) = Some v"
  by (cases v) simp_all

lemma scalar_json_wf [simp]: "json_wf (scalar_json v)"
  by (cases v) simp_all

lemma sort_json_scalar [simp]: "sort_json (scalar_json v) = scalar_json v"
  by (cases v) simp_all

lemma scalar_eq_refl [simp]: "scalar_eq v v"
  by (cases v) (simp_all add: scalar_eq_def)

lemma scalar_eq_sym: "scalar_eq v w = scalar_eq w v"
  by (cases v; cases w) (auto simp: scalar_eq_def)

lemma scalar_eq_typed: "type_of v = type_of w \<Longrightarrow> scalar_eq v w \<longleftrightarrow> v = w"
  by (cases v; cases w) (auto simp: scalar_eq_def split: if_splits)

lemma validate_signal_None_iff:
  "validate_signal spec contract = None \<longleftrightarrow>
     valid_occurrence_order contract spec \<and> rq_contract_version spec = SInt 1
     \<and> rq_source spec = ct_source contract \<and> rq_source_instance spec = ct_source_instance contract
     \<and> rq_kind spec \<in> set (ct_kinds contract) \<and> rq_subject spec \<in> set (ct_subjects contract)
     \<and> (rq_semantics spec, rq_condition spec)
         \<in> {(''occurrence'', ''occurs''), (''state'', ''holds''), (''state'', ''becomes'')}
     \<and> int (length (rq_where spec)) \<le> ct_max_clauses contract
     \<and> list_all (valid_clause contract) (rq_where spec)"
  by (auto simp: validate_signal_def not_less split: if_splits)

text \<open>An anchor that passed the check never makes the order test raise.\<close>

lemma after_anchor_total:
  assumes "validate_occurrence_anchor contract spec anchor = None"
  shows "occurrence_is_after_anchor ob contract anchor \<noteq> None"
proof (cases "ct_occurrence_order_attribute contract")
  case None
  then show ?thesis by (simp add: occurrence_is_after_anchor_def)
next
  case (Some key)
  with assms obtain v where "dict_get (an_baseline anchor) key = Some v" "type_of v = TInt"
    by (auto simp: validate_occurrence_anchor_def split: if_splits)
  with Some show ?thesis
    by (cases v) (auto simp: occurrence_is_after_anchor_def split: option.splits scalar.splits)
qed

end
