(* ===== verification/SignalRecords.thy ===== *)
theory SignalRecords
  imports Signals Sha256
begin

text \<open>
  The schema-v2 wake record (\<open>src/src/codex_wake/signal_records.py\<close>): the structural check that decides
  what counts as one, the record a registration is projected to, and the advertised reader capability.
  A record read from disk is any JSON value, so the check is on \<^typ>\<open>json\<close>; where it asks whether a
  list or a dictionary is in a set of strings, Python raises \<open>TypeError\<close>, which is \<^term>\<open>None\<close> here.
\<close>

section \<open>Identifiers\<close>

definition is_alnum :: "char \<Rightarrow> bool" where
  "is_alnum c = (65 \<le> ord c \<and> ord c \<le> 90 \<or> 97 \<le> ord c \<and> ord c \<le> 122 \<or> is_digit c)"

text \<open>\<open>[A-Za-z0-9][A-Za-z0-9_-]{0,127}\Z\<close>\<close>

definition safe_identifier :: "string \<Rightarrow> bool" where
  "safe_identifier s =
     (s \<noteq> [] \<and> is_alnum (hd s) \<and> length s \<le> 128
      \<and> list_all (\<lambda>c. is_alnum c \<or> c = CHR ''_'' \<or> c = CHR ''-'') (tl s))"

fun is_safe_signal_identifier :: "json \<Rightarrow> bool" where
  "is_safe_signal_identifier (JStr s) = safe_identifier s"
| "is_safe_signal_identifier _ = False"

section \<open>Decoding\<close>

text \<open>\<open>v in {...}\<close> for a set of strings: hashing a list or a dictionary raises.\<close>

fun in_set :: "json \<Rightarrow> string list \<Rightarrow> bool option" where
  "in_set (JStr s) xs = Some (s \<in> set xs)"
| "in_set (JArr _) xs = None"
| "in_set (JObj _) xs = None"
| "in_set _ xs = Some False"

definition nonempty_str :: "json \<Rightarrow> bool" where
  "nonempty_str v = (is_jstr v \<and> truthy v)"

definition record_statuses :: "string list" where
  "record_statuses =
     [''pending'', ''firing'', ''submitted'', ''failed'', ''cancelled'', ''expired'', ''archived'']"

definition required_strings :: "string list" where
  "required_strings =
     [''id'', ''arm_id'', ''journal_uuid'', ''created_at'', ''updated_at'', ''cwd'', ''prompt'',
      ''status'', ''next_attempt_at'']"

definition predicate_strings :: "string list" where
  "predicate_strings =
     [''arm_id'', ''source'', ''source_instance'', ''semantics'', ''kind'', ''subject'', ''condition'',
      ''verification'']"

text \<open>One clause of the \<open>where\<close> list.\<close>

definition clause_ok :: "json \<Rightarrow> bool option" where
  "clause_ok clause =
     (case clause of
        JObj c \<Rightarrow>
          do { known \<leftarrow> in_set (jget c ''op'') [''eq'', ''in''];
               Some (known \<and> nonempty_str (jget c ''field'')
                 \<and> \<not> (jget c ''op'' = JStr ''eq'' \<and> dict_get c ''value'' = None)
                 \<and> \<not> (jget c ''op'' = JStr ''in'' \<and> \<not> is_jarr (jget c ''values''))) }
      | _ \<Rightarrow> Some False)"

fun clauses_ok :: "json list \<Rightarrow> bool option" where
  "clauses_ok [] = Some True"
| "clauses_ok (c # cs) = do { ok \<leftarrow> clause_ok c; if ok then clauses_ok cs else Some False }"

definition is_nonneg_int :: "json \<Rightarrow> bool" where
  "is_nonneg_int v = (case v of JInt i \<Rightarrow> 0 \<le> i | _ \<Rightarrow> False)"

definition is_pos_int :: "json \<Rightarrow> bool" where
  "is_pos_int v = (case v of JInt i \<Rightarrow> 1 \<le> i | _ \<Rightarrow> False)"

text \<open>The checks on the top level of the record.\<close>

definition record_head_ok :: "(string, json) dict \<Rightarrow> bool" where
  "record_head_ok r =
     (py_eq (jget r ''schema_version'') (JInt 2)
      \<and> list_all (\<lambda>name. nonempty_str (jget r name)) required_strings
      \<and> is_safe_signal_identifier (jget r ''id'') \<and> is_safe_signal_identifier (jget r ''arm_id'')
      \<and> jget r ''status'' \<in> JStr ` set record_statuses
      \<and> is_pos_int (jget r ''record_revision'')
      \<and> is_jint (jget r ''attempts'') \<and> is_jint (jget r ''max_attempts'')
      \<and> (is_jint (jget r ''ack_timeout_seconds'') \<or> is_jfloat (jget r ''ack_timeout_seconds''))
      \<and> is_jarr (jget r ''events'') \<and> is_jobj (jget r ''target''))"

text \<open>The checks on the predicate, down to its anchor's baseline.\<close>

definition predicate_ok :: "(string, json) dict \<Rightarrow> (string, json) dict \<Rightarrow> bool" where
  "predicate_ok r p =
     (jget p ''type'' = JStr ''signal''
      \<and> list_all (\<lambda>name. nonempty_str (jget p name)) predicate_strings
      \<and> jget p ''arm_id'' = jget r ''arm_id'' \<and> py_eq (jget p ''contract_version'') (JInt 1)
      \<and> is_safe_signal_identifier (jget p ''arm_id'')
      \<and> jget p ''semantics'' \<in> JStr ` {''occurrence'', ''state''}
      \<and> jget p ''condition'' \<in> JStr ` {''occurs'', ''holds'', ''becomes''}
      \<and> jget p ''verification'' \<in> JStr ` {''required'', ''not_required''}
      \<and> is_jarr (jget p ''where'') \<and> is_jobj (jget p ''anchor''))"

definition anchor_ok :: "(string, json) dict \<Rightarrow> bool" where
  "anchor_ok a =
     (is_nonneg_int (jget a ''local_after_sequence'')
      \<and> is_jstr (jget a ''source_anchor'') \<and> is_jobj (jget a ''baseline''))"

definition decode_signal_record :: "json \<Rightarrow> (string, json) dict option option" where
  "decode_signal_record record =
     (case record of
        JObj r \<Rightarrow>
          (if \<not> record_head_ok r then Some None
           else case jget r ''predicate'' of
             JObj p \<Rightarrow>
               (if \<not> predicate_ok r p then Some None
                else case (jget p ''where'', jget p ''anchor'') of
                  (JArr ws, JObj a) \<Rightarrow>
                    (if \<not> anchor_ok a then Some None
                     else do { recovery \<leftarrow> in_set (jget a ''recovery'')
                                 [''local_journal'', ''source_replay'', ''state_recheck''];
                               if \<not> recovery then Some None
                               else do { ok \<leftarrow> clauses_ok ws; Some (if ok then Some r else None) } })
                | _ \<Rightarrow> Some None)
           | _ \<Rightarrow> Some None)
      | _ \<Rightarrow> Some None)"

section \<open>Building a record\<close>

definition canonical_json :: "json \<Rightarrow> string" where
  "canonical_json v = dumps False v"

definition fingerprint :: "string \<Rightarrow> string" where
  "fingerprint s = sha256_hex s"

definition newline :: string where
  "newline = [chr 10]"

text \<open>\<open>hashlib.sha256((encoded + "\n").encode("utf-8")).hexdigest()\<close>\<close>

definition line_digest :: "string \<Rightarrow> string" where
  "line_digest s = sha256_hex (s @ newline)"

fun clause_json :: "where_clause \<Rightarrow> json" where
  "clause_json (Eq f v) = JObj [(''op'', JStr ''eq''), (''field'', JStr f), (''value'', scalar_json v)]"
| "clause_json (In f vs) =
     JObj [(''op'', JStr ''in''), (''field'', JStr f), (''values'', JArr (map scalar_json vs))]"

definition predicate_json :: "armed_signal \<Rightarrow> json" where
  "predicate_json armed =
     (let spec = am_spec armed; anchor = am_anchor armed in
      JObj [(''type'', JStr ''signal''),
            (''contract_version'', scalar_json (rq_contract_version spec)),
            (''arm_id'', JStr (am_arm_id armed)),
            (''source'', JStr (rq_source spec)),
            (''source_instance'', JStr (rq_source_instance spec)),
            (''semantics'', JStr (rq_semantics spec)),
            (''kind'', JStr (rq_kind spec)),
            (''subject'', JStr (rq_subject spec)),
            (''condition'', JStr (rq_condition spec)),
            (''where'', JArr (map clause_json (rq_where spec))),
            (''verification'', JStr (rq_verification spec)),
            (''anchor'', JObj
              [(''local_after_sequence'', JInt (an_local_after_sequence anchor)),
               (''source_anchor'', JStr (an_source_anchor anchor)),
               (''baseline'', scalars_json (an_baseline anchor)),
               (''recovery'', JStr (an_recovery anchor))])])"

definition event_json :: "string \<Rightarrow> string \<Rightarrow> string \<Rightarrow> json" where
  "event_json at kind message =
     JObj [(''at'', JStr at), (''type'', JStr kind), (''message'', JStr message)]"

text \<open>\<open>resolve\<close> is \<open>Path.resolve\<close>, which asks the file system.\<close>

definition signal_payload ::
  "(string \<Rightarrow> string) \<Rightarrow> armed_signal \<Rightarrow> resume \<Rightarrow> string \<Rightarrow> int \<Rightarrow> int \<Rightarrow> (string, json) dict" where
  "signal_payload resolve armed res journal_uuid revision max_attempts =
     (let timestamp = format_time (am_registered_at armed) in
      [(''schema_version'', JInt 2),
       (''id'', JStr (am_wake_id armed)),
       (''arm_id'', JStr (am_arm_id armed)),
       (''journal_uuid'', JStr journal_uuid),
       (''record_revision'', JInt revision),
       (''created_at'', JStr timestamp),
       (''updated_at'', JStr timestamp),
       (''cwd'', JStr (resolve (rs_cwd res))),
       (''target'', JObj (rs_target res)),
       (''predicate'', predicate_json armed),
       (''prompt'', JStr (rs_prompt res)),
       (''status'', JStr ''pending''),
       (''attempts'', JInt 0),
       (''max_attempts'', JInt max_attempts),
       (''ack_timeout_seconds'', JInt 30),
       (''next_attempt_at'', JStr timestamp),
       (''events'', JArr [event_json timestamp ''created'' ''Signal wake record created''])])"

definition build_signal_record ::
  "(string \<Rightarrow> string) \<Rightarrow> armed_signal \<Rightarrow> resume \<Rightarrow> string \<Rightarrow> int \<Rightarrow> int \<Rightarrow> string \<times> string" where
  "build_signal_record resolve armed res journal_uuid revision max_attempts =
     (let encoded = canonical_json (JObj (signal_payload resolve armed res journal_uuid revision max_attempts))
      in (encoded, line_digest encoded))"

section \<open>Facts\<close>

text \<open>A decoded record is the record itself, with a safe identifier and a positive revision.\<close>

lemma decode_SomeD:
  assumes "decode_signal_record record = Some (Some r)"
  shows "record = JObj r \<and> record_head_ok r"
  using assms
  by (auto simp: decode_signal_record_def split: json.splits if_splits Option.bind_splits)

lemma nonempty_str_cases: "nonempty_str v \<longleftrightarrow> (\<exists>s. v = JStr s \<and> s \<noteq> [])"
  by (cases v) (auto simp: nonempty_str_def)

lemma record_head_id: "record_head_ok r \<Longrightarrow> \<exists>w. jget r ''id'' = JStr w \<and> safe_identifier w"
  by (auto simp: record_head_ok_def required_strings_def nonempty_str_cases)

lemma record_head_status: "record_head_ok r \<Longrightarrow> \<exists>s \<in> set record_statuses. jget r ''status'' = JStr s"
  by (auto simp: record_head_ok_def)

lemma record_head_revision: "record_head_ok r \<Longrightarrow> \<exists>n. jget r ''record_revision'' = JInt n \<and> 1 \<le> n"
  by (auto simp: record_head_ok_def is_pos_int_def split: json.splits)

lemma safe_identifier_no_separator:
  assumes "safe_identifier s"
  shows "CHR ''/'' \<notin> set s \<and> CHR ''.'' \<notin> set s \<and> s \<noteq> []"
proof -
  obtain c cs where s: "s = c # cs" using assms by (cases s) (auto simp: safe_identifier_def)
  have "\<not> is_alnum CHR ''/''" "\<not> is_alnum CHR ''.''" by (simp_all add: is_alnum_def is_digit_def)
  then show ?thesis using assms s by (auto simp: safe_identifier_def list_all_iff)
qed


section \<open>Properties\<close>

text \<open>C40. What \<open>_canonical_json\<close> writes is read back by \<open>json.loads\<close> as the same value with the keys of
  its objects sorted, and two values have one canonical text exactly when they differ in no more
  than the order of their keys; so a fingerprint is a fingerprint of the content.\<close>

theorem canonical_json_round_trip:
  assumes "json_wf v" and "json_wf w"
  shows "loads (canonical_json v) = Some (sort_json v)
    \<and> (canonical_json v = canonical_json w \<longleftrightarrow> sort_json v = sort_json w)"
  using assms by (simp add: canonical_json_def loads_dumps dumps_inject)

lemma canonical_json_round_trip_witness:
  "loads (canonical_json (JObj [(''b'', JInt 1), (''a'', JNull)]))
     = Some (sort_json (JObj [(''b'', JInt 1), (''a'', JNull)]))"
  using canonical_json_round_trip [of "JObj [(''b'', JInt 1), (''a'', JNull)]" JNull] by simp

end
