(* ===== verification/Codec.thy ===== *)
theory Codec
  imports SignalRecords
begin

text \<open>
  The JSON columns of the journal (the second half of \<open>src/src/codex_wake/signal_store.py\<close>): what is
  written for a request, a resume intent, a source contract, an observation and a match, the functions
  that read them back, and the check of an observation against its contract.  Reading returns
  \<^term>\<open>None\<close> where Python raises; a column that holds a value of another type than the one the
  writer puts there counts as unreadable.
\<close>

section \<open>Requests and resume intents\<close>

definition spec_payload :: "signal_request \<Rightarrow> json" where
  "spec_payload spec =
     JObj [(''contract_version'', scalar_json (rq_contract_version spec)),
           (''source'', JStr (rq_source spec)),
           (''source_instance'', JStr (rq_source_instance spec)),
           (''semantics'', JStr (rq_semantics spec)),
           (''kind'', JStr (rq_kind spec)),
           (''subject'', JStr (rq_subject spec)),
           (''condition'', JStr (rq_condition spec)),
           (''where'', JArr (map clause_json (rq_where spec))),
           (''verification'', JStr (rq_verification spec))]"

definition str_at :: "json \<Rightarrow> string \<Rightarrow> string option" where
  "str_at v k = Option.bind (jindex v k) jstr"

definition int_at :: "json \<Rightarrow> string \<Rightarrow> int option" where
  "int_at v k = Option.bind (jindex v k) jint"

text \<open>A member that is a string or null.\<close>

definition opt_str_at :: "json \<Rightarrow> string \<Rightarrow> string option option" where
  "opt_str_at v k =
     (case jindex v k of Some JNull \<Rightarrow> Some None | Some (JStr s) \<Rightarrow> Some (Some s) | _ \<Rightarrow> None)"

text \<open>An object whose values are all scalars.\<close>

fun json_scalars :: "(string, json) dict \<Rightarrow> (string, scalar) dict option" where
  "json_scalars [] = Some []"
| "json_scalars ((k, v) # d) = do { s \<leftarrow> json_scalar v; r \<leftarrow> json_scalars d; Some ((k, s) # r) }"

definition scalars_at :: "json \<Rightarrow> string \<Rightarrow> (string, scalar) dict option" where
  "scalars_at v k = do { m \<leftarrow> jindex v k; d \<leftarrow> jobj m; json_scalars d }"

definition clause_from_json :: "json \<Rightarrow> where_clause option" where
  "clause_from_json item =
     do { op \<leftarrow> jindex item ''op'';
          f \<leftarrow> str_at item ''field'';
          if op = JStr ''eq''
          then do { v \<leftarrow> jindex item ''value''; s \<leftarrow> json_scalar v; Some (Eq f s) }
          else do { m \<leftarrow> jindex item ''values''; vs \<leftarrow> jarr m;
                    ss \<leftarrow> those (map json_scalar vs); Some (In f ss) } }"

definition spec_from_json :: "string \<Rightarrow> signal_request option" where
  "spec_from_json text =
     do { payload \<leftarrow> loads text;
          items \<leftarrow> Option.bind (jindex payload ''where'') jarr;
          clauses \<leftarrow> those (map clause_from_json items);
          version \<leftarrow> Option.bind (jindex payload ''contract_version'') json_scalar;
          src \<leftarrow> str_at payload ''source'';
          inst \<leftarrow> str_at payload ''source_instance'';
          sem \<leftarrow> str_at payload ''semantics'';
          kind \<leftarrow> str_at payload ''kind'';
          subj \<leftarrow> str_at payload ''subject'';
          cond \<leftarrow> str_at payload ''condition'';
          verif \<leftarrow> str_at payload ''verification'';
          Some \<lparr>rq_contract_version = version, rq_source = src, rq_source_instance = inst,
                rq_semantics = sem, rq_kind = kind, rq_subject = subj, rq_condition = cond,
                rq_where = clauses, rq_verification = verif\<rparr> }"

definition resume_payload :: "resume \<Rightarrow> json" where
  "resume_payload res =
     JObj [(''prompt'', JStr (rs_prompt res)), (''cwd'', JStr (rs_cwd res)), (''target'', JObj (rs_target res))]"

definition resume_from_json :: "string \<Rightarrow> resume option" where
  "resume_from_json text =
     do { payload \<leftarrow> loads text;
          prompt \<leftarrow> str_at payload ''prompt'';
          cwd \<leftarrow> str_at payload ''cwd'';
          target \<leftarrow> Option.bind (jindex payload ''target'') jobj;
          Some \<lparr>rs_prompt = prompt, rs_cwd = cwd, rs_target = target\<rparr> }"

section \<open>Contracts\<close>

definition type_names :: "(py_type, string) dict" where
  "type_names = [(TStr, ''str''), (TInt, ''int''), (TBool, ''bool'')]"

definition types_of_names :: "(string, py_type) dict" where
  "types_of_names = map (\<lambda>(k, v). (v, k)) type_names"

text \<open>\<open>{name: table[value] for name, value in d.items()}\<close>, which raises for a value not in the table.\<close>

fun translate :: "('v, 'w) dict \<Rightarrow> (string, 'v) dict \<Rightarrow> (string, 'w) dict option" where
  "translate table [] = Some []"
| "translate table ((k, v) # d) = do { w \<leftarrow> dict_get table v; r \<leftarrow> translate table d; Some ((k, w) # r) }"

definition contract_payload :: "source_contract \<Rightarrow> json option" where
  "contract_payload contract =
     do { attrs \<leftarrow> translate type_names (sort_key fst (ct_allowed_attributes contract));
          Some (JObj
            ([(''source'', JStr (ct_source contract)),
              (''source_instance'', JStr (ct_source_instance contract)),
              (''kinds'', JArr (map JStr (sort (remdups (ct_kinds contract))))),
              (''subjects'', JArr (map JStr (sort (remdups (ct_subjects contract))))),
              (''allowed_attributes'', JObj (map (map_prod id JStr) attrs)),
              (''max_clauses'', JInt (ct_max_clauses contract)),
              (''max_in_values'', JInt (ct_max_in_values contract)),
              (''max_attribute_bytes'', JInt (ct_max_attribute_bytes contract)),
              (''max_evidence_ref_bytes'', JInt (ct_max_evidence_ref_bytes contract))]
             @ (case ct_occurrence_order_attribute contract of
                  None \<Rightarrow> [] | Some key \<Rightarrow> [(''occurrence_order_attribute'', JStr key)]))) }"

definition strings_at :: "json \<Rightarrow> string \<Rightarrow> string list option" where
  "strings_at v k = do { m \<leftarrow> jindex v k; xs \<leftarrow> jarr m; those (map jstr xs) }"

fun json_strings :: "(string, json) dict \<Rightarrow> (string, string) dict option" where
  "json_strings [] = Some []"
| "json_strings ((k, v) # d) = do { s \<leftarrow> jstr v; r \<leftarrow> json_strings d; Some ((k, s) # r) }"

text \<open>\<open>payload.get("occurrence_order_attribute")\<close>\<close>

definition order_attribute :: "json \<Rightarrow> string option option" where
  "order_attribute payload =
     (case jindex payload ''occurrence_order_attribute'' of
        None \<Rightarrow> Some None
      | Some JNull \<Rightarrow> Some None
      | Some (JStr s) \<Rightarrow> Some (Some s)
      | Some _ \<Rightarrow> None)"

definition contract_from_json :: "string \<Rightarrow> source_contract option" where
  "contract_from_json text =
     do { payload \<leftarrow> loads text;
          src \<leftarrow> str_at payload ''source'';
          inst \<leftarrow> str_at payload ''source_instance'';
          kinds \<leftarrow> strings_at payload ''kinds'';
          subjects \<leftarrow> strings_at payload ''subjects'';
          names \<leftarrow> Option.bind (jindex payload ''allowed_attributes'') jobj;
          typed \<leftarrow> Option.bind (json_strings names) (translate types_of_names);
          clauses \<leftarrow> int_at payload ''max_clauses'';
          in_values \<leftarrow> int_at payload ''max_in_values'';
          attr_bytes \<leftarrow> int_at payload ''max_attribute_bytes'';
          ref_bytes \<leftarrow> int_at payload ''max_evidence_ref_bytes'';
          order \<leftarrow> order_attribute payload;
          Some \<lparr>ct_source = src, ct_source_instance = inst, ct_kinds = kinds, ct_subjects = subjects,
                ct_allowed_attributes = typed, ct_max_clauses = clauses, ct_max_in_values = in_values,
                ct_max_attribute_bytes = attr_bytes, ct_max_evidence_ref_bytes = ref_bytes,
                ct_occurrence_order_attribute = order\<rparr> }"

section \<open>Observations and matches\<close>

fun opt_json :: "string option \<Rightarrow> json" where
  "opt_json None = JNull"
| "opt_json (Some s) = JStr s"

definition observation_payload :: "observation \<Rightarrow> json" where
  "observation_payload ob =
     JObj [(''source'', JStr (ob_source ob)),
           (''source_instance'', JStr (ob_source_instance ob)),
           (''kind'', JStr (ob_kind ob)),
           (''subject'', JStr (ob_subject ob)),
           (''occurrence_namespace'', JStr (ob_occurrence_namespace ob)),
           (''occurrence_value'', JStr (ob_occurrence_value ob)),
           (''occurred_at'', JStr (format_time (ob_occurred_at ob))),
           (''observed_at'', JStr (format_time (ob_observed_at ob))),
           (''attributes'', scalars_json (ob_attributes ob)),
           (''verification'', JObj [(''state'', JStr (vf_state (ob_verification ob))),
                                    (''method'', JStr (vf_method (ob_verification ob)))]),
           (''evidence_ref'', opt_json (ob_evidence_ref ob))]"

definition time_at :: "json \<Rightarrow> string \<Rightarrow> datetime option" where
  "time_at v k = Option.bind (str_at v k) parse_time"

definition observation_from_json :: "string \<Rightarrow> observation option" where
  "observation_from_json text =
     do { payload \<leftarrow> loads text;
          src \<leftarrow> str_at payload ''source'';
          inst \<leftarrow> str_at payload ''source_instance'';
          kind \<leftarrow> str_at payload ''kind'';
          subj \<leftarrow> str_at payload ''subject'';
          ns \<leftarrow> str_at payload ''occurrence_namespace'';
          val \<leftarrow> str_at payload ''occurrence_value'';
          occurred \<leftarrow> time_at payload ''occurred_at'';
          observed \<leftarrow> time_at payload ''observed_at'';
          attrs \<leftarrow> scalars_at payload ''attributes'';
          v \<leftarrow> jindex payload ''verification'';
          state \<leftarrow> str_at v ''state'';
          meth \<leftarrow> str_at v ''method'';
          evidence \<leftarrow> opt_str_at payload ''evidence_ref'';
          Some \<lparr>ob_source = src, ob_source_instance = inst, ob_kind = kind, ob_subject = subj,
                ob_occurrence_namespace = ns, ob_occurrence_value = val, ob_occurred_at = occurred,
                ob_observed_at = observed, ob_attributes = attrs,
                ob_verification = \<lparr>vf_state = state, vf_method = meth\<rparr>, ob_evidence_ref = evidence\<rparr> }"

definition matched_payload :: "matched \<Rightarrow> json" where
  "matched_payload m =
     JObj [(''wake_id'', JStr (mt_wake_id m)),
           (''match_token'', JStr (mt_match_token m)),
           (''receipt_id'', JStr (ev_receipt_id (mt_receipt m))),
           (''local_sequence'', JInt (ev_local_sequence (mt_receipt m))),
           (''evidence_ref'', opt_json (ev_evidence_ref (mt_receipt m))),
           (''attributes'', scalars_json (ev_attributes (mt_receipt m))),
           (''verification_state'', JStr (ev_verification_state (mt_receipt m))),
           (''verification_method'', JStr (ev_verification_method (mt_receipt m))),
           (''matched_at'', JStr (format_time (mt_matched_at m)))]"

text \<open>\<open>payload.get(k, dflt)\<close> of a string member\<close>

definition str_or :: "json \<Rightarrow> string \<Rightarrow> string \<Rightarrow> string option" where
  "str_or v k dflt = (case jindex v k of None \<Rightarrow> Some dflt | Some w \<Rightarrow> jstr w)"

definition matched_from_json :: "string \<Rightarrow> matched option" where
  "matched_from_json text =
     do { payload \<leftarrow> loads text;
          wake \<leftarrow> str_at payload ''wake_id'';
          token \<leftarrow> str_at payload ''match_token'';
          receipt \<leftarrow> str_at payload ''receipt_id'';
          sequence \<leftarrow> int_at payload ''local_sequence'';
          evidence \<leftarrow> opt_str_at payload ''evidence_ref'';
          attrs \<leftarrow> scalars_at payload ''attributes'';
          state \<leftarrow> str_or payload ''verification_state'' ''verified'';
          meth \<leftarrow> str_or payload ''verification_method'' [];
          at \<leftarrow> time_at payload ''matched_at'';
          Some \<lparr>mt_wake_id = wake, mt_match_token = token,
                mt_receipt = \<lparr>ev_receipt_id = receipt, ev_local_sequence = sequence,
                  ev_evidence_ref = evidence, ev_attributes = attrs, ev_verification_state = state,
                  ev_verification_method = meth\<rparr>,
                mt_matched_at = at\<rparr> }"

section \<open>Checking an observation\<close>

definition attribute_bytes :: "(string, scalar) dict \<Rightarrow> int" where
  "attribute_bytes attrs = utf8_len (canonical_json (scalars_json attrs))"

definition validate_observation :: "observation \<Rightarrow> source_contract \<Rightarrow> invalid option" where
  "validate_observation ob contract =
     (if ob_source ob \<noteq> ct_source contract \<or> ob_source_instance ob \<noteq> ct_source_instance contract
         \<or> ob_kind ob \<notin> set (ct_kinds contract) \<or> ob_subject ob \<notin> set (ct_subjects contract)
         \<or> ob_occurrence_namespace ob = [] \<or> ob_occurrence_value ob = []
         \<or> vf_state (ob_verification ob) \<notin> {''verified'', ''pending'', ''rejected''}
         \<or> vf_method (ob_verification ob) = []
      then Some (InvalidOf None ''OBSERVATION_OUTSIDE_CONTRACT''
                   [''observation is outside the configured source contract''])
      else if (case ob_evidence_ref ob of None \<Rightarrow> False
               | Some r \<Rightarrow> utf8_len r > ct_max_evidence_ref_bytes contract)
      then Some (InvalidOf None ''EVIDENCE_LIMIT_EXCEEDED''
                   [''observation evidence reference exceeds the source limit''])
      else case check_attributes contract (ob_attributes ob) of
        Some i \<Rightarrow> Some i
      | None \<Rightarrow>
          if attribute_bytes (ob_attributes ob) > ct_max_attribute_bytes contract
          then Some (InvalidOf None ''ATTRIBUTE_LIMIT_EXCEEDED''
                       [''observation attributes exceed the source limit''])
          else None)"

section \<open>Reading back what was written\<close>

text \<open>What the text of a dictionary keeps of it: everything but the order of its keys.\<close>

definition sort_observation :: "observation \<Rightarrow> observation" where
  "sort_observation ob = ob\<lparr>ob_attributes := sort_key fst (ob_attributes ob)\<rparr>"

definition sort_matched :: "matched \<Rightarrow> matched" where
  "sort_matched m =
     m\<lparr>mt_receipt := (mt_receipt m)\<lparr>ev_attributes := sort_key fst (ev_attributes (mt_receipt m))\<rparr>\<rparr>"

lemma loads_canonical [codec_simps]: "json_wf v \<Longrightarrow> loads (canonical_json v) = Some (sort_json v)"
  by (simp add: canonical_json_def loads_dumps)

lemma jindex_sorted [codec_simps]:
  "distinct (map fst d) \<Longrightarrow> jindex (sort_json (JObj d)) k = map_option sort_json (map_of d k)"
proof -
  assume "distinct (map fst d)"
  moreover have "map_of (map (map_prod id sort_json) d) k = map_option sort_json (map_of d k)"
    by (induction d) auto
  ultimately show ?thesis by (simp add: map_of_sort_key comp_def)
qed

lemma scalars_json_wf [simp]: "json_wf (scalars_json d) \<longleftrightarrow> distinct (map fst d)"
  by (auto simp: scalars_json_def comp_def)

lemma sort_scalars_json [codec_simps]: "sort_json (scalars_json d) = scalars_json (sort_key fst d)"
proof -
  have "map (map_prod id sort_json) (map (map_prod id scalar_json) d) = map (map_prod id scalar_json) d"
    by auto
  then show ?thesis
    by (simp only: scalars_json_def sort_json.simps sort_key_map_prod)
qed

lemma json_scalars_json [codec_simps]: "json_scalars (map (map_prod id scalar_json) d) = Some d"
  by (induction d) auto

lemma those_map_Some: "those (map Some xs) = Some xs"
  by (induction xs) auto

lemma those_json_scalar [codec_simps]: "those (map (json_scalar \<circ> scalar_json) vs) = Some vs"
  by (simp add: comp_def those_map_Some)

lemma sort_opt_json [codec_simps]: "sort_json (opt_json r) = opt_json r"
  by (cases r) simp_all

lemma opt_json_wf [simp]: "json_wf (opt_json r)"
  by (cases r) simp_all

lemma sort_map_scalar [codec_simps]: "map (sort_json \<circ> scalar_json) vs = map scalar_json vs"
  by simp


declare sort_json.simps(7) [simp del]

lemma sort_clause_json [codec_simps]: "clause_from_json (sort_json (clause_json c)) = Some c"
  by (cases c)
    (simp_all add: clause_from_json_def str_at_def jindex_sorted comp_def those_map_Some)

lemma clause_json_wf [simp]: "json_wf (clause_json c)"
  by (cases c) auto

lemma spec_payload_wf [simp]: "json_wf (spec_payload spec)"
  by (auto simp: spec_payload_def)

lemma spec_from_json_payload [codec_simps]:
  "spec_from_json (canonical_json (spec_payload spec)) = Some spec"
proof -
  have "those (map (clause_from_json \<circ> (sort_json \<circ> clause_json)) (rq_where spec)) = Some (rq_where spec)"
    by (simp add: comp_def sort_clause_json those_map_Some)
  moreover have "loads (canonical_json (spec_payload spec)) = Some (sort_json (spec_payload spec))"
    by (simp add: loads_canonical)
  ultimately show ?thesis
    by (simp add: spec_from_json_def spec_payload_def str_at_def jindex_sorted comp_def)
qed

lemma observation_payload_wf [simp]:
  "json_wf (observation_payload ob) \<longleftrightarrow> distinct (map fst (ob_attributes ob))"
  by (auto simp: observation_payload_def)

lemma opt_str_at_json [codec_simps]:
  "jindex v k = Some (opt_json r) \<Longrightarrow> opt_str_at v k = Some r"
  by (cases r) (simp_all add: opt_str_at_def)

lemma scalars_at_json [codec_simps]:
  "jindex v k = Some (scalars_json d) \<Longrightarrow> scalars_at v k = Some d"
  by (simp add: scalars_at_def scalars_json_def json_scalars_json)

lemma observation_from_json_payload [codec_simps]:
  assumes "distinct (map fst (ob_attributes ob))"
  shows "observation_from_json (canonical_json (observation_payload ob)) = Some (sort_observation ob)"
proof -
  let ?v = "sort_json (observation_payload ob)"
  have l: "loads (canonical_json (observation_payload ob)) = Some ?v"
    using assms by (simp add: loads_canonical)
  have e: "opt_str_at ?v ''evidence_ref'' = Some (ob_evidence_ref ob)"
    by (rule opt_str_at_json) (simp add: observation_payload_def jindex_sorted sort_opt_json)
  have a: "scalars_at ?v ''attributes'' = Some (sort_key fst (ob_attributes ob))"
    by (rule scalars_at_json) (simp add: observation_payload_def jindex_sorted sort_scalars_json)
  show ?thesis
    by (simp add: observation_from_json_def l e a)
      (simp add: observation_payload_def str_at_def time_at_def jindex_sorted sort_observation_def)
qed

lemma matched_payload_wf [simp]:
  "json_wf (matched_payload m) \<longleftrightarrow> distinct (map fst (ev_attributes (mt_receipt m)))"
  by (auto simp: matched_payload_def)

lemma matched_from_json_payload [codec_simps]:
  assumes "distinct (map fst (ev_attributes (mt_receipt m)))"
  shows "matched_from_json (canonical_json (matched_payload m)) = Some (sort_matched m)"
proof -
  let ?v = "sort_json (matched_payload m)"
  have l: "loads (canonical_json (matched_payload m)) = Some ?v"
    using assms by (simp add: loads_canonical)
  have e: "opt_str_at ?v ''evidence_ref'' = Some (ev_evidence_ref (mt_receipt m))"
    by (rule opt_str_at_json) (simp add: matched_payload_def jindex_sorted sort_opt_json)
  have a: "scalars_at ?v ''attributes'' = Some (sort_key fst (ev_attributes (mt_receipt m)))"
    by (rule scalars_at_json) (simp add: matched_payload_def jindex_sorted sort_scalars_json)
  show ?thesis
    by (simp add: matched_from_json_def l e a)
      (simp add: matched_payload_def str_at_def time_at_def str_or_def int_at_def jindex_sorted sort_matched_def)
qed


definition sort_resume :: "resume \<Rightarrow> resume" where
  "sort_resume res = res\<lparr>rs_target := sort_key fst (map (map_prod id sort_json) (rs_target res))\<rparr>"

lemma resume_payload_wf [simp]: "json_wf (resume_payload res) \<longleftrightarrow> json_wf (JObj (rs_target res))"
  by (auto simp: resume_payload_def)

lemma resume_from_json_payload [codec_simps]:
  assumes "json_wf (JObj (rs_target res))"
  shows "resume_from_json (canonical_json (resume_payload res)) = Some (sort_resume res)"
proof -
  have l: "loads (canonical_json (resume_payload res)) = Some (sort_json (resume_payload res))"
    using assms by (simp add: loads_canonical)
  show ?thesis
    by (simp add: resume_from_json_def l)
      (simp add: resume_payload_def str_at_def jindex_sorted sort_json.simps(7) [of "rs_target res"]
        sort_resume_def)
qed

text \<open>A contract read back: the sets as sorted lists, the attributes in order of their names.\<close>

definition sort_contract :: "source_contract \<Rightarrow> source_contract" where
  "sort_contract contract =
     contract\<lparr>ct_kinds := sort (remdups (ct_kinds contract)),
              ct_subjects := sort (remdups (ct_subjects contract)),
              ct_allowed_attributes := sort_key fst (ct_allowed_attributes contract)\<rparr>"

lemma type_names_inverse: "dict_get type_names t = Some n \<Longrightarrow> dict_get types_of_names n = Some t"
  by (cases t) (auto simp: type_names_def types_of_names_def split: if_splits)

lemma translate_inverse:
  "translate type_names d = Some e \<Longrightarrow> translate types_of_names e = Some d \<and> map fst e = map fst d"
  by (induction d arbitrary: e) (auto simp: type_names_inverse split: Option.bind_splits)

lemma json_strings_json: "json_strings (map (map_prod id JStr) d) = Some d"
  by (induction d) auto

lemma those_jstr: "those (map jstr (map JStr xs)) = Some xs"
  by (simp add: comp_def those_map_Some)

lemma contract_payload_wf:
  assumes "contract_payload contract = Some v" and "distinct (map fst (ct_allowed_attributes contract))"
  shows "json_wf v"
proof -
  obtain attrs where
    attrs: "translate type_names (sort_key fst (ct_allowed_attributes contract)) = Some attrs"
    using assms(1) by (auto simp: contract_payload_def split: Option.bind_splits)
  then have "distinct (map fst attrs)"
    using assms(2) translate_inverse [OF attrs] by (simp add: distinct_map_fst_sort)
  then show ?thesis
    using assms(1) attrs by (auto simp: contract_payload_def comp_def split: option.splits)
qed

lemma contract_from_json_payload [codec_simps]:
  assumes p: "contract_payload contract = Some v"
    and d: "distinct (map fst (ct_allowed_attributes contract))"
  shows "contract_from_json (canonical_json v) = Some (sort_contract contract)"
proof -
  obtain attrs where
    attrs: "translate type_names (sort_key fst (ct_allowed_attributes contract)) = Some attrs"
    using p by (auto simp: contract_payload_def split: Option.bind_splits)
  have inv: "translate types_of_names attrs = Some (sort_key fst (ct_allowed_attributes contract))"
    and keys: "map fst attrs = map fst (sort_key fst (ct_allowed_attributes contract))"
    using translate_inverse [OF attrs] by auto
  have sorted_attrs: "sort_json (JObj (map (map_prod id JStr) attrs)) = JObj (map (map_prod id JStr) attrs)"
  proof -
    have "sorted (map fst (map (map_prod id JStr) attrs))"
      using keys by (simp add: comp_def)
    then show ?thesis
      by (simp add: sort_json.simps(7) comp_def sort_key_id_if_sorted map_prod_def case_prod_beta)
  qed
  have l: "loads (canonical_json v) = Some (sort_json v)"
    using contract_payload_wf [OF p d] by (rule loads_canonical)
  show ?thesis
    using p attrs
    by (auto simp: contract_from_json_def l contract_payload_def str_at_def int_at_def strings_at_def
        jindex_sorted those_jstr json_strings_json inv order_attribute_def sort_contract_def
        comp_def those_map_Some sorted_attrs split: option.splits)
qed


section \<open>What was read has no attribute twice\<close>

lemma json_scalars_keys: "json_scalars d = Some e \<Longrightarrow> map fst e = map fst d"
  by (induction d arbitrary: e) (auto split: Option.bind_splits)

lemma scalars_at_distinct: "scalars_at v k = Some d \<Longrightarrow> json_distinct v \<Longrightarrow> distinct (map fst d)"
proof -
  assume "scalars_at v k = Some d" and v: "json_distinct v"
  then obtain e where e: "jindex v k = Some (JObj e)" "json_scalars e = Some d"
    by (auto simp: scalars_at_def split: Option.bind_splits elim!: jobj.elims)
  then obtain members where "v = JObj members" "dict_get members k = Some (JObj e)"
    by (cases v) auto
  then have "json_distinct (snd (k, JObj e))" using v by (metis json_distinct_obj map_of_SomeD)
  then show ?thesis using json_scalars_keys [OF e(2)] by simp
qed

lemma observation_from_json_distinct:
  "observation_from_json t = Some ob \<Longrightarrow> distinct (map fst (ob_attributes ob))"
  by (auto simp: observation_from_json_def split: Option.bind_splits dest: loads_distinct scalars_at_distinct)

text \<open>The columns that hold a dictionary of scalars: baselines and attributes.\<close>

lemma scalars_column:
  assumes "distinct (dict_keys d)"
  shows "Option.bind (Option.bind (loads (canonical_json (scalars_json d))) jobj) json_scalars = Some (sort_key fst d)"
  using assms by (simp add: loads_canonical sort_scalars_json) (simp add: scalars_json_def json_scalars_json)

section \<open>Properties\<close>

text \<open>C39. Every JSON column of the journal gives back what was put in: a request exactly; an observation,
  a match, a resume intent and a source contract up to the order of the keys of their dictionaries
  and of the elements of their sets; the dictionary of scalars of a baseline or of attributes up to the order of its keys;
  and the record that an outbox row carries up to the order of the keys of its objects.\<close>

theorem journal_columns_round_trip:
  assumes "distinct (dict_keys (ob_attributes ob))"
    and "distinct (dict_keys (ev_attributes (mt_receipt m)))"
    and "json_wf (JObj (rs_target res))"
    and "contract_payload contract = Some v" and "distinct (dict_keys (ct_allowed_attributes contract))"
    and "distinct (dict_keys scalars)" and "json_wf (JObj payload)"
  shows "spec_from_json (canonical_json (spec_payload spec)) = Some spec
    \<and> observation_from_json (canonical_json (observation_payload ob)) = Some (sort_observation ob)
    \<and> matched_from_json (canonical_json (matched_payload m)) = Some (sort_matched m)
    \<and> resume_from_json (canonical_json (resume_payload res)) = Some (sort_resume res)
    \<and> contract_from_json (canonical_json v) = Some (sort_contract contract)
    \<and> Option.bind (Option.bind (loads (canonical_json (scalars_json scalars))) jobj) json_scalars = Some (sort_key fst scalars)
    \<and> loads (canonical_json (JObj payload)) = Some (sort_json (JObj payload))"
  using assms by (simp only: codec_simps scalars_column loads_canonical simp_thms)

lemma journal_columns_round_trip_witness:
  "let ob = \<lparr>ob_source = ''fs'', ob_source_instance = ''a'', ob_kind = ''k'', ob_subject = ''s'',
         ob_occurrence_namespace = ''n'', ob_occurrence_value = ''v'', ob_occurred_at = datetime_of 0,
         ob_observed_at = datetime_of 1, ob_attributes = [(''z'', SInt 1), (''b'', SBool True)],
         ob_verification = \<lparr>vf_state = ''verified'', vf_method = ''m''\<rparr>, ob_evidence_ref = None\<rparr>
   in observation_from_json (canonical_json (observation_payload ob)) = Some (sort_observation ob)"
  unfolding Let_def
  by (rule conjunct1 [OF conjunct2 [OF journal_columns_round_trip
        [where contract = "\<lparr>ct_source = ''fs'', ct_source_instance = ''a'', ct_kinds = [''k''],
             ct_subjects = [''s''], ct_allowed_attributes = [(''z'', TInt), (''b'', TBool)],
             ct_max_clauses = 1, ct_max_in_values = 1, ct_max_attribute_bytes = 100,
             ct_max_evidence_ref_bytes = 10, ct_occurrence_order_attribute = None\<rparr>"
           and res = "\<lparr>rs_prompt = ''go'', rs_cwd = ''/w'', rs_target = [(''pane'', JInt 1)]\<rparr>"
           and m = "\<lparr>mt_wake_id = ''w'', mt_match_token = ''t'',
             mt_receipt = \<lparr>ev_receipt_id = ''e'', ev_local_sequence = 1, ev_evidence_ref = None,
               ev_attributes = [(''z'', SInt 1)], ev_verification_state = ''verified'',
               ev_verification_method = ''m''\<rparr>, mt_matched_at = datetime_of 2\<rparr>"
           and scalars = "[(''z'', SInt 1), (''b'', SBool True)]" and payload = "[(''id'', JStr ''w'')]"]]])
    (simp_all add: contract_payload_def type_names_def)

end
