(* ===== verification/Journal.thy ===== *)
theory Journal
  imports Codec
begin

text \<open>
  The journal: the tables of \<open>_SCHEMA\<close> (\<open>src/src/codex_wake/signal_store.py\<close>), one record type per table
  and one list of rows per table, the statements that insert rows with the constraints the schema puts
  on them, and the invariant those constraints add up to.  A column that may be NULL is an option; a
  TEXT column is a string, also where it holds a time or a JSON value.

  A statement that violates a constraint raises, which is \<^term>\<open>None\<close>.  CHECK constraints come before
  the conflict clause and foreign keys after it, the order in which SQLite tests them.
\<close>

section \<open>Rows\<close>

record meta_row =
  me_schema_version :: int
  me_next_sequence :: int
  me_created_at :: string
  me_migrated_at :: string
  me_journal_uuid :: string

record instance_row =
  in_source :: string
  in_source_instance :: string
  in_contract_json :: string
  in_contract_fingerprint :: string
  in_created_at :: string

record source_row =
  ss_source :: string
  ss_source_instance :: string
  ss_checkpoint :: "string option"
  ss_checkpoint_order :: "int option"
  ss_observed_through :: "string option"
  ss_last_local_sequence :: int
  ss_lease_owner :: "string option"
  ss_lease_generation :: int
  ss_lease_expires_at :: "string option"

text \<open>\<open>CHECK(state IN (...))\<close>\<close>

datatype arm_state = Preparing | Prepared | Published | Tombstoned

fun arm_state_text :: "arm_state \<Rightarrow> string" where
  "arm_state_text Preparing = ''preparing''"
| "arm_state_text Prepared = ''prepared''"
| "arm_state_text Published = ''published''"
| "arm_state_text Tombstoned = ''tombstoned''"

record arm_row =
  ar_arm_id :: string
  ar_wake_id :: string
  ar_idempotency_key :: string
  ar_intent_fingerprint :: string
  ar_state :: arm_state
  ar_contract_version :: int
  ar_source :: string
  ar_source_instance :: string
  ar_kind :: string
  ar_subject :: string
  ar_spec_json :: string
  ar_resume_json :: string
  ar_registered_at :: string
  ar_expires_at :: "string option"
  ar_local_after_sequence :: "int option"
  ar_source_anchor :: "string option"
  ar_baseline_json :: "string option"
  ar_recovery :: "string option"
  ar_preparer_token :: "string option"
  ar_preparation_expires_at :: "string option"
  ar_prepared_at :: "string option"
  ar_published_at :: "string option"

record receipt_row =
  rc_local_sequence :: int
  rc_receipt_id :: string
  rc_source :: string
  rc_source_instance :: string
  rc_occurrence_namespace :: string
  rc_occurrence_value :: string
  rc_content_fingerprint :: string
  rc_kind :: string
  rc_subject :: string
  rc_occurred_at :: string
  rc_observed_at :: string
  rc_attributes_json :: string
  rc_verification_state :: string
  rc_verification_method :: string
  rc_evidence_ref :: "string option"
  rc_observation_json :: string

record progress_row =
  pg_wake_id :: string
  pg_scanned_through_sequence :: int
  pg_revision :: int
  pg_updated_at :: string

record reservation_row =
  rv_wake_id :: string
  rv_receipt_id :: "string option"
  rv_match_token :: string
  rv_matched_at :: string
  rv_evidence_json :: string

record pin_row =
  pn_pin_id :: string
  pn_wake_id :: string
  pn_receipt_id :: "string option"
  pn_min_local_sequence :: "int option"
  pn_reason :: string
  pn_created_at :: string
  pn_released_at :: "string option"

record lifecycle_row =
  lc_wake_id :: string
  lc_desired_status :: string
  lc_desired_revision :: int
  lc_applied_status :: "string option"
  lc_applied_revision :: "int option"
  lc_updated_at :: string

datatype outbox_state = OutPending | OutApplied | OutBlocked

record outbox_row =
  ox_wake_id :: string
  ox_revision :: int
  ox_operation :: string
  ox_target_status :: "string option"
  ox_source_status :: "string option"
  ox_payload_json :: "string option"
  ox_payload_sha256 :: "string option"
  ox_state :: outbox_state
  ox_attempt_count :: int
  ox_last_attempt_at :: "string option"
  ox_created_at :: string
  ox_applied_at :: "string option"
  ox_blocked_code :: "string option"

record tombstone_row =
  tb_idempotency_key :: string
  tb_intent_fingerprint :: string
  tb_wake_id :: string
  tb_terminal_status :: string
  tb_retired_at :: string

record journal =
  j_meta :: "meta_row option"
  j_instances :: "instance_row list"
  j_sources :: "source_row list"
  j_arms :: "arm_row list"
  j_receipts :: "receipt_row list"
  j_progress :: "progress_row list"
  j_reservations :: "reservation_row list"
  j_pins :: "pin_row list"
  j_lifecycle :: "lifecycle_row list"
  j_outbox :: "outbox_row list"
  j_tombstones :: "tombstone_row list"

section \<open>Keys and look-ups\<close>

definition in_key :: "instance_row \<Rightarrow> string \<times> string" where
  "in_key r = (in_source r, in_source_instance r)"

definition ss_key :: "source_row \<Rightarrow> string \<times> string" where
  "ss_key r = (ss_source r, ss_source_instance r)"

definition rc_identity :: "receipt_row \<Rightarrow> identity" where
  "rc_identity r = (rc_source r, rc_source_instance r, rc_occurrence_namespace r, rc_occurrence_value r)"

definition ox_key :: "outbox_row \<Rightarrow> string \<times> int" where
  "ox_key r = (ox_wake_id r, ox_revision r)"

definition instance_at :: "journal \<Rightarrow> string \<times> string \<Rightarrow> instance_row option" where
  "instance_at j k = find (\<lambda>r. in_key r = k) (j_instances j)"

definition source_at :: "journal \<Rightarrow> string \<times> string \<Rightarrow> source_row option" where
  "source_at j k = find (\<lambda>r. ss_key r = k) (j_sources j)"

definition arm_with_id :: "journal \<Rightarrow> string \<Rightarrow> arm_row option" where
  "arm_with_id j a = find (\<lambda>r. ar_arm_id r = a) (j_arms j)"

definition arm_of :: "journal \<Rightarrow> string \<Rightarrow> arm_row option" where
  "arm_of j w = find (\<lambda>r. ar_wake_id r = w) (j_arms j)"

definition arm_keyed :: "journal \<Rightarrow> string \<Rightarrow> arm_row option" where
  "arm_keyed j k = find (\<lambda>r. ar_idempotency_key r = k) (j_arms j)"

definition receipt_at :: "journal \<Rightarrow> identity \<Rightarrow> receipt_row option" where
  "receipt_at j i = find (\<lambda>r. rc_identity r = i) (j_receipts j)"

definition progress_of :: "journal \<Rightarrow> string \<Rightarrow> progress_row option" where
  "progress_of j w = find (\<lambda>r. pg_wake_id r = w) (j_progress j)"

definition reservation_of :: "journal \<Rightarrow> string \<Rightarrow> reservation_row option" where
  "reservation_of j w = find (\<lambda>r. rv_wake_id r = w) (j_reservations j)"

definition lifecycle_of :: "journal \<Rightarrow> string \<Rightarrow> lifecycle_row option" where
  "lifecycle_of j w = find (\<lambda>r. lc_wake_id r = w) (j_lifecycle j)"

definition outbox_at :: "journal \<Rightarrow> string \<Rightarrow> int \<Rightarrow> outbox_row option" where
  "outbox_at j w n = find (\<lambda>r. ox_key r = (w, n)) (j_outbox j)"

definition tombstone_of :: "journal \<Rightarrow> string \<Rightarrow> tombstone_row option" where
  "tombstone_of j w = find (\<lambda>r. tb_wake_id r = w) (j_tombstones j)"

text \<open>\<open>released_at IS NULL\<close>\<close>

definition live_pins :: "journal \<Rightarrow> pin_row list" where
  "live_pins j = filter (\<lambda>p. pn_released_at p = None) (j_pins j)"

text \<open>
  An integer that Python binds to a statement, which must fit in 64 bits (\<open>OverflowError\<close> otherwise).
\<close>

definition sql_int :: "int \<Rightarrow> int option" where
  "sql_int n = (if - (2 ^ 63) \<le> n \<and> n < 2 ^ 63 then Some n else None)"

text \<open>\<open>str(column)\<close>, and the truth value of a TEXT column.\<close>

definition sql_str :: "string option \<Rightarrow> string" where
  "sql_str v = (case v of None \<Rightarrow> ''None'' | Some s \<Rightarrow> s)"

definition sql_true :: "string option \<Rightarrow> bool" where
  "sql_true v = (v \<noteq> None \<and> v \<noteq> Some [])"

definition journal_uuid :: "journal \<Rightarrow> string option" where
  "journal_uuid j = map_option me_journal_uuid (j_meta j)"

definition next_sequence :: "journal \<Rightarrow> int option" where
  "next_sequence j = map_option me_next_sequence (j_meta j)"

section \<open>Inserting rows\<close>

text \<open>\<open>source_instances\<close> and \<open>source_state\<close>: \<open>ON CONFLICT(source, source_instance) DO NOTHING\<close>.\<close>

definition insert_instance :: "instance_row \<Rightarrow> journal \<Rightarrow> journal option" where
  "insert_instance r j =
     (if instance_at j (in_key r) \<noteq> None then Some j
      else Some (j\<lparr>j_instances := j_instances j @ [r]\<rparr>))"

definition new_source :: "string \<times> string \<Rightarrow> source_row" where
  "new_source k =
     \<lparr>ss_source = fst k, ss_source_instance = snd k, ss_checkpoint = None, ss_checkpoint_order = None,
      ss_observed_through = None, ss_last_local_sequence = 0, ss_lease_owner = None,
      ss_lease_generation = 0, ss_lease_expires_at = None\<rparr>"

definition insert_source :: "string \<times> string \<Rightarrow> journal \<Rightarrow> journal option" where
  "insert_source k j =
     (if source_at j k \<noteq> None then Some j
      else if instance_at j k = None then None
      else Some (j\<lparr>j_sources := j_sources j @ [new_source k]\<rparr>))"

definition insert_arm :: "arm_row \<Rightarrow> journal \<Rightarrow> journal option" where
  "insert_arm r j =
     (if ar_contract_version r \<noteq> 1
         \<or> arm_with_id j (ar_arm_id r) \<noteq> None \<or> arm_of j (ar_wake_id r) \<noteq> None
         \<or> arm_keyed j (ar_idempotency_key r) \<noteq> None
         \<or> instance_at j (ar_source r, ar_source_instance r) = None then None
      else Some (j\<lparr>j_arms := j_arms j @ [r]\<rparr>))"

definition verification_states :: "string set" where
  "verification_states = {''verified'', ''pending'', ''rejected''}"

definition insert_receipt :: "receipt_row \<Rightarrow> journal \<Rightarrow> journal option" where
  "insert_receipt r j =
     (if rc_verification_state r \<notin> verification_states
         \<or> find (\<lambda>x. rc_local_sequence x = rc_local_sequence r) (j_receipts j) \<noteq> None
         \<or> find (\<lambda>x. rc_receipt_id x = rc_receipt_id r) (j_receipts j) \<noteq> None
         \<or> receipt_at j (rc_identity r) \<noteq> None
         \<or> instance_at j (rc_source r, rc_source_instance r) = None then None
      else Some (j\<lparr>j_receipts := j_receipts j @ [r]\<rparr>))"

text \<open>\<open>evaluation_progress\<close>: \<open>ON CONFLICT(wake_id) DO NOTHING\<close>.\<close>

definition insert_progress :: "progress_row \<Rightarrow> journal \<Rightarrow> journal option" where
  "insert_progress r j =
     (if pg_scanned_through_sequence r < 0 then None
      else if progress_of j (pg_wake_id r) \<noteq> None then Some j
      else if arm_of j (pg_wake_id r) = None then None
      else Some (j\<lparr>j_progress := j_progress j @ [r]\<rparr>))"

definition receipt_exists :: "journal \<Rightarrow> string \<Rightarrow> bool" where
  "receipt_exists j rid = (find (\<lambda>x. rc_receipt_id x = rid) (j_receipts j) \<noteq> None)"

text \<open>\<open>match_reservations\<close>: \<open>ON CONFLICT(wake_id) DO NOTHING\<close>.\<close>

definition insert_reservation :: "reservation_row \<Rightarrow> journal \<Rightarrow> journal option" where
  "insert_reservation r j =
     (if reservation_of j (rv_wake_id r) \<noteq> None then Some j
      else if find (\<lambda>x. rv_match_token x = rv_match_token r) (j_reservations j) \<noteq> None
         \<or> arm_of j (rv_wake_id r) = None
         \<or> (case rv_receipt_id r of None \<Rightarrow> False | Some rid \<Rightarrow> \<not> receipt_exists j rid) then None
      else Some (j\<lparr>j_reservations := j_reservations j @ [r]\<rparr>))"

definition pin_reasons :: "string set" where
  "pin_reasons = {''active_anchor'', ''match_evidence'', ''verification_pending''}"

text \<open>\<open>retention_pins\<close>: \<open>ON CONFLICT(pin_id) DO NOTHING\<close>.\<close>

definition insert_pin :: "pin_row \<Rightarrow> journal \<Rightarrow> journal option" where
  "insert_pin r j =
     (if pn_reason r \<notin> pin_reasons
         \<or> (pn_receipt_id r = None) = (pn_min_local_sequence r = None) then None
      else if find (\<lambda>x. pn_pin_id x = pn_pin_id r) (j_pins j) \<noteq> None then Some j
      else if arm_of j (pn_wake_id r) = None
         \<or> (case pn_receipt_id r of None \<Rightarrow> False | Some rid \<Rightarrow> \<not> receipt_exists j rid) then None
      else Some (j\<lparr>j_pins := j_pins j @ [r]\<rparr>))"

text \<open>\<open>wake_lifecycle\<close>: \<open>ON CONFLICT(wake_id) DO NOTHING\<close>.\<close>

definition insert_lifecycle :: "lifecycle_row \<Rightarrow> journal \<Rightarrow> journal option" where
  "insert_lifecycle r j =
     (if lc_desired_revision r < 1 then None
      else if lifecycle_of j (lc_wake_id r) \<noteq> None then Some j
      else if arm_of j (lc_wake_id r) = None then None
      else Some (j\<lparr>j_lifecycle := j_lifecycle j @ [r]\<rparr>))"

definition outbox_row_ok :: "outbox_row \<Rightarrow> bool" where
  "outbox_row_ok r =
     (1 \<le> ox_revision r \<and> 0 \<le> ox_attempt_count r
      \<and> (ox_operation r = ''put'' \<and> ox_target_status r \<noteq> None \<and> ox_payload_json r \<noteq> None
           \<and> ox_payload_sha256 r \<noteq> None
         \<or> ox_operation r = ''delete'' \<and> ox_payload_json r = None \<and> ox_payload_sha256 r = None))"

text \<open>\<open>record_outbox\<close>: with \<open>ON CONFLICT(wake_id, revision) DO NOTHING\<close> if \<open>or_nothing\<close>.\<close>

definition insert_outbox :: "bool \<Rightarrow> outbox_row \<Rightarrow> journal \<Rightarrow> journal option" where
  "insert_outbox or_nothing r j =
     (if \<not> outbox_row_ok r then None
      else if outbox_at j (ox_wake_id r) (ox_revision r) \<noteq> None then (if or_nothing then Some j else None)
      else if arm_of j (ox_wake_id r) = None then None
      else Some (j\<lparr>j_outbox := j_outbox j @ [r]\<rparr>))"

text \<open>
  \<open>registration_tombstones\<close>: on a conflict of the idempotency key the terminal status and the time are
  replaced (\<open>DO UPDATE SET\<close>) if \<open>replace\<close>, and nothing happens otherwise.
\<close>

definition upsert_tombstone :: "bool \<Rightarrow> tombstone_row \<Rightarrow> journal \<Rightarrow> journal option" where
  "upsert_tombstone replace r j =
     (if \<exists>x \<in> set (j_tombstones j). tb_idempotency_key x = tb_idempotency_key r
      then Some (if \<not> replace then j
           else j\<lparr>j_tombstones :=
             update_where (\<lambda>x. tb_idempotency_key x = tb_idempotency_key r)
               (\<lambda>x. x\<lparr>tb_terminal_status := tb_terminal_status r, tb_retired_at := tb_retired_at r\<rparr>)
               (j_tombstones j)\<rparr>)
      else if tombstone_of j (tb_wake_id r) \<noteq> None then None
      else Some (j\<lparr>j_tombstones := j_tombstones j @ [r]\<rparr>))"

section \<open>Updates\<close>

definition update_arm :: "(arm_row \<Rightarrow> bool) \<Rightarrow> (arm_row \<Rightarrow> arm_row) \<Rightarrow> journal \<Rightarrow> journal" where
  "update_arm P f j = j\<lparr>j_arms := update_where P f (j_arms j)\<rparr>"

definition update_source :: "(source_row \<Rightarrow> bool) \<Rightarrow> (source_row \<Rightarrow> source_row) \<Rightarrow> journal \<Rightarrow> journal" where
  "update_source P f j = j\<lparr>j_sources := update_where P f (j_sources j)\<rparr>"

definition update_outbox :: "(outbox_row \<Rightarrow> bool) \<Rightarrow> (outbox_row \<Rightarrow> outbox_row) \<Rightarrow> journal \<Rightarrow> journal" where
  "update_outbox P f j = j\<lparr>j_outbox := update_where P f (j_outbox j)\<rparr>"

definition update_lifecycle ::
  "(lifecycle_row \<Rightarrow> bool) \<Rightarrow> (lifecycle_row \<Rightarrow> lifecycle_row) \<Rightarrow> journal \<Rightarrow> journal" where
  "update_lifecycle P f j = j\<lparr>j_lifecycle := update_where P f (j_lifecycle j)\<rparr>"

definition update_pins :: "(pin_row \<Rightarrow> bool) \<Rightarrow> (pin_row \<Rightarrow> pin_row) \<Rightarrow> journal \<Rightarrow> journal" where
  "update_pins P f j = j\<lparr>j_pins := update_where P f (j_pins j)\<rparr>"

definition update_progress ::
  "(progress_row \<Rightarrow> bool) \<Rightarrow> (progress_row \<Rightarrow> progress_row) \<Rightarrow> journal \<Rightarrow> journal" where
  "update_progress P f j = j\<lparr>j_progress := update_where P f (j_progress j)\<rparr>"

text \<open>\<open>UPDATE retention_pins SET released_at = ? WHERE wake_id = ? AND released_at IS NULL\<close>\<close>

definition release_all_pins :: "string \<Rightarrow> string \<Rightarrow> journal \<Rightarrow> journal" where
  "release_all_pins w at =
     update_pins (\<lambda>p. pn_wake_id p = w \<and> pn_released_at p = None) (\<lambda>p. p\<lparr>pn_released_at := Some at\<rparr>)"

section \<open>The constraints of the schema\<close>

definition instances_ok :: "instance_row list \<Rightarrow> bool" where
  "instances_ok rows = distinct (map in_key rows)"

definition sources_ok :: "(string \<times> string) set \<Rightarrow> source_row list \<Rightarrow> bool" where
  "sources_ok K rows =
     (distinct (map ss_key rows)
      \<and> (\<forall>r\<in>set rows. ss_key r \<in> K \<and> 0 \<le> ss_last_local_sequence r \<and> 0 \<le> ss_lease_generation r))"

definition arms_ok :: "(string \<times> string) set \<Rightarrow> arm_row list \<Rightarrow> bool" where
  "arms_ok K rows =
     (distinct (map ar_arm_id rows) \<and> distinct (map ar_wake_id rows) \<and> distinct (map ar_idempotency_key rows)
      \<and> (\<forall>r\<in>set rows. ar_contract_version r = 1 \<and> (ar_source r, ar_source_instance r) \<in> K))"

definition receipts_ok :: "(string \<times> string) set \<Rightarrow> receipt_row list \<Rightarrow> bool" where
  "receipts_ok K rows =
     (distinct (map rc_local_sequence rows) \<and> distinct (map rc_receipt_id rows) \<and> distinct (map rc_identity rows)
      \<and> (\<forall>r\<in>set rows. rc_verification_state r \<in> verification_states \<and> (rc_source r, rc_source_instance r) \<in> K))"

definition progress_ok :: "string set \<Rightarrow> progress_row list \<Rightarrow> bool" where
  "progress_ok W rows =
     (distinct (map pg_wake_id rows)
      \<and> (\<forall>r\<in>set rows. 0 \<le> pg_scanned_through_sequence r \<and> pg_wake_id r \<in> W))"

definition reservations_ok :: "string set \<Rightarrow> string set \<Rightarrow> reservation_row list \<Rightarrow> bool" where
  "reservations_ok W R rows =
     (distinct (map rv_wake_id rows) \<and> distinct (map rv_match_token rows)
      \<and> (\<forall>r\<in>set rows. rv_wake_id r \<in> W \<and> set_option (rv_receipt_id r) \<subseteq> R))"

definition pins_ok :: "string set \<Rightarrow> string set \<Rightarrow> pin_row list \<Rightarrow> bool" where
  "pins_ok W R rows =
     (distinct (map pn_pin_id rows)
      \<and> (\<forall>r\<in>set rows. pn_reason r \<in> pin_reasons \<and> (pn_receipt_id r = None) \<noteq> (pn_min_local_sequence r = None)
           \<and> pn_wake_id r \<in> W \<and> set_option (pn_receipt_id r) \<subseteq> R))"

definition lifecycle_ok :: "string set \<Rightarrow> lifecycle_row list \<Rightarrow> bool" where
  "lifecycle_ok W rows =
     (distinct (map lc_wake_id rows) \<and> (\<forall>r\<in>set rows. 1 \<le> lc_desired_revision r \<and> lc_wake_id r \<in> W))"

definition outbox_ok :: "string set \<Rightarrow> outbox_row list \<Rightarrow> bool" where
  "outbox_ok W rows =
     (distinct (map ox_key rows) \<and> (\<forall>r\<in>set rows. outbox_row_ok r \<and> ox_wake_id r \<in> W))"

definition tombstones_ok :: "tombstone_row list \<Rightarrow> bool" where
  "tombstones_ok rows = (distinct (map tb_idempotency_key rows) \<and> distinct (map tb_wake_id rows))"

definition meta_ok :: "meta_row option \<Rightarrow> bool" where
  "meta_ok m = (\<forall>r\<in>set_option m. 1 \<le> me_next_sequence r)"

definition instance_keys :: "journal \<Rightarrow> (string \<times> string) set" where
  "instance_keys j = in_key ` set (j_instances j)"

definition wake_ids :: "journal \<Rightarrow> string set" where
  "wake_ids j = ar_wake_id ` set (j_arms j)"

definition receipt_ids :: "journal \<Rightarrow> string set" where
  "receipt_ids j = rc_receipt_id ` set (j_receipts j)"

definition schema_ok :: "journal \<Rightarrow> bool" where
  "schema_ok j =
     (meta_ok (j_meta j) \<and> instances_ok (j_instances j)
      \<and> sources_ok (instance_keys j) (j_sources j)
      \<and> arms_ok (instance_keys j) (j_arms j)
      \<and> receipts_ok (instance_keys j) (j_receipts j)
      \<and> progress_ok (wake_ids j) (j_progress j)
      \<and> reservations_ok (wake_ids j) (receipt_ids j) (j_reservations j)
      \<and> pins_ok (wake_ids j) (receipt_ids j) (j_pins j)
      \<and> lifecycle_ok (wake_ids j) (j_lifecycle j)
      \<and> outbox_ok (wake_ids j) (j_outbox j)
      \<and> tombstones_ok (j_tombstones j))"

definition empty_journal :: journal where
  "empty_journal = \<lparr>j_meta = None, j_instances = [], j_sources = [], j_arms = [], j_receipts = [],
     j_progress = [], j_reservations = [], j_pins = [], j_lifecycle = [], j_outbox = [], j_tombstones = []\<rparr>"

section \<open>Transactions\<close>

text \<open>
  A body between \<open>BEGIN IMMEDIATE\<close> and \<open>commit\<close>: it commits a journal, rolls back with an answer,
  or raises (\<^term>\<open>None\<close>).
  A call of a checkpoint hook that raises, a busy or broken database and a lost connection are the
  fault of the transaction: before the commit, everything is undone; after it, the rows are there and
  only the answer is lost.  In both cases the caller gets the answer \<open>unavailable\<close>.
\<close>

datatype fault = NoFault | FaultBefore | FaultAfter

datatype 'r ending = Commit journal 'r | Rollback 'r

type_synonym 'r tx = "'r ending option"

definition run_tx :: "fault \<Rightarrow> 'r \<Rightarrow> (journal \<Rightarrow> 'r tx) \<Rightarrow> journal \<Rightarrow> 'r \<times> journal" where
  "run_tx flt unavailable body j =
     (if flt = FaultBefore then (unavailable, j)
      else case body j of
        None \<Rightarrow> (unavailable, j)
      | Some (Rollback r) \<Rightarrow> (r, j)
      | Some (Commit j' r) \<Rightarrow> (if flt = FaultAfter then unavailable else r, j'))"

text \<open>A query outside a transaction.\<close>

definition run_read :: "fault \<Rightarrow> 'r \<Rightarrow> (journal \<Rightarrow> 'r option) \<Rightarrow> journal \<Rightarrow> 'r" where
  "run_read flt unavailable query j =
     (if flt \<noteq> NoFault then unavailable else case query j of None \<Rightarrow> unavailable | Some r \<Rightarrow> r)"

end
