(* ===== verification/JournalOk.thy ===== *)
theory JournalOk
  imports Journal
begin

text \<open>
  Every statement keeps the constraints of the schema.  The lemmas are in the collection
  \<open>step_inv\<close>; a transaction keeps the constraints because its statements do.
\<close>

section \<open>Look-ups and keys\<close>

lemma find_key_None: "find (\<lambda>x. f x = k) xs = None \<longleftrightarrow> k \<notin> f ` set xs"
  by (auto simp: find_None_iff)

lemma find_key_Some: "find (\<lambda>x. f x = k) xs \<noteq> None \<longleftrightarrow> k \<in> f ` set xs"
  by (auto simp: find_None_iff)

lemma instance_at_None: "instance_at j k = None \<longleftrightarrow> k \<notin> instance_keys j"
  by (simp add: instance_at_def instance_keys_def find_key_None)

lemma arm_of_None: "arm_of j w = None \<longleftrightarrow> w \<notin> wake_ids j"
  by (simp add: arm_of_def wake_ids_def find_key_None)

lemma receipt_exists_iff: "receipt_exists j rid \<longleftrightarrow> rid \<in> receipt_ids j"
  by (simp only: receipt_exists_def receipt_ids_def find_key_Some)

section \<open>Larger foreign-key targets\<close>

lemma sources_ok_mono: "sources_ok K rows \<Longrightarrow> K \<subseteq> K' \<Longrightarrow> sources_ok K' rows"
  by (auto simp: sources_ok_def)

lemma arms_ok_mono: "arms_ok K rows \<Longrightarrow> K \<subseteq> K' \<Longrightarrow> arms_ok K' rows"
  by (auto simp: arms_ok_def)

lemma receipts_ok_mono: "receipts_ok K rows \<Longrightarrow> K \<subseteq> K' \<Longrightarrow> receipts_ok K' rows"
  by (auto simp: receipts_ok_def)

lemma progress_ok_mono: "progress_ok W rows \<Longrightarrow> W \<subseteq> W' \<Longrightarrow> progress_ok W' rows"
  by (auto simp: progress_ok_def)

lemma reservations_ok_mono:
  "reservations_ok W R rows \<Longrightarrow> W \<subseteq> W' \<Longrightarrow> R \<subseteq> R' \<Longrightarrow> reservations_ok W' R' rows"
  by (fastforce simp: reservations_ok_def)

lemma pins_ok_mono: "pins_ok W R rows \<Longrightarrow> W \<subseteq> W' \<Longrightarrow> R \<subseteq> R' \<Longrightarrow> pins_ok W' R' rows"
  by (fastforce simp: pins_ok_def)

lemma lifecycle_ok_mono: "lifecycle_ok W rows \<Longrightarrow> W \<subseteq> W' \<Longrightarrow> lifecycle_ok W' rows"
  by (auto simp: lifecycle_ok_def)

lemma outbox_ok_mono: "outbox_ok W rows \<Longrightarrow> W \<subseteq> W' \<Longrightarrow> outbox_ok W' rows"
  by (auto simp: outbox_ok_def)

lemmas fk_mono = sources_ok_mono arms_ok_mono receipts_ok_mono progress_ok_mono reservations_ok_mono
  pins_ok_mono lifecycle_ok_mono outbox_ok_mono


section \<open>Key sets after an update\<close>

lemma instance_keys_update [simp]:
  "instance_keys (j\<lparr>j_meta := v0\<rparr>) = instance_keys j"
  "instance_keys (j\<lparr>j_sources := v2\<rparr>) = instance_keys j"
  "instance_keys (j\<lparr>j_arms := v3\<rparr>) = instance_keys j"
  "instance_keys (j\<lparr>j_receipts := v4\<rparr>) = instance_keys j"
  "instance_keys (j\<lparr>j_progress := v5\<rparr>) = instance_keys j"
  "instance_keys (j\<lparr>j_reservations := v6\<rparr>) = instance_keys j"
  "instance_keys (j\<lparr>j_pins := v7\<rparr>) = instance_keys j"
  "instance_keys (j\<lparr>j_lifecycle := v8\<rparr>) = instance_keys j"
  "instance_keys (j\<lparr>j_outbox := v9\<rparr>) = instance_keys j"
  "instance_keys (j\<lparr>j_tombstones := v10\<rparr>) = instance_keys j"
  by (simp_all add: instance_keys_def)

lemma wake_ids_update [simp]:
  "wake_ids (j\<lparr>j_meta := v0\<rparr>) = wake_ids j"
  "wake_ids (j\<lparr>j_instances := v1\<rparr>) = wake_ids j"
  "wake_ids (j\<lparr>j_sources := v2\<rparr>) = wake_ids j"
  "wake_ids (j\<lparr>j_receipts := v4\<rparr>) = wake_ids j"
  "wake_ids (j\<lparr>j_progress := v5\<rparr>) = wake_ids j"
  "wake_ids (j\<lparr>j_reservations := v6\<rparr>) = wake_ids j"
  "wake_ids (j\<lparr>j_pins := v7\<rparr>) = wake_ids j"
  "wake_ids (j\<lparr>j_lifecycle := v8\<rparr>) = wake_ids j"
  "wake_ids (j\<lparr>j_outbox := v9\<rparr>) = wake_ids j"
  "wake_ids (j\<lparr>j_tombstones := v10\<rparr>) = wake_ids j"
  by (simp_all add: wake_ids_def)

lemma receipt_ids_update [simp]:
  "receipt_ids (j\<lparr>j_meta := v0\<rparr>) = receipt_ids j"
  "receipt_ids (j\<lparr>j_instances := v1\<rparr>) = receipt_ids j"
  "receipt_ids (j\<lparr>j_sources := v2\<rparr>) = receipt_ids j"
  "receipt_ids (j\<lparr>j_arms := v3\<rparr>) = receipt_ids j"
  "receipt_ids (j\<lparr>j_progress := v5\<rparr>) = receipt_ids j"
  "receipt_ids (j\<lparr>j_reservations := v6\<rparr>) = receipt_ids j"
  "receipt_ids (j\<lparr>j_pins := v7\<rparr>) = receipt_ids j"
  "receipt_ids (j\<lparr>j_lifecycle := v8\<rparr>) = receipt_ids j"
  "receipt_ids (j\<lparr>j_outbox := v9\<rparr>) = receipt_ids j"
  "receipt_ids (j\<lparr>j_tombstones := v10\<rparr>) = receipt_ids j"
  by (simp_all add: receipt_ids_def)

lemma instance_keys_snoc [simp]: "instance_keys (j\<lparr>j_instances := rows @ [r]\<rparr>) = insert (in_key r) (in_key ` set rows)"
  by (simp add: instance_keys_def)

lemma wake_ids_snoc [simp]: "wake_ids (j\<lparr>j_arms := rows @ [r]\<rparr>) = insert (ar_wake_id r) (ar_wake_id ` set rows)"
  by (simp add: wake_ids_def)

lemma receipt_ids_snoc [simp]:
  "receipt_ids (j\<lparr>j_receipts := rows @ [r]\<rparr>) = insert (rc_receipt_id r) (rc_receipt_id ` set rows)"
  by (simp add: receipt_ids_def)

section \<open>Tables with one more row\<close>

lemma instances_ok_snoc: "instances_ok (rows @ [r]) \<longleftrightarrow> instances_ok rows \<and> in_key r \<notin> in_key ` set rows"
  by (auto simp: instances_ok_def)

lemma sources_ok_snoc:
  "sources_ok K (rows @ [r]) \<longleftrightarrow>
     sources_ok K rows \<and> ss_key r \<notin> ss_key ` set rows \<and> ss_key r \<in> K
     \<and> 0 \<le> ss_last_local_sequence r \<and> 0 \<le> ss_lease_generation r"
  by (auto simp: sources_ok_def)

lemma arms_ok_snoc:
  "arms_ok K (rows @ [r]) \<longleftrightarrow>
     arms_ok K rows \<and> ar_arm_id r \<notin> ar_arm_id ` set rows \<and> ar_wake_id r \<notin> ar_wake_id ` set rows
     \<and> ar_idempotency_key r \<notin> ar_idempotency_key ` set rows
     \<and> ar_contract_version r = 1 \<and> (ar_source r, ar_source_instance r) \<in> K"
  by (auto simp: arms_ok_def)

lemma receipts_ok_snoc:
  "receipts_ok K (rows @ [r]) \<longleftrightarrow>
     receipts_ok K rows \<and> rc_local_sequence r \<notin> rc_local_sequence ` set rows
     \<and> rc_receipt_id r \<notin> rc_receipt_id ` set rows \<and> rc_identity r \<notin> rc_identity ` set rows
     \<and> rc_verification_state r \<in> verification_states \<and> (rc_source r, rc_source_instance r) \<in> K"
  by (auto simp: receipts_ok_def)

lemma progress_ok_snoc:
  "progress_ok W (rows @ [r]) \<longleftrightarrow>
     progress_ok W rows \<and> pg_wake_id r \<notin> pg_wake_id ` set rows
     \<and> 0 \<le> pg_scanned_through_sequence r \<and> pg_wake_id r \<in> W"
  by (auto simp: progress_ok_def)

lemma reservations_ok_snoc:
  "reservations_ok W R (rows @ [r]) \<longleftrightarrow>
     reservations_ok W R rows \<and> rv_wake_id r \<notin> rv_wake_id ` set rows
     \<and> rv_match_token r \<notin> rv_match_token ` set rows \<and> rv_wake_id r \<in> W \<and> set_option (rv_receipt_id r) \<subseteq> R"
  by (auto simp: reservations_ok_def)

lemma pins_ok_snoc:
  "pins_ok W R (rows @ [r]) \<longleftrightarrow>
     pins_ok W R rows \<and> pn_pin_id r \<notin> pn_pin_id ` set rows \<and> pn_reason r \<in> pin_reasons
     \<and> (pn_receipt_id r = None) \<noteq> (pn_min_local_sequence r = None)
     \<and> pn_wake_id r \<in> W \<and> set_option (pn_receipt_id r) \<subseteq> R"
  by (auto simp: pins_ok_def)

lemma lifecycle_ok_snoc:
  "lifecycle_ok W (rows @ [r]) \<longleftrightarrow>
     lifecycle_ok W rows \<and> lc_wake_id r \<notin> lc_wake_id ` set rows
     \<and> 1 \<le> lc_desired_revision r \<and> lc_wake_id r \<in> W"
  by (auto simp: lifecycle_ok_def)

lemma outbox_ok_snoc:
  "outbox_ok W (rows @ [r]) \<longleftrightarrow>
     outbox_ok W rows \<and> ox_key r \<notin> ox_key ` set rows \<and> outbox_row_ok r \<and> ox_wake_id r \<in> W"
  by (auto simp: outbox_ok_def)

lemma tombstones_ok_snoc:
  "tombstones_ok (rows @ [r]) \<longleftrightarrow>
     tombstones_ok rows \<and> tb_idempotency_key r \<notin> tb_idempotency_key ` set rows
     \<and> tb_wake_id r \<notin> tb_wake_id ` set rows"
  by (auto simp: tombstones_ok_def)

lemmas table_snoc = instances_ok_snoc sources_ok_snoc arms_ok_snoc receipts_ok_snoc progress_ok_snoc
  reservations_ok_snoc pins_ok_snoc lifecycle_ok_snoc outbox_ok_snoc tombstones_ok_snoc

section \<open>Insertions\<close>

lemma insert_instance_ok [step_inv]:
  "insert_instance r j = Some j' \<Longrightarrow> schema_ok j \<Longrightarrow> schema_ok j'"
  by (auto simp: insert_instance_def schema_ok_def instance_at_None table_snoc instance_keys_def
      split: if_splits elim!: fk_mono)

lemma insert_source_ok [step_inv]:
  "insert_source k j = Some j' \<Longrightarrow> schema_ok j \<Longrightarrow> schema_ok j'"
  by (auto simp: insert_source_def schema_ok_def instance_at_None source_at_def find_key_None
      new_source_def ss_key_def table_snoc image_iff split: if_splits)

lemma insert_arm_ok [step_inv]:
  "insert_arm r j = Some j' \<Longrightarrow> schema_ok j \<Longrightarrow> schema_ok j'"
  by (auto simp: insert_arm_def schema_ok_def instance_at_None arm_with_id_def arm_keyed_def arm_of_def
      find_key_None table_snoc wake_ids_def split: if_splits elim!: fk_mono)

lemma insert_receipt_ok [step_inv]:
  "insert_receipt r j = Some j' \<Longrightarrow> schema_ok j \<Longrightarrow> schema_ok j'"
  by (auto simp: insert_receipt_def schema_ok_def instance_at_None receipt_at_def find_key_None
      table_snoc receipt_ids_def split: if_splits elim!: fk_mono)

lemma insert_progress_ok [step_inv]:
  "insert_progress r j = Some j' \<Longrightarrow> schema_ok j \<Longrightarrow> schema_ok j'"
  by (auto simp: insert_progress_def schema_ok_def arm_of_None progress_of_def find_key_None
      table_snoc split: if_splits)

lemma insert_reservation_ok [step_inv]:
  "insert_reservation r j = Some j' \<Longrightarrow> schema_ok j \<Longrightarrow> schema_ok j'"
  by (simp add: insert_reservation_def schema_ok_def arm_of_None reservation_of_def find_key_None
      receipt_exists_iff split: if_splits option.splits)
    (auto simp: table_snoc)

lemma insert_pin_ok [step_inv]:
  "insert_pin r j = Some j' \<Longrightarrow> schema_ok j \<Longrightarrow> schema_ok j'"
  by (simp add: insert_pin_def schema_ok_def arm_of_None find_key_None
      receipt_exists_iff split: if_splits option.splits)
    (auto simp: table_snoc)

lemma insert_lifecycle_ok [step_inv]:
  "insert_lifecycle r j = Some j' \<Longrightarrow> schema_ok j \<Longrightarrow> schema_ok j'"
  by (auto simp: insert_lifecycle_def schema_ok_def arm_of_None lifecycle_of_def find_key_None
      table_snoc split: if_splits)

lemma outbox_at_None: "outbox_at j w n = None \<longleftrightarrow> (w, n) \<notin> ox_key ` set (j_outbox j)"
  by (simp add: outbox_at_def find_key_None)

lemma insert_outbox_ok [step_inv]:
  "insert_outbox b r j = Some j' \<Longrightarrow> schema_ok j \<Longrightarrow> schema_ok j'"
  by (auto simp: insert_outbox_def schema_ok_def arm_of_None outbox_at_None table_snoc ox_key_def [of r]
      split: if_splits)

section \<open>Updates\<close>

text \<open>
  For each table: an update that leaves the constrained columns as they are keeps the schema, and the
  row found under a key is the updated one.  Every \<open>UPDATE\<close> of the code is an instance.
\<close>

definition arm_columns :: "arm_row \<Rightarrow> (string \<times> string \<times> string) \<times> int \<times> string \<times> string" where
  "arm_columns r =
     ((ar_arm_id r, ar_wake_id r, ar_idempotency_key r), ar_contract_version r, ar_source r, ar_source_instance r)"

lemma arms_ok_columns:
  assumes "map arm_columns rows = map arm_columns rows'"
  shows "arms_ok K rows = arms_ok K rows'"
proof -
  have maps: "map (g \<circ> arm_columns) rows = map (g \<circ> arm_columns) rows'" for g :: "_ \<Rightarrow> 'x"
    using assms by (metis list.map_comp)
  have "map ar_arm_id rows = map ar_arm_id rows'" "map ar_wake_id rows = map ar_wake_id rows'"
    "map ar_idempotency_key rows = map ar_idempotency_key rows'"
    using maps [of "fst \<circ> fst"] maps [of "fst \<circ> snd \<circ> fst"] maps [of "snd \<circ> snd \<circ> fst"]
    by (simp_all add: arm_columns_def comp_def)
  moreover have "arm_columns ` set rows = arm_columns ` set rows'"
    using assms by (metis set_map)
  then have "(\<forall>c\<in>arm_columns ` set rows. Q c) = (\<forall>c\<in>arm_columns ` set rows'. Q c)" for Q
    by simp
  from this [of "\<lambda>(_, v, s). v = 1 \<and> s \<in> K"]
  have "(\<forall>r\<in>set rows. ar_contract_version r = 1 \<and> (ar_source r, ar_source_instance r) \<in> K)
      = (\<forall>r\<in>set rows'. ar_contract_version r = 1 \<and> (ar_source r, ar_source_instance r) \<in> K)"
    by (simp add: arm_columns_def)
  ultimately show ?thesis by (simp add: arms_ok_def)
qed

locale arm_update = row_update arm_columns upd for upd :: "arm_row \<Rightarrow> arm_row"
begin

lemma same_ids: "ar_arm_id (upd r) = ar_arm_id r" "ar_wake_id (upd r) = ar_wake_id r"
  "ar_idempotency_key (upd r) = ar_idempotency_key r" "ar_source (upd r) = ar_source r"
  "ar_source_instance (upd r) = ar_source_instance r"
  using key_kept [of r] by (simp_all add: arm_columns_def)

lemma wake_ids_kept: "wake_ids (update_arm P upd j) = wake_ids j"
  by (simp add: wake_ids_def update_arm_def image_update_where same_ids)

lemma keeps_schema: "schema_ok j \<Longrightarrow> schema_ok (update_arm P upd j)"
  using wake_ids_kept [of P j] arms_ok_columns [OF keys_kept, of "instance_keys j" P "j_arms j"]
  by (simp add: schema_ok_def update_arm_def)

lemma arm_found:
  "arm_of (update_arm P upd j) w = map_option (\<lambda>r. if P r then upd r else r) (arm_of j w)"
  unfolding arm_of_def update_arm_def update_where_def
  by (simp add: find_map_same same_ids)

lemma arm_found_by_id:
  "arm_with_id (update_arm P upd j) a = map_option (\<lambda>r. if P r then upd r else r) (arm_with_id j a)"
  unfolding arm_with_id_def update_arm_def update_where_def
  by (simp add: find_map_same same_ids)

lemma arm_found_by_key:
  "arm_keyed (update_arm P upd j) k = map_option (\<lambda>r. if P r then upd r else r) (arm_keyed j k)"
  unfolding arm_keyed_def update_arm_def update_where_def
  by (simp add: find_map_same same_ids)

end

locale source_update =
  checked_update ss_key upd "\<lambda>r. 0 \<le> ss_last_local_sequence r \<and> 0 \<le> ss_lease_generation r"
  for upd :: "source_row \<Rightarrow> source_row"
begin

lemma table_ok: "sources_ok K rows \<Longrightarrow> sources_ok K (update_where P upd rows)"
  unfolding sources_ok_def keys_kept
  by (rule conjI [OF conjunct1 ball_update_where]) (auto simp: ok_kept)

lemma keeps_schema: "schema_ok j \<Longrightarrow> schema_ok (update_source P upd j)"
  by (simp add: schema_ok_def update_source_def table_ok)

lemma source_found:
  "source_at (update_source P upd j) k = map_option (\<lambda>r. if P r then upd r else r) (source_at j k)"
  unfolding source_at_def update_source_def by (simp add: lookup_updated)

end

locale outbox_update = checked_update ox_key upd outbox_row_ok for upd :: "outbox_row \<Rightarrow> outbox_row"
begin

lemma same_wake: "ox_wake_id (upd r) = ox_wake_id r"
  using key_kept [of r] by (simp add: ox_key_def)

lemma table_ok: "outbox_ok W rows \<Longrightarrow> outbox_ok W (update_where P upd rows)"
  unfolding outbox_ok_def keys_kept
  by (rule conjI [OF conjunct1 ball_update_where]) (auto simp: ok_kept same_wake)

lemma keeps_schema: "schema_ok j \<Longrightarrow> schema_ok (update_outbox P upd j)"
  by (simp add: schema_ok_def update_outbox_def table_ok)

lemma outbox_found:
  "outbox_at (update_outbox P upd j) w n = map_option (\<lambda>r. if P r then upd r else r) (outbox_at j w n)"
  unfolding outbox_at_def update_outbox_def by (simp add: lookup_updated)

end

locale lifecycle_update =
  checked_update lc_wake_id upd "\<lambda>r. 1 \<le> lc_desired_revision r" for upd :: "lifecycle_row \<Rightarrow> lifecycle_row"
begin

lemma table_ok: "lifecycle_ok W rows \<Longrightarrow> lifecycle_ok W (update_where P upd rows)"
  unfolding lifecycle_ok_def keys_kept
  by (rule conjI [OF conjunct1 ball_update_where]) (auto simp: ok_kept)

lemma keeps_schema: "schema_ok j \<Longrightarrow> schema_ok (update_lifecycle P upd j)"
  by (simp add: schema_ok_def update_lifecycle_def table_ok)

lemma lifecycle_found:
  "lifecycle_of (update_lifecycle P upd j) w = map_option (\<lambda>r. if P r then upd r else r) (lifecycle_of j w)"
  unfolding lifecycle_of_def update_lifecycle_def by (simp add: lookup_updated)

end

locale progress_update =
  checked_update pg_wake_id upd "\<lambda>r. 0 \<le> pg_scanned_through_sequence r" for upd :: "progress_row \<Rightarrow> progress_row"
begin

lemma table_ok: "progress_ok W rows \<Longrightarrow> progress_ok W (update_where P upd rows)"
  unfolding progress_ok_def keys_kept
  by (rule conjI [OF conjunct1 ball_update_where]) (auto simp: ok_kept)

lemma keeps_schema: "schema_ok j \<Longrightarrow> schema_ok (update_progress P upd j)"
  by (simp add: schema_ok_def update_progress_def table_ok)

lemma progress_found:
  "progress_of (update_progress P upd j) w = map_option (\<lambda>r. if P r then upd r else r) (progress_of j w)"
  unfolding progress_of_def update_progress_def by (simp add: lookup_updated)

end

text \<open>Releasing a pin is the only update of a pin.\<close>

definition pin_columns :: "pin_row \<Rightarrow> string \<times> string \<times> string option \<times> int option \<times> string" where
  "pin_columns p = (pn_pin_id p, pn_wake_id p, pn_receipt_id p, pn_min_local_sequence p, pn_reason p)"

locale pin_update = row_update pin_columns upd for upd :: "pin_row \<Rightarrow> pin_row"
begin

lemma same_columns: "pn_pin_id (upd p) = pn_pin_id p" "pn_wake_id (upd p) = pn_wake_id p"
  "pn_receipt_id (upd p) = pn_receipt_id p" "pn_min_local_sequence (upd p) = pn_min_local_sequence p"
  "pn_reason (upd p) = pn_reason p"
  using key_kept [of p] by (simp_all add: pin_columns_def)

lemma table_ok: "pins_ok W R rows \<Longrightarrow> pins_ok W R (update_where P upd rows)"
  unfolding pins_ok_def map_update_where [of pn_pin_id upd, OF same_columns(1)]
  by (rule conjI [OF conjunct1 ball_update_where]) (auto simp: same_columns)

lemma keeps_schema: "schema_ok j \<Longrightarrow> schema_ok (update_pins P upd j)"
  by (simp add: schema_ok_def update_pins_def table_ok)

end

interpretation releasing: pin_update "\<lambda>p. p\<lparr>pn_released_at := Some at\<rparr>" for at
  by unfold_locales (simp add: pin_columns_def)

lemma release_all_pins_ok [step_inv]: "schema_ok j \<Longrightarrow> schema_ok (release_all_pins w at j)"
  unfolding release_all_pins_def by (rule releasing.keeps_schema)

section \<open>What a statement leaves alone\<close>

lemmas lookup_defs = instance_at_def source_at_def arm_with_id_def arm_of_def arm_keyed_def receipt_at_def
  progress_of_def reservation_of_def lifecycle_of_def outbox_at_def tombstone_of_def live_pins_def
  journal_uuid_def next_sequence_def receipt_exists_def

lemmas update_defs = update_arm_def update_source_def update_outbox_def update_lifecycle_def
  update_pins_def update_progress_def

section \<open>Transactions\<close>

text \<open>A transaction whose body keeps a property of the journal when it commits keeps it whatever happens.\<close>

locale safe_transaction =
  fixes keeps :: "journal \<Rightarrow> bool" and body :: "journal \<Rightarrow> 'r tx"
  assumes commit_keeps: "keeps j \<Longrightarrow> body j = Some (Commit j' r) \<Longrightarrow> keeps j'"
begin

lemma run_keeps: "keeps j \<Longrightarrow> keeps (snd (run_tx flt unavailable body j))"
  by (auto simp: run_tx_def split: option.split ending.split intro: commit_keeps)

end

lemma run_tx_cases:
  "run_tx flt unavailable body j = (r, j') \<Longrightarrow>
     (r = unavailable \<and> j' = j) \<or> (body j = Some (Rollback r) \<and> j' = j)
     \<or> (\<exists>r'. body j = Some (Commit j' r') \<and> (flt = NoFault \<and> r = r' \<or> flt = FaultAfter \<and> r = unavailable))"
  by (cases flt) (auto simp: run_tx_def split: option.splits ending.splits if_splits)

end
