(* ===== verification/Publisher.thy ===== *)
theory Publisher
  imports SignalRecords
begin

text \<open>
  The publisher that projects a wake record into its directory (\<open>WakeRecordPublisher\<close> of
  \<open>src/src/codex_wake/signal_records.py\<close>) and the managed reader whose advertised capability permits it,
  with the process identities that capability is checked against (\<open>src/src/codex_wake/process.py\<close>).

  The wake root is a map from a directory and a file name to the text of the file.  What the operating
  system answers is an argument: a view of the processes, and for each call of the publisher the outcome of its file
  operations.  A failure before the atomic replacement leaves the directory as it was, since the
  temporary file (whose name starts with a dot and is no record's) is removed; a failure after it
  leaves the new file in place.  The checkpoint hook is the default one, which does nothing, or fails
  the way the file operations do.
\<close>

section \<open>Process identities\<close>

datatype kill_result = KillDelivered | NoSuchProcess | NotPermitted

record os_view =
  os_kill :: "int \<Rightarrow> kill_result"
  os_stat :: "int \<Rightarrow> string option"
  os_boot_id :: "string option"
  os_resolve :: "string \<Rightarrow> string option"

definition process_exists :: "os_view \<Rightarrow> int \<Rightarrow> bool" where
  "process_exists os pid = (os_kill os pid \<noteq> NoSuchProcess)"

text \<open>The text after the last occurrence of \<open>") "\<close>.\<close>

fun after_last_marker :: "string \<Rightarrow> string option" where
  "after_last_marker [] = None"
| "after_last_marker (c # s) =
     (case after_last_marker s of
        Some r \<Rightarrow> Some r
      | None \<Rightarrow> if c = CHR '')'' \<and> starts_with '' '' s then Some (tl s) else None)"

definition is_space :: "char \<Rightarrow> bool" where
  "is_space c = (ord c = 32 \<or> 9 \<le> ord c \<and> ord c \<le> 13 \<or> 28 \<le> ord c \<and> ord c \<le> 31 \<or> ord c = 133 \<or> ord c = 160)"

text \<open>\<open>s.split()\<close>, with the word read so far.\<close>

fun split_words :: "string \<Rightarrow> string \<Rightarrow> string list" where
  "split_words w [] = (if w = [] then [] else [w])"
| "split_words w (c # s) =
     (if is_space c then (if w = [] then split_words [] s else w # split_words [] s)
      else split_words (w @ [c]) s)"

definition strip :: "string \<Rightarrow> string" where
  "strip s = rev (dropWhile is_space (rev (dropWhile is_space s)))"

text \<open>\<open>int(text)\<close> of a text without spaces: a sign, then digits that single underscores may separate.\<close>

fun digit_groups :: "string \<Rightarrow> bool" where
  "digit_groups [] = False"
| "digit_groups [c] = is_digit c"
| "digit_groups (c # d # s) =
     (is_digit c \<and> (if d = CHR ''_'' then digit_groups s else digit_groups (d # s)))"

definition py_int :: "string \<Rightarrow> int option" where
  "py_int s =
     (let (sign, body) = (case s of
            [] \<Rightarrow> (1, [])
          | c # r \<Rightarrow> if c = CHR ''-'' then (- 1, r) else if c = CHR ''+'' then (1, r) else (1, s))
      in if digit_groups body then Some (sign * int (digits_val (filter is_digit body))) else None)"

definition process_start_time_ticks :: "os_view \<Rightarrow> int \<Rightarrow> int option" where
  "process_start_time_ticks os pid =
     do { text \<leftarrow> os_stat os pid;
          rest \<leftarrow> after_last_marker text;
          let fields = split_words [] rest in
          if length fields \<le> 19 then None else py_int (fields ! 19) }"

definition boot_id_value :: "os_view \<Rightarrow> string option" where
  "boot_id_value os =
     do { text \<leftarrow> os_boot_id os; let v = strip text in if v = [] then None else Some v }"

record identity_info =
  id_start_time_ticks :: int
  id_boot_id :: "string option"

definition process_identity :: "os_view \<Rightarrow> int \<Rightarrow> identity_info option" where
  "process_identity os pid =
     do { ticks \<leftarrow> process_start_time_ticks os pid;
          Some \<lparr>id_start_time_ticks = ticks, id_boot_id = boot_id_value os\<rparr> }"

section \<open>The reader's capability\<close>

record reader_capability =
  cp_wake_root :: string
  cp_reader_id :: string
  cp_generation :: int
  cp_schema_versions :: "int list"
  cp_active :: bool
  cp_pid :: "int option"
  cp_start_time_ticks :: "int option"
  cp_boot_id :: "string option"

definition reader_unavailable :: "string option" where
  "reader_unavailable = Some ''READER_CAPABILITY_UNAVAILABLE''"

definition process_matches :: "os_view \<Rightarrow> reader_capability \<Rightarrow> int \<Rightarrow> bool" where
  "process_matches os cap pid =
     (process_exists os pid
      \<and> (case process_identity os pid of
           None \<Rightarrow> False
         | Some identity \<Rightarrow>
             (case cp_start_time_ticks cap of None \<Rightarrow> True | Some t \<Rightarrow> id_start_time_ticks identity = t)
             \<and> (case cp_boot_id cap of None \<Rightarrow> True | Some b \<Rightarrow> boot_id_value os = Some b)))"

text \<open>\<^term>\<open>None\<close>: the reader may be published to; otherwise the code of the refusal.\<close>

definition capability_code :: "os_view \<Rightarrow> string \<Rightarrow> reader_capability option \<Rightarrow> string option" where
  "capability_code os root capability =
     (case capability of
        None \<Rightarrow> reader_unavailable
      | Some cap \<Rightarrow>
          (case os_resolve os (cp_wake_root cap) of
             None \<Rightarrow> reader_unavailable
           | Some cap_root \<Rightarrow>
               if cap_root \<noteq> root \<or> \<not> cp_active cap \<or> cp_reader_id cap = []
                 \<or> cp_generation cap < 1 \<or> 2 \<notin> set (cp_schema_versions cap)
               then reader_unavailable
               else case cp_pid cap of
                 None \<Rightarrow> None
               | Some pid \<Rightarrow> if process_matches os cap pid then None else reader_unavailable))"

section \<open>Publishing\<close>

type_synonym path = "string \<times> string"
type_synonym files = "path \<Rightarrow> string option"

datatype publication = PubApplied | PubMissing | PubConflict | PubUnavailable

record publication_result =
  pr_outcome :: publication
  pr_path :: "path option"

definition result_of :: "publication \<Rightarrow> path option \<Rightarrow> publication_result" where
  "result_of outcome at = \<lparr>pr_outcome = outcome, pr_path = at\<rparr>"

text \<open>How the file operations of one call end.\<close>

datatype io = IoFine | IoFailsBefore | IoFailsAfter

definition record_file :: "string \<Rightarrow> string \<Rightarrow> path" where
  "record_file status wake_id = (status, wake_id @ ''.json'')"

definition superseding_statuses :: "string list" where
  "superseding_statuses = [''firing'', ''submitted'', ''failed'', ''cancelled'', ''expired'', ''archived'']"

text \<open>
  What \<open>_remove_superseded_source\<close> asks of the pending file before it unlinks it: a record of the
  same wake and journal, not of a later revision.
\<close>

definition superseded :: "(string, json) dict \<Rightarrow> string \<Rightarrow> bool" where
  "superseded payload text =
     (case loads text of
        None \<Rightarrow> False
      | Some source \<Rightarrow>
          (case decode_signal_record source of
             Some (Some decoded) \<Rightarrow>
               jget decoded ''id'' = jget payload ''id''
               \<and> jget decoded ''journal_uuid'' = jget payload ''journal_uuid''
               \<and> (case (jget decoded ''record_revision'', jget payload ''record_revision'') of
                    (JInt m, JInt n) \<Rightarrow> m \<le> n
                  | _ \<Rightarrow> False)
           | _ \<Rightarrow> False))"

text \<open>
  \<open>unlink_ok\<close> is false when removing the file fails.  The pending path never is the final path, whose
  directory is another one.
\<close>

definition remove_superseded_source :: "bool \<Rightarrow> (string, json) dict \<Rightarrow> files \<Rightarrow> files" where
  "remove_superseded_source unlink_ok payload fs =
     (if jget payload ''status'' \<notin> JStr ` set superseding_statuses then fs
      else case jget payload ''id'' of
        JStr wake_id \<Rightarrow>
          (case fs (record_file ''pending'' wake_id) of
             None \<Rightarrow> fs
           | Some text \<Rightarrow>
               if superseded payload text \<and> unlink_ok
               then fs(record_file ''pending'' wake_id := None) else fs)
      | _ \<Rightarrow> fs)"

definition publishable_statuses :: "string list" where
  "publishable_statuses = [''pending'', ''firing'', ''cancelled'', ''expired'']"

text \<open>The checks of \<open>apply\<close> on the text: the record it describes, or the outcome that refuses it.\<close>

definition check_payload :: "string \<Rightarrow> string \<Rightarrow> publication + (string, json) dict \<times> path" where
  "check_payload payload_json payload_sha256 =
     (case loads payload_json of
        None \<Rightarrow> Inl PubUnavailable
      | Some payload \<Rightarrow>
          (case (jindex payload ''id'', jindex payload ''status'') of
             (Some wid, Some st) \<Rightarrow>
               if \<not> nonempty_str wid then Inl PubConflict
               else (case in_set st publishable_statuses of
                  None \<Rightarrow> Inl PubUnavailable
                | Some False \<Rightarrow> Inl PubConflict
                | Some True \<Rightarrow>
                    (case decode_signal_record payload of
                       None \<Rightarrow> Inl PubUnavailable
                     | Some None \<Rightarrow> Inl PubConflict
                     | Some (Some r) \<Rightarrow>
                         (case (wid, st) of
                            (JStr wake_id, JStr status) \<Rightarrow>
                              if line_digest payload_json \<noteq> payload_sha256 then Inl PubConflict
                              else Inr (r, record_file status wake_id)
                          | _ \<Rightarrow> Inl PubConflict)))
           | _ \<Rightarrow> Inl PubUnavailable))"

text \<open>
  \<open>cap0\<close> and \<open>cap1\<close> are what \<open>capability_code\<close> answers at the start and before the replacement;
  \<open>meanwhile\<close> is what others do to the files between \<open>final_path.exists()\<close> and \<open>os.replace\<close>, which
  replaces whatever it finds.
\<close>

definition publisher_apply_amid ::
  "(files \<Rightarrow> files) \<Rightarrow> string option \<Rightarrow> string option \<Rightarrow> io \<Rightarrow> bool \<Rightarrow> string \<Rightarrow> string \<Rightarrow> files
    \<Rightarrow> publication_result \<times> files" where
  "publisher_apply_amid meanwhile cap0 cap1 io unlink_ok payload_json payload_sha256 fs =
     (if cap0 \<noteq> None then (result_of PubUnavailable None, fs)
      else case check_payload payload_json payload_sha256 of
        Inl refused \<Rightarrow> (result_of refused None, fs)
      | Inr (payload, at) \<Rightarrow>
          (case fs at of
             Some text \<Rightarrow>
               if io \<noteq> IoFine then (result_of PubUnavailable None, fs)
               else if text \<noteq> payload_json @ newline then (result_of PubConflict (Some at), fs)
               else (result_of PubApplied (Some at), remove_superseded_source unlink_ok payload fs)
           | None \<Rightarrow>
               let found = meanwhile fs in
               if io = IoFailsBefore \<or> cap1 \<noteq> None then (result_of PubUnavailable None, found)
               else let replaced = found(at \<mapsto> payload_json @ newline) in
                 if io = IoFailsAfter then (result_of PubUnavailable None, replaced)
                 else (result_of PubApplied (Some at), remove_superseded_source unlink_ok payload replaced)))"

text \<open>Where nobody else writes in between, as the calls of the store assume.\<close>

definition publisher_apply ::
  "string option \<Rightarrow> string option \<Rightarrow> io \<Rightarrow> bool \<Rightarrow> string \<Rightarrow> string \<Rightarrow> files \<Rightarrow> publication_result \<times> files" where
  "publisher_apply = publisher_apply_amid (\<lambda>fs. fs)"

definition publisher_inspect ::
  "string option \<Rightarrow> bool \<Rightarrow> string \<Rightarrow> string \<Rightarrow> files \<Rightarrow> publication_result" where
  "publisher_inspect cap read_ok payload_json payload_sha256 fs =
     (if cap \<noteq> None then result_of PubUnavailable None
      else case loads payload_json of
        None \<Rightarrow> result_of PubConflict None
      | Some payload \<Rightarrow>
          (case decode_signal_record payload of
             Some (Some r) \<Rightarrow>
               (case (jget r ''id'', jget r ''status'') of
                  (JStr wake_id, JStr status) \<Rightarrow>
                    (let at = record_file status wake_id in
                     case fs at of
                       None \<Rightarrow> result_of PubMissing (Some at)
                     | Some text \<Rightarrow>
                         if line_digest payload_json \<noteq> payload_sha256
                         then result_of PubConflict (Some at)
                         else if \<not> read_ok then result_of PubConflict None
                         else result_of (if text = payload_json @ newline then PubApplied else PubConflict)
                                (Some at))
                | _ \<Rightarrow> result_of PubConflict None)
           | _ \<Rightarrow> result_of PubConflict None))"

text \<open>\<^term>\<open>None\<close>: decoding the argument raised, which this method lets through.\<close>

definition remove_superseded_pending :: "bool \<Rightarrow> json \<Rightarrow> files \<Rightarrow> (bool \<times> files) option" where
  "remove_superseded_pending unlink_ok terminal_record fs =
     (case decode_signal_record terminal_record of
        None \<Rightarrow> None
      | Some None \<Rightarrow> Some (False, fs)
      | Some (Some payload) \<Rightarrow>
          (case (jget payload ''id'', jget payload ''status'') of
             (JStr wake_id, JStr status) \<Rightarrow>
               if status \<notin> {''submitted'', ''failed'', ''cancelled'', ''expired'', ''archived''} then Some (False, fs)
               else if fs (record_file (if status = ''archived'' then ''archive'' else status) wake_id) = None
               then Some (False, fs)
               else let fs' = remove_superseded_source unlink_ok payload fs
                    in Some (fs' (record_file ''pending'' wake_id) = None, fs')
           | _ \<Rightarrow> Some (False, fs)))"

section \<open>The advertised reader\<close>

text \<open>\<open>parse_health_time\<close> and \<open>health_is_recent\<close> of \<open>monitor.py\<close>; 120 seconds is its default.\<close>

definition parse_health_time :: "json \<Rightarrow> datetime option" where
  "parse_health_time v = (case v of JStr s \<Rightarrow> if s = [] then None else parse_time s | _ \<Rightarrow> None)"

definition health_is_recent :: "(string, json) dict option \<Rightarrow> int \<Rightarrow> datetime \<Rightarrow> bool" where
  "health_is_recent health stale_after now =
     (case health of
        None \<Rightarrow> False
      | Some h \<Rightarrow>
          h \<noteq> [] \<and>
          (case parse_health_time (jget h ''checked_at'') of
             None \<Rightarrow> False
           | Some checked_at \<Rightarrow> int (micros now) - int (micros checked_at) \<le> stale_after * 1000000))"

text \<open>The fields of the health file, if they are all there and of the right form.\<close>

definition advertised_reader :: "os_view \<Rightarrow> string \<Rightarrow> (string, json) dict \<Rightarrow> reader_capability option" where
  "advertised_reader os root health =
     do { root_text \<leftarrow> Option.bind (dict_get health ''wake_root'') jstr;
          advertised \<leftarrow> os_resolve os root_text;
          reader_id \<leftarrow> Option.bind (dict_get health ''reader_id'') jstr;
          generation \<leftarrow> Option.bind (dict_get health ''reader_generation'') jint;
          versions \<leftarrow> Option.bind (dict_get health ''reader_schema_versions'') jarr;
          ints \<leftarrow> those (map jint versions);
          capabilities \<leftarrow> Option.bind (dict_get health ''reader_capabilities'') jarr;
          pid \<leftarrow> Option.bind (dict_get health ''pid'') jint;
          start \<leftarrow> Option.bind (dict_get health ''process_start_time_ticks'') jint;
          boot_id \<leftarrow> Option.bind (dict_get health ''process_boot_id'') jstr;
          if advertised \<noteq> root \<or> reader_id = [] \<or> generation < 1
             \<or> JStr ''signal_records_v2'' \<notin> set capabilities \<or> pid < 1 \<or> boot_id = []
          then None
          else Some \<lparr>cp_wake_root = root, cp_reader_id = reader_id, cp_generation = generation,
                     cp_schema_versions = ints, cp_active = True, cp_pid = Some pid,
                     cp_start_time_ticks = Some start, cp_boot_id = Some boot_id\<rparr> }"

definition probe_managed_reader_capability ::
  "os_view \<Rightarrow> string \<Rightarrow> (string, json) dict option \<Rightarrow> string option \<Rightarrow> int option \<Rightarrow> datetime
    \<Rightarrow> reader_capability option" where
  "probe_managed_reader_capability os root health expected_reader_id expected_generation now =
     (if \<not> health_is_recent health 120 now then None
      else do { h \<leftarrow> health;
                cap \<leftarrow> advertised_reader os root h;
                if (case expected_reader_id of None \<Rightarrow> False | Some r \<Rightarrow> cp_reader_id cap \<noteq> r)
                   \<or> (case expected_generation of None \<Rightarrow> False | Some g \<Rightarrow> cp_generation cap \<noteq> g)
                then None
                else if capability_code os root (Some cap) = None then Some cap else None })"

definition current_reader_capability ::
  "os_view \<Rightarrow> int \<Rightarrow> string \<Rightarrow> string option \<Rightarrow> reader_capability" where
  "current_reader_capability os pid root reader_id =
     (let identity = process_identity os pid;
          start = map_option id_start_time_ticks identity;
          boot_id = (case Option.bind identity id_boot_id of Some b \<Rightarrow> Some b | None \<Rightarrow> boot_id_value os)
      in \<lparr>cp_wake_root = root,
          cp_reader_id = (case reader_id of Some (c # s) \<Rightarrow> c # s | _ \<Rightarrow> ''codex-waked:'' @ int_str pid),
          cp_generation = (case start of Some t \<Rightarrow> if t > 0 then t else pid | None \<Rightarrow> pid),
          cp_schema_versions = [1, 2],
          cp_active = True,
          cp_pid = (if start \<noteq> None \<and> boot_id \<noteq> None then Some pid else None),
          cp_start_time_ticks = start,
          cp_boot_id = boot_id\<rparr>)"

end
