(* ===== verification/StorePublish.thy ===== *)
theory StorePublish
  imports JournalOk Publisher
begin

text \<open>
  The publication of wake records (\<open>_complete_registration_publication\<close>, \<open>_complete_match_publication\<close>,
  \<open>_mark_publication_blocked\<close>, \<open>reconcile_publications\<close> and \<open>reconcile_match_publication\<close> of
  \<open>SQLiteSignalModule\<close> in \<open>src/src/codex_wake/signal_store.py\<close>).

  Each reads a ticket from the journal, brings the file of the record into its place outside any
  transaction, and then marks the outbox row as applied in a transaction of its own.  The journal and
  the files are the state; what one call meets from outside (faults, clock readings, answers of the reader's
  capability, outcomes of file operations) is its environment, numbered in the order of the code.
\<close>

record publisher_env =
  pe_caps :: "nat \<Rightarrow> string option"
  pe_io :: io
  pe_read_ok :: "nat \<Rightarrow> bool"
  pe_unlink_ok :: bool

record env =
  en_lease_seconds :: int
  en_owner :: string
  en_resolve :: "string \<Rightarrow> string"
  en_clock :: "nat \<Rightarrow> datetime option"
  en_fault :: "nat \<Rightarrow> fault"
  en_publisher :: "publisher_env option"

record world =
  w_journal :: journal
  w_files :: files

section \<open>Reading a row\<close>

definition expiry_of :: "arm_row \<Rightarrow> datetime option option" where
  "expiry_of r =
     (if sql_true (ar_expires_at r) then map_option Some (Option.bind (ar_expires_at r) parse_time)
      else Some None)"

definition armed_from_row :: "arm_row \<Rightarrow> armed_signal option" where
  "armed_from_row r =
     do { sequence \<leftarrow> ar_local_after_sequence r;
          text \<leftarrow> ar_baseline_json r;
          parsed \<leftarrow> loads text;
          members \<leftarrow> jobj parsed;
          baseline \<leftarrow> json_scalars members;
          anchor \<leftarrow> ar_source_anchor r;
          recovery \<leftarrow> ar_recovery r;
          spec \<leftarrow> spec_from_json (ar_spec_json r);
          registered \<leftarrow> parse_time (ar_registered_at r);
          expires \<leftarrow> expiry_of r;
          Some \<lparr>am_wake_id = ar_wake_id r, am_arm_id = ar_arm_id r, am_spec = spec,
                am_anchor = \<lparr>an_local_after_sequence = sequence, an_source_anchor = anchor,
                  an_baseline = baseline, an_recovery = recovery\<rparr>,
                am_registered_at = registered, am_expires_at = expires,
                am_publication = arm_state_text (ar_state r)\<rparr> }"

section \<open>Bringing the file into place\<close>

text \<open>
  Inspect; a missing record is applied and inspected again.  A match that is already in place is
  applied again (\<open>again\<close>), so that the pending file it supersedes is removed.
\<close>

definition settle ::
  "bool \<Rightarrow> (nat \<Rightarrow> files \<Rightarrow> publication_result) \<Rightarrow> (files \<Rightarrow> publication_result \<times> files) \<Rightarrow> files
    \<Rightarrow> publication \<times> files" where
  "settle again insp app fs =
     (case pr_outcome (insp 0 fs) of
        PubMissing \<Rightarrow>
          (let (r, fs') = app fs in
           (if pr_outcome r = PubApplied then pr_outcome (insp 1 fs') else pr_outcome r, fs'))
      | PubApplied \<Rightarrow>
          (if again then let (r, fs') = app fs in (pr_outcome r, fs') else (PubApplied, fs))
      | outcome \<Rightarrow> (outcome, fs))"

text \<open>The publisher's operations on one text, in the environment of one call.\<close>

definition inspect_with :: "publisher_env \<Rightarrow> string \<Rightarrow> string \<Rightarrow> nat \<Rightarrow> files \<Rightarrow> publication_result" where
  "inspect_with pe text sha n fs =
     publisher_inspect (pe_caps pe (if n = 0 then 1 else 4)) (pe_read_ok pe n) text sha fs"

definition apply_with :: "publisher_env \<Rightarrow> string \<Rightarrow> string \<Rightarrow> files \<Rightarrow> publication_result \<times> files" where
  "apply_with pe text sha fs =
     publisher_apply (pe_caps pe 2) (pe_caps pe 3) (pe_io pe) (pe_unlink_ok pe) text sha fs"

section \<open>A registration\<close>

datatype ticket = TicketAnswer "armed_signal outcome" | TicketPublish string string

definition registration_ticket :: "string \<Rightarrow> journal \<Rightarrow> ticket option" where
  "registration_ticket w j =
     (case (arm_of j w, outbox_at j w 1, lifecycle_of j w) of
        (Some arm, Some out, Some life) \<Rightarrow>
          (if ar_state arm \<noteq> Prepared \<and> ar_state arm \<noteq> Published
           then Some (TicketAnswer (degraded_at (Some w) ''ARM_NOT_PUBLISHED'' None))
           else if lc_desired_status life \<noteq> ''pending'' \<or> lc_desired_revision life \<noteq> 1
           then (if ar_state arm = Published \<and> ox_state out = OutApplied
                 then map_option (\<lambda>a. TicketAnswer (Ok a)) (armed_from_row arm)
                 else Some (TicketAnswer (degraded_at (Some w) ''ARM_NOT_PUBLISHED'' None)))
           else Some (TicketPublish (sql_str (ox_payload_json out)) (sql_str (ox_payload_sha256 out))))
      | _ \<Rightarrow> Some (TicketAnswer (invalid_as (Some w) ''ARM_STATE_UNAVAILABLE''
                     ''arm publication state is unavailable'')))"

text \<open>\<open>_mark_publication_blocked\<close>; it answers nothing.\<close>

definition blocked_row :: "string \<Rightarrow> string \<Rightarrow> outbox_row \<Rightarrow> outbox_row" where
  "blocked_row code at r =
     r\<lparr>ox_state := OutBlocked, ox_blocked_code := Some code,
       ox_attempt_count := ox_attempt_count r + 1, ox_last_attempt_at := Some at\<rparr>"

definition blocked_tx :: "string \<Rightarrow> string \<Rightarrow> datetime option \<Rightarrow> journal \<Rightarrow> unit tx" where
  "blocked_tx w code clock j =
     do { now \<leftarrow> clock;
          Some (Commit (update_outbox (\<lambda>r. ox_key r = (w, 1)) (blocked_row code (format_time now)) j) ()) }"

definition mark_publication_blocked :: "env \<Rightarrow> string \<Rightarrow> string \<Rightarrow> journal \<Rightarrow> journal" where
  "mark_publication_blocked e w code j = snd (run_tx (en_fault e 3) () (blocked_tx w code (en_clock e 1)) j)"

text \<open>The rows that a registration's last transaction writes.\<close>

definition applied_row :: "string \<Rightarrow> outbox_row \<Rightarrow> outbox_row" where
  "applied_row at r =
     r\<lparr>ox_state := OutApplied, ox_applied_at := Some at, ox_blocked_code := None,
       ox_attempt_count := ox_attempt_count r + 1, ox_last_attempt_at := Some at\<rparr>"

definition applied_life :: "string \<Rightarrow> int \<Rightarrow> string \<Rightarrow> lifecycle_row \<Rightarrow> lifecycle_row" where
  "applied_life status revision at r =
     r\<lparr>lc_applied_status := Some status, lc_applied_revision := Some revision, lc_updated_at := at\<rparr>"

definition published_row :: "string \<Rightarrow> arm_row \<Rightarrow> arm_row" where
  "published_row at r =
     r\<lparr>ar_state := Published,
       ar_published_at := (case ar_published_at r of None \<Rightarrow> Some at | Some t \<Rightarrow> Some t)\<rparr>"

definition write_published :: "string \<Rightarrow> string \<Rightarrow> journal \<Rightarrow> journal" where
  "write_published w at j =
     update_arm (\<lambda>r. ar_wake_id r = w) (published_row at)
       (update_lifecycle
          (\<lambda>r. lc_wake_id r = w \<and> lc_desired_status r = ''pending'' \<and> lc_desired_revision r = 1)
          (applied_life ''pending'' 1 at)
          (update_outbox (\<lambda>r. ox_key r = (w, 1)) (applied_row at) j))"

definition publish_tx ::
  "string \<Rightarrow> string option \<Rightarrow> datetime option \<Rightarrow> journal \<Rightarrow> armed_signal outcome tx" where
  "publish_tx w cap clock j =
     (case arm_of j w of
        None \<Rightarrow> Some (Rollback (degraded_at (Some w) ''READER_CAPABILITY_UNAVAILABLE'' None))
      | Some current \<Rightarrow>
          if (ar_state current \<noteq> Prepared \<and> ar_state current \<noteq> Published) \<or> cap \<noteq> None
          then Some (Rollback (degraded_at (Some w) ''READER_CAPABILITY_UNAVAILABLE'' None))
          else do { now \<leftarrow> clock;
                    let j' = write_published w (format_time now) j in
                    Some (Commit j'
                      (case Option.bind (arm_of j' w) armed_from_row of
                         None \<Rightarrow> degraded_at (Some w) ''STORE_UNAVAILABLE'' None
                       | Some armed \<Rightarrow> Ok armed)) })"

definition complete_registration_publication ::
  "env \<Rightarrow> string \<Rightarrow> world \<Rightarrow> armed_signal outcome \<times> world" where
  "complete_registration_publication e w wd =
     (case en_publisher e of
        None \<Rightarrow> (degraded_at (Some w) ''WAKE_RECORD_PUBLISHER_UNAVAILABLE'' None, wd)
      | Some pe \<Rightarrow>
      case pe_caps pe 0 of
        Some code \<Rightarrow> (degraded_at (Some w) code None, wd)
      | None \<Rightarrow>
      case run_read (en_fault e 2) (TicketAnswer (degraded_at (Some w) ''STORE_UNAVAILABLE'' None))
             (registration_ticket w) (w_journal wd) of
        TicketAnswer answer \<Rightarrow> (answer, wd)
      | TicketPublish text sha \<Rightarrow>
          let (outcome, fs) = settle False (inspect_with pe text sha) (apply_with pe text sha) (w_files wd)
          in if outcome \<noteq> PubApplied
             then let code = (if outcome = PubConflict then ''WAKE_RECORD_CONFLICT''
                              else ''WAKE_RECORD_PUBLICATION_FAILED'')
                  in (degraded_at (Some w) code None,
                      \<lparr>w_journal = mark_publication_blocked e w code (w_journal wd), w_files = fs\<rparr>)
             else let (answer, j) = run_tx (en_fault e 4) (degraded_at (Some w) ''STORE_UNAVAILABLE'' None)
                                      (publish_tx w (pe_caps pe 5) (en_clock e 2)) (w_journal wd)
                  in (answer, \<lparr>w_journal = j, w_files = fs\<rparr>))"

section \<open>A match\<close>

definition terminal_statuses :: "string list" where
  "terminal_statuses = [''submitted'', ''failed'', ''cancelled'', ''expired'', ''archived'']"

text \<open>
  What both transactions ask before a match is published: the row of the four-way join is there, and the wake is
  published, wants this revision to fire and is not terminal.
\<close>

definition firing_authority :: "string \<Rightarrow> int \<Rightarrow> journal \<Rightarrow> outbox_row option" where
  "firing_authority w revision j =
     (case (arm_of j w, lifecycle_of j w, outbox_at j w revision, reservation_of j w) of
        (Some arm, Some life, Some out, Some _) \<Rightarrow>
          (if ar_state arm \<noteq> Published \<or> lc_desired_status life \<noteq> ''firing''
              \<or> lc_desired_revision life \<noteq> revision
              \<or> (case lc_applied_status life of None \<Rightarrow> False | Some s \<Rightarrow> s \<in> set terminal_statuses)
              \<or> tombstone_of j w \<noteq> None
           then None else Some out)
      | _ \<Rightarrow> None)"

definition match_ticket :: "string \<Rightarrow> int \<Rightarrow> journal \<Rightarrow> (degraded + string \<times> string) option" where
  "match_ticket w revision j =
     (case firing_authority w revision j of
        None \<Rightarrow> Some (Inl (DegradedOf (Some w) ''FIRING_AUTHORITY_UNAVAILABLE'' None None))
      | Some out \<Rightarrow> Some (Inr (sql_str (ox_payload_json out), sql_str (ox_payload_sha256 out))))"

definition match_applied_row :: "string \<Rightarrow> outbox_row \<Rightarrow> outbox_row" where
  "match_applied_row at r =
     r\<lparr>ox_state := OutApplied, ox_applied_at := Some at, ox_blocked_code := None,
       ox_attempt_count := ox_attempt_count r + (if ox_state r = OutApplied then 0 else 1),
       ox_last_attempt_at := Some at\<rparr>"

definition write_match_applied :: "string \<Rightarrow> int \<Rightarrow> string \<Rightarrow> journal \<Rightarrow> journal" where
  "write_match_applied w revision at j =
     update_lifecycle
       (\<lambda>r. lc_wake_id r = w \<and> lc_desired_status r = ''firing'' \<and> lc_desired_revision r = revision)
       (applied_life ''firing'' revision at)
       (update_outbox (\<lambda>r. ox_key r = (w, revision)) (match_applied_row at) j)"

definition match_tx ::
  "string \<Rightarrow> int \<Rightarrow> string \<Rightarrow> string option \<Rightarrow> datetime option \<Rightarrow> journal \<Rightarrow> (degraded + unit) tx" where
  "match_tx w revision sha cap clock j =
     (case firing_authority w revision j of
        None \<Rightarrow> Some (Rollback (Inl (DegradedOf (Some w) ''FIRING_AUTHORITY_UNAVAILABLE'' None None)))
      | Some out \<Rightarrow>
          if sql_str (ox_payload_sha256 out) \<noteq> sha \<or> cap \<noteq> None
          then Some (Rollback (Inl (DegradedOf (Some w) ''FIRING_AUTHORITY_UNAVAILABLE'' None None)))
          else do { now \<leftarrow> clock;
                    Some (Commit (write_match_applied w revision (format_time now) j) (Inr ())) })"

abbreviation match_refused :: "string \<Rightarrow> string \<Rightarrow> degraded + 'a" where
  "match_refused w code \<equiv> Inl (DegradedOf (Some w) code None None)"

text \<open>\<^term>\<open>Inr ()\<close> is \<open>True\<close>.\<close>

definition complete_match_publication ::
  "env \<Rightarrow> string \<Rightarrow> int \<Rightarrow> world \<Rightarrow> (degraded + unit) \<times> world" where
  "complete_match_publication e w revision wd =
     (case en_publisher e of
        None \<Rightarrow> (match_refused w ''READER_CAPABILITY_UNAVAILABLE'', wd)
      | Some pe \<Rightarrow>
      if pe_caps pe 0 \<noteq> None then (match_refused w ''READER_CAPABILITY_UNAVAILABLE'', wd)
      else case run_read (en_fault e 2) (match_refused w ''STORE_UNAVAILABLE'') (match_ticket w revision) (w_journal wd) of
        Inl d \<Rightarrow> (Inl d, wd)
      | Inr (text, sha) \<Rightarrow>
          let (outcome, fs) = settle True (inspect_with pe text sha) (apply_with pe text sha) (w_files wd)
          in if outcome \<noteq> PubApplied \<or> pe_caps pe 5 \<noteq> None
             then (match_refused w ''WAKE_RECORD_PUBLICATION_FAILED'', wd\<lparr>w_files := fs\<rparr>)
             else let (answer, j) = run_tx (en_fault e 3) (match_refused w ''STORE_UNAVAILABLE'')
                                      (match_tx w revision sha (pe_caps pe 6) (en_clock e 1)) (w_journal wd)
                  in (answer, \<lparr>w_journal = j, w_files = fs\<rparr>))"

section \<open>Reconciling\<close>

text \<open>\<open>ORDER BY\<close> two or three columns sorts by the last one first; the sort is stable.\<close>

definition publication_rows :: "int \<Rightarrow> journal \<Rightarrow> string list option" where
  "publication_rows lim j =
     do { n \<leftarrow> sql_int lim;
          Some (map ar_wake_id (take (nat n)
            (sort_key ar_registered_at (sort_key ar_wake_id
              (filter (\<lambda>r. ar_state r = Prepared \<or> ar_state r = Published) (j_arms j)))))) }"

definition match_rows :: "int \<Rightarrow> journal \<Rightarrow> (string \<times> int) list option" where
  "match_rows lim j =
     do { n \<leftarrow> sql_int lim;
          Some (map ox_key (take (nat n)
            (sort_key ox_created_at (sort_key ox_wake_id (sort_key ox_revision
              (filter (\<lambda>r. 1 < ox_revision r) (j_outbox j))))))) }"

text \<open>The loops; the environment of each round is numbered by it.\<close>

fun publish_all :: "(nat \<Rightarrow> env) \<Rightarrow> string list \<Rightarrow> int \<Rightarrow> world \<Rightarrow> int \<times> world" where
  "publish_all es [] applied wd = (applied, wd)"
| "publish_all es (w # ws) applied wd =
     (let (outcome, wd') = complete_registration_publication (es 0) w wd
      in publish_all (es \<circ> Suc) ws (applied + (case outcome of Ok _ \<Rightarrow> 1 | _ \<Rightarrow> 0)) wd')"

fun publish_matches :: "(nat \<Rightarrow> env) \<Rightarrow> (string \<times> int) list \<Rightarrow> int \<Rightarrow> world \<Rightarrow> int \<times> world" where
  "publish_matches es [] applied wd = (applied, wd)"
| "publish_matches es ((w, n) # ws) applied wd =
     (let (outcome, wd') = complete_match_publication (es 0) w n wd
      in publish_matches (es \<circ> Suc) ws (applied + (case outcome of Inr _ \<Rightarrow> 1 | Inl _ \<Rightarrow> 0)) wd')"

definition reconcile_publications ::
  "fault \<times> fault \<Rightarrow> (nat \<Rightarrow> env) \<Rightarrow> (nat \<Rightarrow> env) \<Rightarrow> int \<Rightarrow> bool \<Rightarrow> world \<Rightarrow> int outcome \<times> world" where
  "reconcile_publications faults es ms lim include_matches wd =
     (if lim \<le> 0 then (degraded_at None ''INVALID_PUBLICATION_LIMIT'' None, wd)
      else case run_read (fst faults) None (\<lambda>j. Some (publication_rows lim j)) (w_journal wd) of
        None \<Rightarrow> (degraded_at None ''STORE_UNAVAILABLE'' None, wd)
      | Some wakes \<Rightarrow>
          let (applied, wd1) = publish_all es wakes 0 wd
          in if \<not> include_matches then (Ok applied, wd1)
             else case run_read (snd faults) None (\<lambda>j. Some (match_rows (max 0 (lim - applied)) j))
                         (w_journal wd1) of
               None \<Rightarrow> (degraded_at None ''STORE_UNAVAILABLE'' None, wd1)
             | Some rows \<Rightarrow> let (total, wd2) = publish_matches ms rows applied wd1 in (Ok total, wd2))"

text \<open>The highest revision above 1, if there is one.\<close>

definition match_revision :: "string \<Rightarrow> journal \<Rightarrow> int option" where
  "match_revision w j =
     (case sort_key (\<lambda>n. - n) (map ox_revision
              (filter (\<lambda>r. ox_wake_id r = w \<and> 1 < ox_revision r) (j_outbox j))) of
        [] \<Rightarrow> None | n # _ \<Rightarrow> Some n)"

definition reconcile_match_publication :: "fault \<Rightarrow> env \<Rightarrow> string \<Rightarrow> world \<Rightarrow> (degraded + unit) \<times> world" where
  "reconcile_match_publication flt e w wd =
     (if flt \<noteq> NoFault then (Inl (DegradedOf (Some w) ''STORE_UNAVAILABLE'' None None), wd)
      else case match_revision w (w_journal wd) of
        None \<Rightarrow> (Inl (DegradedOf (Some w) ''FIRING_AUTHORITY_UNAVAILABLE'' None None), wd)
      | Some revision \<Rightarrow> complete_match_publication e w revision wd)"

section \<open>The updates keep the schema\<close>

interpretation blocking: outbox_update "blocked_row code at" for code at
  by unfold_locales (simp_all add: blocked_row_def ox_key_def outbox_row_ok_def)

interpretation applying: outbox_update "applied_row at" for at
  by unfold_locales (simp_all add: applied_row_def ox_key_def outbox_row_ok_def)

interpretation applying_match: outbox_update "match_applied_row at" for at
  by unfold_locales (simp_all add: match_applied_row_def ox_key_def outbox_row_ok_def)

interpretation life_applying: lifecycle_update "applied_life status revision at" for status revision at
  by unfold_locales (simp_all add: applied_life_def)

interpretation publishing: arm_update "published_row at" for at
  by unfold_locales (simp_all add: published_row_def arm_columns_def)

lemmas publication_updates_ok [step_inv] =
  blocking.keeps_schema applying.keeps_schema applying_match.keeps_schema life_applying.keeps_schema
  publishing.keeps_schema

lemma write_published_ok [step_inv]: "schema_ok j \<Longrightarrow> schema_ok (write_published w at j)"
  by (simp add: write_published_def step_inv)

lemma write_match_applied_ok [step_inv]: "schema_ok j \<Longrightarrow> schema_ok (write_match_applied w n at j)"
  by (simp add: write_match_applied_def step_inv)

interpretation blocked: safe_transaction schema_ok "blocked_tx w code clock" for w code clock
  by unfold_locales (auto simp: blocked_tx_def step_inv split: Option.bind_splits)

interpretation published: safe_transaction schema_ok "publish_tx w cap clock" for w cap clock
  by unfold_locales
    (auto simp: publish_tx_def Let_def step_inv split: option.splits if_splits Option.bind_splits)

interpretation match_published: safe_transaction schema_ok "match_tx w n sha cap clock" for w n sha cap clock
  by unfold_locales
    (auto simp: match_tx_def step_inv split: option.splits if_splits Option.bind_splits)

end
