(* ===== verification/StoreInspect.thy ===== *)
theory StoreInspect
  imports StorePublish
begin

text \<open>
  The read-only views of the journal (\<open>inspect_signal_state\<close>, \<open>read_committed_occurrences\<close>,
  \<open>source_checkpoint\<close> and the function \<open>pending_signal_targets\<close> of
  \<open>src/src/codex_wake/signal_store.py\<close>).  The dictionary that \<open>inspect_signal_state\<close> returns holds
  nothing but JSON values, so it is one here.
\<close>

section \<open>inspect_signal_state\<close>

fun opt_int_json :: "int option \<Rightarrow> json" where
  "opt_int_json None = JNull"
| "opt_int_json (Some n) = JInt n"

fun outbox_state_text :: "outbox_state \<Rightarrow> string" where
  "outbox_state_text OutPending = ''pending''"
| "outbox_state_text OutApplied = ''applied''"
| "outbox_state_text OutBlocked = ''blocked''"

definition arm_view :: "arm_row \<Rightarrow> json" where
  "arm_view a =
     JObj [(''wake_id'', JStr (ar_wake_id a)), (''arm_id'', JStr (ar_arm_id a)),
           (''state'', JStr (arm_state_text (ar_state a))), (''source'', JStr (ar_source a)),
           (''source_instance'', JStr (ar_source_instance a)), (''expires_at'', opt_json (ar_expires_at a)),
           (''baseline_json'', opt_json (ar_baseline_json a))]"

definition lifecycle_view :: "lifecycle_row \<Rightarrow> json" where
  "lifecycle_view l =
     JObj [(''desired_status'', JStr (lc_desired_status l)), (''desired_revision'', JInt (lc_desired_revision l)),
           (''applied_status'', opt_json (lc_applied_status l)),
           (''applied_revision'', opt_int_json (lc_applied_revision l))]"

definition outbox_view :: "outbox_row \<Rightarrow> json" where
  "outbox_view r =
     JObj [(''revision'', JInt (ox_revision r)), (''operation'', JStr (ox_operation r)),
           (''target_status'', opt_json (ox_target_status r)),
           (''state'', JStr (outbox_state_text (ox_state r))),
           (''blocked_code'', opt_json (ox_blocked_code r))]"

definition pin_view :: "pin_row \<Rightarrow> json" where
  "pin_view p =
     JObj [(''pin_id'', JStr (pn_pin_id p)), (''receipt_id'', opt_json (pn_receipt_id p)),
           (''min_local_sequence'', opt_int_json (pn_min_local_sequence p)), (''reason'', JStr (pn_reason p))]"

definition reservation_view :: "reservation_row \<Rightarrow> (string, json) dict \<Rightarrow> json" where
  "reservation_view r evidence =
     JObj [(''receipt_id'', opt_json (rv_receipt_id r)), (''match_token'', JStr (rv_match_token r)),
           (''matched_at'', JStr (rv_matched_at r)),
           (''verification_state'', jget evidence ''verification_state''),
           (''verification_method'', jget evidence ''verification_method'')]"

text \<open>The attribute names of the file system source, in sorted order.\<close>

definition filesystem_names :: "string list" where
  "filesystem_names =
     sort [''matched'', ''exists'', ''file_kind'', ''fingerprint'', ''baseline_fingerprint'', ''coalesced'',
           ''observation_reason'', ''hint_count'']"

definition observed_view :: "json \<Rightarrow> json" where
  "observed_view attributes =
     (case attributes of
        JObj d \<Rightarrow>
          JObj (map (\<lambda>name. (name, jget d name)) (filter (\<lambda>name. dict_get d name \<noteq> None) filesystem_names))
      | _ \<Rightarrow> JNull)"

text \<open>The evidence of the match, or else what the source's checkpoint says; \<^term>\<open>None\<close>: parsing raised.\<close>

definition filesystem_view ::
  "arm_row \<Rightarrow> (string, json) dict option \<Rightarrow> string option option \<Rightarrow> json option" where
  "filesystem_view a evidence checkpoint =
     (if ar_source a \<noteq> ''filesystem'' then Some JNull
      else do {
        let own = (case evidence of None \<Rightarrow> JNull | Some d \<Rightarrow> if d = [] then JNull else jget d ''attributes'');
        attributes \<leftarrow>
          (if is_jobj own then Some own
           else case checkpoint of
             None \<Rightarrow> Some own
           | Some text \<Rightarrow>
               if sql_true text
               then do { t \<leftarrow> text; parsed \<leftarrow> loads t; Some (if is_jobj parsed then parsed else JNull) }
               else Some own);
        text \<leftarrow> ar_baseline_json a;
        baseline \<leftarrow> loads text;
        Some (JObj [(''baseline'', baseline), (''observed'', observed_view attributes)]) })"

definition authority_mismatch :: "string \<Rightarrow> arm_row \<Rightarrow> string \<Rightarrow> (string, json) dict option \<Rightarrow> json" where
  "authority_mismatch w a uuid decoded =
     (case decoded of
        None \<Rightarrow> JNull
      | Some r \<Rightarrow>
          if jget r ''id'' \<noteq> JStr w \<or> jget r ''arm_id'' \<noteq> JStr (ar_arm_id a) \<or> jget r ''journal_uuid'' \<noteq> JStr uuid
          then JStr ''WAKE_RECORD_AUTHORITY_MISMATCH'' else JNull)"

definition record_view :: "(string, json) dict option \<Rightarrow> json" where
  "record_view decoded =
     (let field = (\<lambda>k. case decoded of None \<Rightarrow> JNull | Some r \<Rightarrow> jget r k) in
      JObj [(''schema_version'', field ''schema_version''), (''record_revision'', field ''record_revision''),
            (''status'', field ''status'')])"

definition signal_state ::
  "string \<Rightarrow> (string, json) dict option \<Rightarrow> journal \<Rightarrow> json outcome option" where
  "signal_state w decoded j =
     (case (arm_of j w, journal_uuid j) of
        (Some a, Some uuid) \<Rightarrow>
          do { evidence \<leftarrow> (case reservation_of j w of
                 None \<Rightarrow> Some None
               | Some r \<Rightarrow> do { v \<leftarrow> loads (rv_evidence_json r); d \<leftarrow> jobj v; Some (Some d) });
               files \<leftarrow> filesystem_view a evidence
                 (map_option ss_checkpoint (source_at j (ar_source a, ar_source_instance a)));
               Some (Ok (JObj
                 [(''wake_id'', JStr w),
                  (''journal'', JObj [(''schema_version'', JInt 2), (''journal_uuid'', JStr uuid)]),
                  (''record'', record_view decoded),
                  (''arm'', arm_view a),
                  (''lifecycle'', (case lifecycle_of j w of None \<Rightarrow> JNull | Some l \<Rightarrow> lifecycle_view l)),
                  (''reservation'', (case (reservation_of j w, evidence) of
                     (Some r, Some d) \<Rightarrow> reservation_view r d | _ \<Rightarrow> JNull)),
                  (''outbox'', JArr (map outbox_view (take 16
                     (sort_key ox_revision (filter (\<lambda>r. ox_wake_id r = w) (j_outbox j)))))),
                  (''pins'', JArr (map pin_view (take 32
                     (sort_key pn_pin_id (filter (\<lambda>p. pn_wake_id p = w) (live_pins j)))))),
                  (''source_evidence'', files),
                  (''degradation'', authority_mismatch w a uuid decoded)])) }
      | _ \<Rightarrow> Some (degraded_at (Some w) ''ARM_STATE_UNAVAILABLE'' None))"

text \<open>The outer \<^term>\<open>None\<close> is the \<open>TypeError\<close> that decoding the record may raise.\<close>

definition inspect_signal_state ::
  "fault \<Rightarrow> string \<Rightarrow> json option \<Rightarrow> journal \<Rightarrow> json outcome option" where
  "inspect_signal_state flt w record j =
     do { decoded \<leftarrow> (case record of None \<Rightarrow> Some None | Some v \<Rightarrow> decode_signal_record v);
          Some (if record \<noteq> None \<and> decoded = None
                then degraded_at (Some w) ''WAKE_RECORD_INVALID'' None
                else run_read flt (degraded_at (Some w) ''STORE_UNAVAILABLE'' None) (signal_state w decoded) j) }"

section \<open>pending_signal_targets\<close>

definition still_pending :: "journal \<Rightarrow> arm_row \<Rightarrow> bool" where
  "still_pending j a =
     (ar_state a \<noteq> Tombstoned
      \<and> (case lifecycle_of j (ar_wake_id a) of
           None \<Rightarrow> True | Some l \<Rightarrow> lc_desired_status l \<in> {''pending'', ''firing''}))"

text \<open>A missing database has no targets; \<^term>\<open>None\<close> is the \<open>SignalStoreError\<close>.\<close>

definition pending_signal_targets :: "fault \<Rightarrow> journal option \<Rightarrow> (string \<times> json \<times> string) list option" where
  "pending_signal_targets flt database =
     (case database of
        None \<Rightarrow> Some []
      | Some j \<Rightarrow>
          if flt \<noteq> NoFault then None
          else those (map (\<lambda>a. do { resume \<leftarrow> loads (ar_resume_json a);
                                     target \<leftarrow> jindex resume ''target'';
                                     Some (ar_wake_id a, target, arm_state_text (ar_state a)) })
                 (filter (still_pending j) (j_arms j))))"

section \<open>source_checkpoint\<close>

definition source_checkpoint ::
  "fault \<Rightarrow> string \<Rightarrow> string \<Rightarrow> journal \<Rightarrow> source_commit option outcome" where
  "source_checkpoint flt src inst j =
     run_read flt (degraded_at None ''STORE_UNAVAILABLE'' None)
       (\<lambda>j. case source_at j (src, inst) of
          None \<Rightarrow> Some (Ok None)
        | Some s \<Rightarrow>
            (case (ss_checkpoint s, ss_checkpoint_order s, ss_observed_through s) of
               (None, None, None) \<Rightarrow> Some (Ok None)
             | (Some checkpoint, Some order, Some through) \<Rightarrow>
                 do { at \<leftarrow> parse_time through;
                      Some (Ok (Some \<lparr>cm_source = src, cm_source_instance = inst, cm_checkpoint = checkpoint,
                        cm_checkpoint_order = order, cm_observed_through = at\<rparr>)) }
             | _ \<Rightarrow> Some (degraded_at None ''SOURCE_CHECKPOINT_INVALID'' None))) j"

section \<open>read_committed_occurrences\<close>

text \<open>The ids may be any values; the file is checked by its owner, mode and path before it is opened.\<close>

definition occurrence_id_ok :: "json \<Rightarrow> bool" where
  "occurrence_id_ok v = (case v of JStr s \<Rightarrow> s \<noteq> [] \<and> utf8_len s \<le> 256 | _ \<Rightarrow> False)"

text \<open>A stored receipt is believed only if its text, its fingerprint and its columns agree.\<close>

definition proven_receipt :: "source_contract \<Rightarrow> identity \<Rightarrow> receipt_row \<Rightarrow> observation option" where
  "proven_receipt contract ident r =
     do { ob \<leftarrow> observation_from_json (rc_observation_json r);
          if validate_observation ob contract \<noteq> None
             \<or> fingerprint (rc_observation_json r) \<noteq> rc_content_fingerprint r
             \<or> canonical_json (observation_payload ob) \<noteq> rc_observation_json r
             \<or> identity_of ob \<noteq> ident
          then None else Some ob }"

fun prove_receipts ::
  "source_contract \<Rightarrow> (string \<Rightarrow> identity) \<Rightarrow> receipt_row list \<Rightarrow> (string, observation) dict
    \<Rightarrow> (string, observation) dict option" where
  "prove_receipts contract ident [] proven = Some proven"
| "prove_receipts contract ident (r # rs) proven =
     do { ob \<leftarrow> proven_receipt contract (ident (rc_occurrence_value r)) r;
          prove_receipts contract ident rs (dict_set (rc_occurrence_value r) ob proven) }"

definition committed_occurrences ::
  "string \<Rightarrow> string \<Rightarrow> string \<Rightarrow> json list \<Rightarrow> journal \<Rightarrow> (string \<times> (string, observation) dict) option" where
  "committed_occurrences src inst namespace ids j =
     (if 100 < length ids \<or> \<not> list_all occurrence_id_ok ids then None
      else do { uuid \<leftarrow> journal_uuid j;
                if uuid = [] then None
                else do {
                  row \<leftarrow> instance_at j (src, inst);
                  contract \<leftarrow> contract_from_json (in_contract_json row);
                  values \<leftarrow> prove_receipts contract (\<lambda>v. (src, inst, namespace, v))
                    (filter (\<lambda>r. rc_source r = src \<and> rc_source_instance r = inst
                               \<and> rc_occurrence_namespace r = namespace
                               \<and> JStr (rc_occurrence_value r) \<in> set ids) (j_receipts j)) [];
                  Some (uuid, values) } })"

definition read_committed_occurrences ::
  "fault \<Rightarrow> bool \<Rightarrow> string \<Rightarrow> string \<Rightarrow> string \<Rightarrow> json list \<Rightarrow> journal
    \<Rightarrow> (string \<times> (string, observation) dict) outcome" where
  "read_committed_occurrences flt file_trusted src inst namespace ids j =
     (if \<not> file_trusted then degraded_at None ''COMMITTED_PROOF_UNAVAILABLE'' None
      else run_read flt (degraded_at None ''COMMITTED_PROOF_UNAVAILABLE'' None)
             (\<lambda>j. map_option Ok (committed_occurrences src inst namespace ids j)) j)"

end
