(* ===== verification/StoreArm.thy ===== *)
theory StoreArm
  imports StorePublish
begin

text \<open>
  Arming a signal (\<open>SQLiteSignalModule.arm\<close> of \<open>src/src/codex_wake/signal_store.py\<close>): a first transaction
  reserves the idempotency key and leases the source, the adapter then establishes an anchor outside
  any transaction, and a second transaction, fenced by the lease, records the prepared registration
  together with its outbox row; the publication follows.  Failing in between releases the lease.
\<close>

section \<open>The first transaction\<close>

record arm_request =
  aq_wake_id :: string
  aq_spec :: signal_request
  aq_context :: arm_context
  aq_contract :: source_contract
  aq_spec_json :: string
  aq_resume_json :: string
  aq_contract_json :: string

definition aq_key :: "arm_request \<Rightarrow> string \<times> string" where
  "aq_key q = (ct_source (aq_contract q), ct_source_instance (aq_contract q))"

text \<open>Answer at once; publish the registration that is already there; or go on with the lease.\<close>

datatype reserved =
    ReservedAnswer "armed_signal outcome"
  | ReservedPublish string
  | ReservedLease string string int

text \<open>\<open>lease_owner IS NOT NULL\<close> and its expiry is later than \<open>now\<close>: the expiry.\<close>

definition lease_busy :: "source_row \<Rightarrow> datetime \<Rightarrow> datetime option option" where
  "lease_busy s now =
     (case ss_lease_owner s of
        None \<Rightarrow> Some None
      | Some _ \<Rightarrow>
          do { text \<leftarrow> ss_lease_expires_at s; until \<leftarrow> parse_time text;
               Some (if until > now then Some until else None) })"

definition leased_row :: "string \<Rightarrow> int \<Rightarrow> string \<Rightarrow> source_row \<Rightarrow> source_row" where
  "leased_row owner generation until s =
     s\<lparr>ss_lease_owner := Some owner, ss_lease_generation := generation, ss_lease_expires_at := Some until\<rparr>"

definition preparing_row :: "arm_request \<Rightarrow> string \<Rightarrow> string \<Rightarrow> string \<Rightarrow> string \<Rightarrow> int \<Rightarrow> arm_row" where
  "preparing_row q w arm_id owner until version =
     \<lparr>ar_arm_id = arm_id, ar_wake_id = w,
      ar_idempotency_key = ac_idempotency_key (aq_context q),
      ar_intent_fingerprint = ac_intent_fingerprint (aq_context q),
      ar_state = Preparing, ar_contract_version = version,
      ar_source = rq_source (aq_spec q), ar_source_instance = rq_source_instance (aq_spec q),
      ar_kind = rq_kind (aq_spec q), ar_subject = rq_subject (aq_spec q),
      ar_spec_json = aq_spec_json q, ar_resume_json = aq_resume_json q,
      ar_registered_at = format_time (ac_registered_at (aq_context q)),
      ar_expires_at = map_option format_time (ac_expires_at (aq_context q)),
      ar_local_after_sequence = None, ar_source_anchor = None, ar_baseline_json = None, ar_recovery = None,
      ar_preparer_token = Some owner, ar_preparation_expires_at = Some until,
      ar_prepared_at = None, ar_published_at = None\<rparr>"

definition prepare_again :: "string \<Rightarrow> string \<Rightarrow> arm_row \<Rightarrow> arm_row" where
  "prepare_again owner until r =
     r\<lparr>ar_preparer_token := Some owner, ar_preparation_expires_at := Some until\<rparr>"

definition lease_source ::
  "arm_request \<Rightarrow> bool \<Rightarrow> string \<Rightarrow> string \<Rightarrow> string \<Rightarrow> datetime \<Rightarrow> datetime \<Rightarrow> journal \<Rightarrow> reserved tx" where
  "lease_source q fresh w arm_id owner lease_now lease_expires j =
     (let k = aq_key q; fp = fingerprint (aq_contract_json q); until = format_time lease_expires in
      if (case instance_at j k of None \<Rightarrow> False | Some r \<Rightarrow> in_contract_fingerprint r \<noteq> fp)
      then Some (Rollback (ReservedAnswer (invalid_as (Some w) ''SOURCE_CONTRACT_CONFLICT''
                   ''source instance contract conflicts with durable state'')))
      else do {
        j1 \<leftarrow> insert_instance \<lparr>in_source = fst k, in_source_instance = snd k,
               in_contract_json = aq_contract_json q, in_contract_fingerprint = fp,
               in_created_at = format_time (ac_registered_at (aq_context q))\<rparr> j;
        j2 \<leftarrow> insert_source k j1;
        s \<leftarrow> source_at j2 k;
        busy \<leftarrow> lease_busy s lease_now;
        case busy of
          Some until' \<Rightarrow>
            Some (Rollback (ReservedAnswer (degraded_at (Some w) ''SOURCE_BUSY'' (Some until'))))
        | None \<Rightarrow>
            do { let generation = ss_lease_generation s + 1;
                 let j3 = update_source (\<lambda>r. ss_key r = k) (leased_row owner generation until) j2;
                 version \<leftarrow> scalar_num (rq_contract_version (aq_spec q));
                 j4 \<leftarrow> (if fresh then insert_arm (preparing_row q w arm_id owner until version) j3
                       else Some (update_arm (\<lambda>r. ar_arm_id r = arm_id) (prepare_again owner until) j3));
                 Some (Commit j4 (ReservedLease w arm_id generation)) } })"

definition reserve_tx ::
  "arm_request \<Rightarrow> string \<Rightarrow> datetime \<Rightarrow> datetime \<Rightarrow> journal \<Rightarrow> reserved tx" where
  "reserve_tx q owner lease_now lease_expires j =
     (case arm_keyed j (ac_idempotency_key (aq_context q)) of
        None \<Rightarrow>
          lease_source q True (aq_wake_id q) (''arm_'' @ aq_wake_id q) owner lease_now lease_expires j
      | Some existing \<Rightarrow>
          let w = ar_wake_id existing in
          if ar_intent_fingerprint existing \<noteq> ac_intent_fingerprint (aq_context q)
          then Some (Rollback (ReservedAnswer (invalid_as (Some w) ''IDEMPOTENCY_CONFLICT''
                       ''idempotency key already used'')))
          else if ar_state existing = Prepared \<or> ar_state existing = Published
          then Some (Rollback (ReservedPublish w))
          else if ar_state existing = Tombstoned
          then Some (Rollback (ReservedAnswer (invalid_as (Some w) ''REGISTRATION_RETIRED''
                       ''registration is no longer active'')))
          else do {
            until \<leftarrow> (if sql_true (ar_preparation_expires_at existing)
                     then map_option Some (Option.bind (ar_preparation_expires_at existing) parse_time)
                     else Some None);
            if sql_true (ar_preparer_token existing) \<and> (case until of None \<Rightarrow> False | Some e \<Rightarrow> e > lease_now)
            then Some (Rollback (ReservedAnswer (degraded_at (Some w) ''REGISTRATION_IN_PROGRESS'' until)))
            else (case lease_source q False w (ar_arm_id existing) owner lease_now lease_expires j of
                    None \<Rightarrow> Some (Rollback (ReservedAnswer (degraded_at (Some w) ''STORE_UNAVAILABLE'' None)))
                  | Some ending \<Rightarrow> Some ending) })"

section \<open>Giving the lease back\<close>

definition release_preparation_tx ::
  "string \<Rightarrow> string \<times> string \<Rightarrow> string \<Rightarrow> int \<Rightarrow> journal \<Rightarrow> bool tx" where
  "release_preparation_tx arm_id k owner generation j =
     Some (Commit
       (update_source
          (\<lambda>r. ss_key r = k \<and> ss_lease_owner r = Some owner \<and> ss_lease_generation r = generation)
          (\<lambda>r. r\<lparr>ss_lease_owner := None, ss_lease_expires_at := None\<rparr>)
          (update_arm (\<lambda>r. ar_arm_id r = arm_id \<and> ar_preparer_token r = Some owner)
             (\<lambda>r. r\<lparr>ar_preparer_token := None, ar_preparation_expires_at := None\<rparr>) j)) True)"

definition release_preparation ::
  "fault \<Rightarrow> string \<Rightarrow> string \<times> string \<Rightarrow> string \<Rightarrow> int \<Rightarrow> journal \<Rightarrow> bool \<times> journal" where
  "release_preparation flt arm_id k owner generation j =
     run_tx flt False (release_preparation_tx arm_id k owner generation) j"

definition best_effort_release_preparation ::
  "fault \<Rightarrow> string \<Rightarrow> string \<times> string \<Rightarrow> string \<Rightarrow> int \<Rightarrow> journal \<Rightarrow> journal" where
  "best_effort_release_preparation flt arm_id k owner generation j =
     snd (release_preparation flt arm_id k owner generation j)"

section \<open>The second transaction\<close>

definition effective_anchor :: "source_anchor \<Rightarrow> source_row \<Rightarrow> source_anchor" where
  "effective_anchor anchor s =
     anchor\<lparr>an_local_after_sequence := max (an_local_after_sequence anchor) (ss_last_local_sequence s)\<rparr>"

definition prepared_arm :: "arm_request \<Rightarrow> string \<Rightarrow> string \<Rightarrow> source_anchor \<Rightarrow> armed_signal" where
  "prepared_arm q w arm_id anchor =
     \<lparr>am_wake_id = w, am_arm_id = arm_id, am_spec = aq_spec q, am_anchor = anchor,
      am_registered_at = ac_registered_at (aq_context q), am_expires_at = ac_expires_at (aq_context q),
      am_publication = ''prepared''\<rparr>"

definition prepared_row :: "source_anchor \<Rightarrow> string \<Rightarrow> arm_row \<Rightarrow> arm_row" where
  "prepared_row anchor at r =
     r\<lparr>ar_state := Prepared, ar_local_after_sequence := Some (an_local_after_sequence anchor),
       ar_source_anchor := Some (an_source_anchor anchor),
       ar_baseline_json := Some (canonical_json (scalars_json (an_baseline anchor))),
       ar_recovery := Some (an_recovery anchor), ar_prepared_at := Some at, ar_published_at := None,
       ar_preparer_token := None, ar_preparation_expires_at := None\<rparr>"

definition anchor_pin :: "string \<Rightarrow> int \<Rightarrow> string \<Rightarrow> pin_row" where
  "anchor_pin w after at =
     \<lparr>pn_pin_id = ''anchor:'' @ w, pn_wake_id = w, pn_receipt_id = None,
      pn_min_local_sequence = Some (after + 1), pn_reason = ''active_anchor'',
      pn_created_at = at, pn_released_at = None\<rparr>"

definition pending_life :: "string \<Rightarrow> string \<Rightarrow> lifecycle_row" where
  "pending_life w at =
     \<lparr>lc_wake_id = w, lc_desired_status = ''pending'', lc_desired_revision = 1,
      lc_applied_status = None, lc_applied_revision = None, lc_updated_at = at\<rparr>"

definition put_row :: "string \<Rightarrow> int \<Rightarrow> string \<Rightarrow> string option \<Rightarrow> string \<Rightarrow> string \<Rightarrow> string \<Rightarrow> outbox_row" where
  "put_row w revision target src text sha at =
     \<lparr>ox_wake_id = w, ox_revision = revision, ox_operation = ''put'', ox_target_status = Some target,
      ox_source_status = src, ox_payload_json = Some text, ox_payload_sha256 = Some sha,
      ox_state = OutPending, ox_attempt_count = 0, ox_last_attempt_at = None, ox_created_at = at,
      ox_applied_at = None, ox_blocked_code = None\<rparr>"

definition prepare_tx ::
  "arm_request \<Rightarrow> (string \<Rightarrow> string) \<Rightarrow> string \<Rightarrow> string \<Rightarrow> string \<Rightarrow> int \<Rightarrow> source_anchor
    \<Rightarrow> journal \<Rightarrow> armed_signal outcome option tx" where
  "prepare_tx q resolve w arm_id owner generation anchor j =
     (let k = aq_key q; lost = Some (Rollback (Some (degraded_at (Some w) ''SOURCE_LEASE_LOST'' None))) in
      case (source_at j k, arm_with_id j arm_id) of
        (Some s, Some prepared) \<Rightarrow>
          if ss_lease_owner s \<noteq> Some owner \<or> ss_lease_generation s \<noteq> generation
             \<or> ar_preparer_token prepared \<noteq> Some owner then lost
          else do {
            let effective = effective_anchor anchor s;
            after \<leftarrow> sql_int (an_local_after_sequence effective);
            let at = format_time (ac_registered_at (aq_context q));
            uuid \<leftarrow> journal_uuid j;
            let (text, sha) = build_signal_record resolve (prepared_arm q w arm_id effective)
                  (ac_resume (aq_context q)) uuid 1 (ac_max_attempts (aq_context q));
            let j1 = update_arm (\<lambda>r. ar_arm_id r = arm_id) (prepared_row effective at) j;
            j2 \<leftarrow> insert_progress \<lparr>pg_wake_id = w, pg_scanned_through_sequence = after,
                   pg_revision = 0, pg_updated_at = at\<rparr> j1;
            pin_after \<leftarrow> sql_int (after + 1);
            j3 \<leftarrow> insert_pin (anchor_pin w after at) j2;
            j4 \<leftarrow> insert_lifecycle (pending_life w at) j3;
            j5 \<leftarrow> insert_outbox True (put_row w 1 ''pending'' None text sha at) j4;
            Some (Commit
              (update_source
                 (\<lambda>r. ss_key r = k \<and> ss_lease_owner r = Some owner \<and> ss_lease_generation r = generation)
                 (\<lambda>r. r\<lparr>ss_lease_owner := None, ss_lease_expires_at := None\<rparr>) j5) None) }
      | _ \<Rightarrow> lost)"

section \<open>arm\<close>

text \<open>
  The wake id that the answer to a lost commit names: the one reserved for the idempotency key.
\<close>

definition reserved_wake :: "arm_request \<Rightarrow> fault \<Rightarrow> journal \<Rightarrow> string" where
  "reserved_wake q flt j =
     (if flt = FaultAfter
      then (case arm_keyed j (ac_idempotency_key (aq_context q)) of
              None \<Rightarrow> aq_wake_id q | Some r \<Rightarrow> ar_wake_id r)
      else aq_wake_id q)"

text \<open>What follows the adapter's answer.\<close>

definition arm_anchored ::
  "env \<Rightarrow> arm_request \<Rightarrow> string \<Rightarrow> string \<Rightarrow> int \<Rightarrow> source_anchor outcome option \<Rightarrow> world
    \<Rightarrow> armed_signal outcome \<times> world" where
  "arm_anchored e q w arm_id generation answer wd =
     (let release = (\<lambda>result. (result,
            wd\<lparr>w_journal := best_effort_release_preparation (en_fault e 1) arm_id (aq_key q) (en_owner e)
                             generation (w_journal wd)\<rparr>)) in
      case answer of
        None \<Rightarrow> release (degraded_at (Some w) ''SOURCE_UNAVAILABLE'' None)
      | Some (Degraded d) \<Rightarrow>
          release (Degraded (DegradedOf (Some w) (dg_code d) (dg_retry_at d) (dg_evidence_ref d)))
      | Some (Invalid i) \<Rightarrow> release (Invalid i)
      | Some (Ok anchor) \<Rightarrow>
          (case validate_occurrence_anchor (aq_contract q) (aq_spec q) anchor of
             Some i \<Rightarrow> release (Invalid i)
           | None \<Rightarrow>
               (case run_tx (en_fault e 1) (Some (degraded_at (Some w) ''STORE_UNAVAILABLE'' None))
                       (prepare_tx q (en_resolve e) w arm_id (en_owner e) generation anchor) (w_journal wd) of
                  (Some failed, j) \<Rightarrow> (failed, wd\<lparr>w_journal := j\<rparr>)
                | (None, j) \<Rightarrow> complete_registration_publication e w (wd\<lparr>w_journal := j\<rparr>))))"

definition arm_leased :: "env \<Rightarrow> arm_request \<Rightarrow> datetime \<Rightarrow> datetime \<Rightarrow> world \<Rightarrow> armed_signal outcome \<times> world" where
  "arm_leased e q lease_now lease_expires wd =
     (case run_tx (en_fault e 0)
             (ReservedAnswer (degraded_at (Some (reserved_wake q (en_fault e 0) (w_journal wd)))
                ''STORE_UNAVAILABLE'' None))
             (reserve_tx q (en_owner e) lease_now lease_expires) (w_journal wd) of
        (ReservedAnswer answer, j) \<Rightarrow> (answer, wd\<lparr>w_journal := j\<rparr>)
      | (ReservedPublish w, j) \<Rightarrow> complete_registration_publication e w (wd\<lparr>w_journal := j\<rparr>)
      | (ReservedLease w arm_id generation, j) \<Rightarrow>
          arm_anchored e q w arm_id generation
            (ad_establish_anchor (ac_adapter (aq_context q)) (aq_spec q) (ac_registered_at (aq_context q)))
            (wd\<lparr>w_journal := j\<rparr>))"

definition arm :: "env \<Rightarrow> string \<Rightarrow> signal_request \<Rightarrow> arm_context \<Rightarrow> world \<Rightarrow> armed_signal outcome \<times> world" where
  "arm e w spec context wd =
     (case ad_contract (ac_adapter context) of
        None \<Rightarrow> (degraded_at (Some w) ''SOURCE_UNAVAILABLE'' None, wd)
      | Some contract \<Rightarrow>
      case validate_signal spec contract of
        Some i \<Rightarrow> (Invalid i, wd)
      | None \<Rightarrow>
      case contract_payload contract of
        None \<Rightarrow> (invalid_as (Some w) ''INVALID_SIGNAL'' ''signal specification is invalid'', wd)
      | Some payload \<Rightarrow>
      case en_clock e 0 of
        None \<Rightarrow> (degraded_at (Some w) ''STORE_UNAVAILABLE'' None, wd)
      | Some lease_now \<Rightarrow>
      case add_seconds lease_now (en_lease_seconds e) of
        None \<Rightarrow> (degraded_at (Some w) ''STORE_UNAVAILABLE'' None, wd)
      | Some lease_expires \<Rightarrow>
          arm_leased e
            \<lparr>aq_wake_id = w, aq_spec = spec, aq_context = context, aq_contract = contract,
             aq_spec_json = canonical_json (spec_payload spec),
             aq_resume_json = canonical_json (resume_payload (ac_resume context)),
             aq_contract_json = canonical_json payload\<rparr>
            lease_now lease_expires wd)"

section \<open>The transactions keep the schema\<close>

interpretation preparing_again: arm_update "prepare_again owner until" for owner until
  by unfold_locales (simp_all add: prepare_again_def arm_columns_def)

interpretation preparing: arm_update "prepared_row anchor at" for anchor at
  by unfold_locales (simp_all add: prepared_row_def arm_columns_def)

interpretation unpreparing: arm_update "\<lambda>r. r\<lparr>ar_preparer_token := None, ar_preparation_expires_at := None\<rparr>"
  by unfold_locales (simp_all add: arm_columns_def)

interpretation unleasing: source_update "\<lambda>r. r\<lparr>ss_lease_owner := None, ss_lease_expires_at := None\<rparr>"
  by unfold_locales (simp_all add: ss_key_def)

lemma leasing: "0 \<le> generation \<Longrightarrow> source_update (leased_row owner generation until)"
  by unfold_locales (simp_all add: leased_row_def ss_key_def)

lemmas arm_updates_ok [step_inv] =
  preparing_again.keeps_schema preparing.keeps_schema unpreparing.keeps_schema unleasing.keeps_schema

lemma source_at_SomeD: "source_at j k = Some s \<Longrightarrow> s \<in> set (j_sources j) \<and> ss_key s = k"
  by (auto simp: source_at_def dest: find_SomeD)

lemma generation_nonneg: "schema_ok j \<Longrightarrow> source_at j k = Some s \<Longrightarrow> 0 \<le> ss_lease_generation s"
  by (auto simp: schema_ok_def sources_ok_def dest!: source_at_SomeD)

text \<open>The journal once the source is leased, before the arm's row is written.\<close>

definition leased_journal :: "arm_request \<Rightarrow> string \<Rightarrow> int \<Rightarrow> datetime \<Rightarrow> journal \<Rightarrow> journal" where
  "leased_journal q owner generation until =
     update_source (\<lambda>r. ss_key r = aq_key q) (leased_row owner generation (format_time until))"

definition request_instance :: "arm_request \<Rightarrow> instance_row" where
  "request_instance q =
     \<lparr>in_source = fst (aq_key q), in_source_instance = snd (aq_key q),
      in_contract_json = aq_contract_json q, in_contract_fingerprint = fingerprint (aq_contract_json q),
      in_created_at = format_time (ac_registered_at (aq_context q))\<rparr>"

lemma lease_source_commit:
  assumes "lease_source q fresh w arm_id owner lease_now lease_expires j = Some (Commit j' r)"
  shows "\<exists>s j1 j2 version.
    insert_instance (request_instance q) j = Some j1
    \<and> insert_source (aq_key q) j1 = Some j2
    \<and> source_at j2 (aq_key q) = Some s
    \<and> lease_busy s lease_now = Some None
    \<and> scalar_num (rq_contract_version (aq_spec q)) = Some version
    \<and> (if fresh
       then insert_arm (preparing_row q w arm_id owner (format_time lease_expires) version)
              (leased_journal q owner (ss_lease_generation s + 1) lease_expires j2)
       else Some (update_arm (\<lambda>r. ar_arm_id r = arm_id) (prepare_again owner (format_time lease_expires))
              (leased_journal q owner (ss_lease_generation s + 1) lease_expires j2))) = Some j'
    \<and> r = ReservedLease w arm_id (ss_lease_generation s + 1)
    \<and> (case instance_at j (aq_key q) of
         None \<Rightarrow> True | Some i \<Rightarrow> in_contract_fingerprint i = fingerprint (aq_contract_json q))"
  using assms
  by (auto simp: lease_source_def Let_def leased_journal_def request_instance_def
      split: Option.bind_splits if_splits option.splits)

lemma leased_journal_ok: "schema_ok j \<Longrightarrow> 0 \<le> generation \<Longrightarrow> schema_ok (leased_journal q owner generation until j)"
  unfolding leased_journal_def by (rule source_update.keeps_schema [OF leasing])

lemma lease_source_ok:
  assumes "lease_source q fresh w arm_id owner lease_now lease_expires j = Some (Commit j' r)" and "schema_ok j"
  shows "schema_ok j'"
proof -
  obtain s j1 j2 version where
    steps: "insert_instance (request_instance q) j = Some j1" "insert_source (aq_key q) j1 = Some j2"
      "source_at j2 (aq_key q) = Some s"
    and final: "(if fresh
       then insert_arm (preparing_row q w arm_id owner (format_time lease_expires) version)
              (leased_journal q owner (ss_lease_generation s + 1) lease_expires j2)
       else Some (update_arm (\<lambda>r. ar_arm_id r = arm_id) (prepare_again owner (format_time lease_expires))
              (leased_journal q owner (ss_lease_generation s + 1) lease_expires j2))) = Some j'"
    using lease_source_commit [OF assms(1)] by blast
  have j2: "schema_ok j2" using steps assms(2) by (blast intro: step_inv)
  then have "schema_ok (leased_journal q owner (ss_lease_generation s + 1) lease_expires j2)"
    using generation_nonneg [OF j2 steps(3)] by (intro leased_journal_ok) simp_all
  then show ?thesis using final by (auto split: if_splits intro: step_inv)
qed

interpretation reserved: safe_transaction schema_ok "reserve_tx q owner lease_now lease_expires"
  for q owner lease_now lease_expires
  by unfold_locales
    (auto simp: reserve_tx_def Let_def split: option.splits if_splits Option.bind_splits elim: lease_source_ok)

interpretation release: safe_transaction schema_ok "release_preparation_tx arm_id k owner generation"
  for arm_id k owner generation
  by unfold_locales (auto simp: release_preparation_tx_def step_inv)

lemma prepare_tx_commit:
  assumes "prepare_tx q resolve w arm_id owner generation anchor j = Some (Commit j' r)"
  shows "\<exists>s prepared uuid payload sha j2 j3 j4 j5.
    let effective = effective_anchor anchor s; at = format_time (ac_registered_at (aq_context q)) in
    source_at j (aq_key q) = Some s \<and> arm_with_id j arm_id = Some prepared
    \<and> ss_lease_owner s = Some owner \<and> ss_lease_generation s = generation
    \<and> ar_preparer_token prepared = Some owner
    \<and> journal_uuid j = Some uuid
    \<and> build_signal_record resolve (prepared_arm q w arm_id effective) (ac_resume (aq_context q)) uuid 1
        (ac_max_attempts (aq_context q)) = (payload, sha)
    \<and> insert_progress \<lparr>pg_wake_id = w, pg_scanned_through_sequence = an_local_after_sequence effective,
        pg_revision = 0, pg_updated_at = at\<rparr>
        (update_arm (\<lambda>r. ar_arm_id r = arm_id) (prepared_row effective at) j) = Some j2
    \<and> insert_pin (anchor_pin w (an_local_after_sequence effective) at) j2 = Some j3
    \<and> insert_lifecycle (pending_life w at) j3 = Some j4
    \<and> insert_outbox True (put_row w 1 ''pending'' None payload sha at) j4 = Some j5
    \<and> j' = update_source
        (\<lambda>r. ss_key r = aq_key q \<and> ss_lease_owner r = Some owner \<and> ss_lease_generation r = generation)
        (\<lambda>r. r\<lparr>ss_lease_owner := None, ss_lease_expires_at := None\<rparr>) j5
    \<and> r = None"
  using assms
  by (auto simp: prepare_tx_def Let_def sql_int_def split: option.splits if_splits Option.bind_splits prod.splits)

lemma prepare_tx_ok:
  assumes "prepare_tx q resolve w arm_id owner generation anchor j = Some (Commit j' r)" and "schema_ok j"
  shows "schema_ok j'"
proof -
  obtain s prepared uuid payload sha j2 j3 j4 j5 where
    steps: "insert_progress \<lparr>pg_wake_id = w,
          pg_scanned_through_sequence = an_local_after_sequence (effective_anchor anchor s),
          pg_revision = 0, pg_updated_at = format_time (ac_registered_at (aq_context q))\<rparr>
          (update_arm (\<lambda>r. ar_arm_id r = arm_id)
            (prepared_row (effective_anchor anchor s) (format_time (ac_registered_at (aq_context q)))) j) = Some j2"
      "insert_pin (anchor_pin w (an_local_after_sequence (effective_anchor anchor s))
          (format_time (ac_registered_at (aq_context q)))) j2 = Some j3"
      "insert_lifecycle (pending_life w (format_time (ac_registered_at (aq_context q)))) j3 = Some j4"
      "insert_outbox True
          (put_row w 1 ''pending'' None payload sha (format_time (ac_registered_at (aq_context q)))) j4 = Some j5"
    and j': "j' = update_source
        (\<lambda>r. ss_key r = aq_key q \<and> ss_lease_owner r = Some owner \<and> ss_lease_generation r = generation)
        (\<lambda>r. r\<lparr>ss_lease_owner := None, ss_lease_expires_at := None\<rparr>) j5"
    using prepare_tx_commit [OF assms(1)] unfolding Let_def by blast
  have "schema_ok j2" by (rule insert_progress_ok [OF steps(1)]) (rule preparing.keeps_schema [OF assms(2)])
  then have "schema_ok j5" using steps insert_pin_ok insert_lifecycle_ok insert_outbox_ok by metis
  then show ?thesis unfolding j' by (rule unleasing.keeps_schema)
qed

interpretation prepared: safe_transaction schema_ok "prepare_tx q resolve w arm_id owner generation anchor"
  for q resolve w arm_id owner generation anchor
  by unfold_locales (rule prepare_tx_ok)

end
