(* ===== verification/Samples.thy ===== *)
theory Samples
  imports StoreArm
begin

text \<open>
  One small journal: a source instance with its contract and one published registration on it, whose
  record is in the outbox, with no receipts yet.  The witnesses of the properties start from it; the theory
  \<open>SampleHistory\<close> shows that it is what arming leaves of a new journal.
\<close>

definition sample_contract :: source_contract where
  "sample_contract =
     \<lparr>ct_source = ''fs'', ct_source_instance = ''a'', ct_kinds = [''changed''], ct_subjects = [''s''],
      ct_allowed_attributes = [], ct_max_clauses = 8, ct_max_in_values = 8, ct_max_attribute_bytes = 1024,
      ct_max_evidence_ref_bytes = 256, ct_occurrence_order_attribute = None\<rparr>"

definition sample_contract_json :: string where
  "sample_contract_json =
     (case contract_payload sample_contract of None \<Rightarrow> [] | Some v \<Rightarrow> canonical_json v)"

definition sample_spec :: signal_request where
  "sample_spec =
     \<lparr>rq_contract_version = SInt 1, rq_source = ''fs'', rq_source_instance = ''a'',
      rq_semantics = ''occurrence'', rq_kind = ''changed'', rq_subject = ''s'', rq_condition = ''occurs'',
      rq_where = [], rq_verification = ''required''\<rparr>"

definition sample_resume :: resume where
  "sample_resume = \<lparr>rs_prompt = ''go'', rs_cwd = ''/w'', rs_target = []\<rparr>"

definition sample_anchor :: source_anchor where
  "sample_anchor =
     \<lparr>an_local_after_sequence = 0, an_source_anchor = [], an_baseline = [], an_recovery = ''local_journal''\<rparr>"

definition sample_armed :: armed_signal where
  "sample_armed =
     \<lparr>am_wake_id = ''w'', am_arm_id = ''arm_w'', am_spec = sample_spec, am_anchor = sample_anchor,
      am_registered_at = datetime_of 0, am_expires_at = None, am_publication = ''published''\<rparr>"

definition sample_observation :: observation where
  "sample_observation =
     \<lparr>ob_source = ''fs'', ob_source_instance = ''a'', ob_kind = ''changed'', ob_subject = ''s'',
      ob_occurrence_namespace = ''n'', ob_occurrence_value = ''1'', ob_occurred_at = datetime_of 1,
      ob_observed_at = datetime_of 1, ob_attributes = [],
      ob_verification = \<lparr>vf_state = ''verified'', vf_method = ''stat''\<rparr>, ob_evidence_ref = None\<rparr>"

definition sample_commit :: source_commit where
  "sample_commit =
     \<lparr>cm_source = ''fs'', cm_source_instance = ''a'', cm_checkpoint = ''c'', cm_checkpoint_order = 1,
      cm_observed_through = datetime_of 1\<rparr>"

definition sample_limits :: evaluation_limits where
  "sample_limits = \<lparr>lm_max_candidates = 1, lm_max_attribute_bytes = 100, lm_max_evidence_ref_bytes = 100\<rparr>"

definition sample_env :: env where
  "sample_env =
     \<lparr>en_lease_seconds = 30, en_owner = ''o'', en_resolve = (\<lambda>s. s), en_clock = (\<lambda>_. Some (datetime_of 2)),
      en_fault = (\<lambda>_. NoFault),
      en_publisher = Some \<lparr>pe_caps = (\<lambda>_. None), pe_io = IoFine, pe_read_ok = (\<lambda>_. True), pe_unlink_ok = True\<rparr>\<rparr>"

text \<open>Everything happens at one time.\<close>

definition sample_time :: string where
  "sample_time = format_time (datetime_of 0)"

definition sample_adapter :: source_adapter where
  "sample_adapter = \<lparr>ad_contract = Some sample_contract, ad_establish_anchor = (\<lambda>_ _. Some (Ok sample_anchor))\<rparr>"

definition sample_context :: arm_context where
  "sample_context =
     \<lparr>ac_idempotency_key = ''k'', ac_intent_fingerprint = ''f'', ac_registered_at = datetime_of 0,
      ac_expires_at = None, ac_resume = sample_resume, ac_adapter = sample_adapter, ac_max_attempts = 3\<rparr>"

definition sample_request :: arm_request where
  "sample_request =
     \<lparr>aq_wake_id = ''w'', aq_spec = sample_spec, aq_context = sample_context, aq_contract = sample_contract,
      aq_spec_json = canonical_json (spec_payload sample_spec),
      aq_resume_json = canonical_json (resume_payload sample_resume), aq_contract_json = sample_contract_json\<rparr>"

definition sample_arm_row :: arm_row where
  "sample_arm_row =
     \<lparr>ar_arm_id = ''arm_w'', ar_wake_id = ''w'', ar_idempotency_key = ''k'', ar_intent_fingerprint = ''f'',
      ar_state = Published, ar_contract_version = 1, ar_source = ''fs'', ar_source_instance = ''a'',
      ar_kind = ''changed'', ar_subject = ''s'', ar_spec_json = canonical_json (spec_payload sample_spec),
      ar_resume_json = canonical_json (resume_payload sample_resume),
      ar_registered_at = sample_time, ar_expires_at = None,
      ar_local_after_sequence = Some 0, ar_source_anchor = Some [],
      ar_baseline_json = Some (canonical_json (scalars_json [])), ar_recovery = Some ''local_journal'',
      ar_preparer_token = None, ar_preparation_expires_at = None,
      ar_prepared_at = Some sample_time, ar_published_at = Some sample_time\<rparr>"

definition sample_record :: "string \<times> string" where
  "sample_record =
     build_signal_record (\<lambda>s. s) (sample_armed\<lparr>am_publication := ''prepared''\<rparr>) sample_resume ''u'' 1 3"

definition sample_journal :: journal where
  "sample_journal =
     \<lparr>j_meta = Some \<lparr>me_schema_version = 2, me_next_sequence = 1, me_created_at = sample_time, me_migrated_at = sample_time,
        me_journal_uuid = ''u''\<rparr>,
      j_instances = [\<lparr>in_source = ''fs'', in_source_instance = ''a'', in_contract_json = sample_contract_json,
        in_contract_fingerprint = fingerprint sample_contract_json, in_created_at = sample_time\<rparr>],
      j_sources = [new_source (''fs'', ''a'')\<lparr>ss_lease_generation := 1\<rparr>],
      j_arms = [sample_arm_row],
      j_receipts = [],
      j_progress = [\<lparr>pg_wake_id = ''w'', pg_scanned_through_sequence = 0, pg_revision = 0, pg_updated_at = sample_time\<rparr>],
      j_reservations = [],
      j_pins = [anchor_pin ''w'' 0 sample_time],
      j_lifecycle = [applied_life ''pending'' 1 sample_time (pending_life ''w'' sample_time)],
      j_outbox = [applied_row sample_time (put_row ''w'' 1 ''pending'' None (fst sample_record) (snd sample_record) sample_time)],
      j_tombstones = []\<rparr>"

lemma sample_contract_reads [simp]: "contract_from_json sample_contract_json = Some sample_contract"
proof -
  obtain v where v: "contract_payload sample_contract = Some v"
    by (simp add: contract_payload_def sample_contract_def)
  have "distinct (dict_keys (ct_allowed_attributes sample_contract))"
    by (simp add: sample_contract_def)
  from contract_from_json_payload [OF v this] v show ?thesis
    by (simp add: sample_contract_json_def) (simp add: sort_contract_def sample_contract_def)
qed

lemma sample_arm_reads [simp]: "armed_from_row sample_arm_row = Some sample_armed"
proof -
  have "loads (canonical_json (scalars_json [])) = Some (JObj [])"
    by (simp add: loads_canonical sort_scalars_json) (simp add: scalars_json_def)
  then show ?thesis
    by (simp add: armed_from_row_def sample_arm_row_def expiry_of_def sql_true_def sample_armed_def
        sample_anchor_def sample_time_def spec_from_json_payload)
qed

lemma sample_journal_ok: "schema_ok sample_journal"
  by (simp add: schema_ok_def sample_journal_def meta_ok_def instances_ok_def sources_ok_def arms_ok_def
      receipts_ok_def progress_ok_def reservations_ok_def pins_ok_def lifecycle_ok_def outbox_ok_def
      tombstones_ok_def new_source_def in_key_def ss_key_def sample_arm_row_def anchor_pin_def pin_reasons_def
      applied_life_def pending_life_def applied_row_def put_row_def outbox_row_ok_def
      instance_keys_def wake_ids_def)

end
