(* ===== verification/InMemory.thy ===== *)
theory InMemory
  imports Signals
begin

text \<open>
  The engine that keeps its state in dictionaries (\<open>InMemorySignalModule\<close> of
  \<open>src/src/codex_wake/signals.py\<close>).  Its state is a record of the seven attributes; each method
  returns its result and the new state.  \<^term>\<open>None\<close> as a result is an exception that the method lets
  through, raised by the source's adapter or by the comparison with the anchor.
\<close>

record im_state =
  im_registrations :: "(string, string \<times> armed_signal) dict"
  im_preparations :: "(string, string \<times> string) dict"
  im_contracts :: "(string \<times> string, source_contract) dict"
  im_receipts :: "(identity, observation \<times> receipt_ref) dict"
  im_checkpoints :: "(string \<times> string, source_commit) dict"
  im_reservations :: "(string, matched) dict"
  im_next_sequence :: int

definition im_empty :: im_state where
  "im_empty = \<lparr>im_registrations = [], im_preparations = [], im_contracts = [], im_receipts = [],
     im_checkpoints = [], im_reservations = [], im_next_sequence = 1\<rparr>"

section \<open>arm\<close>

text \<open>The part of \<open>arm\<close> after the wake id is settled: the anchor, its check, the registration.\<close>

definition im_arm_anchor ::
  "string \<Rightarrow> signal_request \<Rightarrow> arm_context \<Rightarrow> source_contract \<Rightarrow> im_state
    \<Rightarrow> armed_signal outcome option \<times> im_state" where
  "im_arm_anchor wake_id spec context contract st =
     (case ad_establish_anchor (ac_adapter context) spec (ac_registered_at context) of
        None \<Rightarrow> (None, st)
      | Some (Degraded d) \<Rightarrow>
          (Some (Degraded (DegradedOf (Some wake_id) (dg_code d) (dg_retry_at d) (dg_evidence_ref d))), st)
      | Some (Invalid i) \<Rightarrow> (Some (Invalid i), st)
      | Some (Ok anchor) \<Rightarrow>
          (case validate_occurrence_anchor contract spec anchor of
             Some i \<Rightarrow> (Some (Invalid i), st)
           | None \<Rightarrow>
               let armed = \<lparr>am_wake_id = wake_id, am_arm_id = ''arm_'' @ wake_id, am_spec = spec,
                     am_anchor = anchor, am_registered_at = ac_registered_at context,
                     am_expires_at = ac_expires_at context, am_publication = ''published''\<rparr>
               in (Some (Ok armed),
                   st\<lparr>im_contracts := dict_set (ct_source contract, ct_source_instance contract) contract
                        (im_contracts st),
                      im_registrations := dict_set (ac_idempotency_key context)
                        (ac_intent_fingerprint context, armed) (im_registrations st)\<rparr>)))"

definition im_arm ::
  "string \<Rightarrow> signal_request \<Rightarrow> arm_context \<Rightarrow> im_state \<Rightarrow> armed_signal outcome option \<times> im_state" where
  "im_arm wake_id spec context st =
     (case ad_contract (ac_adapter context) of
        None \<Rightarrow> (None, st)
      | Some contract \<Rightarrow>
          (case validate_signal spec contract of
             Some i \<Rightarrow> (Some (Invalid i), st)
           | None \<Rightarrow>
               (case dict_get (im_registrations st) (ac_idempotency_key context) of
                  Some (fingerprint, armed) \<Rightarrow>
                    (if fingerprint = ac_intent_fingerprint context then (Some (Ok armed), st)
                     else (Some (invalid_as (Some (am_wake_id armed)) ''IDEMPOTENCY_CONFLICT''
                                   ''idempotency key already used''), st))
                | None \<Rightarrow>
                    (case dict_get (im_preparations st) (ac_idempotency_key context) of
                       Some (fingerprint, reserved) \<Rightarrow>
                         (if fingerprint \<noteq> ac_intent_fingerprint context
                          then (Some (invalid_as (Some reserved) ''IDEMPOTENCY_CONFLICT''
                                        ''idempotency key already used''), st)
                          else im_arm_anchor reserved spec context contract st)
                     | None \<Rightarrow>
                         im_arm_anchor wake_id spec context contract
                           (st\<lparr>im_preparations := dict_set (ac_idempotency_key context)
                                 (ac_intent_fingerprint context, wake_id) (im_preparations st)\<rparr>)))))"

section \<open>ingest\<close>

text \<open>
  What the validation loop asks of one observation.  The attributes are measured as
  \<open>json.dumps\<close> writes them by default, non-ASCII characters escaped.
\<close>

definition im_check_observation :: "observation \<Rightarrow> source_contract \<Rightarrow> invalid option" where
  "im_check_observation ob contract =
     (if ob_kind ob \<notin> set (ct_kinds contract) \<or> ob_subject ob \<notin> set (ct_subjects contract)
         \<or> ob_occurrence_namespace ob = [] \<or> ob_occurrence_value ob = []
         \<or> vf_state (ob_verification ob) \<notin> {''verified'', ''pending'', ''rejected''}
         \<or> vf_method (ob_verification ob) = []
      then Some (InvalidOf None ''OBSERVATION_OUTSIDE_CONTRACT''
                   [''observation is outside the configured source contract''])
      else if (case ob_evidence_ref ob of None \<Rightarrow> False
               | Some r \<Rightarrow> utf8_len r > ct_max_evidence_ref_bytes contract)
      then Some (InvalidOf None ''EVIDENCE_LIMIT_EXCEEDED''
                   [''observation evidence reference exceeds the source limit''])
      else case check_attributes contract (ob_attributes ob) of
        Some i \<Rightarrow> Some i
      | None \<Rightarrow>
          if utf8_len (dumps True (scalars_json (ob_attributes ob))) > ct_max_attribute_bytes contract
          then Some (InvalidOf None ''ATTRIBUTE_LIMIT_EXCEEDED''
                       [''observation attributes exceed the source limit''])
          else None)"

definition identity_conflict :: invalid where
  "identity_conflict =
     InvalidOf None ''OCCURRENCE_IDENTITY_CONFLICT'' [''occurrence identity has different content'']"

text \<open>The validation loop: the observations staged by identity, or the first refusal.\<close>

fun im_stage ::
  "im_state \<Rightarrow> observation list \<Rightarrow> (identity, observation) dict \<Rightarrow> invalid + (identity, observation) dict" where
  "im_stage st [] staged = Inr staged"
| "im_stage st (ob # obs) staged =
     (case dict_get (im_contracts st) (ob_source ob, ob_source_instance ob) of
        None \<Rightarrow> Inl (InvalidOf None ''SOURCE_NOT_CONFIGURED'' [''source instance is not configured''])
      | Some contract \<Rightarrow>
          (case im_check_observation ob contract of
             Some i \<Rightarrow> Inl i
           | None \<Rightarrow>
               if (case dict_get (im_receipts st) (identity_of ob) of None \<Rightarrow> False
                   | Some (stored, _) \<Rightarrow> \<not> observation_eq stored ob) then Inl identity_conflict
               else if (case dict_get staged (identity_of ob) of None \<Rightarrow> False
                   | Some earlier \<Rightarrow> \<not> observation_eq earlier ob) then Inl identity_conflict
               else im_stage st obs (dict_set (identity_of ob) ob staged)))"

text \<open>\<open>f"event_{n:012d}"\<close>\<close>

definition event_id :: "int \<Rightarrow> string" where
  "event_id n =
     ''event_'' @ (if n < 0 then CHR ''-'' # zfill 11 (nat_str (nat (- n))) else zfill 12 (nat_str (nat n)))"

text \<open>The second loop: a receipt for each staged identity that has none.\<close>

fun im_store :: "(identity \<times> observation) list \<Rightarrow> im_state \<Rightarrow> im_state" where
  "im_store [] st = st"
| "im_store ((ident, ob) # rest) st =
     (if dict_get (im_receipts st) ident \<noteq> None then im_store rest st
      else im_store rest
        (st\<lparr>im_next_sequence := im_next_sequence st + 1,
            im_receipts := dict_set ident
              (ob, \<lparr>rr_receipt_id = event_id (im_next_sequence st),
                    rr_local_sequence = im_next_sequence st, rr_duplicate = False\<rparr>) (im_receipts st)\<rparr>))"

text \<open>The third loop: the receipt of each observation in the order given, marked when it was known.\<close>

fun im_results ::
  "im_state \<Rightarrow> identity set \<Rightarrow> identity set \<Rightarrow> observation list \<Rightarrow> receipt_ref list option" where
  "im_results st preexisting returned [] = Some []"
| "im_results st preexisting returned (ob # obs) =
     do { (_, r) \<leftarrow> dict_get (im_receipts st) (identity_of ob);
          rs \<leftarrow> im_results st preexisting (insert (identity_of ob) returned) obs;
          Some (r\<lparr>rr_duplicate := (identity_of ob \<in> preexisting \<or> identity_of ob \<in> returned)\<rparr> # rs) }"

text \<open>A commit must not go back behind the previous checkpoint, nor contradict it.\<close>

definition checkpoint_refusal :: "(int \<times> string) option \<Rightarrow> source_commit \<Rightarrow> invalid option" where
  "checkpoint_refusal previous commit =
     (case previous of
        None \<Rightarrow> None
      | Some (order, checkpoint) \<Rightarrow>
          if cm_checkpoint_order commit < order
          then Some (InvalidOf None ''CHECKPOINT_REGRESSION'' [''source checkpoint order regressed''])
          else if cm_checkpoint_order commit = order \<and> cm_checkpoint commit \<noteq> checkpoint
          then Some (InvalidOf None ''CHECKPOINT_CONFLICT''
                       [''source checkpoint content conflicts at the same order''])
          else None)"

definition im_ingest ::
  "observation list \<Rightarrow> source_commit \<Rightarrow> im_state \<Rightarrow> ingested outcome option \<times> im_state" where
  "im_ingest obs commit st =
     (let key = (cm_source commit, cm_source_instance commit);
          previous = map_option (\<lambda>c. (cm_checkpoint_order c, cm_checkpoint c)) (dict_get (im_checkpoints st) key)
      in if list_ex (\<lambda>ob. (ob_source ob, ob_source_instance ob) \<noteq> key) obs
         then (Some (invalid_as None ''SOURCE_COMMIT_MISMATCH''
                       ''source commit does not match observation batch''), st)
         else case checkpoint_refusal previous commit of
           Some i \<Rightarrow> (Some (Invalid i), st)
         | None \<Rightarrow>
             (case im_stage st obs [] of
                Inl i \<Rightarrow> (Some (Invalid i), st)
              | Inr staged \<Rightarrow>
                  let stored = im_store staged st
                  in (case im_results stored (fst ` set (im_receipts st)) {} obs of
                        None \<Rightarrow> (None, stored)
                      | Some rs \<Rightarrow>
                          (Some (Ok \<lparr>ig_receipts = rs, ig_checkpoint = cm_checkpoint commit\<rparr>),
                           stored\<lparr>im_checkpoints := dict_set key commit (im_checkpoints stored)\<rparr>))))"

definition im_source_checkpoint :: "string \<Rightarrow> string \<Rightarrow> im_state \<Rightarrow> source_commit option" where
  "im_source_checkpoint src inst st = dict_get (im_checkpoints st) (src, inst)"

section \<open>evaluate\<close>

text \<open>
  The loop over the receipts, in the order they were stored: the candidates, and whether one of
  them waits for verification; or the refusal of the first observation that cannot be ordered.
\<close>

fun im_scan ::
  "source_contract \<Rightarrow> armed_signal \<Rightarrow> (observation \<times> receipt_ref) list
    \<Rightarrow> (invalid + (observation \<times> receipt_ref) list \<times> bool) option" where
  "im_scan contract armed [] = Some (Inr ([], False))"
| "im_scan contract armed ((ob, r) # rest) =
     (if rr_local_sequence r \<le> an_local_after_sequence (am_anchor armed)
      then im_scan contract armed rest
      else if (ob_source ob, ob_source_instance ob, ob_kind ob, ob_subject ob)
           \<noteq> (rq_source (am_spec armed), rq_source_instance (am_spec armed),
              rq_kind (am_spec armed), rq_subject (am_spec armed))
      then im_scan contract armed rest
      else
        do { after \<leftarrow> occurrence_is_after_anchor ob contract (am_anchor armed);
             case after of
               Inl i \<Rightarrow> Some (Inl i)
             | Inr later \<Rightarrow>
                 if \<not> later \<or> \<not> matches ob (rq_where (am_spec armed)) then im_scan contract armed rest
                 else if rq_verification (am_spec armed) = ''required''
                      \<and> vf_state (ob_verification ob) \<noteq> ''verified''
                 then map_option (map_sum id (map_prod id
                        (\<lambda>p. vf_state (ob_verification ob) = ''pending'' \<or> p))) (im_scan contract armed rest)
                 else map_option (map_sum id (map_prod (Cons (ob, r)) id)) (im_scan contract armed rest) })"

definition im_matched :: "string \<Rightarrow> observation \<Rightarrow> receipt_ref \<Rightarrow> datetime \<Rightarrow> matched" where
  "im_matched wake_id ob r now =
     \<lparr>mt_wake_id = wake_id,
      mt_match_token = ''match:'' @ wake_id @ '':'' @ rr_receipt_id r,
      mt_receipt = \<lparr>ev_receipt_id = rr_receipt_id r, ev_local_sequence = rr_local_sequence r,
        ev_evidence_ref = ob_evidence_ref ob, ev_attributes = ob_attributes ob,
        ev_verification_state = vf_state (ob_verification ob),
        ev_verification_method = vf_method (ob_verification ob)\<rparr>,
      mt_matched_at = now\<rparr>"

text \<open>\<open>(ref or "")\<close>\<close>

definition evidence_text :: "string option \<Rightarrow> string" where
  "evidence_text r = (case r of None \<Rightarrow> [] | Some s \<Rightarrow> s)"

definition im_evaluate_armed ::
  "string \<Rightarrow> source_contract \<Rightarrow> armed_signal \<Rightarrow> datetime \<Rightarrow> evaluation_limits \<Rightarrow> im_state
    \<Rightarrow> evaluation outcome option \<times> im_state" where
  "im_evaluate_armed wake_id contract armed now limits st =
     (case validate_occurrence_anchor contract (am_spec armed) (am_anchor armed) of
        Some i \<Rightarrow> (Some (Invalid i), st)
      | None \<Rightarrow>
      case dict_get (im_reservations st) wake_id of
        Some m \<Rightarrow> (Some (Ok (Matched m)), st)
      | None \<Rightarrow>
          if am_publication armed \<noteq> ''published''
          then (Some (degraded_at (Some wake_id) ''ARM_NOT_PUBLISHED'' None), st)
          else if (case am_expires_at armed of None \<Rightarrow> False | Some e \<Rightarrow> now \<ge> e)
          then (Some (Ok (Expired wake_id (the (am_expires_at armed)))), st)
          else (case im_scan contract armed (map snd (im_receipts st)) of
             None \<Rightarrow> (None, st)
           | Some (Inl i) \<Rightarrow> (Some (Invalid i), st)
           | Some (Inr (candidates, pending)) \<Rightarrow>
               (if int (length candidates) > lm_max_candidates limits
                then (Some (degraded_at (Some wake_id) ''EVALUATION_BUDGET_EXHAUSTED'' None), st)
                else case sort_key (rr_local_sequence \<circ> snd) candidates of
                  [] \<Rightarrow>
                    (if pending then (Some (degraded_at (Some wake_id) ''VERIFICATION_PENDING'' None), st)
                     else (Some (Ok (NotReady wake_id (im_next_sequence st - 1))), st))
                | (ob, r) # _ \<Rightarrow>
                    (if utf8_len (dumps True (scalars_json (ob_attributes ob))) > lm_max_attribute_bytes limits
                        \<or> utf8_len (evidence_text (ob_evidence_ref ob)) > lm_max_evidence_ref_bytes limits
                     then (Some (degraded_at (Some wake_id) ''EVALUATION_BUDGET_EXHAUSTED'' None), st)
                     else
                       let m = im_matched wake_id ob r now
                       in (Some (Ok (Matched m)),
                           st\<lparr>im_reservations := dict_set wake_id m (im_reservations st)\<rparr>)))))"

definition im_evaluate ::
  "string \<Rightarrow> armed_signal \<Rightarrow> datetime \<Rightarrow> evaluation_limits \<Rightarrow> im_state
    \<Rightarrow> evaluation outcome option \<times> im_state" where
  "im_evaluate wake_id armed now limits st =
     (if wake_id \<noteq> am_wake_id armed
      then (Some (invalid_as (Some wake_id) ''INVALID_ARM'' ''armed signal identity does not match''), st)
      else case dict_get (im_contracts st) (rq_source (am_spec armed), rq_source_instance (am_spec armed)) of
        None \<Rightarrow>
          (Some (invalid_as (Some wake_id) ''INVALID_ARM'' ''armed signal source is unavailable''), st)
      | Some contract \<Rightarrow>
          (if ct_occurrence_order_attribute contract \<noteq> None
           then (case find (\<lambda>a. am_wake_id a = wake_id) (map (snd \<circ> snd) (im_registrations st)) of
                   None \<Rightarrow> (Some (invalid_as (Some wake_id) ''INVALID_ARM'' ''armed signal is unavailable''), st)
                 | Some durable \<Rightarrow>
                     (if am_arm_id durable \<noteq> am_arm_id armed
                      then (Some (invalid_as (Some wake_id) ''INVALID_ARM'' ''armed signal is unavailable''), st)
                      else im_evaluate_armed wake_id contract durable now limits st))
           else im_evaluate_armed wake_id contract armed now limits st))"

end
