(* ===== verification/StoreIngest.thy ===== *)
theory StoreIngest
  imports Samples InMemory
begin

text \<open>
  Ingesting a batch of observations together with the source's checkpoint (\<open>ingest\<close> of
  \<open>SQLiteSignalModule\<close> in \<open>src/src/codex_wake/signal_store.py\<close>), in one transaction: the observations
  are validated and staged, the new ones get consecutive numbers, and the checkpoint moves.
\<close>

section \<open>Staging\<close>

text \<open>
  The validation loop: the observations by identity with their text and its fingerprint, or the first
  refusal.  A later observation of the same identity replaces the value but keeps the position.
\<close>

type_synonym staged = "(identity, observation \<times> string \<times> string) dict"

fun stage :: "journal \<Rightarrow> source_contract \<Rightarrow> observation list \<Rightarrow> staged \<Rightarrow> invalid + staged" where
  "stage j contract [] staged = Inr staged"
| "stage j contract (ob # obs) staged =
     (case validate_observation ob contract of
        Some i \<Rightarrow> Inl i
      | None \<Rightarrow>
          let text = canonical_json (observation_payload ob); fp = fingerprint text in
          if (case dict_get staged (identity_of ob) of None \<Rightarrow> False | Some (_, _, prior) \<Rightarrow> prior \<noteq> fp)
          then Inl identity_conflict
          else if (case receipt_at j (identity_of ob) of None \<Rightarrow> False
                   | Some stored \<Rightarrow> rc_content_fingerprint stored \<noteq> fp)
          then Inl identity_conflict
          else stage j contract obs (dict_set (identity_of ob) (ob, text, fp) staged))"

section \<open>Storing\<close>

definition receipt_row_of :: "int \<Rightarrow> observation \<Rightarrow> string \<Rightarrow> string \<Rightarrow> receipt_row" where
  "receipt_row_of n ob text fp =
     \<lparr>rc_local_sequence = n, rc_receipt_id = event_id n, rc_source = ob_source ob,
      rc_source_instance = ob_source_instance ob,
      rc_occurrence_namespace = ob_occurrence_namespace ob,
      rc_occurrence_value = ob_occurrence_value ob, rc_content_fingerprint = fp,
      rc_kind = ob_kind ob, rc_subject = ob_subject ob,
      rc_occurred_at = format_time (ob_occurred_at ob), rc_observed_at = format_time (ob_observed_at ob),
      rc_attributes_json = canonical_json (scalars_json (ob_attributes ob)),
      rc_verification_state = vf_state (ob_verification ob),
      rc_verification_method = vf_method (ob_verification ob),
      rc_evidence_ref = ob_evidence_ref ob, rc_observation_json = text\<rparr>"

text \<open>The second loop: the journal with a row for each new identity, those rows' receipts, the next number.\<close>

fun store_staged ::
  "staged \<Rightarrow> int \<Rightarrow> journal \<Rightarrow> (identity, receipt_ref) dict \<Rightarrow> (journal \<times> (identity, receipt_ref) dict \<times> int) option"
where
  "store_staged [] n j inserted = Some (j, inserted, n)"
| "store_staged ((ident, ob, text, fp) # rest) n j inserted =
     (if receipt_at j ident \<noteq> None then store_staged rest n j inserted
      else do {
        m \<leftarrow> sql_int n;
        j' \<leftarrow> insert_receipt (receipt_row_of m ob text fp) j;
        store_staged rest (n + 1) j'
          (dict_set ident \<lparr>rr_receipt_id = event_id n, rr_local_sequence = n, rr_duplicate = False\<rparr> inserted) })"

text \<open>The third loop: the receipts in the order of the observations.\<close>

fun ingest_results ::
  "journal \<Rightarrow> (identity, receipt_ref) dict \<Rightarrow> identity set \<Rightarrow> identity set \<Rightarrow> observation list
    \<Rightarrow> receipt_ref list option" where
  "ingest_results j inserted preexisting returned [] = Some []"
| "ingest_results j inserted preexisting returned (ob # obs) =
     (let ident = identity_of ob in
      do { (receipt, preexisting') \<leftarrow>
             (case dict_get inserted ident of
                Some r \<Rightarrow>
                  (if ident \<notin> returned then Some (r, preexisting)
                   else do { stored \<leftarrow> receipt_at j ident;
                     Some (\<lparr>rr_receipt_id = rc_receipt_id stored, rr_local_sequence = rc_local_sequence stored,
                            rr_duplicate = True\<rparr>, insert ident preexisting) })
              | None \<Rightarrow>
                  do { stored \<leftarrow> receipt_at j ident;
                    Some (\<lparr>rr_receipt_id = rc_receipt_id stored, rr_local_sequence = rc_local_sequence stored,
                           rr_duplicate = True\<rparr>, insert ident preexisting) });
           rs \<leftarrow> ingest_results j inserted preexisting' (insert ident returned) obs;
           Some (receipt\<lparr>rr_duplicate := (ident \<in> preexisting' \<or> ident \<in> returned)\<rparr> # rs) })"

section \<open>ingest\<close>

definition committed_source :: "source_commit \<Rightarrow> int \<Rightarrow> source_row \<Rightarrow> source_row" where
  "committed_source commit through s =
     s\<lparr>ss_checkpoint := Some (cm_checkpoint commit),
       ss_checkpoint_order := Some (cm_checkpoint_order commit),
       ss_observed_through := Some (format_time (cm_observed_through commit)),
       ss_last_local_sequence := max (ss_last_local_sequence s) through,
       ss_lease_owner := None, ss_lease_expires_at := None\<rparr>"

definition commit_source :: "source_commit \<Rightarrow> int \<Rightarrow> journal \<Rightarrow> journal option" where
  "commit_source commit n j =
     do { order \<leftarrow> sql_int (cm_checkpoint_order commit);
          m \<leftarrow> sql_int n;
          if m < 1 then None
          else Some (update_source (\<lambda>r. ss_key r = (cm_source commit, cm_source_instance commit))
                  (committed_source commit (n - 1))
                  (j\<lparr>j_meta := map_option (\<lambda>r. r\<lparr>me_next_sequence := n,
                       me_migrated_at := format_time (cm_observed_through commit)\<rparr>) (j_meta j)\<rparr>)) }"

text \<open>The lease of another process, if it has not expired; the clock is read only if there is one.\<close>

definition ingest_lease :: "source_row \<Rightarrow> datetime option \<Rightarrow> datetime option option" where
  "ingest_lease s clock =
     (case ss_lease_owner s of
        None \<Rightarrow> Some None
      | Some _ \<Rightarrow>
          do { text \<leftarrow> ss_lease_expires_at s; until \<leftarrow> parse_time text; now \<leftarrow> clock;
               Some (if until > now then Some until else None) })"

definition store_refusal :: "source_row \<Rightarrow> source_commit \<Rightarrow> invalid option" where
  "store_refusal s commit =
     (case ss_checkpoint_order s of
        None \<Rightarrow> None
      | Some order \<Rightarrow>
          if cm_checkpoint_order commit < order
          then Some (InvalidOf None ''CHECKPOINT_REGRESSION'' [''source checkpoint order regressed''])
          else if cm_checkpoint_order commit = order \<and> Some (cm_checkpoint commit) \<noteq> ss_checkpoint s
          then Some (InvalidOf None ''CHECKPOINT_CONFLICT''
                       [''source checkpoint content conflicts at the same order''])
          else None)"

definition ingest_tx ::
  "observation list \<Rightarrow> source_commit \<Rightarrow> datetime option \<Rightarrow> journal \<Rightarrow> ingested outcome tx" where
  "ingest_tx obs commit clock j =
     (let k = (cm_source commit, cm_source_instance commit) in
      case (instance_at j k, source_at j k) of
        (Some inst, Some s) \<Rightarrow>
          do { busy \<leftarrow> ingest_lease s clock;
               case busy of
                 Some until \<Rightarrow> Some (Rollback (degraded_at None ''SOURCE_BUSY'' (Some until)))
               | None \<Rightarrow>
               case store_refusal s commit of
                 Some i \<Rightarrow> Some (Rollback (Invalid i))
               | None \<Rightarrow>
               do { contract \<leftarrow> contract_from_json (in_contract_json inst);
                    case stage j contract obs [] of
                      Inl i \<Rightarrow> Some (Rollback (Invalid i))
                    | Inr staged \<Rightarrow>
                    do { n \<leftarrow> next_sequence j;
                         (j1, inserted, m) \<leftarrow> store_staged staged n j [];
                         j2 \<leftarrow> commit_source commit m j1;
                         rs \<leftarrow> ingest_results j2 inserted {} {} obs;
                         Some (Commit j2
                           (Ok \<lparr>ig_receipts = rs, ig_checkpoint = cm_checkpoint commit\<rparr>)) } } }
      | _ \<Rightarrow> Some (Rollback (invalid_as None ''SOURCE_NOT_CONFIGURED'' ''source instance is not configured'')))"

definition ingest ::
  "env \<Rightarrow> observation list \<Rightarrow> source_commit \<Rightarrow> journal \<Rightarrow> ingested outcome \<times> journal" where
  "ingest e obs commit j =
     (if list_ex (\<lambda>ob. (ob_source ob, ob_source_instance ob) \<noteq> (cm_source commit, cm_source_instance commit)) obs
      then (invalid_as None ''SOURCE_COMMIT_MISMATCH'' ''source commit does not match observation batch'', j)
      else run_tx (en_fault e 0) (degraded_at None ''STORE_UNAVAILABLE'' None)
             (ingest_tx obs commit (en_clock e 0)) j)"

section \<open>What staging leaves\<close>

declare split_paired_All [simp del] split_paired_Ex [simp del]

lemma rc_identity_row [simp]: "rc_identity (receipt_row_of n ob text fp) = identity_of ob"
  by (simp add: rc_identity_def receipt_row_of_def identity_of_def)

lemma receipt_row_fields [simp]:
  "rc_local_sequence (receipt_row_of n ob t fp) = n" "rc_receipt_id (receipt_row_of n ob t fp) = event_id n"
  "rc_content_fingerprint (receipt_row_of n ob t fp) = fp" "rc_observation_json (receipt_row_of n ob t fp) = t"
  "rc_source (receipt_row_of n ob t fp) = ob_source ob"
  "rc_source_instance (receipt_row_of n ob t fp) = ob_source_instance ob"
  "rc_kind (receipt_row_of n ob t fp) = ob_kind ob" "rc_subject (receipt_row_of n ob t fp) = ob_subject ob"
  by (simp_all add: receipt_row_of_def)

definition content_of :: "observation \<Rightarrow> string" where
  "content_of ob = fingerprint (canonical_json (observation_payload ob))"

definition staged_ok :: "journal \<Rightarrow> staged \<Rightarrow> bool" where
  "staged_ok j st \<longleftrightarrow> distinct (map fst st) \<and>
     (\<forall>i ob text fp. dict_get st i = Some (ob, text, fp) \<longrightarrow>
        i = identity_of ob \<and> text = canonical_json (observation_payload ob) \<and> fp = content_of ob
        \<and> (\<forall>r. receipt_at j i = Some r \<longrightarrow> rc_content_fingerprint r = fp))"

lemma staged_ok_Nil [simp]: "staged_ok j []"
  by (simp add: staged_ok_def)

lemma staged_ok_set:
  assumes "staged_ok j st"
    and "\<And>r. receipt_at j (identity_of ob) = Some r \<Longrightarrow> rc_content_fingerprint r = content_of ob"
  shows "staged_ok j (dict_set (identity_of ob) (ob, canonical_json (observation_payload ob), content_of ob) st)"
  using assms by (auto simp: staged_ok_def dict_set_get distinct_dict_set)

text \<open>Staging in one step, with the fingerprint named.\<close>

lemma stage_Cons:
  "stage j contract (ob # obs) st =
     (case validate_observation ob contract of
        Some i \<Rightarrow> Inl i
      | None \<Rightarrow>
          if (case dict_get st (identity_of ob) of None \<Rightarrow> False | Some (_, _, prior) \<Rightarrow> prior \<noteq> content_of ob)
             \<or> (case receipt_at j (identity_of ob) of None \<Rightarrow> False
                 | Some stored \<Rightarrow> rc_content_fingerprint stored \<noteq> content_of ob)
          then Inl identity_conflict
          else stage j contract obs
            (dict_set (identity_of ob) (ob, canonical_json (observation_payload ob), content_of ob) st))"
  by (simp add: Let_def content_of_def split: option.splits)

declare stage.simps(2) [simp del]

lemma stage_spec:
  assumes "stage j contract obs st = Inr st'" and "staged_ok j st"
  shows "staged_ok j st' \<and> fst ` set st' = fst ` set st \<union> identity_of ` set obs
    \<and> (\<forall>i ob text fp. dict_get st i = Some (ob, text, fp) \<longrightarrow> (\<exists>ob' text'. dict_get st' i = Some (ob', text', fp)))
    \<and> (\<forall>ob\<in>set obs. validate_observation ob contract = None
        \<and> (\<exists>ob' text'. dict_get st' (identity_of ob) = Some (ob', text', content_of ob)))"
  using assms
proof (induction obs arbitrary: st)
  case Nil
  then show ?case by simp
next
  case (Cons ob obs)
  let ?st = "dict_set (identity_of ob) (ob, canonical_json (observation_payload ob), content_of ob) st"
  have valid: "validate_observation ob contract = None"
    and prior: "\<And>ob' t f. dict_get st (identity_of ob) = Some (ob', t, f) \<Longrightarrow> f = content_of ob"
    and stored: "\<And>r. receipt_at j (identity_of ob) = Some r \<Longrightarrow> rc_content_fingerprint r = content_of ob"
    and rest: "stage j contract obs ?st = Inr st'"
    using Cons.prems(1) by (auto simp: stage_Cons split: option.splits if_splits)
  have IH: "staged_ok j st' \<and> fst ` set st' = fst ` set ?st \<union> identity_of ` set obs
    \<and> (\<forall>i ob text fp. dict_get ?st i = Some (ob, text, fp) \<longrightarrow> (\<exists>ob' text'. dict_get st' i = Some (ob', text', fp)))
    \<and> (\<forall>ob\<in>set obs. validate_observation ob contract = None
        \<and> (\<exists>ob' text'. dict_get st' (identity_of ob) = Some (ob', text', content_of ob)))"
    using Cons.IH [OF rest staged_ok_set [OF Cons.prems(2) stored]] .
  have keys: "fst ` set ?st = insert (identity_of ob) (fst ` set st)"
    by (simp add: update_conv' flip: dom_map_of_conv_image_fst)
  have kept: "\<exists>ob' text'. dict_get st' i = Some (ob', text', fp)"
    if "dict_get ?st i = Some (ob0, t, fp)" for i ob0 t fp
    using IH that by blast
  have "\<exists>ob' text'. dict_get st' (identity_of ob) = Some (ob', text', content_of ob)"
    by (rule kept) (simp add: dict_set_get)
  moreover have "\<exists>ob' text'. dict_get st' i = Some (ob', text', fp)" if "dict_get st i = Some (ob0, t, fp)" for i ob0 t fp
  proof (cases "i = identity_of ob")
    case True
    then have "fp = content_of ob" using that prior by simp
    then show ?thesis using True calculation by simp
  next
    case False
    show ?thesis by (rule kept) (simp add: dict_set_get that False)
  qed
  ultimately show ?case using IH keys valid by auto
qed

text \<open>Another journal that agrees on the content of these identities stages the same batch alike.\<close>

lemma stage_again:
  assumes "stage j contract obs st = Inr st'"
    and "\<And>ob r. ob \<in> set obs \<Longrightarrow> receipt_at j' (identity_of ob) = Some r \<Longrightarrow> rc_content_fingerprint r = content_of ob"
  shows "stage j' contract obs st = Inr st'"
  using assms
  by (induction obs arbitrary: st) (auto simp: stage_Cons split: option.splits if_splits)

section \<open>What storing adds\<close>

lemma receipt_at_append:
  "receipt_at (j\<lparr>j_receipts := rows @ new\<rparr>) i =
     (case find (\<lambda>r. rc_identity r = i) rows of Some r \<Rightarrow> Some r | None \<Rightarrow> find (\<lambda>r. rc_identity r = i) new)"
  by (simp add: receipt_at_def find_append)

text \<open>Row number \<open>k\<close> of the new rows comes from a staged identity that had no receipt.\<close>

definition new_rows :: "journal \<Rightarrow> staged \<Rightarrow> int \<Rightarrow> receipt_row list \<Rightarrow> bool" where
  "new_rows j st n new \<longleftrightarrow>
     (\<forall>k<length new. \<exists>i ob text fp. (i, ob, text, fp) \<in> set st \<and> receipt_at j i = None
        \<and> new ! k = receipt_row_of (n + int k) ob text fp)"

lemma new_rows_Cons:
  assumes "new_rows j' st (n + 1) new" and "receipt_at j i = None"
    and "\<And>i'. receipt_at j' i' = None \<Longrightarrow> receipt_at j i' = None"
  shows "new_rows j ((i, ob, t, fp) # st) n (receipt_row_of n ob t fp # new)"
  unfolding new_rows_def
proof (intro allI impI)
  fix k assume k: "k < length (receipt_row_of n ob t fp # new)"
  show "\<exists>i' ob' t' fp'. (i', ob', t', fp') \<in> set ((i, ob, t, fp) # st) \<and> receipt_at j i' = None
    \<and> (receipt_row_of n ob t fp # new) ! k = receipt_row_of (n + int k) ob' t' fp'"
  proof (cases k)
    case 0
    with assms(2) show ?thesis by (intro exI [of _ i] exI [of _ ob] exI [of _ t] exI [of _ fp]) simp
  next
    case (Suc k')
    with k assms(1) obtain i' ob' t' fp' where "(i', ob', t', fp') \<in> set st" "receipt_at j' i' = None"
      "new ! k' = receipt_row_of (n + 1 + int k') ob' t' fp'"
      by (auto simp: new_rows_def)
    with Suc assms(3) show ?thesis
      by (intro exI [of _ i'] exI [of _ ob'] exI [of _ t'] exI [of _ fp']) (simp add: algebra_simps)
  qed
qed

lemma insert_receipt_SomeD: "insert_receipt r j = Some j' \<Longrightarrow> j' = j\<lparr>j_receipts := j_receipts j @ [r]\<rparr>"
  by (auto simp: insert_receipt_def split: if_splits)

text \<open>The reference that the second loop files for a new identity.\<close>

definition ref_of :: "receipt_row \<Rightarrow> receipt_ref" where
  "ref_of r = \<lparr>rr_receipt_id = rc_receipt_id r, rr_local_sequence = rc_local_sequence r, rr_duplicate = False\<rparr>"

lemma store_staged_spec:
  assumes "store_staged st n j ins = Some (j', ins', m)" and "distinct (map fst st)"
    and "\<forall>(i, ob, t, fp)\<in>set st. i = identity_of ob"
  shows "\<exists>new. j' = j\<lparr>j_receipts := j_receipts j @ new\<rparr> \<and> m = n + int (length new) \<and> new_rows j st n new
    \<and> (\<forall>i\<in>fst ` set st. receipt_at j' i \<noteq> None)
    \<and> (\<forall>i. dict_get ins' i =
         (if i \<in> fst ` set st \<and> receipt_at j i = None then map_option ref_of (receipt_at j' i) else dict_get ins i))
    \<and> (\<forall>i. receipt_at j i \<noteq> None \<longrightarrow> receipt_at j' i = receipt_at j i)"
  using assms
proof (induction st n j ins rule: store_staged.induct)
  case (1 n j ins)
  then show ?case by (auto simp: new_rows_def)
next
  case (2 ident ob t fp rest n j ins)
  have ident: "ident = identity_of ob" and fresh: "ident \<notin> fst ` set rest" and rest: "distinct (map fst rest)"
    and ids: "\<forall>(i, ob, t, fp)\<in>set rest. i = identity_of ob"
    using "2.prems" by auto
  show ?case
  proof (cases "receipt_at j ident = None")
    case False
    then have "store_staged rest n j ins = Some (j', ins', m)" using "2.prems"(1) by simp
    with "2.IH"(1) False rest ids obtain new where
      new: "j' = j\<lparr>j_receipts := j_receipts j @ new\<rparr>" "m = n + int (length new)" "new_rows j rest n new"
        "\<forall>i\<in>fst ` set rest. receipt_at j' i \<noteq> None"
        "\<forall>i. dict_get ins' i =
          (if i \<in> fst ` set rest \<and> receipt_at j i = None then map_option ref_of (receipt_at j' i) else dict_get ins i)"
        "\<forall>i. receipt_at j i \<noteq> None \<longrightarrow> receipt_at j' i = receipt_at j i"
      by blast
    have "new_rows j ((ident, ob, t, fp) # rest) n new"
      using new(3) unfolding new_rows_def by (meson list.set_intros(2))
    then show ?thesis using new False
      by (intro exI [of _ new]) auto
  next
    case True
    let ?row = "receipt_row_of n ob t fp"
    let ?ref = "\<lparr>rr_receipt_id = event_id n, rr_local_sequence = n, rr_duplicate = False\<rparr>"
    obtain j1 where fits: "sql_int n = Some n" and ins1: "insert_receipt ?row j = Some j1"
      and run: "store_staged rest (n + 1) j1 (dict_set ident ?ref ins) = Some (j', ins', m)"
      using "2.prems"(1) True by (auto simp: sql_int_def split: Option.bind_splits if_splits)
    note j1 = insert_receipt_SomeD [OF ins1]
    have at1: "receipt_at j1 i = (case receipt_at j i of Some r \<Rightarrow> Some r | None \<Rightarrow> if i = ident then Some ?row else None)" for i
      using ident by (auto simp: j1 receipt_at_append receipt_at_def [of j] split: option.splits)
    obtain new where
      new: "j' = j1\<lparr>j_receipts := j_receipts j1 @ new\<rparr>" "m = n + 1 + int (length new)" "new_rows j1 rest (n + 1) new"
        "\<forall>i\<in>fst ` set rest. receipt_at j' i \<noteq> None"
        "\<forall>i. dict_get ins' i =
          (if i \<in> fst ` set rest \<and> receipt_at j1 i = None then map_option ref_of (receipt_at j' i)
           else dict_get (dict_set ident ?ref ins) i)"
        "\<forall>i. receipt_at j1 i \<noteq> None \<longrightarrow> receipt_at j' i = receipt_at j1 i"
      using "2.IH"(2) [OF _ fits ins1 run rest ids] True by blast
    have here: "receipt_at j' ident = Some ?row" using new(6) at1 [of ident] True by simp
    have ref: "map_option ref_of (receipt_at j' ident) = Some ?ref"
      using here by (simp add: ref_of_def receipt_row_of_def)
    have "j' = j\<lparr>j_receipts := j_receipts j @ ?row # new\<rparr>" using new(1) by (simp add: j1)
    moreover have "m = n + int (length (?row # new))" using new(2) by simp
    moreover have "new_rows j ((ident, ob, t, fp) # rest) n (?row # new)"
      using at1 by (intro new_rows_Cons [OF new(3) True]) (auto split: option.splits)
    moreover have "\<forall>i\<in>fst ` set ((ident, ob, t, fp) # rest). receipt_at j' i \<noteq> None"
      using new(4) here by simp
    moreover have "\<forall>i. receipt_at j i \<noteq> None \<longrightarrow> receipt_at j' i = receipt_at j i"
      using new(6) at1 by auto
    moreover have "\<forall>i. dict_get ins' i =
        (if i \<in> fst ` set ((ident, ob, t, fp) # rest) \<and> receipt_at j i = None
         then map_option ref_of (receipt_at j' i) else dict_get ins i)"
      using new(5) at1 ref True fresh by (auto simp: dict_set_get split: option.splits)
    ultimately show ?thesis by blast
  qed
qed

section \<open>What the answer says\<close>

text \<open>The receipts in the order of the observations; \<open>fresh\<close> holds for the identities stored just now.\<close>

fun answer_refs :: "journal \<Rightarrow> (identity \<Rightarrow> bool) \<Rightarrow> identity set \<Rightarrow> observation list \<Rightarrow> receipt_ref list" where
  "answer_refs j fresh returned [] = []"
| "answer_refs j fresh returned (ob # obs) =
     (ref_of (the (receipt_at j (identity_of ob))))
       \<lparr>rr_duplicate := (\<not> fresh (identity_of ob) \<or> identity_of ob \<in> returned)\<rparr>
     # answer_refs j fresh (insert (identity_of ob) returned) obs"

lemma ingest_results_spec:
  assumes "\<And>i. dict_get ins i = (if fresh i then map_option ref_of (receipt_at j i) else None)"
    and "\<And>ob. ob \<in> set obs \<Longrightarrow> receipt_at j (identity_of ob) \<noteq> None"
    and "\<And>i. i \<in> pre \<Longrightarrow> \<not> fresh i \<or> i \<in> ret"
  shows "ingest_results j ins pre ret obs = Some (answer_refs j fresh ret obs)"
  using assms(2,3)
proof (induction obs arbitrary: pre ret)
  case Nil
  then show ?case by simp
next
  case (Cons ob obs)
  let ?i = "identity_of ob"
  obtain row where row: "receipt_at j ?i = Some row" using Cons.prems(1) [of ob] by auto
  have rest: "ingest_results j ins pre' (insert ?i ret) obs = Some (answer_refs j fresh (insert ?i ret) obs)"
    if "\<And>i. i \<in> pre' \<Longrightarrow> \<not> fresh i \<or> i \<in> insert ?i ret" for pre'
    using Cons.prems(1) that by (intro Cons.IH) auto
  show ?case
  proof (cases "fresh ?i \<and> ?i \<notin> ret")
    case True
    then have "?i \<notin> pre" using Cons.prems(2) [of ?i] by blast
    moreover have "ingest_results j ins pre (insert ?i ret) obs = Some (answer_refs j fresh (insert ?i ret) obs)"
      using Cons.prems(2) by (intro rest) auto
    ultimately show ?thesis using True row by (simp add: assms(1) ref_of_def)
  next
    case False
    have "ingest_results j ins (insert ?i pre) (insert ?i ret) obs = Some (answer_refs j fresh (insert ?i ret) obs)"
      using Cons.prems(2) by (intro rest) auto
    then show ?thesis using False row
      by (cases "fresh ?i") (auto simp: Let_def assms(1) ref_of_def)
  qed
qed

lemma length_answer_refs [simp]: "length (answer_refs j fresh ret obs) = length obs"
  by (induction obs arbitrary: ret) auto

lemma nth_answer_refs:
  "k < length obs \<Longrightarrow> answer_refs j fresh ret obs ! k =
     (ref_of (the (receipt_at j (identity_of (obs ! k)))))
       \<lparr>rr_duplicate := (\<not> fresh (identity_of (obs ! k))
          \<or> identity_of (obs ! k) \<in> ret \<union> identity_of ` set (take k obs))\<rparr>"
proof (induction obs arbitrary: ret k)
  case Nil
  then show ?case by simp
next
  case (Cons ob obs)
  then show ?case by (cases k) auto
qed

text \<open>The same receipts, all of them known already.\<close>

definition as_duplicates :: "receipt_ref list \<Rightarrow> receipt_ref list" where
  "as_duplicates rs = map (\<lambda>r. r\<lparr>rr_duplicate := True\<rparr>) rs"

lemma answer_refs_duplicates:
  "answer_refs j (\<lambda>_. False) ret' obs = as_duplicates (answer_refs j fresh ret obs)"
  by (induction obs arbitrary: ret ret') (auto simp: as_duplicates_def)

section \<open>A committed batch\<close>

lemma commit_source_SomeD:
  assumes "commit_source commit n j = Some j'"
  shows "- (2 ^ 63) \<le> cm_checkpoint_order commit \<and> cm_checkpoint_order commit < 2 ^ 63 \<and> 1 \<le> n \<and> n < 2 ^ 63
    \<and> j' = update_source (\<lambda>r. ss_key r = (cm_source commit, cm_source_instance commit))
        (committed_source commit (n - 1))
        (j\<lparr>j_meta := map_option (\<lambda>r. r\<lparr>me_next_sequence := n,
             me_migrated_at := format_time (cm_observed_through commit)\<rparr>) (j_meta j)\<rparr>)"
  using assms by (auto simp: commit_source_def sql_int_def split: Option.bind_splits if_splits)

interpretation committing: source_update "committed_source commit n" for commit n
  by unfold_locales (auto simp: committed_source_def ss_key_def le_max_iff_disj)

lemma ingest_tx_commit:
  assumes "ingest_tx obs commit clock j = Some (Commit j' r)"
  shows "\<exists>inst s contract st n j1 ins m rs.
    instance_at j (cm_source commit, cm_source_instance commit) = Some inst
    \<and> source_at j (cm_source commit, cm_source_instance commit) = Some s
    \<and> ingest_lease s clock = Some None
    \<and> store_refusal s commit = None
    \<and> contract_from_json (in_contract_json inst) = Some contract
    \<and> stage j contract obs [] = Inr st
    \<and> next_sequence j = Some n
    \<and> store_staged st n j [] = Some (j1, ins, m)
    \<and> commit_source commit m j1 = Some j'
    \<and> ingest_results j' ins {} {} obs = Some rs
    \<and> r = Ok \<lparr>ig_receipts = rs, ig_checkpoint = cm_checkpoint commit\<rparr>"
  using assms
  by (auto simp: ingest_tx_def Let_def split: option.splits sum.splits Option.bind_splits prod.splits)


text \<open>The journal that a committed batch leaves, the answer, and what became of every observation.\<close>

lemma ingest_tx_spec:
  assumes "ingest_tx obs commit clock j = Some (Commit j' r)"
  shows "\<exists>inst s contract st n new.
    instance_at j (cm_source commit, cm_source_instance commit) = Some inst
    \<and> source_at j (cm_source commit, cm_source_instance commit) = Some s
    \<and> store_refusal s commit = None
    \<and> contract_from_json (in_contract_json inst) = Some contract
    \<and> stage j contract obs [] = Inr st \<and> staged_ok j st
    \<and> next_sequence j = Some n
    \<and> new_rows j st n new
    \<and> commit_source commit (n + int (length new)) (j\<lparr>j_receipts := j_receipts j @ new\<rparr>) = Some j'
    \<and> (\<forall>ob\<in>set obs. receipt_at j' (identity_of ob) \<noteq> None)
    \<and> (\<forall>i. receipt_at j i \<noteq> None \<longrightarrow> receipt_at j' i = receipt_at j i)
    \<and> r = Ok \<lparr>ig_receipts = answer_refs j' (\<lambda>i. i \<in> identity_of ` set obs \<and> receipt_at j i = None) {} obs,
              ig_checkpoint = cm_checkpoint commit\<rparr>"
proof -
  obtain inst s contract st n j1 ins m rs where
    head: "instance_at j (cm_source commit, cm_source_instance commit) = Some inst"
      "source_at j (cm_source commit, cm_source_instance commit) = Some s"
      "store_refusal s commit = None" "contract_from_json (in_contract_json inst) = Some contract"
    and st: "stage j contract obs [] = Inr st" and n: "next_sequence j = Some n"
    and store: "store_staged st n j [] = Some (j1, ins, m)"
    and com: "commit_source commit m j1 = Some j'"
    and rs: "ingest_results j' ins {} {} obs = Some rs"
    and r: "r = Ok \<lparr>ig_receipts = rs, ig_checkpoint = cm_checkpoint commit\<rparr>"
    using ingest_tx_commit [OF assms] by blast
  have ok: "staged_ok j st" and keys: "fst ` set st = identity_of ` set obs"
    using stage_spec [OF st] by auto
  have "\<forall>(i, ob, t, fp)\<in>set st. i = identity_of ob"
    using ok unfolding staged_ok_def by (fastforce dest: map_of_is_SomeI)
  then obtain new where new: "j1 = j\<lparr>j_receipts := j_receipts j @ new\<rparr>" "m = n + int (length new)"
      "new_rows j st n new" "\<forall>i\<in>fst ` set st. receipt_at j1 i \<noteq> None"
      "\<forall>i. dict_get ins i = (if i \<in> fst ` set st \<and> receipt_at j i = None
         then map_option ref_of (receipt_at j1 i) else dict_get [] i)"
      "\<forall>i. receipt_at j i \<noteq> None \<longrightarrow> receipt_at j1 i = receipt_at j i"
    using store_staged_spec [OF store] ok by (auto simp: staged_ok_def)
  have same: "receipt_at j' i = receipt_at j1 i" for i
    using commit_source_SomeD [OF com] by (auto simp: receipt_at_def update_source_def)
  have all: "\<forall>ob\<in>set obs. receipt_at j' (identity_of ob) \<noteq> None"
    using new(4) keys same by simp
  have "ingest_results j' ins {} {} obs
      = Some (answer_refs j' (\<lambda>i. i \<in> identity_of ` set obs \<and> receipt_at j i = None) {} obs)"
    using new(5) keys all same by (intro ingest_results_spec) auto
  then show ?thesis
    using head st ok n new com all same r rs by (auto intro!: exI [of _ inst] exI [of _ s])
qed


lemma ingest_tx_source:
  assumes "ingest_tx obs commit clock j = Some (Commit j' r)"
  shows "\<exists>s m. source_at j (cm_source commit, cm_source_instance commit) = Some s
    \<and> store_refusal s commit = None
    \<and> source_at j' (cm_source commit, cm_source_instance commit) = Some (committed_source commit m s)
    \<and> (\<forall>k. k \<noteq> (cm_source commit, cm_source_instance commit) \<longrightarrow> source_at j' k = source_at j k)
    \<and> 1 \<le> m + 1 \<and> next_sequence j' = Some (m + 1)"
proof -
  let ?k = "(cm_source commit, cm_source_instance commit)"
  obtain s n new where s: "source_at j ?k = Some s" "store_refusal s commit = None"
    and n: "next_sequence j = Some n"
    and com: "commit_source commit (n + int (length new)) (j\<lparr>j_receipts := j_receipts j @ new\<rparr>) = Some j'"
    using ingest_tx_spec [OF assms] by blast
  let ?m = "n + int (length new) - 1"
  have j': "j' = update_source (\<lambda>r. ss_key r = ?k) (committed_source commit ?m)
      (j\<lparr>j_receipts := j_receipts j @ new, j_meta := map_option (\<lambda>r. r\<lparr>me_next_sequence := ?m + 1,
         me_migrated_at := format_time (cm_observed_through commit)\<rparr>) (j_meta j)\<rparr>)" and "1 \<le> ?m + 1"
    using commit_source_SomeD [OF com] by auto
  have "source_at j' k = map_option (\<lambda>r. if ss_key r = ?k then committed_source commit ?m r else r) (source_at j k)" for k
    unfolding j' committing.source_found by (simp add: source_at_def)
  moreover have "ss_key s = ?k" using s(1) by (auto simp: source_at_def dest: find_SomeD)
  moreover have "next_sequence j' = Some (?m + 1)"
    using n by (auto simp: j' next_sequence_def update_source_def)
  moreover have "map_option (\<lambda>r. if ss_key r = ?k then committed_source commit ?m r else r) (source_at j k) = source_at j k"
    if "k \<noteq> ?k" for k
    using that by (cases "source_at j k") (auto simp: source_at_def dest!: find_SomeD)
  ultimately show ?thesis using s \<open>1 \<le> ?m + 1\<close> by (intro exI [of _ s] exI [of _ ?m]) auto
qed

text \<open>Ingesting the same batch again, whatever the clock says.\<close>

lemma ingest_tx_again:
  assumes "ingest_tx obs commit clock j = Some (Commit j' (Ok ig))"
  shows "ingest_tx obs commit clock' j' = Some (Commit j' (Ok (ig\<lparr>ig_receipts := as_duplicates (ig_receipts ig)\<rparr>)))"
proof -
  let ?k = "(cm_source commit, cm_source_instance commit)"
  obtain inst s contract st n new where
    inst: "instance_at j ?k = Some inst" and contract: "contract_from_json (in_contract_json inst) = Some contract"
    and st: "stage j contract obs [] = Inr st" "staged_ok j st"
    and n: "next_sequence j = Some n"
    and new: "new_rows j st n new"
    and com: "commit_source commit (n + int (length new)) (j\<lparr>j_receipts := j_receipts j @ new\<rparr>) = Some j'"
    and all: "\<forall>ob\<in>set obs. receipt_at j' (identity_of ob) \<noteq> None"
    and kept: "\<forall>i. receipt_at j i \<noteq> None \<longrightarrow> receipt_at j' i = receipt_at j i"
    and ig: "ig = \<lparr>ig_receipts = answer_refs j' (\<lambda>i. i \<in> identity_of ` set obs \<and> receipt_at j i = None) {} obs,
              ig_checkpoint = cm_checkpoint commit\<rparr>"
    using ingest_tx_spec [OF assms] by blast
  let ?m = "n + int (length new)"
  note fits = commit_source_SomeD [OF com]
  have j': "j' = update_source (\<lambda>r. ss_key r = ?k) (committed_source commit (?m - 1))
      (j\<lparr>j_receipts := j_receipts j @ new, j_meta := map_option (\<lambda>r. r\<lparr>me_next_sequence := ?m,
         me_migrated_at := format_time (cm_observed_through commit)\<rparr>) (j_meta j)\<rparr>)"
    using fits by auto
  obtain s' where s': "source_at j' ?k = Some s'" "ss_lease_owner s' = None"
      "ss_checkpoint s' = Some (cm_checkpoint commit)" "ss_checkpoint_order s' = Some (cm_checkpoint_order commit)"
    using ingest_tx_source [OF assms] by (auto simp: committed_source_def)
  have next': "next_sequence j' = Some ?m"
    using n by (auto simp: j' next_sequence_def update_source_def)
  have inst': "instance_at j' ?k = Some inst"
    using inst by (simp add: j' instance_at_def update_source_def)
  have content: "rc_content_fingerprint r = content_of ob"
    if ob: "ob \<in> set obs" and r: "receipt_at j' (identity_of ob) = Some r" for ob r
  proof (cases "receipt_at j (identity_of ob) = None")
    case True
    obtain ob' t' where e: "dict_get st (identity_of ob) = Some (ob', t', content_of ob)"
      using stage_spec [OF st(1)] ob by auto
    have "receipt_at j' (identity_of ob) = find (\<lambda>r. rc_identity r = identity_of ob) new"
      using True by (simp add: j' update_source_def receipt_at_def find_append)
    then have "find (\<lambda>r. rc_identity r = identity_of ob) new = Some r" using r by simp
    then have "r \<in> set new" "rc_identity r = identity_of ob" using find_SomeD by fastforce+
    then obtain i ob2 t2 fp2 x where "(i, ob2, t2, fp2) \<in> set st" "r = receipt_row_of x ob2 t2 fp2"
      using new unfolding new_rows_def by (metis in_set_conv_nth)
    moreover from this have "dict_get st i = Some (ob2, t2, fp2)"
      using st(2) by (auto simp: staged_ok_def intro: map_of_is_SomeI)
    moreover from this have "i = identity_of ob2" using st(2) by (auto simp: staged_ok_def)
    ultimately show ?thesis using e \<open>rc_identity r = identity_of ob\<close> by auto
  next
    case False
    then have "receipt_at j (identity_of ob) = Some r" using kept r by auto
    then show ?thesis
      using stage_spec [OF st(1)] ob by (auto simp: staged_ok_def)
  qed
  have st': "stage j' contract obs [] = Inr st" by (rule stage_again [OF st(1) content])
  have keys: "fst ` set st = identity_of ` set obs" using stage_spec [OF st(1)] by auto
  have "store_staged xs x j' [] = Some (j', [], x)" if "fst ` set xs \<subseteq> identity_of ` set obs" for xs x
    using that all by (induction xs) auto
  then have store': "store_staged st ?m j' [] = Some (j', [], ?m)" using keys by simp
  have com': "commit_source commit ?m j' = Some j'"
  proof -
    have "update_where P f (update_where P f rows) = update_where P f rows"
      if "\<And>r. P (f r) = P r" "\<And>r. f (f r) = f r" for P and f :: "source_row \<Rightarrow> source_row" and rows
      using that by (simp add: update_where_def)
    then have "update_where (\<lambda>r. ss_key r = ?k) (committed_source commit (?m - 1))
        (update_where (\<lambda>r. ss_key r = ?k) (committed_source commit (?m - 1)) rows)
        = update_where (\<lambda>r. ss_key r = ?k) (committed_source commit (?m - 1)) rows" for rows
      by (rule meta_mp) (auto simp: committed_source_def ss_key_def)
    then show ?thesis
      using fits by (auto simp: commit_source_def sql_int_def j' update_source_def option.map_comp comp_def)
  qed
  have rs': "ingest_results j' [] {} {} obs = Some (answer_refs j' (\<lambda>_. False) {} obs)"
    using all by (intro ingest_results_spec) auto
  have dup: "answer_refs j' (\<lambda>_. False) {} obs = as_duplicates (ig_receipts ig)"
    unfolding ig by (simp add: answer_refs_duplicates)
  have "store_refusal s' commit = None" using s' by (simp add: store_refusal_def)
  then show ?thesis
    using s' inst' contract st' next' store' com' rs' dup ig
    by (simp add: ingest_tx_def Let_def ingest_lease_def)
qed

section \<open>The transaction keeps the schema\<close>

lemma store_staged_ok: "store_staged st n j ins = Some (j', ins', m) \<Longrightarrow> schema_ok j \<Longrightarrow> schema_ok j'"
proof (induction st n j ins rule: store_staged.induct)
  case (2 ident ob t fp rest n j ins)
  then show ?case
    by (auto split: if_splits Option.bind_splits intro: insert_receipt_ok)
qed simp

lemma commit_source_ok:
  assumes "commit_source commit n j = Some j'" and "schema_ok j"
  shows "schema_ok j'"
proof -
  have "schema_ok (j\<lparr>j_meta := map_option (\<lambda>r. r\<lparr>me_next_sequence := n,
      me_migrated_at := format_time (cm_observed_through commit)\<rparr>) (j_meta j)\<rparr>)"
    using assms commit_source_SomeD [OF assms(1)] by (auto simp: schema_ok_def meta_ok_def)
  then show ?thesis using commit_source_SomeD [OF assms(1)] by (auto intro: committing.keeps_schema)
qed

lemma ingest_tx_ok: "ingest_tx obs commit clock j = Some (Commit j' r) \<Longrightarrow> schema_ok j \<Longrightarrow> schema_ok j'"
  by (auto dest!: ingest_tx_commit dest: store_staged_ok commit_source_ok)

interpretation ingested: safe_transaction schema_ok "ingest_tx obs commit clock" for obs commit clock
  by unfold_locales (rule ingest_tx_ok)

section \<open>A batch that is ingested\<close>

lemma sample_ingest: "\<exists>ig j'. ingest sample_env [sample_observation] sample_commit sample_journal = (Ok ig, j')"
  by (simp add: ingest_def ingest_tx_def Let_def run_tx_def sample_env_def sample_commit_def sample_observation_def
      sample_journal_def instance_at_def in_key_def source_at_def new_source_def ss_key_def ingest_lease_def
      store_refusal_def stage_Cons validate_observation_def sample_contract_def receipt_at_def identity_of_def
      attribute_bytes_def canonical_json_def dumps_def scalars_json_def utf8_len_def utf8_def utf8_char_def
      next_sequence_def sql_int_def insert_receipt_def verification_states_def receipt_row_of_def
      rc_identity_def commit_source_def update_source_def update_where_def)

section \<open>Properties\<close>

lemma ingest_Ok_tx:
  assumes "ingest e obs commit j = (Ok ig, j')"
  shows "ingest_tx obs commit (en_clock e 0) j = Some (Commit j' (Ok ig)) \<and> en_fault e 0 = NoFault"
proof -
  have "run_tx (en_fault e 0) (degraded_at None ''STORE_UNAVAILABLE'' None) (ingest_tx obs commit (en_clock e 0)) j
      = (Ok ig, j')"
    using assms by (auto simp: ingest_def split: if_splits)
  moreover have "ingest_tx obs commit (en_clock e 0) j \<noteq> Some (Rollback (Ok ig))"
    by (auto simp: ingest_tx_def Let_def split: option.splits sum.splits Option.bind_splits prod.splits)
  ultimately show ?thesis
    by (cases "en_fault e 0") (auto simp: run_tx_def split: if_splits option.splits ending.splits)
qed

lemma store_staged_distinct:
  "store_staged st n j ins = Some (j', ins', m) \<Longrightarrow> \<exists>new. j_receipts j' = j_receipts j @ new \<and> distinct (map rc_identity new)
     \<and> (\<forall>r\<in>set new. receipt_at j (rc_identity r) = None)"
proof (induction st n j ins rule: store_staged.induct)
  case (2 ident ob t fp rest n j ins)
  show ?case
  proof (cases "receipt_at j ident = None")
    case True
    then obtain m1 j1 where m1: "sql_int n = Some m1" and ins: "insert_receipt (receipt_row_of m1 ob t fp) j = Some j1"
      and rest: "store_staged rest (n + 1) j1
          (dict_set ident \<lparr>rr_receipt_id = event_id n, rr_local_sequence = n, rr_duplicate = False\<rparr> ins) = Some (j', ins', m)"
      using "2.prems" by (auto split: Option.bind_splits)
    let ?r = "receipt_row_of m1 ob t fp"
    have j1: "j1 = j\<lparr>j_receipts := j_receipts j @ [?r]\<rparr>" and free: "receipt_at j (rc_identity ?r) = None"
      using insert_receipt_SomeD [OF ins] ins by (auto simp: insert_receipt_def split: if_splits)
    obtain new where new: "j_receipts j' = j_receipts j1 @ new" "distinct (map rc_identity new)"
      "\<forall>r\<in>set new. receipt_at j1 (rc_identity r) = None"
      using "2.IH"(2) True m1 ins rest by blast
    have later: "receipt_at j (rc_identity r) = None \<and> rc_identity ?r \<noteq> rc_identity r" if "r \<in> set new" for r
      using new(3) that unfolding j1 receipt_at_append by (auto simp: receipt_at_def split: option.splits if_splits)
    have "\<forall>r\<in>set (?r # new). receipt_at j (rc_identity r) = None" using free later by auto
    moreover have "rc_identity ?r \<notin> rc_identity ` set new" using later by blast
    ultimately have "\<forall>r\<in>set (?r # new). receipt_at j (rc_identity r) = None" "distinct (map rc_identity (?r # new))" using new(2) by simp_all
    then show ?thesis using new(1) j1 by (intro exI [of _ "?r # new"]) simp
  qed (use "2.IH"(1) "2.prems" in auto)
qed simp

lemma set_dict_set: "x \<in> set (dict_set k v d) \<Longrightarrow> x = (k, v) \<or> x \<in> set d"
  by (induction d) (auto split: if_splits)

lemma stage_members:
  assumes "stage j contract obs st = Inr st'" "(i, ob, t, fp) \<in> set st'"
  shows "(i, ob, t, fp) \<in> set st \<or> ob \<in> set obs"
  using assms
proof (induction obs arbitrary: st)
  case (Cons x obs)
  have "stage j contract obs (dict_set (identity_of x) (x, canonical_json (observation_payload x), content_of x) st) = Inr st'"
    using Cons.prems(1) by (auto simp: stage_Cons split: option.splits if_splits)
  from Cons.IH [OF this Cons.prems(2)] show ?case by (auto dest: set_dict_set)
qed simp

text \<open>The new rows are those of the batch's observations that had no receipt, each once.\<close>

lemma ingest_tx_new:
  assumes tx: "ingest_tx obs commit clock j = Some (Commit j' a)" and app: "j_receipts j' = j_receipts j @ new"
  shows "distinct (map rc_identity new)"
    and "rc_identity ` set new = {i \<in> identity_of ` set obs. receipt_at j i = None}"
    and "r \<in> set new \<Longrightarrow> \<exists>ob\<in>set obs. r = receipt_row_of (rc_local_sequence r) ob (canonical_json (observation_payload ob)) (content_of ob)"
proof -
  show "distinct (map rc_identity new)"
  proof -
    obtain st n j1 ins m where store: "store_staged st n j [] = Some (j1, ins, m)" and com: "commit_source commit m j1 = Some j'"
      using ingest_tx_commit [OF tx] by blast
    have "j_receipts j1 = j_receipts j'" using commit_source_SomeD [OF com] by (auto simp: update_source_def)
    with store_staged_distinct [OF store] app show ?thesis by auto
  qed
  obtain contract st n new' where st: "stage j contract obs [] = Inr st" "staged_ok j st" and rows: "new_rows j st n new'"
    and com: "commit_source commit (n + int (length new')) (j\<lparr>j_receipts := j_receipts j @ new'\<rparr>) = Some j'"
    and all: "\<forall>ob\<in>set obs. receipt_at j' (identity_of ob) \<noteq> None"
    using ingest_tx_spec [OF tx] by blast
  have "new' = new" using commit_source_SomeD [OF com] app by (auto simp: update_source_def)
  note rows = rows [unfolded this]
  have entry: "i = identity_of ob \<and> t = canonical_json (observation_payload ob) \<and> fp = content_of ob \<and> ob \<in> set obs"
    if "(i, ob, t, fp) \<in> set st" for i ob t fp
    using that st(2) stage_members [OF st(1) that] unfolding staged_ok_def by (auto dest: map_of_is_SomeI)
  have each: "\<exists>ob\<in>set obs. receipt_at j (identity_of ob) = None
      \<and> r = receipt_row_of (rc_local_sequence r) ob (canonical_json (observation_payload ob)) (content_of ob)" if r: "r \<in> set new" for r
  proof -
    obtain k where "k < length new" "r = new ! k" using r by (metis in_set_conv_nth)
    then obtain i ob t fp where e: "(i, ob, t, fp) \<in> set st" "receipt_at j i = None" "r = receipt_row_of (n + int k) ob t fp"
      using rows unfolding new_rows_def by blast
    then show ?thesis using entry [OF e(1)] by auto
  qed
  show "rc_identity ` set new = {i \<in> identity_of ` set obs. receipt_at j i = None}"
  proof (intro set_eqI iffI)
    fix i assume "i \<in> rc_identity ` set new"
    then obtain r where "r \<in> set new" "i = rc_identity r" by blast
    moreover from this obtain ob where ob: "ob \<in> set obs" "receipt_at j (identity_of ob) = None"
      "r = receipt_row_of (rc_local_sequence r) ob (canonical_json (observation_payload ob)) (content_of ob)"
      using each by blast
    moreover have "rc_identity r = identity_of ob" by (subst ob(3)) (rule rc_identity_row)
    ultimately show "i \<in> {i \<in> identity_of ` set obs. receipt_at j i = None}" by simp
  next
    fix i assume "i \<in> {i \<in> identity_of ` set obs. receipt_at j i = None}"
    then have i: "receipt_at j' i \<noteq> None" "receipt_at j i = None" using all by auto
    then obtain r where r: "find (\<lambda>r. rc_identity r = i) (j_receipts j @ new) = Some r" using app by (auto simp: receipt_at_def)
    then have "find (\<lambda>r. rc_identity r = i) new = Some r" using i(2) by (simp add: find_append receipt_at_def)
    then show "i \<in> rc_identity ` set new" by (auto dest: find_SomeD)
  qed
  show "\<exists>ob\<in>set obs. r = receipt_row_of (rc_local_sequence r) ob (canonical_json (observation_payload ob)) (content_of ob)" if "r \<in> set new"
    using each [OF that] by blast
qed

text \<open>C32. A batch that is ingested adds exactly one receipt for each occurrence that had none, and nothing else: the identities of
  the new rows are those of the batch without a receipt, each once, and each row is that of an observation of the
  batch with its canonical text and fingerprint; earlier rows stay; the new rows get the consecutive sequence numbers from \<open>next_sequence\<close> on and the ids
  that go with them, and the answer names for each observation the one receipt of its identity, marked as
  a duplicate exactly when that receipt was there before or an earlier observation of the batch has the
  same identity.\<close>

theorem ingest_appends:
  assumes "ingest e obs commit j = (Ok ig, j')"
  shows "\<exists>n new. next_sequence j = Some n \<and> j_receipts j' = j_receipts j @ new
    \<and> rc_identity ` set new = {i \<in> identity_of ` set obs. receipt_at j i = None} \<and> distinct (map rc_identity new)
    \<and> (\<forall>r\<in>set new. \<exists>ob\<in>set obs. r = receipt_row_of (rc_local_sequence r) ob (canonical_json (observation_payload ob)) (content_of ob))
    \<and> map rc_local_sequence new = [n..n + int (length new) - 1]
    \<and> map rc_receipt_id new = map event_id [n..n + int (length new) - 1]
    \<and> next_sequence j' = Some (n + int (length new))
    \<and> ig_checkpoint ig = cm_checkpoint commit
    \<and> length (ig_receipts ig) = length obs
    \<and> (\<forall>k<length obs. \<exists>r. receipt_at j' (identity_of (obs ! k)) = Some r
        \<and> rr_receipt_id (ig_receipts ig ! k) = rc_receipt_id r
        \<and> rr_local_sequence (ig_receipts ig ! k) = rc_local_sequence r
        \<and> (rr_duplicate (ig_receipts ig ! k) \<longleftrightarrow>
             receipt_at j (identity_of (obs ! k)) = Some r
             \<or> identity_of (obs ! k) \<in> identity_of ` set (take k obs)))"
proof -
  have tx: "ingest_tx obs commit (en_clock e 0) j = Some (Commit j' (Ok ig))"
    using ingest_Ok_tx [OF assms] by simp
  obtain st n new where n: "next_sequence j = Some n" and new: "new_rows j st n new"
    and com: "commit_source commit (n + int (length new)) (j\<lparr>j_receipts := j_receipts j @ new\<rparr>) = Some j'"
    and all: "\<forall>ob\<in>set obs. receipt_at j' (identity_of ob) \<noteq> None"
    and kept: "\<forall>i. receipt_at j i \<noteq> None \<longrightarrow> receipt_at j' i = receipt_at j i"
    and ig: "ig = \<lparr>ig_receipts = answer_refs j' (\<lambda>i. i \<in> identity_of ` set obs \<and> receipt_at j i = None) {} obs,
              ig_checkpoint = cm_checkpoint commit\<rparr>"
    using ingest_tx_spec [OF tx] by blast
  have row: "rc_local_sequence (new ! k) = n + int k \<and> rc_receipt_id (new ! k) = event_id (n + int k)"
    if "k < length new" for k
    using new that unfolding new_rows_def by fastforce
  have seqs: "map rc_local_sequence new = [n..n + int (length new) - 1]"
    "map rc_receipt_id new = map event_id [n..n + int (length new) - 1]"
    using row by (auto intro!: nth_equalityI)
  have each: "\<exists>r. receipt_at j' (identity_of (obs ! k)) = Some r
        \<and> rr_receipt_id (ig_receipts ig ! k) = rc_receipt_id r
        \<and> rr_local_sequence (ig_receipts ig ! k) = rc_local_sequence r
        \<and> (rr_duplicate (ig_receipts ig ! k) \<longleftrightarrow> receipt_at j (identity_of (obs ! k)) = Some r
             \<or> identity_of (obs ! k) \<in> identity_of ` set (take k obs))" if k: "k < length obs" for k
  proof -
    obtain r where r: "receipt_at j' (identity_of (obs ! k)) = Some r" using all k by fastforce
    then have "receipt_at j (identity_of (obs ! k)) \<noteq> None \<longleftrightarrow> receipt_at j (identity_of (obs ! k)) = Some r"
      using kept by (metis option.distinct(1))
    with r k show ?thesis by (auto simp: ig nth_answer_refs ref_of_def)
  qed
  have "next_sequence j' = Some (n + int (length new))" "j_receipts j' = j_receipts j @ new"
    using commit_source_SomeD [OF com] n by (auto simp: next_sequence_def update_source_def)
  then show ?thesis using n seqs each ingest_tx_new [OF tx, of new] by (intro exI [of _ n] exI [of _ new]) (simp add: ig)
qed

lemma ingest_appends_witness:
  "\<exists>ig j' n new. ingest sample_env [sample_observation] sample_commit sample_journal = (Ok ig, j')
     \<and> next_sequence sample_journal = Some n \<and> j_receipts j' = j_receipts sample_journal @ new
     \<and> map rc_local_sequence new = [n..n + int (length new) - 1]"
  using sample_ingest ingest_appends by metis

text \<open>C6. Ingesting is exactly-once for a source that repeats a batch after it lost the answer: when the
  commit of a batch goes through but the answer does not, the caller sees \<open>STORE_UNAVAILABLE\<close>, and sending
  the same batch with the same checkpoint again answers the same receipts, all as duplicates, and leaves
  every row of the journal as it is.\<close>

theorem ingest_exactly_once:
  assumes "ingest (e\<lparr>en_fault := (\<lambda>_. NoFault)\<rparr>) obs commit j = (Ok ig, j')"
    and "en_fault e 0 = FaultAfter" and "en_fault e' 0 = NoFault"
  shows "ingest e obs commit j = (degraded_at None ''STORE_UNAVAILABLE'' None, j')
    \<and> ingest e' obs commit j' = (Ok (ig\<lparr>ig_receipts := as_duplicates (ig_receipts ig)\<rparr>), j')"
proof -
  have tx: "ingest_tx obs commit (en_clock e 0) j = Some (Commit j' (Ok ig))"
    using ingest_Ok_tx [OF assms(1)] by simp
  have same: "\<not> list_ex (\<lambda>ob. (ob_source ob, ob_source_instance ob) \<noteq> (cm_source commit, cm_source_instance commit)) obs"
    using assms(1) by (auto simp: ingest_def split: if_splits)
  show ?thesis
    using tx ingest_tx_again [OF tx, of "en_clock e' 0"] same assms(2,3)
    by (auto simp: ingest_def run_tx_def)
qed

lemma ingest_exactly_once_witness:
  "\<exists>ig j'. ingest (sample_env\<lparr>en_fault := (\<lambda>_. FaultAfter)\<rparr>) [sample_observation] sample_commit sample_journal
       = (degraded_at None ''STORE_UNAVAILABLE'' None, j')
     \<and> ingest sample_env [sample_observation] sample_commit j'
       = (Ok (ig\<lparr>ig_receipts := as_duplicates (ig_receipts ig)\<rparr>), j')"
proof -
  obtain ig j' where "ingest sample_env [sample_observation] sample_commit sample_journal = (Ok ig, j')"
    using sample_ingest by blast
  moreover have "sample_env\<lparr>en_fault := (\<lambda>_. FaultAfter)\<rparr>\<lparr>en_fault := (\<lambda>_. NoFault)\<rparr> = sample_env"
    by (simp add: sample_env_def)
  ultimately show ?thesis
    using ingest_exactly_once [of "sample_env\<lparr>en_fault := (\<lambda>_. FaultAfter)\<rparr>" "[sample_observation]" sample_commit
        sample_journal ig j' sample_env]
    by (intro exI [of _ ig] exI [of _ j']) (simp add: sample_env_def)
qed

text \<open>C33. The checkpoint of a source never goes back: whatever batch is offered and however the transaction
  ends, the stored order of every source instance stays or grows, and at the same order the stored checkpoint
  stays the same text.\<close>

theorem ingest_checkpoint_monotone:
  assumes "ingest e obs commit j = (a, j')" and "source_at j k = Some s" and "ss_checkpoint_order s = Some n"
  shows "\<exists>s' n'. source_at j' k = Some s' \<and> ss_checkpoint_order s' = Some n' \<and> n \<le> n'
    \<and> (n' = n \<longrightarrow> ss_checkpoint s' = ss_checkpoint s)"
proof (cases "j' = j")
  case True
  with assms show ?thesis by auto
next
  case False
  then obtain r where tx: "ingest_tx obs commit (en_clock e 0) j = Some (Commit j' r)"
    using assms(1) by (auto simp: ingest_def split: if_splits dest!: run_tx_cases)
  show ?thesis
  proof (cases "k = (cm_source commit, cm_source_instance commit)")
    case True
    then obtain m where "store_refusal s commit = None" "source_at j' k = Some (committed_source commit m s)"
      using ingest_tx_source [OF tx] assms(2) by auto
    then show ?thesis
      using assms(3) by (auto simp: store_refusal_def committed_source_def not_less split: if_splits)
  next
    case False
    then show ?thesis using ingest_tx_source [OF tx] assms by auto
  qed
qed

lemma ingest_checkpoint_monotone_witness:
  "let s = (new_source (''fs'', ''a''))\<lparr>ss_checkpoint := Some ''b'', ss_checkpoint_order := Some 7\<rparr>;
       j = sample_journal\<lparr>j_sources := [s]\<rparr>
   in \<exists>s' n'. source_at (snd (ingest sample_env [] sample_commit j)) (''fs'', ''a'') = Some s'
        \<and> ss_checkpoint_order s' = Some n' \<and> 7 \<le> n'"
proof -
  let ?s = "(new_source (''fs'', ''a''))\<lparr>ss_checkpoint := Some ''b'', ss_checkpoint_order := Some 7\<rparr>"
  let ?j = "sample_journal\<lparr>j_sources := [?s]\<rparr>"
  have "source_at ?j (''fs'', ''a'') = Some ?s" by (simp add: source_at_def ss_key_def new_source_def)
  then show ?thesis
    using ingest_checkpoint_monotone [of sample_env "[]" sample_commit ?j
        "fst (ingest sample_env [] sample_commit ?j)" "snd (ingest sample_env [] sample_commit ?j)"
        "(''fs'', ''a'')" ?s 7] by (auto simp: Let_def)
qed

end
