(* ===== verification/StoreEvaluate.thy ===== *)
theory StoreEvaluate
  imports StoreIngest
begin

text \<open>
  The evaluation of an armed signal over the receipts of its source (\<open>evaluate\<close>, \<open>_ensure_match_outbox\<close>,
  \<open>_advance_progress\<close> and \<open>_pin_pending\<close> of \<open>SQLiteSignalModule\<close> in
  \<open>src/src/codex_wake/signal_store.py\<close>): one transaction that reads a page of receipts after the point
  scanned so far, reserves the first one that satisfies the request, and writes the record intent of the match.
\<close>

section \<open>Judging one receipt\<close>

datatype verdict =
    VerdictSkip
  | VerdictInvalid invalid
  | VerdictPending
  | VerdictBudget
  | VerdictMatch observation

text \<open>The file system source reports one receipt per baseline; the convention is its own.\<close>

definition baseline_matches :: "armed_signal \<Rightarrow> observation \<Rightarrow> bool" where
  "baseline_matches armed ob =
     (rq_source (am_spec armed) = ''filesystem'' \<and> rq_semantics (am_spec armed) = ''state''
        \<and> rq_condition (am_spec armed) = ''becomes'' \<longrightarrow>
      (case (dict_get (ob_attributes ob) ''baseline_fingerprint'',
             dict_get (an_baseline (am_anchor armed)) ''fingerprint'') of
         (Some (SStr seen), Some (SStr expected)) \<Rightarrow> seen = expected
       | _ \<Rightarrow> True))"

definition judge_observation ::
  "source_contract \<Rightarrow> armed_signal \<Rightarrow> evaluation_limits \<Rightarrow> observation \<Rightarrow> verdict option" where
  "judge_observation contract armed limits ob =
     do { after \<leftarrow> occurrence_is_after_anchor ob contract (am_anchor armed);
          Some (case after of
            Inl i \<Rightarrow> VerdictInvalid i
          | Inr later \<Rightarrow>
              if \<not> later \<or> \<not> baseline_matches armed ob \<or> \<not> matches ob (rq_where (am_spec armed))
              then VerdictSkip
              else if rq_verification (am_spec armed) = ''required''
                   \<and> vf_state (ob_verification ob) \<noteq> ''verified''
              then (if vf_state (ob_verification ob) = ''pending'' then VerdictPending else VerdictSkip)
              else if attribute_bytes (ob_attributes ob) > lm_max_attribute_bytes limits
                   \<or> utf8_len (evidence_text (ob_evidence_ref ob)) > lm_max_evidence_ref_bytes limits
              then VerdictBudget
              else VerdictMatch ob) }"

definition judge_row ::
  "source_contract \<Rightarrow> armed_signal \<Rightarrow> evaluation_limits \<Rightarrow> receipt_row \<Rightarrow> verdict option" where
  "judge_row contract armed limits r =
     do { ob \<leftarrow> observation_from_json (rc_observation_json r); judge_observation contract armed limits ob }"

text \<open>The loop over the page: how far it is safe to have scanned, and the row that stopped it.\<close>

fun scan_page ::
  "source_contract \<Rightarrow> armed_signal \<Rightarrow> evaluation_limits \<Rightarrow> receipt_row list \<Rightarrow> int
    \<Rightarrow> (int \<times> (verdict \<times> receipt_row) option) option" where
  "scan_page contract armed limits [] safe = Some (safe, None)"
| "scan_page contract armed limits (r # rs) safe =
     do { v \<leftarrow> judge_row contract armed limits r;
          case v of
            VerdictSkip \<Rightarrow> scan_page contract armed limits rs (rc_local_sequence r)
          | _ \<Rightarrow> Some (safe, Some (v, r)) }"

definition candidate_rows :: "signal_request \<Rightarrow> int \<Rightarrow> journal \<Rightarrow> receipt_row list" where
  "candidate_rows spec scanned j =
     sort_key rc_local_sequence
       (filter (\<lambda>r. rc_source r = rq_source spec \<and> rc_source_instance r = rq_source_instance spec
                    \<and> rc_kind r = rq_kind spec \<and> rc_subject r = rq_subject spec
                    \<and> scanned < rc_local_sequence r) (j_receipts j))"

section \<open>Writing\<close>

definition advance_progress :: "string \<Rightarrow> int \<Rightarrow> datetime \<Rightarrow> journal \<Rightarrow> journal" where
  "advance_progress w sequence now =
     update_progress (\<lambda>r. pg_wake_id r = w)
       (\<lambda>r. r\<lparr>pg_scanned_through_sequence := max (pg_scanned_through_sequence r) sequence,
              pg_revision := pg_revision r + 1, pg_updated_at := format_time now\<rparr>)"

definition pending_pin :: "string \<Rightarrow> string \<Rightarrow> string \<Rightarrow> pin_row" where
  "pending_pin w rid at =
     \<lparr>pn_pin_id = ''pending:'' @ w @ '':'' @ rid, pn_wake_id = w, pn_receipt_id = Some rid,
      pn_min_local_sequence = None, pn_reason = ''verification_pending'',
      pn_created_at = at, pn_released_at = None\<rparr>"

definition pin_pending :: "string \<Rightarrow> string \<Rightarrow> datetime \<Rightarrow> journal \<Rightarrow> journal option" where
  "pin_pending w rid now = insert_pin (pending_pin w rid (format_time now))"

definition match_pin :: "string \<Rightarrow> string \<Rightarrow> string \<Rightarrow> pin_row" where
  "match_pin w rid at =
     \<lparr>pn_pin_id = ''match:'' @ w, pn_wake_id = w, pn_receipt_id = Some rid,
      pn_min_local_sequence = None, pn_reason = ''match_evidence'',
      pn_created_at = at, pn_released_at = None\<rparr>"

definition match_evidence :: "matched \<Rightarrow> (string, json) dict" where
  "match_evidence m =
     [(''match_token'', JStr (mt_match_token m)),
      (''receipt_id'', JStr (ev_receipt_id (mt_receipt m))),
      (''local_sequence'', JInt (ev_local_sequence (mt_receipt m))),
      (''evidence_ref'', opt_json (ev_evidence_ref (mt_receipt m))),
      (''attributes'', scalars_json (ev_attributes (mt_receipt m))),
      (''verification'', JObj [(''state'', JStr (ev_verification_state (mt_receipt m))),
                               (''method'', JStr (ev_verification_method (mt_receipt m)))]),
      (''matched_at'', JStr (format_time (mt_matched_at m)))]"

definition trigger_match :: "matched \<Rightarrow> json" where
  "trigger_match m =
     JObj (dict_set ''evidence_digest'' (JStr (fingerprint (canonical_json (JObj (match_evidence m)))))
             (match_evidence m))"

text \<open>\<open>list(payload.get("events") or [])\<close>\<close>

definition events_of :: "(string, json) dict \<Rightarrow> json list option" where
  "events_of payload =
     (if truthy (jget payload ''events'') then jarr (jget payload ''events'') else Some [])"

definition firing_payload :: "matched \<Rightarrow> (string, json) dict \<Rightarrow> (string, json) dict option" where
  "firing_payload m payload =
     do { let at = format_time (mt_matched_at m);
          let p1 = dict_set ''updated_at'' (JStr at) (dict_set ''record_revision'' (JInt 2)
                 (dict_set ''status'' (JStr ''firing'') (dict_set ''trigger_match'' (trigger_match m) payload)));
          events \<leftarrow> events_of p1;
          Some (dict_set ''events''
            (JArr (events @ [event_json at ''predicate_matched'' ''Signal observation reserved for firing'']))
            p1) }"

definition firing_life :: "string \<Rightarrow> lifecycle_row \<Rightarrow> lifecycle_row" where
  "firing_life at r = r\<lparr>lc_desired_status := ''firing'', lc_desired_revision := 2, lc_updated_at := at\<rparr>"

definition ensure_match_outbox :: "matched \<Rightarrow> journal \<Rightarrow> journal option" where
  "ensure_match_outbox m j =
     (let w = mt_wake_id m; at = format_time (mt_matched_at m) in
      if outbox_at j w 2 \<noteq> None then Some j
      else do { pending \<leftarrow> outbox_at j w 1;
                parsed \<leftarrow> loads (sql_str (ox_payload_json pending));
                payload \<leftarrow> jobj parsed;
                firing \<leftarrow> firing_payload m payload;
                let text = canonical_json (JObj firing);
                j1 \<leftarrow> insert_outbox False
                       (put_row w 2 ''firing'' (Some ''pending'') text (line_digest text) at) j;
                Some (update_lifecycle (\<lambda>r. lc_wake_id r = w \<and> lc_desired_status r = ''pending'')
                        (firing_life at) j1) })"

text \<open>Reserving one receipt: the reservation, its pin, and the match as the reservation now has it.\<close>

definition reserve_match :: "string \<Rightarrow> receipt_row \<Rightarrow> observation \<Rightarrow> datetime \<Rightarrow> journal \<Rightarrow> (journal \<times> matched) option" where
  "reserve_match w r ob now j =
     do { let m = im_matched w ob \<lparr>rr_receipt_id = rc_receipt_id r,
                    rr_local_sequence = rc_local_sequence r, rr_duplicate = False\<rparr> now;
          j1 \<leftarrow> insert_reservation \<lparr>rv_wake_id = w, rv_receipt_id = Some (rc_receipt_id r),
                 rv_match_token = mt_match_token m, rv_matched_at = format_time now,
                 rv_evidence_json = canonical_json (matched_payload m)\<rparr> j;
          j2 \<leftarrow> insert_pin (match_pin w (rc_receipt_id r) (format_time now)) j1;
          winner \<leftarrow> reservation_of j2 w;
          m' \<leftarrow> matched_from_json (rv_evidence_json winner);
          j3 \<leftarrow> ensure_match_outbox m' j2;
          Some (j3, m') }"

section \<open>evaluate\<close>

definition life_pending :: "lifecycle_row option \<Rightarrow> bool" where
  "life_pending life =
     (case life of
        None \<Rightarrow> False
      | Some r \<Rightarrow> lc_desired_status r = ''pending'' \<and> lc_applied_status r = Some ''pending''
                  \<and> Some (lc_desired_revision r) = lc_applied_revision r)"

text \<open>What comes of a page: it is exhausted, or one of its rows stopped the scan.\<close>

definition finish_page ::
  "string \<Rightarrow> receipt_row list \<Rightarrow> bool \<Rightarrow> int \<Rightarrow> (verdict \<times> receipt_row) option \<Rightarrow> datetime \<Rightarrow> journal
    \<Rightarrow> evaluation outcome tx" where
  "finish_page w page has_more safe stop now j =
     (case stop of
        None \<Rightarrow>
          do { reached \<leftarrow> (if page \<noteq> [] then Some (rc_local_sequence (last page))
                          else map_option (\<lambda>k. k - 1) (next_sequence j));
               Some (Commit (advance_progress w reached now j)
                 (if has_more then degraded_at (Some w) ''EVALUATION_BUDGET_EXHAUSTED'' None
                  else Ok (NotReady w reached))) }
      | Some (v, r) \<Rightarrow>
          (case v of
             VerdictInvalid i \<Rightarrow> Some (Rollback (Invalid i))
           | VerdictPending \<Rightarrow>
               do { j1 \<leftarrow> pin_pending w (rc_receipt_id r) now j;
                    Some (Commit (advance_progress w safe now j1)
                      (degraded_at (Some w) ''VERIFICATION_PENDING'' None)) }
           | VerdictBudget \<Rightarrow>
               Some (Commit (advance_progress w safe now j)
                 (degraded_at (Some w) ''EVALUATION_BUDGET_EXHAUSTED'' None))
           | VerdictMatch ob \<Rightarrow>
               do { (j1, m) \<leftarrow> reserve_match w r ob now j; Some (Commit j1 (Ok (Matched m))) }
           | VerdictSkip \<Rightarrow> None))"

text \<open>The part after the budget check.\<close>

definition scan_start :: "armed_signal \<Rightarrow> progress_row \<Rightarrow> int" where
  "scan_start durable progress =
     max (an_local_after_sequence (am_anchor durable)) (pg_scanned_through_sequence progress)"

definition evaluate_page ::
  "string \<Rightarrow> source_contract \<Rightarrow> armed_signal \<Rightarrow> datetime \<Rightarrow> evaluation_limits \<Rightarrow> journal
    \<Rightarrow> evaluation outcome tx" where
  "evaluate_page w contract durable now limits j =
     do { progress \<leftarrow> progress_of j w;
          let scanned = scan_start durable progress;
          n \<leftarrow> sql_int (lm_max_candidates limits + 1);
          let rows = take (nat n) (candidate_rows (am_spec durable) scanned j);
          let page = take (nat (lm_max_candidates limits)) rows;
          (safe, stop) \<leftarrow> scan_page contract durable limits page scanned;
          finish_page w page (int (length rows) > lm_max_candidates limits) safe stop now j }"

text \<open>The part after the reservation: the state of the wake, its expiry and the budget.\<close>

definition evaluate_open ::
  "string \<Rightarrow> source_contract \<Rightarrow> armed_signal \<Rightarrow> datetime \<Rightarrow> evaluation_limits \<Rightarrow> journal
    \<Rightarrow> evaluation outcome tx" where
  "evaluate_open w contract durable now limits j =
     (if \<not> life_pending (lifecycle_of j w)
      then Some (Rollback (degraded_at (Some w) ''ARM_NOT_PUBLISHED'' None))
      else case am_expires_at durable of
        Some expires \<Rightarrow>
          (if now \<ge> expires then Some (Rollback (Ok (Expired w expires)))
           else if lm_max_candidates limits \<le> 0
           then Some (Rollback (degraded_at (Some w) ''EVALUATION_BUDGET_EXHAUSTED'' None))
           else evaluate_page w contract durable now limits j)
      | None \<Rightarrow>
          (if lm_max_candidates limits \<le> 0
           then Some (Rollback (degraded_at (Some w) ''EVALUATION_BUDGET_EXHAUSTED'' None))
           else evaluate_page w contract durable now limits j))"

definition evaluate_tx ::
  "string \<Rightarrow> armed_signal \<Rightarrow> datetime \<Rightarrow> evaluation_limits \<Rightarrow> journal \<Rightarrow> evaluation outcome tx" where
  "evaluate_tx w armed now limits j =
     (case arm_of j w of
        None \<Rightarrow> Some (Rollback (invalid_as (Some w) ''INVALID_ARM'' ''armed signal is unavailable''))
      | Some row \<Rightarrow>
      do { durable \<leftarrow> armed_from_row row;
           if am_publication durable \<noteq> ''published'' \<or> am_arm_id durable \<noteq> am_arm_id armed
           then Some (Rollback (degraded_at (Some w) ''ARM_NOT_PUBLISHED'' None))
           else case instance_at j (rq_source (am_spec durable), rq_source_instance (am_spec durable)) of
             None \<Rightarrow> Some (Rollback (degraded_at (Some w) ''SOURCE_STATE_UNAVAILABLE'' None))
           | Some src \<Rightarrow>
               if fingerprint (in_contract_json src) \<noteq> in_contract_fingerprint src
               then Some (Rollback (degraded_at (Some w) ''SOURCE_STATE_UNAVAILABLE'' None))
               else do {
                 contract \<leftarrow> contract_from_json (in_contract_json src);
                 case validate_occurrence_anchor contract (am_spec durable) (am_anchor durable) of
                   Some i \<Rightarrow> Some (Rollback (Invalid i))
                 | None \<Rightarrow>
                     (case reservation_of j w of
                        Some reservation \<Rightarrow>
                          do { m \<leftarrow> matched_from_json (rv_evidence_json reservation);
                               j1 \<leftarrow> ensure_match_outbox m j;
                               Some (Commit j1 (Ok (Matched m))) }
                      | None \<Rightarrow> evaluate_open w contract durable now limits j) } })"

definition evaluate ::
  "env \<Rightarrow> string \<Rightarrow> armed_signal \<Rightarrow> datetime \<Rightarrow> evaluation_limits \<Rightarrow> journal
    \<Rightarrow> evaluation outcome \<times> journal" where
  "evaluate e w armed now limits j =
     (if w \<noteq> am_wake_id armed
      then (invalid_as (Some w) ''INVALID_ARM'' ''armed signal identity does not match'', j)
      else run_tx (en_fault e 0) (degraded_at (Some w) ''STORE_UNAVAILABLE'' None)
             (evaluate_tx w armed now limits) j)"

section \<open>The updates keep the schema\<close>

interpretation advancing: progress_update
  "\<lambda>r. r\<lparr>pg_scanned_through_sequence := max (pg_scanned_through_sequence r) n,
         pg_revision := pg_revision r + 1, pg_updated_at := at\<rparr>" for n at
  by unfold_locales (auto simp: le_max_iff_disj)

interpretation life_firing: lifecycle_update "firing_life at" for at
  by unfold_locales (simp_all add: firing_life_def)

lemma advance_progress_ok [step_inv]: "schema_ok j \<Longrightarrow> schema_ok (advance_progress w n now j)"
  unfolding advance_progress_def by (rule advancing.keeps_schema)

lemma ensure_match_outbox_ok:
  "ensure_match_outbox m j = Some j' \<Longrightarrow> schema_ok j \<Longrightarrow> schema_ok j'"
  by (auto simp: ensure_match_outbox_def Let_def split: if_splits Option.bind_splits
      intro: life_firing.keeps_schema insert_outbox_ok)

lemma reserve_match_steps:
  assumes "reserve_match w r ob now j = Some (j', m')"
  shows "\<exists>m j1 j2 winner.
    m = im_matched w ob \<lparr>rr_receipt_id = rc_receipt_id r,
          rr_local_sequence = rc_local_sequence r, rr_duplicate = False\<rparr> now
    \<and> insert_reservation \<lparr>rv_wake_id = w, rv_receipt_id = Some (rc_receipt_id r),
        rv_match_token = mt_match_token m, rv_matched_at = format_time now,
        rv_evidence_json = canonical_json (matched_payload m)\<rparr> j = Some j1
    \<and> insert_pin (match_pin w (rc_receipt_id r) (format_time now)) j1 = Some j2
    \<and> reservation_of j2 w = Some winner
    \<and> matched_from_json (rv_evidence_json winner) = Some m'
    \<and> ensure_match_outbox m' j2 = Some j'"
  using assms by (auto simp: reserve_match_def Let_def split: Option.bind_splits)

lemma reserve_match_ok: "reserve_match w r ob now j = Some (j', m') \<Longrightarrow> schema_ok j \<Longrightarrow> schema_ok j'"
  by (drule reserve_match_steps) (blast intro: ensure_match_outbox_ok insert_pin_ok insert_reservation_ok)

lemma finish_page_ok:
  "finish_page w page has_more safe stop now j = Some (Commit j' a) \<Longrightarrow> schema_ok j \<Longrightarrow> schema_ok j'"
  by (auto simp: finish_page_def pin_pending_def split: option.splits prod.splits verdict.splits Option.bind_splits if_splits
      dest: reserve_match_ok insert_pin_ok intro: advance_progress_ok)

lemma evaluate_page_commit:
  assumes "evaluate_page w contract durable now limits j = Some e"
  shows "\<exists>progress rows page safe stop.
    progress_of j w = Some progress
    \<and> rows = take (nat (lm_max_candidates limits + 1)) (candidate_rows (am_spec durable) (scan_start durable progress) j)
    \<and> page = take (nat (lm_max_candidates limits)) rows
    \<and> scan_page contract durable limits page (scan_start durable progress) = Some (safe, stop)
    \<and> finish_page w page (int (length rows) > lm_max_candidates limits) safe stop now j = Some e"
  using assms
  by (auto simp: evaluate_page_def Let_def sql_int_def split: Option.bind_splits prod.splits if_splits)

lemma evaluate_page_ok:
  "evaluate_page w contract durable now limits j = Some (Commit j' a) \<Longrightarrow> schema_ok j \<Longrightarrow> schema_ok j'"
  by (drule evaluate_page_commit) (blast intro: finish_page_ok)

text \<open>What a transaction that commits has found: the arm, its contract, and either a reservation or a page.\<close>

definition evaluating :: "string \<Rightarrow> journal \<Rightarrow> arm_row \<Rightarrow> armed_signal \<Rightarrow> source_contract \<Rightarrow> bool" where
  "evaluating w j row durable contract \<longleftrightarrow>
     arm_of j w = Some row \<and> armed_from_row row = Some durable \<and> am_publication durable = ''published''
     \<and> (\<exists>src. instance_at j (rq_source (am_spec durable), rq_source_instance (am_spec durable)) = Some src
          \<and> fingerprint (in_contract_json src) = in_contract_fingerprint src
          \<and> contract_from_json (in_contract_json src) = Some contract)
     \<and> validate_occurrence_anchor contract (am_spec durable) (am_anchor durable) = None"

lemma evaluate_tx_commit:
  assumes "evaluate_tx w armed now limits j = Some (Commit j' a)"
  shows "\<exists>row durable contract. evaluating w j row durable contract \<and> am_arm_id durable = am_arm_id armed
    \<and> (case reservation_of j w of
         Some reservation \<Rightarrow> \<exists>m. matched_from_json (rv_evidence_json reservation) = Some m
           \<and> ensure_match_outbox m j = Some j' \<and> a = Ok (Matched m)
       | None \<Rightarrow> life_pending (lifecycle_of j w)
           \<and> (\<forall>expires. am_expires_at durable = Some expires \<longrightarrow> now < expires)
           \<and> 0 < lm_max_candidates limits
           \<and> evaluate_page w contract durable now limits j = Some (Commit j' a))"
  using assms
  by (auto simp: evaluate_tx_def evaluating_def evaluate_open_def not_le split: option.splits Option.bind_splits if_splits)

lemma evaluate_tx_ok:
  "evaluate_tx w armed now limits j = Some (Commit j' a) \<Longrightarrow> schema_ok j \<Longrightarrow> schema_ok j'"
  by (auto dest!: evaluate_tx_commit split: option.splits intro: evaluate_page_ok ensure_match_outbox_ok)

interpretation evaluated: safe_transaction schema_ok "evaluate_tx w armed now limits" for w armed now limits
  by unfold_locales (rule evaluate_tx_ok)

section \<open>What the request asks of an observation\<close>

text \<open>
  The specification of a match, without the limits and without the order of the tests: the observation
  comes after the anchor where the source orders its occurrences, belongs to the baseline, satisfies every
  clause, and is verified if the request says so.
\<close>

definition after_anchor :: "source_contract \<Rightarrow> source_anchor \<Rightarrow> observation \<Rightarrow> bool" where
  "after_anchor contract anchor ob =
     (case ct_occurrence_order_attribute contract of
        None \<Rightarrow> True
      | Some key \<Rightarrow>
          (case (dict_get (ob_attributes ob) key, dict_get (an_baseline anchor) key) of
             (Some (SInt v), Some b) \<Rightarrow> (case scalar_num b of None \<Rightarrow> False | Some n \<Rightarrow> n < v)
           | _ \<Rightarrow> False))"

definition wanted :: "source_contract \<Rightarrow> armed_signal \<Rightarrow> observation \<Rightarrow> bool" where
  "wanted contract armed ob \<longleftrightarrow>
     after_anchor contract (am_anchor armed) ob \<and> baseline_matches armed ob
     \<and> (\<forall>clause\<in>set (rq_where (am_spec armed)). matches_clause ob clause)"

definition satisfies :: "source_contract \<Rightarrow> armed_signal \<Rightarrow> observation \<Rightarrow> bool" where
  "satisfies contract armed ob \<longleftrightarrow>
     wanted contract armed ob
     \<and> (rq_verification (am_spec armed) = ''required'' \<longrightarrow> vf_state (ob_verification ob) = ''verified'')"

text \<open>A request with \<open>required\<close> verification also stops at a wanted observation that may still be verified.\<close>

definition row_satisfies :: "source_contract \<Rightarrow> armed_signal \<Rightarrow> receipt_row \<Rightarrow> bool" where
  "row_satisfies contract armed r \<longleftrightarrow>
     (\<exists>ob. observation_from_json (rc_observation_json r) = Some ob \<and> satisfies contract armed ob)"

lemma judge_observation_match:
  assumes "judge_observation contract armed limits ob = Some (VerdictMatch ob')"
  shows "ob' = ob \<and> satisfies contract armed ob
    \<and> attribute_bytes (ob_attributes ob) \<le> lm_max_attribute_bytes limits
    \<and> utf8_len (evidence_text (ob_evidence_ref ob)) \<le> lm_max_evidence_ref_bytes limits"
  using assms
  by (auto simp: judge_observation_def satisfies_def wanted_def after_anchor_def occurrence_is_after_anchor_def
      matches_def list_all_iff split: Option.bind_splits sum.splits if_splits option.splits scalar.splits)

lemma judge_observation_skip:
  "judge_observation contract armed limits ob = Some VerdictSkip \<Longrightarrow> \<not> satisfies contract armed ob"
  by (auto simp: judge_observation_def satisfies_def wanted_def after_anchor_def occurrence_is_after_anchor_def
      matches_def list_all_iff split: Option.bind_splits sum.splits if_splits option.splits scalar.splits)

lemma judge_row_skip:
  "judge_row contract armed limits r = Some VerdictSkip \<Longrightarrow> \<not> row_satisfies contract armed r"
  by (auto simp: judge_row_def row_satisfies_def dest: judge_observation_skip split: Option.bind_splits)

lemma judge_row_match:
  "judge_row contract armed limits r = Some (VerdictMatch ob) \<Longrightarrow>
     observation_from_json (rc_observation_json r) = Some ob \<and> satisfies contract armed ob"
  by (auto simp: judge_row_def dest: judge_observation_match split: Option.bind_splits)

text \<open>
  What a scan goes over: a readable receipt, comparable with the anchor, that is not wanted, or whose verification is
  required and was rejected.  A wanted receipt that may still be verified is none of these: the scan waits for it.
\<close>

definition comparable :: "source_contract \<Rightarrow> source_anchor \<Rightarrow> observation \<Rightarrow> bool" where
  "comparable contract anchor ob \<longleftrightarrow>
     (\<forall>key. ct_occurrence_order_attribute contract = Some key \<longrightarrow>
       (\<exists>v b n. dict_get (ob_attributes ob) key = Some (SInt v) \<and> dict_get (an_baseline anchor) key = Some b \<and> scalar_num b = Some n))"

definition passed_over :: "source_contract \<Rightarrow> armed_signal \<Rightarrow> receipt_row \<Rightarrow> bool" where
  "passed_over contract armed r \<longleftrightarrow>
     (\<exists>ob. observation_from_json (rc_observation_json r) = Some ob \<and> comparable contract (am_anchor armed) ob
       \<and> (\<not> wanted contract armed ob
          \<or> rq_verification (am_spec armed) = ''required'' \<and> vf_state (ob_verification ob) \<notin> {''verified'', ''pending''}))"

definition awaits_verification :: "source_contract \<Rightarrow> armed_signal \<Rightarrow> receipt_row \<Rightarrow> bool" where
  "awaits_verification contract armed r \<longleftrightarrow>
     (\<exists>ob. observation_from_json (rc_observation_json r) = Some ob \<and> wanted contract armed ob
       \<and> rq_verification (am_spec armed) = ''required'' \<and> vf_state (ob_verification ob) = ''pending'')"

definition within_limits :: "evaluation_limits \<Rightarrow> observation \<Rightarrow> bool" where
  "within_limits limits ob \<longleftrightarrow>
     attribute_bytes (ob_attributes ob) \<le> lm_max_attribute_bytes limits
     \<and> utf8_len (evidence_text (ob_evidence_ref ob)) \<le> lm_max_evidence_ref_bytes limits"

lemma after_of_comparable:
  "comparable contract anchor ob \<Longrightarrow> occurrence_is_after_anchor ob contract anchor = Some (Inr (after_anchor contract anchor ob))"
  "after_anchor contract anchor ob \<Longrightarrow> comparable contract anchor ob"
  by (auto simp: comparable_def after_anchor_def occurrence_is_after_anchor_def split: option.splits scalar.splits)

lemma wanted_cases:
  "wanted contract armed ob \<longleftrightarrow> after_anchor contract (am_anchor armed) ob \<and> baseline_matches armed ob \<and> matches ob (rq_where (am_spec armed))"
  by (simp add: wanted_def matches_def list_all_iff)

lemma passed_over_skip:
  assumes "passed_over contract armed r"
  shows "judge_row contract armed limits r = Some VerdictSkip"
proof -
  obtain ob where ob: "observation_from_json (rc_observation_json r) = Some ob" "comparable contract (am_anchor armed) ob"
    "\<not> wanted contract armed ob \<or> rq_verification (am_spec armed) = ''required'' \<and> vf_state (ob_verification ob) \<notin> {''verified'', ''pending''}"
    using assms unfolding passed_over_def by blast
  then show ?thesis
    by (auto simp: judge_row_def judge_observation_def after_of_comparable(1) wanted_cases)
qed

lemma awaits_verification_pending:
  assumes "awaits_verification contract armed r"
  shows "judge_row contract armed limits r = Some VerdictPending"
proof -
  obtain ob where ob: "observation_from_json (rc_observation_json r) = Some ob" "wanted contract armed ob"
    "rq_verification (am_spec armed) = ''required''" "vf_state (ob_verification ob) = ''pending''"
    using assms unfolding awaits_verification_def by blast
  then have "occurrence_is_after_anchor ob contract (am_anchor armed) = Some (Inr True)"
    using after_of_comparable by (simp add: wanted_cases)
  then show ?thesis using ob by (simp add: judge_row_def judge_observation_def wanted_cases)
qed

lemma satisfying_match:
  assumes "observation_from_json (rc_observation_json r) = Some ob" "satisfies contract armed ob" "within_limits limits ob"
  shows "judge_row contract armed limits r = Some (VerdictMatch ob)"
proof -
  have "occurrence_is_after_anchor ob contract (am_anchor armed) = Some (Inr True)"
    using assms(2) after_of_comparable by (simp add: satisfies_def wanted_cases)
  then show ?thesis
    using assms by (simp add: judge_row_def judge_observation_def satisfies_def wanted_cases within_limits_def)
qed

section \<open>What the scan of a page finds\<close>

definition scanned_to :: "int \<Rightarrow> receipt_row list \<Rightarrow> int" where
  "scanned_to safe rows = (if rows = [] then safe else rc_local_sequence (last rows))"

lemma scanned_to_Cons: "scanned_to safe (r # rows) = scanned_to (rc_local_sequence r) rows"
  by (simp add: scanned_to_def)

lemma scanned_to_Nil [simp]: "scanned_to safe [] = safe"
  by (simp add: scanned_to_def)

lemma scan_page_all:
  "scan_page contract armed limits rows safe = Some (reached, None) \<Longrightarrow>
     (\<forall>r\<in>set rows. judge_row contract armed limits r = Some VerdictSkip) \<and> reached = scanned_to safe rows"
  by (induction rows arbitrary: safe)
    (auto simp: scanned_to_Cons split: Option.bind_splits verdict.splits)

lemma scan_page_stop:
  "scan_page contract armed limits rows safe = Some (reached, Some (v, r)) \<Longrightarrow>
     v \<noteq> VerdictSkip \<and> judge_row contract armed limits r = Some v
     \<and> (\<exists>before after. rows = before @ r # after
          \<and> (\<forall>x\<in>set before. judge_row contract armed limits x = Some VerdictSkip)
          \<and> reached = scanned_to safe before)"
proof (induction rows arbitrary: safe)
  case Nil
  then show ?case by simp
next
  case (Cons x rows)
  then obtain u where u: "judge_row contract armed limits x = Some u" by (auto split: Option.bind_splits)
  show ?case
  proof (cases "u = VerdictSkip")
    case True
    with Cons.prems u have rest: "scan_page contract armed limits rows (rc_local_sequence x) = Some (reached, Some (v, r))"
      by simp
    obtain before after where "rows = before @ r # after"
      "\<forall>x\<in>set before. judge_row contract armed limits x = Some VerdictSkip"
      "reached = scanned_to (rc_local_sequence x) before"
      using Cons.IH [OF rest] by blast
    then show ?thesis
      using Cons.IH [OF rest] u True
      by (intro conjI exI [of _ "x # before"] exI [of _ after]) (auto simp: scanned_to_Cons)
  next
    case False
    with Cons.prems u have "v = u \<and> r = x \<and> reached = safe" by (cases u) auto
    then show ?thesis using u False by (intro conjI exI [of _ "[]"] exI [of _ rows]) simp_all
  qed
qed

lemma candidate_rows_set:
  "set (candidate_rows spec scanned j) =
     {r \<in> set (j_receipts j). (rc_source r, rc_source_instance r) = (rq_source spec, rq_source_instance spec)
        \<and> rc_kind r = rq_kind spec \<and> rc_subject r = rq_subject spec \<and> scanned < rc_local_sequence r}"
  by (auto simp: candidate_rows_def)

lemma candidate_rows_sorted: "sorted (map rc_local_sequence (candidate_rows spec scanned j))"
  by (simp add: candidate_rows_def)

text \<open>The page a scan reads, and that it starts with what any prefix of the candidates starts with.\<close>

lemma page_prefix:
  "take (nat n) (take (nat (n + 1)) rows) = take (nat n) rows"
  by (simp add: min_def nat_le_iff)

section \<open>What a reservation leaves\<close>

definition reservation_for :: "string \<Rightarrow> receipt_row \<Rightarrow> observation \<Rightarrow> datetime \<Rightarrow> matched" where
  "reservation_for w r ob now =
     im_matched w ob \<lparr>rr_receipt_id = rc_receipt_id r, rr_local_sequence = rc_local_sequence r,
                      rr_duplicate = False\<rparr> now"

definition reserved_row :: "string \<Rightarrow> receipt_row \<Rightarrow> observation \<Rightarrow> datetime \<Rightarrow> reservation_row" where
  "reserved_row w r ob now =
     \<lparr>rv_wake_id = w, rv_receipt_id = Some (rc_receipt_id r),
      rv_match_token = mt_match_token (reservation_for w r ob now), rv_matched_at = format_time now,
      rv_evidence_json = canonical_json (matched_payload (reservation_for w r ob now))\<rparr>"

lemma insert_pin_frame: "insert_pin p j = Some j' \<Longrightarrow> \<exists>pins. j' = j\<lparr>j_pins := pins\<rparr>"
  by (cases "j' = j") (auto simp: insert_pin_def split: if_splits option.splits intro: exI [of _ "j_pins j"])

lemma ensure_match_outbox_frame:
  assumes "ensure_match_outbox m j = Some j'"
  shows "(\<exists>out life. j' = j\<lparr>j_outbox := out, j_lifecycle := life\<rparr>) \<and> outbox_at j' (mt_wake_id m) 2 \<noteq> None"
proof (cases "outbox_at j (mt_wake_id m) 2 = None")
  case True
  then obtain t dg j1 where
    j1: "insert_outbox False (put_row (mt_wake_id m) 2 ''firing'' (Some ''pending'') t dg
          (format_time (mt_matched_at m))) j = Some j1"
    and j': "j' = update_lifecycle (\<lambda>r. lc_wake_id r = mt_wake_id m \<and> lc_desired_status r = ''pending'')
          (firing_life (format_time (mt_matched_at m))) j1"
    using assms by (auto simp: ensure_match_outbox_def Let_def split: Option.bind_splits)
  have "j1 = j\<lparr>j_outbox := j_outbox j @ [put_row (mt_wake_id m) 2 ''firing'' (Some ''pending'') t dg
          (format_time (mt_matched_at m))]\<rparr>"
    using j1 by (auto simp: insert_outbox_def split: if_splits)
  then have "\<exists>out life. j' = j\<lparr>j_outbox := out, j_lifecycle := life\<rparr>"
    "outbox_at j' (mt_wake_id m) 2 \<noteq> None"
    by (auto simp: j' update_lifecycle_def outbox_at_def find_append ox_key_def put_row_def split: option.splits)
  then show ?thesis by simp
next
  case False
  then have "j' = j\<lparr>j_outbox := j_outbox j, j_lifecycle := j_lifecycle j\<rparr>"
    using assms by (simp add: ensure_match_outbox_def Let_def)
  with False show ?thesis by (metis journal.surjective journal.update_convs(9,10))
qed

lemma reserve_match_new:
  assumes "reserve_match w r ob now j = Some (j', m)" and none: "reservation_of j w = None"
    and d: "distinct (map fst (ob_attributes ob))"
  shows "m = sort_matched (reservation_for w r ob now)
    \<and> reservation_of j' w = Some (reserved_row w r ob now)
    \<and> (\<exists>res pins out life. j' = j\<lparr>j_reservations := res, j_pins := pins, j_outbox := out, j_lifecycle := life\<rparr>)
    \<and> outbox_at j' (mt_wake_id m) 2 \<noteq> None"
proof -
  obtain j1 j2 winner where j1: "insert_reservation (reserved_row w r ob now) j = Some j1"
    and j2: "insert_pin (match_pin w (rc_receipt_id r) (format_time now)) j1 = Some j2"
    and win: "reservation_of j2 w = Some winner" "matched_from_json (rv_evidence_json winner) = Some m"
    and out: "ensure_match_outbox m j2 = Some j'"
    using reserve_match_steps [OF assms(1)] by (auto simp: reserved_row_def reservation_for_def)
  have e1: "j1 = j\<lparr>j_reservations := j_reservations j @ [reserved_row w r ob now]\<rparr>"
    using j1 none by (auto simp: insert_reservation_def reserved_row_def split: if_splits option.splits)
  obtain pins where e2: "j2 = j1\<lparr>j_pins := pins\<rparr>" using insert_pin_frame [OF j2] by blast
  obtain o' l' where e3: "j' = j2\<lparr>j_outbox := o', j_lifecycle := l'\<rparr>" and two: "outbox_at j' (mt_wake_id m) 2 \<noteq> None"
    using ensure_match_outbox_frame [OF out] by blast
  have found: "reservation_of j2 w = Some (reserved_row w r ob now)"
    using none by (simp add: e1 e2 reservation_of_def find_append) (simp add: reserved_row_def)
  have "m = sort_matched (reservation_for w r ob now)"
  proof -
    have "distinct (map fst (ev_attributes (mt_receipt (reservation_for w r ob now))))"
      using d by (simp add: reservation_for_def im_matched_def)
    moreover have "winner = reserved_row w r ob now" using win(1) found by simp
    ultimately show ?thesis
      using win(2) by (simp add: reserved_row_def matched_from_json_payload)
  qed
  moreover have "reservation_of j' w = Some (reserved_row w r ob now)"
    using found by (simp add: e3 reservation_of_def)
  moreover have "j' = j\<lparr>j_reservations := j_reservations j @ [reserved_row w r ob now], j_pins := pins,
      j_outbox := o', j_lifecycle := l'\<rparr>"
    by (simp add: e1 e2 e3)
  ultimately show ?thesis using two by blast
qed

section \<open>What an evaluation that commits has done\<close>

lemma evaluating_frame:
  "j_arms j' = j_arms j \<Longrightarrow> j_instances j' = j_instances j \<Longrightarrow> evaluating w j' = evaluating w j"
  by (simp add: evaluating_def fun_eq_iff arm_of_def instance_at_def)

lemma evaluate_Ok_tx:
  assumes "evaluate e w armed now limits j = (a, j')" and "j' \<noteq> j"
  shows "\<exists>a'. evaluate_tx w armed now limits j = Some (Commit j' a')
    \<and> (en_fault e 0 = NoFault \<and> a = a' \<or> en_fault e 0 = FaultAfter)"
  using assms by (auto simp: evaluate_def split: if_splits dest!: run_tx_cases)

text \<open>A match is always committed.\<close>

lemma finish_page_no_rollback: "finish_page w page more' reached stop now j \<noteq> Some (Rollback (Ok a))"
  by (auto simp: finish_page_def split: option.splits Option.bind_splits prod.splits verdict.splits)

lemma evaluate_page_no_rollback: "evaluate_page w contract durable now limits j \<noteq> Some (Rollback (Ok a))"
  by (auto dest: evaluate_page_commit simp: finish_page_no_rollback)

lemma evaluate_open_no_rollback:
  "evaluate_open w contract durable now limits j \<noteq> Some (Rollback (Ok (Matched m)))"
  by (simp add: evaluate_open_def evaluate_page_no_rollback split: option.splits)

lemma evaluate_tx_no_rollback: "evaluate_tx w armed now limits j \<noteq> Some (Rollback (Ok (Matched m)))"
  by (simp add: evaluate_tx_def evaluate_open_no_rollback split: option.splits Option.bind_splits if_splits)

lemma evaluate_matched_tx:
  assumes "evaluate e w armed now limits j = (Ok (Matched m), j')"
  shows "evaluate_tx w armed now limits j = Some (Commit j' (Ok (Matched m)))"
  using assms
  by (auto simp: evaluate_def evaluate_tx_no_rollback split: if_splits dest!: run_tx_cases)

lemma evaluate_page_no_expiry: "evaluate_page w contract durable now limits j \<noteq> Some (Commit j' (Ok (Expired w' t)))"
  by (auto dest!: evaluate_page_commit simp: finish_page_def
      split: option.splits Option.bind_splits prod.splits verdict.splits if_splits)

text \<open>The page of an evaluation that found nothing reserved.\<close>

lemma evaluate_page_matched:
  assumes "evaluate_page w contract durable now limits j = Some (Commit j' (Ok (Matched m)))"
  shows "\<exists>progress before r after ob. progress_of j w = Some progress
    \<and> candidate_rows (am_spec durable) (scan_start durable progress) j = before @ r # after
    \<and> (\<forall>x\<in>set before. \<not> row_satisfies contract durable x)
    \<and> observation_from_json (rc_observation_json r) = Some ob \<and> satisfies contract durable ob
    \<and> reserve_match w r ob now j = Some (j', m)"
proof -
  obtain progress rows page reached stop where p: "progress_of j w = Some progress"
    and rows: "rows = take (nat (lm_max_candidates limits + 1))
          (candidate_rows (am_spec durable) (scan_start durable progress) j)"
    and page: "page = take (nat (lm_max_candidates limits)) rows"
    and scan: "scan_page contract durable limits page (scan_start durable progress) = Some (reached, stop)"
    and fin: "finish_page w page (int (length rows) > lm_max_candidates limits) reached stop now j
          = Some (Commit j' (Ok (Matched m)))"
    using evaluate_page_commit [OF assms] by blast
  obtain r ob where stop: "stop = Some (VerdictMatch ob, r)" and res: "reserve_match w r ob now j = Some (j', m)"
    using fin by (auto simp: finish_page_def split: option.splits prod.splits verdict.splits Option.bind_splits if_splits)
  obtain before after where parts: "page = before @ r # after"
    and skipped: "\<forall>x\<in>set before. judge_row contract durable limits x = Some VerdictSkip"
    and judged: "judge_row contract durable limits r = Some (VerdictMatch ob)"
    using scan_page_stop [OF scan [unfolded stop]] by blast
  have "candidate_rows (am_spec durable) (scan_start durable progress) j
      = before @ r # after @ drop (nat (lm_max_candidates limits))
          (candidate_rows (am_spec durable) (scan_start durable progress) j)"
    using parts append_take_drop_id [of "nat (lm_max_candidates limits)"
        "candidate_rows (am_spec durable) (scan_start durable progress) j"]
    by (simp add: page rows page_prefix)
  then show ?thesis
    using p res skipped judge_row_skip judge_row_match [OF judged] by blast
qed

section \<open>When a match can be reserved\<close>

lemma jget_dict_set [simp]: "jget (dict_set k v d) k' = (if k' = k then v else jget d k')"
  by (simp add: jget_def dict_set_get)

lemma jget_sorted:
  "distinct (map fst d) \<Longrightarrow> \<exists>d'. sort_json (JObj d) = JObj d' \<and> (\<forall>k v. dict_get d k = Some v \<longrightarrow> jget d' k = sort_json v)"
  using jindex_sorted [of d] by (auto simp: sort_json.simps(7) jget_def)

lemma firing_payload_total: "jget p ''events'' = JArr es \<Longrightarrow> \<exists>p'. firing_payload m p = Some p'"
  by (simp add: firing_payload_def Let_def events_of_def)

text \<open>The pending record of a wake is in the outbox, can be read, and nothing of the match is there yet.\<close>

definition record_pending :: "string \<Rightarrow> journal \<Rightarrow> bool" where
  "record_pending w j \<longleftrightarrow>
     outbox_at j w 2 = None \<and> arm_of j w \<noteq> None
     \<and> (\<exists>out p es. outbox_at j w 1 = Some out \<and> loads (sql_str (ox_payload_json out)) = Some (JObj p)
          \<and> jget p ''events'' = JArr es)"

lemma ensure_match_outbox_total:
  assumes "record_pending (mt_wake_id m) j"
  shows "\<exists>j'. ensure_match_outbox m j = Some j'"
proof -
  obtain out p es where rows: "outbox_at j (mt_wake_id m) 1 = Some out"
    "loads (sql_str (ox_payload_json out)) = Some (JObj p)" "jget p ''events'' = JArr es"
    and absent: "outbox_at j (mt_wake_id m) 2 = None" "arm_of j (mt_wake_id m) \<noteq> None"
    using assms unfolding record_pending_def by blast
  obtain p' where p': "firing_payload m p = Some p'" using firing_payload_total [OF rows(3)] by blast
  have "insert_outbox False (put_row (mt_wake_id m) 2 ''firing'' (Some ''pending'') t dg at) j
      = Some (j\<lparr>j_outbox := j_outbox j @ [put_row (mt_wake_id m) 2 ''firing'' (Some ''pending'') t dg at]\<rparr>)" for t dg at
    using absent by (simp add: insert_outbox_def put_row_def outbox_row_ok_def)
  then show ?thesis using rows p' absent by (simp add: ensure_match_outbox_def Let_def)
qed

definition token_fresh :: "string \<Rightarrow> string \<Rightarrow> journal \<Rightarrow> bool" where
  "token_fresh w rid j \<longleftrightarrow> find (\<lambda>x. rv_match_token x = ''match:'' @ w @ '':'' @ rid) (j_reservations j) = None"

lemma receipt_exists_member: "r \<in> set (j_receipts j) \<Longrightarrow> receipt_exists j (rc_receipt_id r)"
  by (auto simp: receipt_exists_iff receipt_ids_def)

text \<open>Then reserving a receipt of the journal succeeds.\<close>

lemma reserve_match_total:
  assumes pending: "record_pending w j" and none: "reservation_of j w = None"
    and r: "r \<in> set (j_receipts j)" and fresh: "token_fresh w (rc_receipt_id r) j"
    and d: "distinct (map fst (ob_attributes ob))"
  shows "\<exists>j' m. reserve_match w r ob now j = Some (j', m)"
proof -
  let ?m = "reservation_for w r ob now"
  let ?j1 = "j\<lparr>j_reservations := j_reservations j @ [reserved_row w r ob now]\<rparr>"
  have one: "insert_reservation (reserved_row w r ob now) j = Some ?j1"
    using pending none r fresh
    by (simp add: insert_reservation_def reserved_row_def reservation_for_def im_matched_def record_pending_def
        token_fresh_def receipt_exists_member)
  obtain j2 where two: "insert_pin (match_pin w (rc_receipt_id r) (format_time now)) ?j1 = Some j2"
  proof -
    have "arm_of ?j1 w \<noteq> None" "receipt_exists ?j1 (rc_receipt_id r)"
      using pending receipt_exists_member [OF r] by (simp_all add: record_pending_def arm_of_def receipt_exists_def)
    then have "insert_pin (match_pin w (rc_receipt_id r) (format_time now)) ?j1 \<noteq> None"
      by (auto simp: insert_pin_def match_pin_def pin_reasons_def)
    then show thesis using that by blast
  qed
  obtain pins where j2: "j2 = ?j1\<lparr>j_pins := pins\<rparr>" using insert_pin_frame [OF two] by blast
  have found: "reservation_of j2 w = Some (reserved_row w r ob now)"
    using none by (simp add: j2 reservation_of_def find_append) (simp add: reserved_row_def)
  have "distinct (map fst (ev_attributes (mt_receipt ?m)))" using d by (simp add: reservation_for_def im_matched_def)
  then have read: "matched_from_json (rv_evidence_json (reserved_row w r ob now)) = Some (sort_matched ?m)"
    by (simp add: reserved_row_def matched_from_json_payload)
  have "record_pending (mt_wake_id (sort_matched ?m)) j2"
    using pending by (simp add: record_pending_def j2 lookup_defs sort_matched_def reservation_for_def im_matched_def)
  then obtain j3 where "ensure_match_outbox (sort_matched ?m) j2 = Some j3"
    using ensure_match_outbox_total by blast
  then show ?thesis
    using one two found read
    by (simp add: reserve_match_def Let_def reserved_row_def reservation_for_def)
qed

section \<open>Going on behind a page\<close>

lemma candidate_rows_later:
  assumes "scanned \<le> n"
  shows "candidate_rows spec n j = filter (\<lambda>r. n < rc_local_sequence r) (candidate_rows spec scanned j)"
  using assms
  by (auto simp: candidate_rows_def filter_sort intro!: arg_cong [where f = "sort_key rc_local_sequence"] filter_cong)

lemma candidate_rows_distinct:
  "schema_ok j \<Longrightarrow> distinct (map rc_local_sequence (candidate_rows spec scanned j))"
  by (auto simp: candidate_rows_def distinct_map schema_ok_def receipts_ok_def intro: inj_on_subset)

lemma candidate_rows_strict:
  "schema_ok j \<Longrightarrow> sorted_wrt (<) (map rc_local_sequence (candidate_rows spec scanned j))"
  using candidate_rows_distinct [of j spec scanned] candidate_rows_sorted [of spec scanned j]
  by (simp add: strict_sorted_iff)

text \<open>The candidates after the last one of a page are the ones behind the page.\<close>

lemma candidate_rows_behind:
  assumes ok: "schema_ok j" and split: "candidate_rows spec scanned j = page @ rest" and page: "page \<noteq> []"
  shows "candidate_rows spec (rc_local_sequence (last page)) j = rest"
proof -
  have strict: "sorted_wrt (<) (map rc_local_sequence (page @ rest))"
    using candidate_rows_strict [OF ok, of spec scanned] split by simp
  obtain front where front: "page = front @ [last page]" using page by (metis append_butlast_last_id)
  have upto: "\<forall>r\<in>set page. rc_local_sequence r \<le> rc_local_sequence (last page)"
    using strict by (subst (asm) front, subst front) (auto simp: sorted_wrt_append)
  have behind: "\<forall>r\<in>set rest. rc_local_sequence (last page) < rc_local_sequence r"
    using strict page by (auto simp: sorted_wrt_append)
  have "last page \<in> set (candidate_rows spec scanned j)" using page split by simp
  then have "scanned \<le> rc_local_sequence (last page)" by (auto simp: candidate_rows_set)
  then have "candidate_rows spec (rc_local_sequence (last page)) j
      = filter (\<lambda>r. rc_local_sequence (last page) < rc_local_sequence r) (page @ rest)"
    using candidate_rows_later split by metis
  moreover have "filter (\<lambda>r. rc_local_sequence (last page) < rc_local_sequence r) page = []"
    using upto by (auto simp: filter_empty_conv not_less)
  moreover have "filter (\<lambda>r. rc_local_sequence (last page) < rc_local_sequence r) rest = rest"
    using behind by (simp add: filter_id_conv)
  ultimately show ?thesis by simp
qed

lemma advance_progress_frame:
  "j_arms (advance_progress w n now j) = j_arms j" "j_instances (advance_progress w n now j) = j_instances j"
  "j_receipts (advance_progress w n now j) = j_receipts j"
  "j_reservations (advance_progress w n now j) = j_reservations j"
  "j_pins (advance_progress w n now j) = j_pins j" "j_outbox (advance_progress w n now j) = j_outbox j"
  "j_lifecycle (advance_progress w n now j) = j_lifecycle j" "j_meta (advance_progress w n now j) = j_meta j"
  by (simp_all add: advance_progress_def update_progress_def)

lemma progress_advanced:
  "progress_of j w = Some p \<Longrightarrow> progress_of (advance_progress w n now j) w =
     Some (p\<lparr>pg_scanned_through_sequence := max (pg_scanned_through_sequence p) n,
             pg_revision := pg_revision p + 1, pg_updated_at := format_time now\<rparr>)"
  using find_SomeD [of "\<lambda>r. pg_wake_id r = w" "j_progress j" p]
  by (simp add: advance_progress_def advancing.progress_found) (simp add: progress_of_def)

section \<open>A wake that is watching\<close>

text \<open>All that an evaluation asks before it reads receipts.\<close>

definition watching :: "string \<Rightarrow> armed_signal \<Rightarrow> journal \<Rightarrow> armed_signal \<Rightarrow> source_contract \<Rightarrow> progress_row \<Rightarrow> bool" where
  "watching w armed j durable contract progress \<longleftrightarrow>
     am_wake_id armed = w \<and> (\<exists>row. evaluating w j row durable contract) \<and> am_arm_id durable = am_arm_id armed
     \<and> reservation_of j w = None \<and> life_pending (lifecycle_of j w) \<and> progress_of j w = Some progress"

definition due_before :: "armed_signal \<Rightarrow> datetime \<Rightarrow> bool" where
  "due_before durable now \<longleftrightarrow> (\<forall>expires. am_expires_at durable = Some expires \<longrightarrow> now < expires)"

lemma watchingD:
  assumes "watching w armed j durable contract progress"
  shows "reservation_of j w = None" "progress_of j w = Some progress"
  using assms unfolding watching_def by blast+

lemma evaluate_tx_open:
  assumes "watching w armed j durable contract progress" and "due_before durable now"
    and "0 < lm_max_candidates limits"
  shows "evaluate_tx w armed now limits j = evaluate_page w contract durable now limits j"
proof -
  have "\<not> expires \<le> now" if "am_expires_at durable = Some expires" for expires
    using assms(2) that by (auto simp: due_before_def not_le)
  then have "evaluate_open w contract durable now limits j = evaluate_page w contract durable now limits j"
    using assms by (auto simp: evaluate_open_def watching_def split: option.split)
  then show ?thesis
    using assms(1) by (auto simp: evaluate_tx_def watching_def evaluating_def)
qed

lemma scan_page_skips:
  "\<forall>x\<in>set before. judge_row contract armed limits x = Some VerdictSkip \<Longrightarrow>
     scan_page contract armed limits (before @ rows) safe = scan_page contract armed limits rows (scanned_to safe before)"
  by (induction before arbitrary: safe) (auto simp: scanned_to_Cons)

lemma judged_distinct:
  "judge_row contract armed limits r = Some (VerdictMatch ob) \<Longrightarrow> distinct (map fst (ob_attributes ob))"
  by (auto dest: judge_row_match observation_from_json_distinct)

text \<open>A round whose page reaches a match reserves it; a round whose page is skipped goes on behind it.\<close>

definition fair_limits :: "evaluation_limits \<Rightarrow> bool" where
  "fair_limits limits \<longleftrightarrow> 0 < lm_max_candidates limits \<and> lm_max_candidates limits < 2 ^ 63 - 1"

lemma evaluate_page_fair:
  assumes "fair_limits limits" and "progress_of j w = Some progress"
    and "candidate_rows (am_spec durable) (scan_start durable progress) j = rows"
    and "scan_page contract durable limits (take (nat (lm_max_candidates limits)) rows) (scan_start durable progress)
      = Some (reached, stop)"
  shows "evaluate_page w contract durable now limits j =
    finish_page w (take (nat (lm_max_candidates limits)) rows)
      (lm_max_candidates limits < int (length rows)) reached stop now j"
proof -
  have "lm_max_candidates limits < int (length (take (nat (lm_max_candidates limits + 1)) rows))
      \<longleftrightarrow> lm_max_candidates limits < int (length rows)"
    using assms(1) by (auto simp: fair_limits_def)
  then show ?thesis
    using assms by (simp add: evaluate_page_def Let_def fair_limits_def sql_int_def page_prefix)
qed

lemma evaluate_run:
  assumes "watching w armed j durable contract progress" and "due_before durable now" and "fair_limits limits"
    and "en_fault e 0 = NoFault" and "evaluate_page w contract durable now limits j = Some (Commit j' a)"
  shows "evaluate e w armed now limits j = (a, j')"
  using assms evaluate_tx_open [OF assms(1,2)]
  by (simp add: evaluate_def watching_def run_tx_def fair_limits_def)

lemma evaluate_round_match:
  assumes watch: "watching w armed j durable contract progress" and due: "due_before durable now"
    and fair: "fair_limits limits" and fine: "en_fault e 0 = NoFault"
    and rows: "candidate_rows (am_spec durable) (scan_start durable progress) j = before @ r # after"
    and skip: "\<forall>x\<in>set before. judge_row contract durable limits x = Some VerdictSkip"
    and hit: "judge_row contract durable limits r = Some (VerdictMatch ob)"
    and near: "int (length before) < lm_max_candidates limits"
    and ready: "record_pending w j" "token_fresh w (rc_receipt_id r) j"
  shows "\<exists>j' m. evaluate e w armed now limits j = (Ok (Matched m), j')
    \<and> reservation_of j' w = Some (reserved_row w r ob now)"
proof -
  let ?m = "lm_max_candidates limits"
  have none: "reservation_of j w = None" and p: "progress_of j w = Some progress"
    using watchingD [OF watch] by blast+
  have member: "r \<in> set (j_receipts j)"
    using rows candidate_rows_set [of "am_spec durable" "scan_start durable progress" j] by auto
  obtain j' m where res: "reserve_match w r ob now j = Some (j', m)"
    using reserve_match_total [OF ready(1) none member ready(2) judged_distinct [OF hit]] by blast
  have "take (nat ?m) (before @ r # after) = before @ r # take (nat ?m - Suc (length before)) after"
    using near by (simp add: take_Cons' nat_less_iff)
  moreover have "scan_page contract durable limits (before @ r # rest) (scan_start durable progress)
      = Some (scanned_to (scan_start durable progress) before, Some (VerdictMatch ob, r))" for rest
    using hit by (simp add: scan_page_skips [OF skip])
  ultimately have "evaluate_page w contract durable now limits j = Some (Commit j' (Ok (Matched m)))"
    using evaluate_page_fair [OF fair p rows] res by (simp add: finish_page_def)
  then show ?thesis
    using evaluate_run [OF watch due fair fine] reserve_match_new [OF res none judged_distinct [OF hit]] by blast
qed

lemma evaluate_round_next:
  assumes watch: "watching w armed j durable contract progress" and due: "due_before durable now"
    and fair: "fair_limits limits" and fine: "en_fault e 0 = NoFault"
    and rows: "candidate_rows (am_spec durable) (scan_start durable progress) j = page @ rest"
    and page: "int (length page) = lm_max_candidates limits" and rest: "rest \<noteq> []"
    and skip: "\<forall>x\<in>set page. judge_row contract durable limits x = Some VerdictSkip"
  shows "evaluate e w armed now limits j =
    (degraded_at (Some w) ''EVALUATION_BUDGET_EXHAUSTED'' None,
     advance_progress w (rc_local_sequence (last page)) now j)"
proof -
  have p: "progress_of j w = Some progress" using watchingD [OF watch] by blast
  have nonempty: "page \<noteq> []" and len: "nat (lm_max_candidates limits) = length page"
    using fair page by (auto simp: fair_limits_def)
  have "scan_page contract durable limits page (scan_start durable progress)
      = Some (scanned_to (scan_start durable progress) page, None)"
    using scan_page_skips [OF skip, of "[]" "scan_start durable progress"] by simp
  then have "evaluate_page w contract durable now limits j =
      Some (Commit (advance_progress w (rc_local_sequence (last page)) now j)
        (degraded_at (Some w) ''EVALUATION_BUDGET_EXHAUSTED'' None))"
    using evaluate_page_fair [OF fair p rows] nonempty rest page by (simp add: finish_page_def len)
  then show ?thesis by (rule evaluate_run [OF watch due fair fine])
qed

lemma watching_next:
  assumes watch: "watching w armed j durable contract progress" and ok: "schema_ok j"
    and rows: "candidate_rows (am_spec durable) (scan_start durable progress) j = page @ rest" and page: "page \<noteq> []"
  shows "\<exists>progress'. watching w armed (advance_progress w (rc_local_sequence (last page)) now j) durable contract progress'
    \<and> candidate_rows (am_spec durable) (scan_start durable progress')
        (advance_progress w (rc_local_sequence (last page)) now j) = rest"
proof -
  let ?n = "rc_local_sequence (last page)"
  let ?j' = "advance_progress w ?n now j"
  let ?p = "progress\<lparr>pg_scanned_through_sequence := max (pg_scanned_through_sequence progress) ?n,
      pg_revision := pg_revision progress + 1, pg_updated_at := format_time now\<rparr>"
  have "last page \<in> set (candidate_rows (am_spec durable) (scan_start durable progress) j)"
    using page rows by simp
  then have "scan_start durable progress < ?n" by (simp add: candidate_rows_set)
  then have "scan_start durable ?p = ?n" by (simp add: scan_start_def)
  moreover have "candidate_rows (am_spec durable) ?n ?j' = rest"
    using candidate_rows_behind [OF ok rows page] by (simp add: candidate_rows_def advance_progress_frame)
  moreover have "watching w armed ?j' durable contract ?p"
    using watch progress_advanced [of j w progress ?n now] evaluating_frame [of ?j' j w]
    by (simp add: watching_def advance_progress_frame reservation_of_def lifecycle_of_def)
  ultimately show ?thesis by (metis (no_types))
qed

text \<open>Evaluating once at each of a list of times.\<close>

fun evaluate_each ::
  "env \<Rightarrow> string \<Rightarrow> armed_signal \<Rightarrow> evaluation_limits \<Rightarrow> datetime list \<Rightarrow> journal \<Rightarrow> journal" where
  "evaluate_each e w armed limits [] j = j"
| "evaluate_each e w armed limits (now # nows) j =
     evaluate_each e w armed limits nows (snd (evaluate e w armed now limits j))"

lemma evaluate_keeps_reservation:
  assumes "reservation_of j w = Some row"
  shows "reservation_of (snd (evaluate e w armed now limits j)) w = Some row"
proof (cases "snd (evaluate e w armed now limits j) = j")
  case True
  then show ?thesis using assms by simp
next
  case False
  then obtain a' where "evaluate_tx w armed now limits j = Some (Commit (snd (evaluate e w armed now limits j)) a')"
    using evaluate_Ok_tx [OF prod.collapse [symmetric]] by blast
  then obtain m where "ensure_match_outbox m j = Some (snd (evaluate e w armed now limits j))"
    using evaluate_tx_commit assms by fastforce
  then obtain out life where "snd (evaluate e w armed now limits j) = j\<lparr>j_outbox := out, j_lifecycle := life\<rparr>"
    using ensure_match_outbox_frame by blast
  then show ?thesis using assms by (simp add: reservation_of_def)
qed

lemma evaluate_each_keeps_reservation:
  "reservation_of j w = Some row \<Longrightarrow> reservation_of (evaluate_each e w armed limits nows j) w = Some row"
  by (induction nows arbitrary: j) (auto simp: evaluate_keeps_reservation)

section \<open>How far the progress moves\<close>

lemma evaluating_unique:
  "evaluating w j row durable contract \<Longrightarrow> evaluating w j row' durable' contract' \<Longrightarrow>
     row' = row \<and> durable' = durable \<and> contract' = contract"
  unfolding evaluating_def by auto

lemma reserve_match_reserves: "reserve_match w r ob now j = Some (j', m) \<Longrightarrow> reservation_of j' w \<noteq> None"
  by (drule reserve_match_steps) (auto dest!: ensure_match_outbox_frame simp: reservation_of_def)

lemma finish_page_stopped:
  assumes "finish_page w page has_more reached (Some (v, r)) now j = Some (Commit j' a)"
    and "reservation_of j' w = None"
  shows "j_progress j' = j_progress (advance_progress w reached now j)"
  using assms
  by (auto simp: finish_page_def pin_pending_def advance_progress_def update_progress_def reserve_match_reserves
      split: verdict.splits Option.bind_splits prod.splits dest!: insert_pin_frame reserve_match_reserves)

lemma evaluate_page_progress:
  assumes "evaluate_page w contract durable now limits j = Some (Commit j' a)" and "reservation_of j' w = None"
    and "0 < lm_max_candidates limits"
  shows "\<exists>progress before rest n. progress_of j w = Some progress
    \<and> candidate_rows (am_spec durable) (scan_start durable progress) j = before @ rest
    \<and> (\<forall>x\<in>set before. \<not> row_satisfies contract durable x)
    \<and> (rest = [] \<or> n = scanned_to (scan_start durable progress) before)
    \<and> j_progress j' = j_progress (advance_progress w n now j)
    \<and> (n = scan_start durable progress \<or> n \<in> rc_local_sequence ` set (j_receipts j) \<or> next_sequence j = Some (n + 1))"
proof -
  obtain progress rows page reached stop where p: "progress_of j w = Some progress"
    and rows: "rows = take (nat (lm_max_candidates limits + 1))
          (candidate_rows (am_spec durable) (scan_start durable progress) j)"
    and page: "page = take (nat (lm_max_candidates limits)) rows"
    and scan: "scan_page contract durable limits page (scan_start durable progress) = Some (reached, stop)"
    and fin: "finish_page w page (int (length rows) > lm_max_candidates limits) reached stop now j = Some (Commit j' a)"
    using evaluate_page_commit [OF assms(1)] by blast
  define cands where "cands = candidate_rows (am_spec durable) (scan_start durable progress) j"
  have parts: "cands = page @ drop (nat (lm_max_candidates limits)) cands"
    by (simp add: page rows page_prefix flip: cands_def)
  have numbered: "rc_local_sequence x \<in> rc_local_sequence ` set (j_receipts j)" if "x \<in> set cands" for x
    using that by (auto simp: cands_def candidate_rows_set)
  have reached_at: "scanned_to safe xs = safe \<or> scanned_to safe xs \<in> rc_local_sequence ` set (j_receipts j)"
    if "set xs \<subseteq> set cands" for safe xs
    using that numbered [of "last xs"] subsetD [OF that, of "last xs"] by (cases "xs = []") (simp_all add: scanned_to_def)
  have "\<exists>before rest n. cands = before @ rest \<and> (\<forall>x\<in>set before. \<not> row_satisfies contract durable x)
    \<and> (rest = [] \<or> n = scanned_to (scan_start durable progress) before)
    \<and> j_progress j' = j_progress (advance_progress w n now j)
    \<and> (n = scan_start durable progress \<or> n \<in> rc_local_sequence ` set (j_receipts j) \<or> next_sequence j = Some (n + 1))"
  proof (cases stop)
    case None
    then have skip: "\<forall>x\<in>set page. \<not> row_satisfies contract durable x"
      using scan_page_all scan judge_row_skip by blast
    obtain n where n: "page = [] \<and> (\<exists>z. next_sequence j = Some z \<and> n = z - 1) \<or> page \<noteq> [] \<and> n = rc_local_sequence (last page)"
      "j' = advance_progress w n now j"
      using fin None by (auto simp: finish_page_def split: Option.bind_splits if_splits)
    have "page \<noteq> [] \<Longrightarrow> rc_local_sequence (last page) \<in> rc_local_sequence ` set (j_receipts j)"
      using numbered parts by (metis Un_iff last_in_set set_append)
    then have at: "n \<in> rc_local_sequence ` set (j_receipts j) \<or> next_sequence j = Some (n + 1)" using n(1) by auto
    have "page = [] \<longrightarrow> cands = []"
      using assms(3) by (auto simp: page rows cands_def)
    then have "drop (nat (lm_max_candidates limits)) cands = [] \<or> n = scanned_to (scan_start durable progress) page"
      using n(1) by (auto simp: scanned_to_def)
    then show ?thesis using parts skip n(2) at by blast
  next
    case (Some vr)
    obtain v r where stop: "stop = Some (v, r)" using Some by (cases vr) simp
    obtain before after where before: "page = before @ r # after"
      "\<forall>x\<in>set before. judge_row contract durable limits x = Some VerdictSkip"
      and at: "reached = scanned_to (scan_start durable progress) before"
      using scan_page_stop [OF scan [unfolded stop]] by blast
    let ?rest = "r # after @ drop (nat (lm_max_candidates limits)) cands"
    have cut: "cands = before @ ?rest" using parts before(1) by simp
    then have "set before \<subseteq> set cands" by (metis Un_upper1 set_append)
    then have "reached = scan_start durable progress \<or> reached \<in> rc_local_sequence ` set (j_receipts j)"
      using reached_at unfolding at by blast
    moreover have "\<forall>x\<in>set before. \<not> row_satisfies contract durable x" using before(2) judge_row_skip by blast
    ultimately show ?thesis
      using finish_page_stopped [OF fin [unfolded stop] assms(2)] cut at
      by (intro exI [of _ before] exI [of _ ?rest] exI [of _ reached]) blast
  qed
  then show ?thesis using p unfolding cands_def by blast
qed

text \<open>A page that reserves leaves the progress alone.\<close>

lemma finish_page_kept:
  assumes "finish_page w page has_more reached stop now j = Some (Commit j' a)"
  shows "j_reservations j' = j_reservations j \<or> j_progress j' = j_progress j"
proof (cases stop)
  case None
  then show ?thesis
    using assms by (auto simp: finish_page_def advance_progress_frame split: Option.bind_splits if_splits)
next
  case (Some vr)
  obtain v r where stop: "stop = Some (v, r)" using Some by (cases vr) simp
  have "reserve_match w r ob now j = Some (k, m) \<Longrightarrow> j_progress k = j_progress j" for ob k m
    by (auto dest!: reserve_match_steps ensure_match_outbox_frame insert_pin_frame
        simp: insert_reservation_def split: if_splits)
  then show ?thesis
    using assms
    by (cases v) (auto simp: stop finish_page_def pin_pending_def advance_progress_frame
        split: Option.bind_splits prod.splits dest!: insert_pin_frame)
qed

lemma evaluate_page_kept:
  "evaluate_page w contract durable now limits j = Some (Commit j' a) \<Longrightarrow>
     j_reservations j' = j_reservations j \<or> j_progress j' = j_progress j"
  by (drule evaluate_page_commit) (blast dest: finish_page_kept)

text \<open>What a scan that stops somewhere has passed.\<close>

lemma scanned_members:
  assumes ok: "schema_ok j" and cands: "candidate_rows spec scanned j = before @ rest"
    and r: "r \<in> set (candidate_rows spec scanned j)"
    and n: "rest = [] \<or> n = scanned_to scanned before" and le: "rc_local_sequence r \<le> n"
  shows "r \<in> set before"
proof (cases "rest = []")
  case True
  then show ?thesis using r cands by simp
next
  case False
  have strict: "sorted_wrt (<) (map rc_local_sequence (before @ rest))"
    using candidate_rows_strict [OF ok, of spec scanned] cands by simp
  have "\<not> rc_local_sequence x \<le> scanned_to scanned before" if "x \<in> set rest" for x
  proof (cases "before = []")
    case True
    then show ?thesis using that cands candidate_rows_set [of spec scanned j] by auto
  next
    case False
    then show ?thesis using strict that by (auto simp: scanned_to_def sorted_wrt_append not_le)
  qed
  then show ?thesis using r cands n le False by auto
qed

section \<open>A sample with one receipt\<close>

definition sample_receipt :: receipt_row where
  "sample_receipt =
     receipt_row_of 1 sample_observation (canonical_json (observation_payload sample_observation))
       (content_of sample_observation)"

definition sample_received :: journal where
  "sample_received =
     sample_journal\<lparr>j_meta := map_option (\<lambda>r. r\<lparr>me_next_sequence := 2,
                      me_migrated_at := format_time (datetime_of 1)\<rparr>) (j_meta sample_journal),
                    j_sources := [committed_source sample_commit 1 (new_source (''fs'', ''a'')\<lparr>ss_lease_generation := 1\<rparr>)],
                    j_receipts := [sample_receipt]\<rparr>"

lemma sample_arm_found [simp]:
  "arm_of sample_journal ''w'' = Some sample_arm_row" "arm_of sample_received ''w'' = Some sample_arm_row"
  by (simp_all add: arm_of_def sample_received_def sample_journal_def) (simp_all add: sample_arm_row_def)

lemma sample_receipt_reads [simp]:
  "observation_from_json (rc_observation_json sample_receipt) = Some sample_observation"
proof -
  have "distinct (map fst (ob_attributes sample_observation))" by (simp add: sample_observation_def)
  from observation_from_json_payload [OF this] show ?thesis
    by (simp add: sample_receipt_def) (simp add: sort_observation_def sample_observation_def)
qed

lemma sample_record_pending: "record_pending ''w'' sample_received"
proof -
  let ?p = "signal_payload (\<lambda>s. s) (sample_armed\<lparr>am_publication := ''prepared''\<rparr>) sample_resume ''u'' 1 3"
  have wf: "json_wf (JObj ?p)"
    by (simp add: signal_payload_def Let_def predicate_json_def event_json_def sample_armed_def sample_resume_def
        sample_spec_def sample_anchor_def scalars_json_def)
  then have "distinct (map fst ?p)" by simp
  from jget_sorted [OF this] obtain p where p: "sort_json (JObj ?p) = JObj p"
    and get: "\<And>k v. dict_get ?p k = Some v \<Longrightarrow> jget p k = sort_json v" by blast
  have "\<exists>es. jget p ''events'' = JArr es"
    using get [of "''events''"] by (simp add: signal_payload_def Let_def)
  moreover have "loads (fst sample_record) = Some (JObj p)"
    using loads_canonical [OF wf] p by (simp add: sample_record_def build_signal_record_def Let_def)
  moreover have "outbox_at sample_received ''w'' 1 =
      Some (applied_row sample_time (put_row ''w'' 1 ''pending'' None (fst sample_record) (snd sample_record) sample_time))"
    "outbox_at sample_received ''w'' 2 = None"
    by (simp_all add: outbox_at_def sample_received_def sample_journal_def ox_key_def applied_row_def put_row_def)
  ultimately show ?thesis
    by (simp add: record_pending_def sql_str_def applied_row_def put_row_def)
qed

section \<open>A reservation answers every later evaluation\<close>

lemma evaluate_tx_reserved:
  assumes "evaluating w j row durable contract" and "am_arm_id durable = am_arm_id armed"
    and "reservation_of j w = Some res" and "matched_from_json (rv_evidence_json res) = Some m"
    and "outbox_at j (mt_wake_id m) 2 \<noteq> None"
  shows "evaluate_tx w armed now limits j = Some (Commit j (Ok (Matched m)))"
proof -
  have "ensure_match_outbox m j = Some j" using assms(5) by (simp add: ensure_match_outbox_def Let_def)
  then show ?thesis using assms(1-4) by (auto simp: evaluate_tx_def evaluating_def)
qed

lemma evaluate_tx_again:
  assumes "evaluate_tx w armed now limits j = Some (Commit j' (Ok (Matched m)))"
  shows "evaluate_tx w armed now' limits' j' = Some (Commit j' (Ok (Matched m)))"
proof -
  obtain row durable contract where ev: "evaluating w j row durable contract" "am_arm_id durable = am_arm_id armed"
    and rest: "case reservation_of j w of
         Some reservation \<Rightarrow> \<exists>m'. matched_from_json (rv_evidence_json reservation) = Some m'
           \<and> ensure_match_outbox m' j = Some j' \<and> Ok (Matched m) = Ok (Matched m')
       | None \<Rightarrow> evaluate_page w contract durable now limits j = Some (Commit j' (Ok (Matched m)))"
    using evaluate_tx_commit [OF assms] by (fastforce split: option.splits)
  show ?thesis
  proof (cases "reservation_of j w")
    case (Some res)
    then have read: "matched_from_json (rv_evidence_json res) = Some m" and out: "ensure_match_outbox m j = Some j'"
      using rest by auto
    obtain o' l' where "j' = j\<lparr>j_outbox := o', j_lifecycle := l'\<rparr>" "outbox_at j' (mt_wake_id m) 2 \<noteq> None"
      using ensure_match_outbox_frame [OF out] by blast
    then show ?thesis
      using evaluate_tx_reserved [of w j' row durable contract armed res m] ev Some read evaluating_frame [of j' j w]
      by (simp add: reservation_of_def)
  next
    case None
    then have page: "evaluate_page w contract durable now limits j = Some (Commit j' (Ok (Matched m)))"
      using rest by simp
    obtain r ob where "observation_from_json (rc_observation_json r) = Some ob"
      and res: "reserve_match w r ob now j = Some (j', m)"
      using evaluate_page_matched [OF page] by blast
    then have d: "distinct (map fst (ob_attributes ob))" by (blast dest: observation_from_json_distinct)
    then have "matched_from_json (rv_evidence_json (reserved_row w r ob now)) = Some m"
      using reserve_match_new [OF res None d] matched_from_json_payload [of "reservation_for w r ob now"]
      by (simp add: reserved_row_def reservation_for_def im_matched_def)
    moreover have "evaluating w j' row durable contract"
      using reserve_match_new [OF res None d] ev(1) evaluating_frame [of j' j w] by auto
    ultimately show ?thesis
      using evaluate_tx_reserved ev(2) reserve_match_new [OF res None d] by blast
  qed
qed

lemma sample_evaluating: "evaluating ''w'' sample_received sample_arm_row sample_armed sample_contract"
proof -
  have "instance_at sample_received (''fs'', ''a'') = Some \<lparr>in_source = ''fs'', in_source_instance = ''a'',
      in_contract_json = sample_contract_json, in_contract_fingerprint = fingerprint sample_contract_json,
      in_created_at = sample_time\<rparr>"
    by (simp add: instance_at_def sample_received_def sample_journal_def in_key_def)
  moreover have "rq_source (am_spec sample_armed) = ''fs''" "rq_source_instance (am_spec sample_armed) = ''a''"
    "am_publication sample_armed = ''published''"
    by (simp_all add: sample_armed_def sample_spec_def)
  moreover have "validate_occurrence_anchor sample_contract (am_spec sample_armed) (am_anchor sample_armed) = None"
    by (simp add: validate_occurrence_anchor_def valid_occurrence_order_def sample_contract_def)
  ultimately show ?thesis unfolding evaluating_def by auto
qed

lemma sample_watching:
  "\<exists>progress. watching ''w'' sample_armed sample_received sample_armed sample_contract progress
     \<and> candidate_rows (am_spec sample_armed) (scan_start sample_armed progress) sample_received = [sample_receipt]"
proof -
  have "progress_of sample_received ''w'' = Some \<lparr>pg_wake_id = ''w'', pg_scanned_through_sequence = 0,
      pg_revision = 0, pg_updated_at = sample_time\<rparr>"
    by (simp add: progress_of_def sample_received_def sample_journal_def)
  moreover have "candidate_rows (am_spec sample_armed) 0 sample_received = [sample_receipt]"
    by (simp add: candidate_rows_def sample_received_def)
      (simp add: sample_receipt_def sample_armed_def sample_spec_def sample_observation_def)
  moreover have "reservation_of sample_received ''w'' = None" "life_pending (lifecycle_of sample_received ''w'')"
    by (simp_all add: reservation_of_def lifecycle_of_def sample_received_def sample_journal_def life_pending_def
        applied_life_def pending_life_def)
  ultimately show ?thesis
    using sample_evaluating
    by (intro exI) (auto simp: watching_def scan_start_def sample_armed_def sample_anchor_def)
qed

lemma sample_judged: "judge_row sample_contract sample_armed sample_limits sample_receipt = Some (VerdictMatch sample_observation)"
  by (simp add: judge_row_def)
    (simp add: judge_observation_def occurrence_is_after_anchor_def sample_contract_def baseline_matches_def
      matches_def sample_armed_def sample_spec_def sample_observation_def attribute_bytes_def scalars_json_def
      canonical_json_def dumps_def utf8_len_def utf8_def utf8_char_def evidence_text_def sample_limits_def)

definition sample_expiring :: journal where
  "sample_expiring =
     sample_received\<lparr>j_arms := [sample_arm_row\<lparr>ar_expires_at := Some (format_time (datetime_of 5))\<rparr>]\<rparr>"

lemma sample_expiring_watching:
  "\<exists>progress. watching ''w'' sample_armed sample_expiring
     (sample_armed\<lparr>am_expires_at := Some (datetime_of 5)\<rparr>) sample_contract progress"
proof -
  let ?row = "sample_arm_row\<lparr>ar_expires_at := Some (format_time (datetime_of 5))\<rparr>"
  let ?armed = "sample_armed\<lparr>am_expires_at := Some (datetime_of 5)\<rparr>"
  have "sql_true (Some (format_time (datetime_of 5)))"
    by (simp add: sql_true_def format_time_def Let_def split: prod.split)
  then have "armed_from_row ?row = Some ?armed"
    using sample_arm_reads by (auto simp: armed_from_row_def expiry_of_def sample_armed_def split: Option.bind_splits)
  moreover have "arm_of sample_expiring ''w'' = Some ?row"
    by (simp add: arm_of_def sample_expiring_def) (simp add: sample_arm_row_def)
  ultimately have "evaluating ''w'' sample_expiring ?row ?armed sample_contract"
    using sample_evaluating by (auto simp: evaluating_def instance_at_def sample_expiring_def)
  then show ?thesis
    using sample_watching
    by (auto simp: watching_def sample_expiring_def reservation_of_def lifecycle_of_def progress_of_def)
qed

lemma sample_fair: "fair_limits sample_limits" "due_before sample_armed now" "en_fault sample_env 0 = NoFault"
  by (simp_all add: fair_limits_def sample_limits_def due_before_def sample_armed_def sample_env_def)

lemma sample_token: "token_fresh ''w'' (rc_receipt_id sample_receipt) sample_received"
  by (simp add: token_fresh_def sample_received_def sample_journal_def)

lemma sample_evaluate:
  "\<exists>j' m. evaluate sample_env ''w'' sample_armed now sample_limits sample_received = (Ok (Matched m), j')"
proof -
  obtain progress where "watching ''w'' sample_armed sample_received sample_armed sample_contract progress"
    "candidate_rows (am_spec sample_armed) (scan_start sample_armed progress) sample_received = [] @ sample_receipt # []"
    using sample_watching by auto
  from evaluate_round_match [OF this(1) sample_fair(2,1,3) this(2) _ sample_judged _ sample_record_pending sample_token, of now]
  have "\<exists>j' m. evaluate sample_env ''w'' sample_armed now sample_limits sample_received = (Ok (Matched m), j')
    \<and> reservation_of j' ''w'' = Some (reserved_row ''w'' sample_receipt sample_observation now)"
    by (simp only: list.set simp_thms ball_empty) (simp add: sample_limits_def)
  then show ?thesis by blast
qed

lemma sample_received_ok: "schema_ok sample_received"
proof -
  let ?j = "sample_journal\<lparr>j_meta := map_option (\<lambda>r. r\<lparr>me_next_sequence := 2,
      me_migrated_at := format_time (datetime_of 1)\<rparr>) (j_meta sample_journal),
    j_sources := [committed_source sample_commit 1 (new_source (''fs'', ''a'')\<lparr>ss_lease_generation := 1\<rparr>)]\<rparr>"
  have "schema_ok ?j"
    using sample_journal_ok
    by (simp add: schema_ok_def meta_ok_def sources_ok_def instance_keys_def wake_ids_def receipt_ids_def)
      (simp add: sample_journal_def committed_source_def new_source_def ss_key_def in_key_def)
  moreover have "insert_receipt sample_receipt ?j = Some sample_received"
    by (simp add: insert_receipt_def sample_received_def receipt_at_def instance_at_def in_key_def
        verification_states_def sample_journal_def)
      (simp add: sample_receipt_def receipt_row_of_def sample_observation_def)
  ultimately show ?thesis using insert_receipt_ok by blast
qed

text \<open>Limits that no evidence fits in.\<close>

definition tight_limits :: evaluation_limits where
  "tight_limits = sample_limits\<lparr>lm_max_attribute_bytes := 0\<rparr>"

lemma sample_tight_evaluate:
  "\<exists>p j'. watching ''w'' sample_armed sample_received sample_armed sample_contract p
     \<and> j' = advance_progress ''w'' (scan_start sample_armed p) (datetime_of 3) sample_received
     \<and> evaluate sample_env ''w'' sample_armed (datetime_of 3) tight_limits sample_received
       = (degraded_at (Some ''w'') ''EVALUATION_BUDGET_EXHAUSTED'' None, j')"
proof -
  obtain p where w: "watching ''w'' sample_armed sample_received sample_armed sample_contract p"
    and c: "candidate_rows (am_spec sample_armed) (scan_start sample_armed p) sample_received = [sample_receipt]"
    using sample_watching by blast
  have fair: "fair_limits tight_limits" and one: "lm_max_candidates tight_limits = 1"
    by (simp_all add: fair_limits_def tight_limits_def sample_limits_def)
  have "judge_row sample_contract sample_armed tight_limits sample_receipt = Some VerdictBudget"
    by (simp add: judge_row_def)
      (simp add: judge_observation_def occurrence_is_after_anchor_def sample_contract_def baseline_matches_def
        matches_def sample_armed_def sample_spec_def sample_observation_def attribute_bytes_def scalars_json_def
        canonical_json_def dumps_def utf8_len_def utf8_def utf8_char_def evidence_text_def tight_limits_def)
  then have "scan_page sample_contract sample_armed tight_limits (take (nat (lm_max_candidates tight_limits)) [sample_receipt])
      (scan_start sample_armed p) = Some (scan_start sample_armed p, Some (VerdictBudget, sample_receipt))"
    by (simp add: one)
  from evaluate_page_fair [OF fair watchingD(2) [OF w] c this]
  have "evaluate_page ''w'' sample_contract sample_armed (datetime_of 3) tight_limits sample_received
      = Some (Commit (advance_progress ''w'' (scan_start sample_armed p) (datetime_of 3) sample_received)
          (degraded_at (Some ''w'') ''EVALUATION_BUDGET_EXHAUSTED'' None))"
    by (simp add: finish_page_def)
  from evaluate_run [OF w sample_fair(2) fair sample_fair(3) this] w show ?thesis by blast
qed

section \<open>Properties\<close>

text \<open>C2. A wake fires for the first receipt that satisfies its request, and only for such a receipt: when an
  evaluation of a wake without a reservation answers a match, the wake was published, pending and not
  expired; among the receipts of its source, kind and subject after the anchor and after the point
  scanned before, taken by sequence number, the matched one is the first whose observation satisfies the
  request; and the reservation, with the evidence of that receipt, is in the journal.\<close>

theorem evaluate_matches_first:
  assumes "evaluate e w armed now limits j = (Ok (Matched m), j')" and "reservation_of j w = None"
  shows "\<exists>row durable contract progress before r after ob.
    evaluating w j row durable contract \<and> life_pending (lifecycle_of j w)
    \<and> (\<forall>expires. am_expires_at durable = Some expires \<longrightarrow> now < expires)
    \<and> progress_of j w = Some progress
    \<and> candidate_rows (am_spec durable) (scan_start durable progress) j = before @ r # after
    \<and> (\<forall>x\<in>set before. \<not> row_satisfies contract durable x)
    \<and> observation_from_json (rc_observation_json r) = Some ob \<and> satisfies contract durable ob
    \<and> reservation_of j' w = Some (reserved_row w r ob now)
    \<and> m = sort_matched (reservation_for w r ob now)"
proof -
  have "evaluate_tx w armed now limits j = Some (Commit j' (Ok (Matched m)))"
    using evaluate_matched_tx [OF assms(1)] .
  then obtain row durable contract where ev: "evaluating w j row durable contract"
    and life: "life_pending (lifecycle_of j w)"
    and due: "\<forall>expires. am_expires_at durable = Some expires \<longrightarrow> now < expires"
    and pg: "evaluate_page w contract durable now limits j = Some (Commit j' (Ok (Matched m)))"
    using evaluate_tx_commit assms(2) by fastforce
  obtain progress before r after ob where found: "progress_of j w = Some progress"
    "candidate_rows (am_spec durable) (scan_start durable progress) j = before @ r # after"
    "\<forall>x\<in>set before. \<not> row_satisfies contract durable x"
    "observation_from_json (rc_observation_json r) = Some ob" "satisfies contract durable ob"
    and res: "reserve_match w r ob now j = Some (j', m)"
    using evaluate_page_matched [OF pg] by blast
  then show ?thesis
    using ev life due reserve_match_new [OF res assms(2) observation_from_json_distinct] by blast
qed

lemma evaluate_matches_first_witness:
  "\<exists>j' row durable contract progress before r after ob.
     evaluating ''w'' sample_received row durable contract
     \<and> candidate_rows (am_spec durable) (scan_start durable progress) sample_received = before @ r # after
     \<and> satisfies contract durable ob \<and> reservation_of j' ''w'' = Some (reserved_row ''w'' r ob (datetime_of 3))"
proof -
  obtain j' m where run: "evaluate sample_env ''w'' sample_armed (datetime_of 3) sample_limits sample_received
      = (Ok (Matched m), j')"
    using sample_evaluate by blast
  have "reservation_of sample_received ''w'' = None"
    by (simp add: reservation_of_def sample_received_def sample_journal_def)
  from evaluate_matches_first [OF run this] show ?thesis by blast
qed

text \<open>C34. No receipt is lost: as long as the wake has no reservation, every receipt of its source, kind and
  subject that an evaluation moves the progress past fails the request, and the progress never goes back; so
  a receipt that satisfies the request is still ahead of the progress and will be looked at again, also
  when it waits for its verification or does not fit the limits of the evaluation.\<close>

theorem evaluate_skips_nothing:
  assumes "evaluate e w armed now limits j = (a, j')" and "schema_ok j"
    and "evaluating w j row durable contract" and "progress_of j w = Some p" and "reservation_of j' w = None"
  shows "\<exists>p'. progress_of j' w = Some p' \<and> pg_scanned_through_sequence p \<le> pg_scanned_through_sequence p'
    \<and> (\<forall>r\<in>set (candidate_rows (am_spec durable) (scan_start durable p) j).
         rc_local_sequence r \<le> pg_scanned_through_sequence p' \<longrightarrow> \<not> row_satisfies contract durable r)"
proof (cases "j' = j")
  case True
  then show ?thesis using assms(4) by (auto simp: candidate_rows_set scan_start_def)
next
  case False
  then obtain a' where tx: "evaluate_tx w armed now limits j = Some (Commit j' a')"
    using evaluate_Ok_tx [OF assms(1)] by blast
  have free: "reservation_of j w = None"
    using evaluate_keeps_reservation [of j w _ e armed now limits] assms(1,5) by fastforce
  obtain row' durable' contract' where "evaluating w j row' durable' contract'"
    and pos: "0 < lm_max_candidates limits"
    and "evaluate_page w contract' durable' now limits j = Some (Commit j' a')"
    using evaluate_tx_commit [OF tx] free by auto
  then have page: "evaluate_page w contract durable now limits j = Some (Commit j' a')"
    using evaluating_unique [OF assms(3)] by blast
  obtain before rest n where
    cands: "candidate_rows (am_spec durable) (scan_start durable p) j = before @ rest"
    and skip: "\<forall>x\<in>set before. \<not> row_satisfies contract durable x"
    and n: "rest = [] \<or> n = scanned_to (scan_start durable p) before"
    and j': "j_progress j' = j_progress (advance_progress w n now j)"
    using evaluate_page_progress [OF page assms(5) pos] assms(4) by auto
  have "progress_of j' w = Some (p\<lparr>pg_scanned_through_sequence := max (pg_scanned_through_sequence p) n,
      pg_revision := pg_revision p + 1, pg_updated_at := format_time now\<rparr>)"
    using progress_advanced [OF assms(4)] j' by (simp add: progress_of_def)
  moreover have "\<not> row_satisfies contract durable r"
    if r: "r \<in> set (candidate_rows (am_spec durable) (scan_start durable p) j)"
      and le: "rc_local_sequence r \<le> max (pg_scanned_through_sequence p) n" for r
  proof -
    have "rc_local_sequence r \<le> n" using r le by (auto simp: candidate_rows_set scan_start_def)
    then show ?thesis using scanned_members [OF assms(2) cands r n] skip by blast
  qed
  ultimately show ?thesis by simp
qed

lemma evaluate_skips_nothing_witness:
  "\<exists>j' p p'. evaluate sample_env ''w'' sample_armed (datetime_of 3) tight_limits sample_received
       = (degraded_at (Some ''w'') ''EVALUATION_BUDGET_EXHAUSTED'' None, j')
     \<and> progress_of sample_received ''w'' = Some p \<and> progress_of j' ''w'' = Some p'
     \<and> pg_scanned_through_sequence p \<le> pg_scanned_through_sequence p'"
proof -
  obtain p j' where p: "watching ''w'' sample_armed sample_received sample_armed sample_contract p"
    and j': "j' = advance_progress ''w'' (scan_start sample_armed p) (datetime_of 3) sample_received"
    and run: "evaluate sample_env ''w'' sample_armed (datetime_of 3) tight_limits sample_received
      = (degraded_at (Some ''w'') ''EVALUATION_BUDGET_EXHAUSTED'' None, j')"
    using sample_tight_evaluate by blast
  have "reservation_of j' ''w'' = None"
    using watchingD(1) [OF p] by (simp add: j' reservation_of_def advance_progress_frame)
  from evaluate_skips_nothing [OF run sample_received_ok sample_evaluating watchingD(2) [OF p] this]
  show ?thesis using run watchingD(2) [OF p] by blast
qed

lemma rounds_find_match:
  assumes "watching w armed j durable contract progress" and "schema_ok j"
    and "candidate_rows (am_spec durable) (scan_start durable progress) j = before @ r # after"
    and "\<forall>x\<in>set before. judge_row contract durable limits x = Some VerdictSkip"
    and "judge_row contract durable limits r = Some (VerdictMatch ob)"
    and "record_pending w j" and "token_fresh w (rc_receipt_id r) j"
    and "fair_limits limits" and "en_fault e 0 = NoFault"
    and "\<forall>now\<in>set nows. due_before durable now"
    and "int (length before) < int (length nows) * lm_max_candidates limits"
  shows "\<exists>now\<in>set nows. reservation_of (evaluate_each e w armed limits nows j) w = Some (reserved_row w r ob now)"
  using assms
proof (induction nows arbitrary: j progress before)
  case Nil
  then show ?case by simp
next
  case (Cons now nows)
  let ?m = "lm_max_candidates limits"
  have due: "due_before durable now" using Cons.prems(10) by simp
  show ?case
  proof (cases "int (length before) < ?m")
    case True
    obtain j' m where "evaluate e w armed now limits j = (Ok (Matched m), j')"
      "reservation_of j' w = Some (reserved_row w r ob now)"
      using evaluate_round_match [OF Cons.prems(1) due Cons.prems(8,9,3,4,5) True Cons.prems(6,7)] by blast
    then show ?thesis using evaluate_each_keeps_reservation by simp
  next
    case False
    define page rest where "page = take (nat ?m) before" and "rest = drop (nat ?m) before"
    have before: "before = page @ rest" by (simp add: page_def rest_def)
    have len: "int (length page) = ?m" "page \<noteq> []"
      using False Cons.prems(8) by (auto simp: page_def fair_limits_def)
    let ?j' = "advance_progress w (rc_local_sequence (last page)) now j"
    have cands: "candidate_rows (am_spec durable) (scan_start durable progress) j = page @ (rest @ r # after)"
      using Cons.prems(3) before by simp
    have round: "evaluate e w armed now limits j =
        (degraded_at (Some w) ''EVALUATION_BUDGET_EXHAUSTED'' None, ?j')"
      by (rule evaluate_round_next [OF Cons.prems(1) due Cons.prems(8,9) cands len(1)])
        (use Cons.prems(4) before in auto)
    obtain progress' where watch: "watching w armed ?j' durable contract progress'"
      and left: "candidate_rows (am_spec durable) (scan_start durable progress') ?j' = rest @ r # after"
      using watching_next [OF Cons.prems(1,2) cands len(2)] by blast
    have "record_pending w ?j'" "token_fresh w (rc_receipt_id r) ?j'"
      using Cons.prems(6,7)
      by (simp_all add: record_pending_def token_fresh_def lookup_defs advance_progress_frame)
    moreover have "int (length rest) < int (length nows) * ?m"
      using Cons.prems(11) before len(1) by (simp add: algebra_simps)
    ultimately have "\<exists>now\<in>set nows. reservation_of (evaluate_each e w armed limits nows ?j') w
        = Some (reserved_row w r ob now)"
      using Cons.IH [OF watch advance_progress_ok [OF Cons.prems(2)] left] Cons.prems(4,5,8,9,10) before
      by auto
    then show ?thesis using round by simp
  qed
qed

text \<open>C29. A match is found: while a wake is watching and its record can be fired, evaluating it again and
  again before it expires reserves the first receipt that is not passed over, when it satisfies the request within the limits on
  evidence, after as many evaluations as the receipts before it fill pages of \<open>max_candidates\<close>; a receipt is passed over only
  when it is not wanted, or was rejected by the verification that is required.  (Behind a wanted receipt that is not verified
  yet, or whose evidence is over the limits, nothing is found: the scan stops there.)\<close>

theorem evaluate_finds_match:
  assumes "watching w armed j durable contract progress" and "schema_ok j"
    and "candidate_rows (am_spec durable) (scan_start durable progress) j = before @ r # after"
    and "\<forall>x\<in>set before. passed_over contract durable x"
    and "observation_from_json (rc_observation_json r) = Some ob" and "satisfies contract durable ob" and "within_limits limits ob"
    and "record_pending w j" and "token_fresh w (rc_receipt_id r) j"
    and "fair_limits limits" and "en_fault e 0 = NoFault"
    and "\<forall>now\<in>set nows. due_before durable now"
    and "int (length before) < int (length nows) * lm_max_candidates limits"
  shows "\<exists>now\<in>set nows. reservation_of (evaluate_each e w armed limits nows j) w = Some (reserved_row w r ob now)"
proof -
  have "\<forall>x\<in>set before. judge_row contract durable limits x = Some VerdictSkip" using assms(4) passed_over_skip by blast
  from rounds_find_match [OF assms(1-3) this satisfying_match [OF assms(5-7)] assms(8-13)] show ?thesis .
qed

lemma evaluate_finds_match_witness:
  "\<exists>now\<in>set [datetime_of 3]. reservation_of (evaluate_each sample_env ''w'' sample_armed sample_limits [datetime_of 3] sample_received) ''w''
     = Some (reserved_row ''w'' sample_receipt sample_observation now)"
proof -
  obtain progress where w: "watching ''w'' sample_armed sample_received sample_armed sample_contract progress"
    and c: "candidate_rows (am_spec sample_armed) (scan_start sample_armed progress) sample_received = [] @ sample_receipt # []"
    using sample_watching by auto
  have hit: "observation_from_json (rc_observation_json sample_receipt) = Some sample_observation"
    "satisfies sample_contract sample_armed sample_observation"
    using judge_row_match [OF sample_judged] by simp_all
  have "within_limits sample_limits sample_observation"
    using sample_judged hit judge_observation_match [of sample_contract sample_armed sample_limits sample_observation sample_observation]
    by (simp add: judge_row_def within_limits_def)
  with w c hit show ?thesis
    by (intro evaluate_finds_match [OF w sample_received_ok c _ hit _ sample_record_pending sample_token sample_fair(1,3)])
      (simp_all add: sample_fair(2) sample_limits_def)
qed

text \<open>A wake fires at most once and the match survives a lost answer: once an evaluation has answered a match,
  the next one, at whatever time and with whatever limits, answers the same match and changes nothing; and if
  the commit goes through but its answer is lost, that is what is left for the next evaluation to answer.\<close>

theorem evaluate_match_is_stable:
  assumes "evaluate e w armed now limits j = (Ok (Matched m), j')" and "en_fault e' 0 = NoFault"
    and "en_fault e'' 0 = FaultAfter"
  shows "evaluate e' w armed now' limits' j' = (Ok (Matched m), j')
    \<and> evaluate e'' w armed now limits j = (degraded_at (Some w) ''STORE_UNAVAILABLE'' None, j')"
proof -
  have tx: "evaluate_tx w armed now limits j = Some (Commit j' (Ok (Matched m)))" and w: "w = am_wake_id armed"
    using evaluate_matched_tx [OF assms(1)] assms(1) by (auto simp: evaluate_def split: if_splits)
  show ?thesis
    using evaluate_tx_again [OF tx, of now' limits'] tx assms(2,3) by (simp add: evaluate_def run_tx_def flip: w)
qed

lemma evaluate_match_is_stable_witness:
  "\<exists>j' m. evaluate sample_env ''w'' sample_armed (datetime_of 9) sample_limits j' = (Ok (Matched m), j')
     \<and> evaluate (sample_env\<lparr>en_fault := (\<lambda>_. FaultAfter)\<rparr>) ''w'' sample_armed (datetime_of 3) sample_limits sample_received
       = (degraded_at (Some ''w'') ''STORE_UNAVAILABLE'' None, j')"
proof -
  obtain j' m where "evaluate sample_env ''w'' sample_armed (datetime_of 3) sample_limits sample_received
      = (Ok (Matched m), j')"
    using sample_evaluate by blast
  from evaluate_match_is_stable [OF this sample_fair(3), of "sample_env\<lparr>en_fault := (\<lambda>_. FaultAfter)\<rparr>"]
  show ?thesis by auto
qed

text \<open>A wake expires exactly when its time has come and nothing was reserved: an evaluation of a watching wake
  that meets no fault answers \<open>Expired\<close>, with the stored expiry, if and only if that expiry is not after
  \<open>now\<close>, and the journal is then unchanged.\<close>

theorem evaluate_expires_exactly:
  assumes "watching w armed j durable contract progress" and "en_fault e 0 = NoFault"
  shows "(fst (evaluate e w armed now limits j) = Ok (Expired w expires) \<longleftrightarrow>
      am_expires_at durable = Some expires \<and> expires \<le> now)
    \<and> (fst (evaluate e w armed now limits j) = Ok (Expired w expires) \<longrightarrow>
      snd (evaluate e w armed now limits j) = j)"
proof -
  let ?open = "evaluate_open w contract durable now limits j"
  have tx: "evaluate_tx w armed now limits j = ?open"
    using assms(1) by (auto simp: evaluate_tx_def watching_def evaluating_def)
  have run: "evaluate e w armed now limits j =
      run_tx NoFault (degraded_at (Some w) ''STORE_UNAVAILABLE'' None) (evaluate_tx w armed now limits) j"
    using assms by (simp add: evaluate_def watching_def)
  show ?thesis
  proof (cases "\<exists>t. am_expires_at durable = Some t \<and> t \<le> now")
    case True
    then have "?open = Some (Rollback (Ok (Expired w (the (am_expires_at durable)))))"
      using assms(1) by (auto simp: evaluate_open_def watching_def)
    then show ?thesis using True by (auto simp: run run_tx_def tx)
  next
    case False
    have "?open \<noteq> Some (Commit j' (Ok (Expired w expires)))" "?open \<noteq> Some (Rollback (Ok (Expired w expires)))" for j'
      using False by (auto simp: evaluate_open_def evaluate_page_no_rollback evaluate_page_no_expiry split: option.splits if_splits)
    then have "fst (evaluate e w armed now limits j) \<noteq> Ok (Expired w expires)"
      by (auto simp: run run_tx_def tx split: option.splits ending.splits)
    then show ?thesis using False by auto
  qed
qed

lemma evaluate_expires_exactly_witness:
  "fst (evaluate sample_env ''w'' sample_armed (datetime_of 7) sample_limits sample_expiring)
     = Ok (Expired ''w'' (datetime_of 5))"
proof -
  obtain progress where "watching ''w'' sample_armed sample_expiring
      (sample_armed\<lparr>am_expires_at := Some (datetime_of 5)\<rparr>) sample_contract progress"
    using sample_expiring_watching by blast
  from evaluate_expires_exactly [OF this sample_fair(3)] show ?thesis by (simp add: less_eq_datetime_def micros_datetime_of)
qed

end
