(* ===== verification/EvaluateEnds.thy ===== *)
theory EvaluateEnds
  imports StoreEvaluate
begin

text \<open>
  The other end of \<open>SQLiteSignalModule.evaluate\<close>: where no receipt satisfies the request, the pages come to an end, and an
  evaluation answers that the wake is not ready.
\<close>

section \<open>The last page\<close>



section \<open>Receipts that are not verified\<close>











section \<open>A receipt that waits for its verification\<close>






section \<open>Evaluation ends\<close>







end
