(* ===== verification/StoreRetention.thy ===== *)
theory StoreRetention
  imports StoreEvaluate
begin

text \<open>
  Retention (\<open>retention_pins\<close>, \<open>release_retention_pins\<close> and \<open>compact_receipts\<close> of \<open>SQLiteSignalModule\<close> in
  \<open>src/src/codex_wake/signal_store.py\<close>): a pin that is not released keeps a receipt, or every receipt
  from a sequence number on, from being compacted away.
\<close>

section \<open>Pins\<close>

record retention_pin =
  tp_pin_id :: string
  tp_wake_id :: string
  tp_receipt_id :: "string option"
  tp_min_local_sequence :: "int option"
  tp_reason :: string
  tp_created_at :: datetime

definition pin_of_row :: "pin_row \<Rightarrow> retention_pin option" where
  "pin_of_row p =
     do { at \<leftarrow> parse_time (pn_created_at p);
          Some \<lparr>tp_pin_id = pn_pin_id p, tp_wake_id = pn_wake_id p,
                tp_receipt_id = (if sql_true (pn_receipt_id p) then pn_receipt_id p else None),
                tp_min_local_sequence = pn_min_local_sequence p, tp_reason = pn_reason p,
                tp_created_at = at\<rparr> }"

definition retention_pins ::
  "fault \<Rightarrow> string option \<Rightarrow> journal \<Rightarrow> retention_pin list outcome" where
  "retention_pins flt w j =
     run_read flt (degraded_at w ''STORE_UNAVAILABLE'' None)
       (\<lambda>j. map_option Ok (those (map pin_of_row
          (sort_key pn_created_at (sort_key pn_pin_id
            (filter (\<lambda>p. w = None \<or> w = Some (pn_wake_id p)) (live_pins j))))))) j"

definition pin_selected :: "string \<Rightarrow> string list \<Rightarrow> pin_row \<Rightarrow> bool" where
  "pin_selected w reasons p =
     (pn_wake_id p = w \<and> pn_released_at p = None \<and> pn_reason p \<in> set reasons)"

definition release_tx :: "string \<Rightarrow> string list \<Rightarrow> datetime \<Rightarrow> journal \<Rightarrow> int outcome tx" where
  "release_tx w reasons released_at j =
     Some (Commit
       (update_pins (pin_selected w reasons) (\<lambda>p. p\<lparr>pn_released_at := Some (format_time released_at)\<rparr>) j)
       (Ok (int (length (filter (pin_selected w reasons) (j_pins j))))))"

definition release_retention_pins ::
  "fault \<Rightarrow> string \<Rightarrow> string list \<Rightarrow> datetime \<Rightarrow> journal \<Rightarrow> int outcome \<times> journal" where
  "release_retention_pins flt w reasons released_at j =
     (if reasons = [] \<or> \<not> set reasons \<subseteq> {''active_anchor'', ''verification_pending'', ''match_evidence''}
      then (degraded_at (Some w) ''INVALID_RETENTION_REQUEST'' None, j)
      else run_tx flt (degraded_at (Some w) ''STORE_UNAVAILABLE'' None) (release_tx w reasons released_at) j)"

section \<open>Compaction\<close>

definition pinned :: "journal \<Rightarrow> receipt_row \<Rightarrow> bool" where
  "pinned j r =
     list_ex (\<lambda>p. pn_receipt_id p = Some (rc_receipt_id r)
                  \<or> (case pn_min_local_sequence p of None \<Rightarrow> False | Some n \<Rightarrow> n \<le> rc_local_sequence r))
       (live_pins j)"

text \<open>
  The three deletions for one receipt.  Deleting it fails while a pin refers to it, and sets the
  reference of a reservation to NULL.
\<close>

definition forget_receipt :: "string \<Rightarrow> journal \<Rightarrow> journal" where
  "forget_receipt rid j =
     j\<lparr>j_pins := filter (\<lambda>p. \<not> (pn_receipt_id p = Some rid \<and> pn_released_at p \<noteq> None)) (j_pins j),
       j_reservations := update_where (\<lambda>r. rv_receipt_id r = Some rid) (\<lambda>r. r\<lparr>rv_receipt_id := None\<rparr>)
         (j_reservations j)\<rparr>"

definition delete_receipt :: "string \<Rightarrow> journal \<Rightarrow> journal option" where
  "delete_receipt rid j =
     (if \<exists>p \<in> set (j_pins j). pn_receipt_id p = Some rid then None
      else Some (j\<lparr>j_receipts := filter (\<lambda>r. rc_receipt_id r \<noteq> rid) (j_receipts j),
                   j_reservations := update_where (\<lambda>r. rv_receipt_id r = Some rid)
                     (\<lambda>r. r\<lparr>rv_receipt_id := None\<rparr>) (j_reservations j)\<rparr>))"

fun compact_rows :: "receipt_row list \<Rightarrow> int \<Rightarrow> int \<Rightarrow> journal \<Rightarrow> (journal \<times> int \<times> int) option" where
  "compact_rows [] deleted retained j = Some (j, deleted, retained)"
| "compact_rows (r # rs) deleted retained j =
     (if pinned j r then compact_rows rs deleted (retained + 1) j
      else do { j' \<leftarrow> delete_receipt (rc_receipt_id r) (forget_receipt (rc_receipt_id r) j);
                compact_rows rs (deleted + 1) retained j' })"

record compaction_result =
  co_scanned :: int
  co_deleted :: int
  co_retained :: int

definition compaction_rows :: "int \<Rightarrow> int \<Rightarrow> journal \<Rightarrow> receipt_row list option" where
  "compaction_rows through lim j =
     do { t \<leftarrow> sql_int through; n \<leftarrow> sql_int lim;
          Some (take (nat n) (sort_key rc_local_sequence
            (filter (\<lambda>r. rc_local_sequence r \<le> t) (j_receipts j)))) }"

definition compact_tx :: "int \<Rightarrow> int \<Rightarrow> journal \<Rightarrow> compaction_result outcome tx" where
  "compact_tx through lim j =
     do { rows \<leftarrow> compaction_rows through lim j;
          (j', deleted, retained) \<leftarrow> compact_rows rows 0 0 j;
          Some (Commit j' (Ok \<lparr>co_scanned = int (length rows), co_deleted = deleted, co_retained = retained\<rparr>)) }"

definition compact_receipts ::
  "fault \<Rightarrow> int \<Rightarrow> int \<Rightarrow> journal \<Rightarrow> compaction_result outcome \<times> journal" where
  "compact_receipts flt through lim j =
     (if through < 0 \<or> lim \<le> 0 then (degraded_at None ''INVALID_RETENTION_REQUEST'' None, j)
      else run_tx flt (degraded_at None ''STORE_UNAVAILABLE'' None) (compact_tx through lim) j)"

section \<open>One deletion\<close>

text \<open>The tables that compaction does not write.\<close>

definition other_tables where
  "other_tables j = (j_meta j, j_instances j, j_sources j, j_arms j, j_progress j, j_lifecycle j, j_outbox j, j_tombstones j)"

definition reservation_columns :: "reservation_row \<Rightarrow> string \<times> string \<times> string \<times> string" where
  "reservation_columns r = (rv_wake_id r, rv_match_token r, rv_matched_at r, rv_evidence_json r)"

interpretation unlinking: row_update reservation_columns "\<lambda>r. r\<lparr>rv_receipt_id := None\<rparr>"
  by unfold_locales (simp add: reservation_columns_def)

interpretation releasing_selected: pin_update "\<lambda>p. p\<lparr>pn_released_at := Some at\<rparr>" for at
  by unfold_locales (simp add: pin_columns_def)

lemma pinned_live: "live_pins j' = live_pins j \<Longrightarrow> pinned j' = pinned j"
  by (simp add: pinned_def fun_eq_iff)

lemma forget_receipt_live: "live_pins (forget_receipt rid j) = live_pins j"
  by (auto simp: live_pins_def forget_receipt_def intro!: filter_cong)

text \<open>Nothing refers to a receipt without a live pin once its released pins are gone.\<close>

lemma delete_unpinned:
  assumes "\<not> pinned j r"
  shows "\<exists>j'. delete_receipt (rc_receipt_id r) (forget_receipt (rc_receipt_id r) j) = Some j'"
  using assms by (auto simp: delete_receipt_def forget_receipt_def pinned_def list_ex_iff live_pins_def)

lemma delete_receipt_frame:
  assumes "delete_receipt rid (forget_receipt rid j) = Some j'"
  shows "j_receipts j' = filter (\<lambda>r. rc_receipt_id r \<noteq> rid) (j_receipts j)
    \<and> other_tables j' = other_tables j
    \<and> live_pins j' = live_pins j
    \<and> map reservation_columns (j_reservations j') = map reservation_columns (j_reservations j)"
proof -
  have "live_pins j' = live_pins (forget_receipt rid j)"
    using assms by (auto simp: delete_receipt_def live_pins_def split: if_splits)
  then show ?thesis
    using assms forget_receipt_live [of rid j]
    by (auto simp: delete_receipt_def forget_receipt_def unlinking.keys_kept other_tables_def split: if_splits)
qed

lemma delete_receipt_ok:
  assumes "delete_receipt rid (forget_receipt rid j) = Some j'" and "schema_ok j"
  shows "schema_ok j'"
proof -
  let ?R = "receipt_ids j - {rid}"
  have gone: "\<forall>p\<in>set (j_pins (forget_receipt rid j)). pn_receipt_id p \<noteq> Some rid"
    and j': "j' = forget_receipt rid j\<lparr>j_receipts := filter (\<lambda>r. rc_receipt_id r \<noteq> rid) (j_receipts j),
        j_reservations := update_where (\<lambda>r. rv_receipt_id r = Some rid) (\<lambda>r. r\<lparr>rv_receipt_id := None\<rparr>)
          (j_reservations (forget_receipt rid j))\<rparr>"
    using assms(1) by (auto simp: delete_receipt_def forget_receipt_def split: if_splits)
  have ids: "receipt_ids j' = ?R" by (auto simp: receipt_ids_def j')
  have receipts: "receipts_ok (instance_keys j) (j_receipts j')"
    using assms(2) by (auto simp: schema_ok_def receipts_ok_def j' distinct_map_filter)
  have "distinct (map pn_pin_id (j_pins j'))"
    using assms(2) by (auto simp: schema_ok_def pins_ok_def j' forget_receipt_def distinct_map_filter)
  then have pins: "pins_ok (wake_ids j) ?R (j_pins j')"
  proof -
    have "\<forall>p\<in>set (j_pins j'). p \<in> set (j_pins j) \<and> pn_receipt_id p \<noteq> Some rid"
      using gone by (simp add: j') (simp add: forget_receipt_def)
    then show ?thesis
      using assms(2) \<open>distinct (map pn_pin_id (j_pins j'))\<close> by (auto simp: schema_ok_def pins_ok_def)
  qed
  have cols: "map reservation_columns (j_reservations j') = map reservation_columns (j_reservations j)"
    by (simp add: j' forget_receipt_def unlinking.keys_kept)
  have "map (g \<circ> reservation_columns) (j_reservations j') = map (g \<circ> reservation_columns) (j_reservations j)" for g :: "_ \<Rightarrow> 'x"
    using cols by (metis list.map_comp)
  from this [of fst] this [of "fst \<circ> snd"]
  have "map rv_wake_id (j_reservations j') = map rv_wake_id (j_reservations j)"
    "map rv_match_token (j_reservations j') = map rv_match_token (j_reservations j)"
    by (simp_all add: comp_def reservation_columns_def)
  then have res: "reservations_ok (wake_ids j) ?R (j_reservations j')"
    using assms(2)
    by (auto simp: schema_ok_def reservations_ok_def) (auto simp: j' forget_receipt_def set_update_where)
  show ?thesis
    using assms(2) receipts pins res ids
    by (simp add: schema_ok_def instance_keys_def wake_ids_def j' forget_receipt_def)
qed

section \<open>The loop\<close>

lemma compact_rows_total: "\<exists>j' d k. compact_rows rows deleted retained j = Some (j', d, k)"
proof (induction rows arbitrary: deleted retained j)
  case Nil
  then show ?case by simp
next
  case (Cons r rows)
  show ?case
    using Cons.IH delete_unpinned [of j r] by (cases "pinned j r") (fastforce split: Option.bind_splits)+
qed

lemma compact_rows_spec:
  assumes "compact_rows rows deleted retained j = Some (j', d, k)"
  shows "(schema_ok j \<longrightarrow> schema_ok j') \<and> live_pins j' = live_pins j
    \<and> j_receipts j' = filter (\<lambda>r. rc_receipt_id r \<notin> rc_receipt_id ` {x \<in> set rows. \<not> pinned j x}) (j_receipts j)
    \<and> map reservation_columns (j_reservations j') = map reservation_columns (j_reservations j)
    \<and> other_tables j' = other_tables j
    \<and> d = deleted + int (length (filter (\<lambda>r. \<not> pinned j r) rows))
    \<and> k = retained + int (length (filter (pinned j) rows))"
  using assms
proof (induction rows arbitrary: deleted retained j)
  case Nil
  then show ?case by simp
next
  case (Cons r rows)
  show ?case
  proof (cases "pinned j r")
    case True
    then have same: "{x. (x = r \<or> x \<in> set rows) \<and> \<not> pinned j x} = {x \<in> set rows. \<not> pinned j x}" by auto
    show ?thesis using Cons.IH [of deleted "retained + 1" j] Cons.prems True by (simp add: same)
  next
    case False
    then obtain j1 where j1: "delete_receipt (rc_receipt_id r) (forget_receipt (rc_receipt_id r) j) = Some j1"
      and rest: "compact_rows rows (deleted + 1) retained j1 = Some (j', d, k)"
      using Cons.prems by (auto split: Option.bind_splits)
    have frame: "j_receipts j1 = filter (\<lambda>x. rc_receipt_id x \<noteq> rc_receipt_id r) (j_receipts j)"
      "other_tables j1 = other_tables j"
      "map reservation_columns (j_reservations j1) = map reservation_columns (j_reservations j)"
      and live: "live_pins j1 = live_pins j" using delete_receipt_frame [OF j1] by blast+
    have pin: "pinned j1 = pinned j" using pinned_live [OF live] .
    have ids: "rc_receipt_id ` {x. (x = r \<or> x \<in> set rows) \<and> \<not> pinned j x}
        = insert (rc_receipt_id r) (rc_receipt_id ` {x \<in> set rows. \<not> pinned j x})" using False by auto
    have IH: "schema_ok j1 \<longrightarrow> schema_ok j'" "live_pins j' = live_pins j1"
      "j_receipts j' = filter (\<lambda>x. rc_receipt_id x \<notin> rc_receipt_id ` {x \<in> set rows. \<not> pinned j x}) (j_receipts j1)"
      "map reservation_columns (j_reservations j') = map reservation_columns (j_reservations j1)"
      "other_tables j' = other_tables j1"
      "d = deleted + 1 + int (length (filter (\<lambda>x. \<not> pinned j x) rows))"
      "k = retained + int (length (filter (pinned j) rows))"
      using Cons.IH [OF rest] unfolding pin by blast+
    have "j_receipts j' = filter (\<lambda>x. rc_receipt_id x \<notin>
        rc_receipt_id ` {x. (x = r \<or> x \<in> set rows) \<and> \<not> pinned j x}) (j_receipts j)"
      unfolding IH(3) frame(1) ids by (auto intro!: filter_cong)
    then show ?thesis
      using IH frame(2,3) delete_receipt_ok [OF j1] live False by simp
  qed
qed

lemma compact_tx_spec:
  assumes "schema_ok j" and "compaction_rows through lim j = Some rows"
  shows "\<exists>j'. compact_tx through lim j = Some (Commit j' (Ok \<lparr>co_scanned = int (length rows),
        co_deleted = int (length (filter (\<lambda>r. \<not> pinned j r) rows)),
        co_retained = int (length (filter (pinned j) rows))\<rparr>))
    \<and> j_receipts j' = filter (\<lambda>r. r \<notin> set rows \<or> pinned j r) (j_receipts j)
    \<and> live_pins j' = live_pins j \<and> other_tables j' = other_tables j
    \<and> map reservation_columns (j_reservations j') = map reservation_columns (j_reservations j)
    \<and> schema_ok j'"
proof -
  obtain j' d k where run: "compact_rows rows 0 0 j = Some (j', d, k)" using compact_rows_total by blast
  have sub: "set rows \<subseteq> set (j_receipts j)"
    using assms(2) by (auto simp: compaction_rows_def split: Option.bind_splits dest!: in_set_takeD)
  have inj: "inj_on rc_receipt_id (set (j_receipts j))"
    using assms(1) by (simp add: schema_ok_def receipts_ok_def distinct_map)
  have "rc_receipt_id r \<in> rc_receipt_id ` {x \<in> set rows. \<not> pinned j x} \<longleftrightarrow> r \<in> set rows \<and> \<not> pinned j r"
    if "r \<in> set (j_receipts j)" for r
    using that sub inj by (auto simp: inj_on_def)
  then have "filter (\<lambda>r. rc_receipt_id r \<notin> rc_receipt_id ` {x \<in> set rows. \<not> pinned j x}) (j_receipts j)
      = filter (\<lambda>r. r \<notin> set rows \<or> pinned j r) (j_receipts j)"
    by (auto intro!: filter_cong)
  then show ?thesis
    using compact_rows_spec [OF run] assms run by (auto simp: compact_tx_def)
qed

interpretation compacted: safe_transaction schema_ok "compact_tx through lim" for through lim
proof unfold_locales
  fix j j' r
  assume ok: "schema_ok j" and run: "compact_tx through lim j = Some (Commit j' r)"
  then obtain rows where "compaction_rows through lim j = Some rows"
    by (auto simp: compact_tx_def split: Option.bind_splits)
  from compact_tx_spec [OF ok this] run show "schema_ok j'" by auto
qed

interpretation pins_released: safe_transaction schema_ok "release_tx w reasons at" for w reasons at
  by unfold_locales (auto simp: release_tx_def releasing.keeps_schema)

section \<open>Properties\<close>

text \<open>Compaction does exactly what is asked: without a fault it always succeeds, looks at the first \<open>limit\<close>
  receipts up to the given sequence number, deletes those that no live pin refers to, neither by their id nor
  by a sequence number they reach, keeps the others, and counts both; nothing but the reference of a
  reservation to a deleted receipt and the released pins on it goes with them, and the schema's
  constraints still hold, so that no foreign key is ever violated.\<close>

theorem compaction_exact:
  assumes "schema_ok j" and "0 \<le> through" and "through < 2 ^ 63" and "0 < lim" and "lim < 2 ^ 63"
  shows "let rows = take (nat lim) (sort_key rc_local_sequence
            (filter (\<lambda>r. rc_local_sequence r \<le> through) (j_receipts j))) in
    \<exists>j'. compact_receipts NoFault through lim j = (Ok \<lparr>co_scanned = int (length rows),
        co_deleted = int (length (filter (\<lambda>r. \<not> pinned j r) rows)),
        co_retained = int (length (filter (pinned j) rows))\<rparr>, j')
    \<and> j_receipts j' = filter (\<lambda>r. r \<notin> set rows \<or> pinned j r) (j_receipts j)
    \<and> live_pins j' = live_pins j \<and> other_tables j' = other_tables j
    \<and> map reservation_columns (j_reservations j') = map reservation_columns (j_reservations j)
    \<and> schema_ok j'"
proof -
  have "compaction_rows through lim j = Some (take (nat lim) (sort_key rc_local_sequence
      (filter (\<lambda>r. rc_local_sequence r \<le> through) (j_receipts j))))"
    using assms(2-5) by (simp add: compaction_rows_def sql_int_def)
  from compact_tx_spec [OF assms(1) this] show ?thesis
    using assms(2,4) by (fastforce simp: compact_receipts_def run_tx_def Let_def)
qed

lemma compaction_exact_witness:
  "\<exists>j'. compact_receipts NoFault 5 10 (sample_received\<lparr>j_pins := []\<rparr>)
      = (Ok \<lparr>co_scanned = 1, co_deleted = 1, co_retained = 0\<rparr>, j') \<and> j_receipts j' = []"
proof -
  let ?j = "sample_received\<lparr>j_pins := []\<rparr>"
  have ok: "schema_ok ?j"
    using sample_received_ok by (simp add: schema_ok_def pins_ok_def instance_keys_def wake_ids_def receipt_ids_def)
  have "\<not> pinned ?j r" for r by (simp add: pinned_def live_pins_def)
  moreover have "j_receipts ?j = [sample_receipt]" "rc_local_sequence sample_receipt = 1"
    by (simp_all add: sample_received_def sample_receipt_def)
  ultimately show ?thesis
    using compaction_exact [OF ok, of 5 10] by auto
qed

text \<open>C37. Compaction never destroys evidence that is in use: however the transaction ends, every receipt that a
  live pin protects and every receipt beyond the given sequence number is still there, no receipt is new, the
  live pins are the same, and every reservation keeps its match, token and evidence.\<close>

theorem compaction_keeps_pinned:
  assumes "schema_ok j" and "compact_receipts flt through lim j = (a, j')"
  shows "set (j_receipts j') \<subseteq> set (j_receipts j)
    \<and> (\<forall>r\<in>set (j_receipts j). pinned j r \<or> through < rc_local_sequence r \<longrightarrow> r \<in> set (j_receipts j'))
    \<and> live_pins j' = live_pins j
    \<and> map reservation_columns (j_reservations j') = map reservation_columns (j_reservations j)"
proof (cases "j' = j")
  case True
  then show ?thesis by auto
next
  case False
  then obtain r where run: "compact_tx through lim j = Some (Commit j' r)"
    using assms(2) by (auto simp: compact_receipts_def split: if_splits dest!: run_tx_cases)
  then obtain rows where rows: "compaction_rows through lim j = Some rows"
    by (auto simp: compact_tx_def split: Option.bind_splits)
  have "\<forall>r\<in>set rows. rc_local_sequence r \<le> through"
    using rows by (auto simp: compaction_rows_def sql_int_def split: Option.bind_splits if_splits dest!: in_set_takeD)
  then show ?thesis using compact_tx_spec [OF assms(1) rows] run by fastforce
qed

lemma compaction_keeps_pinned_witness:
  "sample_receipt \<in> set (j_receipts (snd (compact_receipts NoFault 5 10 sample_received)))"
proof -
  have "pinned sample_received sample_receipt"
    by (simp add: pinned_def live_pins_def sample_received_def sample_journal_def anchor_pin_def)
      (simp add: sample_receipt_def)
  moreover have "sample_receipt \<in> set (j_receipts sample_received)" by (simp add: sample_received_def)
  ultimately show ?thesis
    using compaction_keeps_pinned [OF sample_received_ok prod.collapse [symmetric], of NoFault 5 10] by blast
qed

end
