(* ===== verification/PublisherOk.thy ===== *)
theory PublisherOk
  imports Publisher Codec
begin

text \<open>
  What the publisher promises (\<open>WakeRecordPublisher\<close> of \<open>src/src/codex_wake/signal_records.py\<close>) and that the
  record built for a registration is one that it publishes.  The interface its callers rely on is the
  locale \<open>record_projection\<close>, interpreted on the publisher's own operations.
\<close>

section \<open>The record of a registration can be published\<close>

text \<open>The strings that a record must have, and the registration's identifiers.\<close>

definition armed_fields_ok :: "armed_signal \<Rightarrow> bool" where
  "armed_fields_ok armed \<longleftrightarrow>
     safe_identifier (am_wake_id armed) \<and> safe_identifier (am_arm_id armed)
     \<and> rq_contract_version (am_spec armed) = SInt 1
     \<and> rq_source (am_spec armed) \<noteq> [] \<and> rq_source_instance (am_spec armed) \<noteq> []
     \<and> rq_kind (am_spec armed) \<noteq> [] \<and> rq_subject (am_spec armed) \<noteq> []
     \<and> rq_semantics (am_spec armed) \<in> {''occurrence'', ''state''}
     \<and> rq_condition (am_spec armed) \<in> {''occurs'', ''holds'', ''becomes''}
     \<and> rq_verification (am_spec armed) \<in> {''required'', ''not_required''}
     \<and> (\<forall>c\<in>set (rq_where (am_spec armed)). clause_field c \<noteq> [])
     \<and> 0 \<le> an_local_after_sequence (am_anchor armed)
     \<and> an_recovery (am_anchor armed) \<in> {''local_journal'', ''source_replay'', ''state_recheck''}
     \<and> distinct (map fst (an_baseline (am_anchor armed)))"

definition resume_fields_ok :: "(string \<Rightarrow> string) \<Rightarrow> resume \<Rightarrow> bool" where
  "resume_fields_ok resolve res \<longleftrightarrow>
     rs_prompt res \<noteq> [] \<and> resolve (rs_cwd res) \<noteq> [] \<and> json_wf (JObj (rs_target res))"

lemma format_time_nonempty [simp]: "format_time t \<noteq> []"
  by (simp add: format_time_def Let_def split: prod.split)

lemma safe_identifier_nonempty: "safe_identifier s \<Longrightarrow> s \<noteq> []"
  by (simp add: safe_identifier_def)

text \<open>A record is read back with its keys sorted, which the decoder does not notice.\<close>

lemma sorted_member: "distinct (map fst d) \<Longrightarrow> sort_json (JObj d) = JObj d' \<Longrightarrow> jget d' k = (case dict_get d k of None \<Rightarrow> JNull | Some v \<Rightarrow> sort_json v)"
  using jindex_sorted [of d k] by (auto simp: jget_def split: option.splits)

lemma sort_obj: "\<exists>d'. sort_json (JObj d) = JObj d'"
  by (simp add: sort_json.simps(7))

lemma clause_sorted_ok: "clause_field c \<noteq> [] \<Longrightarrow> clause_ok (sort_json (clause_json c)) = Some True"
proof -
  assume f: "clause_field c \<noteq> []"
  obtain d where d: "clause_json c = JObj d" by (cases c) auto
  obtain d' where d': "sort_json (JObj d) = JObj d'" using sort_obj by blast
  have "distinct (map fst d)" using d by (cases c) auto
  note get = sorted_member [OF this d']
  have "dict_get d' ''value'' = None \<longleftrightarrow> dict_get d ''value'' = None"
    using jindex_sorted [OF \<open>distinct (map fst d)\<close>, of "''value''"] d' by simp
  then show ?thesis
    using f d d' get by (cases c) (auto simp: clause_ok_def nonempty_str_def)
qed

lemma clauses_sorted_ok:
  "\<forall>c\<in>set cs. clause_field c \<noteq> [] \<Longrightarrow> clauses_ok (map (sort_json \<circ> clause_json) cs) = Some True"
  by (induction cs) (simp_all add: clause_sorted_ok)

lemma predicate_json_wf: "armed_fields_ok armed \<Longrightarrow> json_wf (predicate_json armed)"
  by (auto simp: predicate_json_def Let_def armed_fields_ok_def scalars_json_def comp_def)

lemma signal_payload_wf:
  assumes "armed_fields_ok armed" and "resume_fields_ok resolve res"
  shows "json_wf (JObj (signal_payload resolve armed res uuid n attempts))"
proof -
  have "json_wf (predicate_json armed)" "json_wf (JObj (rs_target res))"
    using assms predicate_json_wf by (auto simp: resume_fields_ok_def)
  then show ?thesis by (simp add: signal_payload_def Let_def event_json_def)
qed

lemma signal_payload_decodes:
  assumes armed: "armed_fields_ok armed" and res: "resume_fields_ok resolve res" and uuid: "uuid \<noteq> []" and n: "1 \<le> n"
  shows "\<exists>r. sort_json (JObj (signal_payload resolve armed res uuid n attempts)) = JObj r
    \<and> decode_signal_record (JObj r) = Some (Some r)
    \<and> jget r ''id'' = JStr (am_wake_id armed) \<and> jget r ''status'' = JStr ''pending''"
proof -
  let ?d = "signal_payload resolve armed res uuid n attempts"
  obtain r where r: "sort_json (JObj ?d) = JObj r" using sort_obj by blast
  have d: "distinct (map fst ?d)" by (simp add: signal_payload_def Let_def)
  note get = sorted_member [OF d r]
  obtain pd where pd: "predicate_json armed = JObj pd" and dpd: "distinct (map fst pd)"
    by (simp add: predicate_json_def Let_def)
  obtain p where p: "sort_json (JObj pd) = JObj p" using sort_obj by blast
  note pget = sorted_member [OF dpd p]
  obtain ad where ad: "dict_get pd ''anchor'' = Some (JObj ad)" "distinct (map fst ad)"
    "ad = [(''local_after_sequence'', JInt (an_local_after_sequence (am_anchor armed))),
           (''source_anchor'', JStr (an_source_anchor (am_anchor armed))),
           (''baseline'', scalars_json (an_baseline (am_anchor armed))),
           (''recovery'', JStr (an_recovery (am_anchor armed)))]"
    using pd by (auto simp: predicate_json_def Let_def)
  obtain a where a: "sort_json (JObj ad) = JObj a" using sort_obj by blast
  note aget = sorted_member [OF ad(2) a]
  have ids: "safe_identifier (am_wake_id armed)" "safe_identifier (am_arm_id armed)"
    "am_wake_id armed \<noteq> []" "am_arm_id armed \<noteq> []" "rs_prompt res \<noteq> []" "resolve (rs_cwd res) \<noteq> []"
    using armed res by (simp_all add: armed_fields_ok_def resume_fields_ok_def safe_identifier_nonempty)
  have fields: "jget r ''schema_version'' = JInt 2" "jget r ''id'' = JStr (am_wake_id armed)"
    "jget r ''arm_id'' = JStr (am_arm_id armed)" "jget r ''journal_uuid'' = JStr uuid"
    "jget r ''record_revision'' = JInt n" "jget r ''created_at'' = JStr (format_time (am_registered_at armed))"
    "jget r ''updated_at'' = JStr (format_time (am_registered_at armed))"
    "jget r ''cwd'' = JStr (resolve (rs_cwd res))" "jget r ''prompt'' = JStr (rs_prompt res)"
    "jget r ''status'' = JStr ''pending''" "jget r ''attempts'' = JInt 0" "jget r ''max_attempts'' = JInt attempts"
    "jget r ''ack_timeout_seconds'' = JInt 30"
    "jget r ''next_attempt_at'' = JStr (format_time (am_registered_at armed))"
    "is_jarr (jget r ''events'')" "is_jobj (jget r ''target'')"
    using sort_obj [of "rs_target res"] by (auto simp: get signal_payload_def Let_def)
  have head: "record_head_ok r"
    using ids uuid n
    by (simp add: record_head_ok_def required_strings_def fields nonempty_str_def record_statuses_def is_pos_int_def
        py_eq_def)
  have pred: "jget r ''predicate'' = JObj p"
    using pd p by (simp add: get signal_payload_def Let_def)
  have pfields: "jget p ''type'' = JStr ''signal''" "jget p ''arm_id'' = JStr (am_arm_id armed)"
    "jget p ''source'' = JStr (rq_source (am_spec armed))"
    "jget p ''source_instance'' = JStr (rq_source_instance (am_spec armed))"
    "jget p ''semantics'' = JStr (rq_semantics (am_spec armed))" "jget p ''kind'' = JStr (rq_kind (am_spec armed))"
    "jget p ''subject'' = JStr (rq_subject (am_spec armed))"
    "jget p ''condition'' = JStr (rq_condition (am_spec armed))"
    "jget p ''verification'' = JStr (rq_verification (am_spec armed))"
    "jget p ''contract_version'' = scalar_json (rq_contract_version (am_spec armed))"
    "is_jarr (jget p ''where'')" "is_jobj (jget p ''anchor'')"
    using pd sort_obj ad(1) by (auto simp: pget predicate_json_def Let_def)
  have words: "rq_semantics (am_spec armed) \<noteq> []" "rq_condition (am_spec armed) \<noteq> []"
    "rq_verification (am_spec armed) \<noteq> []"
    using armed by (auto simp: armed_fields_ok_def)
  have ps: "predicate_ok r p"
    using armed ids words
    by (simp add: predicate_ok_def predicate_strings_def pfields fields nonempty_str_def armed_fields_ok_def
        py_eq_def image_iff)
  have w: "jget p ''where'' = JArr (map (sort_json \<circ> clause_json) (rq_where (am_spec armed)))"
    using pd by (auto simp: pget predicate_json_def Let_def)
  have anc: "jget p ''anchor'' = JObj a" using ad(1) a by (simp add: pget)
  have "anchor_ok a" "in_set (jget a ''recovery'') [''local_journal'', ''source_replay'', ''state_recheck''] = Some True"
    using armed by (auto simp: anchor_ok_def aget ad(3) armed_fields_ok_def is_nonneg_int_def scalars_json_def sort_json.simps(7))
  then have "decode_signal_record (JObj r) = Some (Some r)"
    using head pred ps w anc armed clauses_sorted_ok [of "rq_where (am_spec armed)"]
    by (simp add: decode_signal_record_def armed_fields_ok_def)
  moreover have "jget r ''id'' = JStr (am_wake_id armed)" "jget r ''status'' = JStr ''pending''"
    by (simp_all add: get signal_payload_def Let_def)
  ultimately show ?thesis using r by blast
qed

section \<open>The interface of the publisher\<close>

text \<open>
  What \<open>settle\<close> and the store rely on, for one text: a text that is refused changes no file; for a text that
  belongs at a path, an inspection that finds it applied has found it there, applying it answers so only
  when it is there, a file that is already there is never replaced, and nothing else is written; a file elsewhere
  can only be removed, and only the one the record supersedes.
\<close>

locale record_projection =
  fixes insp :: "files \<Rightarrow> publication_result"
    and app :: "files \<Rightarrow> publication_result \<times> files"
    and target :: "path option" and superseded_path :: "path option" and content :: string
  assumes refused: "target = None \<Longrightarrow> app fs = (r, fs') \<Longrightarrow> fs' = fs \<and> pr_outcome r \<noteq> PubApplied"
    and inspect_applied: "target = Some at \<Longrightarrow> pr_outcome (insp fs) = PubApplied \<Longrightarrow> fs at = Some content"
    and applied_content: "target = Some at \<Longrightarrow> app fs = (r, fs') \<Longrightarrow> pr_outcome r = PubApplied \<Longrightarrow> fs' at = Some content"
    and apply_keeps: "target = Some at \<Longrightarrow> app fs = (r, fs') \<Longrightarrow> fs at = Some t \<Longrightarrow> fs' at = Some t"
    and apply_only: "target = Some at \<Longrightarrow> app fs = (r, fs') \<Longrightarrow> fs at = None \<Longrightarrow> fs' at \<in> {None, Some content}"
    and apply_removes: "app fs = (r, fs') \<Longrightarrow> target \<noteq> Some q \<Longrightarrow> fs' q \<noteq> fs q \<Longrightarrow> superseded_path = Some q \<and> fs' q = None"
begin

text \<open>What one application may do to the files.\<close>

definition settled :: "files \<Rightarrow> files \<Rightarrow> bool" where
  "settled fs fs' \<longleftrightarrow>
     (\<forall>q. fs' q \<noteq> fs q \<longrightarrow> target = Some q \<and> fs q = None \<and> fs' q = Some content
        \<or> target \<noteq> Some q \<and> superseded_path = Some q \<and> fs' q = None)"

lemma settled_refl: "settled fs fs"
  by (simp add: settled_def)

lemma apply_settles:
  assumes "app fs = (r, fs')"
  shows "settled fs fs'"
  unfolding settled_def
proof (intro allI impI)
  fix q assume ne: "fs' q \<noteq> fs q"
  show "target = Some q \<and> fs q = None \<and> fs' q = Some content
      \<or> target \<noteq> Some q \<and> superseded_path = Some q \<and> fs' q = None"
  proof (cases "target = Some q")
    case True
    then have "fs q = None" using apply_keeps [OF True assms] ne by (cases "fs q") auto
    then show ?thesis using apply_only [OF True assms] ne True by auto
  next
    case False
    then show ?thesis using apply_removes [OF assms False ne] by simp
  qed
qed

end

section \<open>The publisher keeps it\<close>

lemma superseded_source_cases:
  "remove_superseded_source ok payload fs = fs
   \<or> (\<exists>w. jget payload ''id'' = JStr w \<and> jget payload ''status'' \<in> JStr ` set superseding_statuses
        \<and> remove_superseded_source ok payload fs = fs(record_file ''pending'' w := None))"
  by (auto simp: remove_superseded_source_def split: json.splits option.splits)

lemma check_payload_Inr:
  assumes "check_payload t sha = Inr (payload, at)"
  shows "\<exists>w status. loads t = Some (JObj payload) \<and> decode_signal_record (JObj payload) = Some (Some payload)
    \<and> jget payload ''id'' = JStr w \<and> jget payload ''status'' = JStr status \<and> safe_identifier w
    \<and> status \<in> set publishable_statuses \<and> line_digest t = sha \<and> at = record_file status w"
proof -
  obtain v wid st where v: "loads t = Some v" "jindex v ''id'' = Some wid" "jindex v ''status'' = Some st"
    "in_set st publishable_statuses = Some True"
    using assms by (auto simp: check_payload_def split: option.splits if_splits bool.splits)
  obtain r where dec: "decode_signal_record v = Some (Some r)"
    using assms v by (auto simp: check_payload_def split: option.splits if_splits)
  have r: "v = JObj r" "record_head_ok r" using decode_SomeD [OF dec] by simp_all
  obtain status where st: "st = JStr status" "status \<in> set publishable_statuses"
    using v(4) by (cases st) auto
  obtain w where w: "jget r ''id'' = JStr w" "safe_identifier w" using record_head_id [OF r(2)] by blast
  have "dict_get r ''id'' = Some wid" "dict_get r ''status'' = Some st" using v(2,3) r(1) by simp_all
  then have "wid = JStr w" "jget r ''status'' = JStr status" using w st by (simp_all add: jget_def)
  moreover from this have "payload = r" "line_digest t = sha" "at = record_file status w"
    using assms v dec st by (auto simp: check_payload_def split: if_splits)
  ultimately show ?thesis using v(1) r(1) dec w st(2) by auto
qed

text \<open>The file of a record never is the pending file that it supersedes.\<close>

lemma superseded_elsewhere:
  assumes "check_payload t sha = Inr (payload, at)"
  shows "\<exists>w. jget payload ''id'' = JStr w \<and>
    (remove_superseded_source ok payload fs = fs
     \<or> at \<noteq> record_file ''pending'' w \<and> remove_superseded_source ok payload fs = fs(record_file ''pending'' w := None))"
proof -
  obtain w status where w: "jget payload ''id'' = JStr w" "jget payload ''status'' = JStr status" "at = record_file status w"
    using check_payload_Inr [OF assms] by blast
  have "''pending'' \<notin> set superseding_statuses" by (simp add: superseding_statuses_def)
  then show ?thesis
    using superseded_source_cases [of ok payload fs] w by (auto simp: record_file_def)
qed

lemma publisher_apply_cases:
  assumes run: "publisher_apply cap0 cap1 io ok t sha fs = (r, fs')" and check: "check_payload t sha = Inr (payload, at)"
  shows "(fs' = fs \<and> pr_outcome r \<noteq> PubApplied)
    \<or> (fs at = Some (t @ newline) \<and> fs' = remove_superseded_source ok payload fs \<and> pr_outcome r = PubApplied)
    \<or> (fs at = None \<and> fs' = fs(at \<mapsto> t @ newline) \<and> pr_outcome r \<noteq> PubApplied)
    \<or> (fs at = None \<and> fs' = remove_superseded_source ok payload (fs(at \<mapsto> t @ newline)) \<and> pr_outcome r = PubApplied)"
  using run check
  by (auto simp: publisher_apply_def publisher_apply_amid_def Let_def result_of_def split: option.splits if_splits)

lemma publisher_inspect_applied:
  assumes "pr_outcome (publisher_inspect cap ok t sha fs) = PubApplied" and check: "check_payload t sha = Inr (payload, at)"
  shows "fs at = Some (t @ newline)"
  using assms check_payload_Inr [OF check]
  by (auto simp: publisher_inspect_def Let_def result_of_def split: option.splits if_splits)

text \<open>Where a text belongs, and the pending file of its wake.\<close>

definition record_target :: "string \<Rightarrow> string \<Rightarrow> path option" where
  "record_target t sha = (case check_payload t sha of Inl _ \<Rightarrow> None | Inr (_, at) \<Rightarrow> Some at)"

definition pending_path :: "string \<Rightarrow> path option" where
  "pending_path t =
     (case loads t of
        Some (JObj payload) \<Rightarrow>
          (case jget payload ''id'' of JStr w \<Rightarrow> Some (record_file ''pending'' w) | _ \<Rightarrow> None)
      | _ \<Rightarrow> None)"

lemma record_target_Some: "record_target t sha = Some at \<longleftrightarrow> (\<exists>payload. check_payload t sha = Inr (payload, at))"
  by (auto simp: record_target_def split: sum.splits)

lemma pending_path_of:
  assumes "check_payload t sha = Inr (payload, at)"
  shows "\<exists>w. pending_path t = Some (record_file ''pending'' w) \<and> safe_identifier w \<and>
    (\<forall>ok fs. remove_superseded_source ok payload fs = fs
       \<or> at \<noteq> record_file ''pending'' w \<and> remove_superseded_source ok payload fs = fs(record_file ''pending'' w := None))"
proof -
  obtain w where w: "loads t = Some (JObj payload)" "jget payload ''id'' = JStr w" "safe_identifier w"
    using check_payload_Inr [OF assms] by blast
  then show ?thesis using superseded_elsewhere [OF assms] by (intro exI [of _ w]) (auto simp: pending_path_def)
qed

interpretation publishing_record: record_projection
  "publisher_inspect cap rok t sha" "publisher_apply cap0 cap1 io ok t sha"
  "record_target t sha" "pending_path t" "t @ newline"
  for cap rok t sha cap0 cap1 io ok
proof unfold_locales
  show "fs' = fs \<and> pr_outcome r \<noteq> PubApplied"
    if "record_target t sha = None" and "publisher_apply cap0 cap1 io ok t sha fs = (r, fs')" for fs r fs'
    using that by (auto simp: record_target_def publisher_apply_def publisher_apply_amid_def result_of_def check_payload_def
        split: sum.splits if_splits option.splits bool.splits json.splits)
  show "fs at = Some (t @ newline)"
    if "record_target t sha = Some at" and "pr_outcome (publisher_inspect cap rok t sha fs) = PubApplied" for at fs
    using that publisher_inspect_applied unfolding record_target_Some by blast
  fix at fs r fs' q u
  assume run: "publisher_apply cap0 cap1 io ok t sha fs = (r, fs')"
  { assume "record_target t sha = Some at"
    then obtain payload where check: "check_payload t sha = Inr (payload, at)" by (auto simp: record_target_Some)
    obtain w where rm: "\<And>g. remove_superseded_source ok payload g = g
       \<or> at \<noteq> record_file ''pending'' w \<and> remove_superseded_source ok payload g = g(record_file ''pending'' w := None)"
      using pending_path_of [OF check] by blast
    note cs = publisher_apply_cases [OF run check] and rm' = rm [of fs] rm [of "fs(at \<mapsto> t @ newline)"]
    show "pr_outcome r = PubApplied \<Longrightarrow> fs' at = Some (t @ newline)" using cs rm' by auto
    show "fs at = Some u \<Longrightarrow> fs' at = Some u" using cs rm' by auto
    show "fs at = None \<Longrightarrow> fs' at \<in> {None, Some (t @ newline)}" using cs rm' by auto }
  assume target: "record_target t sha \<noteq> Some q" and ne: "fs' q \<noteq> fs q"
  show "pending_path t = Some q \<and> fs' q = None"
  proof (cases "record_target t sha")
    case None
    then show ?thesis
      using run ne by (auto simp: record_target_def publisher_apply_def publisher_apply_amid_def result_of_def split: sum.splits if_splits)
  next
    case (Some at')
    then obtain payload where check: "check_payload t sha = Inr (payload, at')" by (auto simp: record_target_Some)
    obtain w where path: "pending_path t = Some (record_file ''pending'' w)" and rm: "\<And>g. remove_superseded_source ok payload g = g
       \<or> at' \<noteq> record_file ''pending'' w \<and> remove_superseded_source ok payload g = g(record_file ''pending'' w := None)"
      using pending_path_of [OF check] by blast
    have "at' \<noteq> q" using target Some by simp
    then show ?thesis
      using publisher_apply_cases [OF run check] rm [of fs] rm [of "fs(at' \<mapsto> t @ newline)"] ne path
      by (elim disjE conjE) (auto split: if_splits)
  qed
qed

text \<open>
  What a record supersedes: the pending file of the same wake, when that holds a record of the same journal whose revision is
  not later.
\<close>

definition supersedes :: "string \<Rightarrow> path \<Rightarrow> string \<Rightarrow> bool" where
  "supersedes t q text \<longleftrightarrow>
     (\<exists>new old w m n. loads t = Some (JObj new) \<and> jget new ''id'' = JStr w
        \<and> jget new ''status'' \<in> {JStr ''firing'', JStr ''cancelled'', JStr ''expired''}
        \<and> q = record_file ''pending'' w
        \<and> loads text = Some (JObj old) \<and> decode_signal_record (JObj old) = Some (Some old)
        \<and> jget old ''id'' = JStr w \<and> jget old ''journal_uuid'' = jget new ''journal_uuid''
        \<and> jget old ''record_revision'' = JInt m \<and> jget new ''record_revision'' = JInt n \<and> m \<le> n)"

lemma removed_is_superseded:
  assumes check: "check_payload t sha = Inr (payload, at)" and ne: "remove_superseded_source ok payload fs q \<noteq> fs q"
  shows "q \<noteq> at \<and> remove_superseded_source ok payload fs q = None \<and> (\<exists>text. fs q = Some text \<and> supersedes t q text)"
proof -
  obtain w status where p: "loads t = Some (JObj payload)" "jget payload ''id'' = JStr w" "jget payload ''status'' = JStr status"
    "status \<in> set publishable_statuses" "at = record_file status w" using check_payload_Inr [OF check] by blast
  have old: "\<exists>old m n. loads u = Some (JObj old) \<and> decode_signal_record (JObj old) = Some (Some old)
      \<and> jget old ''id'' = JStr w \<and> jget old ''journal_uuid'' = jget payload ''journal_uuid''
      \<and> jget old ''record_revision'' = JInt m \<and> jget payload ''record_revision'' = JInt n \<and> m \<le> n"
    if old: "superseded payload u" for u
  proof -
    obtain source old m n where "loads u = Some source" "decode_signal_record source = Some (Some old)"
      "jget old ''id'' = jget payload ''id''" "jget old ''journal_uuid'' = jget payload ''journal_uuid''"
      "jget old ''record_revision'' = JInt m" "jget payload ''record_revision'' = JInt n" "m \<le> n"
      using old by (auto simp: superseded_def split: option.splits json.splits)
    then show ?thesis using p(2) decode_SomeD [of source old] by auto
  qed
  have "status \<in> set superseding_statuses" using ne p by (auto simp: remove_superseded_source_def split: if_splits)
  with p(4) have status: "status \<in> {''firing'', ''cancelled'', ''expired''}" by (auto simp: publishable_statuses_def superseding_statuses_def)
  obtain u where u: "fs (record_file ''pending'' w) = Some u" "superseded payload u"
    "remove_superseded_source ok payload fs = fs(record_file ''pending'' w := None)"
    using ne p by (auto simp: remove_superseded_source_def split: if_splits option.splits)
  have q: "q = record_file ''pending'' w" using ne u(3) by (auto split: if_splits)
  have "supersedes t q u"
  proof -
    obtain v m n where "loads u = Some (JObj v)" "decode_signal_record (JObj v) = Some (Some v)" "jget v ''id'' = JStr w"
      "jget v ''journal_uuid'' = jget payload ''journal_uuid''" "jget v ''record_revision'' = JInt m"
      "jget payload ''record_revision'' = JInt n" "m \<le> n" using old [OF u(2)] by blast
    then show ?thesis
      using p(1-3) q status unfolding supersedes_def
      by (intro exI [of _ payload] exI [of _ v] exI [of _ w] exI [of _ m] exI [of _ n]) auto
  qed
  then show ?thesis using u q status p(5) by (auto simp: record_file_def)
qed

section \<open>Properties\<close>

text \<open>The record built for a registration is one that its readers accept: for a registration with safe
  identifiers and the fields the contract allows, the text that \<open>build_signal_record\<close> makes is read back as a
  record the decoder accepts, with the wake's id and status \<open>pending\<close>, its digest is the one that goes with
  it, and the publisher puts it in the directory of pending records under the wake's own name.\<close>

theorem registration_record_is_publishable:
  assumes "build_signal_record resolve armed res uuid n attempts = (t, sha)"
    and "armed_fields_ok armed" and "resume_fields_ok resolve res" and "uuid \<noteq> []" and "1 \<le> n"
  shows "\<exists>r. loads t = Some (JObj r) \<and> decode_signal_record (JObj r) = Some (Some r)
    \<and> jget r ''id'' = JStr (am_wake_id armed) \<and> jget r ''status'' = JStr ''pending''
    \<and> check_payload t sha = Inr (r, (''pending'', am_wake_id armed @ ''.json''))"
proof -
  let ?d = "signal_payload resolve armed res uuid n attempts"
  have t: "t = canonical_json (JObj ?d)" "sha = line_digest t"
    using assms(1) by (auto simp: build_signal_record_def Let_def)
  obtain r where r: "sort_json (JObj ?d) = JObj r" "decode_signal_record (JObj r) = Some (Some r)"
    "jget r ''id'' = JStr (am_wake_id armed)" "jget r ''status'' = JStr ''pending''"
    using signal_payload_decodes [OF assms(2-5)] by blast
  have l: "loads t = Some (JObj r)"
    using loads_canonical [OF signal_payload_wf [OF assms(2,3)]] r(1) t(1) by simp
  have "dict_get r ''id'' = Some (JStr (am_wake_id armed))" "dict_get r ''status'' = Some (JStr ''pending'')"
    using r(3,4) by (auto simp: jget_def split: option.splits)
  then have "check_payload t sha = Inr (r, record_file ''pending'' (am_wake_id armed))"
    using l r(2) assms(2) t(2)
    by (simp add: check_payload_def nonempty_str_def publishable_statuses_def armed_fields_ok_def safe_identifier_nonempty)
  then show ?thesis using l r by (simp add: record_file_def)
qed

definition example_armed :: armed_signal where
  "example_armed =
     \<lparr>am_wake_id = ''w'', am_arm_id = ''arm_w'',
      am_spec = \<lparr>rq_contract_version = SInt 1, rq_source = ''fs'', rq_source_instance = ''a'',
        rq_semantics = ''occurrence'', rq_kind = ''changed'', rq_subject = ''s'', rq_condition = ''occurs'',
        rq_where = [Eq ''path'' (SStr ''x'')], rq_verification = ''required''\<rparr>,
      am_anchor = \<lparr>an_local_after_sequence = 0, an_source_anchor = [], an_baseline = [(''z'', SInt 1)],
        an_recovery = ''local_journal''\<rparr>,
      am_registered_at = datetime_of 0, am_expires_at = None, am_publication = ''prepared''\<rparr>"

definition example_resume :: resume where
  "example_resume = \<lparr>rs_prompt = ''go'', rs_cwd = ''/w'', rs_target = [(''pane'', JInt 1)]\<rparr>"

definition example_record :: "string \<times> string" where
  "example_record = build_signal_record (\<lambda>s. s) example_armed example_resume ''u'' 1 3"

lemma example_fields: "armed_fields_ok example_armed" "resume_fields_ok (\<lambda>s. s) example_resume"
  by (simp_all add: armed_fields_ok_def example_armed_def safe_identifier_def is_alnum_def is_digit_def
      resume_fields_ok_def example_resume_def)

lemma registration_record_is_publishable_witness:
  "\<exists>r. check_payload (fst example_record) (snd example_record) = Inr (r, (''pending'', ''w.json''))"
proof -
  have "build_signal_record (\<lambda>s. s) example_armed example_resume ''u'' 1 3 = (fst example_record, snd example_record)"
    by (simp add: example_record_def)
  from registration_record_is_publishable [OF this example_fields] show ?thesis
    by (auto simp: example_armed_def)
qed

text \<open>C36. Publishing is atomic and removes only what it supersedes, whatever the text, the capability's answers, the failures of
  the file operations, and whatever others do to the files between the check that the target is absent and the
  replacement.  A refused text changes no file.  Otherwise a file that is found at the target is left as it is, and all that the call
  changes is its target, which gets exactly the text, and the pending file of the same wake, which is removed only when the
  target holds the text and it held a record of the same wake and journal whose revision is not later than the one
  published; \<open>Applied\<close> is answered only when the target holds exactly the text; and the target is in one of the four
  directories of publishable records under a name without a separator or a leading dot.\<close>

theorem publisher_apply_atomic:
  assumes "publisher_apply_amid meanwhile cap0 cap1 io ok t sha fs = (r, fs')"
  shows "case record_target t sha of
      None \<Rightarrow> fs' = fs \<and> pr_outcome r \<noteq> PubApplied
    | Some at \<Rightarrow>
        (let found = (if cap0 = None \<and> fs at = None then meanwhile fs else fs) in
         (\<forall>q. fs' q \<noteq> found q \<longrightarrow> fs' at = Some (t @ newline)
            \<and> (if q = at then fs at = None else fs' q = None \<and> (\<exists>text. found q = Some text \<and> supersedes t q text))))
        \<and> (pr_outcome r = PubApplied \<longrightarrow> fs' at = Some (t @ newline))
        \<and> fst at \<in> set publishable_statuses \<and> CHR ''/'' \<notin> set (snd at) \<and> hd (snd at) \<noteq> CHR ''.''"
proof (cases "check_payload t sha")
  case (Inl refused)
  then have "pr_outcome r \<noteq> PubApplied \<and> fs' = fs"
    using assms by (auto simp: publisher_apply_amid_def result_of_def check_payload_def
        split: if_splits option.splits bool.splits json.splits)
  then show ?thesis using Inl by (simp add: record_target_def)
next
  case (Inr checked)
  obtain payload at where c: "checked = (payload, at)" by (cases checked)
  note check = Inr [unfolded c]
  obtain w status where w: "safe_identifier w" "status \<in> set publishable_statuses" "at = record_file status w"
    using check_payload_Inr [OF check] by blast
  have name: "fst at \<in> set publishable_statuses \<and> CHR ''/'' \<notin> set (snd at) \<and> hd (snd at) \<noteq> CHR ''.''"
    using w safe_identifier_no_separator [of w] by (cases w) (auto simp: record_file_def)
  let ?found = "if cap0 = None \<and> fs at = None then meanwhile fs else fs"
  have cs: "fs' = ?found \<and> pr_outcome r \<noteq> PubApplied
    \<or> fs at = Some (t @ newline) \<and> fs' = remove_superseded_source ok payload ?found
    \<or> fs at = None \<and> fs' = ?found(at \<mapsto> t @ newline)
    \<or> fs at = None \<and> fs' = remove_superseded_source ok payload (?found(at \<mapsto> t @ newline))"
    using assms check by (auto simp: publisher_apply_amid_def Let_def result_of_def split: option.splits if_splits)
  note gone = removed_is_superseded [OF check, of ok]
  have at: "remove_superseded_source ok payload g at = g at" for g using gone [of g at] by blast
  have changed: "fs' at = Some (t @ newline) \<and> (if q = at then fs at = None
      else fs' q = None \<and> (\<exists>text. ?found q = Some text \<and> supersedes t q text))" if ne: "fs' q \<noteq> ?found q" for q
    using cs
  proof (elim disjE conjE)
    assume "fs at = Some (t @ newline)" "fs' = remove_superseded_source ok payload ?found"
    then show ?thesis using gone [of ?found q] ne at [of ?found] by auto
  next
    assume "fs at = None" "fs' = remove_superseded_source ok payload (?found(at \<mapsto> t @ newline))"
    then show ?thesis using gone [of "?found(at \<mapsto> t @ newline)" q] ne at [of "?found(at \<mapsto> t @ newline)"]
      by (cases "q = at") auto
  qed (use ne in \<open>auto split: if_splits\<close>)
  have "fs' at = Some (t @ newline)" if "pr_outcome r = PubApplied"
    using cs at [of ?found] at [of "?found(at \<mapsto> t @ newline)"] that by auto
  moreover have "record_target t sha = Some at" using check by (simp add: record_target_def)
  ultimately show ?thesis using name changed by (simp only: option.case Let_def) blast
qed

lemma example_checked:
  "\<exists>r. check_payload (fst example_record) (snd example_record) = Inr (r, (''pending'', ''w.json''))
    \<and> jget r ''status'' = JStr ''pending''"
proof -
  obtain r where r: "sort_json (JObj (signal_payload (\<lambda>s. s) example_armed example_resume ''u'' 1 3)) = JObj r"
    "decode_signal_record (JObj r) = Some (Some r)" "jget r ''id'' = JStr ''w''" "jget r ''status'' = JStr ''pending''"
    using signal_payload_decodes [OF example_fields, of "''u''" 1 3] by (auto simp: example_armed_def)
  have "loads (fst example_record) = Some (JObj r)" "snd example_record = line_digest (fst example_record)"
    using loads_canonical [OF signal_payload_wf [OF example_fields]] r(1)
    by (simp_all add: example_record_def build_signal_record_def Let_def)
  moreover have "dict_get r ''id'' = Some (JStr ''w'')" "dict_get r ''status'' = Some (JStr ''pending'')"
    using r(3,4) by (auto simp: jget_def split: option.splits)
  ultimately show ?thesis
    using r(2,4) by (simp add: check_payload_def nonempty_str_def publishable_statuses_def record_file_def)
qed

lemma publisher_apply_atomic_witness:
  "\<exists>r fs'. publisher_apply_amid (\<lambda>fs. fs((''firing'', ''v.json'') \<mapsto> ''y'')) None None IoFine True
       (fst example_record) (snd example_record) (\<lambda>_. None) = (r, fs')
     \<and> pr_outcome r = PubApplied \<and> fs' (''pending'', ''w.json'') = Some (fst example_record @ newline)"
proof -
  let ?run = "publisher_apply_amid (\<lambda>fs. fs((''firing'', ''v.json'') \<mapsto> ''y'')) None None IoFine True
       (fst example_record) (snd example_record) (\<lambda>_. None)"
  obtain p where p: "check_payload (fst example_record) (snd example_record) = Inr (p, (''pending'', ''w.json''))"
    using example_checked by blast
  obtain r fs' where run: "?run = (r, fs')" by fastforce
  then have "pr_outcome r = PubApplied" using p by (auto simp: publisher_apply_amid_def result_of_def Let_def)
  moreover have "record_target (fst example_record) (snd example_record) = Some (''pending'', ''w.json'')"
    using p by (simp add: record_target_def)
  ultimately show ?thesis using publisher_apply_atomic [OF run] run by simp
qed

text \<open>A file that others put in the place between the check and the replacement is overwritten.\<close>

lemma created_between_is_overwritten:
  assumes "record_target t sha = Some at" and "fs at = None"
  shows "snd (publisher_apply_amid (\<lambda>fs. fs(at \<mapsto> foreign)) None None IoFailsAfter ok t sha fs) at = Some (t @ newline)"
proof -
  obtain payload where "check_payload t sha = Inr (payload, at)" using assms(1) by (auto simp: record_target_Some)
  then show ?thesis using assms(2) by (simp add: publisher_apply_amid_def Let_def)
qed

fun apply_attempts ::
  "(string option \<times> string option \<times> io \<times> bool) list \<Rightarrow> string \<Rightarrow> string \<Rightarrow> files \<Rightarrow> files" where
  "apply_attempts [] t sha fs = fs"
| "apply_attempts ((cap0, cap1, io, ok) # rest) t sha fs =
     apply_attempts rest t sha (snd (publisher_apply cap0 cap1 io ok t sha fs))"

lemma undisturbed_apply:
  assumes "record_target t sha = Some at"
  shows "pr_outcome (fst (publisher_apply None None IoFine ok t sha fs)) = PubApplied \<longleftrightarrow>
    fs at \<in> {None, Some (t @ newline)}"
proof -
  obtain payload where "check_payload t sha = Inr (payload, at)" using assms by (auto simp: record_target_Some)
  then show ?thesis by (auto simp: publisher_apply_def publisher_apply_amid_def result_of_def Let_def split: option.splits)
qed

lemma attempts_keep:
  assumes "record_target t sha = Some at" and "fs at \<in> {None, Some (t @ newline)}"
  shows "apply_attempts calls t sha fs at \<in> {None, Some (t @ newline)}"
  using assms(2)
proof (induction calls arbitrary: fs)
  case Nil
  then show ?case by simp
next
  case (Cons c calls)
  obtain cap0 cap1 io ok where c: "c = (cap0, cap1, io, ok)" by (cases c)
  have "snd (publisher_apply cap0 cap1 io ok t sha fs) at \<in> {None, Some (t @ newline)}"
    using publishing_record.apply_keeps [OF assms(1) prod.collapse [symmetric]]
      publishing_record.apply_only [OF assms(1) prod.collapse [symmetric]] Cons.prems by (cases "fs at") auto
  then show ?case using Cons.IH [of "snd (publisher_apply cap0 cap1 io ok t sha fs)"] by (simp add: c)
qed

text \<open>A publication that failed can be repeated: if an undisturbed call on some files would answer \<open>Applied\<close>,
  then after any number of calls for the same text on these files, each failing at any point or completing,
  an undisturbed call still answers \<open>Applied\<close> and leaves exactly the text in its place.\<close>

theorem publication_can_be_repeated:
  assumes "pr_outcome (fst (publisher_apply None None IoFine ok t sha fs)) = PubApplied"
  shows "\<exists>at. record_target t sha = Some at
    \<and> pr_outcome (fst (publisher_apply None None IoFine ok' t sha (apply_attempts calls t sha fs))) = PubApplied
    \<and> snd (publisher_apply None None IoFine ok' t sha (apply_attempts calls t sha fs)) at = Some (t @ newline)"
proof -
  obtain at where at: "record_target t sha = Some at"
    using publishing_record.refused [OF _ prod.collapse [symmetric]] assms by (cases "record_target t sha") blast+
  have "fs at \<in> {None, Some (t @ newline)}" using undisturbed_apply [OF at] assms by blast
  then have "pr_outcome (fst (publisher_apply None None IoFine ok' t sha (apply_attempts calls t sha fs))) = PubApplied"
    using undisturbed_apply [OF at] attempts_keep [OF at] by blast
  then show ?thesis
    using at publishing_record.applied_content [OF at prod.collapse [symmetric]] by blast
qed

lemma publication_can_be_repeated_witness:
  "pr_outcome (fst (publisher_apply None None IoFine True (fst example_record) (snd example_record)
      (apply_attempts [(None, None, IoFailsAfter, True), (None, Some ''x'', IoFine, True)]
        (fst example_record) (snd example_record) (\<lambda>_. None)))) = PubApplied"
proof -
  have "record_target (fst example_record) (snd example_record) = Some (''pending'', ''w.json'')"
    using example_checked by (auto simp: record_target_def)
  then have "pr_outcome (fst (publisher_apply None None IoFine True (fst example_record) (snd example_record) (\<lambda>_. None))) = PubApplied"
    using undisturbed_apply by blast
  from publication_can_be_repeated [OF this] show ?thesis by blast
qed

end
