(* ===== verification/StoreLifecycle.thy ===== *)
theory StoreLifecycle
  imports StoreRetention PublisherOk
begin

text \<open>
  The end of a registration and the questions asked of the journal about one
  (\<open>retire_terminal_record\<close>, \<open>expire_unreserved\<close>, \<open>terminal_status\<close>, \<open>cleanup_allowed\<close>,
  \<open>cleanup_diagnostic\<close>, \<open>load_armed_signal\<close> and \<open>authorize_firing_record\<close> of \<open>SQLiteSignalModule\<close> in
  \<open>src/src/codex_wake/signal_store.py\<close>).

  Where a function decodes its argument outside its \<open>try\<close>, the \<open>TypeError\<close> of the decoder passes through:
  the result is then \<^term>\<open>None\<close>.
\<close>

section \<open>Retiring a terminal record\<close>

definition tombstone_row_of :: "arm_row \<Rightarrow> string \<Rightarrow> string \<Rightarrow> tombstone_row" where
  "tombstone_row_of row status at =
     \<lparr>tb_idempotency_key = ar_idempotency_key row, tb_intent_fingerprint = ar_intent_fingerprint row,
      tb_wake_id = ar_wake_id row, tb_terminal_status = status, tb_retired_at = at\<rparr>"

definition tombstoned_row :: "arm_row \<Rightarrow> arm_row" where
  "tombstoned_row r = r\<lparr>ar_state := Tombstoned\<rparr>"

definition terminal_life :: "string \<Rightarrow> int \<Rightarrow> string \<Rightarrow> lifecycle_row \<Rightarrow> lifecycle_row" where
  "terminal_life status revision at r =
     r\<lparr>lc_desired_status := status, lc_desired_revision := max (lc_desired_revision r) revision,
       lc_applied_status := Some status,
       lc_applied_revision :=
         Some (max (case lc_applied_revision r of None \<Rightarrow> 0 | Some n \<Rightarrow> n) revision),
       lc_updated_at := at\<rparr>"

definition retire_tx ::
  "string \<Rightarrow> string \<Rightarrow> json \<Rightarrow> json \<Rightarrow> int \<Rightarrow> datetime \<Rightarrow> journal \<Rightarrow> bool outcome tx" where
  "retire_tx w status arm_id uuid revision now j =
     do { journal \<leftarrow> journal_uuid j;
          case arm_of j w of
            None \<Rightarrow> Some (Rollback (degraded_at (Some w) ''TERMINAL_AUTHORITY_MISMATCH'' None))
          | Some row \<Rightarrow>
              if arm_id \<noteq> JStr (ar_arm_id row) \<or> uuid \<noteq> JStr journal
              then Some (Rollback (degraded_at (Some w) ''TERMINAL_AUTHORITY_MISMATCH'' None))
              else if status = ''expired'' \<and> reservation_of j w \<noteq> None
              then Some (Rollback (degraded_at (Some w) ''MATCH_RESERVED'' None))
              else do {
                let at = format_time now;
                let j1 = update_arm (\<lambda>r. ar_wake_id r = w) tombstoned_row j;
                j2 \<leftarrow> upsert_tombstone True (tombstone_row_of row status at) j1;
                n \<leftarrow> sql_int revision;
                let j3 = update_lifecycle (\<lambda>r. lc_wake_id r = w) (terminal_life status n at) j2;
                Some (Commit (release_all_pins w at j3) (Ok True)) } }"

definition retire_terminal_record ::
  "env \<Rightarrow> json \<Rightarrow> datetime \<Rightarrow> world \<Rightarrow> bool outcome option \<times> world" where
  "retire_terminal_record e record now wd =
     (case decode_signal_record record of
        None \<Rightarrow> (None, wd)
      | Some None \<Rightarrow> (Some (degraded_at None ''TERMINAL_RECORD_INVALID'' None), wd)
      | Some (Some r) \<Rightarrow>
          (case (jget r ''id'', jget r ''status'', jget r ''record_revision'') of
             (JStr w, JStr status, JInt revision) \<Rightarrow>
               if status \<notin> set terminal_statuses
               then (Some (degraded_at None ''TERMINAL_RECORD_INVALID'' None), wd)
               else let (answer, j) = run_tx (en_fault e 0) (degraded_at (Some w) ''STORE_UNAVAILABLE'' None)
                      (retire_tx w status (jget r ''arm_id'') (jget r ''journal_uuid'') revision now)
                      (w_journal wd)
                    in (Some answer,
                        \<lparr>w_journal = j,
                         w_files = (case (answer, en_publisher e) of
                           (Ok _, Some pe) \<Rightarrow>
                             (case remove_superseded_pending (pe_unlink_ok pe) record (w_files wd) of
                                None \<Rightarrow> w_files wd | Some (_, fs) \<Rightarrow> fs)
                         | _ \<Rightarrow> w_files wd)\<rparr>)
           | _ \<Rightarrow> (Some (degraded_at None ''TERMINAL_RECORD_INVALID'' None), wd)))"

section \<open>Expiring\<close>

definition expired_life :: "string \<Rightarrow> lifecycle_row \<Rightarrow> lifecycle_row" where
  "expired_life at r =
     r\<lparr>lc_desired_status := ''expired'', lc_applied_status := Some ''expired'', lc_updated_at := at\<rparr>"

text \<open>The conditions, in order; parsing the expiry may raise.\<close>

definition may_expire :: "arm_row \<Rightarrow> datetime \<Rightarrow> bool \<Rightarrow> bool option" where
  "may_expire row now reserved =
     (if ar_state row \<noteq> Published then Some False
      else case ar_expires_at row of
        None \<Rightarrow> Some False
      | Some text \<Rightarrow> do { expires \<leftarrow> parse_time text; Some (expires \<le> now \<and> \<not> reserved) })"

definition expire_tx :: "string \<Rightarrow> datetime \<Rightarrow> journal \<Rightarrow> bool outcome tx" where
  "expire_tx w now j =
     (case arm_of j w of
        None \<Rightarrow> Some (Rollback (Ok False))
      | Some row \<Rightarrow>
          do { may \<leftarrow> may_expire row now (reservation_of j w \<noteq> None);
               if \<not> may then Some (Rollback (Ok False))
               else do {
                 let at = format_time now;
                 let j1 = update_arm (\<lambda>r. ar_wake_id r = w) tombstoned_row j;
                 j2 \<leftarrow> upsert_tombstone False (tombstone_row_of row ''expired'' at) j1;
                 let j3 = update_lifecycle (\<lambda>r. lc_wake_id r = w) (expired_life at) j2;
                 Some (Commit (release_all_pins w at j3) (Ok True)) } })"

definition expire_unreserved :: "fault \<Rightarrow> string \<Rightarrow> datetime \<Rightarrow> journal \<Rightarrow> bool outcome \<times> journal" where
  "expire_unreserved flt w now j =
     run_tx flt (degraded_at (Some w) ''STORE_UNAVAILABLE'' None) (expire_tx w now) j"

definition terminal_status :: "fault \<Rightarrow> string \<Rightarrow> journal \<Rightarrow> string option" where
  "terminal_status flt w j =
     run_read flt None (\<lambda>j. Some (map_option tb_terminal_status (tombstone_of j w))) j"

section \<open>Cleaning up\<close>

definition wake_pins :: "journal \<Rightarrow> string \<Rightarrow> pin_row list" where
  "wake_pins j w = filter (\<lambda>p. pn_wake_id p = w) (live_pins j)"

definition retired :: "journal \<Rightarrow> string \<Rightarrow> bool" where
  "retired j w = (map_option ar_state (arm_of j w) = Some Tombstoned \<and> tombstone_of j w \<noteq> None)"

text \<open>The archived record, if the argument is one.\<close>

definition archived_id :: "json \<Rightarrow> string option option" where
  "archived_id record =
     do { decoded \<leftarrow> decode_signal_record record;
          Some (case decoded of
            None \<Rightarrow> None
          | Some r \<Rightarrow>
              if jget r ''status'' = JStr ''archived'' then jstr (jget r ''id'') else None) }"

definition cleanup_allowed :: "fault \<Rightarrow> json \<Rightarrow> journal \<Rightarrow> bool option" where
  "cleanup_allowed flt record j =
     do { decoded \<leftarrow> archived_id record;
          Some (case decoded of
            None \<Rightarrow> False
          | Some w \<Rightarrow> run_read flt False (\<lambda>j. Some (retired j w \<and> wake_pins j w = [])) j) }"

record diagnostic =
  dx_allowed :: bool
  dx_reasons :: "string list"
  dx_repair :: string

definition cleanup_reasons :: "journal \<Rightarrow> string \<Rightarrow> string list" where
  "cleanup_reasons j w =
     sort (remdups (sort (map pn_reason (wake_pins j w))
       @ (if retired j w then [] else [''registration_not_retired''])))"

definition cleanup_diagnostic :: "fault \<Rightarrow> json \<Rightarrow> journal \<Rightarrow> diagnostic option" where
  "cleanup_diagnostic flt record j =
     do { decoded \<leftarrow> archived_id record;
          Some (case decoded of
            None \<Rightarrow>
              \<lparr>dx_allowed = False, dx_reasons = [''record_not_archived_signal''],
               dx_repair = ''archive a valid terminal signal record before cleanup''\<rparr>
          | Some w \<Rightarrow>
              run_read flt
                \<lparr>dx_allowed = False, dx_reasons = [''journal_unavailable''],
                 dx_repair = ''preserve the record and repair or restore the signal journal before cleanup''\<rparr>
                (\<lambda>j. let reasons = cleanup_reasons j w in
                   Some \<lparr>dx_allowed = (reasons = []), dx_reasons = reasons,
                         dx_repair = (if reasons = [] then []
                           else ''run `codex-wake --wake-root <path> archive '' @ w
                             @ ''` again after verifying the signal journal is writable'')\<rparr>) j) }"

section \<open>Authority\<close>

definition load_armed_signal :: "fault \<Rightarrow> string \<Rightarrow> journal \<Rightarrow> armed_signal option" where
  "load_armed_signal flt w j =
     run_read flt None
       (\<lambda>j. case arm_of j w of
              None \<Rightarrow> Some None
            | Some row \<Rightarrow> if ar_state row = Published then map_option Some (armed_from_row row) else Some None) j"

text \<open>The row of the five-way join.\<close>

definition firing_rows ::
  "string \<Rightarrow> int \<Rightarrow> journal \<Rightarrow> (arm_row \<times> reservation_row \<times> lifecycle_row \<times> outbox_row \<times> string) option" where
  "firing_rows w revision j =
     do { a \<leftarrow> arm_of j w; m \<leftarrow> reservation_of j w; l \<leftarrow> lifecycle_of j w;
          out \<leftarrow> outbox_at j w revision; uuid \<leftarrow> journal_uuid j; Some (a, m, l, out, uuid) }"

definition authorized ::
  "(string, json) dict \<Rightarrow> int \<Rightarrow> arm_row \<times> reservation_row \<times> lifecycle_row \<times> outbox_row \<times> string
    \<Rightarrow> json \<Rightarrow> bool" where
  "authorized r revision rows expected =
     (case rows of
        (a, m, l, out, uuid) \<Rightarrow>
          ar_state a = Published
          \<and> py_eq (JObj r) expected
          \<and> jget r ''arm_id'' = JStr (ar_arm_id a)
          \<and> jget r ''journal_uuid'' = JStr uuid
          \<and> lc_desired_status l = ''firing'' \<and> lc_desired_revision l = revision
          \<and> lc_applied_status l = Some ''firing'' \<and> lc_applied_revision l = Some revision
          \<and> ox_state out = OutApplied
          \<and> is_jobj (jget r ''trigger_match'')
          \<and> (case expected of JObj d \<Rightarrow> py_eq (jget r ''trigger_match'') (jget d ''trigger_match'') | _ \<Rightarrow> False)
          \<and> jindex (jget r ''trigger_match'') ''match_token'' = Some (JStr (rv_match_token m)))"

definition authorize_firing_record :: "fault \<Rightarrow> json \<Rightarrow> journal \<Rightarrow> bool option" where
  "authorize_firing_record flt record j =
     do { decoded \<leftarrow> decode_signal_record record;
          Some (case decoded of
            None \<Rightarrow> False
          | Some r \<Rightarrow>
              jget r ''status'' = JStr ''firing'' \<and>
              (case (jget r ''id'', jget r ''record_revision'') of
                 (JStr w, JInt revision) \<Rightarrow>
                   run_read flt False
                     (\<lambda>j. do { n \<leftarrow> sql_int revision;
                               Some (case firing_rows w n j of
                                 None \<Rightarrow> False
                               | Some (a, m, l, out, uuid) \<Rightarrow>
                                   (case loads (sql_str (ox_payload_json out)) of
                                      None \<Rightarrow> False
                                    | Some expected \<Rightarrow> authorized r n (a, m, l, out, uuid) expected)) }) j
               | _ \<Rightarrow> False)) }"

section \<open>The updates keep the schema\<close>

interpretation tombstoning: arm_update tombstoned_row
  by unfold_locales (simp add: tombstoned_row_def arm_columns_def)

interpretation life_ending: lifecycle_update "terminal_life status n at" for status n at
  by unfold_locales (simp_all add: terminal_life_def le_max_iff_disj)

interpretation life_expiring: lifecycle_update "expired_life at" for at
  by unfold_locales (simp_all add: expired_life_def)

definition tombstone_columns :: "tombstone_row \<Rightarrow> string \<times> string \<times> string" where
  "tombstone_columns t = (tb_idempotency_key t, tb_wake_id t, tb_intent_fingerprint t)"

interpretation rewriting: row_update tombstone_columns
  "\<lambda>x. x\<lparr>tb_terminal_status := status, tb_retired_at := at\<rparr>" for status at
  by unfold_locales (simp add: tombstone_columns_def)

lemma tombstone_maps:
  assumes "map tombstone_columns rows' = map tombstone_columns rows"
  shows "map tb_idempotency_key rows' = map tb_idempotency_key rows" "map tb_wake_id rows' = map tb_wake_id rows"
proof -
  have "map (g \<circ> tombstone_columns) rows' = map (g \<circ> tombstone_columns) rows" for g :: "_ \<Rightarrow> string"
    using assms by (metis list.map_comp)
  from this [of fst] this [of "fst \<circ> snd"]
  show "map tb_idempotency_key rows' = map tb_idempotency_key rows" "map tb_wake_id rows' = map tb_wake_id rows"
    by (simp_all add: comp_def tombstone_columns_def)
qed

lemma upsert_tombstone_frame:
  "upsert_tombstone b t j = Some j' \<Longrightarrow> \<exists>rows. j' = j\<lparr>j_tombstones := rows\<rparr>"
  by (cases "j' = j")
    (auto simp: upsert_tombstone_def split: if_splits intro: exI [of _ "j_tombstones j"])

lemma upsert_tombstone_ok [step_inv]:
  assumes "upsert_tombstone b t j = Some j'" and "schema_ok j"
  shows "schema_ok j'"
proof -
  have "tombstones_ok (j_tombstones j')"
  proof (cases "\<exists>x\<in>set (j_tombstones j). tb_idempotency_key x = tb_idempotency_key t")
    case True
    then have "map tombstone_columns (j_tombstones j') = map tombstone_columns (j_tombstones j)"
      using assms(1) by (auto simp: upsert_tombstone_def rewriting.keys_kept split: if_splits)
    from tombstone_maps [OF this] show ?thesis using assms(2) by (simp add: schema_ok_def tombstones_ok_def)
  next
    case False
    then have "tb_idempotency_key t \<notin> tb_idempotency_key ` set (j_tombstones j)" by (metis imageE)
    then show ?thesis
      using assms False
      by (auto simp: upsert_tombstone_def schema_ok_def tombstones_ok_snoc tombstone_of_def find_key_None split: if_splits)
  qed
  moreover obtain rows where "j' = j\<lparr>j_tombstones := rows\<rparr>" using upsert_tombstone_frame [OF assms(1)] by blast
  ultimately show ?thesis
    using assms(2) by (simp add: schema_ok_def instance_keys_def wake_ids_def receipt_ids_def)
qed

lemmas ending_updates_ok [step_inv] =
  tombstoning.keeps_schema life_ending.keeps_schema life_expiring.keeps_schema

text \<open>What both ends of a registration commit.\<close>

definition end_registration ::
  "string \<Rightarrow> (lifecycle_row \<Rightarrow> lifecycle_row) \<Rightarrow> string \<Rightarrow> journal \<Rightarrow> journal" where
  "end_registration w life at j = release_all_pins w at (update_lifecycle (\<lambda>r. lc_wake_id r = w) life j)"

lemma retire_tx_commit:
  assumes "retire_tx w status arm_id uuid revision now j = Some (Commit j' a)"
  shows "\<exists>row j2. a = Ok True \<and> arm_of j w = Some row \<and> \<not> (status = ''expired'' \<and> reservation_of j w \<noteq> None)
    \<and> arm_id = JStr (ar_arm_id row) \<and> map_option JStr (journal_uuid j) = Some uuid
    \<and> upsert_tombstone True (tombstone_row_of row status (format_time now))
        (update_arm (\<lambda>r. ar_wake_id r = w) tombstoned_row j) = Some j2
    \<and> j' = end_registration w (terminal_life status revision (format_time now)) (format_time now) j2"
  using assms
  by (auto simp: retire_tx_def Let_def end_registration_def sql_int_def split: option.splits Option.bind_splits if_splits)

lemma expire_tx_commit:
  assumes "expire_tx w now j = Some (Commit j' a)"
  shows "\<exists>row expires j2. a = Ok True \<and> arm_of j w = Some row \<and> ar_state row = Published
    \<and> Option.bind (ar_expires_at row) parse_time = Some expires \<and> expires \<le> now \<and> reservation_of j w = None
    \<and> upsert_tombstone False (tombstone_row_of row ''expired'' (format_time now))
        (update_arm (\<lambda>r. ar_wake_id r = w) tombstoned_row j) = Some j2
    \<and> j' = end_registration w (expired_life (format_time now)) (format_time now) j2"
  using assms
  by (auto simp: expire_tx_def may_expire_def Let_def end_registration_def
      split: option.splits Option.bind_splits if_splits)

interpretation retiring: safe_transaction schema_ok "retire_tx w status arm_id uuid revision now"
  for w status arm_id uuid revision now
proof unfold_locales
  fix j j' r
  assume "schema_ok j" and "retire_tx w status arm_id uuid revision now j = Some (Commit j' r)"
  then obtain row j2 where "schema_ok (update_arm (\<lambda>r. ar_wake_id r = w) tombstoned_row j)"
    "upsert_tombstone True (tombstone_row_of row status (format_time now))
        (update_arm (\<lambda>r. ar_wake_id r = w) tombstoned_row j) = Some j2"
    and j': "j' = end_registration w (terminal_life status revision (format_time now)) (format_time now) j2"
    using retire_tx_commit tombstoning.keeps_schema by blast
  then have "schema_ok j2" by (blast intro: upsert_tombstone_ok)
  then show "schema_ok j'" by (simp add: j' end_registration_def step_inv)
qed

interpretation expiring: safe_transaction schema_ok "expire_tx w now" for w now
proof unfold_locales
  fix j j' r
  assume "schema_ok j" and "expire_tx w now j = Some (Commit j' r)"
  then obtain row j2 where "schema_ok (update_arm (\<lambda>r. ar_wake_id r = w) tombstoned_row j)"
    "upsert_tombstone False (tombstone_row_of row ''expired'' (format_time now))
        (update_arm (\<lambda>r. ar_wake_id r = w) tombstoned_row j) = Some j2"
    and j': "j' = end_registration w (expired_life (format_time now)) (format_time now) j2"
    using expire_tx_commit tombstoning.keeps_schema by blast
  then have "schema_ok j2" by (blast intro: upsert_tombstone_ok)
  then show "schema_ok j'" by (simp add: j' end_registration_def step_inv)
qed

section \<open>What is left of an ended registration\<close>

text \<open>A tombstone carries the key and the wake id of one registration.\<close>

definition tombstones_of_arms :: "journal \<Rightarrow> bool" where
  "tombstones_of_arms j \<longleftrightarrow>
     (\<forall>t\<in>set (j_tombstones j). \<exists>a\<in>set (j_arms j).
        ar_idempotency_key a = tb_idempotency_key t \<and> ar_wake_id a = tb_wake_id t)"

lemma release_all_pins_frame:
  "j_arms (release_all_pins w at j) = j_arms j" "j_tombstones (release_all_pins w at j) = j_tombstones j"
  "j_lifecycle (release_all_pins w at j) = j_lifecycle j" "j_reservations (release_all_pins w at j) = j_reservations j"
  by (simp_all add: release_all_pins_def update_pins_def)

lemma wake_pins_released: "wake_pins (release_all_pins w at j) w' = (if w' = w then [] else wake_pins j w')"
proof -
  have "filter (\<lambda>p. pn_wake_id p = w' \<and> pn_released_at p = None)
      (map (\<lambda>p. if pn_wake_id p = w \<and> pn_released_at p = None then p\<lparr>pn_released_at := Some at\<rparr> else p) ps)
    = (if w' = w then [] else filter (\<lambda>p. pn_wake_id p = w' \<and> pn_released_at p = None) ps)" for ps
    by (induction ps) auto
  from this [of "j_pins j"] show ?thesis
    by (simp add: wake_pins_def live_pins_def release_all_pins_def update_pins_def update_where_def conj_commute)
qed

lemma tombstone_of_upserted:
  assumes "upsert_tombstone b t j = Some j'" and "tombstones_ok (j_tombstones j)"
    and "\<forall>x\<in>set (j_tombstones j). tb_idempotency_key x = tb_idempotency_key t \<longleftrightarrow> tb_wake_id x = tb_wake_id t"
  shows "\<exists>x. tombstone_of j' (tb_wake_id t) = Some x
      \<and> (b \<or> tombstone_of j (tb_wake_id t) = None \<longrightarrow> tb_terminal_status x = tb_terminal_status t)"
    and "w' \<noteq> tb_wake_id t \<Longrightarrow> tombstone_of j' w' = tombstone_of j w'"
proof -
  let ?f = "\<lambda>x. x\<lparr>tb_terminal_status := tb_terminal_status t, tb_retired_at := tb_retired_at t\<rparr>"
  let ?P = "\<lambda>x. tb_idempotency_key x = tb_idempotency_key t"
  have upd: "find (\<lambda>x. tb_wake_id x = v) (update_where ?P ?f (j_tombstones j))
      = map_option (\<lambda>x. if ?P x then ?f x else x) (find (\<lambda>x. tb_wake_id x = v) (j_tombstones j))" for v
    unfolding update_where_def by (rule find_map_same) auto
  have "(\<exists>x. tombstone_of j' (tb_wake_id t) = Some x
      \<and> (b \<or> tombstone_of j (tb_wake_id t) = None \<longrightarrow> tb_terminal_status x = tb_terminal_status t))
      \<and> (w' \<noteq> tb_wake_id t \<longrightarrow> tombstone_of j' w' = tombstone_of j w')"
  proof (cases "\<exists>x\<in>set (j_tombstones j). ?P x")
    case True
    then obtain x where x: "x \<in> set (j_tombstones j)" "?P x" by blast
    then have "tb_wake_id x = tb_wake_id t" using assms(3) by blast
    then have found: "find (\<lambda>y. tb_wake_id y = tb_wake_id t) (j_tombstones j) = Some x"
      using find_key [of tb_wake_id "j_tombstones j" x] x assms(2) by (simp add: tombstones_ok_def)
    show ?thesis
    proof (cases b)
      case True
      then have j': "j' = j\<lparr>j_tombstones := update_where ?P ?f (j_tombstones j)\<rparr>"
        using assms(1) x by (auto simp: upsert_tombstone_def split: if_splits)
      have "find (\<lambda>y. tb_wake_id y = w') (update_where ?P ?f (j_tombstones j)) = find (\<lambda>y. tb_wake_id y = w') (j_tombstones j)"
        if "w' \<noteq> tb_wake_id t"
        using that assms(3) find_SomeD [of "\<lambda>y. tb_wake_id y = w'" "j_tombstones j"]
        by (cases "find (\<lambda>y. tb_wake_id y = w') (j_tombstones j)") (auto simp: upd)
      then show ?thesis using x(2) by (simp add: j' tombstone_of_def upd found)
    next
      case False
      then have "j' = j" using assms(1) x by (auto simp: upsert_tombstone_def split: if_splits)
      then show ?thesis using found False by (simp add: tombstone_of_def)
    qed
  next
    case False
    then have "tombstone_of j (tb_wake_id t) = None" "j' = j\<lparr>j_tombstones := j_tombstones j @ [t]\<rparr>"
      using assms(1) by (auto simp: upsert_tombstone_def split: if_splits)
    then show ?thesis by (auto simp: tombstone_of_def find_append split: option.splits)
  qed
  then show "\<exists>x. tombstone_of j' (tb_wake_id t) = Some x
      \<and> (b \<or> tombstone_of j (tb_wake_id t) = None \<longrightarrow> tb_terminal_status x = tb_terminal_status t)"
    "w' \<noteq> tb_wake_id t \<Longrightarrow> tombstone_of j' w' = tombstone_of j w'" by blast+
qed

text \<open>The two ends of a registration leave the same state.\<close>

lemma ended:
  assumes ok: "schema_ok j" and match: "tombstones_of_arms j" and row: "arm_of j w = Some row"
    and up: "upsert_tombstone b (tombstone_row_of row status at) (update_arm (\<lambda>r. ar_wake_id r = w) tombstoned_row j) = Some j2"
    and j': "j' = end_registration w life at j2"
  shows "retired j' w \<and> wake_pins j' w = []
    \<and> (b \<or> tombstone_of j w = None \<longrightarrow> map_option tb_terminal_status (tombstone_of j' w) = Some status)
    \<and> arm_of j' w = Some (tombstoned_row row)
    \<and> (\<forall>w'. w' \<noteq> w \<longrightarrow> arm_of j' w' = arm_of j w' \<and> tombstone_of j' w' = tombstone_of j w' \<and> wake_pins j' w' = wake_pins j w')"
proof -
  let ?j1 = "update_arm (\<lambda>r. ar_wake_id r = w) tombstoned_row j"
  let ?t = "tombstone_row_of row status at"
  have w: "ar_wake_id row = w" "row \<in> set (j_arms j)"
    using row find_SomeD [of "\<lambda>r. ar_wake_id r = w" "j_arms j" row] by (simp_all add: arm_of_def)
  have t: "tb_wake_id ?t = w" "tb_idempotency_key ?t = ar_idempotency_key row" "tb_terminal_status ?t = status"
    using w by (simp_all add: tombstone_row_of_def)
  have inj: "inj_on ar_idempotency_key (set (j_arms j))" "inj_on ar_wake_id (set (j_arms j))"
    using ok by (simp_all add: schema_ok_def arms_ok_def distinct_map)
  have same: "\<forall>x\<in>set (j_tombstones ?j1). tb_idempotency_key x = tb_idempotency_key ?t \<longleftrightarrow> tb_wake_id x = tb_wake_id ?t"
  proof
    fix x assume "x \<in> set (j_tombstones ?j1)"
    then have "x \<in> set (j_tombstones j)" by (simp add: update_arm_def)
    then obtain a where a: "a \<in> set (j_arms j)" "ar_idempotency_key a = tb_idempotency_key x" "ar_wake_id a = tb_wake_id x"
      using match unfolding tombstones_of_arms_def by blast
    have "ar_idempotency_key a = ar_idempotency_key row \<longleftrightarrow> ar_wake_id a = ar_wake_id row"
      using inj a(1) w(2) by (auto dest: inj_onD)
    then show "tb_idempotency_key x = tb_idempotency_key ?t \<longleftrightarrow> tb_wake_id x = tb_wake_id ?t"
      using a t w(1) by simp
  qed
  have tok: "tombstones_ok (j_tombstones ?j1)" using ok by (simp add: schema_ok_def update_arm_def)
  obtain rows where j2: "j2 = ?j1\<lparr>j_tombstones := rows\<rparr>" using upsert_tombstone_frame [OF up] by blast
  have tomb: "tombstone_of j' v = tombstone_of j2 v" "tombstone_of ?j1 v = tombstone_of j v"
    "wake_pins j' v = (if v = w then [] else wake_pins j v)" for v
    by (simp_all add: j' end_registration_def tombstone_of_def release_all_pins_frame wake_pins_released
        update_lifecycle_def update_arm_def j2) (simp add: wake_pins_def live_pins_def)
  have arms: "arm_of j' v = map_option (\<lambda>r. if ar_wake_id r = w then tombstoned_row r else r) (arm_of j v)" for v
    using tombstoning.arm_found [of "\<lambda>r. ar_wake_id r = w" j v]
    by (simp add: j' end_registration_def arm_of_def release_all_pins_frame update_lifecycle_def j2)
  have arm': "arm_of j' v = (if v = w then Some (tombstoned_row row) else arm_of j v)" for v
  proof (cases "arm_of j v")
    case None
    then show ?thesis using row by (auto simp: arms)
  next
    case (Some r)
    then have "ar_wake_id r = v" using find_SomeD [of "\<lambda>r. ar_wake_id r = v" "j_arms j" r] by (simp add: arm_of_def)
    then show ?thesis using row Some by (auto simp: arms)
  qed
  obtain x where "tombstone_of j2 w = Some x"
    "b \<or> tombstone_of j w = None \<longrightarrow> tb_terminal_status x = status"
    using tombstone_of_upserted(1) [OF up tok same] tomb(2) t by auto
  moreover have "tombstone_of j2 v = tombstone_of j v" if "v \<noteq> w" for v
    using tombstone_of_upserted(2) [OF up tok same, of v] tomb(2) t that by simp
  ultimately show ?thesis
    by (auto simp: retired_def tomb arm' tombstoned_row_def)
qed

lemma retire_Ok:
  assumes "retire_terminal_record e record now wd = (Some (Ok b), wd')"
  shows "\<exists>r w status revision. record = JObj r \<and> jget r ''id'' = JStr w \<and> jget r ''status'' = JStr status
    \<and> status \<in> set terminal_statuses \<and> jget r ''record_revision'' = JInt revision
    \<and> retire_tx w status (jget r ''arm_id'') (jget r ''journal_uuid'') revision now (w_journal wd)
        = Some (Commit (w_journal wd') (Ok b))"
proof -
  obtain r w status revision where r: "decode_signal_record record = Some (Some r)" "jget r ''id'' = JStr w"
    "jget r ''status'' = JStr status" "jget r ''record_revision'' = JInt revision" "status \<in> set terminal_statuses"
    and run: "run_tx (en_fault e 0) (degraded_at (Some w) ''STORE_UNAVAILABLE'' None)
        (retire_tx w status (jget r ''arm_id'') (jget r ''journal_uuid'') revision now) (w_journal wd) = (Ok b, w_journal wd')"
    using assms
    by (auto simp: retire_terminal_record_def split: option.splits json.splits if_splits prod.splits)
  have "retire_tx w status (jget r ''arm_id'') (jget r ''journal_uuid'') revision now (w_journal wd) \<noteq> Some (Rollback (Ok b))"
    by (auto simp: retire_tx_def Let_def split: Option.bind_splits option.splits if_splits)
  then show ?thesis using r run_tx_cases [OF run] decode_SomeD [OF r(1)] by auto
qed

lemma authorize_True:
  assumes "authorize_firing_record flt record j = Some True"
  shows "\<exists>r w revision a m l out uuid expected. record = JObj r \<and> flt = NoFault \<and> jget r ''status'' = JStr ''firing''
    \<and> jget r ''id'' = JStr w \<and> jget r ''record_revision'' = JInt revision
    \<and> firing_rows w revision j = Some (a, m, l, out, uuid)
    \<and> loads (sql_str (ox_payload_json out)) = Some expected \<and> authorized r revision (a, m, l, out, uuid) expected"
proof -
  obtain r where dec: "decode_signal_record record = Some (Some r)"
    using assms by (auto simp: authorize_firing_record_def split: Option.bind_splits option.splits)
  obtain w revision where head: "jget r ''status'' = JStr ''firing''" "jget r ''id'' = JStr w"
    "jget r ''record_revision'' = JInt revision"
    using assms by (auto simp: authorize_firing_record_def dec split: json.splits)
  have "flt = NoFault" and n: "sql_int revision = Some revision"
    using assms head by (auto simp: authorize_firing_record_def dec run_read_def sql_int_def split: if_splits)
  moreover obtain rows where "firing_rows w revision j = Some rows"
    using assms head by (auto simp: authorize_firing_record_def dec run_read_def n split: if_splits option.splits)
  moreover obtain a m l out uuid where "rows = (a, m, l, out, uuid)" by (cases rows)
  moreover from calculation obtain expected where
    "loads (sql_str (ox_payload_json out)) = Some expected" "authorized r revision (a, m, l, out, uuid) expected"
    using assms head by (cases "loads (sql_str (ox_payload_json out))") (simp_all add: authorize_firing_record_def dec run_read_def)
  ultimately show ?thesis using head decode_SomeD [OF dec] by blast
qed

lemma not_authorized_if_tombstoned:
  assumes "arm_of j w = Some row" and "ar_state row = Tombstoned" and "jget r ''id'' = JStr w"
  shows "authorize_firing_record flt (JObj r) j \<noteq> Some True"
proof
  assume "authorize_firing_record flt (JObj r) j = Some True"
  from authorize_True [OF this] assms(3) obtain revision a m l out uuid expected where
    rows: "firing_rows w revision j = Some (a, m, l, out, uuid)" and auth: "authorized r revision (a, m, l, out, uuid) expected"
    by auto
  then have "a = row" using assms(1) by (auto simp: firing_rows_def split: Option.bind_splits)
  then show False using auth assms(2) by (simp add: authorized_def)
qed

lemma decode_other_status:
  assumes "decode_signal_record (JObj r) = Some (Some r)" and "status \<in> set record_statuses"
  shows "decode_signal_record (JObj (dict_set ''status'' (JStr status) r))
    = Some (Some (dict_set ''status'' (JStr status) r))"
proof -
  let ?r = "dict_set ''status'' (JStr status) r"
  have "record_head_ok r" "record_head_ok ?r \<longleftrightarrow> record_head_ok r"
    using assms decode_SomeD [OF assms(1)]
    by (auto simp: record_head_ok_def required_strings_def nonempty_str_def record_statuses_def)
  moreover have "predicate_ok ?r p \<longleftrightarrow> predicate_ok r p" for p by (simp add: predicate_ok_def)
  ultimately show ?thesis
    using assms(1)
    by (simp add: decode_signal_record_def split: json.splits if_splits) (auto split: Option.bind_splits if_splits)
qed

text \<open>The record of the sample registration, failed.\<close>

lemma sample_failed_record:
  "\<exists>r. decode_signal_record (JObj r) = Some (Some r) \<and> jget r ''id'' = JStr ''w'' \<and> jget r ''status'' = JStr ''failed''
     \<and> jget r ''arm_id'' = JStr ''arm_w'' \<and> jget r ''journal_uuid'' = JStr ''u'' \<and> jget r ''record_revision'' = JInt 1"
proof -
  let ?armed = "sample_armed\<lparr>am_publication := ''prepared''\<rparr>"
  let ?d = "signal_payload (\<lambda>s. s) ?armed sample_resume ''u'' 1 3"
  have fields: "armed_fields_ok ?armed" "resume_fields_ok (\<lambda>s. s) sample_resume"
    by (simp_all add: armed_fields_ok_def sample_armed_def sample_spec_def sample_anchor_def safe_identifier_def
        is_alnum_def is_digit_def resume_fields_ok_def sample_resume_def)
  obtain r where r: "sort_json (JObj ?d) = JObj r" "decode_signal_record (JObj r) = Some (Some r)"
    using signal_payload_decodes [OF fields, of "''u''" 1 3] by auto
  have "distinct (map fst ?d)" by (simp add: signal_payload_def Let_def)
  note get = sorted_member [OF this r(1)]
  have "jget r ''id'' = JStr ''w''" "jget r ''arm_id'' = JStr ''arm_w''" "jget r ''journal_uuid'' = JStr ''u''"
    "jget r ''record_revision'' = JInt 1"
    by (simp_all add: get signal_payload_def Let_def sample_armed_def)
  then show ?thesis
    using decode_other_status [OF r(2), of "''failed''"]
    by (intro exI [of _ "dict_set ''status'' (JStr ''failed'') r"]) (simp add: record_statuses_def)
qed

definition sample_world :: world where
  "sample_world = \<lparr>w_journal = sample_received, w_files = (\<lambda>_. None)\<rparr>"

lemma sample_retire:
  "\<exists>v wd'. retire_terminal_record sample_env v (datetime_of 9) sample_world = (Some (Ok True), wd')"
proof -
  obtain r where r: "decode_signal_record (JObj r) = Some (Some r)" "jget r ''id'' = JStr ''w''"
    "jget r ''status'' = JStr ''failed''" "jget r ''arm_id'' = JStr ''arm_w''" "jget r ''journal_uuid'' = JStr ''u''"
    "jget r ''record_revision'' = JInt 1" using sample_failed_record by blast
  have "journal_uuid sample_received = Some ''u''" "ar_arm_id sample_arm_row = ''arm_w''"
    by (simp_all add: journal_uuid_def sample_received_def sample_journal_def sample_arm_row_def)
  moreover have "\<exists>j2. upsert_tombstone True t (update_arm P f sample_received) = Some j2" for t P f
    by (simp add: upsert_tombstone_def update_arm_def sample_received_def sample_journal_def tombstone_of_def)
  ultimately have "\<exists>j'. retire_tx ''w'' ''failed'' (JStr ''arm_w'') (JStr ''u'') 1 (datetime_of 9) sample_received
      = Some (Commit j' (Ok True))"
    by (simp add: retire_tx_def Let_def sql_int_def) (metis Option.bind.bind_lunit)
  then show ?thesis
    by (intro exI [of _ "JObj r"])
      (auto simp: retire_terminal_record_def r sample_env_def run_tx_def terminal_statuses_def sample_world_def)
qed

lemma sample_tombstones: "tombstones_of_arms sample_received"
  by (simp add: tombstones_of_arms_def sample_received_def sample_journal_def)

section \<open>Properties\<close>

text \<open>Retiring a record ends its registration completely and touches no other: when it is answered \<open>True\<close>,
  the record was terminal and carried the arm id and the journal id of its registration, and was not expired
  while a match was reserved; afterwards the registration is tombstoned under its idempotency key, the
  terminal status is the record's, no live pin is left, no record of the wake is authorised to fire, an archived
  record of the wake may be cleaned up, and every other wake's registration, tombstone and pins are unchanged.\<close>

theorem retire_ends_registration:
  assumes "retire_terminal_record e record now wd = (Some (Ok b), wd')"
    and "schema_ok (w_journal wd)" and "tombstones_of_arms (w_journal wd)"
  shows "\<exists>r w status row. record = JObj r \<and> jget r ''id'' = JStr w \<and> jget r ''status'' = JStr status
    \<and> status \<in> set terminal_statuses \<and> arm_of (w_journal wd) w = Some row
    \<and> jget r ''arm_id'' = JStr (ar_arm_id row)
    \<and> Some (jget r ''journal_uuid'') = map_option JStr (journal_uuid (w_journal wd))
    \<and> (status = ''expired'' \<longrightarrow> reservation_of (w_journal wd) w = None)
    \<and> retired (w_journal wd') w \<and> terminal_status NoFault w (w_journal wd') = Some status
    \<and> (\<forall>other flt. jget other ''id'' = JStr w \<longrightarrow> authorize_firing_record flt (JObj other) (w_journal wd') \<noteq> Some True)
    \<and> (\<forall>other. archived_id other = Some (Some w) \<longrightarrow> cleanup_allowed NoFault other (w_journal wd') = Some True)
    \<and> (\<forall>w'. w' \<noteq> w \<longrightarrow> arm_of (w_journal wd') w' = arm_of (w_journal wd) w'
         \<and> tombstone_of (w_journal wd') w' = tombstone_of (w_journal wd) w'
         \<and> wake_pins (w_journal wd') w' = wake_pins (w_journal wd) w')"
proof -
  obtain r w status revision where r: "record = JObj r" "jget r ''id'' = JStr w" "jget r ''status'' = JStr status"
    "status \<in> set terminal_statuses"
    and tx: "retire_tx w status (jget r ''arm_id'') (jget r ''journal_uuid'') revision now (w_journal wd)
        = Some (Commit (w_journal wd') (Ok b))"
    using retire_Ok [OF assms(1)] by blast
  obtain row j2 where row: "arm_of (w_journal wd) w = Some row" "jget r ''arm_id'' = JStr (ar_arm_id row)"
    "map_option JStr (journal_uuid (w_journal wd)) = Some (jget r ''journal_uuid'')"
    "\<not> (status = ''expired'' \<and> reservation_of (w_journal wd) w \<noteq> None)"
    and up: "upsert_tombstone True (tombstone_row_of row status (format_time now))
        (update_arm (\<lambda>r. ar_wake_id r = w) tombstoned_row (w_journal wd)) = Some j2"
    and j': "w_journal wd' = end_registration w (terminal_life status revision (format_time now)) (format_time now) j2"
    using retire_tx_commit [OF tx] by blast
  have all: "retired (w_journal wd') w" "wake_pins (w_journal wd') w = []"
    "map_option tb_terminal_status (tombstone_of (w_journal wd') w) = Some status"
    "arm_of (w_journal wd') w = Some (tombstoned_row row)"
    "\<forall>w'. w' \<noteq> w \<longrightarrow> arm_of (w_journal wd') w' = arm_of (w_journal wd) w'
         \<and> tombstone_of (w_journal wd') w' = tombstone_of (w_journal wd) w'
         \<and> wake_pins (w_journal wd') w' = wake_pins (w_journal wd) w'"
    using ended [OF assms(2,3) row(1) up j'] by blast+
  have "ar_state (tombstoned_row row) = Tombstoned" by (simp add: tombstoned_row_def)
  then have "\<forall>other flt. jget other ''id'' = JStr w \<longrightarrow> authorize_firing_record flt (JObj other) (w_journal wd') \<noteq> Some True"
    using not_authorized_if_tombstoned [OF all(4)] by blast
  moreover have "terminal_status NoFault w (w_journal wd') = Some status"
    using all(3) by (simp add: terminal_status_def run_read_def)
  moreover have "\<forall>other. archived_id other = Some (Some w) \<longrightarrow> cleanup_allowed NoFault other (w_journal wd') = Some True"
    using all(1,2) by (simp add: cleanup_allowed_def run_read_def)
  ultimately show ?thesis using r row all(1,5) by auto
qed

lemma retire_ends_registration_witness:
  "\<exists>v wd' w. retire_terminal_record sample_env v (datetime_of 9) sample_world = (Some (Ok True), wd')
     \<and> retired (w_journal wd') w"
proof -
  obtain v wd' where run: "retire_terminal_record sample_env v (datetime_of 9) sample_world = (Some (Ok True), wd')"
    using sample_retire by blast
  have "schema_ok (w_journal sample_world)" "tombstones_of_arms (w_journal sample_world)"
    by (simp_all add: sample_world_def sample_received_ok sample_tombstones)
  from retire_ends_registration [OF run this] run show ?thesis by blast
qed

text \<open>A wake expires in the journal exactly when it may: \<open>expire_unreserved\<close> answers \<open>True\<close> only for a
  published registration whose expiry has come and that has no reservation, and then its registration is
  tombstoned, its pins are released and nothing of it can fire; for a wake with a reservation the journal is
  always unchanged, and so it is whatever else is answered, unless the answer to a commit is lost.\<close>

theorem expire_only_unreserved:
  assumes "expire_unreserved flt w now j = (a, j')" and "schema_ok j" and "tombstones_of_arms j"
  shows "(a = Ok True \<longrightarrow>
      (\<exists>row expires. arm_of j w = Some row \<and> ar_state row = Published
        \<and> Option.bind (ar_expires_at row) parse_time = Some expires \<and> expires \<le> now \<and> reservation_of j w = None)
      \<and> retired j' w \<and> wake_pins j' w = []
      \<and> (\<forall>other flt. jget other ''id'' = JStr w \<longrightarrow> authorize_firing_record flt (JObj other) j' \<noteq> Some True))
    \<and> (a \<noteq> Ok True \<and> flt \<noteq> FaultAfter \<or> reservation_of j w \<noteq> None \<longrightarrow> j' = j)"
proof (cases "\<exists>r. expire_tx w now j = Some (Commit j' r)")
  case True
  then obtain r where tx: "expire_tx w now j = Some (Commit j' r)" by blast
  obtain row expires j2 where row: "r = Ok True" "arm_of j w = Some row" "ar_state row = Published"
    "Option.bind (ar_expires_at row) parse_time = Some expires" "expires \<le> now" "reservation_of j w = None"
    and up: "upsert_tombstone False (tombstone_row_of row ''expired'' (format_time now))
        (update_arm (\<lambda>r. ar_wake_id r = w) tombstoned_row j) = Some j2"
    and j': "j' = end_registration w (expired_life (format_time now)) (format_time now) j2"
    using expire_tx_commit [OF tx] by blast
  have "retired j' w \<and> wake_pins j' w = []" and arm': "arm_of j' w = Some (tombstoned_row row)"
    using ended [OF assms(2,3) row(2) up j'] by blast+
  moreover have "ar_state (tombstoned_row row) = Tombstoned" by (simp add: tombstoned_row_def)
  then have "\<forall>other flt. jget other ''id'' = JStr w \<longrightarrow> authorize_firing_record flt (JObj other) j' \<noteq> Some True"
    using not_authorized_if_tombstoned [OF arm'] by blast
  moreover have "flt = FaultBefore \<longrightarrow> j' = j" "flt = NoFault \<longrightarrow> a = Ok True"
    using assms(1) tx row(1) by (auto simp: expire_unreserved_def run_tx_def)
  ultimately show ?thesis using row by (cases flt) auto
next
  case False
  then have "j' = j" using assms(1) by (auto simp: expire_unreserved_def dest!: run_tx_cases)
  moreover have "a \<noteq> Ok True"
  proof
    assume "a = Ok True"
    moreover have "expire_tx w now j \<noteq> Some (Rollback (Ok True))"
      by (auto simp: expire_tx_def Let_def split: option.splits Option.bind_splits if_splits)
    ultimately show False
      using assms(1) False by (auto simp: expire_unreserved_def dest!: run_tx_cases)
  qed
  ultimately show ?thesis by simp
qed

lemma expire_only_unreserved_witness:
  "retired (snd (expire_unreserved NoFault ''w'' (datetime_of 7) sample_expiring)) ''w''"
proof -
  let ?run = "expire_unreserved NoFault ''w'' (datetime_of 7) sample_expiring"
  obtain progress where w: "watching ''w'' sample_armed sample_expiring
      (sample_armed\<lparr>am_expires_at := Some (datetime_of 5)\<rparr>) sample_contract progress"
    using sample_expiring_watching by blast
  have row: "arm_of sample_expiring ''w'' = Some (sample_arm_row\<lparr>ar_expires_at := Some (format_time (datetime_of 5))\<rparr>)"
    by (simp add: arm_of_def sample_expiring_def) (simp add: sample_arm_row_def)
  have "\<exists>j2. upsert_tombstone False t (update_arm P f sample_expiring) = Some j2" for t P f
    by (simp add: upsert_tombstone_def update_arm_def sample_expiring_def sample_received_def sample_journal_def tombstone_of_def)
  moreover have "datetime_of 5 \<le> datetime_of 7" by (simp add: less_eq_datetime_def micros_datetime_of)
  moreover have "ar_state (sample_arm_row\<lparr>ar_expires_at := Some (format_time (datetime_of 5))\<rparr>) = Published"
    by (simp add: sample_arm_row_def)
  ultimately have "\<exists>j'. expire_tx ''w'' (datetime_of 7) sample_expiring = Some (Commit j' (Ok True))"
    using watchingD(1) [OF w] by (simp add: expire_tx_def row may_expire_def Let_def) (metis Option.bind.bind_lunit)
  then have "?run = (Ok True, snd ?run)" by (auto simp: expire_unreserved_def run_tx_def)
  moreover have "schema_ok sample_expiring" "tombstones_of_arms sample_expiring"
    using sample_received_ok
    by (simp_all add: sample_expiring_def schema_ok_def instance_keys_def receipt_ids_def wake_ids_def
        sample_received_def sample_journal_def arms_ok_def tombstones_of_arms_def sample_arm_row_def in_key_def)
  ultimately show ?thesis using expire_only_unreserved [of NoFault "''w''" "datetime_of 7" sample_expiring] by blast
qed

text \<open>C38. The explanation agrees with the decision: for every record, every journal and every fault, the cleanup
  diagnostic allows what \<open>cleanup_allowed\<close> allows and refuses with at least one reason what it refuses.\<close>

theorem cleanup_diagnostic_agrees:
  "map_option dx_allowed (cleanup_diagnostic flt record j) = cleanup_allowed flt record j
   \<and> map_option (\<lambda>d. dx_reasons d = []) (cleanup_diagnostic flt record j) = cleanup_allowed flt record j"
proof -
  have "cleanup_reasons j w = [] \<longleftrightarrow> retired j w \<and> wake_pins j w = []" for w
  proof -
    have "cleanup_reasons j w = [] \<longleftrightarrow> set (cleanup_reasons j w) = {}" by simp
    then show ?thesis by (simp add: cleanup_reasons_def)
  qed
  then show ?thesis
    by (auto simp: cleanup_diagnostic_def cleanup_allowed_def run_read_def Let_def split: option.splits Option.bind_splits)
qed

end
