(* ===== verification/StoreMigrate.thy ===== *)
theory StoreMigrate
  imports StoreArm
begin

text \<open>
  Opening a journal (\<open>_initialize\<close>, \<open>_migrate_v1_to_v2\<close>, \<open>journal_status\<close> and the constructor of
  \<open>SQLiteSignalModule\<close> in \<open>src/src/codex_wake/signal_store.py\<close>).  A database file has the two numbers of
  its header (\<open>application_id\<close> and \<open>user_version\<close>), other objects or none, and the tables.  Of a schema-v1
  journal the tables that v2 adds are empty, and the journal's uuid is not there yet.
\<close>

definition application_id :: int where
  "application_id = 0x4357414B"

record database =
  db_application_id :: int
  db_user_version :: int
  db_foreign_objects :: bool
  db_tables :: "journal option"

section \<open>From schema v1\<close>

text \<open>An arm that v1 had published is prepared: its record is still to be written.\<close>

definition migrated_arm :: "arm_row \<Rightarrow> arm_row" where
  "migrated_arm r =
     (if ar_state r = Published
      then r\<lparr>ar_state := Prepared, ar_preparer_token := None, ar_preparation_expires_at := None,
             ar_prepared_at := ar_published_at r, ar_published_at := None\<rparr>
      else r\<lparr>ar_state := Preparing, ar_prepared_at := None, ar_published_at := None\<rparr>)"

text \<open>The insertion into \<open>arms\<close> with foreign keys switched off.\<close>

definition insert_migrated :: "arm_row \<Rightarrow> journal \<Rightarrow> journal option" where
  "insert_migrated r j =
     (if ar_contract_version r \<noteq> 1
         \<or> arm_with_id j (ar_arm_id r) \<noteq> None \<or> arm_of j (ar_wake_id r) \<noteq> None
         \<or> arm_keyed j (ar_idempotency_key r) \<noteq> None then None
      else Some (j\<lparr>j_arms := j_arms j @ [r]\<rparr>))"

definition migrate_arm :: "(string \<Rightarrow> string) \<Rightarrow> string \<Rightarrow> arm_row \<Rightarrow> journal \<Rightarrow> journal option" where
  "migrate_arm resolve uuid r j =
     do { j1 \<leftarrow> insert_migrated (migrated_arm r) j;
          if ar_state r \<noteq> Published then Some j1
          else do {
            armed \<leftarrow> armed_from_row (migrated_arm r);
            res \<leftarrow> resume_from_json (ar_resume_json r);
            at \<leftarrow> ar_published_at r;
            let (text, sha) = build_signal_record resolve armed res uuid 1 3;
            j2 \<leftarrow> insert_lifecycle (pending_life (ar_wake_id r) at) j1;
            insert_outbox False (put_row (ar_wake_id r) 1 ''pending'' None text sha at) j2 } }"

fun migrate_arms :: "(string \<Rightarrow> string) \<Rightarrow> string \<Rightarrow> arm_row list \<Rightarrow> journal \<Rightarrow> journal option" where
  "migrate_arms resolve uuid [] j = Some j"
| "migrate_arms resolve uuid (r # rs) j = do { j' \<leftarrow> migrate_arm resolve uuid r j; migrate_arms resolve uuid rs j' }"

definition migrated_meta :: "string \<Rightarrow> datetime \<Rightarrow> meta_row \<Rightarrow> meta_row" where
  "migrated_meta uuid now m =
     m\<lparr>me_journal_uuid := uuid, me_schema_version := 2, me_migrated_at := format_time now\<rparr>"

definition migrate_v1_to_v2 :: "(string \<Rightarrow> string) \<Rightarrow> string \<Rightarrow> datetime \<Rightarrow> journal \<Rightarrow> journal option" where
  "migrate_v1_to_v2 resolve uuid now j =
     migrate_arms resolve uuid (j_arms j)
       (j\<lparr>j_meta := map_option (migrated_meta uuid now) (j_meta j), j_arms := []\<rparr>)"

section \<open>Opening\<close>

definition new_meta :: "string \<Rightarrow> datetime \<Rightarrow> meta_row" where
  "new_meta uuid now =
     \<lparr>me_schema_version = 2, me_next_sequence = 1, me_created_at = format_time now,
      me_migrated_at = format_time now, me_journal_uuid = uuid\<rparr>"

text \<open>The schema script has a transaction of its own, before the one that claims the file.\<close>

definition create_schema :: "database \<Rightarrow> database" where
  "create_schema d =
     d\<lparr>db_tables := Some (case db_tables d of None \<Rightarrow> empty_journal | Some j \<Rightarrow> j)\<rparr>"

definition claim_file :: "string \<Rightarrow> datetime \<Rightarrow> database \<Rightarrow> database" where
  "claim_file uuid now d =
     d\<lparr>db_application_id := application_id, db_user_version := 2,
       db_tables := map_option (\<lambda>j. if j_meta j = None then j\<lparr>j_meta := Some (new_meta uuid now)\<rparr> else j)
         (db_tables d)\<rparr>"

definition foreign_keys_hold :: "journal \<Rightarrow> bool" where
  "foreign_keys_hold j =
     (list_all (\<lambda>r. ss_key r \<in> instance_keys j) (j_sources j)
      \<and> list_all (\<lambda>r. (ar_source r, ar_source_instance r) \<in> instance_keys j) (j_arms j)
      \<and> list_all (\<lambda>r. (rc_source r, rc_source_instance r) \<in> instance_keys j) (j_receipts j)
      \<and> list_all (\<lambda>r. pg_wake_id r \<in> wake_ids j) (j_progress j)
      \<and> list_all (\<lambda>r. rv_wake_id r \<in> wake_ids j \<and> set_option (rv_receipt_id r) \<subseteq> receipt_ids j) (j_reservations j)
      \<and> list_all (\<lambda>r. pn_wake_id r \<in> wake_ids j \<and> set_option (pn_receipt_id r) \<subseteq> receipt_ids j) (j_pins j)
      \<and> list_all (\<lambda>r. lc_wake_id r \<in> wake_ids j) (j_lifecycle j)
      \<and> list_all (\<lambda>r. ox_wake_id r \<in> wake_ids j) (j_outbox j))"

text \<open>The checks after the migration or creation.\<close>

definition verify_database :: "database \<Rightarrow> bool" where
  "verify_database d =
     (case db_tables d of
        None \<Rightarrow> False
      | Some j \<Rightarrow> map_option me_schema_version (j_meta j) = Some 2 \<and> foreign_keys_hold j)"

text \<open>
  Whether the journal opens, and the file afterwards.  The two faults are those of the transactions in
  order: the script that creates the schema, or the migration; and the one that claims the file.
\<close>

definition initialize ::
  "(string \<Rightarrow> string) \<Rightarrow> string \<Rightarrow> datetime \<Rightarrow> fault \<Rightarrow> fault \<Rightarrow> database \<Rightarrow> bool \<times> database" where
  "initialize resolve uuid now flt1 flt2 d =
     (if db_application_id d \<notin> {0, application_id} then (False, d)
      else if db_application_id d = 0 \<and> (db_foreign_objects d \<or> db_tables d \<noteq> None) then (False, d)
      else if 2 < db_user_version d then (False, d)
      else if db_user_version d = 1
      then (case Option.bind (db_tables d) (migrate_v1_to_v2 resolve uuid now) of
              None \<Rightarrow> (False, d)
            | Some j \<Rightarrow>
                if flt1 = FaultBefore then (False, d)
                else let d' = d\<lparr>db_user_version := 2, db_tables := Some j\<rparr>
                     in (flt1 = NoFault \<and> verify_database d', d'))
      else if db_user_version d = 0
      then (if flt1 = FaultBefore then (False, d)
            else let d1 = create_schema d in
              if flt1 = FaultAfter \<or> flt2 = FaultBefore then (False, d1)
              else let d2 = claim_file uuid now d1
                   in (flt2 = NoFault \<and> verify_database d2, d2))
      else (flt1 = NoFault \<and> verify_database d, d))"

definition new_database :: database where
  "new_database = \<lparr>db_application_id = 0, db_user_version = 0, db_foreign_objects = False, db_tables = None\<rparr>"

text \<open>\<open>open_existing\<close>: no file, no module; otherwise the constructor, which raises or opens.\<close>

definition open_existing ::
  "(string \<Rightarrow> string) \<Rightarrow> string \<Rightarrow> datetime \<Rightarrow> fault \<Rightarrow> fault \<Rightarrow> database option
    \<Rightarrow> bool option \<times> database option" where
  "open_existing resolve uuid now flt1 flt2 file =
     (case file of
        None \<Rightarrow> (None, None)
      | Some d \<Rightarrow> (case initialize resolve uuid now flt1 flt2 d of (opened, d') \<Rightarrow> (Some opened, Some d')))"

section \<open>journal_status\<close>

text \<open>The connection's own settings are constant: WAL, \<open>synchronous = FULL\<close> (2), foreign keys on.\<close>

record journal_status =
  js_schema_version :: int
  js_journal_uuid :: string
  js_journal_mode :: string
  js_synchronous :: int
  js_foreign_keys :: bool

definition journal_status :: "fault \<Rightarrow> database \<Rightarrow> journal_status outcome" where
  "journal_status flt d =
     (case (flt, Option.bind (db_tables d) journal_uuid) of
        (NoFault, Some uuid) \<Rightarrow>
          Ok \<lparr>js_schema_version = db_user_version d, js_journal_uuid = uuid, js_journal_mode = ''wal'',
              js_synchronous = 2, js_foreign_keys = True\<rparr>
      | _ \<Rightarrow> degraded_at None ''STORE_UNAVAILABLE'' None)"

end
