(* ===== verification/History.thy ===== *)
theory History
  imports StoreLifecycle StoreMigrate
begin

text \<open>
  The histories of a journal: every transaction that \<open>SQLiteSignalModule\<close> (\<open>src/src/codex_wake/signal_store.py\<close>)
  can commit, as one step relation, and the journals that can be reached from a new one.  Transactions of
  different processes interleave freely, and an operation of several transactions (arming, publishing) can
  stop between any two of them.
\<close>

declare split_paired_All [simp del] split_paired_Ex [simp del]

section \<open>Transactions\<close>

inductive transaction :: "journal \<Rightarrow> journal \<Rightarrow> bool" where
  reserve: "reserve_tx q owner lease_now lease_expires j = Some (Commit j' r) \<Longrightarrow> transaction j j'"
| release: "release_preparation_tx arm_id k owner generation j = Some (Commit j' b) \<Longrightarrow> transaction j j'"
| prepare: "prepare_tx q resolve w arm_id owner generation anchor j = Some (Commit j' p)
    \<Longrightarrow> arm_with_id j arm_id = Some row \<Longrightarrow> ar_wake_id row = w \<Longrightarrow> transaction j j'"
| block: "blocked_tx w code clock j = Some (Commit j' u) \<Longrightarrow> transaction j j'"
| publish: "publish_tx w cap clock j = Some (Commit j' a) \<Longrightarrow> transaction j j'"
| publish_match: "match_tx w n sha cap clock j = Some (Commit j' d) \<Longrightarrow> transaction j j'"
| ingest: "list_all (\<lambda>ob. (ob_source ob, ob_source_instance ob) = (cm_source commit, cm_source_instance commit)) obs
    \<Longrightarrow> ingest_tx obs commit clock j = Some (Commit j' ig) \<Longrightarrow> transaction j j'"
| evaluate: "evaluate_tx w armed now limits j = Some (Commit j' e) \<Longrightarrow> transaction j j'"
| unpin: "release_tx w reasons at j = Some (Commit j' c) \<Longrightarrow> transaction j j'"
| compact: "compact_tx through lim j = Some (Commit j' co) \<Longrightarrow> transaction j j'"
| retire: "retire_tx w status arm_id uuid revision now j = Some (Commit j' t) \<Longrightarrow> transaction j j'"
| expire: "expire_tx w now j = Some (Commit j' x) \<Longrightarrow> transaction j j'"

text \<open>
  The wake and the arm that \<open>prepare\<close> is called with are those of the row that \<open>reserve\<close> left, and \<open>ingest\<close>
  is called with a batch of the committed source: \<open>arm\<close> and \<open>ingest\<close> call them in no other way.

  The journal of a new database, and what can become of it.\<close>

definition fresh_journal :: "string \<Rightarrow> datetime \<Rightarrow> journal" where
  "fresh_journal uuid now = empty_journal\<lparr>j_meta := Some (new_meta uuid now)\<rparr>"

inductive later :: "journal \<Rightarrow> journal \<Rightarrow> bool" where
  same: "later j j"
| step: "later j j' \<Longrightarrow> transaction j' j'' \<Longrightarrow> later j j''"

definition reachable :: "journal \<Rightarrow> bool" where
  "reachable j \<longleftrightarrow> (\<exists>uuid now. later (fresh_journal uuid now) j)"

lemma later_trans: "later j' j'' \<Longrightarrow> later j j' \<Longrightarrow> later j j''"
  by (induction rule: later.induct) (auto intro: later.step)

lemma later_one: "transaction j j' \<Longrightarrow> later j j'"
  by (rule later.step [OF later.same])

lemma reachable_later: "reachable j \<Longrightarrow> later j j' \<Longrightarrow> reachable j'"
  unfolding reachable_def using later_trans by blast

text \<open>The contract of an invariant: it holds of a new journal and every transaction keeps it.\<close>

locale journal_invariant =
  fixes holds :: "journal \<Rightarrow> bool"
  assumes fresh_holds: "holds (fresh_journal uuid now)"
    and transaction_holds: "transaction j j' \<Longrightarrow> schema_ok j \<Longrightarrow> holds j \<Longrightarrow> holds j'"

text \<open>A relation between a journal and its past: a transaction is in it, and it composes.\<close>

locale journal_order =
  fixes rel :: "journal \<Rightarrow> journal \<Rightarrow> bool"
  assumes rel_refl: "rel j j" and rel_trans: "rel j j' \<Longrightarrow> rel j' j'' \<Longrightarrow> rel j j''"
    and transaction_rel: "transaction j j' \<Longrightarrow> schema_ok j \<Longrightarrow> rel j j'"

section \<open>The constraints of the schema always hold\<close>

lemma fresh_schema_ok: "schema_ok (fresh_journal uuid now)"
  by (simp add: schema_ok_def fresh_journal_def empty_journal_def new_meta_def meta_ok_def instances_ok_def
      sources_ok_def arms_ok_def receipts_ok_def progress_ok_def reservations_ok_def pins_ok_def lifecycle_ok_def
      outbox_ok_def tombstones_ok_def)

lemma transaction_schema_ok: "transaction j j' \<Longrightarrow> schema_ok j \<Longrightarrow> schema_ok j'"
  by (induction rule: transaction.induct)
    (blast intro: reserved.commit_keeps release.commit_keeps prepared.commit_keeps blocked.commit_keeps
      published.commit_keeps match_published.commit_keeps ingested.commit_keeps evaluated.commit_keeps
      pins_released.commit_keeps compacted.commit_keeps retiring.commit_keeps expiring.commit_keeps)+

lemma later_schema_ok: "later j j' \<Longrightarrow> schema_ok j \<Longrightarrow> schema_ok j'"
  by (induction rule: later.induct) (auto intro: transaction_schema_ok)

lemma reachable_schema_ok: "reachable j \<Longrightarrow> schema_ok j"
  unfolding reachable_def using later_schema_ok fresh_schema_ok by blast

context journal_invariant begin

lemma later_holds: "later j j' \<Longrightarrow> schema_ok j \<Longrightarrow> holds j \<Longrightarrow> holds j'"
  by (induction rule: later.induct) (auto intro: transaction_holds later_schema_ok)

lemma reachable_holds: "reachable j \<Longrightarrow> holds j"
  unfolding reachable_def using later_holds fresh_schema_ok fresh_holds by blast

end

context journal_order begin

lemma later_rel: "later j j' \<Longrightarrow> schema_ok j \<Longrightarrow> rel j j'"
  by (induction rule: later.induct) (auto intro: rel_refl rel_trans transaction_rel later_schema_ok)

end

section \<open>Which tables a transaction leaves alone\<close>

lemma insert_instance_frame: "insert_instance r j = Some j' \<Longrightarrow> \<exists>rows. j' = j\<lparr>j_instances := rows\<rparr>"
  by (cases "j' = j") (auto simp: insert_instance_def split: if_splits intro: exI [of _ "j_instances j"])

lemma insert_source_frame: "insert_source k j = Some j' \<Longrightarrow> \<exists>rows. j' = j\<lparr>j_sources := rows\<rparr>"
  by (cases "j' = j") (auto simp: insert_source_def split: if_splits intro: exI [of _ "j_sources j"])

lemma insert_arm_frame: "insert_arm r j = Some j' \<Longrightarrow> j' = j\<lparr>j_arms := j_arms j @ [r]\<rparr>"
  by (auto simp: insert_arm_def split: if_splits)

lemma insert_progress_frame: "insert_progress r j = Some j' \<Longrightarrow> \<exists>rows. j' = j\<lparr>j_progress := rows\<rparr>"
  by (cases "j' = j") (auto simp: insert_progress_def split: if_splits intro: exI [of _ "j_progress j"])

lemma insert_lifecycle_frame: "insert_lifecycle r j = Some j' \<Longrightarrow> \<exists>rows. j' = j\<lparr>j_lifecycle := rows\<rparr>"
  by (cases "j' = j") (auto simp: insert_lifecycle_def split: if_splits intro: exI [of _ "j_lifecycle j"])

lemma insert_outbox_frame: "insert_outbox b r j = Some j' \<Longrightarrow> \<exists>rows. j' = j\<lparr>j_outbox := rows\<rparr>"
  by (cases "j' = j") (auto simp: insert_outbox_def split: if_splits intro: exI [of _ "j_outbox j"])

lemma insert_reservation_frame: "insert_reservation r j = Some j' \<Longrightarrow> \<exists>rows. j' = j\<lparr>j_reservations := rows\<rparr>"
  by (cases "j' = j") (auto simp: insert_reservation_def split: if_splits option.splits intro: exI [of _ "j_reservations j"])


text \<open>Receipts with their counter; what evaluation writes; and the end of registrations.\<close>

definition receipts_part where "receipts_part j = (j_meta j, j_receipts j)"
definition matches_part where "matches_part j = (j_progress j, j_reservations j)"
definition effects_part where "effects_part j = (j_pins j, j_lifecycle j, j_outbox j)"
definition contracts_part where "contracts_part j = j_instances j"

lemmas part_defs = receipts_part_def matches_part_def effects_part_def contracts_part_def

lemma reserve_steps:
  assumes "reserve_tx q owner t u j = Some (Commit j' r)"
  shows "\<exists>fresh w arm_id s j1 j2 version.
    insert_instance (request_instance q) j = Some j1 \<and> insert_source (aq_key q) j1 = Some j2
    \<and> source_at j2 (aq_key q) = Some s \<and> lease_busy s t = Some None
    \<and> r = ReservedLease w arm_id (ss_lease_generation s + 1)
    \<and> (fresh \<and> arm_keyed j (ac_idempotency_key (aq_context q)) = None
          \<and> insert_arm (preparing_row q w arm_id owner (format_time u) version)
              (leased_journal q owner (ss_lease_generation s + 1) u j2) = Some j'
       \<or> \<not> fresh \<and> (\<exists>row. row \<in> set (j_arms j) \<and> ar_arm_id row = arm_id \<and> ar_wake_id row = w \<and> ar_state row = Preparing)
          \<and> j' = update_arm (\<lambda>r. ar_arm_id r = arm_id) (prepare_again owner (format_time u))
              (leased_journal q owner (ss_lease_generation s + 1) u j2))"
proof -
  let ?key = "ac_idempotency_key (aq_context q)"
  obtain fresh w arm_id where lease: "lease_source q fresh w arm_id owner t u j = Some (Commit j' r)"
    and why: "fresh \<and> arm_keyed j ?key = None
      \<or> \<not> fresh \<and> (\<exists>row. arm_keyed j ?key = Some row \<and> ar_arm_id row = arm_id
          \<and> ar_wake_id row = w \<and> ar_state row = Preparing)"
  proof (cases "arm_keyed j ?key")
    case None
    then show thesis
      using assms by (intro that [of True "aq_wake_id q" "''arm_'' @ aq_wake_id q"]) (simp_all add: reserve_tx_def)
  next
    case (Some row)
    then have "ar_state row = Preparing"
      using assms by (cases "ar_state row") (auto simp: reserve_tx_def Let_def split: if_splits)
    then show thesis
      using assms Some
      by (intro that [of False "ar_wake_id row" "ar_arm_id row"])
        (auto simp: reserve_tx_def Let_def split: if_splits Option.bind_splits option.splits)
  qed
  obtain s j1 j2 version where steps: "insert_instance (request_instance q) j = Some j1" "insert_source (aq_key q) j1 = Some j2"
    "source_at j2 (aq_key q) = Some s" "lease_busy s t = Some None"
    "r = ReservedLease w arm_id (ss_lease_generation s + 1)"
    "(if fresh then insert_arm (preparing_row q w arm_id owner (format_time u) version)
              (leased_journal q owner (ss_lease_generation s + 1) u j2)
       else Some (update_arm (\<lambda>r. ar_arm_id r = arm_id) (prepare_again owner (format_time u))
              (leased_journal q owner (ss_lease_generation s + 1) u j2))) = Some j'"
    using lease_source_commit [OF lease] by (elim exE conjE) (rule that; assumption)
  have "arm_keyed j ?key = Some row \<Longrightarrow> row \<in> set (j_arms j)" for row
    by (auto simp: arm_keyed_def dest: find_SomeD)
  then have "fresh \<and> arm_keyed j ?key = None
          \<and> insert_arm (preparing_row q w arm_id owner (format_time u) version)
              (leased_journal q owner (ss_lease_generation s + 1) u j2) = Some j'
       \<or> \<not> fresh \<and> (\<exists>row. row \<in> set (j_arms j) \<and> ar_arm_id row = arm_id \<and> ar_wake_id row = w \<and> ar_state row = Preparing)
          \<and> j' = update_arm (\<lambda>r. ar_arm_id r = arm_id) (prepare_again owner (format_time u))
              (leased_journal q owner (ss_lease_generation s + 1) u j2)"
    using why steps(6) by (cases fresh) auto
  with steps(1-5) show ?thesis by (intro exI conjI)
qed

lemma reserve_frame:
  assumes "reserve_tx q owner t u j = Some (Commit j' r)"
  shows "receipts_part j' = receipts_part j \<and> matches_part j' = matches_part j \<and> effects_part j' = effects_part j
    \<and> j_tombstones j' = j_tombstones j"
  using reserve_steps [OF assms]
  by (auto simp: part_defs leased_journal_def update_source_def update_arm_def
      dest!: insert_instance_frame insert_source_frame insert_arm_frame)

lemma release_steps:
  assumes "release_preparation_tx arm_id k owner g j = Some (Commit j' b)"
  shows "j' = update_source (\<lambda>r. ss_key r = k \<and> ss_lease_owner r = Some owner \<and> ss_lease_generation r = g)
      (\<lambda>r. r\<lparr>ss_lease_owner := None, ss_lease_expires_at := None\<rparr>)
      (update_arm (\<lambda>r. ar_arm_id r = arm_id \<and> ar_preparer_token r = Some owner)
        (\<lambda>r. r\<lparr>ar_preparer_token := None, ar_preparation_expires_at := None\<rparr>) j)"
  using assms by (simp add: release_preparation_tx_def)

lemma release_frame:
  "release_preparation_tx arm_id k owner g j = Some (Commit j' b) \<Longrightarrow>
     receipts_part j' = receipts_part j \<and> matches_part j' = matches_part j \<and> effects_part j' = effects_part j
     \<and> contracts_part j' = contracts_part j \<and> j_tombstones j' = j_tombstones j"
  by (auto simp: release_preparation_tx_def update_source_def update_arm_def part_defs)

lemma prepare_steps:
  assumes "prepare_tx q resolve w arm_id owner g anchor j = Some (Commit j' p)"
  shows "\<exists>s prepared at payload sha j2 j3 j4 j5.
    source_at j (aq_key q) = Some s \<and> ss_lease_owner s = Some owner \<and> ss_lease_generation s = g
    \<and> arm_with_id j arm_id = Some prepared \<and> ar_preparer_token prepared = Some owner
    \<and> insert_progress \<lparr>pg_wake_id = w, pg_scanned_through_sequence = an_local_after_sequence (effective_anchor anchor s),
        pg_revision = 0, pg_updated_at = at\<rparr>
        (update_arm (\<lambda>r. ar_arm_id r = arm_id) (prepared_row (effective_anchor anchor s) at) j) = Some j2
    \<and> insert_pin (anchor_pin w (an_local_after_sequence (effective_anchor anchor s)) at) j2 = Some j3
    \<and> insert_lifecycle (pending_life w at) j3 = Some j4
    \<and> insert_outbox True (put_row w 1 ''pending'' None payload sha at) j4 = Some j5
    \<and> j' = update_source
        (\<lambda>r. ss_key r = aq_key q \<and> ss_lease_owner r = Some owner \<and> ss_lease_generation r = g)
        (\<lambda>r. r\<lparr>ss_lease_owner := None, ss_lease_expires_at := None\<rparr>) j5"
  using prepare_tx_commit [OF assms] unfolding Let_def by blast

lemma prepare_frame:
  assumes "prepare_tx q resolve w arm_id owner g anchor j = Some (Commit j' p)"
  shows "receipts_part j' = receipts_part j \<and> contracts_part j' = contracts_part j
    \<and> j_reservations j' = j_reservations j \<and> j_tombstones j' = j_tombstones j"
  using prepare_steps [OF assms]
  by (auto simp: part_defs update_source_def update_arm_def
      dest!: insert_progress_frame insert_pin_frame insert_lifecycle_frame insert_outbox_frame)

text \<open>The transactions of the publication change the state of arms, lifecycles and the outbox.\<close>

lemma publication_frame:
  "blocked_tx w code clock j = Some (Commit j' u) \<Longrightarrow>
     receipts_part j' = receipts_part j \<and> matches_part j' = matches_part j \<and> contracts_part j' = contracts_part j
     \<and> j_sources j' = j_sources j \<and> j_tombstones j' = j_tombstones j \<and> j_arms j' = j_arms j \<and> j_pins j' = j_pins j"
  "publish_tx w cap clock j = Some (Commit j' a) \<Longrightarrow>
     receipts_part j' = receipts_part j \<and> matches_part j' = matches_part j \<and> contracts_part j' = contracts_part j
     \<and> j_sources j' = j_sources j \<and> j_tombstones j' = j_tombstones j \<and> j_pins j' = j_pins j
     \<and> (\<exists>at. j_arms j' = update_where (\<lambda>r. ar_wake_id r = w) (published_row at) (j_arms j))"
  "match_tx w n sha cap clock j = Some (Commit j' d) \<Longrightarrow>
     receipts_part j' = receipts_part j \<and> matches_part j' = matches_part j \<and> contracts_part j' = contracts_part j
     \<and> j_sources j' = j_sources j \<and> j_tombstones j' = j_tombstones j \<and> j_arms j' = j_arms j \<and> j_pins j' = j_pins j"
  by (auto simp: blocked_tx_def publish_tx_def match_tx_def write_published_def write_match_applied_def Let_def part_defs
      update_arm_def update_lifecycle_def update_outbox_def split: option.splits if_splits Option.bind_splits)

lemma ingest_frame:
  assumes "ingest_tx obs commit clock j = Some (Commit j' r)"
  shows "matches_part j' = matches_part j \<and> effects_part j' = effects_part j \<and> contracts_part j' = contracts_part j
    \<and> j_arms j' = j_arms j \<and> j_tombstones j' = j_tombstones j"
  using ingest_tx_spec [OF assms] by (auto simp: part_defs update_source_def dest!: commit_source_SomeD)

lemma evaluate_frame:
  assumes "evaluate_tx w armed now limits j = Some (Commit j' r)"
  shows "receipts_part j' = receipts_part j \<and> contracts_part j' = contracts_part j
    \<and> j_arms j' = j_arms j \<and> j_sources j' = j_sources j \<and> j_tombstones j' = j_tombstones j"
proof -
  have frame: "ensure_match_outbox m k = Some k' \<Longrightarrow> receipts_part k' = receipts_part k \<and> contracts_part k' = contracts_part k
      \<and> j_arms k' = j_arms k \<and> j_sources k' = j_sources k \<and> j_tombstones k' = j_tombstones k" for m k k'
    by (auto simp: part_defs dest!: ensure_match_outbox_frame)
  have reserved: "reserve_match w x ob now k = Some (k', m) \<Longrightarrow> receipts_part k' = receipts_part k
      \<and> contracts_part k' = contracts_part k
      \<and> j_arms k' = j_arms k \<and> j_sources k' = j_sources k \<and> j_tombstones k' = j_tombstones k" for x ob k k' m
    by (auto simp: part_defs dest!: reserve_match_steps insert_reservation_frame insert_pin_frame ensure_match_outbox_frame)
  have finished: "finish_page w page has_more reached stop now j = Some (Commit j' r) \<Longrightarrow> receipts_part j' = receipts_part j
      \<and> contracts_part j' = contracts_part j
      \<and> j_arms j' = j_arms j \<and> j_sources j' = j_sources j \<and> j_tombstones j' = j_tombstones j" for page has_more reached stop
    by (auto simp: finish_page_def pin_pending_def advance_progress_def update_progress_def part_defs
        split: option.splits prod.splits verdict.splits Option.bind_splits if_splits
        dest!: reserved insert_pin_frame)
  show ?thesis
    using evaluate_tx_commit [OF assms] finished frame
    by (auto split: option.splits dest!: evaluate_page_commit)
qed


lemma unpin_frame:
  "release_tx w reasons at j = Some (Commit j' c) \<Longrightarrow> \<exists>pins. j' = j\<lparr>j_pins := pins\<rparr>"
  by (auto simp: release_tx_def update_pins_def)

lemma compact_frame:
  assumes "compact_tx through lim j = Some (Commit j' co)"
  shows "other_tables j' = other_tables j \<and> set (j_receipts j') \<subseteq> set (j_receipts j)
    \<and> map reservation_columns (j_reservations j') = map reservation_columns (j_reservations j)"
proof -
  obtain rows d k where "compact_rows rows 0 0 j = Some (j', d, k)"
    using assms by (auto simp: compact_tx_def split: Option.bind_splits)
  from compact_rows_spec [OF this] show ?thesis by auto
qed

text \<open>What the two ends of a registration do to the arms and the tombstones.\<close>

definition ends :: "string \<Rightarrow> journal \<Rightarrow> journal \<Rightarrow> bool" where
  "ends w j j' \<longleftrightarrow>
     receipts_part j' = receipts_part j \<and> matches_part j' = matches_part j \<and> contracts_part j' = contracts_part j
     \<and> j_sources j' = j_sources j
     \<and> j_arms j' = update_where (\<lambda>r. ar_wake_id r = w) tombstoned_row (j_arms j)
     \<and> (\<forall>t\<in>set (j_tombstones j'). tombstone_columns t \<in> tombstone_columns ` set (j_tombstones j)
          \<or> (\<exists>a\<in>set (j_arms j). ar_idempotency_key a = tb_idempotency_key t \<and> ar_wake_id a = tb_wake_id t))
     \<and> tombstone_columns ` set (j_tombstones j) \<subseteq> tombstone_columns ` set (j_tombstones j')"

lemma upsert_keeps:
  "upsert_tombstone b x j = Some j' \<Longrightarrow> tombstone_columns ` set (j_tombstones j) \<subseteq> tombstone_columns ` set (j_tombstones j')"
  by (auto simp: upsert_tombstone_def rewriting.key_set_kept split: if_splits)

lemma upsert_members:
  "upsert_tombstone b x j = Some j' \<Longrightarrow> t \<in> set (j_tombstones j') \<Longrightarrow>
     tombstone_columns t \<in> tombstone_columns ` set (j_tombstones j) \<or> t = x"
  by (auto simp: upsert_tombstone_def split: if_splits)
    (metis imageI rewriting.key_set_kept)

lemma end_frame:
  assumes row: "arm_of j w = Some row"
    and up: "upsert_tombstone b (tombstone_row_of row status at) (update_arm (\<lambda>r. ar_wake_id r = w) tombstoned_row j) = Some j2"
    and j': "j' = end_registration w life at j2"
  shows "ends w j j'"
proof -
  obtain rows where j2: "j2 = update_arm (\<lambda>r. ar_wake_id r = w) tombstoned_row j\<lparr>j_tombstones := rows\<rparr>"
    using upsert_tombstone_frame [OF up] by blast
  have "row \<in> set (j_arms j)" using row by (auto simp: arm_of_def dest: find_SomeD)
  moreover have "tombstone_columns t \<in> tombstone_columns ` set (j_tombstones j) \<or> t = tombstone_row_of row status at"
    if "t \<in> set rows" for t
    using upsert_members [OF up, of t] that by (simp add: j2 update_arm_def)
  ultimately have "\<forall>t\<in>set rows. tombstone_columns t \<in> tombstone_columns ` set (j_tombstones j)
      \<or> (\<exists>a\<in>set (j_arms j). ar_idempotency_key a = tb_idempotency_key t \<and> ar_wake_id a = tb_wake_id t)"
    by (fastforce simp: tombstone_row_of_def)
  moreover have "tombstone_columns ` set (j_tombstones j) \<subseteq> tombstone_columns ` set rows"
    using upsert_keeps [OF up] by (simp add: j2 update_arm_def)
  ultimately show ?thesis
    by (simp add: ends_def j' j2 end_registration_def part_defs update_lifecycle_def update_arm_def
        release_all_pins_def update_pins_def)
qed

lemma retire_frame: "retire_tx w status arm_id uuid revision now j = Some (Commit j' t) \<Longrightarrow> ends w j j'"
  by (drule retire_tx_commit) (blast intro: end_frame)

lemma expire_frame: "expire_tx w now j = Some (Commit j' x) \<Longrightarrow> ends w j j'"
  by (drule expire_tx_commit) (blast intro: end_frame)

section \<open>Sources: what never changes and what only grows\<close>

text \<open>How the row of a source instance may change in one transaction.\<close>

definition checkpoint_kept :: "source_row \<Rightarrow> source_row \<Rightarrow> bool" where
  "checkpoint_kept s s' \<longleftrightarrow>
     (\<forall>n. ss_checkpoint_order s = Some n \<longrightarrow>
        (\<exists>n'. ss_checkpoint_order s' = Some n' \<and> (n < n' \<or> n = n' \<and> ss_checkpoint s' = ss_checkpoint s)))"

definition source_grows :: "source_row \<Rightarrow> source_row \<Rightarrow> bool" where
  "source_grows s s' \<longleftrightarrow> ss_lease_generation s \<le> ss_lease_generation s'
     \<and> ss_last_local_sequence s \<le> ss_last_local_sequence s' \<and> checkpoint_kept s s'"

lemma checkpoint_kept_same:
  "ss_checkpoint_order s' = ss_checkpoint_order s \<Longrightarrow> ss_checkpoint s' = ss_checkpoint s \<Longrightarrow> checkpoint_kept s s'"
  by (simp add: checkpoint_kept_def)

lemma checkpoint_kept_trans: "checkpoint_kept s s' \<Longrightarrow> checkpoint_kept s' s'' \<Longrightarrow> checkpoint_kept s s''"
  unfolding checkpoint_kept_def by (metis order_less_trans)

lemma source_grows_trans: "source_grows s s' \<Longrightarrow> source_grows s' s'' \<Longrightarrow> source_grows s s''"
  unfolding source_grows_def using checkpoint_kept_trans by (meson order_trans)

definition sources_grow :: "journal \<Rightarrow> journal \<Rightarrow> bool" where
  "sources_grow j j' \<longleftrightarrow>
     (\<forall>k s. source_at j k = Some s \<longrightarrow> (\<exists>s'. source_at j' k = Some s' \<and> source_grows s s'))"

lemma sources_grow_same: "j_sources j' = j_sources j \<Longrightarrow> sources_grow j j'"
  by (simp add: sources_grow_def source_grows_def source_at_def checkpoint_kept_same)

lemma sources_grow_trans: "sources_grow j j' \<Longrightarrow> sources_grow j' j'' \<Longrightarrow> sources_grow j j''"
  unfolding sources_grow_def using source_grows_trans by blast

lemma sources_grow_update:
  assumes "source_update upd" and "\<And>s. P s \<Longrightarrow> s \<in> set (j_sources j) \<Longrightarrow> source_grows s (upd s)"
  shows "sources_grow j (update_source P upd j)"
proof -
  show ?thesis
    using source_update.source_found [OF assms(1)] assms(2)
    by (auto simp: sources_grow_def source_grows_def checkpoint_kept_same dest!: source_at_SomeD)
qed

lemma source_inserted:
  "insert_source k j = Some j' \<Longrightarrow> source_at j k' = Some s \<Longrightarrow> source_at j' k' = Some s"
  by (auto simp: insert_source_def source_at_def find_append split: if_splits)

lemma source_inserted_fresh:
  "insert_source k j = Some j' \<Longrightarrow> source_at j' k' = Some s \<Longrightarrow> source_at j k' = Some s \<or> s = new_source k"
  by (auto simp: insert_source_def source_at_def find_append split: if_splits option.splits)


lemma unleasing_grows: "sources_grow j (update_source P (\<lambda>r. r\<lparr>ss_lease_owner := None, ss_lease_expires_at := None\<rparr>) j)"
  by (rule sources_grow_update [OF unleasing.source_update_axioms]) (simp add: source_grows_def checkpoint_kept_same)

text \<open>Leasing gives the source the next generation.\<close>

lemma reserve_grows:
  assumes "reserve_tx q owner t u j = Some (Commit j' r)" and "schema_ok j"
  shows "sources_grow j j' \<and> (\<exists>w arm_id g s'. r = ReservedLease w arm_id g \<and> source_at j' (aq_key q) = Some s'
    \<and> ss_lease_generation s' = g \<and> (\<forall>s. source_at j (aq_key q) = Some s \<longrightarrow> ss_lease_generation s < g))"
proof -
  obtain fresh w arm_id s j1 j2 version where
    one: "insert_instance (request_instance q) j = Some j1" and two: "insert_source (aq_key q) j1 = Some j2"
    and s: "source_at j2 (aq_key q) = Some s" and r: "r = ReservedLease w arm_id (ss_lease_generation s + 1)"
    and last: "fresh \<and> arm_keyed j (ac_idempotency_key (aq_context q)) = None
          \<and> insert_arm (preparing_row q w arm_id owner (format_time u) version)
              (leased_journal q owner (ss_lease_generation s + 1) u j2) = Some j'
       \<or> \<not> fresh \<and> (\<exists>row. row \<in> set (j_arms j) \<and> ar_arm_id row = arm_id \<and> ar_wake_id row = w \<and> ar_state row = Preparing)
          \<and> j' = update_arm (\<lambda>r. ar_arm_id r = arm_id) (prepare_again owner (format_time u))
              (leased_journal q owner (ss_lease_generation s + 1) u j2)"
    using reserve_steps [OF assms(1)] by (elim exE conjE) (rule that; assumption)
  let ?g = "ss_lease_generation s + 1" and ?j3 = "leased_journal q owner (ss_lease_generation s + 1) u j2"
  obtain rows where j1: "j1 = j\<lparr>j_instances := rows\<rparr>" using insert_instance_frame [OF one] by blast
  have at_j: "source_at j k = Some x \<Longrightarrow> source_at j2 k = Some x" for k x
    using source_inserted [OF two] by (simp add: j1 source_at_def)
  have ok: "schema_ok j2" using one two assms(2) by (blast intro: step_inv)
  then have upd: "source_update (leased_row owner ?g (format_time u))"
    using leasing generation_nonneg [OF ok s] by simp
  have "x = s" if "x \<in> set (j_sources j2)" "ss_key x = aq_key q" for x
    using that find_key [of ss_key "j_sources j2" x] ok s by (simp add: schema_ok_def sources_ok_def source_at_def)
  then have "sources_grow j2 ?j3"
    unfolding leased_journal_def by (intro sources_grow_update [OF upd]) (auto simp: source_grows_def checkpoint_kept_same leased_row_def)
  moreover have "sources_grow j j2" using at_j by (auto simp: sources_grow_def source_grows_def checkpoint_kept_same)
  moreover have "sources_grow ?j3 j'" using last by (intro sources_grow_same) (auto simp: update_arm_def dest!: insert_arm_frame)
  ultimately have "sources_grow j j'" by (blast intro: sources_grow_trans)
  moreover have "source_at ?j3 (aq_key q) = Some (leased_row owner ?g (format_time u) s)"
    using s source_update.source_found [OF upd, of _ j2] source_at_SomeD [OF s] by (simp add: leased_journal_def)
  then have "source_at j' (aq_key q) = Some (leased_row owner ?g (format_time u) s)"
    using last by (auto simp: source_at_def update_arm_def dest!: insert_arm_frame)
  moreover have "ss_lease_generation (leased_row owner ?g (format_time u) s) = ?g" by (simp add: leased_row_def)
  moreover have "source_at j (aq_key q) = Some x \<Longrightarrow> ss_lease_generation x < ?g" for x using at_j s by fastforce
  ultimately show ?thesis using r by blast
qed

lemma prepare_grows:
  assumes "prepare_tx q resolve w arm_id owner g anchor j = Some (Commit j' p)"
  shows "sources_grow j j'"
proof -
  obtain j5 where j': "j' = update_source
        (\<lambda>r. ss_key r = aq_key q \<and> ss_lease_owner r = Some owner \<and> ss_lease_generation r = g)
        (\<lambda>r. r\<lparr>ss_lease_owner := None, ss_lease_expires_at := None\<rparr>) j5" and "j_sources j5 = j_sources j"
    using prepare_steps [OF assms]
    by (auto simp: update_arm_def dest!: insert_progress_frame insert_pin_frame insert_lifecycle_frame insert_outbox_frame)
  then have "sources_grow j j5" by (simp add: sources_grow_same)
  then show ?thesis using unleasing_grows sources_grow_trans unfolding j' by blast
qed

lemma ingest_grows: "ingest_tx obs commit clock j = Some (Commit j' r) \<Longrightarrow> sources_grow j j'"
  unfolding sources_grow_def
proof (intro allI impI)
  fix k s assume run: "ingest_tx obs commit clock j = Some (Commit j' r)" and s: "source_at j k = Some s"
  show "\<exists>s'. source_at j' k = Some s' \<and> source_grows s s'"
  proof (cases "k = (cm_source commit, cm_source_instance commit)")
    case True
    with ingest_tx_source [OF run] s obtain m where fine: "store_refusal s commit = None"
      and s': "source_at j' k = Some (committed_source commit m s)" by auto
    have "checkpoint_kept s (committed_source commit m s)"
      using fine by (auto simp: store_refusal_def checkpoint_kept_def committed_source_def split: if_splits option.splits)
    then show ?thesis using s' by (auto simp: source_grows_def committed_source_def)
  next
    case False
    with ingest_tx_source [OF run] s show ?thesis by (auto simp: source_grows_def checkpoint_kept_same)
  qed
qed

interpretation growing: journal_order sources_grow
proof unfold_locales
  fix j j' j''
  show "sources_grow j j" by (simp add: sources_grow_same)
  show "sources_grow j j' \<Longrightarrow> sources_grow j' j'' \<Longrightarrow> sources_grow j j''" by (rule sources_grow_trans)
  show "transaction j j' \<Longrightarrow> schema_ok j \<Longrightarrow> sources_grow j j'"
  proof (induction rule: transaction.induct)
    case (release arm_id k owner generation j j' b)
    then show ?case
      using unleasing_grows sources_grow_trans sources_grow_same
      by (auto simp: release_preparation_tx_def update_arm_def intro: sources_grow_trans [OF sources_grow_same unleasing_grows])
  next
    case (compact through lim j j' co)
    then show ?case using compact_frame by (auto simp: other_tables_def intro: sources_grow_same)
  next
    case (reserve q owner t u j j' r)
    then show ?case using reserve_grows by blast
  next
    case (prepare q resolve w arm_id owner g anchor j j' p)
    then show ?case using prepare_grows by blast
  next
    case (ingest obs commit clock j j' ig)
    then show ?case using ingest_grows by blast
  qed (auto dest: publication_frame evaluate_frame unpin_frame retire_frame expire_frame
      intro!: sources_grow_same simp: ends_def)
qed


section \<open>Receipts are numbered and counted\<close>

text \<open>
  A receipt has a number below the next one and the id that goes with it, it is not after the last number its
  source has seen, and no source has seen a number that was not given.
\<close>

definition lasts :: "journal \<Rightarrow> int set" where
  "lasts j = ss_last_local_sequence ` set (j_sources j)"

definition receipts_counted :: "journal \<Rightarrow> bool" where
  "receipts_counted j \<longleftrightarrow>
     (\<exists>n. next_sequence j = Some n \<and> (\<forall>m\<in>lasts j. m < n)
        \<and> (\<forall>r\<in>set (j_receipts j). 1 \<le> rc_local_sequence r \<and> rc_local_sequence r < n
             \<and> rc_receipt_id r = event_id (rc_local_sequence r)))
     \<and> (\<forall>r\<in>set (j_receipts j). \<exists>s. source_at j (rc_source r, rc_source_instance r) = Some s
          \<and> rc_local_sequence r \<le> ss_last_local_sequence s)"

lemma next_positive: "schema_ok j \<Longrightarrow> next_sequence j = Some n \<Longrightarrow> 1 \<le> n"
  by (auto simp: schema_ok_def meta_ok_def next_sequence_def)

lemma receipts_counted_step:
  assumes "receipts_counted j" and "schema_ok j" and "sources_grow j j'" and "lasts j' \<subseteq> insert 0 (lasts j)"
    and "j_meta j' = j_meta j" and "set (j_receipts j') \<subseteq> set (j_receipts j)"
  shows "receipts_counted j'"
proof -
  obtain n where n: "next_sequence j = Some n" "\<forall>m\<in>lasts j. m < n"
    "\<forall>r\<in>set (j_receipts j). 1 \<le> rc_local_sequence r \<and> rc_local_sequence r < n \<and> rc_receipt_id r = event_id (rc_local_sequence r)"
    using assms(1) unfolding receipts_counted_def by blast
  have "1 \<le> n" using next_positive [OF assms(2) n(1)] .
  then have "\<forall>m\<in>lasts j'. m < n" using n(2) assms(4) by auto
  moreover have "\<exists>s'. source_at j' (rc_source r, rc_source_instance r) = Some s' \<and> rc_local_sequence r \<le> ss_last_local_sequence s'"
    if "r \<in> set (j_receipts j')" for r
    using that assms(1,3,6) unfolding receipts_counted_def sources_grow_def source_grows_def
    by (meson order_trans subsetD)
  moreover have "next_sequence j' = Some n" using n(1) assms(5) by (simp add: next_sequence_def)
  ultimately show ?thesis using n(3) assms(6) unfolding receipts_counted_def by blast
qed

lemma lasts_update:
  "(\<And>s. ss_last_local_sequence (upd s) = ss_last_local_sequence s) \<Longrightarrow> lasts (update_source P upd j) = lasts j"
  by (simp add: lasts_def update_source_def image_update_where)

lemma lasts_same: "j_sources j' = j_sources j \<Longrightarrow> lasts j' = lasts j"
  by (simp add: lasts_def)

lemma unleased_lasts: "lasts (update_source P (\<lambda>r. r\<lparr>ss_lease_owner := None, ss_lease_expires_at := None\<rparr>) j) = lasts j"
  by (rule lasts_update) simp

lemma reserve_lasts:
  assumes "reserve_tx q owner t u j = Some (Commit j' r)"
  shows "lasts j' \<subseteq> insert 0 (lasts j)"
proof -
  obtain fresh w arm_id s j1 j2 version where
    one: "insert_instance (request_instance q) j = Some j1" and two: "insert_source (aq_key q) j1 = Some j2"
    and "source_at j2 (aq_key q) = Some s" and "lease_busy s t = Some None"
    and "r = ReservedLease w arm_id (ss_lease_generation s + 1)"
    and last: "fresh \<and> arm_keyed j (ac_idempotency_key (aq_context q)) = None
          \<and> insert_arm (preparing_row q w arm_id owner (format_time u) version)
              (leased_journal q owner (ss_lease_generation s + 1) u j2) = Some j'
       \<or> \<not> fresh \<and> (\<exists>row. row \<in> set (j_arms j) \<and> ar_arm_id row = arm_id \<and> ar_wake_id row = w \<and> ar_state row = Preparing)
          \<and> j' = update_arm (\<lambda>r. ar_arm_id r = arm_id) (prepare_again owner (format_time u))
              (leased_journal q owner (ss_lease_generation s + 1) u j2)"
    using reserve_steps [OF assms] by (elim exE conjE) (rule that; assumption)
  have "lasts j' = lasts (leased_journal q owner (ss_lease_generation s + 1) u j2)"
    using last by (intro lasts_same) (auto simp: update_arm_def dest!: insert_arm_frame)
  also have "\<dots> = lasts j2" unfolding leased_journal_def by (rule lasts_update) (simp add: leased_row_def)
  also have "\<dots> \<subseteq> insert 0 (lasts j1)" using two by (auto simp: insert_source_def lasts_def new_source_def split: if_splits)
  also have "lasts j1 = lasts j" using insert_instance_frame [OF one] by (auto simp: lasts_def)
  finally show ?thesis .
qed

lemma prepare_lasts:
  assumes "prepare_tx q resolve w arm_id owner g anchor j = Some (Commit j' p)"
  shows "lasts j' = lasts j"
proof -
  obtain j5 where j': "j' = update_source
        (\<lambda>r. ss_key r = aq_key q \<and> ss_lease_owner r = Some owner \<and> ss_lease_generation r = g)
        (\<lambda>r. r\<lparr>ss_lease_owner := None, ss_lease_expires_at := None\<rparr>) j5" and "j_sources j5 = j_sources j"
    using prepare_steps [OF assms]
    by (auto simp: update_arm_def dest!: insert_progress_frame insert_pin_frame insert_lifecycle_frame insert_outbox_frame)
  then show ?thesis unfolding j' unleased_lasts by (intro lasts_same)
qed

lemma release_lasts:
  assumes "release_preparation_tx arm_id k owner g j = Some (Commit j' b)"
  shows "lasts j' = lasts j"
  unfolding release_steps [OF assms] unleased_lasts by (simp add: lasts_def update_arm_def)

text \<open>Ingestion appends receipts of the committed source, numbered from the next number on.\<close>

lemma ingest_adds:
  assumes run: "ingest_tx obs commit clock j = Some (Commit j' r)"
    and batch: "list_all (\<lambda>ob. (ob_source ob, ob_source_instance ob) = (cm_source commit, cm_source_instance commit)) obs"
  shows "\<exists>n new. next_sequence j = Some n \<and> next_sequence j' = Some (n + int (length new))
    \<and> j_receipts j' = j_receipts j @ new
    \<and> j_sources j' = update_where (\<lambda>r. ss_key r = (cm_source commit, cm_source_instance commit))
        (committed_source commit (n + int (length new) - 1)) (j_sources j)
    \<and> (\<forall>x\<in>set new. n \<le> rc_local_sequence x \<and> rc_local_sequence x < n + int (length new)
         \<and> rc_receipt_id x = event_id (rc_local_sequence x)
         \<and> (rc_source x, rc_source_instance x) = (cm_source commit, cm_source_instance commit)
         \<and> receipt_at j (rc_identity x) = None)"
proof -
  obtain inst s contract st n new where
      "instance_at j (cm_source commit, cm_source_instance commit) = Some inst"
      "source_at j (cm_source commit, cm_source_instance commit) = Some s"
      "store_refusal s commit = None" "contract_from_json (in_contract_json inst) = Some contract"
    and st: "stage j contract obs [] = Inr st" and ok: "staged_ok j st" and n: "next_sequence j = Some n"
    and new: "new_rows j st n new"
    and com: "commit_source commit (n + int (length new)) (j\<lparr>j_receipts := j_receipts j @ new\<rparr>) = Some j'"
    using ingest_tx_spec [OF run] by blast
  have keys: "fst ` set st = identity_of ` set obs" using stage_spec [OF st] by simp
  have "n \<le> rc_local_sequence x \<and> rc_local_sequence x < n + int (length new)
      \<and> rc_receipt_id x = event_id (rc_local_sequence x)
      \<and> (rc_source x, rc_source_instance x) = (cm_source commit, cm_source_instance commit)
      \<and> receipt_at j (rc_identity x) = None" if x: "x \<in> set new" for x
  proof -
    obtain k where k: "k < length new" "x = new ! k" using x by (auto simp: in_set_conv_nth)
    obtain i ob t fp where row: "(i, ob, t, fp) \<in> set st" "receipt_at j i = None"
      "x = receipt_row_of (n + int k) ob t fp"
      using new k unfolding new_rows_def by blast
    have i: "i = identity_of ob" using ok row(1) by (auto simp: staged_ok_def)
    obtain ob' where "ob' \<in> set obs" "identity_of ob' = identity_of ob"
      using keys row(1) i by (metis fst_conv image_iff)
    then have "(ob_source ob, ob_source_instance ob) = (cm_source commit, cm_source_instance commit)"
      using batch by (auto simp: list_all_iff identity_of_def)
    then show ?thesis using k(1) row(2) i unfolding row(3) by simp
  qed
  then show ?thesis
    using n commit_source_SomeD [OF com]
    by (intro exI [of _ n] exI [of _ new]) (auto simp: next_sequence_def update_source_def)
qed

lemma ingest_counted:
  assumes counted: "receipts_counted j" and ok: "schema_ok j"
    and run: "ingest_tx obs commit clock j = Some (Commit j' r)"
    and batch: "list_all (\<lambda>ob. (ob_source ob, ob_source_instance ob) = (cm_source commit, cm_source_instance commit)) obs"
  shows "receipts_counted j'"
proof -
  let ?k = "(cm_source commit, cm_source_instance commit)"
  obtain n new where n: "next_sequence j = Some n" and n': "next_sequence j' = Some (n + int (length new))"
    and rows: "j_receipts j' = j_receipts j @ new"
    and sources: "j_sources j' = update_where (\<lambda>r. ss_key r = ?k) (committed_source commit (n + int (length new) - 1)) (j_sources j)"
    and new: "\<forall>x\<in>set new. n \<le> rc_local_sequence x \<and> rc_local_sequence x < n + int (length new)
         \<and> rc_receipt_id x = event_id (rc_local_sequence x) \<and> (rc_source x, rc_source_instance x) = ?k
         \<and> receipt_at j (rc_identity x) = None"
    using ingest_adds [OF run batch] by blast
  have old: "\<forall>m\<in>lasts j. m < n"
    "\<forall>r\<in>set (j_receipts j). 1 \<le> rc_local_sequence r \<and> rc_local_sequence r < n \<and> rc_receipt_id r = event_id (rc_local_sequence r)"
    using counted n unfolding receipts_counted_def by auto
  have "1 \<le> n" using next_positive [OF ok n] .
  have "m < n + int (length new)" if "m \<in> lasts j'" for m
    using that old(1) \<open>1 \<le> n\<close> unfolding lasts_def sources set_update_where
    by (fastforce simp: committed_source_def)
  moreover have "1 \<le> rc_local_sequence x \<and> rc_local_sequence x < n + int (length new) \<and> rc_receipt_id x = event_id (rc_local_sequence x)"
    if "x \<in> set (j_receipts j')" for x
    using that new old(2) \<open>1 \<le> n\<close> unfolding rows by fastforce
  moreover have "\<exists>s. source_at j' (rc_source x, rc_source_instance x) = Some s \<and> rc_local_sequence x \<le> ss_last_local_sequence s"
    if "x \<in> set (j_receipts j')" for x
  proof (cases "x \<in> set new")
    case True
    obtain s m where s: "source_at j' ?k = Some (committed_source commit m s)" "next_sequence j' = Some (m + 1)"
      using ingest_tx_source [OF run] by blast
    then have "m = n + int (length new) - 1" using n' by simp
    then show ?thesis using True new s(1) by (auto simp: committed_source_def)
  next
    case False
    then have "x \<in> set (j_receipts j)" using that rows by simp
    then show ?thesis
      using counted ingest_grows [OF run] unfolding receipts_counted_def sources_grow_def source_grows_def
      by (meson order_trans)
  qed
  ultimately show ?thesis using n' unfolding receipts_counted_def by blast
qed

lemma fresh_counted: "receipts_counted (fresh_journal uuid now)"
  by (simp add: receipts_counted_def lasts_def fresh_journal_def empty_journal_def new_meta_def next_sequence_def)

interpretation counted: journal_invariant receipts_counted
proof unfold_locales
  fix uuid now show "receipts_counted (fresh_journal uuid now)" by (rule fresh_counted)
next
  fix j j' assume run: "transaction j j'" and ok: "schema_ok j" and counted: "receipts_counted j"
  note step = receipts_counted_step [OF counted ok growing.transaction_rel [OF run ok]]
  have quiet: "receipts_part j' = receipts_part j \<Longrightarrow> j_sources j' = j_sources j \<Longrightarrow> receipts_counted j'"
    using counted by (simp add: receipts_counted_def receipts_part_def lasts_def next_sequence_def source_at_def)
  show "receipts_counted j'"
    using run
  proof cases
    case (reserve q owner t u r)
    then show ?thesis using step reserve_lasts reserve_frame by (simp add: receipts_part_def)
  next
    case (ingest commit obs clock ig)
    then show ?thesis using ingest_counted [OF counted ok] by blast
  next
    case (compact through lim co)
    from compact_frame [OF this] show ?thesis using step by (simp add: other_tables_def lasts_def subset_insertI)
  next
    case (release arm_id k owner g b)
    then show ?thesis using step release_lasts release_frame by (simp add: receipts_part_def subset_insertI)
  next
    case (prepare q resolve w arm_id owner g anchor p)
    then show ?thesis using step prepare_lasts prepare_frame by (simp add: receipts_part_def subset_insertI)
  next
    case (block w code clock u)
    from publication_frame(1) [OF this] show ?thesis by (intro quiet) simp_all
  next
    case (publish w cap clock a)
    from publication_frame(2) [OF this] show ?thesis by (intro quiet) simp_all
  next
    case (publish_match w n sha cap clock d)
    from publication_frame(3) [OF this] show ?thesis by (intro quiet) simp_all
  next
    case (evaluate w armed now limits e)
    from evaluate_frame [OF this] show ?thesis by (intro quiet) simp_all
  next
    case (unpin w reasons at c)
    from unpin_frame [OF this] show ?thesis by (intro quiet) (auto simp: receipts_part_def)
  next
    case (retire w status arm_id uuid revision now t)
    from retire_frame [OF this] show ?thesis by (intro quiet) (simp_all add: ends_def)
  next
    case (expire w now x)
    from expire_frame [OF this] show ?thesis by (intro quiet) (simp_all add: ends_def)
  qed
qed

end
