(* ===== verification/Promises.thy ===== *)
theory Promises
  imports History
begin

text \<open>
  What no history of a journal takes back: the contract of a source instance, the identity and the intent of a
  registration, a reserved match, a tombstone; and that a lease that another process has taken over is lost
  for good.  Each follows from an order on journals that every transaction respects.
\<close>

declare split_paired_All [simp del] split_paired_Ex [simp del]

section \<open>What a journal never forgets\<close>

definition arm_promise where
  "arm_promise r = (arm_columns r, ar_intent_fingerprint r, ar_kind r, ar_subject r, ar_spec_json r, ar_resume_json r,
     ar_registered_at r, ar_expires_at r)"

definition remembers :: "journal \<Rightarrow> journal \<Rightarrow> bool" where
  "remembers j j' \<longleftrightarrow>
     set (j_instances j) \<subseteq> set (j_instances j')
     \<and> arm_promise ` set (j_arms j) \<subseteq> arm_promise ` set (j_arms j')
     \<and> reservation_columns ` set (j_reservations j) \<subseteq> reservation_columns ` set (j_reservations j')
     \<and> tombstone_columns ` set (j_tombstones j) \<subseteq> tombstone_columns ` set (j_tombstones j')"

lemma remembers_same:
  "j_instances j' = j_instances j \<Longrightarrow> arm_promise ` set (j_arms j') = arm_promise ` set (j_arms j)
    \<Longrightarrow> j_reservations j' = j_reservations j \<Longrightarrow> j_tombstones j' = j_tombstones j \<Longrightarrow> remembers j j'"
  by (simp add: remembers_def)

text \<open>No update of an arm touches its promise.\<close>

lemma promise_kept [simp]:
  "arm_promise (prepare_again owner until r) = arm_promise r"
  "arm_promise (prepared_row anchor at r) = arm_promise r"
  "arm_promise (published_row at r) = arm_promise r"
  "arm_promise (tombstoned_row r) = arm_promise r"
  "arm_promise (r\<lparr>ar_preparer_token := None, ar_preparation_expires_at := None\<rparr>) = arm_promise r"
  by (simp_all add: arm_promise_def arm_columns_def prepare_again_def prepared_row_def published_row_def tombstoned_row_def)

lemma arm_promise_same [simp]:
  "arm_promise ` set (update_where P (prepare_again owner until) rows) = arm_promise ` set rows"
  "arm_promise ` set (update_where P (prepared_row anchor at) rows) = arm_promise ` set rows"
  "arm_promise ` set (update_where P (published_row at) rows) = arm_promise ` set rows"
  "arm_promise ` set (update_where P tombstoned_row rows) = arm_promise ` set rows"
  "arm_promise ` set (update_where P (\<lambda>r. r\<lparr>ar_preparer_token := None, ar_preparation_expires_at := None\<rparr>) rows)
     = arm_promise ` set rows"
  by (rule image_update_where, rule promise_kept)+

lemma reserve_remembers:
  assumes "reserve_tx q owner t u j = Some (Commit j' r)"
  shows "remembers j j'"
proof -
  obtain fresh w arm_id s j1 j2 version where
    one: "insert_instance (request_instance q) j = Some j1" and two: "insert_source (aq_key q) j1 = Some j2"
    and "source_at j2 (aq_key q) = Some s" and "lease_busy s t = Some None"
    and "r = ReservedLease w arm_id (ss_lease_generation s + 1)"
    and last: "fresh \<and> arm_keyed j (ac_idempotency_key (aq_context q)) = None
          \<and> insert_arm (preparing_row q w arm_id owner (format_time u) version)
              (leased_journal q owner (ss_lease_generation s + 1) u j2) = Some j'
       \<or> \<not> fresh \<and> (\<exists>row. row \<in> set (j_arms j) \<and> ar_arm_id row = arm_id \<and> ar_wake_id row = w \<and> ar_state row = Preparing)
          \<and> j' = update_arm (\<lambda>r. ar_arm_id r = arm_id) (prepare_again owner (format_time u))
              (leased_journal q owner (ss_lease_generation s + 1) u j2)"
    using reserve_steps [OF assms] by (elim exE conjE) (rule that; assumption)
  let ?j3 = "leased_journal q owner (ss_lease_generation s + 1) u j2"
  have "set (j_instances j) \<subseteq> set (j_instances j1)" and "j_arms j1 = j_arms j"
    using one by (auto simp: insert_instance_def split: if_splits)
  moreover have "j_instances j2 = j_instances j1" "j_arms j2 = j_arms j1"
    using insert_source_frame [OF two] by auto
  moreover have "j_instances ?j3 = j_instances j2" "j_arms ?j3 = j_arms j2"
    by (simp_all add: leased_journal_def update_source_def)
  moreover have "j_instances j' = j_instances ?j3 \<and> arm_promise ` set (j_arms ?j3) \<subseteq> arm_promise ` set (j_arms j')"
    using last by (auto simp: update_arm_def dest!: insert_arm_frame)
  ultimately show ?thesis
    using reserve_frame [OF assms] by (simp add: remembers_def matches_part_def)
qed

lemma prepare_remembers:
  assumes "prepare_tx q resolve w arm_id owner g anchor j = Some (Commit j' p)"
  shows "remembers j j'"
proof -
  obtain P upd where "j_arms j' = update_where P (prepared_row upd (format_time (ac_registered_at (aq_context q)))) (j_arms j)"
    using prepare_tx_commit [OF assms]
    by (auto simp: update_source_def update_arm_def Let_def
        dest!: insert_progress_frame insert_pin_frame insert_lifecycle_frame insert_outbox_frame)
  then have "arm_promise ` set (j_arms j') = arm_promise ` set (j_arms j)" by simp
  then show ?thesis using prepare_frame [OF assms] by (simp add: remembers_def contracts_part_def)
qed

lemma release_remembers:
  assumes "release_preparation_tx arm_id k owner g j = Some (Commit j' b)"
  shows "remembers j j'"
  unfolding release_steps [OF assms] by (rule remembers_same) (simp_all add: update_source_def update_arm_def)

text \<open>An evaluation only adds reservations.\<close>

lemma reserve_match_adds:
  "reserve_match w x ob now j = Some (j', m) \<Longrightarrow> set (j_reservations j) \<subseteq> set (j_reservations j')"
  by (auto dest!: reserve_match_steps ensure_match_outbox_frame insert_pin_frame
      simp: insert_reservation_def split: if_splits)

lemma evaluate_adds:
  assumes "evaluate_tx w armed now limits j = Some (Commit j' r)"
  shows "set (j_reservations j) \<subseteq> set (j_reservations j')"
proof -
  have pinned: "insert_pin p k = Some k' \<Longrightarrow> j_reservations k' = j_reservations k" for p k k'
    using insert_pin_frame by fastforce
  have ensured: "ensure_match_outbox m k = Some k' \<Longrightarrow> j_reservations k' = j_reservations k" for m k k'
    using ensure_match_outbox_frame by fastforce
  have finished: "finish_page w page has_more reached stop now j = Some (Commit j' r) \<Longrightarrow>
      set (j_reservations j) \<subseteq> set (j_reservations j')" for page has_more reached stop
    by (auto simp: finish_page_def pin_pending_def advance_progress_frame pinned
        split: option.splits prod.splits verdict.splits Option.bind_splits if_splits dest: reserve_match_adds)
  show ?thesis
    using evaluate_tx_commit [OF assms]
    by (auto split: option.splits dest!: evaluate_page_commit finished ensured)
qed

lemma ends_remembers: "ends w j j' \<Longrightarrow> remembers j j'"
  by (simp add: ends_def remembers_def contracts_part_def matches_part_def)

interpretation memory: journal_order remembers
proof unfold_locales
  fix j j' j''
  show "remembers j j" by (simp add: remembers_def)
  show "remembers j j' \<Longrightarrow> remembers j' j'' \<Longrightarrow> remembers j j''"
    unfolding remembers_def by (intro conjI) (elim conjE, rule subset_trans, assumption, assumption)+
  assume "transaction j j'"
  then show "remembers j j'"
  proof cases
    case (reserve q owner t u r)
    then show ?thesis by (rule reserve_remembers)
  next
    case (release arm_id k owner g b)
    then show ?thesis by (rule release_remembers)
  next
    case (prepare q resolve w arm_id owner g anchor p row)
    then show ?thesis using prepare_remembers by blast
  next
    case (block w code clock u)
    from publication_frame(1) [OF this] show ?thesis
      by (intro remembers_same) (simp_all add: contracts_part_def matches_part_def)
  next
    case (publish w cap clock a)
    from publication_frame(2) [OF this] show ?thesis
      by (elim conjE exE, intro remembers_same) (simp_all add: contracts_part_def matches_part_def)
  next
    case (publish_match w n sha cap clock d)
    from publication_frame(3) [OF this] show ?thesis
      by (intro remembers_same) (simp_all add: contracts_part_def matches_part_def)
  next
    case (ingest commit obs clock ig)
    from ingest_frame [OF this(2)] show ?thesis
      by (intro remembers_same) (simp_all add: contracts_part_def matches_part_def)
  next
    case (evaluate w armed now limits e)
    from evaluate_frame [OF this] evaluate_adds [OF this] show ?thesis
      by (auto simp: remembers_def contracts_part_def)
  next
    case (unpin w reasons at c)
    from unpin_frame [OF this] show ?thesis by (intro remembers_same) auto
  next
    case (compact through lim co)
    from compact_frame [OF this] show ?thesis
      by (simp add: remembers_def other_tables_def) (metis order_refl set_map)
  next
    case (retire w status arm_id uuid revision now t)
    from retire_frame [OF this] show ?thesis by (rule ends_remembers)
  next
    case (expire w now x)
    from expire_frame [OF this] show ?thesis by (rule ends_remembers)
  qed
qed

end
