(* ===== verification/Operations.thy ===== *)
theory Operations
  imports Promises
begin

text \<open>
  Every operation of \<open>SQLiteSignalModule\<close> is a history: whatever faults, clock readings, file operations
  and answers of the adapter it meets, what it does to the journal is a run of transactions, so that the
  invariants of \<open>History\<close> and the promises of \<open>Promises\<close> are about the operations as the code offers them.
\<close>

declare split_paired_All [simp del] split_paired_Ex [simp del]

section \<open>One transaction\<close>

lemma run_tx_later:
  "(\<And>j' r. body j = Some (Commit j' r) \<Longrightarrow> transaction j j') \<Longrightarrow> later j (snd (run_tx flt unavailable body j))"
  by (auto simp: run_tx_def later.same split: option.split ending.split intro: later_one)

lemma run_tx_later_eq:
  "run_tx flt unavailable body j = (r, j') \<Longrightarrow> (\<And>j' r. body j = Some (Commit j' r) \<Longrightarrow> transaction j j') \<Longrightarrow> later j j'"
  using run_tx_later [of body j flt unavailable] by simp

section \<open>Publication\<close>

lemma blocked_later: "later j (snd (run_tx flt u (blocked_tx w code clock) j))"
  by (rule run_tx_later) (rule transaction.block)

lemma complete_registration_later:
  "complete_registration_publication e w wd = (a, wd') \<Longrightarrow> later (w_journal wd) (w_journal wd')"
  by (auto simp: complete_registration_publication_def mark_publication_blocked_def Let_def later.same
      split: option.splits ticket.splits prod.splits if_splits
      intro: blocked_later dest!: run_tx_later_eq [OF _ transaction.publish])

lemma complete_match_later:
  "complete_match_publication e w n wd = (a, wd') \<Longrightarrow> later (w_journal wd) (w_journal wd')"
  by (auto simp: complete_match_publication_def Let_def later.same
      split: option.splits sum.splits prod.splits if_splits
      dest!: run_tx_later_eq [OF _ transaction.publish_match])

lemma publish_all_later: "publish_all es ws n wd = (m, wd') \<Longrightarrow> later (w_journal wd) (w_journal wd')"
proof (induction es ws n wd rule: publish_all.induct)
  case (1 es n wd)
  then show ?case by (simp add: later.same)
next
  case (2 es w ws n wd)
  obtain a wd1 where one: "complete_registration_publication (es 0) w wd = (a, wd1)"
    by (cases "complete_registration_publication (es 0) w wd")
  from "2.IH" [OF one [symmetric] refl] "2.prems" have "later (w_journal wd1) (w_journal wd')" by (simp add: one comp_def)
  then show ?case using complete_registration_later [OF one] later_trans by blast
qed

lemma publish_matches_later: "publish_matches es ws n wd = (m, wd') \<Longrightarrow> later (w_journal wd) (w_journal wd')"
proof (induction es ws n wd rule: publish_matches.induct)
  case (1 es n wd)
  then show ?case by (simp add: later.same)
next
  case (2 es w r ws n wd)
  obtain a wd1 where one: "complete_match_publication (es 0) w r wd = (a, wd1)"
    by (cases "complete_match_publication (es 0) w r wd")
  from "2.IH" [OF one [symmetric] refl] "2.prems" have "later (w_journal wd1) (w_journal wd')" by (simp add: one comp_def)
  then show ?case using complete_match_later [OF one] later_trans by blast
qed

lemma reconcile_later:
  "reconcile_publications faults es ms lim matches_too wd = (a, wd') \<Longrightarrow> later (w_journal wd) (w_journal wd')"
  by (auto simp: reconcile_publications_def Let_def later.same split: if_splits option.splits prod.splits
      dest!: publish_all_later publish_matches_later intro: later_trans)

lemma reconcile_match_later:
  "reconcile_match_publication flt e w wd = (a, wd') \<Longrightarrow> later (w_journal wd) (w_journal wd')"
  by (auto simp: reconcile_match_publication_def later.same split: if_splits option.splits dest!: complete_match_later)

section \<open>Arming\<close>

lemma arm_with_id_member: "schema_ok j \<Longrightarrow> row \<in> set (j_arms j) \<Longrightarrow> arm_with_id j (ar_arm_id row) = Some row"
  using find_key [of ar_arm_id "j_arms j" row] by (simp add: schema_ok_def arms_ok_def arm_with_id_def)

text \<open>What \<open>reserve\<close> leaves: the row that the second transaction will prepare.\<close>

lemma reserve_leaves:
  assumes "reserve_tx q owner t u j = Some (Commit j' (ReservedLease w arm_id g))" and "schema_ok j"
  shows "\<exists>row. arm_with_id j' arm_id = Some row \<and> ar_wake_id row = w"
proof -
  have ok: "schema_ok j'" using transaction_schema_ok [OF transaction.reserve [OF assms(1)] assms(2)] .
  obtain fresh w' arm_id' s j1 j2 version where
    one: "insert_instance (request_instance q) j = Some j1" and two: "insert_source (aq_key q) j1 = Some j2"
    and "source_at j2 (aq_key q) = Some s" and "lease_busy s t = Some None"
    and r: "ReservedLease w arm_id g = ReservedLease w' arm_id' (ss_lease_generation s + 1)"
    and last: "fresh \<and> arm_keyed j (ac_idempotency_key (aq_context q)) = None
          \<and> insert_arm (preparing_row q w' arm_id' owner (format_time u) version)
              (leased_journal q owner (ss_lease_generation s + 1) u j2) = Some j'
       \<or> \<not> fresh \<and> (\<exists>row. row \<in> set (j_arms j) \<and> ar_arm_id row = arm_id' \<and> ar_wake_id row = w' \<and> ar_state row = Preparing)
          \<and> j' = update_arm (\<lambda>r. ar_arm_id r = arm_id') (prepare_again owner (format_time u))
              (leased_journal q owner (ss_lease_generation s + 1) u j2)"
    using reserve_steps [OF assms(1)] by (elim exE conjE) (rule that; assumption)
  have arms: "j_arms (leased_journal q owner g u j2) = j_arms j" for g
    using insert_instance_frame [OF one] insert_source_frame [OF two] by (auto simp: leased_journal_def update_source_def)
  have "\<exists>row\<in>set (j_arms j'). ar_arm_id row = arm_id' \<and> ar_wake_id row = w'"
    using last
  proof (elim disjE conjE exE)
    assume "insert_arm (preparing_row q w' arm_id' owner (format_time u) version)
        (leased_journal q owner (ss_lease_generation s + 1) u j2) = Some j'"
    from insert_arm_frame [OF this] show ?thesis by (simp add: preparing_row_def)
  next
    fix row assume "row \<in> set (j_arms j)" "ar_arm_id row = arm_id'" "ar_wake_id row = w'"
      and "j' = update_arm (\<lambda>r. ar_arm_id r = arm_id') (prepare_again owner (format_time u))
              (leased_journal q owner (ss_lease_generation s + 1) u j2)"
    then show ?thesis
      by (intro bexI [of _ "prepare_again owner (format_time u) row"])
        (simp_all add: preparing_again.same_ids update_arm_def set_update_where arms image_iff bexI [of _ row])
  qed
  then show ?thesis using arm_with_id_member [OF ok] r by auto
qed

lemma arm_anchored_later:
  assumes "arm_anchored e q w arm_id g answer wd = (a, wd')"
    and "arm_with_id (w_journal wd) arm_id = Some row" and "ar_wake_id row = w"
  shows "later (w_journal wd) (w_journal wd')"
proof -
  have release: "later j (best_effort_release_preparation flt i k owner gen j)" for flt i k owner gen j
    unfolding best_effort_release_preparation_def release_preparation_def
    by (rule run_tx_later) (rule transaction.release)
  have prepare: "run_tx flt u (prepare_tx q (en_resolve e) w arm_id (en_owner e) g anchor) (w_journal wd) = (r, j')
      \<Longrightarrow> later (w_journal wd) j'" for flt u anchor r j'
    by (erule run_tx_later_eq) (rule transaction.prepare [OF _ assms(2,3)])
  show ?thesis
    using assms(1)
    by (auto simp: arm_anchored_def Let_def release split: option.splits outcome.splits prod.splits
        dest!: prepare complete_registration_later intro: later_trans)
qed

lemma arm_leased_later:
  assumes "arm_leased e q t u wd = (a, wd')" and "schema_ok (w_journal wd)"
  shows "later (w_journal wd) (w_journal wd')"
proof -
  let ?body = "reserve_tx q (en_owner e) t u"
  let ?no = "ReservedAnswer (degraded_at (Some (reserved_wake q (en_fault e 0) (w_journal wd))) ''STORE_UNAVAILABLE'' None)"
  obtain r j1 where run: "run_tx (en_fault e 0) ?no ?body (w_journal wd) = (r, j1)"
    by (cases "run_tx (en_fault e 0) ?no ?body (w_journal wd)")
  have first: "later (w_journal wd) j1" using run_tx_later_eq [OF run transaction.reserve] .
  show ?thesis
  proof (cases r)
    case (ReservedAnswer x)
    then have "wd' = wd\<lparr>w_journal := j1\<rparr>" using assms(1) run by (simp add: arm_leased_def)
    then show ?thesis using first by simp
  next
    case (ReservedPublish w)
    then have "complete_registration_publication e w (wd\<lparr>w_journal := j1\<rparr>) = (a, wd')"
      using assms(1) run by (simp add: arm_leased_def)
    then show ?thesis using complete_registration_later first later_trans by fastforce
  next
    case (ReservedLease w arm_id g)
    then have rest: "arm_anchored e q w arm_id g
        (ad_establish_anchor (ac_adapter (aq_context q)) (aq_spec q) (ac_registered_at (aq_context q)))
        (wd\<lparr>w_journal := j1\<rparr>) = (a, wd')"
      using assms(1) run by (simp add: arm_leased_def)
    have "?body (w_journal wd) \<noteq> Some (Rollback (ReservedLease w arm_id g))"
      by (auto simp: reserve_tx_def lease_source_def Let_def split: option.splits Option.bind_splits if_splits)
    then have "?body (w_journal wd) = Some (Commit j1 (ReservedLease w arm_id g))"
      using run_tx_cases [OF run] ReservedLease by auto
    then obtain row where "arm_with_id j1 arm_id = Some row" "ar_wake_id row = w"
      using reserve_leaves assms(2) by blast
    then have "later j1 (w_journal wd')" using arm_anchored_later [OF rest] by simp
    then show ?thesis using first later_trans by blast
  qed
qed

lemma arm_later:
  "arm e w spec context wd = (a, wd') \<Longrightarrow> schema_ok (w_journal wd) \<Longrightarrow> later (w_journal wd) (w_journal wd')"
  by (auto simp: arm_def later.same split: option.splits dest!: arm_leased_later)

section \<open>Receipts, evaluation and retention\<close>

lemma ingest_later:
  assumes "ingest e obs commit j = (a, j')"
  shows "later j j'"
proof (cases "list_all (\<lambda>ob. (ob_source ob, ob_source_instance ob) = (cm_source commit, cm_source_instance commit)) obs")
  case True
  then have "run_tx (en_fault e 0) (degraded_at None ''STORE_UNAVAILABLE'' None) (ingest_tx obs commit (en_clock e 0)) j = (a, j')"
    using assms by (auto simp: ingest_def list_ex_iff list_all_iff)
  then show ?thesis by (rule run_tx_later_eq) (rule transaction.ingest [OF True])
next
  case False
  then have "j' = j" using assms by (auto simp: ingest_def list_ex_iff list_all_iff)
  then show ?thesis by (simp add: later.same)
qed

lemma evaluate_later: "evaluate e w armed now limits j = (a, j') \<Longrightarrow> later j j'"
  by (auto simp: evaluate_def later.same split: if_splits dest!: run_tx_later_eq [OF _ transaction.evaluate])

lemma release_pins_later: "release_retention_pins flt w reasons at j = (a, j') \<Longrightarrow> later j j'"
  by (auto simp: release_retention_pins_def later.same split: if_splits dest!: run_tx_later_eq [OF _ transaction.unpin])

lemma compact_later: "compact_receipts flt through lim j = (a, j') \<Longrightarrow> later j j'"
  by (auto simp: compact_receipts_def later.same split: if_splits dest!: run_tx_later_eq [OF _ transaction.compact])

lemma retire_later: "retire_terminal_record e record now wd = (a, wd') \<Longrightarrow> later (w_journal wd) (w_journal wd')"
  by (auto simp: retire_terminal_record_def later.same split: option.splits json.splits if_splits prod.splits
      dest!: run_tx_later_eq [OF _ transaction.retire])

lemma expire_later: "expire_unreserved flt w now j = (a, j') \<Longrightarrow> later j j'"
  by (auto simp: expire_unreserved_def dest!: run_tx_later_eq [OF _ transaction.expire])

end
