(* ===== verification/NothingLost.thy ===== *)
theory NothingLost
  imports Operations
begin

text \<open>
  No occurrence is lost and none is reported from before its time, over whole histories: the invariant that
  ties the progress of a wake to the receipts it has passed, kept by every transaction of every process, and
  what follows for the operations of \<open>SQLiteSignalModule\<close> (\<open>src/src/codex_wake/signal_store.py\<close>).
\<close>

declare split_paired_All [simp del] split_paired_Ex [simp del]

section \<open>Subscriptions\<close>

text \<open>What a prepared row subscribes to: the request and the anchor that evaluation reads back from it.\<close>

definition subscription :: "arm_row \<Rightarrow> (signal_request \<times> source_anchor) option" where
  "subscription r = map_option (\<lambda>d. (am_spec d, am_anchor d)) (armed_from_row r)"

definition watch :: "journal \<Rightarrow> string \<Rightarrow> (signal_request \<times> source_anchor) option" where
  "watch j w = Option.bind (arm_of j w) subscription"

lemma subscription_kept [simp]:
  "subscription (prepare_again owner until r) = subscription r"
  "subscription (published_row at r) = subscription r"
  "subscription (tombstoned_row r) = subscription r"
  "subscription (r\<lparr>ar_preparer_token := None, ar_preparation_expires_at := None\<rparr>) = subscription r"
  by (simp_all add: subscription_def armed_from_row_def expiry_of_def prepare_again_def published_row_def
      tombstoned_row_def map_option_bind comp_def)

lemma subscription_preparing [simp]: "subscription (preparing_row q w arm_id owner until version) = None"
  by (simp add: subscription_def armed_from_row_def preparing_row_def)

lemma subscription_prepared:
  "subscription (prepared_row anchor at r) = Some (spec, seen) \<Longrightarrow>
     an_local_after_sequence seen = an_local_after_sequence anchor"
  by (auto simp: subscription_def armed_from_row_def prepared_row_def split: Option.bind_splits)

lemma watch_updated:
  assumes "arm_update upd" and "\<And>r. subscription (upd r) = subscription r"
  shows "watch (update_arm P upd j) w = watch j w"
  using assms(2) by (cases "arm_of j w") (simp_all add: watch_def arm_update.arm_found [OF assms(1)])

lemma watch_same: "j_arms j' = j_arms j \<Longrightarrow> watch j' = watch j"
  by (simp add: watch_def arm_of_def fun_eq_iff)

text \<open>A request is judged by its specification and its anchor.\<close>

lemma row_satisfies_same:
  "am_spec d' = am_spec d \<Longrightarrow> am_anchor d' = am_anchor d \<Longrightarrow> row_satisfies contract d' r = row_satisfies contract d r"
  by (simp add: row_satisfies_def satisfies_def wanted_def baseline_matches_def)

lemma evaluating_watch: "evaluating w j row durable contract \<Longrightarrow> watch j w = Some (am_spec durable, am_anchor durable)"
  by (auto simp: evaluating_def watch_def subscription_def)

definition contract_at :: "journal \<Rightarrow> string \<times> string \<Rightarrow> source_contract option" where
  "contract_at j k = Option.bind (instance_at j k) (\<lambda>i. contract_from_json (in_contract_json i))"

section \<open>The stages of an arm\<close>

definition scanned_wakes :: "journal \<Rightarrow> string set" where
  "scanned_wakes j = pg_wake_id ` set (j_progress j)"

lemma progress_of_None: "progress_of j w = None \<longleftrightarrow> w \<notin> scanned_wakes j"
  unfolding progress_of_def scanned_wakes_def by (rule find_key_None)

text \<open>
  An arm has a row of progress once it was prepared, and not before; who prepares it holds its token, and it
  is prepared only once.
\<close>

definition stage_ok :: "string set \<Rightarrow> arm_row \<Rightarrow> bool" where
  "stage_ok W r \<longleftrightarrow>
     (ar_state r = Preparing \<or> ar_preparer_token r \<noteq> None \<longrightarrow> ar_wake_id r \<notin> W)
     \<and> (ar_state r = Prepared \<or> ar_state r = Published \<longrightarrow> ar_wake_id r \<in> W)
     \<and> (subscription r \<noteq> None \<longrightarrow> ar_wake_id r \<in> W)"

definition stages_ok :: "journal \<Rightarrow> bool" where
  "stages_ok j \<longleftrightarrow> (\<forall>r\<in>set (j_arms j). stage_ok (scanned_wakes j) r)"

lemma stages_same: "j_arms j' = j_arms j \<Longrightarrow> scanned_wakes j' = scanned_wakes j \<Longrightarrow> stages_ok j \<Longrightarrow> stages_ok j'"
  by (simp add: stages_ok_def)

lemma stages_updated:
  assumes "stages_ok j" and "j_arms j' = update_where P upd (j_arms j)" and "scanned_wakes j' = scanned_wakes j"
    and "\<And>r. r \<in> set (j_arms j) \<Longrightarrow> P r \<Longrightarrow> stage_ok (scanned_wakes j) r \<Longrightarrow> stage_ok (scanned_wakes j) (upd r)"
  shows "stages_ok j'"
  using assms by (auto simp: stages_ok_def set_update_where)

lemma stage_kept:
  "stage_ok W r \<Longrightarrow> stage_ok W (tombstoned_row r)"
  "stage_ok W r \<Longrightarrow> stage_ok W (r\<lparr>ar_preparer_token := None, ar_preparation_expires_at := None\<rparr>)"
  "stage_ok W r \<Longrightarrow> ar_state r = Preparing \<Longrightarrow> stage_ok W (prepare_again owner until r)"
  "stage_ok W r \<Longrightarrow> ar_state r = Prepared \<or> ar_state r = Published \<Longrightarrow> stage_ok W (published_row at r)"
  by (auto simp: stage_ok_def tombstoning.same_ids unpreparing.same_ids preparing_again.same_ids publishing.same_ids)
    (auto simp: tombstoned_row_def prepare_again_def published_row_def)

text \<open>The arms that a transaction of arming leaves.\<close>

lemma member_by_id:
  "schema_ok j \<Longrightarrow> r \<in> set (j_arms j) \<Longrightarrow> x \<in> set (j_arms j) \<Longrightarrow> ar_arm_id r = ar_arm_id x \<Longrightarrow> r = x"
  "schema_ok j \<Longrightarrow> r \<in> set (j_arms j) \<Longrightarrow> x \<in> set (j_arms j) \<Longrightarrow> ar_wake_id r = ar_wake_id x \<Longrightarrow> r = x"
  by (auto simp: schema_ok_def arms_ok_def distinct_map dest: inj_onD)

lemma reserve_arms:
  assumes "reserve_tx q owner t u j = Some (Commit j' x)"
  shows "(\<exists>w arm_id version. arm_of j w = None
        \<and> j_arms j' = j_arms j @ [preparing_row q w arm_id owner (format_time u) version])
    \<or> (\<exists>row\<in>set (j_arms j). ar_state row = Preparing
        \<and> j_arms j' = update_where (\<lambda>r. ar_arm_id r = ar_arm_id row) (prepare_again owner (format_time u)) (j_arms j))"
proof -
  obtain fresh w arm_id s j1 j2 version where
    one: "insert_instance (request_instance q) j = Some j1" and two: "insert_source (aq_key q) j1 = Some j2"
    and "source_at j2 (aq_key q) = Some s" and "lease_busy s t = Some None"
    and "x = ReservedLease w arm_id (ss_lease_generation s + 1)"
    and last: "fresh \<and> arm_keyed j (ac_idempotency_key (aq_context q)) = None
          \<and> insert_arm (preparing_row q w arm_id owner (format_time u) version)
              (leased_journal q owner (ss_lease_generation s + 1) u j2) = Some j'
       \<or> \<not> fresh \<and> (\<exists>row. row \<in> set (j_arms j) \<and> ar_arm_id row = arm_id \<and> ar_wake_id row = w \<and> ar_state row = Preparing)
          \<and> j' = update_arm (\<lambda>r. ar_arm_id r = arm_id) (prepare_again owner (format_time u))
              (leased_journal q owner (ss_lease_generation s + 1) u j2)"
    using reserve_steps [OF assms] by (elim exE conjE) (rule that; assumption)
  let ?j3 = "leased_journal q owner (ss_lease_generation s + 1) u j2"
  have arms: "j_arms ?j3 = j_arms j"
    using insert_instance_frame [OF one] insert_source_frame [OF two] by (auto simp: leased_journal_def update_source_def)
  show ?thesis
    using last
  proof (elim disjE conjE exE)
    assume new: "insert_arm (preparing_row q w arm_id owner (format_time u) version) ?j3 = Some j'"
    then have "arm_of ?j3 w = None" by (auto simp: insert_arm_def preparing_row_def split: if_splits)
    then have "arm_of j w = None" by (simp add: arm_of_def arms)
    then show ?thesis using insert_arm_frame [OF new] arms by auto
  next
    fix row assume "row \<in> set (j_arms j)" "ar_arm_id row = arm_id" "ar_state row = Preparing"
      and "j' = update_arm (\<lambda>r. ar_arm_id r = arm_id) (prepare_again owner (format_time u)) ?j3"
    then show ?thesis by (auto simp: update_arm_def arms)
  qed
qed

lemma reserve_watch:
  assumes "reserve_tx q owner t u j = Some (Commit j' x)"
  shows "watch j' v = watch j v"
  using reserve_arms [OF assms]
proof (elim disjE exE conjE bexE)
  fix w arm_id version assume "arm_of j w = None"
    and "j_arms j' = j_arms j @ [preparing_row q w arm_id owner (format_time u) version]"
  then show ?thesis by (simp add: watch_def arm_of_def find_append split: option.split)
next
  fix row assume "j_arms j' = update_where (\<lambda>r. ar_arm_id r = ar_arm_id row) (prepare_again owner (format_time u)) (j_arms j)"
  then have "watch j' v = watch (update_arm (\<lambda>r. ar_arm_id r = ar_arm_id row) (prepare_again owner (format_time u)) j) v"
    by (simp add: watch_def arm_of_def update_arm_def)
  also have "\<dots> = watch j v" by (rule watch_updated [OF preparing_again.arm_update_axioms]) simp
  finally show ?thesis .
qed

lemma reserve_stages:
  assumes run: "reserve_tx q owner t u j = Some (Commit j' x)" and ok: "schema_ok j" and stages: "stages_ok j"
  shows "stages_ok j'"
proof -
  have same: "scanned_wakes j' = scanned_wakes j" using reserve_frame [OF run] by (simp add: scanned_wakes_def matches_part_def)
  show ?thesis
    using reserve_arms [OF run]
  proof (elim disjE exE conjE bexE)
    fix w arm_id version assume new: "arm_of j w = None"
      and arms: "j_arms j' = j_arms j @ [preparing_row q w arm_id owner (format_time u) version]"
    have "w \<notin> scanned_wakes j"
      using new ok by (auto simp: arm_of_None schema_ok_def progress_ok_def scanned_wakes_def)
    then have "stage_ok (scanned_wakes j) (preparing_row q w arm_id owner (format_time u) version)"
      by (simp add: stage_ok_def) (simp add: preparing_row_def)
    then show ?thesis using stages by (simp add: stages_ok_def arms same)
  next
    fix row assume row: "row \<in> set (j_arms j)" "ar_state row = Preparing"
      and arms: "j_arms j' = update_where (\<lambda>r. ar_arm_id r = ar_arm_id row) (prepare_again owner (format_time u)) (j_arms j)"
    show ?thesis
      using stage_kept(3) row member_by_id(1) [OF ok]
      by (intro stages_updated [OF stages arms same]) blast
  qed
qed

text \<open>The one transaction that prepares.\<close>

lemma prepare_effect:
  assumes run: "prepare_tx q resolve w arm_id owner g anchor j = Some (Commit j' p)"
    and row: "arm_with_id j arm_id = Some row" "ar_wake_id row = w" and stages: "stages_ok j"
  shows "\<exists>s at. source_at j (aq_key q) = Some s
    \<and> j_arms j' = update_where (\<lambda>r. ar_arm_id r = arm_id) (prepared_row (effective_anchor anchor s) at) (j_arms j)
    \<and> w \<notin> scanned_wakes j
    \<and> j_progress j' = j_progress j @ [\<lparr>pg_wake_id = w,
        pg_scanned_through_sequence = an_local_after_sequence (effective_anchor anchor s), pg_revision = 0, pg_updated_at = at\<rparr>]"
proof -
  obtain s prepared at payload sha j2 j3 j4 j5 where s: "source_at j (aq_key q) = Some s"
    and prep: "arm_with_id j arm_id = Some prepared" "ar_preparer_token prepared = Some owner"
    and i2: "insert_progress \<lparr>pg_wake_id = w, pg_scanned_through_sequence = an_local_after_sequence (effective_anchor anchor s),
        pg_revision = 0, pg_updated_at = at\<rparr>
        (update_arm (\<lambda>r. ar_arm_id r = arm_id) (prepared_row (effective_anchor anchor s) at) j) = Some j2"
    and i3: "insert_pin (anchor_pin w (an_local_after_sequence (effective_anchor anchor s)) at) j2 = Some j3"
    and i4: "insert_lifecycle (pending_life w at) j3 = Some j4"
    and i5: "insert_outbox True (put_row w 1 ''pending'' None payload sha at) j4 = Some j5"
    and j': "j' = update_source
        (\<lambda>r. ss_key r = aq_key q \<and> ss_lease_owner r = Some owner \<and> ss_lease_generation r = g)
        (\<lambda>r. r\<lparr>ss_lease_owner := None, ss_lease_expires_at := None\<rparr>) j5"
    using prepare_steps [OF run] by blast
  have "row \<in> set (j_arms j)" using row(1) by (auto simp: arm_with_id_def dest: find_SomeD)
  then have free: "w \<notin> scanned_wakes j"
    using stages row prep by (auto simp: stages_ok_def stage_ok_def)
  have rest: "j_progress j' = j_progress j2 \<and> j_arms j' = j_arms j2"
    using insert_pin_frame [OF i3] insert_lifecycle_frame [OF i4] insert_outbox_frame [OF i5]
    by (auto simp: j' update_source_def)
  let ?j1 = "update_arm (\<lambda>r. ar_arm_id r = arm_id) (prepared_row (effective_anchor anchor s) at) j"
  have "progress_of ?j1 w = None" using free by (simp add: progress_of_None) (simp add: scanned_wakes_def update_arm_def)
  then have "j2 = ?j1\<lparr>j_progress := j_progress ?j1 @ [\<lparr>pg_wake_id = w,
      pg_scanned_through_sequence = an_local_after_sequence (effective_anchor anchor s), pg_revision = 0, pg_updated_at = at\<rparr>]\<rparr>"
    using i2 by (auto simp: insert_progress_def split: if_splits)
  then show ?thesis using s free rest by (intro exI [of _ s] exI [of _ at]) (simp add: update_arm_def)
qed

lemma prepare_stages:
  assumes run: "prepare_tx q resolve w arm_id owner g anchor j = Some (Commit j' p)"
    and row: "arm_with_id j arm_id = Some row" "ar_wake_id row = w" and ok: "schema_ok j" and stages: "stages_ok j"
  shows "stages_ok j'"
proof -
  obtain s at where arms: "j_arms j' = update_where (\<lambda>r. ar_arm_id r = arm_id) (prepared_row (effective_anchor anchor s) at) (j_arms j)"
    and free: "w \<notin> scanned_wakes j"
    and progress: "j_progress j' = j_progress j @ [\<lparr>pg_wake_id = w,
        pg_scanned_through_sequence = an_local_after_sequence (effective_anchor anchor s), pg_revision = 0, pg_updated_at = at\<rparr>]"
    using prepare_effect [OF run row stages] by blast
  have wakes: "scanned_wakes j' = insert w (scanned_wakes j)" by (simp add: scanned_wakes_def progress)
  have mem: "row \<in> set (j_arms j)" "ar_arm_id row = arm_id" using row(1) by (auto simp: arm_with_id_def dest: find_SomeD)
  have "stage_ok (scanned_wakes j') (if ar_arm_id r = arm_id then prepared_row (effective_anchor anchor s) at r else r)"
    if r: "r \<in> set (j_arms j)" for r
  proof (cases "ar_arm_id r = arm_id")
    case True
    then have "r = row" using member_by_id(1) [OF ok r mem(1)] mem(2) by simp
    then show ?thesis using True row(2) by (simp add: stage_ok_def wakes preparing.same_ids) (simp add: prepared_row_def)
  next
    case False
    then have "ar_wake_id r \<noteq> w" using member_by_id(2) [OF ok r mem(1)] row(2) mem(2) by auto
    then show ?thesis using False stages r by (auto simp: stages_ok_def stage_ok_def wakes)
  qed
  then show ?thesis unfolding stages_ok_def arms set_update_where by blast
qed

lemma publish_stages:
  assumes run: "publish_tx w cap clock j = Some (Commit j' a)" and ok: "schema_ok j" and stages: "stages_ok j"
  shows "stages_ok j'"
proof -
  obtain row where row: "arm_of j w = Some row" "ar_state row = Prepared \<or> ar_state row = Published"
    using run by (auto simp: publish_tx_def Let_def split: option.splits if_splits Option.bind_splits)
  then have mem: "row \<in> set (j_arms j)" "ar_wake_id row = w" by (auto simp: arm_of_def dest: find_SomeD)
  obtain at where arms: "j_arms j' = update_where (\<lambda>r. ar_wake_id r = w) (published_row at) (j_arms j)"
    and same: "scanned_wakes j' = scanned_wakes j"
    using publication_frame(2) [OF run] by (auto simp: scanned_wakes_def matches_part_def)
  show ?thesis
    using stage_kept(4) member_by_id(2) [OF ok _ mem(1)] mem(2) row(2)
    by (intro stages_updated [OF stages arms same]) blast
qed

section \<open>What an evaluation does to the progress\<close>

lemma progress_of_SomeD: "progress_of j w = Some p \<Longrightarrow> pg_wake_id p = w \<and> p \<in> set (j_progress j)"
  by (auto simp: progress_of_def dest: find_SomeD)

lemma advanced_elsewhere: "v \<noteq> w \<Longrightarrow> progress_of (advance_progress w n now j) v = progress_of j v"
  by (cases "progress_of j v") (auto simp: advance_progress_def advancing.progress_found dest!: progress_of_SomeD)

lemma advanced_wakes: "scanned_wakes (advance_progress w n now j) = scanned_wakes j"
  by (simp add: scanned_wakes_def advance_progress_def update_progress_def advancing.key_set_kept)

text \<open>It leaves every progress as it is, or advances its own over receipts that it has judged.\<close>

lemma evaluate_effect:
  assumes run: "evaluate_tx w armed now limits j = Some (Commit j' a)"
  shows "j_progress j' = j_progress j
    \<or> (\<exists>row durable contract p before rest n. evaluating w j row durable contract \<and> progress_of j w = Some p
        \<and> candidate_rows (am_spec durable) (scan_start durable p) j = before @ rest
        \<and> (\<forall>x\<in>set before. \<not> row_satisfies contract durable x)
        \<and> (rest = [] \<or> n = scanned_to (scan_start durable p) before)
        \<and> j_progress j' = j_progress (advance_progress w n now j)
        \<and> (n = scan_start durable p \<or> n \<in> rc_local_sequence ` set (j_receipts j) \<or> next_sequence j = Some (n + 1)))"
proof -
  obtain row durable contract where ev: "evaluating w j row durable contract"
    and rest: "case reservation_of j w of
         Some reservation \<Rightarrow> \<exists>m. matched_from_json (rv_evidence_json reservation) = Some m
           \<and> ensure_match_outbox m j = Some j' \<and> a = Ok (Matched m)
       | None \<Rightarrow> life_pending (lifecycle_of j w)
           \<and> (\<forall>expires. am_expires_at durable = Some expires \<longrightarrow> now < expires)
           \<and> 0 < lm_max_candidates limits
           \<and> evaluate_page w contract durable now limits j = Some (Commit j' a)"
    using evaluate_tx_commit [OF run] by blast
  show ?thesis
  proof (cases "reservation_of j w")
    case (Some res)
    then obtain m where "ensure_match_outbox m j = Some j'" using rest by auto
    then show ?thesis using ensure_match_outbox_frame by fastforce
  next
    case None
    then have page: "evaluate_page w contract durable now limits j = Some (Commit j' a)" "0 < lm_max_candidates limits"
      using rest by simp_all
    show ?thesis
    proof (cases "j_progress j' = j_progress j")
      case False
      then have "reservation_of j' w = None"
        using None evaluate_page_kept [OF page(1)] by (simp add: reservation_of_def)
      from evaluate_page_progress [OF page(1) this page(2)] show ?thesis using ev by blast
    qed simp
  qed
qed

lemma progress_same:
  "j_progress j' = j_progress k \<Longrightarrow> scanned_wakes j' = scanned_wakes k \<and> progress_of j' = progress_of k"
  by (simp add: scanned_wakes_def progress_of_def fun_eq_iff)

lemma evaluate_wakes:
  assumes "evaluate_tx w armed now limits j = Some (Commit j' a)"
  shows "scanned_wakes j' = scanned_wakes j" and "v \<noteq> w \<Longrightarrow> progress_of j' v = progress_of j v"
proof -
  have "j_progress j' = j_progress j \<or> (\<exists>n. j_progress j' = j_progress (advance_progress w n now j))"
    using evaluate_effect [OF assms] by blast
  then show "scanned_wakes j' = scanned_wakes j" and "v \<noteq> w \<Longrightarrow> progress_of j' v = progress_of j v"
    using advanced_wakes [of w _ now j] advanced_elsewhere [of v w _ now j] by (auto dest!: progress_same)
qed

lemma ends_stages: "ends w j j' \<Longrightarrow> stages_ok j \<Longrightarrow> stages_ok j'"
  by (rule stages_updated [of j j' "\<lambda>r. ar_wake_id r = w" tombstoned_row])
    (simp_all add: ends_def matches_part_def scanned_wakes_def stage_kept(1))

lemma release_stages:
  assumes "release_preparation_tx arm_id k owner g j = Some (Commit j' b)" and "stages_ok j"
  shows "stages_ok j'"
  using assms(2) unfolding release_steps [OF assms(1)]
  by (rule stages_updated [of _ _ "\<lambda>r. ar_arm_id r = arm_id \<and> ar_preparer_token r = Some owner"
        "\<lambda>r. r\<lparr>ar_preparer_token := None, ar_preparation_expires_at := None\<rparr>"])
    (simp_all add: update_source_def update_arm_def scanned_wakes_def stage_kept(2))

lemma transaction_stages:
  assumes "transaction j j'" and ok: "schema_ok j" and stages: "stages_ok j"
  shows "stages_ok j'"
  using assms(1)
proof cases
  case (reserve q owner t u r)
  then show ?thesis using reserve_stages ok stages by blast
next
  case (release arm_id k owner g b)
  then show ?thesis using release_stages stages by blast
next
  case (prepare q resolve w arm_id owner g anchor p row)
  then show ?thesis using prepare_stages ok stages by blast
next
  case (block w code clock u)
  from publication_frame(1) [OF this] show ?thesis
    by (intro stages_same [OF _ _ stages]) (simp_all add: matches_part_def scanned_wakes_def)
next
  case (publish w cap clock a)
  then show ?thesis using publish_stages ok stages by blast
next
  case (publish_match w n sha cap clock d)
  from publication_frame(3) [OF this] show ?thesis
    by (intro stages_same [OF _ _ stages]) (simp_all add: matches_part_def scanned_wakes_def)
next
  case (ingest commit obs clock ig)
  from ingest_frame [OF this(2)] show ?thesis
    by (intro stages_same [OF _ _ stages]) (simp_all add: matches_part_def scanned_wakes_def)
next
  case (evaluate w armed now limits e)
  from evaluate_frame [OF this] evaluate_wakes(1) [OF this] show ?thesis by (intro stages_same [OF _ _ stages]) simp_all
next
  case (unpin w reasons at c)
  from unpin_frame [OF this] show ?thesis by (intro stages_same [OF _ _ stages]) (auto simp: scanned_wakes_def)
next
  case (compact through lim co)
  from compact_frame [OF this] show ?thesis
    by (intro stages_same [OF _ _ stages]) (simp_all add: other_tables_def scanned_wakes_def)
next
  case (retire w status arm_id uuid revision now t)
  from retire_frame [OF this] show ?thesis using ends_stages stages by blast
next
  case (expire w now x)
  from expire_frame [OF this] show ?thesis using ends_stages stages by blast
qed

section \<open>Every receipt is accounted for\<close>

text \<open>
  The progress of a wake is not past the last number given (or its anchor), and as long as the wake has no match,
  every receipt of its request between the anchor and the progress fails the request.
\<close>

definition accounted :: "journal \<Rightarrow> string \<Rightarrow> bool" where
  "accounted j w \<longleftrightarrow>
     (\<forall>d p n. watch j w = Some (am_spec d, am_anchor d) \<longrightarrow> progress_of j w = Some p \<longrightarrow> next_sequence j = Some n \<longrightarrow>
        pg_scanned_through_sequence p \<le> max (an_local_after_sequence (am_anchor d)) (n - 1)
        \<and> (reservation_of j w = None \<longrightarrow>
            (\<forall>contract r. contract_at j (rq_source (am_spec d), rq_source_instance (am_spec d)) = Some contract \<longrightarrow>
               r \<in> set (candidate_rows (am_spec d) (an_local_after_sequence (am_anchor d)) j) \<longrightarrow>
               rc_local_sequence r \<le> pg_scanned_through_sequence p \<longrightarrow> \<not> row_satisfies contract d r)))"

lemma accountedD:
  assumes "accounted j w" and "watch j w = Some (am_spec d, am_anchor d)" and "progress_of j w = Some p"
    and "next_sequence j = Some n"
  shows "pg_scanned_through_sequence p \<le> max (an_local_after_sequence (am_anchor d)) (n - 1)"
    and "reservation_of j w = None \<Longrightarrow>
      contract_at j (rq_source (am_spec d), rq_source_instance (am_spec d)) = Some contract \<Longrightarrow>
      r \<in> set (candidate_rows (am_spec d) (an_local_after_sequence (am_anchor d)) j) \<Longrightarrow>
      rc_local_sequence r \<le> pg_scanned_through_sequence p \<Longrightarrow> \<not> row_satisfies contract d r"
  using assms unfolding accounted_def by blast+

text \<open>What a journal remembers is found again.\<close>

lemma instance_remembered:
  assumes "remembers j j'" and "schema_ok j'" and "instance_at j k = Some i"
  shows "instance_at j' k = Some i"
proof -
  have "i \<in> set (j_instances j')" "in_key i = k"
    using assms(1,3) by (auto simp: remembers_def instance_at_def dest: find_SomeD)
  then show ?thesis
    using find_key [of in_key "j_instances j'" i] assms(2) by (simp add: instance_at_def schema_ok_def instances_ok_def)
qed

lemma contract_remembered:
  assumes "remembers j j'" and "schema_ok j" and "schema_ok j'" and "r \<in> set (j_receipts j)"
  shows "contract_at j' (rc_source r, rc_source_instance r) = contract_at j (rc_source r, rc_source_instance r)"
proof -
  have "(rc_source r, rc_source_instance r) \<in> instance_keys j"
    using assms(2,4) by (simp add: schema_ok_def receipts_ok_def)
  then obtain i where "instance_at j (rc_source r, rc_source_instance r) = Some i"
    using instance_at_None by fastforce
  then show ?thesis using instance_remembered [OF assms(1,3)] by (simp add: contract_at_def)
qed

lemma reservation_remembered:
  assumes "remembers j j'" and "reservation_of j' w = None"
  shows "reservation_of j w = None"
proof (rule ccontr)
  assume "reservation_of j w \<noteq> None"
  then obtain m where "m \<in> set (j_reservations j)" "rv_wake_id m = w" by (auto simp: reservation_of_def dest: find_SomeD)
  moreover from this obtain m' where "m' \<in> set (j_reservations j')" "reservation_columns m' = reservation_columns m"
    using assms(1) unfolding remembers_def by (metis image_iff subset_iff)
  ultimately show False
    using assms(2) find_NoneD [of "\<lambda>r. rv_wake_id r = w" "j_reservations j'" m']
    by (simp add: reservation_of_def reservation_columns_def)
qed

text \<open>Only preparing changes a subscription, and only its own wake's.\<close>

lemma release_watch:
  assumes "release_preparation_tx arm_id k owner g j = Some (Commit j' b)"
  shows "watch j' v = watch j v"
proof -
  have "watch j' v = watch (update_arm (\<lambda>r. ar_arm_id r = arm_id \<and> ar_preparer_token r = Some owner)
      (\<lambda>r. r\<lparr>ar_preparer_token := None, ar_preparation_expires_at := None\<rparr>) j) v"
    unfolding release_steps [OF assms] by (simp add: watch_def arm_of_def update_source_def)
  also have "\<dots> = watch j v" by (rule watch_updated [OF unpreparing.arm_update_axioms]) simp
  finally show ?thesis .
qed

lemma publish_watch:
  assumes "publish_tx w cap clock j = Some (Commit j' a)"
  shows "watch j' v = watch j v"
proof -
  obtain at where "j_arms j' = update_where (\<lambda>r. ar_wake_id r = w) (published_row at) (j_arms j)"
    using publication_frame(2) [OF assms] by blast
  then have "watch j' v = watch (update_arm (\<lambda>r. ar_wake_id r = w) (published_row at) j) v"
    by (simp add: watch_def arm_of_def update_arm_def)
  also have "\<dots> = watch j v" by (rule watch_updated [OF publishing.arm_update_axioms]) simp
  finally show ?thesis .
qed

lemma ends_watch:
  assumes "ends w j j'"
  shows "watch j' v = watch j v"
proof -
  have "watch j' v = watch (update_arm (\<lambda>r. ar_wake_id r = w) tombstoned_row j) v"
    using assms by (simp add: ends_def watch_def arm_of_def update_arm_def)
  also have "\<dots> = watch j v" by (rule watch_updated [OF tombstoning.arm_update_axioms]) simp
  finally show ?thesis .
qed

text \<open>A transaction that neither changes the subscription nor the progress of a wake, nor adds a receipt.\<close>

lemma accounted_quiet:
  assumes acc: "accounted j w" and mem: "remembers j j'" and ok: "schema_ok j" "schema_ok j'"
    and watch: "\<And>x. watch j' w = Some x \<Longrightarrow> watch j w = Some x" and progress: "progress_of j' w = progress_of j w"
    and n: "next_sequence j' = next_sequence j" and rows: "set (j_receipts j') \<subseteq> set (j_receipts j)"
  shows "accounted j' w"
  unfolding accounted_def
proof (intro allI impI conjI)
  fix d :: armed_signal and p n assume "watch j' w = Some (am_spec d, am_anchor d)" "progress_of j' w = Some p" "next_sequence j' = Some n"
  then have now: "watch j w = Some (am_spec d, am_anchor d)" "progress_of j w = Some p" "next_sequence j = Some n"
    using watch progress assms(7) by simp_all
  show "pg_scanned_through_sequence p \<le> max (an_local_after_sequence (am_anchor d)) (n - 1)"
    using accountedD(1) [OF acc now] .
  fix contract r assume none: "reservation_of j' w = None"
    and con: "contract_at j' (rq_source (am_spec d), rq_source_instance (am_spec d)) = Some contract"
    and r: "r \<in> set (candidate_rows (am_spec d) (an_local_after_sequence (am_anchor d)) j')"
    and le: "rc_local_sequence r \<le> pg_scanned_through_sequence p"
  have r': "r \<in> set (candidate_rows (am_spec d) (an_local_after_sequence (am_anchor d)) j)" "r \<in> set (j_receipts j)"
    "(rc_source r, rc_source_instance r) = (rq_source (am_spec d), rq_source_instance (am_spec d))"
    using r rows by (auto simp: candidate_rows_set)
  have "contract_at j (rq_source (am_spec d), rq_source_instance (am_spec d)) = Some contract"
    using contract_remembered [OF mem ok r'(2)] con unfolding r'(3) by simp
  from accountedD(2) [OF acc now reservation_remembered [OF mem none] this r'(1) le]
  show "\<not> row_satisfies contract d r" .
qed

lemma prepare_accounted:
  assumes run: "prepare_tx q resolve w arm_id owner g anchor j = Some (Commit j' p)"
    and row: "arm_with_id j arm_id = Some row" "ar_wake_id row = w" and ok: "schema_ok j" "schema_ok j'"
    and stages: "stages_ok j" and acc: "accounted j v"
  shows "accounted j' v"
proof -
  obtain s at where arms: "j_arms j' = update_where (\<lambda>r. ar_arm_id r = arm_id) (prepared_row (effective_anchor anchor s) at) (j_arms j)"
    and free: "w \<notin> scanned_wakes j"
    and progress: "j_progress j' = j_progress j @ [\<lparr>pg_wake_id = w,
        pg_scanned_through_sequence = an_local_after_sequence (effective_anchor anchor s), pg_revision = 0, pg_updated_at = at\<rparr>]"
    using prepare_effect [OF run row stages] by blast
  let ?j1 = "update_arm (\<lambda>r. ar_arm_id r = arm_id) (prepared_row (effective_anchor anchor s) at) j"
  have mem: "row \<in> set (j_arms j)" "ar_arm_id row = arm_id" using row(1) by (auto simp: arm_with_id_def dest: find_SomeD)
  have found: "arm_of j' v = map_option (\<lambda>r. if ar_arm_id r = arm_id then prepared_row (effective_anchor anchor s) at r else r) (arm_of j v)"
    using preparing.arm_found [of "\<lambda>r. ar_arm_id r = arm_id" "effective_anchor anchor s" at j v]
    by (simp add: arm_of_def arms update_arm_def)
  have who: "x \<in> set (j_arms j) \<and> ar_wake_id x = v" if "arm_of j v = Some x" for x
    using that by (auto simp: arm_of_def dest: find_SomeD)
  show ?thesis
  proof (cases "v = w")
    case False
    have "arm_of j' v = arm_of j v"
      using found who member_by_id(1) [OF ok(1) _ mem(1)] mem(2) row(2) False by (cases "arm_of j v") auto
    moreover have "progress_of j' v = progress_of j v"
      using False by (simp add: progress_of_def progress find_append split: option.split)
    ultimately show ?thesis
      using prepare_frame [OF run] prepare_remembers [OF run]
      by (intro accounted_quiet [OF acc _ ok]) (simp_all add: watch_def receipts_part_def next_sequence_def)
  next
    case True
    have new: "progress_of j' w = Some \<lparr>pg_wake_id = w,
        pg_scanned_through_sequence = an_local_after_sequence (effective_anchor anchor s), pg_revision = 0, pg_updated_at = at\<rparr>"
      using free progress_of_None [of j w] by (simp add: progress_of_def progress find_append)
    have "arm_of j w = Some row" using find_key [of ar_wake_id "j_arms j" row] ok(1) mem row(2)
      by (simp add: schema_ok_def arms_ok_def arm_of_def)
    then have sub: "watch j' w = subscription (prepared_row (effective_anchor anchor s) at row)"
      using found mem(2) True by (simp add: watch_def)
    show ?thesis
      unfolding accounted_def True
    proof (intro allI impI conjI)
      fix d :: armed_signal and p n assume "watch j' w = Some (am_spec d, am_anchor d)" and "progress_of j' w = Some p"
      then have at: "an_local_after_sequence (am_anchor d) = pg_scanned_through_sequence p"
        using sub subscription_prepared new by fastforce
      then show "pg_scanned_through_sequence p \<le> max (an_local_after_sequence (am_anchor d)) (n - 1)" by simp
      fix contract r assume "r \<in> set (candidate_rows (am_spec d) (an_local_after_sequence (am_anchor d)) j')"
        and "rc_local_sequence r \<le> pg_scanned_through_sequence p"
      then show "\<not> row_satisfies contract d r" using at by (simp add: candidate_rows_set)
    qed
  qed
qed

lemma ingest_accounted:
  assumes run: "ingest_tx obs commit clock j = Some (Commit j' x)"
    and batch: "list_all (\<lambda>ob. (ob_source ob, ob_source_instance ob) = (cm_source commit, cm_source_instance commit)) obs"
    and acc: "accounted j w"
  shows "accounted j' w"
proof -
  obtain n new where n: "next_sequence j = Some n" and n': "next_sequence j' = Some (n + int (length new))"
    and rows: "j_receipts j' = j_receipts j @ new" and new: "\<forall>x\<in>set new. n \<le> rc_local_sequence x"
    using ingest_adds [OF run batch] by blast
  have same: "watch j' = watch j" "progress_of j' = progress_of j" "reservation_of j' = reservation_of j" "contract_at j' = contract_at j"
    using ingest_frame [OF run] watch_same [of j' j] progress_same [of j' j]
    by (simp_all add: matches_part_def contracts_part_def reservation_of_def contract_at_def instance_at_def fun_eq_iff)
  show ?thesis
    unfolding accounted_def same
  proof (intro allI impI conjI)
    fix d :: armed_signal and p m assume now: "watch j w = Some (am_spec d, am_anchor d)" "progress_of j w = Some p"
      and m: "next_sequence j' = Some m"
    have bound: "pg_scanned_through_sequence p \<le> max (an_local_after_sequence (am_anchor d)) (n - 1)"
      by (rule accountedD(1) [OF acc now n])
    then show "pg_scanned_through_sequence p \<le> max (an_local_after_sequence (am_anchor d)) (m - 1)"
      using m n' by auto
    fix contract r assume rest: "reservation_of j w = None"
      "contract_at j (rq_source (am_spec d), rq_source_instance (am_spec d)) = Some contract"
      and r: "r \<in> set (candidate_rows (am_spec d) (an_local_after_sequence (am_anchor d)) j')"
      and le: "rc_local_sequence r \<le> pg_scanned_through_sequence p"
    have "r \<notin> set new" using new bound le r by (auto simp: candidate_rows_set)
    then have "r \<in> set (candidate_rows (am_spec d) (an_local_after_sequence (am_anchor d)) j)"
      using r rows by (auto simp: candidate_rows_set)
    from accountedD(2) [OF acc now n rest this le] show "\<not> row_satisfies contract d r" .
  qed
qed

lemma evaluate_accounted:
  assumes run: "evaluate_tx w armed now limits j = Some (Commit j' a)" and ok: "schema_ok j" "schema_ok j'"
    and counted: "receipts_counted j" and acc: "accounted j v"
  shows "accounted j' v"
proof -
  have mem: "remembers j j'" using memory.transaction_rel [OF transaction.evaluate [OF run] ok(1)] .
  have frame: "j_receipts j' = j_receipts j" "j_meta j' = j_meta j" "j_arms j' = j_arms j" "j_instances j' = j_instances j"
    using evaluate_frame [OF run] by (simp_all add: receipts_part_def contracts_part_def)
  have quiet: "progress_of j' v = progress_of j v \<Longrightarrow> accounted j' v"
    using frame watch_same [OF frame(3)] by (intro accounted_quiet [OF acc mem ok]) (simp_all add: next_sequence_def)
  show ?thesis
  proof (cases "progress_of j' v = progress_of j v")
    case True
    then show ?thesis by (rule quiet)
  next
    case False
    then have v: "v = w" using evaluate_wakes(2) [OF run] by blast
    have "j_progress j' \<noteq> j_progress j" using False progress_same by metis
    then obtain row durable contract p before rest n where ev: "evaluating w j row durable contract"
      and p: "progress_of j w = Some p"
      and cands: "candidate_rows (am_spec durable) (scan_start durable p) j = before @ rest"
      and skip: "\<forall>x\<in>set before. \<not> row_satisfies contract durable x"
      and at: "rest = [] \<or> n = scanned_to (scan_start durable p) before"
      and moved: "j_progress j' = j_progress (advance_progress w n now j)"
      and bound: "n = scan_start durable p \<or> n \<in> rc_local_sequence ` set (j_receipts j) \<or> next_sequence j = Some (n + 1)"
      using evaluate_effect [OF run] by blast
    let ?p' = "p\<lparr>pg_scanned_through_sequence := max (pg_scanned_through_sequence p) n,
        pg_revision := pg_revision p + 1, pg_updated_at := format_time now\<rparr>"
    have p': "progress_of j' w = Some ?p'" using progress_advanced [OF p] progress_same [OF moved] by simp
    have here: "watch j w = Some (am_spec durable, am_anchor durable)" by (rule evaluating_watch [OF ev])
    show ?thesis
      unfolding accounted_def v
    proof (intro allI impI conjI)
      fix d :: armed_signal and q m assume d: "watch j' w = Some (am_spec d, am_anchor d)" and q: "progress_of j' w = Some q"
        and m: "next_sequence j' = Some m"
      have same: "am_spec d = am_spec durable" "am_anchor d = am_anchor durable"
        using d here watch_same [OF frame(3)] by simp_all
      have m': "next_sequence j = Some m" using m frame(2) by (simp add: next_sequence_def)
      note old = accountedD [OF acc [unfolded v] here p m']
      have "n \<le> max (scan_start durable p) (m - 1)"
        using bound counted m' by (fastforce simp: receipts_counted_def)
      then show "pg_scanned_through_sequence q \<le> max (an_local_after_sequence (am_anchor d)) (m - 1)"
        using old(1) p' q by (auto simp: same scan_start_def)
      fix c r assume none: "reservation_of j' w = None"
        and c: "contract_at j' (rq_source (am_spec d), rq_source_instance (am_spec d)) = Some c"
        and r: "r \<in> set (candidate_rows (am_spec d) (an_local_after_sequence (am_anchor d)) j')"
        and le: "rc_local_sequence r \<le> pg_scanned_through_sequence q"
      have c': "contract_at j (rq_source (am_spec durable), rq_source_instance (am_spec durable)) = Some c"
        using c by (simp add: contract_at_def instance_at_def frame(4) same)
      then have con: "c = contract" using ev by (auto simp: evaluating_def contract_at_def)
      have r': "r \<in> set (candidate_rows (am_spec durable) (an_local_after_sequence (am_anchor durable)) j)"
        using r by (simp add: candidate_rows_set frame(1) same)
      have "\<not> row_satisfies c durable r"
      proof (cases "rc_local_sequence r \<le> pg_scanned_through_sequence p")
        case True
        show ?thesis by (rule old(2) [OF reservation_remembered [OF mem none] c' r' True])
      next
        case False
        then have "r \<in> set (candidate_rows (am_spec durable) (scan_start durable p) j)" and "rc_local_sequence r \<le> n"
          using r' le p' q by (auto simp: candidate_rows_set scan_start_def)
        then show ?thesis using scanned_members [OF ok(1) cands _ at] skip con by blast
      qed
      then show "\<not> row_satisfies c d r" using row_satisfies_same [of d durable] same by simp
    qed
  qed
qed

definition books :: "journal \<Rightarrow> bool" where
  "books j \<longleftrightarrow> receipts_counted j \<and> stages_ok j \<and> (\<forall>w. accounted j w)"

lemma transaction_accounted:
  assumes step: "transaction j j'" and ok: "schema_ok j" and books: "books j"
  shows "accounted j' v"
proof -
  have acc: "accounted j v" and stages: "stages_ok j" and counted: "receipts_counted j"
    using books by (simp_all add: books_def)
  have ok': "schema_ok j'" and mem: "remembers j j'"
    using transaction_schema_ok [OF step ok] memory.transaction_rel [OF step ok] .
  note quiet = accounted_quiet [OF acc mem ok ok']
  have ending: "ends w j j' \<Longrightarrow> accounted j' v" for w
    using progress_same [of j' j] ends_watch [of w j j' v]
    by (intro quiet) (simp_all add: ends_def matches_part_def receipts_part_def next_sequence_def)
  show ?thesis
    using step
  proof cases
    case (reserve q owner t u r)
    from reserve_frame [OF this] reserve_watch [OF this, of v] show ?thesis
      using progress_same [of j' j] by (intro quiet) (simp_all add: matches_part_def receipts_part_def next_sequence_def)
  next
    case (release arm_id k owner g b)
    show ?thesis
      using release_frame [OF release] release_watch [OF release, of v] progress_same [of j' j]
      by (intro quiet) (simp_all add: matches_part_def receipts_part_def next_sequence_def)
  next
    case (prepare q resolve w arm_id owner g anchor p row)
    then show ?thesis using prepare_accounted ok ok' stages acc by blast
  next
    case (block w code clock u)
    from publication_frame(1) [OF this] show ?thesis
      using progress_same [of j' j] watch_same [of j' j]
      by (intro quiet) (simp_all add: matches_part_def receipts_part_def next_sequence_def)
  next
    case (publish w cap clock a)
    show ?thesis
      using publication_frame(2) [OF publish] publish_watch [OF publish, of v] progress_same [of j' j]
      by (intro quiet) (simp_all add: matches_part_def receipts_part_def next_sequence_def)
  next
    case (publish_match w n sha cap clock d)
    from publication_frame(3) [OF this] show ?thesis
      using progress_same [of j' j] watch_same [of j' j]
      by (intro quiet) (simp_all add: matches_part_def receipts_part_def next_sequence_def)
  next
    case (ingest commit obs clock ig)
    then show ?thesis using ingest_accounted acc by blast
  next
    case (evaluate w armed now limits e)
    then show ?thesis using evaluate_accounted ok ok' counted acc by blast
  next
    case (unpin w reasons at c)
    obtain pins where "j' = j\<lparr>j_pins := pins\<rparr>" using unpin_frame [OF unpin] by blast
    then show ?thesis
      using progress_same [of j' j] watch_same [of j' j] by (intro quiet) (simp_all add: next_sequence_def)
  next
    case (compact through lim co)
    from compact_frame [OF this] show ?thesis
      using progress_same [of j' j] watch_same [of j' j] by (intro quiet) (simp_all add: other_tables_def next_sequence_def)
  next
    case (retire w status arm_id uuid revision now t)
    from retire_frame [OF this] show ?thesis by (rule ending)
  next
    case (expire w now x)
    from expire_frame [OF this] show ?thesis by (rule ending)
  qed
qed

interpretation bookkeeping: journal_invariant books
proof unfold_locales
  fix uuid now show "books (fresh_journal uuid now)"
    using counted.fresh_holds
    by (simp add: books_def stages_ok_def accounted_def watch_def arm_of_def fresh_journal_def empty_journal_def)
next
  fix j j' assume "transaction j j'" "schema_ok j" "books j"
  then show "books j'"
    using transaction_accounted transaction_stages counted.transaction_holds by (simp add: books_def)
qed

section \<open>A subscription never changes\<close>

lemma prepare_watch:
  assumes run: "prepare_tx q resolve w arm_id owner g anchor j = Some (Commit j' p)"
    and row: "arm_with_id j arm_id = Some row" "ar_wake_id row = w" and ok: "schema_ok j" and stages: "stages_ok j"
    and seen: "watch j v = Some x"
  shows "watch j' v = Some x"
proof -
  obtain s at where arms: "j_arms j' = update_where (\<lambda>r. ar_arm_id r = arm_id) (prepared_row (effective_anchor anchor s) at) (j_arms j)"
    and free: "w \<notin> scanned_wakes j"
    using prepare_effect [OF run row stages] by blast
  obtain r where r: "arm_of j v = Some r" "subscription r = Some x" using seen by (auto simp: watch_def split: Option.bind_splits)
  then have mem: "r \<in> set (j_arms j)" "ar_wake_id r = v" by (auto simp: arm_of_def dest: find_SomeD)
  have "ar_wake_id r \<in> scanned_wakes j" using stages mem(1) r(2) by (simp add: stages_ok_def stage_ok_def)
  moreover have "row \<in> set (j_arms j)" "ar_arm_id row = arm_id" using row(1) by (auto simp: arm_with_id_def dest: find_SomeD)
  ultimately have "ar_arm_id r \<noteq> arm_id" using member_by_id(1) [OF ok mem(1)] free row(2) by auto
  then have "arm_of j' v = Some r"
    using preparing.arm_found [of "\<lambda>r. ar_arm_id r = arm_id" "effective_anchor anchor s" at j v] r(1)
    by (simp add: arm_of_def arms update_arm_def)
  then show ?thesis using r(2) by (simp add: watch_def)
qed

lemma transaction_watch:
  assumes "transaction j j'" and ok: "schema_ok j" and stages: "stages_ok j" and seen: "watch j v = Some x"
  shows "watch j' v = Some x"
  using assms(1)
proof cases
  case (prepare q resolve w arm_id owner g anchor p row)
  then show ?thesis using prepare_watch ok stages seen by blast
next
  case (reserve q owner t u r)
  from reserve_watch [OF this] show ?thesis using seen by simp
next
  case (release arm_id k owner g b)
  from release_watch [OF this] show ?thesis using seen by simp
next
  case (publish w cap clock a)
  from publish_watch [OF this] show ?thesis using seen by simp
next
  case (retire w status arm_id uuid revision now t)
  from ends_watch [OF retire_frame [OF this]] show ?thesis using seen by simp
next
  case (expire w now t)
  from ends_watch [OF expire_frame [OF this]] show ?thesis using seen by simp
next
  case (block w code clock u)
  from publication_frame(1) [OF this] show ?thesis using watch_same [of j' j] seen by simp
next
  case (publish_match w n sha cap clock d)
  from publication_frame(3) [OF this] show ?thesis using watch_same [of j' j] seen by simp
next
  case (ingest commit obs clock ig)
  from ingest_frame [OF this(2)] show ?thesis using watch_same [of j' j] seen by simp
next
  case (evaluate w armed now limits e)
  from evaluate_frame [OF this] show ?thesis using watch_same [of j' j] seen by simp
next
  case (unpin w reasons at c)
  from unpin_frame [OF this] show ?thesis using watch_same [of j' j] seen by auto
next
  case (compact through lim co)
  from compact_frame [OF this] show ?thesis using watch_same [of j' j] seen by (simp add: other_tables_def)
qed

text \<open>The order on journals whose books are in order.\<close>

definition keeps_watch :: "journal \<Rightarrow> journal \<Rightarrow> bool" where
  "keeps_watch j j' \<longleftrightarrow> (books j \<longrightarrow> books j' \<and> (\<forall>w x. watch j w = Some x \<longrightarrow> watch j' w = Some x))"

interpretation subscribing: journal_order keeps_watch
proof unfold_locales
  fix j j' j''
  show "keeps_watch j j" by (simp add: keeps_watch_def)
  show "keeps_watch j j' \<Longrightarrow> keeps_watch j' j'' \<Longrightarrow> keeps_watch j j''" unfolding keeps_watch_def by blast
  show "transaction j j' \<Longrightarrow> schema_ok j \<Longrightarrow> keeps_watch j j'"
    unfolding keeps_watch_def using transaction_watch bookkeeping.transaction_holds by (auto simp: books_def)
qed

section \<open>Progress never goes back\<close>

definition progress_grows :: "journal \<Rightarrow> journal \<Rightarrow> bool" where
  "progress_grows j j' \<longleftrightarrow>
     (\<forall>w p. progress_of j w = Some p \<longrightarrow>
        (\<exists>p'. progress_of j' w = Some p' \<and> pg_scanned_through_sequence p \<le> pg_scanned_through_sequence p'))"

lemma progress_grows_same: "j_progress j' = j_progress j \<Longrightarrow> progress_grows j j'"
  using progress_same [of j' j] by (simp add: progress_grows_def)

lemma prepare_progress_grows:
  assumes "prepare_tx q resolve w arm_id owner g anchor j = Some (Commit j' p)"
  shows "progress_grows j j'"
proof -
  obtain s at payload sha j2 j3 j4 j5 where
    i2: "insert_progress \<lparr>pg_wake_id = w, pg_scanned_through_sequence = an_local_after_sequence (effective_anchor anchor s),
        pg_revision = 0, pg_updated_at = at\<rparr>
        (update_arm (\<lambda>r. ar_arm_id r = arm_id) (prepared_row (effective_anchor anchor s) at) j) = Some j2"
    and i3: "insert_pin (anchor_pin w (an_local_after_sequence (effective_anchor anchor s)) at) j2 = Some j3"
    and i4: "insert_lifecycle (pending_life w at) j3 = Some j4"
    and i5: "insert_outbox True (put_row w 1 ''pending'' None payload sha at) j4 = Some j5"
    and j': "j' = update_source
        (\<lambda>r. ss_key r = aq_key q \<and> ss_lease_owner r = Some owner \<and> ss_lease_generation r = g)
        (\<lambda>r. r\<lparr>ss_lease_owner := None, ss_lease_expires_at := None\<rparr>) j5"
    using prepare_steps [OF assms] by blast
  have "\<exists>rows. j_progress j2 = j_progress j @ rows"
    using i2 by (auto simp: insert_progress_def update_arm_def split: if_splits)
  moreover have "j_progress j' = j_progress j2"
    using insert_pin_frame [OF i3] insert_lifecycle_frame [OF i4] insert_outbox_frame [OF i5]
    by (auto simp: j' update_source_def)
  ultimately obtain rows where "j_progress j' = j_progress j @ rows" by auto
  then show ?thesis by (simp add: progress_grows_def progress_of_def find_append)
qed

lemma evaluate_progress_grows:
  assumes "evaluate_tx w armed now limits j = Some (Commit j' a)"
  shows "progress_grows j j'"
proof -
  have "j_progress j' = j_progress j \<or> (\<exists>n. j_progress j' = j_progress (advance_progress w n now j))"
    using evaluate_effect [OF assms] by blast
  moreover have "progress_grows j (advance_progress w n now j)" for n
    unfolding progress_grows_def
  proof (intro allI impI)
    fix v p assume p: "progress_of j v = Some p"
    show "\<exists>p'. progress_of (advance_progress w n now j) v = Some p' \<and> pg_scanned_through_sequence p \<le> pg_scanned_through_sequence p'"
    proof (cases "v = w")
      case True
      from progress_advanced [OF p] show ?thesis using True by simp
    next
      case False
      from advanced_elsewhere [OF this] show ?thesis using p by simp
    qed
  qed
  moreover have "j_progress j' = j_progress k \<Longrightarrow> progress_grows j k \<Longrightarrow> progress_grows j j'" for k
    using progress_same [of j' k] by (simp add: progress_grows_def)
  ultimately show ?thesis using progress_grows_same by blast
qed

interpretation progressing: journal_order progress_grows
proof unfold_locales
  fix j j' j''
  show "progress_grows j j" by (simp add: progress_grows_def)
  show "progress_grows j j' \<Longrightarrow> progress_grows j' j'' \<Longrightarrow> progress_grows j j''"
    unfolding progress_grows_def by (meson order_trans)
  assume "transaction j j'"
  then show "progress_grows j j'"
  proof cases
    case (prepare q resolve w arm_id owner g anchor p row)
    then show ?thesis using prepare_progress_grows by blast
  next
    case (evaluate w armed now limits e)
    then show ?thesis by (rule evaluate_progress_grows)
  next
    case (reserve q owner t u r)
    from reserve_frame [OF this] show ?thesis by (intro progress_grows_same) (simp add: matches_part_def)
  next
    case (release arm_id k owner g b)
    from release_frame [OF this] show ?thesis by (intro progress_grows_same) (simp add: matches_part_def)
  next
    case (publish w cap clock a)
    from publication_frame(2) [OF this] show ?thesis by (intro progress_grows_same) (simp add: matches_part_def)
  next
    case (retire w status arm_id uuid revision now t)
    from retire_frame [OF this] show ?thesis by (intro progress_grows_same) (simp add: ends_def matches_part_def)
  next
    case (expire w now t)
    from expire_frame [OF this] show ?thesis by (intro progress_grows_same) (simp add: ends_def matches_part_def)
  next
    case (block w code clock u)
    from publication_frame(1) [OF this] show ?thesis by (intro progress_grows_same) (simp add: matches_part_def)
  next
    case (publish_match w n sha cap clock d)
    from publication_frame(3) [OF this] show ?thesis by (intro progress_grows_same) (simp add: matches_part_def)
  next
    case (ingest commit obs clock ig)
    from ingest_frame [OF this(2)] show ?thesis by (intro progress_grows_same) (simp add: matches_part_def)
  next
    case (unpin w reasons at c)
    from unpin_frame [OF this] show ?thesis by (intro progress_grows_same) auto
  next
    case (compact through lim co)
    from compact_frame [OF this] show ?thesis by (intro progress_grows_same) (simp add: other_tables_def)
  qed
qed

end
