(* ===== verification/SampleHistory.thy ===== *)
theory SampleHistory
  imports Operations
begin

text \<open>
  The journal of \<open>Samples\<close> is what four transactions make of a new one: its registration is reserved, prepared
  and published, and one occurrence is ingested.
\<close>

declare split_paired_All [simp del] split_paired_Ex [simp del]

definition sample_instance :: instance_row where
  "sample_instance =
     \<lparr>in_source = ''fs'', in_source_instance = ''a'', in_contract_json = sample_contract_json,
      in_contract_fingerprint = fingerprint sample_contract_json, in_created_at = sample_time\<rparr>"

definition sample_reserved :: journal where
  "sample_reserved =
     (fresh_journal ''u'' (datetime_of 0))\<lparr>j_instances := [sample_instance],
        j_sources := [leased_row ''o'' 1 (format_time (datetime_of 30)) (new_source (''fs'', ''a''))],
        j_arms := [preparing_row sample_request ''w'' ''arm_w'' ''o'' (format_time (datetime_of 30)) 1]\<rparr>"

definition sample_prepared :: journal where
  "sample_prepared =
     sample_journal\<lparr>j_arms := [prepared_row sample_anchor sample_time
          (preparing_row sample_request ''w'' ''arm_w'' ''o'' (format_time (datetime_of 30)) 1)],
       j_lifecycle := [pending_life ''w'' sample_time],
       j_outbox := [put_row ''w'' 1 ''pending'' None (fst sample_record) (snd sample_record) sample_time]\<rparr>"

lemma sample_reserves:
  "reserve_tx sample_request ''o'' (datetime_of 0) (datetime_of 30) (fresh_journal ''u'' (datetime_of 0))
     = Some (Commit sample_reserved (ReservedLease ''w'' ''arm_w'' 1))"
proof -
  have key: "aq_key sample_request = (''fs'', ''a'')"
    by (simp add: aq_key_def sample_request_def sample_contract_def)
  have req: "aq_wake_id sample_request = ''w''" "aq_spec sample_request = sample_spec"
    "aq_contract_json sample_request = sample_contract_json" "ac_registered_at (aq_context sample_request) = datetime_of 0"
    by (simp_all add: sample_request_def sample_context_def)
  have fresh: "j_arms (fresh_journal u t) = []" "j_instances (fresh_journal u t) = []" "j_sources (fresh_journal u t) = []" for u t
    by (simp_all add: fresh_journal_def empty_journal_def)
  show ?thesis
    by (simp add: reserve_tx_def arm_keyed_def fresh lease_source_def Let_def key req instance_at_def insert_instance_def
        in_key_def insert_source_def source_at_def ss_key_def new_source_def lease_busy_def sample_spec_def
        insert_arm_def arm_with_id_def arm_of_def update_source_def update_where_def sample_reserved_def sample_instance_def
        sample_time_def leased_row_def)
      (simp add: preparing_row_def req sample_spec_def)
qed

lemma sample_request_fields [simp]:
  "aq_key sample_request = (''fs'', ''a'')" "aq_wake_id sample_request = ''w''" "aq_spec sample_request = sample_spec"
  "aq_contract_json sample_request = sample_contract_json" "ac_registered_at (aq_context sample_request) = datetime_of 0"
  "ac_expires_at (aq_context sample_request) = None" "ac_resume (aq_context sample_request) = sample_resume"
  "ac_max_attempts (aq_context sample_request) = 3"
  "ac_idempotency_key (aq_context sample_request) = ''k''" "ac_intent_fingerprint (aq_context sample_request) = ''f''"
  by (simp_all add: aq_key_def sample_request_def sample_contract_def sample_context_def)

lemma sample_prepares:
  "prepare_tx sample_request (\<lambda>s. s) ''w'' ''arm_w'' ''o'' 1 sample_anchor sample_reserved
     = Some (Commit sample_prepared None)"
proof -
  let ?row = "preparing_row sample_request ''w'' ''arm_w'' ''o'' (format_time (datetime_of 30)) 1"
  let ?s = "leased_row ''o'' 1 (format_time (datetime_of 30)) (new_source (''fs'', ''a''))"
  have s: "source_at sample_reserved (''fs'', ''a'') = Some ?s"
    by (simp add: source_at_def sample_reserved_def ss_key_def leased_row_def new_source_def)
  have row: "arm_with_id sample_reserved ''arm_w'' = Some ?row"
    by (simp add: arm_with_id_def sample_reserved_def) (simp add: preparing_row_def)
  have token: "ar_preparer_token ?row = Some ''o''" by (simp add: preparing_row_def)
  have eff: "effective_anchor sample_anchor ?s = sample_anchor"
    by (simp add: effective_anchor_def leased_row_def new_source_def sample_anchor_def)
  have uuid: "journal_uuid sample_reserved = Some ''u''"
    by (simp add: journal_uuid_def sample_reserved_def fresh_journal_def empty_journal_def new_meta_def)
  have built: "build_signal_record (\<lambda>s. s) (prepared_arm sample_request ''w'' ''arm_w'' sample_anchor) sample_resume ''u'' 1 3
      = (fst sample_record, snd sample_record)"
    by (simp add: sample_record_def prepared_arm_def sample_armed_def)
  have lease: "ss_lease_owner ?s = Some ''o''" "ss_lease_generation ?s = 1" by (simp_all add: leased_row_def)
  have after: "an_local_after_sequence sample_anchor = 0" by (simp add: sample_anchor_def)
  have empty: "j_progress sample_reserved = []" "j_pins sample_reserved = []" "j_lifecycle sample_reserved = []"
    "j_outbox sample_reserved = []" "j_sources sample_reserved = [?s]" "j_arms sample_reserved = [?row]"
    by (simp_all add: sample_reserved_def fresh_journal_def empty_journal_def)
  have wake: "ar_wake_id (prepared_row a t ?row) = ''w''" "ar_arm_id ?row = ''arm_w''" for a t
    by (simp_all add: preparing_row_def prepared_row_def)
  show ?thesis
    by (simp add: prepare_tx_def s row token eff uuid built lease after sql_int_def Let_def,
      simp add: update_arm_def update_where_def empty wake insert_progress_def progress_of_def arm_of_def
        insert_pin_def anchor_pin_def pin_reasons_def insert_lifecycle_def lifecycle_of_def pending_life_def
        insert_outbox_def outbox_row_ok_def outbox_at_def put_row_def ox_key_def update_source_def)
      (simp add: sample_prepared_def sample_journal_def sample_reserved_def fresh_journal_def empty_journal_def
        new_meta_def sample_instance_def sample_time_def anchor_pin_def pending_life_def put_row_def ss_key_def
        leased_row_def new_source_def split_beta)
qed

lemma sample_publishes: "\<exists>a. publish_tx ''w'' None (Some (datetime_of 0)) sample_prepared = Some (Commit sample_journal a)"
proof -
  let ?row = "prepared_row sample_anchor sample_time
      (preparing_row sample_request ''w'' ''arm_w'' ''o'' (format_time (datetime_of 30)) 1)"
  have row: "arm_of sample_prepared ''w'' = Some ?row" "ar_state ?row = Prepared"
    by (simp_all add: arm_of_def sample_prepared_def) (simp_all add: preparing_row_def prepared_row_def)
  have "published_row sample_time ?row = sample_arm_row"
    by (simp add: published_row_def prepared_row_def preparing_row_def sample_arm_row_def sample_anchor_def sample_spec_def
        sample_time_def) (simp add: sample_request_def sample_spec_def sample_resume_def)
  then have "write_published ''w'' sample_time sample_prepared = sample_journal"
    by (simp add: write_published_def update_arm_def update_lifecycle_def update_outbox_def update_where_def
        sample_prepared_def sample_journal_def ox_key_def put_row_def pending_life_def)
      (simp add: prepared_row_def preparing_row_def)
  then show ?thesis by (simp add: publish_tx_def row Let_def flip: sample_time_def)
qed

lemma sample_receives:
  "\<exists>ig. ingest_tx [sample_observation] sample_commit (Some (datetime_of 2)) sample_journal = Some (Commit sample_received ig)"
proof -
  have stage: "stage sample_journal sample_contract [sample_observation] [] =
      Inr [(identity_of sample_observation, sample_observation, canonical_json (observation_payload sample_observation),
        content_of sample_observation)]"
    by (simp add: stage_Cons validate_observation_def)
      (simp add: sample_observation_def sample_contract_def attribute_bytes_def canonical_json_def dumps_def
        scalars_json_def utf8_len_def utf8_def utf8_char_def receipt_at_def sample_journal_def identity_of_def)
  have key: "(cm_source sample_commit, cm_source_instance sample_commit) = (''fs'', ''a'')" by (simp add: sample_commit_def)
  have inst: "instance_at sample_journal (''fs'', ''a'') = Some sample_instance"
    by (simp add: instance_at_def sample_journal_def in_key_def sample_instance_def)
  have src: "source_at sample_journal (''fs'', ''a'') = Some (new_source (''fs'', ''a'')\<lparr>ss_lease_generation := 1\<rparr>)"
    by (simp add: source_at_def sample_journal_def ss_key_def new_source_def)
  have json: "in_contract_json sample_instance = sample_contract_json" by (simp add: sample_instance_def)
  have free: "receipt_at sample_journal i = None" for i by (simp add: receipt_at_def sample_journal_def)
  have ins: "insert_receipt sample_receipt sample_journal = Some (sample_journal\<lparr>j_receipts := [sample_receipt]\<rparr>)"
    by (simp add: insert_receipt_def verification_states_def free receipt_at_def sample_journal_def instance_at_def in_key_def)
      (simp add: sample_receipt_def receipt_row_of_def sample_observation_def)
  have next1: "next_sequence sample_journal = Some 1" by (simp add: next_sequence_def sample_journal_def)
  have com: "commit_source sample_commit 2 (sample_journal\<lparr>j_receipts := [sample_receipt]\<rparr>) = Some sample_received"
    by (simp add: commit_source_def sample_commit_def sql_int_def sample_received_def update_source_def update_where_def)
      (simp add: sample_journal_def ss_key_def new_source_def)
  have lease: "ingest_lease (new_source (''fs'', ''a'')\<lparr>ss_lease_generation := 1\<rparr>) t = Some None"
    "store_refusal (new_source (''fs'', ''a'')\<lparr>ss_lease_generation := 1\<rparr>) sample_commit = None" for t
    by (simp_all add: ingest_lease_def store_refusal_def new_source_def)
  show ?thesis
    using ins by (simp add: ingest_tx_def key inst src lease json stage next1 com [unfolded sample_receipt_def] free sql_int_def sample_receipt_def)
qed

lemma sample_batch:
  "list_all (\<lambda>ob. (ob_source ob, ob_source_instance ob) = (cm_source sample_commit, cm_source_instance sample_commit))
     [sample_observation]"
  by (simp add: sample_observation_def sample_commit_def)

lemma sample_arm_reserved:
  "\<exists>row. arm_with_id sample_reserved ''arm_w'' = Some row \<and> ar_wake_id row = ''w''"
  by (simp add: arm_with_id_def sample_reserved_def) (simp add: preparing_row_def)

lemma sample_history:
  "reachable sample_reserved" "later sample_reserved sample_prepared" "later sample_prepared sample_journal"
  "later sample_journal sample_received"
proof -
  show "reachable sample_reserved"
    unfolding reachable_def using later_one [OF transaction.reserve [OF sample_reserves]] by blast
  show "later sample_reserved sample_prepared"
    using sample_arm_reserved transaction.prepare [OF sample_prepares] later_one by blast
  show "later sample_prepared sample_journal" using sample_publishes transaction.publish later_one by blast
  show "later sample_journal sample_received"
    using sample_receives transaction.ingest [OF sample_batch] later_one by blast
qed

lemma sample_reachable: "reachable sample_prepared" "reachable sample_journal" "reachable sample_received"
  using sample_history reachable_later by blast+

end
