(* ===== verification/Guarantees.thy ===== *)
theory Guarantees
  imports NothingLost SampleHistory
begin

text \<open>
  What \<open>SQLiteSignalModule\<close> (\<open>src/src/codex_wake/signal_store.py\<close>) promises over whole histories, whatever the
  interleaving of the transactions of different processes: stated of the journals that can be reached from a
  new one and of the operations as the code offers them.
\<close>

declare split_paired_All [simp del] split_paired_Ex [simp del]

section \<open>Reading the invariants\<close>

lemma reachable_books: "reachable j \<Longrightarrow> books j"
  by (rule bookkeeping.reachable_holds)

lemma later_watch: "reachable j \<Longrightarrow> later j j' \<Longrightarrow> watch j w = Some x \<Longrightarrow> watch j' w = Some x"
  using subscribing.later_rel reachable_schema_ok reachable_books unfolding keeps_watch_def by blast

text \<open>What a reservation makes of every evaluation.\<close>

lemma evaluate_tx_recorded:
  assumes "evaluate_tx w armed now limits j = Some (Commit j' (Ok (Matched m)))"
  shows "\<exists>res. reservation_of j' w = Some res \<and> matched_from_json (rv_evidence_json res) = Some m"
proof -
  obtain durable contract where
    rest: "case reservation_of j w of
         Some reservation \<Rightarrow> \<exists>m'. matched_from_json (rv_evidence_json reservation) = Some m'
           \<and> ensure_match_outbox m' j = Some j' \<and> Ok (Matched m) = Ok (Matched m')
       | None \<Rightarrow> evaluate_page w contract durable now limits j = Some (Commit j' (Ok (Matched m)))"
    using evaluate_tx_commit [OF assms] by (fastforce split: option.splits)
  show ?thesis
  proof (cases "reservation_of j w")
    case (Some res)
    then show ?thesis using rest by (auto simp: reservation_of_def dest!: ensure_match_outbox_frame)
  next
    case None
    then have "evaluate_page w contract durable now limits j = Some (Commit j' (Ok (Matched m)))" using rest by simp
    from evaluate_page_matched [OF this] obtain r ob where "reserve_match w r ob now j = Some (j', m)" by blast
    from reserve_match_steps [OF this] show ?thesis by (auto simp: reservation_of_def dest!: ensure_match_outbox_frame)
  qed
qed

lemma evaluate_reserved_answer:
  assumes "evaluate e w armed now limits j = (Ok a, j')" and "reservation_of j w = Some res"
  shows "\<exists>m. a = Matched m \<and> matched_from_json (rv_evidence_json res) = Some m"
proof -
  have "run_tx (en_fault e 0) (degraded_at (Some w) ''STORE_UNAVAILABLE'' None) (evaluate_tx w armed now limits) j = (Ok a, j')"
    using assms(1) by (simp add: evaluate_def split: if_splits)
  from run_tx_cases [OF this] have "evaluate_tx w armed now limits j = Some (Rollback (Ok a))
      \<or> evaluate_tx w armed now limits j = Some (Commit j' (Ok a))"
    by auto
  then show ?thesis
    using assms(2) by (auto simp: evaluate_tx_def split: option.splits Option.bind_splits if_splits)
qed

lemma reservation_lookup:
  assumes "remembers j j'" and "schema_ok j'" and "reservation_of j w = Some res"
  shows "\<exists>res'. reservation_of j' w = Some res' \<and> reservation_columns res' = reservation_columns res"
proof -
  have res: "res \<in> set (j_reservations j)" "rv_wake_id res = w" using assms(3) by (auto simp: reservation_of_def dest: find_SomeD)
  then obtain res' where res': "res' \<in> set (j_reservations j')" "reservation_columns res' = reservation_columns res"
    using assms(1) unfolding remembers_def by (metis image_iff subset_iff)
  then have "find (\<lambda>r. rv_wake_id r = rv_wake_id res') (j_reservations j') = Some res'"
    using assms(2) find_key [of rv_wake_id "j_reservations j'" res'] by (simp add: schema_ok_def reservations_ok_def)
  then show ?thesis using res' res(2) by (auto simp: reservation_of_def reservation_columns_def)
qed

section \<open>Properties\<close>

text \<open>C14. Every operation keeps the journal in order: from a journal that can be reached from a new one, every
  operation of the module, whatever faults, clocks, file operations and adapters it meets, leads to such a
  journal again; and each of them satisfies every constraint of the schema, has its receipts numbered and
  counted, and has every receipt accounted for by every wake that watches for it.\<close>

theorem operations_keep_the_journal:
  assumes "reachable (w_journal wd)"
  shows "schema_ok (w_journal wd) \<and> books (w_journal wd)
    \<and> reachable (w_journal (snd (arm e w spec context wd)))
    \<and> reachable (snd (ingest e obs commit (w_journal wd)))
    \<and> reachable (snd (evaluate e w armed now limits (w_journal wd)))
    \<and> reachable (w_journal (snd (reconcile_publications faults es ms lim matches_too wd)))
    \<and> reachable (w_journal (snd (reconcile_match_publication flt e w wd)))
    \<and> reachable (w_journal (snd (retire_terminal_record e record now wd)))
    \<and> reachable (snd (expire_unreserved flt w now (w_journal wd)))
    \<and> reachable (snd (release_retention_pins flt w reasons now (w_journal wd)))
    \<and> reachable (snd (compact_receipts flt through lim (w_journal wd)))"
proof -
  note go = reachable_later [OF assms]
  have ok: "schema_ok (w_journal wd)" by (rule reachable_schema_ok [OF assms])
  then show ?thesis
    using reachable_books [OF assms] go [OF arm_later [OF prod.collapse [symmetric] ok]]
      go [OF ingest_later [OF prod.collapse [symmetric]]] go [OF evaluate_later [OF prod.collapse [symmetric]]]
      go [OF reconcile_later [OF prod.collapse [symmetric]]] go [OF reconcile_match_later [OF prod.collapse [symmetric]]]
      go [OF retire_later [OF prod.collapse [symmetric]]] go [OF expire_later [OF prod.collapse [symmetric]]]
      go [OF release_pins_later [OF prod.collapse [symmetric]]] go [OF compact_later [OF prod.collapse [symmetric]]]
    by (intro conjI)
qed

lemma operations_keep_the_journal_witness:
  "books sample_received \<and> reachable (snd (evaluate sample_env ''w'' sample_armed (datetime_of 3) sample_limits sample_received))"
  using operations_keep_the_journal [of sample_world sample_env "''w''" sample_spec sample_context "[]" sample_commit
      sample_armed "datetime_of 3" sample_limits "(NoFault, NoFault)" "\<lambda>_. sample_env" "\<lambda>_. sample_env" 1 True NoFault
      JNull "[]" 0] sample_reachable(3)
  by (simp add: sample_world_def)

text \<open>C1. No occurrence is lost, under every interleaving: in every reachable journal, a receipt of the
  source, kind and subject of a published wake that comes after the wake's anchor and satisfies its request is
  still ahead of the wake's progress, among the candidates of its next evaluation, as long as the wake has
  no match.  Ingestion, evaluations with any limits, publication, compaction and expiry by any number of
  processes cannot make an evaluation step over it.\<close>

theorem no_receipt_is_lost:
  assumes "reachable j" and "evaluating w j row durable contract" and "reservation_of j w = None"
    and "r \<in> set (j_receipts j)"
    and "(rc_source r, rc_source_instance r) = (rq_source (am_spec durable), rq_source_instance (am_spec durable))"
    and "rc_kind r = rq_kind (am_spec durable)" and "rc_subject r = rq_subject (am_spec durable)"
    and "an_local_after_sequence (am_anchor durable) < rc_local_sequence r" and "row_satisfies contract durable r"
  shows "\<exists>p. progress_of j w = Some p \<and> r \<in> set (candidate_rows (am_spec durable) (scan_start durable p) j)"
proof -
  have books: "stages_ok j" "accounted j w" "receipts_counted j" using reachable_books [OF assms(1)] by (simp_all add: books_def)
  have row: "row \<in> set (j_arms j)" "ar_wake_id row = w"
    using assms(2) by (auto simp: evaluating_def arm_of_def dest: find_SomeD)
  have "ar_state row = Published"
    using assms(2) by (cases "ar_state row") (auto simp: evaluating_def armed_from_row_def split: Option.bind_splits)
  then have "w \<in> scanned_wakes j" using books(1) row by (auto simp: stages_ok_def stage_ok_def)
  then obtain p where p: "progress_of j w = Some p" using progress_of_None [of j w] by blast
  obtain n where n: "next_sequence j = Some n" using books(3) by (auto simp: receipts_counted_def)
  have con: "contract_at j (rq_source (am_spec durable), rq_source_instance (am_spec durable)) = Some contract"
    using assms(2) by (auto simp: evaluating_def contract_at_def)
  have cand: "r \<in> set (candidate_rows (am_spec durable) (an_local_after_sequence (am_anchor durable)) j)"
    using assms(4-8) by (simp add: candidate_rows_set)
  have "\<not> rc_local_sequence r \<le> pg_scanned_through_sequence p"
    using accountedD(2) [OF books(2) evaluating_watch [OF assms(2)] p n assms(3) con cand] assms(9) by blast
  then show ?thesis using p cand by (auto simp: candidate_rows_set scan_start_def)
qed

lemma no_receipt_is_lost_witness:
  "\<exists>p. progress_of sample_received ''w'' = Some p
     \<and> sample_receipt \<in> set (candidate_rows (am_spec sample_armed) (scan_start sample_armed p) sample_received)"
proof (rule no_receipt_is_lost [OF sample_reachable(3) sample_evaluating])
  show "reservation_of sample_received ''w'' = None"
    by (simp add: reservation_of_def sample_received_def sample_journal_def)
  show "sample_receipt \<in> set (j_receipts sample_received)" by (simp add: sample_received_def)
  show "row_satisfies sample_contract sample_armed sample_receipt"
    using judge_row_match [OF sample_judged] by (auto simp: row_satisfies_def)
qed (simp_all add: sample_receipt_def receipt_row_of_def sample_armed_def sample_spec_def sample_observation_def sample_anchor_def)

text \<open>C3. A wake is decided once, by whichever process comes first: after an evaluation has answered a match, every
  evaluation of the wake in every later journal that answers at all answers the same match, with whatever
  limits and time, also after more receipts, the expiry time of the wake or a compaction of its receipt.\<close>

theorem match_is_decided_once:
  assumes "reachable j" and "evaluate e w armed now limits j = (Ok (Matched m), j1)" and "later j1 j2"
    and "evaluate e' w armed' now' limits' j2 = (Ok answer, j3)"
  shows "answer = Matched m"
proof -
  have tx: "evaluate_tx w armed now limits j = Some (Commit j1 (Ok (Matched m)))"
    by (rule evaluate_matched_tx [OF assms(2)])
  then obtain res where res: "reservation_of j1 w = Some res" "matched_from_json (rv_evidence_json res) = Some m"
    using evaluate_tx_recorded by blast
  have ok: "schema_ok j1" using evaluate_tx_ok [OF tx] reachable_schema_ok [OF assms(1)] .
  obtain res' where "reservation_of j2 w = Some res'" "reservation_columns res' = reservation_columns res"
    using reservation_lookup [OF memory.later_rel [OF assms(3) ok] later_schema_ok [OF assms(3) ok] res(1)] by blast
  then show ?thesis
    using evaluate_reserved_answer [OF assms(4)] res(2) by (auto simp: reservation_columns_def)
qed

lemma match_is_decided_once_witness:
  "\<exists>m j'. evaluate sample_env ''w'' sample_armed (datetime_of 3) sample_limits sample_received = (Ok (Matched m), j')
     \<and> fst (evaluate sample_env ''w'' sample_armed (datetime_of 4) tight_limits j') = Ok (Matched m)"
proof -
  obtain m j' where run: "evaluate sample_env ''w'' sample_armed (datetime_of 3) sample_limits sample_received = (Ok (Matched m), j')"
    using sample_evaluate by blast
  from evaluate_tx_again [OF evaluate_matched_tx [OF run]]
  have "evaluate sample_env ''w'' sample_armed (datetime_of 4) tight_limits j' = (Ok (Matched m), j')"
    by (simp add: evaluate_def run_tx_def sample_armed_def sample_env_def)
  moreover from match_is_decided_once [OF sample_reachable(3) run later.same this] have "Matched m = Matched m" .
  ultimately show ?thesis using run by auto
qed

end
