(* ===== verification/StorePublishOk.thy ===== *)
theory StorePublishOk
  imports StorePublish PublisherOk Samples
begin

text \<open>
  The publication of wake records (\<open>_complete_registration_publication\<close> and \<open>_complete_match_publication\<close> of
  \<open>src/src/codex_wake/signal_store.py\<close>): the journal never says that a record is published before its file is
  in place, and a publication that failed, however often and wherever, is completed by the next undisturbed call.
\<close>

declare split_paired_All [simp del] split_paired_Ex [simp del]

section \<open>Bringing the file into place\<close>

lemma inspect_with_applied:
  "record_target t sha = Some at \<Longrightarrow> pr_outcome (inspect_with pe t sha n fs) = PubApplied \<Longrightarrow> fs at = Some (t @ newline)"
  unfolding inspect_with_def by (rule publishing_record.inspect_applied)

lemma apply_with_applied:
  assumes "record_target t sha = Some at" and "pr_outcome (fst (apply_with pe t sha fs)) = PubApplied"
  shows "snd (apply_with pe t sha fs) at = Some (t @ newline)"
  using publishing_record.applied_content [OF assms(1) prod.collapse [symmetric]] assms(2)
  unfolding apply_with_def by blast

lemma apply_with_keeps:
  assumes "record_target t sha = Some at" and "fs at \<in> {None, Some (t @ newline)}"
  shows "snd (apply_with pe t sha fs) at \<in> {None, Some (t @ newline)}"
  using publishing_record.apply_keeps [OF assms(1) prod.collapse [symmetric]]
    publishing_record.apply_only [OF assms(1) prod.collapse [symmetric]] assms(2)
  unfolding apply_with_def by (cases "fs at") auto

lemma settle_cases:
  "settle again insp app fs = (outcome, fs') \<Longrightarrow>
     fs' = fs \<and> outcome = pr_outcome (insp 0 fs)
     \<or> fs' = snd (app fs) \<and> (outcome = PubApplied \<longrightarrow>
          pr_outcome (fst (app fs)) = PubApplied \<or> pr_outcome (insp 1 (snd (app fs))) = PubApplied)"
  by (cases "app fs") (auto simp: settle_def split: publication.splits if_splits)

lemma settle_applied:
  assumes "settle again (inspect_with pe t sha) (apply_with pe t sha) fs = (PubApplied, fs')"
    and "record_target t sha = Some at"
  shows "fs' at = Some (t @ newline)"
  using settle_cases [OF assms(1)]
proof (elim disjE conjE)
  assume "fs' = fs" "PubApplied = pr_outcome (inspect_with pe t sha 0 fs)"
  then show ?thesis using inspect_with_applied [OF assms(2), of pe 0 fs] by simp
next
  assume fs': "fs' = snd (apply_with pe t sha fs)" and "PubApplied = PubApplied \<longrightarrow>
      pr_outcome (fst (apply_with pe t sha fs)) = PubApplied
      \<or> pr_outcome (inspect_with pe t sha 1 (snd (apply_with pe t sha fs))) = PubApplied"
  then show ?thesis
    using apply_with_applied [OF assms(2)] inspect_with_applied [OF assms(2)] by blast
qed

lemma settle_keeps:
  assumes "settle again (inspect_with pe t sha) (apply_with pe t sha) fs = (outcome, fs')"
    and "record_target t sha = Some at" and "fs at \<in> {None, Some (t @ newline)}"
  shows "fs' at \<in> {None, Some (t @ newline)}"
  using settle_cases [OF assms(1)] assms(3) apply_with_keeps [of t sha at fs pe, OF assms(2,3)] by (elim disjE conjE) simp_all

text \<open>The file of the record that a text describes holds exactly the text.\<close>

definition record_in_place :: "string \<Rightarrow> files \<Rightarrow> bool" where
  "record_in_place t fs =
     (case loads t of
        Some (JObj r) \<Rightarrow>
          (case (jget r ''id'', jget r ''status'') of
             (JStr w, JStr status) \<Rightarrow> fs (record_file status w) = Some (t @ newline)
           | _ \<Rightarrow> False)
      | _ \<Rightarrow> False)"

lemma inspect_with_in_place:
  "pr_outcome (inspect_with pe t sha n fs) = PubApplied \<Longrightarrow> record_in_place t fs"
  by (auto simp: inspect_with_def publisher_inspect_def result_of_def Let_def record_in_place_def
      split: option.splits json.splits if_splits dest!: decode_SomeD)

lemma target_in_place:
  assumes "record_target t sha = Some at"
  shows "record_in_place t fs \<longleftrightarrow> fs at = Some (t @ newline)"
proof -
  obtain payload where "check_payload t sha = Inr (payload, at)" using assms by (auto simp: record_target_Some)
  from check_payload_Inr [OF this] show ?thesis by (auto simp: record_in_place_def)
qed

lemma apply_with_in_place:
  assumes "pr_outcome (fst (apply_with pe t sha fs)) = PubApplied"
  shows "record_in_place t (snd (apply_with pe t sha fs))"
proof (cases "record_target t sha")
  case None
  then show ?thesis
    using publishing_record.refused [OF None prod.collapse [symmetric]] assms unfolding apply_with_def by blast
next
  case (Some at)
  then show ?thesis using apply_with_applied [OF Some assms] target_in_place [OF Some] by simp
qed

lemma settle_in_place:
  assumes "settle again (inspect_with pe t sha) (apply_with pe t sha) fs = (PubApplied, fs')"
  shows "record_in_place t fs'"
  using settle_cases [OF assms]
proof (elim disjE conjE)
  assume "fs' = fs" "PubApplied = pr_outcome (inspect_with pe t sha 0 fs)"
  then show ?thesis using inspect_with_in_place [of pe t sha 0 fs] by simp
next
  assume fs': "fs' = snd (apply_with pe t sha fs)" and "PubApplied = PubApplied \<longrightarrow>
      pr_outcome (fst (apply_with pe t sha fs)) = PubApplied
      \<or> pr_outcome (inspect_with pe t sha 1 (snd (apply_with pe t sha fs))) = PubApplied"
  then show ?thesis using apply_with_in_place inspect_with_in_place by blast
qed

section \<open>The undisturbed publication\<close>

definition undisturbed :: "env \<Rightarrow> bool" where
  "undisturbed e \<longleftrightarrow>
     (\<exists>pe. en_publisher e = Some pe \<and> (\<forall>n. pe_caps pe n = None) \<and> pe_io pe = IoFine \<and> (\<forall>n. pe_read_ok pe n))
     \<and> (\<forall>n. en_fault e n = NoFault) \<and> (\<forall>n. en_clock e n \<noteq> None)"

lemma inspect_undisturbed:
  assumes "record_target t sha = Some at" and "\<forall>n. pe_caps pe n = None" and "\<forall>n. pe_read_ok pe n"
  shows "pr_outcome (inspect_with pe t sha n fs) =
    (case fs at of None \<Rightarrow> PubMissing | Some text \<Rightarrow> if text = t @ newline then PubApplied else PubConflict)"
proof -
  obtain payload where "check_payload t sha = Inr (payload, at)" using assms(1) by (auto simp: record_target_Some)
  from check_payload_Inr [OF this] obtain w status where "loads t = Some (JObj payload)"
    "decode_signal_record (JObj payload) = Some (Some payload)"
    "jget payload ''id'' = JStr w" "jget payload ''status'' = JStr status" "line_digest t = sha" "at = record_file status w"
    by blast
  then show ?thesis
    using assms(2,3) by (simp add: inspect_with_def publisher_inspect_def result_of_def Let_def split: option.split)
qed

lemma settle_undisturbed:
  assumes "record_target t sha = Some at" and "\<forall>n. pe_caps pe n = None" and "\<forall>n. pe_read_ok pe n" and "pe_io pe = IoFine"
    and "fs at \<in> {None, Some (t @ newline)}"
  shows "\<exists>fs'. settle again (inspect_with pe t sha) (apply_with pe t sha) fs = (PubApplied, fs')"
proof -
  have "pr_outcome (fst (apply_with pe t sha fs)) = PubApplied"
    using undisturbed_apply [OF assms(1)] assms(2,4,5) by (simp add: apply_with_def)
  moreover from this have "snd (apply_with pe t sha fs) at = Some (t @ newline)"
    using apply_with_applied [OF assms(1)] by blast
  ultimately show ?thesis
    using assms(5) by (auto simp: settle_def inspect_undisturbed [OF assms(1-3)] split: prod.split)
qed

section \<open>What a completed publication has done\<close>

lemma published_journal:
  "outbox_at (write_published w at j) w 1 = map_option (applied_row at) (outbox_at j w 1)"
  "arm_of (write_published w at j) w = map_option (published_row at) (arm_of j w)"
  "lifecycle_of (write_published w at j) v = map_option (\<lambda>r. if lc_wake_id r = w \<and> lc_desired_status r = ''pending''
      \<and> lc_desired_revision r = 1 then applied_life ''pending'' 1 at r else r) (lifecycle_of j v)"
proof -
  have ox: "outbox_at (write_published w at j) w 1 = outbox_at (update_outbox (\<lambda>r. ox_key r = (w, 1)) (applied_row at) j) w 1"
    by (simp add: write_published_def outbox_at_def update_arm_def update_lifecycle_def)
  have arms: "arm_of (write_published w at j) w = arm_of (update_arm (\<lambda>r. ar_wake_id r = w) (published_row at) j) w"
    by (simp add: write_published_def arm_of_def update_arm_def update_lifecycle_def update_outbox_def)
  have lives: "lifecycle_of (write_published w at j) v = lifecycle_of (update_lifecycle
      (\<lambda>r. lc_wake_id r = w \<and> lc_desired_status r = ''pending'' \<and> lc_desired_revision r = 1) (applied_life ''pending'' 1 at) j) v"
    by (simp add: write_published_def lifecycle_of_def update_arm_def update_lifecycle_def update_outbox_def)
  show "outbox_at (write_published w at j) w 1 = map_option (applied_row at) (outbox_at j w 1)"
    unfolding ox applying.outbox_found by (cases "outbox_at j w 1") (auto simp: outbox_at_def dest: find_SomeD)
  show "arm_of (write_published w at j) w = map_option (published_row at) (arm_of j w)"
    unfolding arms publishing.arm_found by (cases "arm_of j w") (auto simp: arm_of_def dest: find_SomeD)
  show "lifecycle_of (write_published w at j) v = map_option (\<lambda>r. if lc_wake_id r = w \<and> lc_desired_status r = ''pending''
      \<and> lc_desired_revision r = 1 then applied_life ''pending'' 1 at r else r) (lifecycle_of j v)"
    unfolding lives life_applying.lifecycle_found ..
qed

lemma armed_published:
  "armed_from_row (published_row at r) = map_option (\<lambda>a. a\<lparr>am_publication := ''published''\<rparr>) (armed_from_row r)"
  by (simp add: armed_from_row_def expiry_of_def published_row_def map_option_bind comp_def)

text \<open>The journal of a call, by what came of the file.\<close>

lemma complete_registration_cases:
  assumes "complete_registration_publication e w wd = (a, wd')"
  shows "(w_journal wd' = w_journal wd \<and> w_files wd' = w_files wd)
    \<or> (\<exists>pe t sha outcome. registration_ticket w (w_journal wd) = Some (TicketPublish t sha)
        \<and> settle False (inspect_with pe t sha) (apply_with pe t sha) (w_files wd) = (outcome, w_files wd')
        \<and> (w_journal wd' = w_journal wd
           \<or> outcome \<noteq> PubApplied \<and> (\<exists>code at. w_journal wd' = update_outbox (\<lambda>r. ox_key r = (w, 1)) (blocked_row code at) (w_journal wd))
           \<or> outcome = PubApplied \<and> (\<exists>at. w_journal wd' = write_published w at (w_journal wd))))"
proof (cases "\<exists>pe t sha. en_publisher e = Some pe \<and> pe_caps pe 0 = None
    \<and> run_read (en_fault e 2) (TicketAnswer (degraded_at (Some w) ''STORE_UNAVAILABLE'' None))
        (registration_ticket w) (w_journal wd) = TicketPublish t sha")
  case False
  then show ?thesis
    using assms by (auto simp: complete_registration_publication_def split: option.splits ticket.splits)
next
  case True
  then obtain pe t sha where pe: "en_publisher e = Some pe" "pe_caps pe 0 = None"
    and read: "run_read (en_fault e 2) (TicketAnswer (degraded_at (Some w) ''STORE_UNAVAILABLE'' None))
        (registration_ticket w) (w_journal wd) = TicketPublish t sha" by blast
  obtain outcome fs where settled: "settle False (inspect_with pe t sha) (apply_with pe t sha) (w_files wd) = (outcome, fs)"
    by (cases "settle False (inspect_with pe t sha) (apply_with pe t sha) (w_files wd)")
  have ticket: "registration_ticket w (w_journal wd) = Some (TicketPublish t sha)"
    using read by (auto simp: run_read_def split: if_splits option.splits)
  have blocked: "snd (run_tx flt u (blocked_tx w code clock) j) = j
      \<or> (\<exists>at. snd (run_tx flt u (blocked_tx w code clock) j) = update_outbox (\<lambda>r. ox_key r = (w, 1)) (blocked_row code at) j)"
    for flt u code clock j
    by (auto simp: run_tx_def blocked_tx_def split: option.splits ending.splits Option.bind_splits)
  have published: "snd (run_tx flt u (publish_tx w cap clock) j) = j
      \<or> (\<exists>at. snd (run_tx flt u (publish_tx w cap clock) j) = write_published w at j)" for flt u cap clock j
    by (auto simp: run_tx_def publish_tx_def Let_def split: option.splits ending.splits Option.bind_splits if_splits)
  show ?thesis
  proof (cases "outcome = PubApplied")
    case True
    then have "w_files wd' = fs" "w_journal wd' = snd (run_tx (en_fault e 4) (degraded_at (Some w) ''STORE_UNAVAILABLE'' None)
        (publish_tx w (pe_caps pe 5) (en_clock e 2)) (w_journal wd))"
      using assms pe read settled by (auto simp: complete_registration_publication_def split: prod.splits)
    then show ?thesis using ticket settled True published by metis
  next
    case False
    then obtain code where "w_files wd' = fs" "w_journal wd' = snd (run_tx (en_fault e 3) () (blocked_tx w code (en_clock e 1)) (w_journal wd))"
      using assms pe read settled
      by (auto simp: complete_registration_publication_def mark_publication_blocked_def Let_def split: if_splits)
    then show ?thesis using ticket settled False blocked by metis
  qed
qed

text \<open>A registration whose record can still be published, and what it will be then.\<close>

definition awaiting :: "string \<Rightarrow> armed_signal \<Rightarrow> string \<Rightarrow> world \<Rightarrow> bool" where
  "awaiting w armed t wd \<longleftrightarrow>
     (\<exists>row out life sha at. arm_of (w_journal wd) w = Some row \<and> (ar_state row = Prepared \<or> ar_state row = Published)
        \<and> map_option (\<lambda>a. a\<lparr>am_publication := ''published''\<rparr>) (armed_from_row row) = Some armed
        \<and> outbox_at (w_journal wd) w 1 = Some out \<and> sql_str (ox_payload_json out) = t
        \<and> sql_str (ox_payload_sha256 out) = sha
        \<and> lifecycle_of (w_journal wd) w = Some life \<and> lc_desired_status life = ''pending'' \<and> lc_desired_revision life = 1
        \<and> record_target t sha = Some at \<and> w_files wd at \<in> {None, Some (t @ newline)})"

lemma awaiting_kept:
  assumes "awaiting w armed t wd" and run: "complete_registration_publication e w wd = (a, wd')"
  shows "awaiting w armed t wd'"
proof -
  obtain row out life sha at where row: "arm_of (w_journal wd) w = Some row" "ar_state row = Prepared \<or> ar_state row = Published"
      "map_option (\<lambda>a. a\<lparr>am_publication := ''published''\<rparr>) (armed_from_row row) = Some armed"
    and out: "outbox_at (w_journal wd) w 1 = Some out" "sql_str (ox_payload_json out) = t" "sql_str (ox_payload_sha256 out) = sha"
    and life: "lifecycle_of (w_journal wd) w = Some life" "lc_desired_status life = ''pending''" "lc_desired_revision life = 1"
    and at: "record_target t sha = Some at" "w_files wd at \<in> {None, Some (t @ newline)}"
    using assms(1) unfolding awaiting_def by blast
  have lw: "lc_wake_id life = w" using life(1) by (auto simp: lifecycle_of_def dest: find_SomeD)
  have same: "t' = t \<and> sha' = sha" if "registration_ticket w (w_journal wd) = Some (TicketPublish t' sha')" for t' sha'
    using that row(1) out life(1) by (auto simp: registration_ticket_def split: if_splits option.splits)
  have files: "w_files wd' at \<in> {None, Some (t @ newline)}"
    using complete_registration_cases [OF run] at same settle_keeps by (elim disjE conjE exE) (simp, blast+)
  consider (same) "w_journal wd' = w_journal wd"
    | (blocked) code b where "w_journal wd' = update_outbox (\<lambda>r. ox_key r = (w, 1)) (blocked_row code b) (w_journal wd)"
    | (published) b where "w_journal wd' = write_published w b (w_journal wd)"
    using complete_registration_cases [OF run] by blast
  then show ?thesis
  proof cases
    case same
    then show ?thesis using row out life at(1) files unfolding awaiting_def by auto
  next
    case blocked
    have "outbox_at (w_journal wd') w 1 = Some (if ox_key out = (w, 1) then blocked_row code b out else out)"
      using out(1) unfolding blocked blocking.outbox_found by simp
    moreover have "arm_of (w_journal wd') w = arm_of (w_journal wd) w" "lifecycle_of (w_journal wd') w = lifecycle_of (w_journal wd) w"
      by (simp_all add: blocked update_outbox_def arm_of_def lifecycle_of_def)
    ultimately show ?thesis using row out life at(1) files unfolding awaiting_def by (auto simp: blocked_row_def)
  next
    case published
    have "outbox_at (w_journal wd') w 1 = Some (applied_row b out)" "arm_of (w_journal wd') w = Some (published_row b row)"
      "lifecycle_of (w_journal wd') w = Some (applied_life ''pending'' 1 b life)"
      using out(1) row(1) life lw by (simp_all add: published published_journal)
    moreover have "ar_state (published_row b row) = Published" by (simp add: published_row_def)
    moreover have "map_option (\<lambda>a. a\<lparr>am_publication := ''published''\<rparr>) (armed_from_row (published_row b row)) = Some armed"
      using row(3) by (auto simp: armed_published)
    ultimately show ?thesis using out life at(1) files unfolding awaiting_def by (auto simp: applied_row_def applied_life_def)
  qed
qed

text \<open>The sample registration, prepared, with no file yet.\<close>

lemma sample_target: "record_target (fst sample_record) (snd sample_record) = Some (record_file ''pending'' ''w'')"
proof -
  let ?armed = "sample_armed\<lparr>am_publication := ''prepared''\<rparr>"
  let ?d = "signal_payload (\<lambda>s. s) ?armed sample_resume ''u'' 1 3"
  have fields: "armed_fields_ok ?armed" "resume_fields_ok (\<lambda>s. s) sample_resume"
    by (simp_all add: armed_fields_ok_def sample_armed_def sample_spec_def sample_anchor_def safe_identifier_def
        is_alnum_def is_digit_def resume_fields_ok_def sample_resume_def)
  obtain r where r: "sort_json (JObj ?d) = JObj r" "decode_signal_record (JObj r) = Some (Some r)"
    using signal_payload_decodes [OF fields, of "''u''" 1 3] by auto
  have "distinct (map fst ?d)" by (simp add: signal_payload_def Let_def)
  note get = sorted_member [OF this r(1)]
  have ids: "jget r ''id'' = JStr ''w''" "jget r ''status'' = JStr ''pending''"
    by (simp_all add: get signal_payload_def Let_def sample_armed_def)
  then have "dict_get r ''id'' = Some (JStr ''w'')" "dict_get r ''status'' = Some (JStr ''pending'')"
    by (auto simp: jget_def split: option.splits)
  moreover have "loads (fst sample_record) = Some (JObj r)"
    using loads_canonical [OF signal_payload_wf [OF fields]] r(1)
    by (simp add: sample_record_def build_signal_record_def Let_def)
  moreover have "snd sample_record = line_digest (fst sample_record)"
    by (simp add: sample_record_def build_signal_record_def Let_def)
  ultimately have "check_payload (fst sample_record) (snd sample_record) = Inr (r, record_file ''pending'' ''w'')"
    using r(2) by (simp add: check_payload_def nonempty_str_def publishable_statuses_def)
  then show ?thesis by (simp add: record_target_def)
qed

definition unpublished_world :: world where
  "unpublished_world =
     \<lparr>w_journal = sample_journal\<lparr>j_arms := [sample_arm_row\<lparr>ar_state := Prepared, ar_published_at := None\<rparr>],
        j_lifecycle := [pending_life ''w'' sample_time],
        j_outbox := [put_row ''w'' 1 ''pending'' None (fst sample_record) (snd sample_record) sample_time]\<rparr>,
      w_files = (\<lambda>_. None)\<rparr>"

lemma sample_awaiting: "awaiting ''w'' sample_armed (fst sample_record) unpublished_world"
proof -
  let ?row = "sample_arm_row\<lparr>ar_state := Prepared, ar_published_at := None\<rparr>"
  have "published_row sample_time ?row = sample_arm_row" by (simp add: published_row_def sample_arm_row_def)
  then have "map_option (\<lambda>a. a\<lparr>am_publication := ''published''\<rparr>) (armed_from_row ?row) = Some sample_armed"
    using armed_published [of sample_time ?row] by simp
  moreover have "arm_of (w_journal unpublished_world) ''w'' = Some ?row" "ar_state ?row = Prepared"
    by (simp_all add: unpublished_world_def arm_of_def) (simp_all add: sample_arm_row_def)
  ultimately show ?thesis
    using sample_target
    by (simp add: awaiting_def)
      (simp add: unpublished_world_def outbox_at_def ox_key_def put_row_def lifecycle_of_def pending_life_def sql_str_def)
qed

lemma sample_undisturbed: "undisturbed sample_env"
  by (simp add: undisturbed_def sample_env_def)

section \<open>Properties\<close>

text \<open>C5. The journal is never ahead of the files: however a publication of a registration ends, with whatever faults,
  if it leaves the outbox row applied that was not applied before, then the file of the record holds exactly
  the text of the outbox row, the registration is published, and the text is unchanged.\<close>

theorem published_only_with_file:
  assumes "complete_registration_publication e w wd = (a, wd')"
    and "outbox_at (w_journal wd) w 1 = Some out" and "ox_state out \<noteq> OutApplied"
    and "outbox_at (w_journal wd') w 1 = Some out'" and "ox_state out' = OutApplied"
  shows "record_in_place (sql_str (ox_payload_json out)) (w_files wd')
    \<and> ox_payload_json out' = ox_payload_json out \<and> ox_payload_sha256 out' = ox_payload_sha256 out
    \<and> map_option ar_state (arm_of (w_journal wd') w) = Some Published"
proof -
  have blocked: "outbox_at (update_outbox (\<lambda>r. ox_key r = (w, 1)) (blocked_row code b) (w_journal wd)) w 1 \<noteq> Some out'" for code b
    using assms(2,3,5) unfolding blocking.outbox_found by (auto simp: blocked_row_def split: if_splits)
  obtain pe t sha b where ticket: "registration_ticket w (w_journal wd) = Some (TicketPublish t sha)"
    and settled: "settle False (inspect_with pe t sha) (apply_with pe t sha) (w_files wd) = (PubApplied, w_files wd')"
    and j': "w_journal wd' = write_published w b (w_journal wd)"
    using complete_registration_cases [OF assms(1)]
  proof (elim disjE conjE exE)
    assume "w_journal wd' = w_journal wd"
    then show thesis using assms(2-5) by simp
  qed (use assms(2-5) blocked that in auto)
  obtain row where "arm_of (w_journal wd) w = Some row" and t: "t = sql_str (ox_payload_json out)"
    using ticket assms(2) by (auto simp: registration_ticket_def split: option.splits if_splits)
  then have "map_option ar_state (arm_of (w_journal wd') w) = Some Published"
    by (simp add: j' published_journal published_row_def)
  moreover have "out' = applied_row b out" using assms(2,4) by (simp add: j' published_journal)
  ultimately show ?thesis using settle_in_place [OF settled] t by (simp add: applied_row_def)
qed

lemma undisturbed_registration:
  assumes "awaiting w armed t wd" and "undisturbed e"
  shows "\<exists>wd' row life out. complete_registration_publication e w wd = (Ok armed, wd') \<and> record_in_place t (w_files wd')
    \<and> arm_of (w_journal wd') w = Some row \<and> ar_state row = Published
    \<and> lifecycle_of (w_journal wd') w = Some life \<and> lc_applied_status life = Some ''pending'' \<and> lc_applied_revision life = Some 1
    \<and> outbox_at (w_journal wd') w 1 = Some out \<and> ox_state out = OutApplied"
proof -
  obtain row out life sha at where row: "arm_of (w_journal wd) w = Some row" "ar_state row = Prepared \<or> ar_state row = Published"
      "map_option (\<lambda>a. a\<lparr>am_publication := ''published''\<rparr>) (armed_from_row row) = Some armed"
    and out: "outbox_at (w_journal wd) w 1 = Some out" "sql_str (ox_payload_json out) = t" "sql_str (ox_payload_sha256 out) = sha"
    and life: "lifecycle_of (w_journal wd) w = Some life" "lc_desired_status life = ''pending''" "lc_desired_revision life = 1"
    and at: "record_target t sha = Some at" "w_files wd at \<in> {None, Some (t @ newline)}"
    using assms(1) unfolding awaiting_def by blast
  obtain pe where pe: "en_publisher e = Some pe" "\<forall>n. pe_caps pe n = None" "pe_io pe = IoFine" "\<forall>n. pe_read_ok pe n"
    and calm: "\<forall>n. en_fault e n = NoFault" "\<forall>n. en_clock e n \<noteq> None"
    using assms(2) unfolding undisturbed_def by blast
  obtain now where now: "en_clock e 2 = Some now" using calm(2) by blast
  have ticket: "registration_ticket w (w_journal wd) = Some (TicketPublish t sha)"
    using row(1,2) out life by (auto simp: registration_ticket_def)
  obtain fs where settled: "settle False (inspect_with pe t sha) (apply_with pe t sha) (w_files wd) = (PubApplied, fs)"
    using settle_undisturbed [of t sha at pe "w_files wd" False] at pe(2-4) by blast
  let ?j' = "write_published w (format_time now) (w_journal wd)"
  have arm': "arm_of ?j' w = Some (published_row (format_time now) row)" using row(1) by (simp add: published_journal)
  then have "Option.bind (arm_of ?j' w) armed_from_row = Some armed" using row(3) by (simp add: armed_published)
  then have "publish_tx w None (en_clock e 2) (w_journal wd) = Some (Commit ?j' (Ok armed))"
    using row(1,2) now by (auto simp: publish_tx_def Let_def)
  then have run: "complete_registration_publication e w wd = (Ok armed, \<lparr>w_journal = ?j', w_files = fs\<rparr>)"
    using pe calm(1) ticket settled
    by (simp add: complete_registration_publication_def run_read_def run_tx_def)
  have "lc_wake_id life = w" using life(1) by (auto simp: lifecycle_of_def dest: find_SomeD)
  then have "lifecycle_of ?j' w = Some (applied_life ''pending'' 1 (format_time now) life)"
    "outbox_at ?j' w 1 = Some (applied_row (format_time now) out)"
    using life out(1) by (simp_all add: published_journal)
  then show ?thesis
    using run arm' settle_in_place [OF settled]
    by (auto simp: published_row_def applied_life_def applied_row_def)
qed

lemma published_only_with_file_witness:
  "\<exists>wd'. complete_registration_publication sample_env ''w'' unpublished_world = (Ok sample_armed, wd')
     \<and> record_in_place (fst sample_record) (w_files wd')"
proof -
  let ?out = "put_row ''w'' 1 ''pending'' None (fst sample_record) (snd sample_record) sample_time"
  obtain wd' out' where run: "complete_registration_publication sample_env ''w'' unpublished_world = (Ok sample_armed, wd')"
    and out': "outbox_at (w_journal wd') ''w'' 1 = Some out'" "ox_state out' = OutApplied"
    using undisturbed_registration [OF sample_awaiting sample_undisturbed] by blast
  have before: "outbox_at (w_journal unpublished_world) ''w'' 1 = Some ?out" "ox_state ?out \<noteq> OutApplied"
    "sql_str (ox_payload_json ?out) = fst sample_record"
    by (simp_all add: unpublished_world_def outbox_at_def ox_key_def put_row_def sql_str_def)
  from published_only_with_file [OF run before(1,2) out'] show ?thesis using run before(3) by auto
qed

text \<open>The same of a match.\<close>

lemma match_tx_endings:
  "match_tx w n sha cap clock j = Some (Commit j' a) \<Longrightarrow> a = Inr () \<and> (\<exists>at. j' = write_match_applied w n at j)"
  "match_tx w n sha cap clock j \<noteq> Some (Rollback (Inr ()))"
  by (auto simp: match_tx_def split: option.splits if_splits Option.bind_splits)

lemma complete_match_cases:
  assumes "complete_match_publication e w n wd = (a, wd')"
  shows "(w_journal wd' = w_journal wd \<and> a \<noteq> Inr ())
    \<or> (\<exists>pe t sha out at. firing_authority w n (w_journal wd) = Some out \<and> t = sql_str (ox_payload_json out)
        \<and> settle True (inspect_with pe t sha) (apply_with pe t sha) (w_files wd) = (PubApplied, w_files wd')
        \<and> w_journal wd' = write_match_applied w n at (w_journal wd))"
proof (cases "\<exists>pe t sha. en_publisher e = Some pe \<and> pe_caps pe 0 = None
    \<and> run_read (en_fault e 2) (match_refused w ''STORE_UNAVAILABLE'') (match_ticket w n) (w_journal wd) = Inr (t, sha)")
  case False
  then have "w_journal wd' = w_journal wd \<and> a \<noteq> Inr ()"
    using assms by (auto simp: complete_match_publication_def split: option.splits sum.splits if_splits prod.splits)
  then show ?thesis ..
next
  case True
  then obtain pe t sha where pe: "en_publisher e = Some pe" "pe_caps pe 0 = None"
    and read: "run_read (en_fault e 2) (match_refused w ''STORE_UNAVAILABLE'') (match_ticket w n) (w_journal wd) = Inr (t, sha)"
    by blast
  obtain outcome fs where settled: "settle True (inspect_with pe t sha) (apply_with pe t sha) (w_files wd) = (outcome, fs)"
    by (cases "settle True (inspect_with pe t sha) (apply_with pe t sha) (w_files wd)")
  obtain out where out: "firing_authority w n (w_journal wd) = Some out" "t = sql_str (ox_payload_json out)"
    using read by (auto simp: run_read_def match_ticket_def split: if_splits option.splits)
  show ?thesis
  proof (cases "outcome = PubApplied \<and> pe_caps pe 5 = None")
    case False
    then have "w_journal wd' = w_journal wd \<and> a \<noteq> Inr ()"
      using assms pe read settled by (auto simp: complete_match_publication_def)
    then show ?thesis ..
  next
    case True
    let ?run = "run_tx (en_fault e 3) (match_refused w ''STORE_UNAVAILABLE'') (match_tx w n sha (pe_caps pe 6) (en_clock e 1)) (w_journal wd)"
    have wd': "w_files wd' = fs" "?run = (a, w_journal wd')"
      using assms pe read settled True by (auto simp: complete_match_publication_def split: prod.splits)
    have "(w_journal wd' = w_journal wd \<and> a \<noteq> Inr ()) \<or> (\<exists>at. w_journal wd' = write_match_applied w n at (w_journal wd))"
      using run_tx_cases [OF wd'(2)] match_tx_endings by (elim disjE conjE exE) (simp, blast+)
    then show ?thesis using out settled True wd'(1) by blast
  qed
qed

lemma match_applied_journal:
  "outbox_at (write_match_applied w n at j) w n = map_option (match_applied_row at) (outbox_at j w n)"
  "lifecycle_of (write_match_applied w n at j) v = map_option (\<lambda>r. if lc_wake_id r = w \<and> lc_desired_status r = ''firing''
      \<and> lc_desired_revision r = n then applied_life ''firing'' n at r else r) (lifecycle_of j v)"
proof -
  have ox: "outbox_at (write_match_applied w n at j) w n = outbox_at (update_outbox (\<lambda>r. ox_key r = (w, n)) (match_applied_row at) j) w n"
    by (simp add: write_match_applied_def outbox_at_def update_lifecycle_def)
  show "outbox_at (write_match_applied w n at j) w n = map_option (match_applied_row at) (outbox_at j w n)"
    unfolding ox applying_match.outbox_found by (cases "outbox_at j w n") (auto simp: outbox_at_def dest: find_SomeD)
  have "lifecycle_of (write_match_applied w n at j) v = lifecycle_of (update_lifecycle
      (\<lambda>r. lc_wake_id r = w \<and> lc_desired_status r = ''firing'' \<and> lc_desired_revision r = n) (applied_life ''firing'' n at) j) v"
    by (simp add: write_match_applied_def lifecycle_of_def update_lifecycle_def update_outbox_def)
  then show "lifecycle_of (write_match_applied w n at j) v = map_option (\<lambda>r. if lc_wake_id r = w \<and> lc_desired_status r = ''firing''
      \<and> lc_desired_revision r = n then applied_life ''firing'' n at r else r) (lifecycle_of j v)"
    unfolding life_applying.lifecycle_found .
qed

lemma firing_authorityD:
  assumes "firing_authority w n j = Some out"
  shows "\<exists>row life res. arm_of j w = Some row \<and> ar_state row = Published \<and> lifecycle_of j w = Some life
    \<and> lc_desired_status life = ''firing'' \<and> lc_desired_revision life = n \<and> outbox_at j w n = Some out
    \<and> reservation_of j w = Some res \<and> tombstone_of j w = None"
  using assms by (auto simp: firing_authority_def split: option.splits if_splits)

text \<open>C4. A wake fires only with authority and with its record in place: whenever the publication of a match answers
  success or changes the journal, whatever the faults, the wake was published, not tombstoned, had a reserved
  match, and wanted this revision to fire; the file of the record holds exactly the text of that revision; and
  the outbox row and the wake's state are then marked as applied.\<close>

theorem fires_only_with_authority:
  assumes "complete_match_publication e w n wd = (a, wd')" and "a = Inr () \<or> w_journal wd' \<noteq> w_journal wd"
  shows "\<exists>row life res out life' out'. arm_of (w_journal wd) w = Some row \<and> ar_state row = Published
    \<and> lifecycle_of (w_journal wd) w = Some life \<and> lc_desired_status life = ''firing'' \<and> lc_desired_revision life = n
    \<and> reservation_of (w_journal wd) w = Some res \<and> tombstone_of (w_journal wd) w = None
    \<and> outbox_at (w_journal wd) w n = Some out \<and> record_in_place (sql_str (ox_payload_json out)) (w_files wd')
    \<and> outbox_at (w_journal wd') w n = Some out' \<and> ox_state out' = OutApplied \<and> ox_payload_json out' = ox_payload_json out
    \<and> lifecycle_of (w_journal wd') w = Some life'
    \<and> lc_applied_status life' = Some ''firing'' \<and> lc_applied_revision life' = Some n"
proof -
  obtain pe t sha out at where auth: "firing_authority w n (w_journal wd) = Some out" "t = sql_str (ox_payload_json out)"
    and settled: "settle True (inspect_with pe t sha) (apply_with pe t sha) (w_files wd) = (PubApplied, w_files wd')"
    and j': "w_journal wd' = write_match_applied w n at (w_journal wd)"
    using complete_match_cases [OF assms(1)] assms(2) by blast
  obtain row life res where here: "arm_of (w_journal wd) w = Some row" "ar_state row = Published"
    "lifecycle_of (w_journal wd) w = Some life" "lc_desired_status life = ''firing''" "lc_desired_revision life = n"
    "outbox_at (w_journal wd) w n = Some out" "reservation_of (w_journal wd) w = Some res" "tombstone_of (w_journal wd) w = None"
    using firing_authorityD [OF auth(1)] by blast
  have "lc_wake_id life = w" using here(3) by (auto simp: lifecycle_of_def dest: find_SomeD)
  then have "outbox_at (w_journal wd') w n = Some (match_applied_row at out)"
    "lifecycle_of (w_journal wd') w = Some (applied_life ''firing'' n at life)"
    using here by (simp_all add: j' match_applied_journal)
  then show ?thesis
    using here settle_in_place [OF settled] auth(2) by (simp add: match_applied_row_def applied_life_def)
qed

definition firing_world :: world where
  "firing_world =
     \<lparr>w_journal = sample_journal\<lparr>
        j_lifecycle := [(pending_life ''w'' sample_time)\<lparr>lc_desired_status := ''firing''\<rparr>],
        j_reservations := [\<lparr>rv_wake_id = ''w'', rv_receipt_id = None, rv_match_token = ''m'', rv_matched_at = sample_time,
          rv_evidence_json = []\<rparr>]\<rparr>,
      w_files = (\<lambda>_. None)\<rparr>"

lemma fires_only_with_authority_witness:
  "\<exists>wd'. complete_match_publication sample_env ''w'' 1 firing_world = (Inr (), wd')
     \<and> record_in_place (fst sample_record) (w_files wd')"
proof -
  let ?out = "applied_row sample_time (put_row ''w'' 1 ''pending'' None (fst sample_record) (snd sample_record) sample_time)"
  have auth: "firing_authority ''w'' 1 (w_journal firing_world) = Some ?out"
    by (simp add: firing_authority_def firing_world_def arm_of_def lifecycle_of_def outbox_at_def reservation_of_def
        tombstone_of_def ox_key_def sample_journal_def pending_life_def)
      (simp add: sample_arm_row_def applied_row_def put_row_def)
  have row: "sql_str (ox_payload_json ?out) = fst sample_record" "sql_str (ox_payload_sha256 ?out) = snd sample_record"
    by (simp_all add: applied_row_def put_row_def sql_str_def)
  obtain pe where pe: "en_publisher sample_env = Some pe" "\<forall>n. pe_caps pe n = None" "pe_io pe = IoFine" "\<forall>n. pe_read_ok pe n"
    and calm: "\<forall>n. en_fault sample_env n = NoFault" "\<forall>n. en_clock sample_env n \<noteq> None"
    using sample_undisturbed unfolding undisturbed_def by blast
  obtain fs where settled: "settle True (inspect_with pe (fst sample_record) (snd sample_record))
      (apply_with pe (fst sample_record) (snd sample_record)) (w_files firing_world) = (PubApplied, fs)"
    using settle_undisturbed [OF sample_target, of pe "w_files firing_world" True] pe(2-4)
    by (auto simp: firing_world_def)
  obtain now where "en_clock sample_env 1 = Some now" using calm(2) by blast
  then have run: "complete_match_publication sample_env ''w'' 1 firing_world
      = (Inr (), \<lparr>w_journal = write_match_applied ''w'' 1 (format_time now) (w_journal firing_world), w_files = fs\<rparr>)"
    using pe calm(1) auth row settled
    by (simp add: complete_match_publication_def run_read_def match_ticket_def match_tx_def run_tx_def split_beta)
  have "outbox_at (w_journal firing_world) ''w'' 1 = Some ?out" using firing_authorityD [OF auth] by blast
  then have "record_in_place (sql_str (ox_payload_json ?out)) fs"
    using fires_only_with_authority [OF run] by auto
  then show ?thesis using run row(1) by simp
qed

text \<open>Any number of calls, each in an environment of its own.\<close>

fun registration_attempts :: "env list \<Rightarrow> string \<Rightarrow> world \<Rightarrow> world" where
  "registration_attempts [] w wd = wd"
| "registration_attempts (e # es) w wd = registration_attempts es w (snd (complete_registration_publication e w wd))"

lemma awaiting_attempts: "awaiting w armed t wd \<Longrightarrow> awaiting w armed t (registration_attempts es w wd)"
  by (induction es arbitrary: wd) (auto intro: awaiting_kept [OF _ prod.collapse [symmetric]])

text \<open>C31. A registration that was prepared is always published in the end: after any number of attempts, each with
  any faults, failed file operations and refusals of the reader, the next undisturbed attempt answers \<open>Ok\<close>
  with the registration as published; then the file of the record is in place, the arm is published, its
  wake is applied as pending, which is what an evaluation asks for, and the outbox row is applied.\<close>

theorem publication_completes:
  assumes "awaiting w armed t wd" and "undisturbed e"
  shows "\<exists>wd' row life out.
    complete_registration_publication e w (registration_attempts es w wd) = (Ok armed, wd')
    \<and> record_in_place t (w_files wd') \<and> arm_of (w_journal wd') w = Some row \<and> ar_state row = Published
    \<and> lifecycle_of (w_journal wd') w = Some life \<and> lc_applied_status life = Some ''pending'' \<and> lc_applied_revision life = Some 1
    \<and> outbox_at (w_journal wd') w 1 = Some out \<and> ox_state out = OutApplied"
  by (rule undisturbed_registration [OF awaiting_attempts [OF assms(1)] assms(2)])

lemma publication_completes_witness:
  "\<exists>wd'. complete_registration_publication sample_env ''w''
       (registration_attempts [sample_env\<lparr>en_fault := (\<lambda>_. FaultAfter)\<rparr>, sample_env\<lparr>en_publisher := None\<rparr>] ''w'' unpublished_world)
     = (Ok sample_armed, wd')"
  using publication_completes [OF sample_awaiting sample_undisturbed] by blast

end
