(* ===== verification/Registrations.thy ===== *)
theory Registrations
  imports Guarantees StorePublishOk
begin

text \<open>
  The guarantees of arming (\<open>SQLiteSignalModule.arm\<close> of \<open>src/src/codex_wake/signal_store.py\<close>) over
  whole histories: one registration per idempotency key, a lease that was lost prepares nothing, nothing from before a registration
  fires it, and what was retired stays retired.
\<close>

declare split_paired_All [simp del] split_paired_Ex [simp del]

section \<open>Preparing\<close>

text \<open>Whoever holds the lease can prepare.\<close>

lemma prepare_commits:
  assumes "source_at j (aq_key q) = Some s" and "ss_lease_owner s = Some owner" and "ss_lease_generation s = g"
    and "arm_with_id j arm_id = Some row" and "ar_wake_id row = w" and "ar_preparer_token row = Some owner"
    and "j_meta j \<noteq> None" and "0 \<le> an_local_after_sequence (effective_anchor anchor s)"
    and "an_local_after_sequence (effective_anchor anchor s) + 1 < 2 ^ 63"
  shows "\<exists>j'. prepare_tx q resolve w arm_id owner g anchor j = Some (Commit j' None)"
proof -
  let ?n = "an_local_after_sequence (effective_anchor anchor s)" and ?at = "format_time (ac_registered_at (aq_context q))"
  let ?j1 = "update_arm (\<lambda>r. ar_arm_id r = arm_id) (prepared_row (effective_anchor anchor s) ?at) j"
  have "row \<in> set (j_arms j)" using assms(4) by (auto simp: arm_with_id_def dest: find_SomeD)
  then have "arm_of j w \<noteq> None" using assms(5) by (auto simp: arm_of_None wake_ids_def)
  then have 1: "arm_of ?j1 w \<noteq> None" by (simp add: preparing.arm_found)
  have "insert_progress \<lparr>pg_wake_id = w, pg_scanned_through_sequence = ?n, pg_revision = 0, pg_updated_at = ?at\<rparr> ?j1 \<noteq> None"
    using 1 assms(8) by (auto simp: insert_progress_def)
  then obtain j2 where j2: "insert_progress \<lparr>pg_wake_id = w, pg_scanned_through_sequence = ?n, pg_revision = 0, pg_updated_at = ?at\<rparr> ?j1
      = Some j2" by blast
  have 2: "arm_of j2 w \<noteq> None" using 1 insert_progress_frame [OF j2] by (auto simp: arm_of_def)
  have "insert_pin (anchor_pin w ?n ?at) j2 \<noteq> None" using 2 by (auto simp: insert_pin_def anchor_pin_def pin_reasons_def)
  then obtain j3 where j3: "insert_pin (anchor_pin w ?n ?at) j2 = Some j3" by blast
  have 3: "arm_of j3 w \<noteq> None" using 2 insert_pin_frame [OF j3] by (auto simp: arm_of_def)
  have "insert_lifecycle (pending_life w ?at) j3 \<noteq> None" using 3 by (auto simp: insert_lifecycle_def pending_life_def)
  then obtain j4 where j4: "insert_lifecycle (pending_life w ?at) j3 = Some j4" by blast
  have 4: "arm_of j4 w \<noteq> None" using 3 insert_lifecycle_frame [OF j4] by (auto simp: arm_of_def)
  have j5: "insert_outbox True (put_row w 1 ''pending'' None t sha ?at) j4 \<noteq> None" for t sha
    using 4 by (auto simp: insert_outbox_def outbox_row_ok_def put_row_def)
  obtain uuid where "journal_uuid j = Some uuid" using assms(7) by (auto simp: journal_uuid_def)
  obtain t sha where built: "build_signal_record resolve (prepared_arm q w arm_id (effective_anchor anchor s))
      (ac_resume (aq_context q)) uuid 1 (ac_max_attempts (aq_context q)) = (t, sha)" by fastforce
  obtain j5 where "insert_outbox True (put_row w 1 ''pending'' None t sha ?at) j4 = Some j5" using j5 by blast
  moreover have "- (2 ^ 63) \<le> ?n" using assms(8) by simp
  ultimately show ?thesis
    using assms(1-4,6,8,9) j2 j3 j4 built \<open>journal_uuid j = Some uuid\<close> by (simp add: prepare_tx_def sql_int_def Let_def)
qed


section \<open>The registration of an idempotency key\<close>

lemma keyed_by_wake: "schema_ok j \<Longrightarrow> arm_of j w = Some row \<Longrightarrow> arm_keyed j (ar_idempotency_key row) = Some row"
  using find_key [of ar_idempotency_key "j_arms j" row]
  by (auto simp: schema_ok_def arms_ok_def arm_of_def arm_keyed_def dest: find_SomeD)

text \<open>A row is found again by any of its keys.\<close>

lemma row_lookup:
  assumes "remembers j j'" and "schema_ok j'" and "row \<in> set (j_arms j)"
  shows "\<exists>row'. arm_of j' (ar_wake_id row) = Some row' \<and> arm_keyed j' (ar_idempotency_key row) = Some row'
    \<and> arm_promise row' = arm_promise row"
proof -
  have "arm_promise row \<in> arm_promise ` set (j_arms j')" using assms(1,3) unfolding remembers_def by blast
  then obtain row' where row': "row' \<in> set (j_arms j')" "arm_promise row' = arm_promise row" by (auto elim!: imageE)
  then have "ar_wake_id row' = ar_wake_id row" "ar_idempotency_key row' = ar_idempotency_key row"
    by (simp_all add: arm_promise_def arm_columns_def)
  moreover have "arm_of j' (ar_wake_id row') = Some row'"
    using find_key [of ar_wake_id "j_arms j'" row'] assms(2) row'(1) by (simp add: schema_ok_def arms_ok_def arm_of_def)
  ultimately show ?thesis using keyed_by_wake [OF assms(2)] row'(2) by metis
qed

lemma reserve_names:
  assumes "reserve_tx q owner t u j = Some (Commit j' (ReservedLease w arm_id g))"
  shows "\<exists>row\<in>set (j_arms j'). ar_wake_id row = w \<and> ar_idempotency_key row = ac_idempotency_key (aq_context q)
    \<and> ar_intent_fingerprint row = ac_intent_fingerprint (aq_context q)"
proof (cases "arm_keyed j (ac_idempotency_key (aq_context q))")
  case None
  then have "lease_source q True (aq_wake_id q) (''arm_'' @ aq_wake_id q) owner t u j = Some (Commit j' (ReservedLease w arm_id g))"
    using assms by (simp add: reserve_tx_def)
  from lease_source_commit [OF this] obtain k version where
    "insert_arm (preparing_row q w arm_id owner (format_time u) version) k = Some j'" by auto
  then show ?thesis by (auto dest!: insert_arm_frame simp: preparing_row_def)
next
  case (Some existing)
  then have ex: "existing \<in> set (j_arms j)" "ar_idempotency_key existing = ac_idempotency_key (aq_context q)"
    by (auto simp: arm_keyed_def dest: find_SomeD)
  have fp: "ar_intent_fingerprint existing = ac_intent_fingerprint (aq_context q)"
    and lease: "lease_source q False (ar_wake_id existing) (ar_arm_id existing) owner t u j = Some (Commit j' (ReservedLease w arm_id g))"
    using assms Some by (auto simp: reserve_tx_def Let_def split: if_splits option.splits Option.bind_splits)
  obtain j1 j2 where one: "insert_instance (request_instance q) j = Some j1" and two: "insert_source (aq_key q) j1 = Some j2"
    and w: "w = ar_wake_id existing"
    and j': "update_arm (\<lambda>r. ar_arm_id r = ar_arm_id existing) (prepare_again owner (format_time u))
        (leased_journal q owner g u j2) = j'"
    using lease_source_commit [OF lease] by (elim exE conjE) (rule that; simp)
  have "existing \<in> set (j_arms (leased_journal q owner g u j2))"
    using ex(1) insert_instance_frame [OF one] insert_source_frame [OF two] by (auto simp: leased_journal_def update_source_def)
  then have "prepare_again owner (format_time u) existing \<in> set (j_arms j')"
    unfolding j' [symmetric] by (simp add: update_arm_def set_update_where image_iff bexI [of _ existing])
  then show ?thesis by (rule bexI [rotated]) (simp add: w ex fp prepare_again_def)
qed

text \<open>Whoever gets the registration from a publication gets the published row.\<close>

lemma published_answer:
  assumes "complete_registration_publication e w wd = (Ok x, wd')"
  shows "\<exists>row. arm_of (w_journal wd') w = Some row \<and> ar_state row = Published \<and> armed_from_row row = Some x"
proof -
  have run: "\<exists>row. arm_of j' w = Some row \<and> ar_state row = Published \<and> armed_from_row row = Some x"
    if run: "run_tx flt (degraded_at (Some w) c None) (publish_tx w cap clock) j = (Ok x, j')" for flt c cap clock j j'
  proof -
    have "publish_tx w cap clock j = Some (Commit j' (Ok x))"
      using run_tx_cases [OF run] by (auto simp: publish_tx_def Let_def split: option.splits if_splits Option.bind_splits)
    then obtain at row where "j' = write_published w at j" "arm_of j' w = Some row" "armed_from_row row = Some x"
      by (auto simp: publish_tx_def Let_def split: option.splits if_splits Option.bind_splits)
    then show ?thesis by (auto simp: published_journal published_row_def)
  qed
  have ticket: "\<exists>row. arm_of j w = Some row \<and> ar_state row = Published \<and> armed_from_row row = Some x"
    if "run_read flt (TicketAnswer (degraded_at (Some w) c None)) (registration_ticket w) j = TicketAnswer (Ok x)" for flt c j
    using that by (auto simp: run_read_def registration_ticket_def split: if_splits option.splits)
  show ?thesis
    using assms by (auto simp: complete_registration_publication_def Let_def split: option.splits ticket.splits prod.splits if_splits
        dest!: run ticket)
qed


lemma lease_source_answers:
  "lease_source q fresh w arm_id owner t u j \<noteq> Some (Rollback (ReservedPublish v))"
  "lease_source q fresh w arm_id owner t u j \<noteq> Some (Rollback (ReservedAnswer (Ok x)))"
  "lease_source q fresh w arm_id owner t u j \<noteq> Some (Rollback (ReservedLease v i g))"
  "lease_source q fresh w arm_id owner t u j \<noteq> Some (Commit j' (ReservedAnswer a))"
  "lease_source q fresh w arm_id owner t u j \<noteq> Some (Commit j' (ReservedPublish v))"
  by (auto simp: lease_source_def Let_def split: option.splits Option.bind_splits if_splits)

lemma reserve_answers:
  "reserve_tx q owner t u j \<noteq> Some (Rollback (ReservedAnswer (Ok x)))"
  "reserve_tx q owner t u j \<noteq> Some (Rollback (ReservedLease w arm_id g))"
  "reserve_tx q owner t u j \<noteq> Some (Commit j' (ReservedAnswer a))"
  "reserve_tx q owner t u j \<noteq> Some (Commit j' (ReservedPublish w))"
  by (auto simp: reserve_tx_def Let_def lease_source_answers split: option.splits Option.bind_splits if_splits)

lemma reserve_publishes:
  assumes "reserve_tx q owner t u j = Some (Rollback (ReservedPublish w))"
  shows "\<exists>row\<in>set (j_arms j). ar_wake_id row = w \<and> ar_idempotency_key row = ac_idempotency_key (aq_context q)
    \<and> ar_intent_fingerprint row = ac_intent_fingerprint (aq_context q)"
proof (cases "arm_keyed j (ac_idempotency_key (aq_context q))")
  case None
  then show ?thesis using assms by (simp add: reserve_tx_def lease_source_answers)
next
  case (Some existing)
  then have "existing \<in> set (j_arms j)" "ar_idempotency_key existing = ac_idempotency_key (aq_context q)"
    by (auto simp: arm_keyed_def dest: find_SomeD)
  moreover have "ar_wake_id existing = w" "ar_intent_fingerprint existing = ac_intent_fingerprint (aq_context q)"
    using assms Some
    by (auto simp: reserve_tx_def Let_def lease_source_answers split: if_splits option.splits Option.bind_splits)
  ultimately show ?thesis by blast
qed

lemma anchored_Ok:
  assumes "arm_anchored e q w arm_id g answer wd = (Ok x, wd')"
  shows "\<exists>anchor j2. run_tx (en_fault e 1) (Some (degraded_at (Some w) ''STORE_UNAVAILABLE'' None))
        (prepare_tx q (en_resolve e) w arm_id (en_owner e) g anchor) (w_journal wd) = (None, j2)
      \<and> complete_registration_publication e w (wd\<lparr>w_journal := j2\<rparr>) = (Ok x, wd')"
proof -
  obtain anchor where go: "(case run_tx (en_fault e 1) (Some (degraded_at (Some w) ''STORE_UNAVAILABLE'' None))
        (prepare_tx q (en_resolve e) w arm_id (en_owner e) g anchor) (w_journal wd) of
      (Some failed, j) \<Rightarrow> (failed, wd\<lparr>w_journal := j\<rparr>)
    | (None, j) \<Rightarrow> complete_registration_publication e w (wd\<lparr>w_journal := j\<rparr>)) = (Ok x, wd')"
    using assms by (auto simp: arm_anchored_def Let_def split: option.splits outcome.splits)
  have never: "prepare_tx q (en_resolve e) w arm_id (en_owner e) g anchor (w_journal wd) \<noteq> Some (Rollback (Some (Ok x)))"
    "prepare_tx q (en_resolve e) w arm_id (en_owner e) g anchor (w_journal wd) \<noteq> Some (Commit j (Some (Ok x)))" for j
    by (auto simp: prepare_tx_def Let_def split: option.splits Option.bind_splits if_splits prod.splits)
  obtain r j2 where first: "run_tx (en_fault e 1) (Some (degraded_at (Some w) ''STORE_UNAVAILABLE'' None))
        (prepare_tx q (en_resolve e) w arm_id (en_owner e) g anchor) (w_journal wd) = (r, j2)"
    by fastforce
  then have "r = None" using go run_tx_cases [OF first] never by (cases r) auto
  then show ?thesis using go first by auto
qed

lemma arm_leased_Ok:
  assumes run: "arm_leased e q t u wd = (Ok x, wd')" and ok: "schema_ok (w_journal wd)"
  shows "\<exists>row. arm_keyed (w_journal wd') (ac_idempotency_key (aq_context q)) = Some row
    \<and> ar_intent_fingerprint row = ac_intent_fingerprint (aq_context q)
    \<and> ar_state row = Published \<and> armed_from_row row = Some x
    \<and> (\<exists>wd2. complete_registration_publication e (ar_wake_id row) wd2 = (Ok x, wd'))"
proof -
  let ?body = "reserve_tx q (en_owner e) t u"
  let ?no = "ReservedAnswer (degraded_at (Some (reserved_wake q (en_fault e 0) (w_journal wd))) ''STORE_UNAVAILABLE'' None)"
  obtain r j1 where first: "run_tx (en_fault e 0) ?no ?body (w_journal wd) = (r, j1)"
    by (cases "run_tx (en_fault e 0) ?no ?body (w_journal wd)")
  have j1: "schema_ok j1" using later_schema_ok [OF run_tx_later_eq [OF first transaction.reserve] ok] .
  text \<open>All that matters: the row of the key in the first journal, and the publication that answered.\<close>
  have finish: ?thesis
    if named: "row \<in> set (j_arms j1)" "ar_wake_id row = w" "ar_idempotency_key row = ac_idempotency_key (aq_context q)"
        "ar_intent_fingerprint row = ac_intent_fingerprint (aq_context q)"
      and mid: "later j1 (w_journal wd2)" and last: "complete_registration_publication e w wd2 = (Ok x, wd')" for row w wd2
  proof -
    have past: "later j1 (w_journal wd')" using later_trans [OF complete_registration_later [OF last] mid] .
    obtain row' where row': "arm_of (w_journal wd') w = Some row'"
        "arm_keyed (w_journal wd') (ac_idempotency_key (aq_context q)) = Some row'" "arm_promise row' = arm_promise row"
      using row_lookup [OF memory.later_rel [OF past j1] later_schema_ok [OF past j1] named(1)] named by auto
    moreover have "ar_wake_id row' = w" using row'(1) by (auto simp: arm_of_def dest: find_SomeD)
    ultimately show ?thesis using published_answer [OF last] named(4) last row' by (auto simp: arm_promise_def)
  qed
  show ?thesis
  proof (cases r)
    case (ReservedAnswer a)
    then have "a = Ok x" using run first by (simp add: arm_leased_def)
    then show ?thesis using run_tx_cases [OF first] ReservedAnswer by (auto simp: reserve_answers)
  next
    case (ReservedPublish w)
    then have behind: "?body (w_journal wd) = Some (Rollback (ReservedPublish w))" "j1 = w_journal wd"
      using run_tx_cases [OF first] by (auto simp: reserve_answers)
    have last: "complete_registration_publication e w (wd\<lparr>w_journal := j1\<rparr>) = (Ok x, wd')"
      using run first ReservedPublish by (simp add: arm_leased_def)
    obtain row where "row \<in> set (j_arms j1)" "ar_wake_id row = w" "ar_idempotency_key row = ac_idempotency_key (aq_context q)"
        "ar_intent_fingerprint row = ac_intent_fingerprint (aq_context q)"
      using reserve_publishes [OF behind(1)] behind(2) by blast
    from finish [OF this _ last] show ?thesis by (simp add: later.same)
  next
    case (ReservedLease w arm_id g)
    then have com: "?body (w_journal wd) = Some (Commit j1 (ReservedLease w arm_id g))"
      using run_tx_cases [OF first] by (auto simp: reserve_answers)
    obtain row where row: "arm_with_id j1 arm_id = Some row" "ar_wake_id row = w" using reserve_leaves [OF com ok] by blast
    obtain named where named: "named \<in> set (j_arms j1)" "ar_wake_id named = w"
        "ar_idempotency_key named = ac_idempotency_key (aq_context q)"
        "ar_intent_fingerprint named = ac_intent_fingerprint (aq_context q)"
      using reserve_names [OF com] by blast
    have "arm_anchored e q w arm_id g
        (ad_establish_anchor (ac_adapter (aq_context q)) (aq_spec q) (ac_registered_at (aq_context q)))
        (wd\<lparr>w_journal := j1\<rparr>) = (Ok x, wd')"
      using run first ReservedLease by (simp add: arm_leased_def)
    then obtain anchor j2 where prep: "run_tx (en_fault e 1) (Some (degraded_at (Some w) ''STORE_UNAVAILABLE'' None))
          (prepare_tx q (en_resolve e) w arm_id (en_owner e) g anchor) j1 = (None, j2)"
      and last: "complete_registration_publication e w (wd\<lparr>w_journal := j2\<rparr>) = (Ok x, wd')"
      using anchored_Ok by fastforce
    have "later j1 j2" by (rule run_tx_later_eq [OF prep]) (rule transaction.prepare [OF _ row])
    then show ?thesis using finish [OF named _ last] by simp
  qed
qed

lemma arm_Ok:
  assumes "arm e w spec context wd = (Ok x, wd')" and "schema_ok (w_journal wd)"
  shows "\<exists>row. arm_keyed (w_journal wd') (ac_idempotency_key context) = Some row
    \<and> ar_intent_fingerprint row = ac_intent_fingerprint context \<and> ar_state row = Published \<and> armed_from_row row = Some x
    \<and> (\<exists>wd2. complete_registration_publication e (ar_wake_id row) wd2 = (Ok x, wd'))"
proof -
  obtain q t u where "arm_leased e q t u wd = (Ok x, wd')" "aq_context q = context"
    using assms(1) by (auto simp: arm_def split: option.splits)
  then show ?thesis using arm_leased_Ok [OF _ assms(2)] by blast
qed

text \<open>A registration is read from its promise, its subscription and its state.\<close>

lemma armed_same:
  assumes "armed_from_row r = Some x" and "armed_from_row r' = Some y" and "arm_promise r' = arm_promise r"
    and "ar_state r' = ar_state r" and "am_spec y = am_spec x" and "am_anchor y = am_anchor x"
  shows "y = x"
  using assms
  by (intro armed_signal.equality)
    (auto simp: armed_from_row_def arm_promise_def arm_columns_def expiry_of_def split: Option.bind_splits if_splits)

text \<open>Another intent under a key that is taken is refused, and changes nothing.\<close>

lemma arm_conflict:
  assumes "arm_keyed (w_journal wd) (ac_idempotency_key context) = Some row"
    and "ar_intent_fingerprint row \<noteq> ac_intent_fingerprint context" and "arm e w spec context wd = (a, wd')"
  shows "wd' = wd \<and> (\<forall>y. a \<noteq> Ok y)"
proof -
  have refused: "reserve_tx q owner t u (w_journal wd) = Some (Rollback (ReservedAnswer (invalid_as (Some (ar_wake_id row))
      ''IDEMPOTENCY_CONFLICT'' ''idempotency key already used'')))" if "aq_context q = context" for q owner t u
    using assms(1,2) that by (simp add: reserve_tx_def Let_def)
  have "arm_leased e q t u wd = (a, wd') \<Longrightarrow> aq_context q = context \<Longrightarrow> wd' = wd \<and> (\<forall>y. a \<noteq> Ok y)" for q t u
    using refused [of q] by (auto simp: arm_leased_def run_tx_def split: if_splits fault.splits)
  then show ?thesis using assms(3) by (auto simp: arm_def split: option.splits)
qed


text \<open>Arming again under the key of a prepared registration publishes it.\<close>

lemma arm_again:
  assumes "arm_keyed (w_journal wd) (ac_idempotency_key context) = Some row"
    and "ar_intent_fingerprint row = ac_intent_fingerprint context"
    and "ar_state row = Prepared \<or> ar_state row = Published"
    and "ad_contract (ac_adapter context) = Some contract" and "validate_signal spec contract = None"
    and "contract_payload contract = Some payload" and "en_clock e 0 = Some t"
    and "add_seconds t (en_lease_seconds e) = Some u" and "en_fault e 0 \<noteq> FaultBefore"
  shows "arm e w spec context wd = complete_registration_publication e (ar_wake_id row) wd"
proof -
  have "reserve_tx q owner t u (w_journal wd) = Some (Rollback (ReservedPublish (ar_wake_id row)))"
    if "aq_context q = context" for q owner
    using assms(1-3) that by (simp add: reserve_tx_def Let_def)
  then show ?thesis using assms(4-9) by (simp add: arm_def arm_leased_def run_tx_def)
qed

text \<open>
  A call that meets nothing unusual: the adapter states a contract that the request fits, the clock can be read, no transaction
  fails, the reader accepts records and the files can be read and written.
\<close>

definition quiet_arm :: "env \<Rightarrow> signal_request \<Rightarrow> arm_context \<Rightarrow> bool" where
  "quiet_arm e spec context \<longleftrightarrow> undisturbed e
     \<and> (\<exists>contract. ad_contract (ac_adapter context) = Some contract \<and> validate_signal spec contract = None
          \<and> contract_payload contract \<noteq> None)
     \<and> (\<exists>t. en_clock e 0 = Some t \<and> add_seconds t (en_lease_seconds e) \<noteq> None)"

text \<open>
  The registration of a key stands: it is published, and either its wake is still wanted as pending and its record is in its
  place, or absent from it, or its wake went on and its record was applied.  What ends that is a retirement, or a foreign
  file in the place of the record.
\<close>

definition record_settles :: "string \<Rightarrow> string \<Rightarrow> files \<Rightarrow> bool" where
  "record_settles t sha fs \<longleftrightarrow>
     pr_outcome (publisher_inspect None True t sha fs) = PubApplied \<or> (\<exists>at. record_target t sha = Some at \<and> fs at = None)"

definition still_armed :: "string \<Rightarrow> world \<Rightarrow> bool" where
  "still_armed key wd \<longleftrightarrow>
     (\<exists>row out life. arm_keyed (w_journal wd) key = Some row \<and> ar_state row = Published
        \<and> outbox_at (w_journal wd) (ar_wake_id row) 1 = Some out \<and> lifecycle_of (w_journal wd) (ar_wake_id row) = Some life
        \<and> (if lc_desired_status life = ''pending'' \<and> lc_desired_revision life = 1
           then record_settles (sql_str (ox_payload_json out)) (sql_str (ox_payload_sha256 out)) (w_files wd)
           else ox_state out = OutApplied))"

lemma settle_inspected:
  assumes "settle False (inspect_with pe t sha) (apply_with pe t sha) fs = (PubApplied, fs')"
  shows "record_settles t sha fs'"
proof -
  have "\<exists>n. pr_outcome (inspect_with pe t sha n fs') = PubApplied"
    using assms by (auto simp: settle_def split: publication.splits prod.splits if_splits)
  then obtain cap ok where "pr_outcome (publisher_inspect cap ok t sha fs') = PubApplied"
    unfolding inspect_with_def by blast
  then have "pr_outcome (publisher_inspect None True t sha fs') = PubApplied"
    by (auto simp: publisher_inspect_def Let_def result_of_def split: option.splits json.splits if_splits)
  then show ?thesis by (simp add: record_settles_def)
qed

lemma settle_quietly:
  assumes "record_settles t sha fs" and "\<forall>n. pe_caps pe n = None" and "\<forall>n. pe_read_ok pe n" and "pe_io pe = IoFine"
  shows "\<exists>fs'. settle False (inspect_with pe t sha) (apply_with pe t sha) fs = (PubApplied, fs')"
proof (cases "pr_outcome (publisher_inspect None True t sha fs) = PubApplied")
  case True
  then show ?thesis using assms(2,3) by (simp add: settle_def inspect_with_def)
next
  case False
  then obtain at where "record_target t sha = Some at" "fs at = None" using assms(1) by (auto simp: record_settles_def)
  then show ?thesis using settle_undisturbed [OF _ assms(2-4)] by simp
qed

lemma quiet_publication:
  assumes arm: "arm_of (w_journal wd) w = Some row" "ar_state row = Published" "armed_from_row row = Some x"
    and ticket: "registration_ticket w (w_journal wd) = Some (TicketPublish t sha)"
    and placed: "record_settles t sha (w_files wd)" and e: "undisturbed e"
  shows "\<exists>y wd'. complete_registration_publication e w wd = (Ok y, wd')"
proof -
  obtain pe where pe: "en_publisher e = Some pe" "\<forall>n. pe_caps pe n = None" "pe_io pe = IoFine" "\<forall>n. pe_read_ok pe n"
    and calm: "\<forall>n. en_fault e n = NoFault" "\<forall>n. en_clock e n \<noteq> None"
    using e unfolding undisturbed_def by blast
  obtain now where now: "en_clock e 2 = Some now" using calm(2) by blast
  obtain fs where settled: "settle False (inspect_with pe t sha) (apply_with pe t sha) (w_files wd) = (PubApplied, fs)"
    using settle_quietly [OF placed pe(2,4,3)] by blast
  have "Option.bind (arm_of (write_published w (format_time now) (w_journal wd)) w) armed_from_row
      = Some (x\<lparr>am_publication := ''published''\<rparr>)"
    using arm by (simp add: published_journal armed_published)
  then have "publish_tx w None (en_clock e 2) (w_journal wd)
      = Some (Commit (write_published w (format_time now) (w_journal wd)) (Ok (x\<lparr>am_publication := ''published''\<rparr>)))"
    using arm now by (auto simp: publish_tx_def Let_def)
  then show ?thesis
    using pe calm(1) ticket settled by (simp add: complete_registration_publication_def run_read_def run_tx_def)
qed

lemma quiet_arm_answers:
  assumes arm: "arm_of (w_journal wd) (ar_wake_id row) = Some row" "armed_from_row row = Some x"
    and key: "arm_keyed (w_journal wd) (ac_idempotency_key context) = Some row"
    and fp: "ar_intent_fingerprint row = ac_intent_fingerprint context"
    and stands: "still_armed (ac_idempotency_key context) wd" and quiet: "quiet_arm e spec context"
  shows "\<exists>y wd'. arm e w spec context wd = (Ok y, wd')"
proof -
  let ?w = "ar_wake_id row"
  obtain out life where published: "ar_state row = Published" and out: "outbox_at (w_journal wd) ?w 1 = Some out"
    and life: "lifecycle_of (w_journal wd) ?w = Some life"
    and wants: "if lc_desired_status life = ''pending'' \<and> lc_desired_revision life = 1
      then record_settles (sql_str (ox_payload_json out)) (sql_str (ox_payload_sha256 out)) (w_files wd)
      else ox_state out = OutApplied"
    using stands key unfolding still_armed_def by auto
  have calm: "undisturbed e" using quiet by (simp add: quiet_arm_def)
  have "arm e w spec context wd = complete_registration_publication e ?w wd"
    using arm_again [OF key fp] published quiet by (auto simp: quiet_arm_def undisturbed_def)
  moreover have "\<exists>y wd'. complete_registration_publication e ?w wd = (Ok y, wd')"
  proof (cases "lc_desired_status life = ''pending'' \<and> lc_desired_revision life = 1")
    case True
    then have "registration_ticket ?w (w_journal wd)
        = Some (TicketPublish (sql_str (ox_payload_json out)) (sql_str (ox_payload_sha256 out)))"
      using arm out life published by (simp add: registration_ticket_def)
    then show ?thesis using quiet_publication [OF arm(1) published arm(2) _ _ calm] wants True by simp
  next
    case False
    then have "registration_ticket ?w (w_journal wd) = Some (TicketAnswer (Ok x))"
      using arm out life published wants by (auto simp: registration_ticket_def)
    then show ?thesis
      using calm by (auto simp: undisturbed_def complete_registration_publication_def run_read_def)
  qed
  ultimately show ?thesis by simp
qed

lemma publication_endings:
  assumes "complete_registration_publication e w wd = (Ok x, wd')"
  shows "registration_ticket w (w_journal wd) = Some (TicketAnswer (Ok x)) \<and> wd' = wd
    \<or> (\<exists>pe t sha fs at. registration_ticket w (w_journal wd) = Some (TicketPublish t sha)
        \<and> settle False (inspect_with pe t sha) (apply_with pe t sha) (w_files wd) = (PubApplied, fs)
        \<and> wd' = \<lparr>w_journal = write_published w at (w_journal wd), w_files = fs\<rparr>)"
proof -
  have ticket: "registration_ticket w j = Some (TicketAnswer (Ok x))"
    if "run_read flt (TicketAnswer (degraded_at v c None)) (registration_ticket w) j = TicketAnswer (Ok x)" for flt v c j
    using that by (auto simp: run_read_def split: if_splits option.splits)
  have put: "registration_ticket w (w_journal wd) = Some (TicketPublish t sha)"
    if "run_read flt (TicketAnswer a) (registration_ticket w) (w_journal wd) = TicketPublish t sha" for flt a t sha
    using that by (auto simp: run_read_def split: if_splits option.splits)
  have commit: "\<exists>at. j = write_published w at (w_journal wd)"
    if "run_tx flt (degraded_at (Some w) c None) (publish_tx w cap clock) (w_journal wd) = (Ok x, j)" for flt c cap clock j
    using run_tx_cases [OF that] by (auto simp: publish_tx_def Let_def split: option.splits if_splits Option.bind_splits)
  show ?thesis
    using assms
    by (auto simp: complete_registration_publication_def Let_def split: option.splits ticket.splits prod.splits if_splits
        dest!: put ticket commit)
qed

text \<open>What answered a registration leaves it standing.\<close>

lemma answered_stands:
  assumes run: "complete_registration_publication e (ar_wake_id row) wd = (Ok x, wd')"
    and key: "arm_keyed (w_journal wd') key = Some row" "ar_state row = Published"
  shows "still_armed key wd'"
proof -
  let ?w = "ar_wake_id row"
  consider (answered) "registration_ticket ?w (w_journal wd) = Some (TicketAnswer (Ok x))" "wd' = wd"
    | (written) pe t sha fs at where "registration_ticket ?w (w_journal wd) = Some (TicketPublish t sha)"
        "settle False (inspect_with pe t sha) (apply_with pe t sha) (w_files wd) = (PubApplied, fs)"
        "wd' = \<lparr>w_journal = write_published ?w at (w_journal wd), w_files = fs\<rparr>"
    using publication_endings [OF run] by blast
  then show ?thesis
  proof cases
    case answered
    then show ?thesis
      using key by (auto simp: still_armed_def registration_ticket_def split: option.splits if_splits)
  next
    case written
    obtain out life where out: "outbox_at (w_journal wd) ?w 1 = Some out" "t = sql_str (ox_payload_json out)" "sha = sql_str (ox_payload_sha256 out)"
      and life: "lifecycle_of (w_journal wd) ?w = Some life"
      using written(1) by (auto simp: registration_ticket_def split: option.splits if_splits)
    have "outbox_at (w_journal wd') ?w 1 = Some (applied_row at out)" using out(1) written(3) by (simp add: published_journal)
    moreover obtain life' where "lifecycle_of (w_journal wd') ?w = Some life'" using life written(3) by (simp add: published_journal)
    moreover have "record_settles t sha (w_files wd')" using settle_inspected [OF written(2)] written(3) by simp
    ultimately show ?thesis
      using key out(2,3) unfolding still_armed_def
      by (intro exI [of _ row] exI [of _ "applied_row at out"] exI [of _ life']) (simp add: applied_row_def)
  qed
qed

lemma arm_retired:
  assumes key: "arm_keyed (w_journal wd) (ac_idempotency_key context) = Some row"
    and fp: "ar_intent_fingerprint row = ac_intent_fingerprint context" and retired: "ar_state row = Tombstoned"
    and quiet: "quiet_arm e spec context"
  shows "arm e w spec context wd
    = (invalid_as (Some (ar_wake_id row)) ''REGISTRATION_RETIRED'' ''registration is no longer active'', wd)"
proof -
  have "reserve_tx q owner t u (w_journal wd) = Some (Rollback (ReservedAnswer (invalid_as (Some (ar_wake_id row))
      ''REGISTRATION_RETIRED'' ''registration is no longer active'')))" if "aq_context q = context" for q owner t u
    using key fp retired that by (simp add: reserve_tx_def Let_def)
  then show ?thesis
    using quiet by (auto simp: quiet_arm_def undisturbed_def arm_def arm_leased_def run_tx_def)
qed

section \<open>A second registration on the sample source\<close>

definition second_request :: arm_request where
  "second_request =
     sample_request\<lparr>aq_wake_id := ''v'', aq_context := sample_context\<lparr>ac_idempotency_key := ''k2''\<rparr>\<rparr>"

definition second_row :: arm_row where
  "second_row = preparing_row second_request ''v'' ''arm_v'' ''o'' (format_time (datetime_of 40)) 1"

definition second_source :: source_row where
  "second_source = leased_row ''o'' 2 (format_time (datetime_of 40))
     (committed_source sample_commit 1 (new_source (''fs'', ''a'')\<lparr>ss_lease_generation := 1\<rparr>))"

definition second_reserved :: journal where
  "second_reserved = sample_received\<lparr>j_sources := [second_source], j_arms := [sample_arm_row, second_row]\<rparr>"

lemma second_request_fields [simp]:
  "aq_key second_request = (''fs'', ''a'')" "aq_wake_id second_request = ''v''" "aq_spec second_request = sample_spec"
  "aq_contract_json second_request = sample_contract_json" "ac_registered_at (aq_context second_request) = datetime_of 0"
  "ac_expires_at (aq_context second_request) = None" "ac_idempotency_key (aq_context second_request) = ''k2''"
  by (simp_all add: aq_key_def second_request_def sample_request_def sample_contract_def sample_context_def)

lemma second_reserves:
  "reserve_tx second_request ''o'' (datetime_of 10) (datetime_of 40) sample_received
     = Some (Commit second_reserved (ReservedLease ''v'' ''arm_v'' 2))"
proof -
  have free: "arm_keyed sample_received ''k2'' = None"
    "find (\<lambda>r. ar_arm_id r = ''arm_v'') [sample_arm_row] = None" "ar_wake_id sample_arm_row \<noteq> ''v''"
    "ar_idempotency_key sample_arm_row \<noteq> ''k2''"
    by (simp_all add: arm_keyed_def sample_received_def sample_journal_def sample_arm_row_def)
  have arms: "j_arms sample_received = [sample_arm_row]" by (simp add: sample_received_def sample_journal_def)
  have inst: "instance_at sample_received (''fs'', ''a'') = Some sample_instance"
    by (simp add: instance_at_def sample_received_def sample_journal_def in_key_def sample_instance_def)
  have insts: "j_instances sample_received = [sample_instance]"
    by (simp add: sample_received_def sample_journal_def sample_instance_def)
  have src: "j_sources sample_received = [committed_source sample_commit 1 (new_source (''fs'', ''a'')\<lparr>ss_lease_generation := 1\<rparr>)]"
    by (simp add: sample_received_def)
  have row: "ss_key (committed_source sample_commit 1 (new_source (''fs'', ''a'')\<lparr>ss_lease_generation := 1\<rparr>)) = (''fs'', ''a'')"
    "ss_lease_owner (committed_source sample_commit 1 (new_source (''fs'', ''a'')\<lparr>ss_lease_generation := 1\<rparr>)) = None"
    "ss_lease_generation (committed_source sample_commit 1 (new_source (''fs'', ''a'')\<lparr>ss_lease_generation := 1\<rparr>)) = 1"
    by (simp_all add: committed_source_def) (simp_all add: new_source_def ss_key_def)
  have print: "in_contract_fingerprint sample_instance = fingerprint sample_contract_json" by (simp add: sample_instance_def)
  have rows: "ar_wake_id sample_arm_row = ''w''" "ar_arm_id sample_arm_row = ''arm_w''" "ar_idempotency_key sample_arm_row = ''k''"
    by (simp_all add: sample_arm_row_def)
  have spec: "scalar_num (rq_contract_version sample_spec) = Some 1" by (simp add: sample_spec_def)
  have new: "ar_contract_version second_row = 1" "ar_arm_id second_row = ''arm_v''" "ar_wake_id second_row = ''v''"
    "ar_idempotency_key second_row = ''k2''" "ar_source second_row = ''fs''" "ar_source_instance second_row = ''a''"
    by (simp_all add: second_row_def preparing_row_def sample_spec_def)
  let ?j3 = "sample_received\<lparr>j_sources := [second_source]\<rparr>"
  have "insert_arm second_row ?j3 = Some second_reserved"
    using inst rows by (simp add: insert_arm_def new arm_with_id_def arm_of_def arm_keyed_def arms instance_at_def second_reserved_def)
  moreover have "source_at sample_received (''fs'', ''a'')
      = Some (committed_source sample_commit 1 (new_source (''fs'', ''a'')\<lparr>ss_lease_generation := 1\<rparr>))"
    by (simp add: source_at_def src) (simp add: ss_key_def new_source_def)
  moreover have "update_source (\<lambda>r. ss_key r = (''fs'', ''a'')) (leased_row ''o'' 2 (format_time (datetime_of 40))) sample_received = ?j3"
    by (simp add: update_source_def update_where_def src second_source_def) (simp add: ss_key_def new_source_def)
  ultimately show ?thesis
    by (simp add: reserve_tx_def free lease_source_def Let_def inst print insert_instance_def in_key_def insert_source_def
        lease_busy_def row spec flip: second_row_def)
qed

lemma second_prepares:
  "\<exists>j1. prepare_tx second_request (\<lambda>s. s) ''v'' ''arm_v'' ''o'' 2 sample_anchor second_reserved = Some (Commit j1 None)"
proof -
  have s: "source_at second_reserved (''fs'', ''a'') = Some second_source" "ss_lease_owner second_source = Some ''o''"
    "ss_lease_generation second_source = 2" "ss_last_local_sequence second_source = 1"
    by (simp_all add: source_at_def second_reserved_def second_source_def leased_row_def ss_key_def committed_source_def
        new_source_def)
  have row: "arm_with_id second_reserved ''arm_v'' = Some second_row" "ar_preparer_token second_row = Some ''o''"
    by (simp_all add: arm_with_id_def second_reserved_def) (simp_all add: second_row_def preparing_row_def sample_arm_row_def)
  have uuid: "journal_uuid second_reserved = Some ''u''"
    by (simp add: journal_uuid_def second_reserved_def sample_received_def sample_journal_def)
  have after: "an_local_after_sequence (effective_anchor sample_anchor second_source) = 1"
    by (simp add: effective_anchor_def s sample_anchor_def)
  have wake: "ar_wake_id second_row = ''v''" by (simp add: second_row_def preparing_row_def)
  have "j_meta second_reserved \<noteq> None" by (simp add: second_reserved_def sample_received_def sample_journal_def)
  with prepare_commits [OF _ s(2,3) row(1) wake row(2)] s(1) after show ?thesis by simp
qed

text \<open>The same registration after the lease of the first one has run out.\<close>

lemma second_takes_over:
  "\<exists>j. reserve_tx second_request ''o'' (datetime_of 40) (datetime_of 70) sample_reserved
     = Some (Commit j (ReservedLease ''v'' ''arm_v'' 2))"
proof -
  let ?s = "leased_row ''o'' 1 (format_time (datetime_of 30)) (new_source (''fs'', ''a''))"
  let ?row = "preparing_row sample_request ''w'' ''arm_w'' ''o'' (format_time (datetime_of 30)) 1"
  have rows: "ar_wake_id ?row = ''w''" "ar_arm_id ?row = ''arm_w''" "ar_idempotency_key ?row = ''k''"
    by (simp_all add: preparing_row_def)
  have arms: "j_arms sample_reserved = [?row]" by (simp add: sample_reserved_def)
  have free: "arm_keyed sample_reserved ''k2'' = None" by (simp add: arm_keyed_def arms rows)
  have inst: "instance_at sample_reserved (''fs'', ''a'') = Some sample_instance"
    by (simp add: instance_at_def sample_reserved_def in_key_def sample_instance_def)
  have print: "in_contract_fingerprint sample_instance = fingerprint sample_contract_json" by (simp add: sample_instance_def)
  have src: "source_at sample_reserved (''fs'', ''a'') = Some ?s"
    by (simp add: source_at_def sample_reserved_def ss_key_def leased_row_def new_source_def)
  have idle: "lease_busy ?s (datetime_of 40) = Some None" "ss_lease_generation ?s = 1"
    by (simp_all add: lease_busy_def leased_row_def less_datetime_def micros_datetime_of)
  have spec: "scalar_num (rq_contract_version sample_spec) = Some 1" by (simp add: sample_spec_def)
  let ?new = "preparing_row second_request ''v'' ''arm_v'' ''o'' (format_time (datetime_of 70)) 1"
  have new: "ar_contract_version ?new = 1" "ar_arm_id ?new = ''arm_v''" "ar_wake_id ?new = ''v''"
    "ar_idempotency_key ?new = ''k2''" "ar_source ?new = ''fs''" "ar_source_instance ?new = ''a''"
    by (simp_all add: preparing_row_def sample_spec_def)
  have "insert_arm ?new (update_source P f sample_reserved) \<noteq> None" for P f
    using inst rows by (simp add: insert_arm_def new arm_with_id_def arm_of_def arm_keyed_def update_source_def arms instance_at_def)
  then obtain j where "insert_arm ?new (update_source (\<lambda>r. ss_key r = (''fs'', ''a''))
      (leased_row ''o'' 2 (format_time (datetime_of 70))) sample_reserved) = Some j" by blast
  then show ?thesis
    by (simp add: reserve_tx_def free lease_source_def Let_def inst print insert_instance_def in_key_def insert_source_def
        src idle spec)
qed

text \<open>The first registration, prepared and not yet published, as \<open>arm\<close> finds it.\<close>

lemma unpublished_is_prepared: "w_journal unpublished_world = sample_prepared"
  by (simp add: unpublished_world_def sample_prepared_def sample_journal_def)
    (simp add: sample_arm_row_def prepared_row_def preparing_row_def sample_anchor_def, simp add: sample_request_def sample_spec_def sample_time_def)

lemma sample_arms_again:
  assumes "arm_keyed (w_journal wd) ''k'' = Some row" and "ar_intent_fingerprint row = ''f''"
    and "ar_state row = Prepared \<or> ar_state row = Published"
  shows "arm sample_env w sample_spec sample_context wd = complete_registration_publication sample_env (ar_wake_id row) wd"
proof -
  have fields: "ac_idempotency_key sample_context = ''k''" "ac_intent_fingerprint sample_context = ''f''"
      "ad_contract (ac_adapter sample_context) = Some sample_contract"
    by (simp_all add: sample_context_def sample_adapter_def)
  have valid: "validate_signal sample_spec sample_contract = None"
    by (simp add: validate_signal_def valid_occurrence_order_def sample_spec_def sample_contract_def)
  obtain payload where payload: "contract_payload sample_contract = Some payload"
    by (simp add: contract_payload_def sample_contract_def)
  obtain u where "add_seconds (datetime_of 2) 30 = Some u"
    by (simp add: add_seconds_def Let_def micros_datetime_of)
  then show ?thesis
    using assms fields valid payload by (intro arm_again [where t = "datetime_of 2"]) (simp_all add: sample_env_def)
qed

lemma sample_quiet: "quiet_arm sample_env sample_spec sample_context"
proof -
  have "ad_contract (ac_adapter sample_context) = Some sample_contract" by (simp add: sample_context_def sample_adapter_def)
  moreover have "validate_signal sample_spec sample_contract = None"
    by (simp add: validate_signal_def valid_occurrence_order_def sample_spec_def sample_contract_def)
  moreover have "contract_payload sample_contract \<noteq> None" by (simp add: contract_payload_def sample_contract_def)
  moreover have "en_clock sample_env 0 = Some (datetime_of 2)" "add_seconds (datetime_of 2) (en_lease_seconds sample_env) \<noteq> None"
    by (simp_all add: sample_env_def add_seconds_def Let_def micros_datetime_of)
  ultimately show ?thesis using sample_undisturbed unfolding quiet_arm_def by blast
qed

section \<open>Properties\<close>

text \<open>C11. A wake is never fired by what happened before it was armed: once a registration is prepared, a receipt
  of its source instance that was there before is behind the progress of the wake in every later journal,
  and so is no candidate of any of its evaluations, whatever anchor the adapter answered.\<close>

theorem no_match_from_before_arming:
  assumes "reachable j" and "prepare_tx q resolve w arm_id owner g anchor j = Some (Commit j1 failed)"
    and "arm_with_id j arm_id = Some row" and "ar_wake_id row = w" and "later j1 j2"
    and "r \<in> set (j_receipts j)" and "(rc_source r, rc_source_instance r) = aq_key q"
  shows "\<exists>p. progress_of j2 w = Some p \<and> rc_local_sequence r \<le> pg_scanned_through_sequence p
    \<and> (\<forall>durable. r \<notin> set (candidate_rows (am_spec durable) (scan_start durable p) j2))"
proof -
  have books: "stages_ok j" "receipts_counted j" using reachable_books [OF assms(1)] by (simp_all add: books_def)
  obtain s at where s: "source_at j (aq_key q) = Some s" and free: "w \<notin> scanned_wakes j"
    and progress: "j_progress j1 = j_progress j @ [\<lparr>pg_wake_id = w,
        pg_scanned_through_sequence = an_local_after_sequence (effective_anchor anchor s), pg_revision = 0, pg_updated_at = at\<rparr>]"
    using prepare_effect [OF assms(2-4) books(1)] by blast
  have seen: "rc_local_sequence r \<le> an_local_after_sequence (effective_anchor anchor s)"
    using books(2) assms(6,7) s unfolding receipts_counted_def by (fastforce simp: effective_anchor_def)
  have "progress_of j1 w = Some \<lparr>pg_wake_id = w,
      pg_scanned_through_sequence = an_local_after_sequence (effective_anchor anchor s), pg_revision = 0, pg_updated_at = at\<rparr>"
    using free progress_of_None [of j w] by (simp add: progress_of_def progress find_append)
  moreover have "progress_grows j1 j2"
    using progressing.later_rel [OF assms(5)] prepare_tx_ok [OF assms(2) reachable_schema_ok [OF assms(1)]] .
  ultimately obtain p where "progress_of j2 w = Some p"
    "an_local_after_sequence (effective_anchor anchor s) \<le> pg_scanned_through_sequence p"
    unfolding progress_grows_def by fastforce
  then show ?thesis using seen by (intro exI [of _ p]) (auto simp: candidate_rows_set scan_start_def)
qed

lemma no_match_from_before_arming_witness:
  "\<exists>j p. progress_of j ''v'' = Some p \<and> (\<forall>durable. sample_receipt \<notin> set (candidate_rows (am_spec durable) (scan_start durable p) j))"
proof -
  have j: "reachable second_reserved"
    using reachable_later [OF sample_reachable(3) later_one [OF transaction.reserve [OF second_reserves]]] .
  obtain j1 where run: "prepare_tx second_request (\<lambda>s. s) ''v'' ''arm_v'' ''o'' 2 sample_anchor second_reserved = Some (Commit j1 None)"
    using second_prepares by blast
  have row: "arm_with_id second_reserved ''arm_v'' = Some second_row" "ar_wake_id second_row = ''v''"
    by (simp_all add: arm_with_id_def second_reserved_def) (simp_all add: second_row_def preparing_row_def sample_arm_row_def)
  have r: "sample_receipt \<in> set (j_receipts second_reserved)" by (simp add: second_reserved_def sample_received_def)
  have k: "(rc_source sample_receipt, rc_source_instance sample_receipt) = aq_key second_request"
    by (simp add: sample_receipt_def receipt_row_of_def sample_observation_def)
  show ?thesis using no_match_from_before_arming [OF j run row later.same r k] by blast
qed

text \<open>C12. A lease that was taken over is lost for good: when a source is leased for a registration and later leased
  again, for whatever registration, the first lease can neither prepare its registration, in any journal that can come after, nor
  give back the lease of the other.\<close>

theorem superseded_lease_is_lost:
  assumes "schema_ok j" and "reserve_tx q owner t u j = Some (Commit j1 (ReservedLease w arm_id g))" and "later j1 j2"
    and "reserve_tx q' owner' t' u' j2 = Some (Commit j3 r)" and "aq_key q' = aq_key q" and "later j3 j4"
  shows "prepare_tx q resolve w arm_id owner g anchor j4 = Some (Rollback (Some (degraded_at (Some w) ''SOURCE_LEASE_LOST'' None)))
    \<and> source_at (best_effort_release_preparation flt arm_id (aq_key q) owner g j4) (aq_key q) = source_at j4 (aq_key q)"
proof -
  have ok: "schema_ok j1" "schema_ok j2" "schema_ok j3"
    using reserved.commit_keeps assms(1-4) later_schema_ok by blast+
  obtain s1 where s1: "source_at j1 (aq_key q) = Some s1" "ss_lease_generation s1 = g"
    using reserve_grows [OF assms(2,1)] by auto
  then obtain s2 where s2: "source_at j2 (aq_key q) = Some s2" "g \<le> ss_lease_generation s2"
    using growing.later_rel [OF assms(3) ok(1)] unfolding sources_grow_def source_grows_def by blast
  then obtain s3 where s3: "source_at j3 (aq_key q) = Some s3" "g < ss_lease_generation s3"
    using reserve_grows [OF assms(4) ok(2)] assms(5) by fastforce
  then obtain s4 where s4: "source_at j4 (aq_key q) = Some s4" "g < ss_lease_generation s4"
    using growing.later_rel [OF assms(6) ok(3)] unfolding sources_grow_def source_grows_def by fastforce
  have "prepare_tx q resolve w arm_id owner g anchor j4 = Some (Rollback (Some (degraded_at (Some w) ''SOURCE_LEASE_LOST'' None)))"
    using s4 by (auto simp: prepare_tx_def Let_def split: option.split)
  moreover have "source_at (update_source (\<lambda>r. ss_key r = aq_key q \<and> ss_lease_owner r = Some owner \<and> ss_lease_generation r = g)
      (\<lambda>r. r\<lparr>ss_lease_owner := None, ss_lease_expires_at := None\<rparr>) (update_arm P f j4)) (aq_key q) = source_at j4 (aq_key q)" for P f
    using s4 unleasing.source_found [of _ "update_arm P f j4" "aq_key q"] by (simp add: source_at_def update_arm_def)
  then have "source_at (best_effort_release_preparation flt arm_id (aq_key q) owner g j4) (aq_key q) = source_at j4 (aq_key q)"
    by (simp add: best_effort_release_preparation_def release_preparation_def run_tx_def release_preparation_tx_def)
  ultimately show ?thesis ..
qed


lemma superseded_lease_is_lost_witness:
  "\<exists>j. prepare_tx sample_request (\<lambda>s. s) ''w'' ''arm_w'' ''o'' 1 sample_anchor j
     = Some (Rollback (Some (degraded_at (Some ''w'') ''SOURCE_LEASE_LOST'' None)))"
proof -
  obtain j where "reserve_tx second_request ''o'' (datetime_of 40) (datetime_of 70) sample_reserved
      = Some (Commit j (ReservedLease ''v'' ''arm_v'' 2))"
    using second_takes_over by blast
  from superseded_lease_is_lost [OF fresh_schema_ok sample_reserves later.same this _ later.same] show ?thesis by auto
qed

text \<open>C10. Arming is idempotent, whatever comes between.  Once \<open>arm\<close> has answered a registration, take a later call under
  the same idempotency key.  When its intent is another, it is refused and changes neither the journal nor a file.  When its
  intent is the same, it never answers any other registration; on a quiet call it answers that very one as long as it still stands, and it
  answers \<open>REGISTRATION_RETIRED\<close>, changing nothing, once it was retired.  The first call leaves the registration
  standing, so that a quiet repeat right after it answers the same.\<close>

theorem arming_is_idempotent:
  assumes "reachable (w_journal wd)" and "arm e w spec context wd = (Ok x, wd1)"
    and "later (w_journal wd1) (w_journal wd2)" and "arm e' w' spec' context' wd2 = (a, wd3)"
    and "ac_idempotency_key context' = ac_idempotency_key context"
  shows "still_armed (ac_idempotency_key context) wd1
    \<and> (\<exists>row. arm_keyed (w_journal wd2) (ac_idempotency_key context) = Some row
        \<and> (if ac_intent_fingerprint context' \<noteq> ac_intent_fingerprint context then wd3 = wd2 \<and> (\<forall>y. a \<noteq> Ok y)
           else (\<forall>y. a = Ok y \<longrightarrow> y = x)
             \<and> (quiet_arm e' spec' context' \<and> still_armed (ac_idempotency_key context) wd2 \<longrightarrow> a = Ok x)
             \<and> (quiet_arm e' spec' context' \<and> ar_state row = Tombstoned \<longrightarrow> wd3 = wd2
                 \<and> a = invalid_as (Some (am_wake_id x)) ''REGISTRATION_RETIRED'' ''registration is no longer active'')))"
proof -
  let ?k = "ac_idempotency_key context"
  have ok: "schema_ok (w_journal wd)" using reachable_schema_ok [OF assms(1)] .
  have r1: "reachable (w_journal wd1)" using reachable_later [OF assms(1) arm_later [OF assms(2) ok]] .
  have r2: "reachable (w_journal wd2)" using reachable_later [OF r1 assms(3)] .
  note ok1 = reachable_schema_ok [OF r1] and ok2 = reachable_schema_ok [OF r2]
  obtain row where row: "arm_keyed (w_journal wd1) ?k = Some row" "ar_intent_fingerprint row = ac_intent_fingerprint context"
      "ar_state row = Published" "armed_from_row row = Some x"
      "\<exists>wd0. complete_registration_publication e (ar_wake_id row) wd0 = (Ok x, wd1)"
    using arm_Ok [OF assms(2) ok] by blast
  have stands: "still_armed ?k wd1" using answered_stands [OF _ row(1,3)] row(5) by blast
  have mem: "row \<in> set (j_arms (w_journal wd1))" "ar_idempotency_key row = ?k"
    using row(1) by (auto simp: arm_keyed_def dest: find_SomeD)
  have at: "arm_of (w_journal wd1) (ar_wake_id row) = Some row"
    using find_key [of ar_wake_id "j_arms (w_journal wd1)" row] ok1 mem(1) by (simp add: schema_ok_def arms_ok_def arm_of_def)
  obtain row2 where row2: "arm_of (w_journal wd2) (ar_wake_id row) = Some row2" "arm_keyed (w_journal wd2) ?k = Some row2"
      "arm_promise row2 = arm_promise row"
    using row_lookup [OF memory.later_rel [OF assms(3) ok1] ok2 mem(1)] mem(2) by auto
  have ids: "ar_intent_fingerprint row2 = ac_intent_fingerprint context" "ar_wake_id row2 = ar_wake_id row" "am_wake_id x = ar_wake_id row"
    using row2(3) row(2,4) by (auto simp: arm_promise_def arm_columns_def armed_from_row_def split: Option.bind_splits)
  show ?thesis
  proof (cases "ac_intent_fingerprint context' = ac_intent_fingerprint context")
    case True
    have same: "y = x" if y: "a = Ok y" for y
    proof -
      have past: "later (w_journal wd1) (w_journal wd3)"
        using later_trans [OF arm_later [OF assms(4) ok2] assms(3)] .
      note ok3 = later_schema_ok [OF past ok1]
      obtain row' where row': "arm_keyed (w_journal wd3) ?k = Some row'" "ar_state row' = Published" "armed_from_row row' = Some y"
        using arm_Ok [OF assms(4) [unfolded y] ok2] assms(5) by auto
      obtain same: "arm_of (w_journal wd3) (ar_wake_id row) = Some row'" "arm_promise row' = arm_promise row"
        using row_lookup [OF memory.later_rel [OF past ok1] ok3 mem(1)] row'(1) mem(2) by auto
      have "watch (w_journal wd3) (ar_wake_id row) = Some (am_spec x, am_anchor x)"
        using later_watch [OF r1 past] at row(4) by (simp add: watch_def subscription_def)
      then have "am_spec y = am_spec x" "am_anchor y = am_anchor x" using same(1) row'(3) by (simp_all add: watch_def subscription_def)
      then show ?thesis using same(2) row(3,4) row'(2,3) by (intro armed_same [of row x row' y]) auto
    qed
    have "watch (w_journal wd2) (ar_wake_id row) = Some (am_spec x, am_anchor x)"
      using later_watch [OF r1 assms(3)] at row(4) by (simp add: watch_def subscription_def)
    then obtain x2 where x2: "armed_from_row row2 = Some x2" using row2(1) by (auto simp: watch_def subscription_def)
    have "a = Ok x" if quiet: "quiet_arm e' spec' context'" "still_armed ?k wd2"
    proof -
      obtain y wd4 where "arm e' w' spec' context' wd2 = (Ok y, wd4)"
        using quiet_arm_answers [OF _ x2, of wd2 context' e' spec' w'] row2(1,2) ids True assms(5) quiet by auto
      then show ?thesis using assms(4) same by simp
    qed
    moreover have "wd3 = wd2 \<and> a = invalid_as (Some (am_wake_id x)) ''REGISTRATION_RETIRED'' ''registration is no longer active''"
      if quiet: "quiet_arm e' spec' context'" and retired: "ar_state row2 = Tombstoned"
    proof -
      have "arm_keyed (w_journal wd2) (ac_idempotency_key context') = Some row2"
        "ar_intent_fingerprint row2 = ac_intent_fingerprint context'"
        using row2(2) ids(1) True assms(5) by simp_all
      from arm_retired [OF this retired quiet, of w'] show ?thesis using assms(4) ids(2,3) by auto
    qed
    ultimately have "(\<forall>y. a = Ok y \<longrightarrow> y = x) \<and> (quiet_arm e' spec' context' \<and> still_armed ?k wd2 \<longrightarrow> a = Ok x)
        \<and> (quiet_arm e' spec' context' \<and> ar_state row2 = Tombstoned \<longrightarrow> wd3 = wd2
             \<and> a = invalid_as (Some (am_wake_id x)) ''REGISTRATION_RETIRED'' ''registration is no longer active'')"
      using same by blast
    then show ?thesis by (intro conjI stands exI [of _ row2] row2(2)) (subst if_not_P, simp add: True)
  next
    case False
    then have "wd3 = wd2 \<and> (\<forall>y. a \<noteq> Ok y)"
      using arm_conflict [OF _ _ assms(4), of row2] row2(2) ids assms(5) by auto
    then show ?thesis using False by (intro conjI stands exI [of _ row2] row2(2)) simp
  qed
qed


lemma arming_is_idempotent_witness:
  "\<exists>wd1 wd2. arm sample_env ''w'' sample_spec sample_context unpublished_world = (Ok sample_armed, wd1)
     \<and> still_armed ''k'' wd1 \<and> quiet_arm sample_env sample_spec sample_context
     \<and> arm sample_env ''x'' sample_spec sample_context wd1 = (Ok sample_armed, wd2)"
proof -
  have reach: "reachable (w_journal unpublished_world)" by (simp add: unpublished_is_prepared sample_reachable(1))
  obtain row where row: "arm_keyed (w_journal unpublished_world) ''k'' = Some row" "ar_intent_fingerprint row = ''f''"
    "ar_state row = Prepared" "ar_wake_id row = ''w''"
    by (simp add: unpublished_world_def arm_keyed_def) (simp add: sample_arm_row_def)
  obtain wd1 where one: "complete_registration_publication sample_env ''w'' unpublished_world = (Ok sample_armed, wd1)"
    using undisturbed_registration [OF sample_awaiting sample_undisturbed] by blast
  then have arm1: "arm sample_env ''w'' sample_spec sample_context unpublished_world = (Ok sample_armed, wd1)"
    using sample_arms_again row by simp
  obtain row1 where "arm_keyed (w_journal wd1) (ac_idempotency_key sample_context) = Some row1"
    "ar_intent_fingerprint row1 = ac_intent_fingerprint sample_context" "ar_state row1 = Published" "armed_from_row row1 = Some sample_armed"
    using arm_Ok [OF arm1 reachable_schema_ok [OF reach]] by blast
  then have row1: "arm_keyed (w_journal wd1) ''k'' = Some row1" "ar_intent_fingerprint row1 = ''f''" "ar_state row1 = Published"
    "ar_wake_id row1 = ''w''"
    by (auto simp: sample_context_def sample_armed_def armed_from_row_def split: Option.bind_splits)
  obtain wd2 where "complete_registration_publication sample_env ''w'' wd1 = (Ok sample_armed, wd2)"
    using undisturbed_registration [OF awaiting_kept [OF sample_awaiting one] sample_undisturbed] by blast
  then have arm2: "arm sample_env ''x'' sample_spec sample_context wd1 = (Ok sample_armed, wd2)"
    using sample_arms_again row1 by simp
  from arming_is_idempotent [OF reach arm1 later.same arm2 refl] have "still_armed ''k'' wd1" by (simp add: sample_context_def)
  then show ?thesis using arm1 arm2 sample_quiet by blast
qed

end
