(* ===== verification/Retirement.thy ===== *)
theory Retirement
  imports Registrations
begin

text \<open>
  The end of a registration (\<open>retire_terminal_record\<close> and \<open>expire_unreserved\<close> of \<open>SQLiteSignalModule\<close>,
  \<open>src/src/codex_wake/signal_store.py\<close>) over whole histories: what was prepared and then ended is never published,
  loaded or fired again, and every tombstone is that of an arm.
\<close>

declare split_paired_All [simp del] split_paired_Ex [simp del]

section \<open>A tombstone names an arm\<close>

lemma tombstones_of_arms_mono:
  assumes "tombstones_of_arms j" and "j_tombstones j' = j_tombstones j"
    and "arm_promise ` set (j_arms j) \<subseteq> arm_promise ` set (j_arms j')"
  shows "tombstones_of_arms j'"
  unfolding tombstones_of_arms_def
proof
  fix t assume "t \<in> set (j_tombstones j')"
  then obtain a where a: "a \<in> set (j_arms j)" "ar_idempotency_key a = tb_idempotency_key t" "ar_wake_id a = tb_wake_id t"
    using assms(1,2) unfolding tombstones_of_arms_def by auto
  then have "arm_promise a \<in> arm_promise ` set (j_arms j')" using assms(3) by blast
  then obtain a' where "a' \<in> set (j_arms j')" "arm_promise a' = arm_promise a" by (auto elim!: imageE)
  then show "\<exists>a\<in>set (j_arms j'). ar_idempotency_key a = tb_idempotency_key t \<and> ar_wake_id a = tb_wake_id t"
    using a by (auto simp: arm_promise_def arm_columns_def)
qed

lemma ends_tombstones:
  assumes "ends w j j'" and "tombstones_of_arms j"
  shows "tombstones_of_arms j'"
  unfolding tombstones_of_arms_def
proof
  fix t assume "t \<in> set (j_tombstones j')"
  then have "tombstone_columns t \<in> tombstone_columns ` set (j_tombstones j)
      \<or> (\<exists>a\<in>set (j_arms j). ar_idempotency_key a = tb_idempotency_key t \<and> ar_wake_id a = tb_wake_id t)"
    using assms(1) by (simp add: ends_def)
  then obtain a where a: "a \<in> set (j_arms j)" "ar_idempotency_key a = tb_idempotency_key t" "ar_wake_id a = tb_wake_id t"
    using assms(2) unfolding tombstones_of_arms_def by (fastforce simp: tombstone_columns_def)
  have "(if ar_wake_id a = w then tombstoned_row a else a) \<in> set (j_arms j')"
    using a(1) assms(1) by (simp add: ends_def set_update_where)
  then show "\<exists>a\<in>set (j_arms j'). ar_idempotency_key a = tb_idempotency_key t \<and> ar_wake_id a = tb_wake_id t"
    by (rule bexI [rotated]) (use a(2,3) in \<open>simp add: tombstoning.same_ids\<close>)
qed

text \<open>All other transactions leave the tombstones alone.\<close>

lemma transaction_tombstones:
  assumes "transaction j j'"
  shows "j_tombstones j' = j_tombstones j \<or> (\<exists>w. ends w j j')"
  using assms
proof cases
  case (reserve q owner t u r)
  from reserve_frame [OF this] show ?thesis by simp
next
  case (release arm_id k owner g b)
  from release_frame [OF this] show ?thesis by simp
next
  case (prepare q resolve w arm_id owner g anchor p row)
  from prepare_frame [OF prepare(1)] show ?thesis by simp
next
  case (block w code clock u)
  from publication_frame(1) [OF this] show ?thesis by simp
next
  case (publish w cap clock a)
  from publication_frame(2) [OF this] show ?thesis by simp
next
  case (publish_match w n sha cap clock d)
  from publication_frame(3) [OF this] show ?thesis by simp
next
  case (ingest commit obs clock ig)
  from ingest_frame [OF this(2)] show ?thesis by simp
next
  case (evaluate w armed now limits e)
  from evaluate_frame [OF this] show ?thesis by simp
next
  case (unpin w reasons at c)
  from unpin_frame [OF this] show ?thesis by auto
next
  case (compact through lim co)
  from compact_frame [OF this] show ?thesis by (simp add: other_tables_def)
next
  case (retire w status arm_id uuid revision now t)
  from retire_frame [OF this] show ?thesis by blast
next
  case (expire w now x)
  from expire_frame [OF this] show ?thesis by blast
qed

interpretation tombstoned: journal_invariant tombstones_of_arms
proof unfold_locales
  show "tombstones_of_arms (fresh_journal uuid now)" for uuid now
    by (simp add: tombstones_of_arms_def fresh_journal_def empty_journal_def)
  fix j j' assume step: "transaction j j'" and ok: "schema_ok j" and had: "tombstones_of_arms j"
  then have "arm_promise ` set (j_arms j) \<subseteq> arm_promise ` set (j_arms j')"
    using memory.transaction_rel by (simp add: remembers_def)
  then show "tombstones_of_arms j'"
    using transaction_tombstones [OF step] tombstones_of_arms_mono [OF had] ends_tombstones [OF _ had] by blast
qed

section \<open>What was prepared and ended stays ended\<close>

definition closed :: "journal \<Rightarrow> string \<Rightarrow> bool" where
  "closed j w \<longleftrightarrow> w \<in> scanned_wakes j \<and> map_option ar_state (arm_of j w) = Some Tombstoned"

text \<open>How a transaction may change the arms without opening a closed one.\<close>

lemma arms_same: "j_arms j' = j_arms j \<Longrightarrow> arm_of j' = arm_of j"
  by (simp add: arm_of_def fun_eq_iff)

lemma arms_appended: "j_arms j' = j_arms j @ [r] \<Longrightarrow> arm_of j w = Some row \<Longrightarrow> arm_of j' w = Some row"
  by (simp add: arm_of_def find_append)

lemma arms_updated:
  assumes "arm_update upd" and "j_arms j' = update_where P upd (j_arms j)" and "closed j w"
    and "\<And>r. r \<in> set (j_arms j) \<Longrightarrow> P r \<Longrightarrow> ar_wake_id r \<in> scanned_wakes j \<Longrightarrow> ar_state r = Tombstoned \<Longrightarrow> ar_state (upd r) = Tombstoned"
  shows "map_option ar_state (arm_of j' w) = Some Tombstoned"
proof -
  obtain row where row: "arm_of j w = Some row" "ar_state row = Tombstoned" "w \<in> scanned_wakes j"
    using assms(3) by (auto simp: closed_def)
  then have "row \<in> set (j_arms j)" "ar_wake_id row = w" by (auto simp: arm_of_def dest: find_SomeD)
  moreover have "arm_of j' w = arm_of (update_arm P upd j) w" by (simp add: arm_of_def update_arm_def assms(2))
  ultimately show ?thesis using row assms(4) [of row] by (simp add: arm_update.arm_found [OF assms(1)])
qed

lemma transaction_closed:
  assumes step: "transaction j j'" and ok: "schema_ok j" and stages: "stages_ok j" and closed: "closed j w"
  shows "closed j' w"
proof -
  have "w \<in> scanned_wakes j'"
    using progressing.transaction_rel [OF step ok] closed progress_of_None [of j w] progress_of_None [of j' w]
    unfolding progress_grows_def closed_def by fastforce
  moreover have "map_option ar_state (arm_of j' w) = Some Tombstoned"
    using step
  proof cases
    case (reserve q owner t u r)
    show ?thesis
      using reserve_arms [OF reserve]
    proof (elim disjE exE conjE bexE)
      fix v arm_id version assume "j_arms j' = j_arms j @ [preparing_row q v arm_id owner (format_time u) version]"
      from arms_appended [OF this] show ?thesis using closed by (auto simp: closed_def)
    next
      fix row assume row: "row \<in> set (j_arms j)" "ar_state row = Preparing"
        and arms: "j_arms j' = update_where (\<lambda>r. ar_arm_id r = ar_arm_id row) (prepare_again owner (format_time u)) (j_arms j)"
      show ?thesis
        by (rule arms_updated [OF preparing_again.arm_update_axioms arms closed]) (simp add: prepare_again_def)
    qed
  next
    case (release arm_id k owner g b)
    have "j_arms j' = update_where (\<lambda>r. ar_arm_id r = arm_id \<and> ar_preparer_token r = Some owner)
        (\<lambda>r. r\<lparr>ar_preparer_token := None, ar_preparation_expires_at := None\<rparr>) (j_arms j)"
      unfolding release_steps [OF release] by (simp add: update_source_def update_arm_def)
    from arms_updated [OF unpreparing.arm_update_axioms this closed] show ?thesis by simp
  next
    case (prepare q resolve v arm_id owner g anchor p row)
    obtain s at where free: "v \<notin> scanned_wakes j"
      and arms: "j_arms j' = update_where (\<lambda>r. ar_arm_id r = arm_id) (prepared_row (effective_anchor anchor s) at) (j_arms j)"
      using prepare_effect [OF prepare stages] by blast
    have mem: "row \<in> set (j_arms j)" "ar_arm_id row = arm_id" using prepare(2) by (auto simp: arm_with_id_def dest: find_SomeD)
    show ?thesis
    proof (rule arms_updated [OF preparing.arm_update_axioms arms closed])
      fix r assume "r \<in> set (j_arms j)" "ar_arm_id r = arm_id" "ar_wake_id r \<in> scanned_wakes j"
      then show "ar_state (prepared_row (effective_anchor anchor s) at r) = Tombstoned"
        using member_by_id(1) [OF ok _ mem(1)] mem(2) free prepare(3) by auto
    qed
  next
    case (publish v cap clock a)
    obtain row where row: "arm_of j v = Some row" "ar_state row = Prepared \<or> ar_state row = Published"
      using publish by (auto simp: publish_tx_def Let_def split: option.splits if_splits Option.bind_splits)
    obtain at where arms: "j_arms j' = update_where (\<lambda>r. ar_wake_id r = v) (published_row at) (j_arms j)"
      using publication_frame(2) [OF publish] by blast
    have mem: "row \<in> set (j_arms j)" "ar_wake_id row = v" using row(1) by (auto simp: arm_of_def dest: find_SomeD)
    show ?thesis
    proof (rule arms_updated [OF publishing.arm_update_axioms arms closed])
      fix r assume "r \<in> set (j_arms j)" "ar_wake_id r = v" "ar_state r = Tombstoned"
      then show "ar_state (published_row at r) = Tombstoned"
        using member_by_id(2) [OF ok _ mem(1)] mem(2) row(2) by auto
    qed
  next
    case (retire v status arm_id uuid revision now t)
    have "j_arms j' = update_where (\<lambda>r. ar_wake_id r = v) tombstoned_row (j_arms j)" using retire_frame [OF retire] by (simp add: ends_def)
    from arms_updated [OF tombstoning.arm_update_axioms this closed] show ?thesis by (simp add: tombstoned_row_def)
  next
    case (expire v now x)
    have "j_arms j' = update_where (\<lambda>r. ar_wake_id r = v) tombstoned_row (j_arms j)" using expire_frame [OF expire] by (simp add: ends_def)
    from arms_updated [OF tombstoning.arm_update_axioms this closed] show ?thesis by (simp add: tombstoned_row_def)
  next
    case (block v code clock u)
    from publication_frame(1) [OF this] show ?thesis using closed arms_same [of j' j] by (simp add: closed_def)
  next
    case (publish_match v n sha cap clock d)
    from publication_frame(3) [OF this] show ?thesis using closed arms_same [of j' j] by (simp add: closed_def)
  next
    case (ingest commit obs clock ig)
    from ingest_frame [OF this(2)] show ?thesis using closed arms_same [of j' j] by (simp add: closed_def)
  next
    case (evaluate v armed now limits e)
    from evaluate_frame [OF this] show ?thesis using closed arms_same [of j' j] by (simp add: closed_def)
  next
    case (unpin v reasons at c)
    from unpin_frame [OF this] show ?thesis using closed arms_same [of j' j] by (auto simp: closed_def)
  next
    case (compact through lim co)
    from compact_frame [OF this] show ?thesis using closed arms_same [of j' j] by (simp add: closed_def other_tables_def)
  qed
  ultimately show ?thesis by (simp add: closed_def)
qed

definition keeps_closed :: "journal \<Rightarrow> journal \<Rightarrow> bool" where
  "keeps_closed j j' \<longleftrightarrow> (books j \<longrightarrow> books j' \<and> (\<forall>w. closed j w \<longrightarrow> closed j' w))"

interpretation closing: journal_order keeps_closed
proof unfold_locales
  fix j j' j''
  show "keeps_closed j j" by (simp add: keeps_closed_def)
  show "keeps_closed j j' \<Longrightarrow> keeps_closed j' j'' \<Longrightarrow> keeps_closed j j''" unfolding keeps_closed_def by blast
  show "transaction j j' \<Longrightarrow> schema_ok j \<Longrightarrow> keeps_closed j j'"
    unfolding keeps_closed_def using transaction_closed bookkeeping.transaction_holds by (auto simp: books_def)
qed

lemma later_closed: "reachable j \<Longrightarrow> later j j' \<Longrightarrow> closed j w \<Longrightarrow> closed j' w"
  using closing.later_rel reachable_schema_ok reachable_books unfolding keeps_closed_def by blast

lemma tombstone_lookup:
  assumes "remembers j j'" and "tombstone_of j w \<noteq> None"
  shows "tombstone_of j' w \<noteq> None"
proof -
  obtain t where t: "t \<in> set (j_tombstones j)" "tb_wake_id t = w"
    using assms(2) by (auto simp: tombstone_of_def dest: find_SomeD)
  have "tombstone_columns t \<in> tombstone_columns ` set (j_tombstones j')" using t(1) assms(1) unfolding remembers_def by blast
  then obtain t' where "t' \<in> set (j_tombstones j')" "tombstone_columns t' = tombstone_columns t" by (auto elim!: imageE)
  then show ?thesis
    using t(2) find_NoneD [of "\<lambda>r. tb_wake_id r = w" "j_tombstones j'" t'] by (auto simp: tombstone_of_def tombstone_columns_def)
qed

text \<open>Nothing of a closed registration is published, loaded, authorised or evaluated.\<close>

lemma closed_is_silent:
  assumes "closed j w"
  shows "registration_ticket w j \<noteq> Some (TicketPublish t sha)" "registration_ticket w j \<noteq> Some (TicketAnswer (Ok x))"
    "firing_authority w n j = None" "load_armed_signal flt w j = None"
    "jget r ''id'' = JStr w \<Longrightarrow> authorize_firing_record flt (JObj r) j \<noteq> Some True"
    "expire_tx w now j = Some (Rollback (Ok False))"
proof -
  obtain row where row: "arm_of j w = Some row" "ar_state row = Tombstoned" using assms by (auto simp: closed_def)
  show "registration_ticket w j \<noteq> Some (TicketPublish t sha)" "registration_ticket w j \<noteq> Some (TicketAnswer (Ok x))"
    "firing_authority w n j = None" "load_armed_signal flt w j = None" "expire_tx w now j = Some (Rollback (Ok False))"
    using row by (auto simp: registration_ticket_def firing_authority_def load_armed_signal_def run_read_def expire_tx_def may_expire_def
        split: option.splits if_splits)
  show "jget r ''id'' = JStr w \<Longrightarrow> authorize_firing_record flt (JObj r) j \<noteq> Some True"
    using not_authorized_if_tombstoned [OF row] .
qed


section \<open>Properties\<close>

text \<open>C13. An end is final: once a prepared registration is tombstoned, then in every later journal, whatever
  arming, publication, evaluation and recovery are tried on it, it is still tombstoned, no publication
  of its registration or of its match does anything, no evaluation of it answers, it is not loaded as armed, and
  no record of it is authorised to fire.\<close>

theorem retired_stays_retired:
  assumes "reachable j" and "retired j w" and "progress_of j w \<noteq> None" and "later j (w_journal wd)"
  shows "retired (w_journal wd) w
    \<and> (\<exists>d. complete_match_publication e w n wd = (Inl d, wd))
    \<and> (\<exists>a. complete_registration_publication e w wd = (a, wd) \<and> (\<forall>x. a \<noteq> Ok x))
    \<and> (\<forall>x. fst (evaluate e w armed now limits (w_journal wd)) \<noteq> Ok x)
    \<and> load_armed_signal flt w (w_journal wd) = None
    \<and> (\<forall>r. jget r ''id'' = JStr w \<longrightarrow> authorize_firing_record flt (JObj r) (w_journal wd) \<noteq> Some True)"
proof -
  have "closed j w" using assms(2,3) progress_of_None [of j w] by (auto simp: closed_def retired_def)
  then have closed: "closed (w_journal wd) w" by (rule later_closed [OF assms(1,4)])
  note silent = closed_is_silent [OF closed]
  have "tombstone_of (w_journal wd) w \<noteq> None"
    using tombstone_lookup [OF memory.later_rel [OF assms(4) reachable_schema_ok [OF assms(1)]]] assms(2) by (simp add: retired_def)
  then have one: "retired (w_journal wd) w" using closed by (simp add: closed_def retired_def)
  have two: "\<exists>d. complete_match_publication e w n wd = (Inl d, wd)"
    using silent(3) [of n]
    by (auto simp: complete_match_publication_def run_read_def match_ticket_def split: option.split)
  have "run_read f (TicketAnswer (degraded_at (Some w) c None)) (registration_ticket w) (w_journal wd) \<noteq> TicketPublish t sha"
    "run_read f (TicketAnswer (degraded_at (Some w) c None)) (registration_ticket w) (w_journal wd) \<noteq> TicketAnswer (Ok x)" for f c t sha x
    using silent(1,2) by (auto simp: run_read_def split: option.splits)
  then have three: "\<exists>a. complete_registration_publication e w wd = (a, wd) \<and> (\<forall>x. a \<noteq> Ok x)"
    by (auto simp: complete_registration_publication_def split: option.split ticket.split)
  have "evaluate_tx w armed now limits (w_journal wd) = Some (Commit j2 r) \<or> evaluate_tx w armed now limits (w_journal wd) = Some (Rollback r)
      \<Longrightarrow> r \<noteq> Ok x" for j2 r x
    using closed by (auto simp: closed_def evaluate_tx_def armed_from_row_def split: option.splits Option.bind_splits if_splits)
  then have four: "\<forall>x. fst (evaluate e w armed now limits (w_journal wd)) \<noteq> Ok x"
    by (auto simp: evaluate_def run_tx_def split: option.split ending.split)
  show ?thesis using one two three four silent(4,5) by blast
qed

lemma retired_stays_retired_witness:
  "\<exists>v wd w. retire_terminal_record sample_env v (datetime_of 9) sample_world = (Some (Ok True), wd)
     \<and> (\<exists>d. complete_match_publication sample_env w 2 wd = (Inl d, wd))"
proof -
  obtain v wd where run: "retire_terminal_record sample_env v (datetime_of 9) sample_world = (Some (Ok True), wd)"
    using sample_retire by blast
  obtain r w status revision where "retire_tx w status (jget r ''arm_id'') (jget r ''journal_uuid'') revision (datetime_of 9)
      (w_journal sample_world) = Some (Commit (w_journal wd) (Ok True))"
    using retire_Ok [OF run] by blast
  from retire_tx_commit [OF this] obtain row j2 where row: "arm_of sample_received w = Some row"
    and up: "upsert_tombstone True (tombstone_row_of row status (format_time (datetime_of 9)))
        (update_arm (\<lambda>r. ar_wake_id r = w) tombstoned_row sample_received) = Some j2"
    and j': "w_journal wd = end_registration w (terminal_life status revision (format_time (datetime_of 9))) (format_time (datetime_of 9)) j2"
    by (auto simp: sample_world_def)
  have w: "w = ''w''"
    using row by (auto simp: arm_of_def sample_received_def sample_journal_def sample_arm_row_def split: if_splits)
  have "retired (w_journal wd) w" using ended [OF sample_received_ok sample_tombstones row up j'] by blast
  moreover have reach: "later sample_received (w_journal wd)" using retire_later [OF run] by (simp add: sample_world_def)
  moreover have "progress_of sample_received w \<noteq> None"
    by (simp add: w progress_of_def sample_received_def sample_journal_def)
  then have "progress_of (w_journal wd) w \<noteq> None"
    using progressing.later_rel [OF reach sample_received_ok] unfolding progress_grows_def by fastforce
  ultimately show ?thesis
    using retired_stays_retired [OF reachable_later [OF sample_reachable(3) reach] _ _ later.same, of w] run by blast
qed

end
