(* ===== verification/LockedFile.thy ===== *)
theory LockedFile
  imports JsonRound
begin

text \<open>
  A private JSON file under an advisory lock, the durable store of the small ledgers: each call takes the lock without
  waiting, reads and validates the file, lets the caller compute the next state, and replaces the file in one step.
  A marker file tells a lost state from a first use.  What the operating system answers in one call (whether a path is
  owned and private, whether a write is lost before or after the rename) is a record passed to the call.
\<close>

section \<open>The folder and one call\<close>

datatype failure =
    Refused string
  | Escaped

type_synonym 'a attempt = "failure + 'a"

datatype write_fault = Written | LostBefore | LostAfter

record folder =
  fo_held :: bool
  fo_text :: "string option"
  fo_marker :: bool

record call_env =
  ce_lock :: "failure option"
  ce_file :: "failure option"
  ce_marker :: "failure option"
  ce_marker_made :: bool
  ce_first :: write_fault
  ce_last :: write_fault

text \<open>What differs between the ledgers: the code of a busy lock, and the state with its text.\<close>

record 's file_format =
  ff_busy :: string
  ff_decode :: "string \<Rightarrow> 's option"
  ff_encode :: "'s \<Rightarrow> string"
  ff_empty :: 's

definition max_bytes :: nat where
  "max_bytes = 4 * 1024 * 1024"

definition publish_text :: "write_fault \<Rightarrow> string \<Rightarrow> folder \<Rightarrow> unit attempt \<times> folder" where
  "publish_text fault body f =
     (if utf8_len body > int max_bytes then (Inl (Refused ''store_full''), f)
      else case fault of
             LostBefore \<Rightarrow> (Inl Escaped, f)
           | LostAfter \<Rightarrow> (Inl Escaped, f\<lparr>fo_text := Some body\<rparr>)
           | Written \<Rightarrow> (Inr (), f\<lparr>fo_text := Some body\<rparr>))"

definition ensure_marker :: "call_env \<Rightarrow> folder \<Rightarrow> unit attempt \<times> folder" where
  "ensure_marker env f =
     (if \<not> fo_marker f \<and> \<not> ce_marker_made env then (Inl Escaped, f)
      else case ce_marker env of
             Some e \<Rightarrow> (Inl e, f\<lparr>fo_marker := True\<rparr>)
           | None \<Rightarrow> (Inr (), f\<lparr>fo_marker := True\<rparr>))"

text \<open>At most one character more than the limit is read.\<close>

definition read_state :: "'s file_format \<Rightarrow> string \<Rightarrow> 's option" where
  "read_state ff t = ff_decode ff (take (Suc max_bytes) t)"

text \<open>From the lock to the state the caller sees.\<close>

definition opened :: "'s file_format \<Rightarrow> call_env \<Rightarrow> folder \<Rightarrow> 's attempt \<times> folder" where
  "opened ff env f =
     (case ce_lock env of
        Some e \<Rightarrow> (Inl e, f)
      | None \<Rightarrow>
          if fo_held f then (Inl (Refused (ff_busy ff)), f)
          else case fo_text f of
                 Some t \<Rightarrow>
                   (case ce_file env of
                      Some e \<Rightarrow> (Inl e, f)
                    | None \<Rightarrow>
                        (case read_state ff t of
                           None \<Rightarrow> (Inl (Refused ''store_unavailable''), f)
                         | Some s \<Rightarrow>
                             (case ensure_marker env f of
                                (Inl e, f') \<Rightarrow> (Inl e, f')
                              | (Inr _, f') \<Rightarrow> (Inr s, f'))))
               | None \<Rightarrow>
                   if fo_marker f then (Inl (Refused ''store_unavailable''), f)
                   else (case ensure_marker env f of
                           (Inl e, f') \<Rightarrow> (Inl e, f')
                         | (Inr _, f') \<Rightarrow>
                             (case publish_text (ce_first env) (ff_encode ff (ff_empty ff)) f' of
                                (Inl e, f'') \<Rightarrow> (Inl e, f'')
                              | (Inr _, f'') \<Rightarrow> (Inr (ff_empty ff), f''))))"

text \<open>The body gets the state, and returns an answer with the next state or raises; an exception publishes nothing.\<close>

definition transaction ::
  "'s file_format \<Rightarrow> bool \<Rightarrow> call_env \<Rightarrow> ('s \<Rightarrow> ('a \<times> 's) attempt) \<Rightarrow> folder \<Rightarrow> 'a attempt \<times> folder"
where
  "transaction ff writes env body f =
     (case opened ff env f of
        (Inl e, f') \<Rightarrow> (Inl e, f')
      | (Inr s, f') \<Rightarrow>
          (case body s of
             Inl e \<Rightarrow> (Inl e, f')
           | Inr (x, s') \<Rightarrow>
               if writes then
                 (case publish_text (ce_last env) (ff_encode ff s') f' of
                    (Inl e, f'') \<Rightarrow> (Inl e, f'')
                  | (Inr _, f'') \<Rightarrow> (Inr x, f''))
               else (Inr x, f')))"

text \<open>A transaction that stays open while its caller works: it holds the lock until it is left.\<close>

definition enter_guard :: "'s file_format \<Rightarrow> call_env \<Rightarrow> ('s \<Rightarrow> 'a attempt) \<Rightarrow> folder \<Rightarrow> 'a attempt \<times> folder" where
  "enter_guard ff env body f =
     (case opened ff env f of
        (Inl e, f') \<Rightarrow> (Inl e, f')
      | (Inr s, f') \<Rightarrow>
          (case body s of
             Inl e \<Rightarrow> (Inl e, f')
           | Inr x \<Rightarrow> (Inr x, f'\<lparr>fo_held := True\<rparr>)))"

definition leave_guard :: "folder \<Rightarrow> folder" where
  "leave_guard f = f\<lparr>fo_held := False\<rparr>"

text \<open>The state a folder records; a folder without a file is the one of the first use.\<close>

definition current :: "'s file_format \<Rightarrow> folder \<Rightarrow> 's option" where
  "current ff f = (case fo_text f of None \<Rightarrow> Some (ff_empty ff) | Some t \<Rightarrow> read_state ff t)"

definition clear_call :: "call_env \<Rightarrow> bool" where
  "clear_call env = (ce_lock env = None \<and> ce_file env = None \<and> ce_marker env = None \<and> ce_marker_made env
     \<and> ce_first env = Written \<and> ce_last env = Written)"

section \<open>Calls that fail\<close>

lemma opened_shape:
  assumes "opened ff env f = (r, f')"
  shows "(f' = f \<or> f' = f\<lparr>fo_marker := True\<rparr>)
    \<or> fo_text f = None \<and> (\<exists>r'. publish_text (ce_first env) (ff_encode ff (ff_empty ff)) (f\<lparr>fo_marker := True\<rparr>) = (r', f'))"
  using assms
  by (auto simp: opened_def ensure_marker_def split: option.splits if_splits prod.splits sum.splits)

text \<open>A call that fails before its last rename leaves the text, and may only have written the state of the first use.\<close>

definition same_text :: "'s file_format \<Rightarrow> folder \<Rightarrow> folder \<Rightarrow> bool" where
  "same_text ff f f' = (fo_text f' = fo_text f \<or> fo_text f = None \<and> fo_text f' = Some (ff_encode ff (ff_empty ff)))"

lemma opened_same_text: "opened ff env f = (r, f') \<Longrightarrow> same_text ff f f'"
  by (drule opened_shape) (auto simp: same_text_def publish_text_def split: if_splits write_fault.splits)

lemma same_text_refl [simp]: "same_text ff f f"
  by (simp add: same_text_def)

lemma transaction_same_text:
  assumes "transaction ff writes env body f = (r, f')" "isl r \<or> \<not> writes" "ce_last env \<noteq> LostAfter"
  shows "same_text ff f f'"
proof -
  obtain r1 g where op: "opened ff env f = (r1, g)" by (cases "opened ff env f")
  have "fo_text f' = fo_text g"
    using assms op
    by (auto simp: transaction_def publish_text_def split: sum.splits prod.splits if_splits write_fault.splits)
  then show ?thesis using opened_same_text [OF op] by (simp add: same_text_def)
qed

lemma enter_guard_same_text:
  assumes "enter_guard ff env body f = (r, f')"
  shows "same_text ff f f'"
proof -
  obtain r1 g where op: "opened ff env f = (r1, g)" by (cases "opened ff env f")
  have "fo_text f' = fo_text g"
    using assms op by (auto simp: enter_guard_def split: sum.splits prod.splits)
  then show ?thesis using opened_same_text [OF op] by (simp add: same_text_def)
qed

text \<open>An unreadable text is refused and kept.\<close>

lemma unreadable_opened:
  assumes "current ff f = None"
  shows "\<exists>e. opened ff env f = (Inl e, f)"
  using assms by (auto simp: opened_def current_def split: option.splits)

lemma unreadable_transaction: "current ff f = None \<Longrightarrow> \<exists>e. transaction ff writes env body f = (Inl e, f)"
  using unreadable_opened [of ff f env] by (auto simp: transaction_def)

lemma unreadable_guard: "current ff f = None \<Longrightarrow> \<exists>e. enter_guard ff env body f = (Inl e, f)"
  using unreadable_opened [of ff f env] by (auto simp: enter_guard_def)

text \<open>A lock that is held refuses every call.\<close>

lemma held_opened: "fo_held f \<Longrightarrow> \<exists>e. opened ff env f = (Inl e, f)"
  by (cases "ce_lock env") (simp_all add: opened_def)

lemma held_transaction: "fo_held f \<Longrightarrow> \<exists>e. transaction ff writes env body f = (Inl e, f)"
  using held_opened [of f ff env] by (auto simp: transaction_def)

lemma held_guard: "fo_held f \<Longrightarrow> \<exists>e. enter_guard ff env body f = (Inl e, f)"
  using held_opened [of f ff env] by (auto simp: enter_guard_def)

section \<open>The contract of a format\<close>

text \<open>
  A ledger's text is read back: \<open>norm\<close> is what reading makes of a state (the order of keys in its objects).
\<close>

locale ledger_format =
  fixes ff :: "'s file_format" and ok :: "'s \<Rightarrow> bool" and norm :: "'s \<Rightarrow> 's"
  assumes decode_encode: "ok s \<Longrightarrow> utf8_len (ff_encode ff s) \<le> int max_bytes \<Longrightarrow> ff_decode ff (ff_encode ff s) = Some (norm s)"
    and ok_norm: "ok s \<Longrightarrow> ok (norm s)"
    and encode_norm: "ok s \<Longrightarrow> ff_encode ff (norm s) = ff_encode ff s"
    and ok_empty: "ok (ff_empty ff)"
    and norm_empty: "norm (ff_empty ff) = ff_empty ff"
    and fits_empty: "utf8_len (ff_encode ff (ff_empty ff)) \<le> int max_bytes"
begin

lemma length_le_utf8: "int (length s) \<le> utf8_len s"
  by (induction s) (auto simp: utf8_len_def utf8_def utf8_char_def)

lemma read_encode:
  assumes "ok s" "utf8_len (ff_encode ff s) \<le> int max_bytes"
  shows "read_state ff (ff_encode ff s) = Some (norm s)"
proof -
  have "length (ff_encode ff s) \<le> Suc max_bytes"
    using length_le_utf8 [of "ff_encode ff s"] assms(2) by linarith
  then show ?thesis using assms by (simp add: read_state_def decode_encode)
qed

text \<open>The folders that only the ledger itself has written.\<close>

definition sound :: "folder \<Rightarrow> bool" where
  "sound f = (\<forall>t. fo_text f = Some t \<longrightarrow> (\<exists>s. ok s \<and> t = ff_encode ff s \<and> utf8_len t \<le> int max_bytes))"

lemma soundE:
  assumes "sound f"
  obtains "fo_text f = None" "current ff f = Some (ff_empty ff)"
  | s where "ok s" "fo_text f = Some (ff_encode ff s)" "utf8_len (ff_encode ff s) \<le> int max_bytes"
      "current ff f = Some (norm s)" "read_state ff (ff_encode ff s) = Some (norm s)"
  using assms by (cases "fo_text f") (auto simp: sound_def current_def read_encode)

lemma sound_current:
  assumes "sound f"
  obtains s where "current ff f = Some s" "ok s"
  using assms by (rule soundE) (auto intro: that ok_norm ok_empty)

lemma sound_marker [simp]: "sound (f\<lparr>fo_marker := b\<rparr>) = sound f" "sound (f\<lparr>fo_held := b\<rparr>) = sound f"
  by (simp_all add: sound_def)

lemma current_marker [simp]: "current ff (f\<lparr>fo_marker := b\<rparr>) = current ff f" "current ff (f\<lparr>fo_held := b\<rparr>) = current ff f"
  by (simp_all add: current_def)

lemma publish_Inr:
  assumes "publish_text fault (ff_encode ff s) f = (Inr u, f')" "ok s"
  shows "sound f'" "current ff f' = Some (norm s)" "fo_held f' = fo_held f"
    "utf8_len (ff_encode ff s) \<le> int max_bytes" "fo_text f' = Some (ff_encode ff s)" "fo_marker f' = fo_marker f"
  using assms
  by (auto simp: publish_text_def sound_def current_def read_encode split: if_splits write_fault.splits)

lemma publish_Inl:
  assumes "publish_text fault (ff_encode ff s) f = (Inl e, f')" "ok s" "sound f"
  shows "sound f'" "fo_held f' = fo_held f" "fo_marker f' = fo_marker f"
    "current ff f' = current ff f \<or> fault = LostAfter \<and> current ff f' = Some (norm s)"
    "fo_text f' = fo_text f \<or> fault = LostAfter"
  using assms
  by (auto simp: publish_text_def sound_def current_def read_encode split: if_splits write_fault.splits)

lemma ensure_marker_folder: "ensure_marker env f = (r, f') \<Longrightarrow> f' = f \<or> f' = f\<lparr>fo_marker := True\<rparr>"
  by (auto simp: ensure_marker_def split: if_splits option.splits)

text \<open>Opening changes nothing that is recorded.\<close>

lemma publish_empty:
  assumes "publish_text fault (ff_encode ff (ff_empty ff)) f = (r, f')" "fo_text f = None"
  shows "sound f'" "current ff f' = current ff f" "fo_held f' = fo_held f"
    "fo_text f' = None \<or> fo_text f' = Some (ff_encode ff (ff_empty ff))"
  using assms ok_empty fits_empty read_encode [OF ok_empty fits_empty]
  by (auto simp: publish_text_def sound_def current_def norm_empty split: if_splits write_fault.splits)

lemma opened_keeps:
  assumes s: "sound f" and op: "opened ff env f = (r, f')"
  shows "sound f'" "current ff f' = current ff f" "fo_held f' = fo_held f"
    "fo_text f' = fo_text f \<or> fo_text f = None \<and> fo_text f' = Some (ff_encode ff (ff_empty ff))"
proof -
  from opened_shape [OF op] consider "f' = f" | "f' = f\<lparr>fo_marker := True\<rparr>"
    | r' where "fo_text f = None"
      "publish_text (ce_first env) (ff_encode ff (ff_empty ff)) (f\<lparr>fo_marker := True\<rparr>) = (r', f')"
    by blast
  then have "sound f' \<and> current ff f' = current ff f \<and> fo_held f' = fo_held f
      \<and> (fo_text f' = fo_text f \<or> fo_text f = None \<and> fo_text f' = Some (ff_encode ff (ff_empty ff)))"
  proof cases
    case 3
    then show ?thesis using publish_empty [OF 3(2)] by auto
  qed (use s in simp_all)
  then show "sound f'" "current ff f' = current ff f" "fo_held f' = fo_held f"
    "fo_text f' = fo_text f \<or> fo_text f = None \<and> fo_text f' = Some (ff_encode ff (ff_empty ff))"
    by auto
qed

lemma opened_Inr:
  assumes "sound f" "opened ff env f = (Inr s, f')"
  shows "current ff f = Some s" "ok s" "\<not> fo_held f"
proof -
  have "current ff f = Some s \<and> \<not> fo_held f"
    using assms(2) by (auto simp: opened_def current_def split: option.splits if_splits prod.splits sum.splits)
  then show "current ff f = Some s" "\<not> fo_held f" by auto
  then show "ok s" using assms(1) by (auto elim: sound_current)
qed

text \<open>
  What a transaction can do: it changes what is recorded only to the state its body computed from it, and then it
  answered what the body answered or the write was lost after the rename.
\<close>

lemma transaction_effect:
  assumes s: "sound f" and tr: "transaction ff writes env body f = (r, f')"
    and body: "\<forall>s x s'. current ff f = Some s \<longrightarrow> ok s \<longrightarrow> body s = Inr (x, s') \<longrightarrow> ok s'"
  shows "sound f'" "fo_held f' = fo_held f"
    "(current ff f' = current ff f \<and> (isl r \<or> \<not> writes))
     \<or> (\<exists>st x st'. current ff f = Some st \<and> ok st \<and> body st = Inr (x, st') \<and> writes
          \<and> current ff f' = Some (norm st') \<and> \<not> fo_held f \<and> (r = Inr x \<or> isl r \<and> ce_last env = LostAfter))"
proof -
  obtain r1 g where op: "opened ff env f = (r1, g)" by (cases "opened ff env f")
  note keep = opened_keeps [OF s op]
  have "sound f' \<and> fo_held f' = fo_held f \<and>
    ((current ff f' = current ff f \<and> (isl r \<or> \<not> writes))
     \<or> (\<exists>st x st'. current ff f = Some st \<and> ok st \<and> body st = Inr (x, st') \<and> writes
          \<and> current ff f' = Some (norm st') \<and> \<not> fo_held f \<and> (r = Inr x \<or> isl r \<and> ce_last env = LostAfter)))"
  proof (cases r1)
    case (Inl e)
    then show ?thesis using tr op keep by (auto simp: transaction_def)
  next
    case (Inr st)
    note o = opened_Inr [OF s op [unfolded Inr]]
    show ?thesis
    proof (cases "body st")
      case (Inl e)
      then show ?thesis using tr op keep Inr by (auto simp: transaction_def)
    next
      case bd: (Inr p)
      obtain x st' where p: "p = (x, st')" by (cases p)
      have ok': "ok st'" using body o(1,2) bd p by blast
      show ?thesis
      proof (cases writes)
        case False
        then show ?thesis using tr op keep Inr bd p by (auto simp: transaction_def)
      next
        case True
        obtain r2 h where pub: "publish_text (ce_last env) (ff_encode ff st') g = (r2, h)"
          by (cases "publish_text (ce_last env) (ff_encode ff st') g")
        show ?thesis
        proof (cases r2)
          case r2: (Inl e)
          then have "r = Inl e" "f' = h" using tr op Inr bd p True pub by (simp_all add: transaction_def)
          then show ?thesis using publish_Inl [OF pub [unfolded r2] ok' keep(1)] keep o True bd p by auto
        next
          case r2: (Inr u)
          then have "r = Inr x" "f' = h" using tr op Inr bd p True pub by (simp_all add: transaction_def)
          then show ?thesis using publish_Inr [OF pub [unfolded r2] ok'] keep o True bd p by auto
        qed
      qed
    qed
  qed
  then show "sound f'" "fo_held f' = fo_held f"
    "(current ff f' = current ff f \<and> (isl r \<or> \<not> writes))
     \<or> (\<exists>st x st'. current ff f = Some st \<and> ok st \<and> body st = Inr (x, st') \<and> writes
          \<and> current ff f' = Some (norm st') \<and> \<not> fo_held f \<and> (r = Inr x \<or> isl r \<and> ce_last env = LostAfter))"
    by auto
qed

lemma enter_guard_effect:
  assumes s: "sound f" and en: "enter_guard ff env body f = (r, f')"
  shows "sound f'" "current ff f' = current ff f"
    "(isl r \<and> fo_held f' = fo_held f)
     \<or> (\<exists>st x. current ff f = Some st \<and> ok st \<and> body st = Inr x \<and> r = Inr x \<and> \<not> fo_held f \<and> fo_held f')"
proof -
  obtain r1 g where op: "opened ff env f = (r1, g)" by (cases "opened ff env f")
  note keep = opened_keeps [OF s op]
  have "sound f' \<and> current ff f' = current ff f \<and> ((isl r \<and> fo_held f' = fo_held f)
     \<or> (\<exists>st x. current ff f = Some st \<and> ok st \<and> body st = Inr x \<and> r = Inr x \<and> \<not> fo_held f \<and> fo_held f'))"
  proof (cases r1)
    case (Inl e)
    then show ?thesis using en op keep by (auto simp: enter_guard_def)
  next
    case (Inr st)
    note o = opened_Inr [OF s op [unfolded Inr]]
    show ?thesis
    proof (cases "body st")
      case (Inl e)
      then have "r = Inl e" "f' = g" using en op Inr by (auto simp: enter_guard_def)
      then show ?thesis using keep by simp
    next
      case bd: (Inr x)
      then have "r = Inr x" "f' = g\<lparr>fo_held := True\<rparr>" using en op Inr by (auto simp: enter_guard_def)
      then show ?thesis using keep o bd by simp
    qed
  qed
  then show "sound f'" "current ff f' = current ff f"
    "(isl r \<and> fo_held f' = fo_held f)
     \<or> (\<exists>st x. current ff f = Some st \<and> ok st \<and> body st = Inr x \<and> r = Inr x \<and> \<not> fo_held f \<and> fo_held f')"
    by auto
qed

lemma leave_guard_effect: "sound f \<Longrightarrow> sound (leave_guard f)" "current ff (leave_guard f) = current ff f"
  by (simp_all add: leave_guard_def)

text \<open>A call the operating system does not disturb commits what its body computes.\<close>

lemma opened_clear:
  assumes "sound f" "current ff f = Some s" "fo_text f \<noteq> None" "\<not> fo_held f" "clear_call env"
  shows "opened ff env f = (Inr s, f\<lparr>fo_marker := True\<rparr>)"
  using assms by (auto simp: opened_def current_def ensure_marker_def clear_call_def)

lemma transaction_clear:
  assumes "sound f" "current ff f = Some s" "fo_text f \<noteq> None" "\<not> fo_held f" "clear_call env"
    "body s = Inr (x, s')" "utf8_len (ff_encode ff s') \<le> int max_bytes"
  shows "transaction ff True env body f = (Inr x, f\<lparr>fo_marker := True, fo_text := Some (ff_encode ff s')\<rparr>)"
  using opened_clear [OF assms(1-5)] assms(5-7) by (simp add: transaction_def publish_text_def clear_call_def)

lemma enter_guard_clear:
  assumes "sound f" "current ff f = Some s" "fo_text f \<noteq> None" "\<not> fo_held f" "clear_call env" "body s = Inr x"
  shows "enter_guard ff env body f = (Inr x, f\<lparr>fo_marker := True, fo_held := True\<rparr>)"
  using opened_clear [OF assms(1-5)] assms(6) by (simp add: enter_guard_def)

text \<open>An answer to a writing call means that the file is there.\<close>

lemma transaction_Inr:
  assumes "sound f" "transaction ff True env body f = (Inr x, f')"
  obtains s s' where "current ff f = Some s" "ok s" "body s = Inr (x, s')" "fo_text f' = Some (ff_encode ff s')"
    "utf8_len (ff_encode ff s') \<le> int max_bytes" "\<not> fo_held f" "\<not> fo_held f'"
proof -
  obtain r1 g where op: "opened ff env f = (r1, g)" by (cases "opened ff env f")
  then obtain s where r1: "r1 = Inr s" using assms(2) by (cases r1) (simp_all add: transaction_def)
  note o = opened_Inr [OF assms(1) op [unfolded r1]]
  obtain s' where b: "body s = Inr (x, s')"
    and pub: "publish_text (ce_last env) (ff_encode ff s') g = (Inr (), f')"
    using assms(2) op r1 by (auto simp: transaction_def split: sum.splits prod.splits)
  have "fo_text f' = Some (ff_encode ff s')" "utf8_len (ff_encode ff s') \<le> int max_bytes" "fo_held f' = fo_held g"
    using pub by (auto simp: publish_text_def split: if_splits write_fault.splits)
  with o b opened_keeps(3) [OF assms(1) op] show ?thesis by (intro that) auto
qed

text \<open>A body that refuses makes the call fail, and what is recorded stays.\<close>

lemma refused_body:
  assumes s: "sound f" and cur: "current ff f = Some cs" and b: "isl (body cs)"
  shows "isl (fst (transaction ff True env body f)) \<and> current ff (snd (transaction ff True env body f)) = Some cs"
proof -
  obtain r1 g where op: "opened ff env f = (r1, g)" by (cases "opened ff env f")
  note keep = opened_keeps [OF s op]
  show ?thesis
  proof (cases r1)
    case (Inr st)
    then have "st = cs" using opened_Inr(1) [OF s] op cur by simp
    then show ?thesis using b op Inr keep cur by (cases "body cs") (simp_all add: transaction_def)
  qed (use op keep cur in \<open>simp add: transaction_def\<close>)
qed

lemma refused_guard:
  assumes s: "sound f" and cur: "current ff f = Some cs" and b: "isl (body cs)"
  shows "isl (fst (enter_guard ff env body f))"
proof -
  obtain r1 g where op: "opened ff env f = (r1, g)" by (cases "opened ff env f")
  show ?thesis
  proof (cases r1)
    case (Inr st)
    then have "st = cs" using opened_Inr(1) [OF s] op cur by simp
    then show ?thesis using b op Inr by (cases "body cs") (simp_all add: enter_guard_def)
  qed (use op in \<open>simp add: enter_guard_def\<close>)
qed

text \<open>What an answered call of a writing transaction has recorded.\<close>

lemma transaction_answered:
  assumes "sound f" "transaction ff True env body f = (Inr x, f')"
    and "\<forall>s x s'. current ff f = Some s \<longrightarrow> ok s \<longrightarrow> body s = Inr (x, s') \<longrightarrow> ok s'"
  obtains s s' where "current ff f = Some s" "ok s" "body s = Inr (x, s')" "current ff f' = Some (norm s')" "sound f'"
  using transaction_effect [OF assms] by auto

end

end
