(* ===== verification/PyPath.thy ===== *)
theory PyPath
  imports JsonRound "HOL-Library.Sublist"
begin

text \<open>
  \<open>pathlib.PurePosixPath\<close>: a path is its root (nothing, one slash, or exactly two) and its parts.
  Parsing drops empty parts and single dots and keeps \<open>..\<close>.
  What \<open>Path.resolve\<close>, \<open>is_dir\<close> and \<open>stat\<close> answer is the file system's, a parameter of the operations that ask.
\<close>

record pure_path =
  pp_root :: string
  pp_parts :: "string list"

fun split_on :: "char \<Rightarrow> string \<Rightarrow> string list" where
  "split_on c [] = [[]]"
| "split_on c (x # xs) =
     (if x = c then [] # split_on c xs else (x # hd (split_on c xs)) # tl (split_on c xs))"

definition kept_part :: "string \<Rightarrow> bool" where
  "kept_part x = (x \<noteq> [] \<and> x \<noteq> ''.'')"

definition path_root :: "string \<Rightarrow> string" where
  "path_root s =
     (if starts_with ''//'' s \<and> \<not> starts_with ''///'' s then ''//''
      else if starts_with ''/'' s then ''/'' else [])"

definition parse_path :: "string \<Rightarrow> pure_path" where
  "parse_path s = \<lparr>pp_root = path_root s, pp_parts = filter kept_part (split_on CHR ''/'' s)\<rparr>"

definition path_str :: "pure_path \<Rightarrow> string" where
  "path_str p = (if pp_root p = [] \<and> pp_parts p = [] then ''.'' else pp_root p @ join ''/'' (pp_parts p))"

definition is_absolute :: "pure_path \<Rightarrow> bool" where
  "is_absolute p = (pp_root p \<noteq> [])"

definition is_relative_to :: "pure_path \<Rightarrow> pure_path \<Rightarrow> bool" where
  "is_relative_to p q = (pp_root p = pp_root q \<and> prefix (pp_parts q) (pp_parts p))"

text \<open>The file system of one call: \<open>resolve\<close> follows symbolic links and raises for a missing path.\<close>

record file_system =
  fs_resolve :: "pure_path \<Rightarrow> pure_path option"
  fs_is_dir :: "pure_path \<Rightarrow> bool"
  fs_stat :: "pure_path \<Rightarrow> (int \<times> int) option"

section \<open>Facts\<close>

lemma split_on_not_Nil [simp]: "split_on c s \<noteq> []"
  by (cases s) auto

lemma split_on_append: "split_on c (s @ c # t) = split_on c s @ split_on c t"
  by (induction s) (auto simp: tl_append split: list.splits)

lemma split_on_plain: "c \<notin> set s \<Longrightarrow> split_on c s = [s]"
  by (induction s) auto

lemma in_split_on: "x \<in> set (split_on c s) \<Longrightarrow> c \<notin> set x"
proof (induction s arbitrary: x)
  case (Cons y s)
  then show ?case by (cases "split_on c s") (auto split: if_splits)
qed simp

lemma split_on_join:
  "xs \<noteq> [] \<Longrightarrow> \<forall>x\<in>set xs. c \<notin> set x \<Longrightarrow> split_on c (join [c] xs) = xs"
  by (induction "[c]" xs rule: join.induct) (simp_all add: split_on_plain split_on_append [simplified])

text \<open>The paths that parsing gives, and that their text is parsed back.\<close>

definition parsed_path :: "pure_path \<Rightarrow> bool" where
  "parsed_path p = (pp_root p \<in> {[], ''/'', ''//''} \<and> (\<forall>x\<in>set (pp_parts p). kept_part x \<and> CHR ''/'' \<notin> set x))"

lemma parsed_parse_path: "parsed_path (parse_path s)"
  by (auto simp: parsed_path_def parse_path_def path_root_def dest: in_split_on)

lemma split_root:
  "split_on CHR ''/'' (''/'' @ s) = [] # split_on CHR ''/'' s" "split_on CHR ''/'' (''//'' @ s) = [] # [] # split_on CHR ''/'' s"
  by simp_all

lemma filter_split_join:
  assumes "\<forall>x\<in>set xs. kept_part x \<and> CHR ''/'' \<notin> set x"
  shows "filter kept_part (split_on CHR ''/'' (join ''/'' xs)) = xs"
proof (cases "xs = []")
  case True
  then show ?thesis by (simp add: kept_part_def)
next
  case False
  with assms have "split_on CHR ''/'' (join ''/'' xs) = xs" by (intro split_on_join) auto
  with assms show ?thesis by (simp add: filter_id_conv)
qed

lemma join_no_slash:
  assumes "\<forall>x\<in>set xs. kept_part x \<and> CHR ''/'' \<notin> set x"
  shows "\<not> starts_with ''/'' (join ''/'' xs)"
proof (cases xs)
  case (Cons x ys)
  with assms obtain c w where "x = c # w" "c \<noteq> CHR ''/''" by (cases x) (auto simp: kept_part_def)
  with Cons show ?thesis by (cases ys) simp_all
qed simp

lemma parse_path_str:
  assumes "parsed_path p"
  shows "parse_path (path_str p) = p"
proof -
  have parts: "\<forall>x\<in>set (pp_parts p). kept_part x \<and> CHR ''/'' \<notin> set x"
    using assms by (simp add: parsed_path_def)
  note f = filter_split_join [OF parts] and n = join_no_slash [OF parts]
  have n2: "\<not> starts_with (CHR ''/'' # w) (join ''/'' (pp_parts p))" for w
    using n by (cases "join ''/'' (pp_parts p)") auto
  have "pp_root p = [] \<or> pp_root p = ''/'' \<or> pp_root p = ''//''" using assms by (auto simp: parsed_path_def)
  then show ?thesis
  proof (elim disjE)
    assume r: "pp_root p = []"
    show ?thesis
    proof (cases "pp_parts p = []")
      case True
      then show ?thesis using r by (simp add: path_str_def parse_path_def path_root_def kept_part_def)
    next
      case False
      then show ?thesis using r f n n2 by (simp add: path_str_def parse_path_def path_root_def)
    qed
  next
    assume "pp_root p = ''/''"
    then show ?thesis using f n2 by (simp add: path_str_def parse_path_def path_root_def kept_part_def)
  next
    assume "pp_root p = ''//''"
    then show ?thesis using f n2 by (simp add: path_str_def parse_path_def path_root_def kept_part_def)
  qed
qed

lemma is_relative_to_refl [simp]: "is_relative_to p p"
  by (simp add: is_relative_to_def)

end
