(* ===== verification/ResourceClaims.thy ===== *)
theory ResourceClaims
  imports LockedFile PyPath Publisher
begin

text \<open>
  \<open>resource_claims.py\<close>: exclusive cooperative custody of directory trees.  A claim names a directory by its path and
  identity, belongs to one managed process, and carries a generation that every transfer and release increments.
  The claims with their history are the state of a \<^theory_text>\<open>LockedFile\<close> ledger.  Values whose type the code tests at
  run time are JSON values here; a clock reading is a JSON number.
\<close>

section \<open>Data\<close>

record process_binding =
  pb_pid :: int
  pb_start_ticks :: int
  pb_boot_id :: string

record owner =
  ow_managed_agent_id :: string
  ow_root :: string
  ow_process :: process_binding

record resource =
  re_kind :: string
  re_path :: string
  re_device :: int
  re_inode :: int

datatype claim_status = ClaimActive | ClaimReleased

record claim =
  cl_claim_id :: string
  cl_generation :: int
  cl_status :: claim_status
  cl_resource :: resource
  cl_owner :: owner
  cl_history :: "json list"

definition kinds :: "string list" where
  "kinds = [''worktree'', ''build_prefix'', ''install_prefix'']"

text \<open>\<open>re.fullmatch(prefix + '[0-9a-f]{32}', s)\<close>.\<close>

definition is_hex32 :: "string \<Rightarrow> bool" where
  "is_hex32 s = (length s = 32 \<and> list_all (\<lambda>c. 48 \<le> ord c \<and> ord c \<le> 57 \<or> 97 \<le> ord c \<and> ord c \<le> 102) s)"

definition tagged_hex :: "string \<Rightarrow> string \<Rightarrow> bool" where
  "tagged_hex tag s = (starts_with tag s \<and> is_hex32 (drop (length tag) s))"

section \<open>The claimant\<close>

record claimant =
  ca_managed_agent_id :: json
  ca_root :: json
  ca_process :: json
  ca_observed_at :: json

definition process_of :: "json \<Rightarrow> process_binding option" where
  "process_of v =
     (case v of
        JObj d \<Rightarrow>
          if \<not> has_fields [''pid'', ''start_ticks'', ''boot_id''] d then None
          else (case (jget d ''pid'', jget d ''start_ticks'', jget d ''boot_id'') of
                  (JInt p, JInt t, JStr b) \<Rightarrow>
                    if p \<le> 0 \<or> t < 0 \<or> b = [] then None
                    else Some \<lparr>pb_pid = p, pb_start_ticks = t, pb_boot_id = b\<rparr>
                | _ \<Rightarrow> None)
      | _ \<Rightarrow> None)"

definition freshly_observed :: "json \<Rightarrow> json \<Rightarrow> bool" where
  "freshly_observed observed now =
     (case (decimal_of observed, decimal_of now) of
        (Some t, Some n) \<Rightarrow> dec_le t n \<and> dec_le n (dec_add t 30)
      | _ \<Rightarrow> False)"

definition validated :: "claimant \<Rightarrow> json \<Rightarrow> owner option" where
  "validated c now =
     (case (ca_managed_agent_id c, ca_root c, process_of (ca_process c)) of
        (JStr a, JStr r, Some p) \<Rightarrow>
          if \<not> tagged_hex ''agent_'' a \<or> \<not> is_absolute (parse_path r) \<or> \<not> freshly_observed (ca_observed_at c) now then None
          else Some \<lparr>ow_managed_agent_id = a, ow_root = r, ow_process = p\<rparr>
      | _ \<Rightarrow> None)"

definition checked_owner :: "claimant \<Rightarrow> json \<Rightarrow> owner attempt" where
  "checked_owner c now = (case validated c now of None \<Rightarrow> Inl (Refused ''owner_unqualified'') | Some w \<Rightarrow> Inr w)"

section \<open>The directory\<close>

definition resource_at :: "file_system \<Rightarrow> string \<Rightarrow> string \<Rightarrow> resource attempt" where
  "resource_at fs kind path =
     (if kind \<notin> set kinds then Inl (Refused ''invalid_argument'')
      else let p = parse_path path
           in if \<not> is_absolute p then Inl (Refused ''resource_unqualified'')
              else case fs_resolve fs p of
                     None \<Rightarrow> Inl Escaped
                   | Some q \<Rightarrow>
                       if path_str p \<noteq> path_str q \<or> \<not> fs_is_dir fs p then Inl (Refused ''resource_unqualified'')
                       else (case fs_stat fs p of
                               None \<Rightarrow> Inl Escaped
                             | Some (dev, ino) \<Rightarrow>
                                 Inr \<lparr>re_kind = kind, re_path = path_str p, re_device = dev, re_inode = ino\<rparr>))"

section \<open>The file's text\<close>

definition process_json :: "process_binding \<Rightarrow> json" where
  "process_json p = JObj [(''pid'', JInt (pb_pid p)), (''start_ticks'', JInt (pb_start_ticks p)),
     (''boot_id'', JStr (pb_boot_id p))]"

definition owner_json :: "owner \<Rightarrow> json" where
  "owner_json w = JObj [(''managed_agent_id'', JStr (ow_managed_agent_id w)), (''root'', JStr (ow_root w)),
     (''process'', process_json (ow_process w))]"

definition resource_json :: "resource \<Rightarrow> json" where
  "resource_json r = JObj [(''kind'', JStr (re_kind r)), (''path'', JStr (re_path r)),
     (''device'', JInt (re_device r)), (''inode'', JInt (re_inode r))]"

definition status_str :: "claim_status \<Rightarrow> string" where
  "status_str s = (case s of ClaimActive \<Rightarrow> ''active'' | ClaimReleased \<Rightarrow> ''released'')"

definition claim_json :: "claim \<Rightarrow> json" where
  "claim_json c = JObj [(''claim_id'', JStr (cl_claim_id c)), (''generation'', JInt (cl_generation c)),
     (''status'', JStr (status_str (cl_status c))), (''resource'', resource_json (cl_resource c)),
     (''owner'', owner_json (cl_owner c)), (''history'', JArr (cl_history c))]"

definition claims_json :: "claim list \<Rightarrow> json" where
  "claims_json cs = JObj [(''version'', JInt 1), (''claims'', JArr (map claim_json cs))]"

definition claims_text :: "claim list \<Rightarrow> string" where
  "claims_text cs = dumps True (claims_json cs)"

text \<open>Reading: \<open>_validate\<close> on every claim, with the value it admits.\<close>

definition resource_of :: "json \<Rightarrow> resource option" where
  "resource_of v =
     (case v of
        JObj d \<Rightarrow>
          if \<not> has_fields [''kind'', ''path'', ''device'', ''inode''] d then None
          else (case (jget d ''kind'', jget d ''path'', jget d ''device'', jget d ''inode'') of
                  (JStr k, JStr p, JInt dev, JInt ino) \<Rightarrow>
                    if k \<notin> set kinds \<or> \<not> is_absolute (parse_path p) then None
                    else Some \<lparr>re_kind = k, re_path = p, re_device = dev, re_inode = ino\<rparr>
                | _ \<Rightarrow> None)
      | _ \<Rightarrow> None)"

definition owner_of :: "json \<Rightarrow> owner option" where
  "owner_of v =
     (case v of
        JObj d \<Rightarrow>
          if \<not> has_fields [''managed_agent_id'', ''root'', ''process''] d then None
          else validated \<lparr>ca_managed_agent_id = jget d ''managed_agent_id'', ca_root = jget d ''root'',
                  ca_process = jget d ''process'', ca_observed_at = JInt 0\<rparr> (JInt 0)
      | _ \<Rightarrow> None)"

definition status_of :: "json \<Rightarrow> claim_status option" where
  "status_of v =
     (if v = JStr ''active'' then Some ClaimActive
      else if v = JStr ''released'' then Some ClaimReleased else None)"

definition event_fields :: "json \<Rightarrow> string list option" where
  "event_fields v =
     (if v = JStr ''claimed'' then Some [''event'', ''actor'', ''at'']
      else if v = JStr ''released'' then Some [''event'', ''actor'', ''at'', ''reason'', ''generation'']
      else if v = JStr ''transferred'' then
        Some [''event'', ''actor'', ''at'', ''reason'', ''previous_owner'', ''owner'', ''generation'']
      else None)"

definition valid_event :: "json \<Rightarrow> bool" where
  "valid_event v =
     (case v of
        JObj d \<Rightarrow> (case event_fields (jget d ''event'') of None \<Rightarrow> False | Some ks \<Rightarrow> has_fields ks d)
      | _ \<Rightarrow> False)"

definition claim_of :: "json \<Rightarrow> claim option" where
  "claim_of v =
     (case v of
        JObj d \<Rightarrow>
          if \<not> has_fields [''claim_id'', ''generation'', ''status'', ''resource'', ''owner'', ''history''] d then None
          else (case (jget d ''claim_id'', jget d ''generation'', status_of (jget d ''status''),
                      resource_of (jget d ''resource''), owner_of (jget d ''owner''), jget d ''history'') of
                  (JStr i, JInt g, Some st, Some r, Some w, JArr h) \<Rightarrow>
                    if \<not> tagged_hex ''claim_'' i \<or> g < 1 \<or> h = [] \<or> \<not> list_all valid_event h then None
                    else Some \<lparr>cl_claim_id = i, cl_generation = g, cl_status = st, cl_resource = r, cl_owner = w,
                           cl_history = h\<rparr>
                | _ \<Rightarrow> None)
      | _ \<Rightarrow> None)"

definition claims_of :: "string \<Rightarrow> claim list option" where
  "claims_of raw =
     do { v \<leftarrow> loads_unique raw;
          case v of
            JObj d \<Rightarrow>
              if utf8_len raw > int max_bytes \<or> \<not> has_fields [''version'', ''claims''] d
                 \<or> jget d ''version'' \<noteq> JInt 1 then None
              else (case jget d ''claims'' of
                      JArr xs \<Rightarrow> do { cs \<leftarrow> those (map claim_of xs);
                                   if distinct (map cl_claim_id cs) then Some cs else None }
                    | _ \<Rightarrow> None)
          | _ \<Rightarrow> None }"

definition claims_format :: "claim list file_format" where
  "claims_format = \<lparr>ff_busy = ''resource_busy'', ff_decode = claims_of, ff_encode = claims_text, ff_empty = []\<rparr>"

section \<open>The operations\<close>

text \<open>What a call brings: the folder's surroundings, the file system, two clock readings and a random id.\<close>

record claim_env =
  cv_call :: call_env
  cv_fs :: file_system
  cv_now :: json
  cv_later :: json
  cv_uuid :: string

definition find_claim :: "claim list \<Rightarrow> string \<Rightarrow> claim attempt" where
  "find_claim cs i = (case find (\<lambda>c. cl_claim_id c = i) cs of None \<Rightarrow> Inl (Refused ''claim_not_found'') | Some c \<Rightarrow> Inr c)"

definition inspect_all :: "call_env \<Rightarrow> folder \<Rightarrow> claim list attempt \<times> folder" where
  "inspect_all env = transaction claims_format False env (\<lambda>cs. Inr (cs, cs))"

definition inspect_claim :: "call_env \<Rightarrow> string \<Rightarrow> folder \<Rightarrow> claim attempt \<times> folder" where
  "inspect_claim env i =
     transaction claims_format False env (\<lambda>cs. case find_claim cs i of Inl e \<Rightarrow> Inl e | Inr c \<Rightarrow> Inr (c, cs))"

definition overlaps :: "resource \<Rightarrow> resource \<Rightarrow> bool" where
  "overlaps r q =
     (let left = parse_path (re_path r); right = parse_path (re_path q)
      in is_relative_to left right \<or> is_relative_to right left)"

text \<open>The scan of the existing claims: the caller's own claim, a conflict, or none.\<close>

fun custody_scan :: "resource \<Rightarrow> owner \<Rightarrow> claim list \<Rightarrow> claim option attempt" where
  "custody_scan r w [] = Inr None"
| "custody_scan r w (c # cs) =
     (if cl_status c \<noteq> ClaimActive then custody_scan r w cs
      else if overlaps (cl_resource c) r then
        (if cl_resource c = r \<and> cl_owner c = w then Inr (Some c) else Inl (Refused ''resource_conflict''))
      else custody_scan r w cs)"

definition claimed_event :: "owner \<Rightarrow> json \<Rightarrow> json" where
  "claimed_event w at = JObj [(''event'', JStr ''claimed''), (''actor'', JStr (ow_managed_agent_id w)), (''at'', at)]"

definition claim_body :: "claim_env \<Rightarrow> resource \<Rightarrow> owner \<Rightarrow> claim list \<Rightarrow> (claim \<times> claim list) attempt" where
  "claim_body env r w cs =
     (case custody_scan r w cs of
        Inl e \<Rightarrow> Inl e
      | Inr (Some c) \<Rightarrow> Inr (c, cs)
      | Inr None \<Rightarrow>
          let c = \<lparr>cl_claim_id = ''claim_'' @ cv_uuid env, cl_generation = 1, cl_status = ClaimActive,
                   cl_resource = r, cl_owner = w, cl_history = [claimed_event w (cv_later env)]\<rparr>
          in Inr (c, cs @ [c]))"

definition claim_resource :: "claim_env \<Rightarrow> string \<Rightarrow> string \<Rightarrow> claimant \<Rightarrow> folder \<Rightarrow> claim attempt \<times> folder" where
  "claim_resource env kind path who f =
     (case checked_owner who (cv_now env) of
        Inl e \<Rightarrow> (Inl e, f)
      | Inr w \<Rightarrow>
          (case resource_at (cv_fs env) kind path of
             Inl e \<Rightarrow> (Inl e, f)
           | Inr r \<Rightarrow> transaction claims_format True (cv_call env) (claim_body env r w) f))"

definition same_resource :: "file_system \<Rightarrow> claim \<Rightarrow> unit attempt" where
  "same_resource fs c =
     (case resource_at fs (re_kind (cl_resource c)) (re_path (cl_resource c)) of
        Inl e \<Rightarrow> Inl e
      | Inr r \<Rightarrow> if r \<noteq> cl_resource c then Inl (Refused ''resource_changed'') else Inr ())"

definition current_generation :: "claim \<Rightarrow> json \<Rightarrow> bool" where
  "current_generation c generation = (generation = JInt (cl_generation c) \<and> cl_status c = ClaimActive)"

definition check_current :: "claim_env \<Rightarrow> claim \<Rightarrow> json \<Rightarrow> claimant \<Rightarrow> unit attempt" where
  "check_current env c generation who =
     (if \<not> current_generation c generation then Inl (Refused ''stale_generation'')
      else case checked_owner who (cv_now env) of
             Inl e \<Rightarrow> Inl e
           | Inr w \<Rightarrow> if cl_owner c \<noteq> w then Inl (Refused ''owner_changed'') else same_resource (cv_fs env) c)"

definition guard_body :: "claim_env \<Rightarrow> string \<Rightarrow> json \<Rightarrow> claimant \<Rightarrow> claim list \<Rightarrow> claim attempt" where
  "guard_body env i generation who cs =
     (case find_claim cs i of
        Inl e \<Rightarrow> Inl e
      | Inr c \<Rightarrow> (case check_current env c generation who of Inl e \<Rightarrow> Inl e | Inr _ \<Rightarrow> Inr c))"

definition guard_claim :: "claim_env \<Rightarrow> string \<Rightarrow> json \<Rightarrow> claimant \<Rightarrow> folder \<Rightarrow> claim attempt \<times> folder" where
  "guard_claim env i generation who = enter_guard claims_format (cv_call env) (guard_body env i generation who)"

definition check_operator :: "json \<Rightarrow> json \<Rightarrow> unit attempt" where
  "check_operator operator reason =
     (case (operator, reason) of
        (JBool True, JStr s) \<Rightarrow>
          if strip s = [] \<or> 1024 < length s then Inl (Refused ''operator_required'') else Inr ()
      | _ \<Rightarrow> Inl (Refused ''operator_required''))"

text \<open>The claim found is changed in place.\<close>

definition put_claim :: "claim \<Rightarrow> claim list \<Rightarrow> claim list" where
  "put_claim c cs = update_where (\<lambda>x. cl_claim_id x = cl_claim_id c) (\<lambda>_. c) cs"

definition transferred_event :: "json \<Rightarrow> json \<Rightarrow> owner \<Rightarrow> owner \<Rightarrow> int \<Rightarrow> json" where
  "transferred_event at reason previous w g =
     JObj [(''event'', JStr ''transferred''), (''actor'', JStr ''operator:local''), (''at'', at), (''reason'', reason),
       (''previous_owner'', owner_json previous), (''owner'', owner_json w), (''generation'', JInt g)]"

definition transfer_body ::
  "claim_env \<Rightarrow> string \<Rightarrow> json \<Rightarrow> owner \<Rightarrow> json \<Rightarrow> claim list \<Rightarrow> (claim \<times> claim list) attempt" where
  "transfer_body env i generation w reason cs =
     (case find_claim cs i of
        Inl e \<Rightarrow> Inl e
      | Inr c \<Rightarrow>
          if \<not> current_generation c generation then Inl (Refused ''stale_generation'')
          else (case same_resource (cv_fs env) c of
                  Inl e \<Rightarrow> Inl e
                | Inr _ \<Rightarrow>
                    let c' = c\<lparr>cl_owner := w, cl_generation := cl_generation c + 1,
                               cl_history := cl_history c @ [transferred_event (cv_later env) reason (cl_owner c) w
                                 (cl_generation c + 1)]\<rparr>
                    in Inr (c', put_claim c' cs)))"

definition transfer ::
  "claim_env \<Rightarrow> string \<Rightarrow> json \<Rightarrow> claimant \<Rightarrow> json \<Rightarrow> json \<Rightarrow> folder \<Rightarrow> claim attempt \<times> folder" where
  "transfer env i generation who operator reason f =
     (case check_operator operator reason of
        Inl e \<Rightarrow> (Inl e, f)
      | Inr _ \<Rightarrow>
          (case checked_owner who (cv_now env) of
             Inl e \<Rightarrow> (Inl e, f)
           | Inr w \<Rightarrow> transaction claims_format True (cv_call env) (transfer_body env i generation w reason) f))"

definition released_event :: "string \<Rightarrow> json \<Rightarrow> json \<Rightarrow> int \<Rightarrow> json" where
  "released_event actor at reason g =
     JObj [(''event'', JStr ''released''), (''actor'', JStr actor), (''at'', at), (''reason'', reason),
       (''generation'', JInt g)]"

text \<open>Who releases: the operator, or the owner that is verified.\<close>

definition release_actor :: "claim_env \<Rightarrow> claim \<Rightarrow> json \<Rightarrow> claimant option \<Rightarrow> json \<Rightarrow> string attempt" where
  "release_actor env c generation who operator =
     (if truthy operator then
        (if \<not> current_generation c generation then Inl (Refused ''stale_generation'') else Inr ''operator:local'')
      else case who of
             None \<Rightarrow> Inl (Refused ''owner_unqualified'')
           | Some w \<Rightarrow>
               (case check_current env c generation w of
                  Inl e \<Rightarrow> Inl e
                | Inr _ \<Rightarrow> Inr (ow_managed_agent_id (cl_owner c))))"

definition release_body ::
  "claim_env \<Rightarrow> string \<Rightarrow> json \<Rightarrow> claimant option \<Rightarrow> json \<Rightarrow> json \<Rightarrow> claim list \<Rightarrow> (claim \<times> claim list) attempt" where
  "release_body env i generation who operator reason cs =
     (case find_claim cs i of
        Inl e \<Rightarrow> Inl e
      | Inr c \<Rightarrow>
          (case release_actor env c generation who operator of
             Inl e \<Rightarrow> Inl e
           | Inr actor \<Rightarrow>
               let c' = c\<lparr>cl_status := ClaimReleased, cl_generation := cl_generation c + 1,
                          cl_history := cl_history c @ [released_event actor (cv_later env) reason (cl_generation c + 1)]\<rparr>
               in Inr (c', put_claim c' cs)))"

definition release ::
  "claim_env \<Rightarrow> string \<Rightarrow> json \<Rightarrow> claimant option \<Rightarrow> json \<Rightarrow> json \<Rightarrow> folder \<Rightarrow> claim attempt \<times> folder" where
  "release env i generation who operator reason f =
     (if truthy operator \<and> isl (check_operator operator reason) then (Inl (Refused ''operator_required''), f)
      else transaction claims_format True (cv_call env) (release_body env i generation who operator reason) f)"

end
