(* ===== verification/JsonMembers.thy ===== *)
theory JsonMembers
  imports JsonRound
begin

text \<open>The members of an object once its text is read back: the same names, each value with its keys sorted.\<close>

definition sorted_members :: "(string, json) dict \<Rightarrow> (string, json) dict" where
  "sorted_members d = sort_key fst (map (map_prod id sort_json) d)"

lemma sort_json_members: "sort_json (JObj d) = JObj (sorted_members d)"
  by (simp add: sorted_members_def)

lemma jget_members: "distinct (dict_keys d) \<Longrightarrow> jget (sorted_members d) k = sort_json (jget d k)"
proof -
  assume "distinct (dict_keys d)"
  then have "map_of (sorted_members d) = map_of (map (map_prod id sort_json) d)"
    unfolding sorted_members_def by (intro map_of_sort_key) (simp add: comp_def map_prod_def split_def)
  then show ?thesis
    by (simp add: jget_def map_prod_def id_def map_of_map split_def split: option.splits)
       (simp add: map_of_map [unfolded split_def] option.case_eq_if)
qed

lemma keys_sorted: "set (dict_keys (sorted_members d)) = set (dict_keys d)"
  by (force simp: sorted_members_def)

lemma has_fields_sorted: "has_fields ks (sorted_members d) = has_fields ks d"
  using keys_sorted [of d] by (simp add: has_fields_def list_all_iff)

lemma sort_json_jstr: "sort_json v = JStr s \<longleftrightarrow> v = JStr s"
  by (cases v) simp_all

lemma those_each: "(\<And>x. x \<in> set xs \<Longrightarrow> f x = Some (g x)) \<Longrightarrow> those (map f xs) = Some (map g xs)"
  by (induction xs) auto

text \<open>A number, as a clock gives one.\<close>

definition is_reading :: "json \<Rightarrow> bool" where
  "is_reading v = (decimal_of v \<noteq> None)"

lemma reading_wf: "is_reading v \<Longrightarrow> json_wf v"
  by (cases v) (simp_all add: is_reading_def)

end
