(* ===== verification/ClaimsOk.thy ===== *)
theory ClaimsOk
  imports ResourceClaims JsonMembers
begin

text \<open>
  What the ledger of claims keeps: every claim is well formed, no id comes twice, and no two active claims cover
  overlapping directories.  The text of such claims is read back, so the ledger is a \<^theory_text>\<open>ledger_format\<close> and every
  operation keeps it.
\<close>

section \<open>The text is read back\<close>

text \<open>The values of the fields that reading tests.\<close>

definition owner_ok :: "owner \<Rightarrow> bool" where
  "owner_ok w = (tagged_hex ''agent_'' (ow_managed_agent_id w) \<and> is_absolute (parse_path (ow_root w))
     \<and> 0 < pb_pid (ow_process w) \<and> 0 \<le> pb_start_ticks (ow_process w) \<and> pb_boot_id (ow_process w) \<noteq> [])"

definition resource_ok :: "resource \<Rightarrow> bool" where
  "resource_ok r = (re_kind r \<in> set kinds \<and> is_absolute (parse_path (re_path r)))"

definition claim_ok :: "claim \<Rightarrow> bool" where
  "claim_ok c = (tagged_hex ''claim_'' (cl_claim_id c) \<and> 1 \<le> cl_generation c \<and> cl_history c \<noteq> []
     \<and> (\<forall>v\<in>set (cl_history c). valid_event v \<and> json_wf v) \<and> resource_ok (cl_resource c) \<and> owner_ok (cl_owner c))"

lemma process_of_sorted: "process_of (sort_json (process_json p)) =
    (if pb_pid p \<le> 0 \<or> pb_start_ticks p < 0 \<or> pb_boot_id p = [] then None else Some p)"
  by (simp add: process_json_def sort_json_members process_of_def has_fields_sorted jget_members
      del: sort_json.simps(7)) (simp add: jget_def has_fields_def)

lemma owner_of_sorted: "owner_ok w \<Longrightarrow> owner_of (sort_json (owner_json w)) = Some w"
  by (simp add: owner_json_def sort_json_members owner_of_def has_fields_sorted jget_members
      del: sort_json.simps(7))
     (simp add: jget_def has_fields_def validated_def process_of_sorted owner_ok_def freshly_observed_def)

lemma resource_of_sorted: "resource_ok r \<Longrightarrow> resource_of (sort_json (resource_json r)) = Some r"
  by (simp add: resource_json_def sort_json_members resource_of_def has_fields_sorted jget_members
      del: sort_json.simps(7)) (simp add: jget_def has_fields_def resource_ok_def)

lemma status_of_str: "status_of (JStr (status_str s)) = Some s"
  by (cases s) (simp_all add: status_of_def status_str_def)

lemma event_fields_sorted: "event_fields (sort_json v) = event_fields v"
  by (simp add: event_fields_def sort_json_jstr)

lemma valid_event_sorted: "json_wf v \<Longrightarrow> valid_event (sort_json v) = valid_event v"
  by (cases v) (simp_all add: valid_event_def sort_json_members jget_members has_fields_sorted event_fields_sorted
      del: sort_json.simps(7) split: option.split)

definition norm_claim :: "claim \<Rightarrow> claim" where
  "norm_claim c = c\<lparr>cl_history := map sort_json (cl_history c)\<rparr>"

lemma claim_of_sorted:
  assumes "claim_ok c"
  shows "claim_of (sort_json (claim_json c)) = Some (norm_claim c)"
proof -
  have h: "list_all valid_event (map sort_json (cl_history c))"
    using assms by (auto simp: claim_ok_def list_all_iff valid_event_sorted)
  then show ?thesis
    using assms
    by (simp add: claim_json_def sort_json_members claim_of_def has_fields_sorted jget_members del: sort_json.simps(7))
       (simp add: jget_def has_fields_def status_of_str owner_of_sorted resource_of_sorted claim_ok_def norm_claim_def)
qed

lemma json_wf_process: "json_wf (process_json p)"
  by (simp add: process_json_def)

lemma json_wf_owner: "json_wf (owner_json w)"
  by (simp add: owner_json_def json_wf_process)

lemma json_wf_resource: "json_wf (resource_json r)"
  by (simp add: resource_json_def)

lemma json_wf_claim: "claim_ok c \<Longrightarrow> json_wf (claim_json c)"
  by (simp add: claim_json_def json_wf_resource json_wf_owner claim_ok_def)

lemma claims_of_text:
  assumes ok: "\<forall>c\<in>set cs. claim_ok c" and d: "distinct (map cl_claim_id cs)"
    and fits: "utf8_len (claims_text cs) \<le> int max_bytes"
  shows "claims_of (claims_text cs) = Some (map norm_claim cs)"
proof -
  have wf: "json_wf (claims_json cs)" using ok by (simp add: claims_json_def json_wf_claim)
  have l: "loads_unique (claims_text cs) = Some (sort_json (claims_json cs))"
    unfolding claims_text_def using wf by (rule loads_unique_dumps)
  have t: "those (map claim_of (map (\<lambda>c. sort_json (claim_json c)) cs)) = Some (map norm_claim cs)"
    unfolding map_map comp_def using ok by (intro those_each) (simp add: claim_of_sorted)
  have i: "map (cl_claim_id \<circ> norm_claim) cs = map cl_claim_id cs" by (simp add: norm_claim_def)
  show ?thesis
    using fits t d
    by (simp add: claims_of_def l claims_json_def sort_json_members has_fields_sorted jget_members del: sort_json.simps(7))
       (simp add: jget_def has_fields_def comp_def i [unfolded comp_def])
qed

section \<open>The invariant\<close>

definition exclusive :: "claim list \<Rightarrow> bool" where
  "exclusive cs = (\<forall>c\<in>set cs. \<forall>d\<in>set cs. cl_status c = ClaimActive \<longrightarrow> cl_status d = ClaimActive
     \<longrightarrow> overlaps (cl_resource c) (cl_resource d) \<longrightarrow> cl_claim_id c = cl_claim_id d)"

definition ledger_ok :: "claim list \<Rightarrow> bool" where
  "ledger_ok cs = ((\<forall>c\<in>set cs. claim_ok c) \<and> distinct (map cl_claim_id cs) \<and> exclusive cs)"

lemma norm_claim_simps [simp]:
  "cl_claim_id (norm_claim c) = cl_claim_id c" "cl_generation (norm_claim c) = cl_generation c"
  "cl_status (norm_claim c) = cl_status c" "cl_resource (norm_claim c) = cl_resource c"
  "cl_owner (norm_claim c) = cl_owner c" "cl_history (norm_claim c) = map sort_json (cl_history c)"
  by (simp_all add: norm_claim_def)

lemma claim_ok_norm: "claim_ok c \<Longrightarrow> claim_ok (norm_claim c)"
  by (simp add: claim_ok_def valid_event_sorted json_wf_sort_json)

lemma exclusive_norm [simp]: "exclusive (map norm_claim cs) = exclusive cs"
  by (simp add: exclusive_def)

lemma ledger_ok_norm: "ledger_ok cs \<Longrightarrow> ledger_ok (map norm_claim cs)"
  by (simp add: ledger_ok_def claim_ok_norm comp_def)

lemma sort_claim_norm: "sort_json (claim_json (norm_claim c)) = sort_json (claim_json c)"
  by (simp add: claim_json_def)

lemma claims_text_norm: "claims_text (map norm_claim cs) = claims_text cs"
proof -
  have "map (sort_json \<circ> (claim_json \<circ> norm_claim)) cs = map (sort_json \<circ> claim_json) cs"
    by (simp add: sort_claim_norm)
  then have "sort_json (claims_json (map norm_claim cs)) = sort_json (claims_json cs)"
    by (simp add: claims_json_def del: map_eq_conv)
  then show ?thesis by (simp only: claims_text_def dumps_def)
qed

lemma empty_text: "claims_text [] = ''{\"claims\":[],\"version\":1}''"
  by code_simp

interpretation custody: ledger_format claims_format ledger_ok "map norm_claim"
proof
  show "ff_decode claims_format (ff_encode claims_format s) = Some (map norm_claim s)"
    if "ledger_ok s" "utf8_len (ff_encode claims_format s) \<le> int max_bytes" for s
    using that by (simp add: claims_format_def claims_of_text ledger_ok_def)
  show "utf8_len (ff_encode claims_format (ff_empty claims_format)) \<le> int max_bytes"
    by (simp add: claims_format_def empty_text utf8_len_def utf8_def utf8_char_def max_bytes_def)
  show "ledger_ok (map norm_claim s)" if "ledger_ok s" for s using that by (rule ledger_ok_norm)
  show "ledger_ok (ff_empty claims_format)" by (simp add: claims_format_def ledger_ok_def exclusive_def)
qed (simp_all add: claims_format_def claims_text_norm)

section \<open>What the bodies compute\<close>

text \<open>One step of the ledger: a new claim on free ground, or one active claim moved to its next generation.\<close>

definition free_ground :: "resource \<Rightarrow> claim list \<Rightarrow> bool" where
  "free_ground r cs = (\<forall>c\<in>set cs. cl_status c = ClaimActive \<longrightarrow> \<not> overlaps (cl_resource c) r)"

definition acquired :: "claim list \<Rightarrow> claim \<Rightarrow> bool" where
  "acquired cs c = (cl_claim_id c \<notin> cl_claim_id ` set cs \<and> cl_generation c = 1 \<and> cl_status c = ClaimActive
     \<and> free_ground (cl_resource c) cs \<and> claim_ok c)"

definition advanced :: "claim list \<Rightarrow> claim \<Rightarrow> claim \<Rightarrow> bool" where
  "advanced cs c c' = (c \<in> set cs \<and> cl_status c = ClaimActive \<and> cl_claim_id c' = cl_claim_id c
     \<and> cl_resource c' = cl_resource c \<and> cl_generation c' = cl_generation c + 1
     \<and> (\<exists>v. cl_history c' = cl_history c @ [v]) \<and> claim_ok c')"

definition evolves :: "claim list \<Rightarrow> claim list \<Rightarrow> bool" where
  "evolves cs cs' = (cs' = cs \<or> (\<exists>c. acquired cs c \<and> cs' = cs @ [c]) \<or> (\<exists>c c'. advanced cs c c' \<and> cs' = put_claim c' cs))"

lemma overlaps_sym: "overlaps r q = overlaps q r"
  by (auto simp: overlaps_def Let_def)

lemma exclusive_append: "exclusive cs \<Longrightarrow> acquired cs c \<Longrightarrow> exclusive (cs @ [c])"
  unfolding exclusive_def acquired_def free_ground_def
  by (intro ballI impI) (auto simp: overlaps_sym [of "cl_resource c"])

lemma put_claim_set: "set (put_claim c' cs) = (\<lambda>x. if cl_claim_id x = cl_claim_id c' then c' else x) ` set cs"
  by (simp add: put_claim_def set_update_where)

lemma put_claim_ids: "map cl_claim_id (put_claim c' cs) = map cl_claim_id cs"
  by (simp add: put_claim_def update_where_def)

lemma exclusive_put:
  assumes ex: "exclusive cs" and adv: "advanced cs c c'"
  shows "exclusive (put_claim c' cs)"
  unfolding exclusive_def
proof (intro ballI impI)
  fix x y
  assume x: "x \<in> set (put_claim c' cs)" and y: "y \<in> set (put_claim c' cs)"
    and act: "cl_status x = ClaimActive" "cl_status y = ClaimActive"
    and ov: "overlaps (cl_resource x) (cl_resource y)"
  have before: "\<exists>z\<in>set cs. cl_claim_id z = cl_claim_id u \<and> cl_status z = ClaimActive \<and> cl_resource z = cl_resource u"
    if "u \<in> set (put_claim c' cs)" "cl_status u = ClaimActive" for u
    using that adv by (auto simp: put_claim_set advanced_def split: if_splits)
  from before [OF x act(1)] before [OF y act(2)] ov show "cl_claim_id x = cl_claim_id y"
    using ex unfolding exclusive_def by metis
qed

lemma evolves_ok: "ledger_ok cs \<Longrightarrow> evolves cs cs' \<Longrightarrow> ledger_ok cs'"
  unfolding evolves_def
proof (elim disjE exE conjE)
  fix c assume "ledger_ok cs" "acquired cs c" "cs' = cs @ [c]"
  then show "ledger_ok cs'" by (auto simp: ledger_ok_def exclusive_append) (auto simp: acquired_def)
next
  fix c c' assume "ledger_ok cs" "advanced cs c c'" "cs' = put_claim c' cs"
  then show "ledger_ok cs'"
    by (auto simp: ledger_ok_def exclusive_put put_claim_ids) (auto simp: put_claim_set advanced_def)
qed simp

lemma validated_ok: "validated who now = Some w \<Longrightarrow> owner_ok w"
  by (auto simp: validated_def owner_ok_def process_of_def split: json.splits option.splits if_splits)

lemma checked_owner_ok: "checked_owner who now = Inr w \<Longrightarrow> owner_ok w"
  by (auto simp: checked_owner_def validated_ok split: option.splits)

lemma path_root_str: "parsed_path p \<Longrightarrow> is_absolute p \<Longrightarrow> is_absolute (parse_path (path_str p))"
  by (simp add: parse_path_str)

lemma resource_at_ok: "resource_at fs kind path = Inr r \<Longrightarrow> resource_ok r"
  using path_root_str [OF parsed_parse_path, of path]
  by (auto simp: resource_at_def resource_ok_def Let_def split: if_splits option.splits)

lemma custody_scan_None: "custody_scan r w cs = Inr None \<Longrightarrow> free_ground r cs"
  by (induction cs) (auto simp: free_ground_def split: if_splits)

lemma custody_scan_Some:
  "custody_scan r w cs = Inr (Some c) \<Longrightarrow> c \<in> set cs \<and> cl_status c = ClaimActive \<and> cl_resource c = r \<and> cl_owner c = w"
  by (induction cs) (auto split: if_splits)

lemma claim_body_evolves:
  assumes "claim_body env r w cs = Inr (c, cs')" "resource_ok r" "owner_ok w"
    "is_hex32 (cv_uuid env)" "is_reading (cv_later env)" "''claim_'' @ cv_uuid env \<notin> cl_claim_id ` set cs"
  shows "evolves cs cs'"
proof (cases "custody_scan r w cs")
  case (Inr o')
  show ?thesis
  proof (cases o')
    case None
    have "valid_event (claimed_event w (cv_later env))" "json_wf (claimed_event w (cv_later env))"
      using assms(5) by (simp_all add: claimed_event_def valid_event_def event_fields_def has_fields_def jget_def reading_wf)
    then have "acquired cs c" "cs' = cs @ [c]"
      using assms Inr None custody_scan_None [of r w cs]
      by (auto simp: claim_body_def acquired_def claim_ok_def tagged_hex_def Let_def)
    then show ?thesis by (auto simp: evolves_def)
  qed (use assms Inr in \<open>auto simp: claim_body_def evolves_def\<close>)
qed (use assms in \<open>simp add: claim_body_def\<close>)

lemma find_claim_Inr: "find_claim cs i = Inr c \<Longrightarrow> c \<in> set cs \<and> cl_claim_id c = i"
  by (auto simp: find_claim_def split: option.splits dest: find_SomeD)

lemma transfer_body_evolves:
  assumes "transfer_body env i generation w reason cs = Inr (c', cs')" "ledger_ok cs" "owner_ok w"
    "is_reading (cv_later env)" "json_wf reason"
  shows "evolves cs cs'"
proof -
  obtain c where c: "find_claim cs i = Inr c" using assms(1) by (auto simp: transfer_body_def split: sum.splits)
  note fc = find_claim_Inr [OF c]
  then have ok: "claim_ok c" using assms(2) by (auto simp: ledger_ok_def)
  let ?v = "transferred_event (cv_later env) reason (cl_owner c) w (cl_generation c + 1)"
  have "valid_event ?v" "json_wf ?v"
    using assms(4,5)
    by (simp_all add: transferred_event_def valid_event_def event_fields_def has_fields_def jget_def reading_wf json_wf_owner)
  then have "advanced cs c c'" "cs' = put_claim c' cs"
    using assms fc c ok
    by (auto simp: transfer_body_def advanced_def claim_ok_def current_generation_def Let_def split: if_splits sum.splits)
  then show ?thesis by (auto simp: evolves_def)
qed

lemma release_body_evolves:
  assumes "release_body env i generation who operator reason cs = Inr (c', cs')" "ledger_ok cs"
    "is_reading (cv_later env)" "json_wf reason"
  shows "evolves cs cs'"
proof -
  obtain c where c: "find_claim cs i = Inr c" using assms(1) by (auto simp: release_body_def split: sum.splits)
  note fc = find_claim_Inr [OF c]
  then have ok: "claim_ok c" using assms(2) by (auto simp: ledger_ok_def)
  obtain actor where actor: "release_actor env c generation who operator = Inr actor"
    using assms(1) c by (auto simp: release_body_def split: sum.splits)
  then have active: "cl_status c = ClaimActive"
    by (auto simp: release_actor_def check_current_def current_generation_def split: if_splits option.splits sum.splits)
  let ?v = "released_event actor (cv_later env) reason (cl_generation c + 1)"
  have "valid_event ?v" "json_wf ?v"
    using assms(3,4)
    by (simp_all add: released_event_def valid_event_def event_fields_def has_fields_def jget_def reading_wf)
  then have "advanced cs c c'" "cs' = put_claim c' cs"
    using assms fc c ok actor active
    by (auto simp: release_body_def advanced_def claim_ok_def Let_def)
  then show ?thesis by (auto simp: evolves_def)
qed

end
