(* ===== verification/Custody.thy ===== *)
theory Custody
  imports ClaimsOk
begin

text \<open>
  Histories of the claim ledger: the calls of any number of processes in any order, with lost writes and
  with guards that are left or whose process dies.
\<close>

section \<open>Steps\<close>

text \<open>What a call must bring: a random id that no claim has, and a clock that reads a number.\<close>

definition call_ok :: "claim_env \<Rightarrow> folder \<Rightarrow> bool" where
  "call_ok env f = (is_hex32 (cv_uuid env) \<and> is_reading (cv_later env)
     \<and> (\<forall>cs. current claims_format f = Some cs \<longrightarrow> ''claim_'' @ cv_uuid env \<notin> cl_claim_id ` set cs))"

definition new_folder :: folder where
  "new_folder = \<lparr>fo_held = False, fo_text = None, fo_marker = False\<rparr>"

inductive custody_step :: "folder \<Rightarrow> folder \<Rightarrow> bool" where
  step_claim: "call_ok env f \<Longrightarrow> claim_resource env kind path who f = (r, f') \<Longrightarrow> custody_step f f'"
| step_transfer: "call_ok env f \<Longrightarrow> transfer env i generation who operator reason f = (r', f') \<Longrightarrow> custody_step f f'"
| step_release: "call_ok env f \<Longrightarrow> json_wf reason \<Longrightarrow> release env i generation who' operator reason f = (r', f')
    \<Longrightarrow> custody_step f f'"
| step_guard: "guard_claim env i generation who f = (r', f') \<Longrightarrow> custody_step f f'"
| step_leave: "custody_step f (leave_guard f)"
| step_inspect: "inspect_claim cenv i f = (r', f') \<Longrightarrow> custody_step f f'"
| step_list: "inspect_all cenv f = (r'', f') \<Longrightarrow> custody_step f f'"

inductive_cases custody_stepE: "custody_step f f'"

text \<open>What a call does to the recorded claims.\<close>

definition recorded :: "folder \<Rightarrow> folder \<Rightarrow> bool" where
  "recorded f f' = (current claims_format f' = current claims_format f
     \<or> (\<exists>cs cs'. current claims_format f = Some cs \<and> evolves cs cs' \<and> \<not> fo_held f
          \<and> current claims_format f' = Some (map norm_claim cs')))"

lemma transaction_recorded:
  assumes s: "custody.sound f" and tr: "transaction claims_format True env body f = (r, f')"
    and body: "\<And>cs x cs'. current claims_format f = Some cs \<Longrightarrow> ledger_ok cs \<Longrightarrow> body cs = Inr (x, cs') \<Longrightarrow> evolves cs cs'"
  shows "custody.sound f' \<and> recorded f f'"
proof -
  have b: "\<forall>cs x cs'. current claims_format f = Some cs \<longrightarrow> ledger_ok cs \<longrightarrow> body cs = Inr (x, cs') \<longrightarrow> ledger_ok cs'"
    using body evolves_ok by blast
  note eff = custody.transaction_effect [OF s tr b]
  from eff(3) have "recorded f f'" unfolding recorded_def using body by blast
  with eff(1) show ?thesis by simp
qed

lemma reading_transaction:
  assumes s: "custody.sound f" and tr: "transaction claims_format False env body f = (r, f')"
    and body: "\<And>cs x cs'. body cs = Inr (x, cs') \<Longrightarrow> cs' = cs"
  shows "custody.sound f' \<and> recorded f f'"
proof -
  have b: "\<forall>cs x cs'. current claims_format f = Some cs \<longrightarrow> ledger_ok cs \<longrightarrow> body cs = Inr (x, cs') \<longrightarrow> ledger_ok cs'"
    using body by blast
  show ?thesis using custody.transaction_effect [OF s tr b] by (auto simp: recorded_def)
qed

lemma recorded_refl: "recorded f f"
  by (simp add: recorded_def)

lemma claim_recorded:
  assumes "custody.sound f" "call_ok env f" "claim_resource env kind path who f = (r, f')"
  shows "custody.sound f' \<and> recorded f f'"
proof (cases "checked_owner who (cv_now env)")
  case (Inl e)
  then show ?thesis using assms by (auto simp: claim_resource_def recorded_refl)
next
  case w: (Inr w)
  show ?thesis
  proof (cases "resource_at (cv_fs env) kind path")
    case (Inl e)
    then show ?thesis using assms w by (auto simp: claim_resource_def recorded_refl)
  next
    case q: (Inr q)
    then have "transaction claims_format True (cv_call env) (claim_body env q w) f = (r, f')"
      using assms(3) w by (simp add: claim_resource_def)
    then show ?thesis
      using assms(2) checked_owner_ok [OF w] resource_at_ok [OF q]
      by (intro transaction_recorded [OF assms(1)]) (auto intro: claim_body_evolves simp: call_ok_def)
  qed
qed

lemma check_operator_wf: "check_operator operator reason = Inr u \<Longrightarrow> json_wf reason"
  by (auto simp: check_operator_def split: json.splits bool.splits)

lemma transfer_recorded:
  assumes "custody.sound f" "is_reading (cv_later env)" "transfer env i generation who operator reason f = (r, f')"
  shows "custody.sound f' \<and> recorded f f'"
proof (cases "check_operator operator reason")
  case (Inl e)
  then show ?thesis using assms by (auto simp: transfer_def recorded_refl)
next
  case op: (Inr u)
  show ?thesis
  proof (cases "checked_owner who (cv_now env)")
    case (Inl e)
    then show ?thesis using assms op by (auto simp: transfer_def recorded_refl)
  next
    case w: (Inr w)
    then have "transaction claims_format True (cv_call env) (transfer_body env i generation w reason) f = (r, f')"
      using assms(3) op by (simp add: transfer_def)
    then show ?thesis
      using assms(2) checked_owner_ok [OF w] check_operator_wf [OF op]
      by (intro transaction_recorded [OF assms(1)]) (auto intro: transfer_body_evolves)
  qed
qed

lemma release_recorded:
  assumes "custody.sound f" "is_reading (cv_later env)" "json_wf reason"
    "release env i generation who operator reason f = (r, f')"
  shows "custody.sound f' \<and> recorded f f'"
proof (cases "truthy operator \<and> isl (check_operator operator reason)")
  case True
  then show ?thesis using assms by (auto simp: release_def recorded_refl)
next
  case False
  then have "transaction claims_format True (cv_call env) (release_body env i generation who operator reason) f = (r, f')"
    using assms(4) by (auto simp: release_def)
  then show ?thesis
    using assms(2,3) by (intro transaction_recorded [OF assms(1)]) (auto intro: release_body_evolves)
qed

lemma inspect_recorded:
  assumes "custody.sound f"
  shows "inspect_claim cenv i f = (r, f') \<Longrightarrow> custody.sound f' \<and> recorded f f'"
    and "inspect_all cenv f = (r', f') \<Longrightarrow> custody.sound f' \<and> recorded f f'"
  by (auto simp: inspect_claim_def inspect_all_def split: sum.splits intro!: reading_transaction [OF assms])

lemma guard_recorded:
  assumes "custody.sound f" "guard_claim env i generation who f = (r, f')"
  shows "custody.sound f' \<and> recorded f f'"
  using custody.enter_guard_effect [OF assms(1) assms(2) [unfolded guard_claim_def]] by (simp add: recorded_def)

lemma step_recorded:
  assumes "custody_step f f'" "custody.sound f"
  shows "custody.sound f' \<and> recorded f f'"
  using assms
proof (induction rule: custody_step.induct)
  case (step_claim env f kind path who r f')
  then show ?case by (intro claim_recorded)
next
  case (step_transfer env f i generation who operator reason r f')
  then show ?case by (intro transfer_recorded) (auto simp: call_ok_def)
next
  case (step_release env f reason i generation who operator r f')
  then show ?case by (intro release_recorded) (auto simp: call_ok_def)
next
  case (step_guard env i generation who f r f')
  then show ?case by (intro guard_recorded)
next
  case (step_leave f)
  then show ?case using custody.leave_guard_effect by (simp add: recorded_def)
next
  case (step_inspect cenv i f r f')
  then show ?case using inspect_recorded(1) by blast
next
  case (step_list cenv f r f')
  then show ?case using inspect_recorded(2) by blast
qed

lemma sound_new_folder: "custody.sound new_folder"
  by (simp add: custody.sound_def new_folder_def)

lemma steps_sound: "custody_step\<^sup>*\<^sup>* f f' \<Longrightarrow> custody.sound f \<Longrightarrow> custody.sound f'"
  by (induction rule: rtranclp_induct) (auto dest: step_recorded)

text \<open>What every step keeps of the recorded claims, every history keeps.\<close>

lemma steps_keep:
  assumes "custody_step\<^sup>*\<^sup>* f f'" "custody.sound f" "\<exists>cs. current claims_format f = Some cs \<and> P cs"
    and keep: "\<And>cs cs'. ledger_ok cs \<Longrightarrow> P cs \<Longrightarrow> evolves cs cs' \<Longrightarrow> P cs'"
    and norm: "\<And>cs. P cs \<Longrightarrow> P (map norm_claim cs)"
  shows "\<exists>cs. current claims_format f' = Some cs \<and> P cs"
  using assms(1-3)
proof (induction rule: rtranclp_induct)
  case (step g h)
  then have s: "custody.sound g" and ex: "\<exists>cs. current claims_format g = Some cs \<and> P cs"
    using steps_sound by blast+
  from ex obtain cs where cs: "current claims_format g = Some cs" "P cs" by blast
  have ok: "ledger_ok cs" using s cs(1) by (auto elim: custody.sound_current)
  have "recorded g h" using step_recorded [OF step.hyps(2) s] by simp
  then show ?case using cs keep [OF ok] norm unfolding recorded_def by auto
qed simp

end
