(* ===== verification/CustodyLaws.thy ===== *)
theory CustodyLaws
  imports Custody
begin

text \<open>
  What the claim ledger promises: custody is exclusive, a token that was given up is fenced for good, a guard keeps
  everyone else out and a refused call leaves the file.
\<close>

section \<open>Facts on the recorded claims\<close>

lemma run_sound: "custody_step\<^sup>*\<^sup>* new_folder f \<Longrightarrow> custody.sound f"
  using steps_sound sound_new_folder by blast

lemma run_ledger:
  assumes "custody_step\<^sup>*\<^sup>* new_folder f"
  obtains cs where "current claims_format f = Some cs" "ledger_ok cs"
  using run_sound [OF assms] by (rule custody.sound_current)

lemma same_id: "ledger_ok cs \<Longrightarrow> c \<in> set cs \<Longrightarrow> d \<in> set cs \<Longrightarrow> cl_claim_id c = cl_claim_id d \<Longrightarrow> c = d"
  by (auto simp: ledger_ok_def distinct_map inj_on_def)

section \<open>Tokens that were given up\<close>

definition spent :: "string \<Rightarrow> int \<Rightarrow> claim list \<Rightarrow> bool" where
  "spent i g cs = (\<exists>c\<in>set cs. cl_claim_id c = i \<and> (g < cl_generation c \<or> g = cl_generation c \<and> cl_status c = ClaimReleased))"

lemma spent_norm [simp]: "spent i g (map norm_claim cs) = spent i g cs"
  by (simp add: spent_def)

lemma spent_evolves: "ledger_ok cs \<Longrightarrow> spent i g cs \<Longrightarrow> evolves cs cs' \<Longrightarrow> spent i g cs'"
  unfolding evolves_def
proof (elim disjE exE conjE)
  fix c c' assume ok: "ledger_ok cs" and sp: "spent i g cs" and adv: "advanced cs c c'" and cs': "cs' = put_claim c' cs"
  from sp obtain d where d: "d \<in> set cs" "cl_claim_id d = i"
    "g < cl_generation d \<or> g = cl_generation d \<and> cl_status d = ClaimReleased" by (auto simp: spent_def)
  show "spent i g cs'"
  proof (cases "cl_claim_id c = i")
    case True
    then have "d = c" using same_id [OF ok d(1)] adv d(2) by (simp add: advanced_def)
    then have "g < cl_generation c'" "c' \<in> set cs'" "cl_claim_id c' = i"
      using adv d True unfolding cs' by (auto simp: advanced_def put_claim_set)
    then show ?thesis by (auto simp: spent_def)
  next
    case False
    then have "d \<in> set cs'" using d adv unfolding cs' by (auto simp: advanced_def put_claim_set)
    then show ?thesis using d by (auto simp: spent_def)
  qed
qed (auto simp: spent_def)

lemma spent_for_good:
  assumes "custody_step\<^sup>*\<^sup>* f f'" "custody.sound f" "current claims_format f = Some cs" "spent i g cs"
  obtains cs' where "current claims_format f' = Some cs'" "spent i g cs'"
proof -
  have "\<exists>cs. current claims_format f' = Some cs \<and> spent i g cs"
    by (rule steps_keep [OF assms(1,2)]) (use assms(3,4) spent_evolves in auto)
  then show ?thesis using that by blast
qed

text \<open>A spent token is refused by every body that asks for one.\<close>

lemma spent_not_current:
  assumes "ledger_ok cs" "spent i g cs" "find_claim cs i = Inr c"
  shows "\<not> current_generation c (JInt g)"
proof -
  from assms(2) obtain d where d: "d \<in> set cs" "cl_claim_id d = i"
    "g < cl_generation d \<or> g = cl_generation d \<and> cl_status d = ClaimReleased" by (auto simp: spent_def)
  have "c = d" using same_id [OF assms(1), of c d] find_claim_Inr [OF assms(3)] d by simp
  with d show ?thesis by (auto simp: current_generation_def)
qed

lemma spent_bodies:
  assumes "ledger_ok cs" "spent i g cs"
  shows "isl (guard_body env i (JInt g) who cs)" "isl (transfer_body env i (JInt g) w reason cs)"
    "isl (release_body env i (JInt g) who' operator reason cs)"
  using spent_not_current [OF assms]
  by (auto simp: guard_body_def check_current_def transfer_body_def release_body_def release_actor_def
      split: sum.splits option.splits)

section \<open>Calls with a spent token, and calls that succeed\<close>

lemma spent_refused:
  assumes "custody.sound f" "current claims_format f = Some cs" "spent i g cs"
  shows "isl (fst (guard_claim env i (JInt g) who f))"
    "isl (fst (transfer env i (JInt g) who operator reason f))"
    "isl (fst (release env i (JInt g) who' operator reason f))"
proof -
  have ok: "ledger_ok cs" using assms(1,2) by (auto elim: custody.sound_current)
  note sp = spent_bodies [OF ok assms(3)]
  show "isl (fst (guard_claim env i (JInt g) who f))"
    unfolding guard_claim_def using sp(1) by (intro custody.refused_guard [OF assms(1,2)])
  show "isl (fst (transfer env i (JInt g) who operator reason f))"
    using custody.refused_body [OF assms(1,2), of "transfer_body env i (JInt g) _ reason", OF sp(2)] by (auto simp: transfer_def split: sum.splits)
  show "isl (fst (release env i (JInt g) who' operator reason f))"
    using custody.refused_body [OF assms(1,2), of "release_body env i (JInt g) who' operator reason", OF sp(3)] by (auto simp: release_def)
qed

text \<open>What an accepted transfer or release leaves behind.\<close>

lemma put_claim_in: "c \<in> set cs \<Longrightarrow> cl_claim_id c' = cl_claim_id c \<Longrightarrow> c' \<in> set (put_claim c' cs)"
  by (force simp: put_claim_set)

lemma transfer_spends:
  assumes "transfer_body env i (JInt g) w reason cs = Inr (c', cs')"
  shows "spent i g cs'"
  using assms
  by (auto simp: transfer_body_def current_generation_def Let_def spent_def split: sum.splits if_splits
      dest!: find_claim_Inr intro!: bexI [OF _ put_claim_in])

lemma release_spends:
  assumes "release_body env i (JInt g) who operator reason cs = Inr (c', cs')"
  shows "spent i g cs'"
  using assms
  by (auto simp: release_body_def release_actor_def check_current_def current_generation_def Let_def spent_def
      split: sum.splits if_splits option.splits dest!: find_claim_Inr intro!: bexI [OF _ put_claim_in])

lemma written_current:
  assumes "custody.sound f'" "fo_text f' = Some (claims_text cs)" "ledger_ok cs"
    "utf8_len (claims_text cs) \<le> int max_bytes"
  shows "current claims_format f' = Some (map norm_claim cs)"
  using custody.read_encode [of cs] assms by (simp add: current_def claims_format_def)

lemma custody_Inr:
  assumes "custody.sound f" "transaction claims_format True env body f = (Inr x, f')"
  obtains s s' where "current claims_format f = Some s" "ledger_ok s" "body s = Inr (x, s')"
    "fo_text f' = Some (claims_text s')" "utf8_len (claims_text s') \<le> int max_bytes" "\<not> fo_held f" "\<not> fo_held f'"
  by (rule custody.transaction_Inr [OF assms]) (rule that, simp_all add: claims_format_def)

lemma accepted_transfer:
  assumes "transfer env i (JInt g) who operator reason f = (Inr c, f')" "custody.sound f" "is_reading (cv_later env)"
  obtains cs where "current claims_format f' = Some cs" "spent i g cs" "custody.sound f'"
proof -
  obtain w u where w: "checked_owner who (cv_now env) = Inr w" and u: "check_operator operator reason = Inr u"
    and tr: "transaction claims_format True (cv_call env) (transfer_body env i (JInt g) w reason) f = (Inr c, f')"
    using assms(1) by (auto simp: transfer_def split: sum.splits)
  obtain s s' where s: "ledger_ok s" "transfer_body env i (JInt g) w reason s = Inr (c, s')" "fo_text f' = Some (claims_text s')"
    "utf8_len (claims_text s') \<le> int max_bytes"
    using custody_Inr [OF assms(2) tr] by blast
  have sound: "custody.sound f'" using transfer_recorded [OF assms(2,3,1)] by simp
  have "ledger_ok s'"
    using transfer_body_evolves [OF s(2,1) checked_owner_ok [OF w] assms(3) check_operator_wf [OF u]] evolves_ok s(1) by blast
  from that [OF written_current [OF sound s(3) this s(4)] _ sound] show ?thesis
    using transfer_spends [OF s(2)] by simp
qed

lemma accepted_release:
  assumes "release env i (JInt g) who operator reason f = (Inr c, f')" "custody.sound f" "is_reading (cv_later env)"
    "json_wf reason"
  obtains cs where "current claims_format f' = Some cs" "spent i g cs" "custody.sound f'"
proof -
  have tr: "transaction claims_format True (cv_call env) (release_body env i (JInt g) who operator reason) f = (Inr c, f')"
    using assms(1) by (auto simp: release_def split: if_splits)
  obtain s s' where s: "ledger_ok s" "release_body env i (JInt g) who operator reason s = Inr (c, s')" "fo_text f' = Some (claims_text s')"
    "utf8_len (claims_text s') \<le> int max_bytes"
    using custody_Inr [OF assms(2) tr] by blast
  have sound: "custody.sound f'" using release_recorded [OF assms(2,3,4,1)] by simp
  have "ledger_ok s'" using release_body_evolves [OF s(2,1) assms(3,4)] evolves_ok s(1) by blast
  from that [OF written_current [OF sound s(3) this s(4)] _ sound] show ?thesis
    using release_spends [OF s(2)] by simp
qed

section \<open>An owner that asks again\<close>

lemma validated_again: "validated who now = Some w \<Longrightarrow> validated who now' \<noteq> None \<Longrightarrow> validated who now' = Some w"
  by (auto simp: validated_def split: json.splits option.splits if_splits)

lemma resource_at_cong: "parse_path a = parse_path b \<Longrightarrow> resource_at fs k a = resource_at fs k b"
  by (simp add: resource_at_def)

lemma resource_at_path: "resource_at fs kind path = Inr r \<Longrightarrow> re_kind r = kind \<and> re_path r = path_str (parse_path path)"
  by (auto simp: resource_at_def Let_def split: if_splits option.splits)

lemma resource_again:
  assumes "resource_at fs kind path = Inr r"
  shows "resource_at fs (re_kind r) (re_path r) = Inr r"
proof -
  have "parse_path (re_path r) = parse_path path"
    using resource_at_path [OF assms] by (simp add: parse_path_str parsed_parse_path)
  then show ?thesis using resource_at_cong resource_at_path [OF assms] assms by metis
qed

lemma claim_body_answer:
  assumes "claim_body env r w cs = Inr (c, cs')"
  shows "c \<in> set cs'" "cl_status c = ClaimActive" "cl_resource c = r" "cl_owner c = w"
proof -
  obtain o' where sc: "custody_scan r w cs = Inr o'" using assms by (auto simp: claim_body_def split: sum.splits)
  have "c \<in> set cs' \<and> cl_status c = ClaimActive \<and> cl_resource c = r \<and> cl_owner c = w"
    using assms sc custody_scan_Some [of r w cs] by (cases o') (auto simp: claim_body_def Let_def)
  then show "c \<in> set cs'" "cl_status c = ClaimActive" "cl_resource c = r" "cl_owner c = w" by auto
qed

lemma find_norm:
  assumes "ledger_ok cs" "c \<in> set cs"
  shows "find_claim (map norm_claim cs) (cl_claim_id c) = Inr (norm_claim c)"
proof -
  have "distinct (map cl_claim_id (map norm_claim cs))" using assms(1) by (simp add: ledger_ok_def comp_def)
  then have "find (\<lambda>x. cl_claim_id x = cl_claim_id (norm_claim c)) (map norm_claim cs) = Some (norm_claim c)"
    by (rule find_key) (use assms(2) in simp)
  then show ?thesis by (simp add: find_claim_def)
qed

lemma guard_granted:
  assumes "ledger_ok cs" "c \<in> set cs" "cl_status c = ClaimActive"
    "checked_owner who (cv_now env) = Inr (cl_owner c)"
    "resource_at (cv_fs env) (re_kind (cl_resource c)) (re_path (cl_resource c)) = Inr (cl_resource c)"
  shows "guard_body env (cl_claim_id c) (JInt (cl_generation c)) who (map norm_claim cs) = Inr (norm_claim c)"
  using assms by (simp add: guard_body_def find_norm check_current_def current_generation_def same_resource_def)

lemma guard_body_Inr:
  assumes "guard_body env i g who cs = Inr c"
  shows "c \<in> set cs" "cl_claim_id c = i" "g = JInt (cl_generation c)" "cl_status c = ClaimActive"
    "validated who (cv_now env) = Some (cl_owner c)"
    "resource_at (cv_fs env) (re_kind (cl_resource c)) (re_path (cl_resource c)) = Inr (cl_resource c)"
  using assms
  by (auto simp: guard_body_def check_current_def current_generation_def same_resource_def checked_owner_def
      split: sum.splits if_splits option.splits dest!: find_claim_Inr)

lemma held_folder: "fo_held f \<Longrightarrow> transaction ff writes env body f = (r, f') \<Longrightarrow> f' = f"
  using held_transaction [of f ff writes env body] by auto

lemma held_guard_folder: "fo_held f \<Longrightarrow> enter_guard ff env body f = (r, f') \<Longrightarrow> f' = f"
  using held_guard [of f ff env body] by auto

text \<open>While a guard is open every call fails and changes nothing.\<close>

lemma held_step:
  assumes "custody_step f f'" "fo_held f"
  shows "f' = f \<or> f' = leave_guard f"
  using assms
proof (induction rule: custody_step.induct)
  case (step_claim env f kind path who r f')
  then show ?case by (auto simp: claim_resource_def dest: held_folder split: sum.splits)
next
  case (step_transfer env f i generation who operator reason r f')
  then show ?case by (auto simp: transfer_def dest: held_folder split: sum.splits)
next
  case (step_release env f reason i generation who operator r f')
  then show ?case by (auto simp: release_def dest: held_folder split: if_splits)
next
  case (step_guard env i generation who f r f')
  then show ?case by (auto simp: guard_claim_def dest: held_guard_folder)
next
  case (step_inspect cenv i f r f')
  then show ?case by (auto simp: inspect_claim_def dest: held_folder)
next
  case (step_list cenv f r f')
  then show ?case by (auto simp: inspect_all_def dest: held_folder)
qed simp

section \<open>Two ways to lose the ledger\<close>

text \<open>When the very first write is lost after the marker was made, no later call gets past the missing file.\<close>

lemma lost_first_write:
  assumes "clear_call env"
  shows "opened claims_format (env\<lparr>ce_first := LostBefore\<rparr>) new_folder = (Inl Escaped, new_folder\<lparr>fo_marker := True\<rparr>)"
    and "\<exists>e. transaction claims_format writes env' body (new_folder\<lparr>fo_marker := True\<rparr>) = (Inl e, new_folder\<lparr>fo_marker := True\<rparr>)"
proof -
  have "utf8_len (claims_text []) \<le> int max_bytes" using custody.fits_empty by (simp add: claims_format_def)
  then show "opened claims_format (env\<lparr>ce_first := LostBefore\<rparr>) new_folder = (Inl Escaped, new_folder\<lparr>fo_marker := True\<rparr>)"
    using assms by (simp add: opened_def new_folder_def clear_call_def ensure_marker_def publish_text_def claims_format_def)
  show "\<exists>e. transaction claims_format writes env' body (new_folder\<lparr>fo_marker := True\<rparr>) = (Inl e, new_folder\<lparr>fo_marker := True\<rparr>)"
    by (simp add: transaction_def opened_def new_folder_def split: option.splits)
qed

text \<open>When the event of a release no longer fits, even the operator cannot release.\<close>

lemma full_ledger_refuses_release:
  assumes "custody.sound f" "current claims_format f = Some cs" "fo_text f \<noteq> None" "\<not> fo_held f" "clear_call (cv_call env)"
    and "check_operator operator reason = Inr u"
    and "release_body env i g who operator reason cs = Inr (c, cs')" "utf8_len (claims_text cs') > int max_bytes"
  shows "fst (release env i g who operator reason f) = Inl (Refused ''store_full'')"
proof -
  have "ff_encode claims_format cs' = claims_text cs'" by (simp add: claims_format_def)
  then show ?thesis
    using custody.opened_clear [OF assms(1-5)] assms(6-8)
    by (simp add: release_def transaction_def publish_text_def)
qed

end
