(* ===== verification/CustodySamples.thy ===== *)
theory CustodySamples
  imports CustodyLaws
begin

text \<open>Two agents, a directory and the calls the witnesses make on it.\<close>

definition quiet_call :: call_env where
  "quiet_call = \<lparr>ce_lock = None, ce_file = None, ce_marker = None, ce_marker_made = True, ce_first = Written, ce_last = Written\<rparr>"

definition plain_fs :: file_system where
  "plain_fs = \<lparr>fs_resolve = Some, fs_is_dir = (\<lambda>_. True), fs_stat = (\<lambda>_. Some (7, 42))\<rparr>"

definition alice :: claimant where
  "alice = \<lparr>ca_managed_agent_id = JStr (''agent_'' @ replicate 32 CHR ''a''), ca_root = JStr ''/home'',
     ca_process = JObj [(''pid'', JInt 11), (''start_ticks'', JInt 1), (''boot_id'', JStr ''b'')], ca_observed_at = JInt 100\<rparr>"

definition bob :: claimant where
  "bob = \<lparr>ca_managed_agent_id = JStr (''agent_'' @ replicate 32 CHR ''b''), ca_root = JStr ''/home'',
     ca_process = JObj [(''pid'', JInt 12), (''start_ticks'', JInt 2), (''boot_id'', JStr ''b'')], ca_observed_at = JInt 100\<rparr>"

definition alice_owner :: owner where
  "alice_owner = \<lparr>ow_managed_agent_id = ''agent_'' @ replicate 32 CHR ''a'', ow_root = ''/home'',
     ow_process = \<lparr>pb_pid = 11, pb_start_ticks = 1, pb_boot_id = ''b''\<rparr>\<rparr>"

definition bob_owner :: owner where
  "bob_owner = \<lparr>ow_managed_agent_id = ''agent_'' @ replicate 32 CHR ''b'', ow_root = ''/home'',
     ow_process = \<lparr>pb_pid = 12, pb_start_ticks = 2, pb_boot_id = ''b''\<rparr>\<rparr>"

definition call_at :: "char \<Rightarrow> claim_env" where
  "call_at u = \<lparr>cv_call = quiet_call, cv_fs = plain_fs, cv_now = JInt 100, cv_later = JFloat 1005 (- 1), cv_uuid = replicate 32 u\<rparr>"

definition tree :: resource where
  "tree = \<lparr>re_kind = ''worktree'', re_path = ''/w/tree'', re_device = 7, re_inode = 42\<rparr>"

definition first_claim :: claim where
  "first_claim = \<lparr>cl_claim_id = ''claim_'' @ replicate 32 CHR ''0'', cl_generation = 1, cl_status = ClaimActive,
     cl_resource = tree, cl_owner = alice_owner, cl_history = [claimed_event alice_owner (JFloat 1005 (- 1))]\<rparr>"

definition claimed_folder :: folder where
  "claimed_folder = \<lparr>fo_held = False, fo_text = Some (claims_text [first_claim]), fo_marker = True\<rparr>"

lemma clear_quiet [simp]: "clear_call quiet_call"
  by (simp add: clear_call_def quiet_call_def)

lemma env_simps [simp]:
  "cv_call (call_at u) = quiet_call" "cv_fs (call_at u) = plain_fs" "cv_now (call_at u) = JInt 100"
  "cv_later (call_at u) = JFloat 1005 (- 1)" "cv_uuid (call_at u) = replicate 32 u"
  by (simp_all add: call_at_def)

lemma starts_with_append [simp]: "starts_with tag (tag @ s)"
  by (induction tag) simp_all

lemma tagged_hex_append: "tagged_hex tag (tag @ s) = is_hex32 s"
  by (simp add: tagged_hex_def)

lemma hex32_samples [simp]: "is_hex32 (replicate 32 CHR ''a'')" "is_hex32 (replicate 32 CHR ''b'')"
  "is_hex32 (replicate 32 CHR ''0'')" "is_hex32 (replicate 32 CHR ''1'')"
  by (simp_all add: is_hex32_def list_all_iff)

lemmas tagged_samples = tagged_hex_append [of "''agent_''", simplified] tagged_hex_append [of "''claim_''", simplified]

lemma absolute_samples: "is_absolute (parse_path ''/home'')" "is_absolute (parse_path ''/w/tree'')"
  by (simp_all add: is_absolute_def parse_path_def path_root_def)

lemma checked [simp]: "checked_owner alice (JInt 100) = Inr alice_owner" "checked_owner bob (JInt 100) = Inr bob_owner"
  by (simp_all add: checked_owner_def validated_def alice_def bob_def alice_owner_def bob_owner_def process_of_def
      has_fields_def jget_def tagged_samples absolute_samples freshly_observed_def)

lemma tree_at [simp]: "resource_at plain_fs ''worktree'' ''/w/tree'' = Inr tree"
  by (simp add: resource_at_def plain_fs_def kinds_def tree_def parse_path_def path_root_def is_absolute_def
      kept_part_def path_str_def Let_def)

lemma first_claim_ok: "claim_ok first_claim"
  by (simp add: claim_ok_def first_claim_def alice_owner_def owner_ok_def resource_ok_def tree_def tagged_samples
      absolute_samples kinds_def valid_event_def claimed_event_def event_fields_def has_fields_def jget_def)

lemma utf8_len_le: "utf8_len s \<le> 2 * int (length s)"
  by (induction s) (auto simp: utf8_len_def utf8_def utf8_char_def)

lemmas text_of_claims = claims_text_def dumps_def claims_json_def claim_json_def resource_json_def owner_json_def
  process_json_def claimed_event_def status_str_def dumps_str_def escape_char_def float_str_def
  plain_float_def zfill_def nat_str.simps int_str_def digit_char_def

lemma fits_of_length: "length t \<le> 2000000 \<Longrightarrow> utf8_len t \<le> int max_bytes"
  using utf8_len_le [of t] by (simp add: max_bytes_def)

lemma first_claim_text: "utf8_len (claims_text [first_claim]) \<le> int max_bytes"
  by (rule fits_of_length) (simp add: text_of_claims first_claim_def alice_owner_def tree_def)

lemma ok_first: "ledger_ok [first_claim]"
  by (simp add: ledger_ok_def first_claim_ok exclusive_def)

lemma first_call: "claim_resource (call_at CHR ''0'') ''worktree'' ''/w/tree'' alice new_folder = (Inr first_claim, claimed_folder)"
proof -
  have "utf8_len (claims_text []) \<le> int max_bytes" by (rule fits_of_length) (simp add: text_of_claims)
  moreover have "claim_body (call_at CHR ''0'') tree alice_owner [] = Inr (first_claim, [first_claim])"
    by (simp add: claim_body_def first_claim_def Let_def)
  ultimately show ?thesis
    using first_claim_text
    by (simp add: claim_resource_def transaction_def opened_def new_folder_def quiet_call_def ensure_marker_def
        claims_format_def publish_text_def claimed_folder_def)
qed

lemma call_ok_first: "call_ok (call_at CHR ''0'') new_folder"
  by (simp add: call_ok_def is_reading_def current_def new_folder_def claims_format_def)

lemma run_claimed: "custody_step\<^sup>*\<^sup>* new_folder claimed_folder"
  using step_claim [OF call_ok_first first_call] by blast

lemma current_claimed: "current claims_format claimed_folder = Some [norm_claim first_claim]"
  using written_current [OF run_sound [OF run_claimed] _ ok_first first_claim_text]
  by (simp add: claimed_folder_def)

text \<open>A guard of the first owner, and a transfer to the second agent.\<close>

lemma first_guard: "\<exists>f'. guard_claim (call_at CHR ''1'') (cl_claim_id first_claim) (JInt 1) alice claimed_folder
    = (Inr (norm_claim first_claim), f')"
proof -
  have "guard_body (call_at CHR ''1'') (cl_claim_id first_claim) (JInt (cl_generation first_claim)) alice
      (map norm_claim [first_claim]) = Inr (norm_claim first_claim)"
    using resource_again [OF tree_at] by (intro guard_granted) (simp_all add: ok_first, simp_all add: first_claim_def)
  from custody.enter_guard_clear [OF run_sound [OF run_claimed] current_claimed, of quiet_call,
      of "guard_body (call_at CHR ''1'') (cl_claim_id first_claim) (JInt 1) alice"] this
  show ?thesis by (simp add: guard_claim_def claimed_folder_def) (simp add: first_claim_def)
qed

definition second_claim :: claim where
  "second_claim = (norm_claim first_claim)\<lparr>cl_owner := bob_owner, cl_generation := 2,
     cl_history := cl_history (norm_claim first_claim)
       @ [transferred_event (JFloat 1005 (- 1)) (JStr ''handoff'') alice_owner bob_owner 2]\<rparr>"

lemma second_call: "\<exists>f'. transfer (call_at CHR ''1'') (cl_claim_id first_claim) (JInt 1) bob (JBool True) (JStr ''handoff'') claimed_folder
    = (Inr second_claim, f')"
proof -
  have fits: "utf8_len (claims_text [second_claim]) \<le> int max_bytes"
    by (rule fits_of_length)
       (simp add: text_of_claims second_claim_def norm_claim_def first_claim_def alice_owner_def bob_owner_def tree_def
         transferred_event_def)
  have same: "resource_at plain_fs (re_kind tree) (re_path tree) = Inr tree"
    using resource_again [OF tree_at] .
  have body: "transfer_body (call_at CHR ''1'') (cl_claim_id first_claim) (JInt 1) bob_owner (JStr ''handoff'') [norm_claim first_claim]
      = Inr (second_claim, [second_claim])"
    using same
    by (simp add: transfer_body_def find_claim_def current_generation_def same_resource_def put_claim_def
        update_where_def second_claim_def Let_def norm_claim_def first_claim_def)
  have op: "check_operator (JBool True) (JStr ''handoff'') = Inr ()"
    by (simp add: check_operator_def strip_def is_space_def)
  show ?thesis
    using custody.transaction_clear [OF run_sound [OF run_claimed] current_claimed, of quiet_call,
        of "transfer_body (call_at CHR ''1'') (cl_claim_id first_claim) (JInt 1) bob_owner (JStr ''handoff'')",
        OF _ _ _ body] fits
    by (simp add: transfer_def op claimed_folder_def) (simp add: claims_format_def)
qed

text \<open>The second agent claims another directory.\<close>

definition other_claim :: claim where
  "other_claim = \<lparr>cl_claim_id = ''claim_'' @ replicate 32 CHR ''1'', cl_generation = 1, cl_status = ClaimActive,
     cl_resource = \<lparr>re_kind = ''build_prefix'', re_path = ''/w/out'', re_device = 7, re_inode = 42\<rparr>, cl_owner = bob_owner,
     cl_history = [claimed_event bob_owner (JFloat 1005 (- 1))]\<rparr>"

definition shared_folder :: folder where
  "shared_folder = \<lparr>fo_held = False, fo_text = Some (claims_text [norm_claim first_claim, other_claim]), fo_marker = True\<rparr>"

lemma call_ok_other: "call_ok (call_at CHR ''1'') claimed_folder"
  by (simp add: call_ok_def is_reading_def current_claimed) (simp add: first_claim_def)

lemma other_at: "resource_at plain_fs ''build_prefix'' ''/w/out'' = Inr (cl_resource other_claim)"
  by (simp add: resource_at_def plain_fs_def kinds_def other_claim_def parse_path_def path_root_def is_absolute_def
      kept_part_def path_str_def Let_def)

lemma other_body: "claim_body (call_at CHR ''1'') (cl_resource other_claim) bob_owner [norm_claim first_claim]
    = Inr (other_claim, [norm_claim first_claim, other_claim])"
  by (simp add: claim_body_def first_claim_def tree_def overlaps_def is_relative_to_def parse_path_def path_root_def
      kept_part_def other_claim_def Let_def)

lemma other_text: "utf8_len (claims_text [norm_claim first_claim, other_claim]) \<le> int max_bytes"
  by (rule fits_of_length)
     (simp add: text_of_claims norm_claim_def first_claim_def other_claim_def alice_owner_def bob_owner_def tree_def)

lemma other_call: "claim_resource (call_at CHR ''1'') ''build_prefix'' ''/w/out'' bob claimed_folder = (Inr other_claim, shared_folder)"
proof -
  have "transaction claims_format True quiet_call (claim_body (call_at CHR ''1'') (cl_resource other_claim) bob_owner) claimed_folder
      = (Inr other_claim, claimed_folder\<lparr>fo_marker := True,
           fo_text := Some (ff_encode claims_format [norm_claim first_claim, other_claim])\<rparr>)"
    using other_text
    by (intro custody.transaction_clear [OF run_sound [OF run_claimed] current_claimed])
       (simp_all add: other_body, simp_all add: claimed_folder_def claims_format_def)
  then show ?thesis
    by (simp add: claim_resource_def other_at) (simp add: claims_format_def claimed_folder_def shared_folder_def)
qed

lemma run_shared: "custody_step\<^sup>*\<^sup>* new_folder shared_folder"
  using run_claimed step_claim [OF call_ok_other other_call] by (rule rtranclp.rtrancl_into_rtrancl)

lemma current_shared:
  "\<exists>c. current claims_format shared_folder = Some [c, norm_claim other_claim] \<and> cl_status c = ClaimActive
     \<and> re_path (cl_resource c) = ''/w/tree'' \<and> cl_claim_id c \<noteq> cl_claim_id other_claim"
proof -
  have "ledger_ok [norm_claim first_claim, other_claim]"
    using claim_body_evolves [OF other_body resource_at_ok [OF other_at] checked_owner_ok [OF checked(2)]] evolves_ok
      ledger_ok_norm [OF ok_first] call_ok_other current_claimed
    by (simp add: call_ok_def)
  from written_current [OF run_sound [OF run_shared] _ this other_text] show ?thesis
    by (simp add: shared_folder_def) (simp add: first_claim_def other_claim_def tree_def)
qed

end
