(* ===== verification/CustodyRefines.thy ===== *)
theory CustodyRefines
  imports CustodySamples
begin

text \<open>
  The claim ledger as a map from claim ids to generation, holder and directory: the calls as data, what each may
  answer and do on the map, and that a history of calls with its answers is a history of the map.
\<close>

section \<open>Calls as data\<close>

datatype custody_call =
    AskClaim claim_env string string claimant
  | AskTransfer claim_env string json claimant json json
  | AskRelease claim_env string json "claimant option" json json
  | AskGuard claim_env string json claimant
  | LeaveGuard
  | AskOne call_env string
  | AskAll call_env

definition one_claim :: "claim attempt \<times> folder \<Rightarrow> claim list attempt \<times> folder" where
  "one_claim = map_prod (map_sum id (\<lambda>c. [c])) id"

fun serve :: "custody_call \<Rightarrow> folder \<Rightarrow> claim list attempt \<times> folder" where
  "serve (AskClaim env kind path who) f = one_claim (claim_resource env kind path who f)"
| "serve (AskTransfer env i generation who operator reason) f = one_claim (transfer env i generation who operator reason f)"
| "serve (AskRelease env i generation who operator reason) f = one_claim (release env i generation who operator reason f)"
| "serve (AskGuard env i generation who) f = one_claim (guard_claim env i generation who f)"
| "serve LeaveGuard f = (Inr [], leave_guard f)"
| "serve (AskOne cenv i) f = one_claim (inspect_claim cenv i f)"
| "serve (AskAll cenv) f = inspect_all cenv f"

text \<open>What a call must bring, as in \<^const>\<open>custody_step\<close>.\<close>

fun call_fits :: "custody_call \<Rightarrow> folder \<Rightarrow> bool" where
  "call_fits (AskClaim env kind path who) f = call_ok env f"
| "call_fits (AskTransfer env i generation who operator reason) f = call_ok env f"
| "call_fits (AskRelease env i generation who operator reason) f = (call_ok env f \<and> json_wf reason)"
| "call_fits _ f = True"

fun serve_all :: "custody_call list \<Rightarrow> folder \<Rightarrow> claim list attempt list \<times> folder" where
  "serve_all [] f = ([], f)"
| "serve_all (c # cs) f =
     (let (a, g) = serve c f; (as, h) = serve_all cs g in (a # as, h))"

fun all_fit :: "custody_call list \<Rightarrow> folder \<Rightarrow> bool" where
  "all_fit [] f = True"
| "all_fit (c # cs) f = (call_fits c f \<and> all_fit cs (snd (serve c f)))"

section \<open>The abstract ledger\<close>

text \<open>Each claim has its generation, its holder unless it was given up, and its directory.  Claims are never forgotten.\<close>

type_synonym custody_map = "string \<rightharpoonup> int \<times> owner option \<times> resource"

definition holding :: "claim \<Rightarrow> int \<times> owner option \<times> resource" where
  "holding c = (cl_generation c, if cl_status c = ClaimActive then Some (cl_owner c) else None, cl_resource c)"

definition holders :: "claim list \<Rightarrow> custody_map" where
  "holders cs = map_of (map (\<lambda>c. (cl_claim_id c, holding c)) cs)"

definition unclaimed :: "resource \<Rightarrow> custody_map \<Rightarrow> bool" where
  "unclaimed r m = (\<forall>i g w q. m i = Some (g, Some w, q) \<longrightarrow> \<not> overlaps q r)"

text \<open>The owner or the operator: who may release.\<close>

definition may_release :: "claim_env \<Rightarrow> owner \<Rightarrow> resource \<Rightarrow> claimant option \<Rightarrow> json \<Rightarrow> bool" where
  "may_release env w r who operator =
     (truthy operator \<or> (\<exists>x. who = Some x \<and> validated x (cv_now env) = Some w
        \<and> resource_at (cv_fs env) (re_kind r) (re_path r) = Inr r))"

fun write_lost :: "custody_call \<Rightarrow> bool" where
  "write_lost (AskClaim env kind path who) = (ce_last (cv_call env) = LostAfter)"
| "write_lost (AskTransfer env i generation who operator reason) = (ce_last (cv_call env) = LostAfter)"
| "write_lost (AskRelease env i generation who operator reason) = (ce_last (cv_call env) = LostAfter)"
| "write_lost _ = False"

text \<open>
  A call with its answer, on the map.  A refusal leaves the map; only when the write of a call is lost after the rename
  does an error hide a change.
\<close>

inductive custody_spec :: "custody_call \<Rightarrow> claim list attempt \<Rightarrow> custody_map \<Rightarrow> custody_map \<Rightarrow> bool" where
  spec_acquire: "validated who (cv_now env) = Some w \<Longrightarrow> resource_at (cv_fs env) kind path = Inr r
    \<Longrightarrow> m (cl_claim_id c) = None \<Longrightarrow> unclaimed r m \<Longrightarrow> holding c = (1, Some w, r)
    \<Longrightarrow> custody_spec (AskClaim env kind path who) (Inr [c]) m (m(cl_claim_id c \<mapsto> (1, Some w, r)))"
| spec_again: "validated who (cv_now env) = Some w \<Longrightarrow> resource_at (cv_fs env) kind path = Inr r
    \<Longrightarrow> m (cl_claim_id c) = Some (g, Some w, r) \<Longrightarrow> holding c = (g, Some w, r)
    \<Longrightarrow> custody_spec (AskClaim env kind path who) (Inr [c]) m m"
| spec_transfer: "operator = JBool True \<Longrightarrow> validated who (cv_now env) = Some w'
    \<Longrightarrow> m i = Some (g, Some w, r) \<Longrightarrow> resource_at (cv_fs env) (re_kind r) (re_path r) = Inr r
    \<Longrightarrow> cl_claim_id c = i \<Longrightarrow> holding c = (g + 1, Some w', r)
    \<Longrightarrow> custody_spec (AskTransfer env i (JInt g) who operator reason) (Inr [c]) m (m(i \<mapsto> (g + 1, Some w', r)))"
| spec_release: "m i = Some (g, Some w, r) \<Longrightarrow> may_release env w r who operator
    \<Longrightarrow> cl_claim_id c = i \<Longrightarrow> holding c = (g + 1, None, r)
    \<Longrightarrow> custody_spec (AskRelease env i (JInt g) who operator reason) (Inr [c]) m (m(i \<mapsto> (g + 1, None, r)))"
| spec_guard: "validated who (cv_now env) = Some w \<Longrightarrow> m i = Some (g, Some w, r)
    \<Longrightarrow> resource_at (cv_fs env) (re_kind r) (re_path r) = Inr r \<Longrightarrow> cl_claim_id c = i \<Longrightarrow> holding c = (g, Some w, r)
    \<Longrightarrow> custody_spec (AskGuard env i (JInt g) who) (Inr [c]) m m"
| spec_leave: "custody_spec LeaveGuard (Inr []) m m"
| spec_one: "m i = Some (holding c) \<Longrightarrow> cl_claim_id c = i \<Longrightarrow> custody_spec (AskOne cenv i) (Inr [c]) m m"
| spec_all: "m = holders cs \<Longrightarrow> distinct (map cl_claim_id cs) \<Longrightarrow> custody_spec (AskAll cenv) (Inr cs) m m"
| spec_refused: "custody_spec call (Inl e) m m"
| spec_lost: "custody_spec call (Inr x) m m' \<Longrightarrow> write_lost call \<Longrightarrow> custody_spec call (Inl e) m m'"

text \<open>A list of calls with the list of their answers, from one map to another.\<close>

inductive custody_trace :: "custody_call list \<Rightarrow> claim list attempt list \<Rightarrow> custody_map \<Rightarrow> custody_map \<Rightarrow> bool" where
  trace_nil: "custody_trace [] [] m m"
| trace_cons: "custody_spec c a m m' \<Longrightarrow> custody_trace cs as m' m'' \<Longrightarrow> custody_trace (c # cs) (a # as) m m''"

section \<open>The map of a ledger\<close>

lemma holding_norm [simp]: "holding (norm_claim c) = holding c"
  by (simp add: holding_def)

lemma holders_norm [simp]: "holders (map norm_claim cs) = holders cs"
  by (simp add: holders_def comp_def)

lemma holders_Some:
  assumes "distinct (map cl_claim_id cs)"
  shows "holders cs i = Some v \<longleftrightarrow> (\<exists>c\<in>set cs. cl_claim_id c = i \<and> v = holding c)"
proof -
  have "distinct (map fst (map (\<lambda>c. (cl_claim_id c, holding c)) cs))" using assms by (simp add: comp_def)
  then show ?thesis unfolding holders_def by (subst map_of_eq_Some_iff) auto
qed

lemma holders_in: "ledger_ok cs \<Longrightarrow> c \<in> set cs \<Longrightarrow> holders cs (cl_claim_id c) = Some (holding c)"
  by (auto simp: ledger_ok_def holders_Some)

lemma holders_append:
  assumes "distinct (map cl_claim_id (cs @ [c]))"
  shows "holders (cs @ [c]) = (holders cs)(cl_claim_id c \<mapsto> holding c)"
proof -
  have "cl_claim_id c \<notin> cl_claim_id ` set cs" using assms by simp
  then have "map_of (map (\<lambda>c. (cl_claim_id c, holding c)) cs) (cl_claim_id c) = None" by (auto simp: map_of_eq_None_iff)
  then show ?thesis by (auto simp: holders_def map_add_def fun_eq_iff split: option.splits)
qed

lemma holders_put:
  assumes ok: "ledger_ok cs" and c: "c \<in> set cs" "cl_claim_id c' = cl_claim_id c"
  shows "holders (put_claim c' cs) = (holders cs)(cl_claim_id c \<mapsto> holding c')"
proof
  fix i
  have d: "distinct (map cl_claim_id cs)" "distinct (map cl_claim_id (put_claim c' cs))"
    using ok by (simp_all add: ledger_ok_def put_claim_ids)
  have "holders (put_claim c' cs) i = Some v \<longleftrightarrow> ((holders cs)(cl_claim_id c \<mapsto> holding c')) i = Some v" for v
    using c by (auto simp: holders_Some [OF d(1)] holders_Some [OF d(2)] put_claim_set split: if_splits)
  then show "holders (put_claim c' cs) i = ((holders cs)(cl_claim_id c \<mapsto> holding c')) i" by (metis option.exhaust)
qed

lemma unclaimed_ground: "ledger_ok cs \<Longrightarrow> free_ground r cs \<Longrightarrow> unclaimed r (holders cs)"
  by (auto simp: ledger_ok_def unclaimed_def holders_Some free_ground_def holding_def split: if_splits)

section \<open>Every call is one of the map\<close>

lemma checked_Inr: "checked_owner who now = Inr w \<Longrightarrow> validated who now = Some w"
  by (auto simp: checked_owner_def split: option.splits)

lemma claim_body_spec:
  assumes ok: "ledger_ok cs" and b: "claim_body env r w cs = Inr (c, cs')" and new: "''claim_'' @ cv_uuid env \<notin> cl_claim_id ` set cs"
    and w: "validated who (cv_now env) = Some w" and r: "resource_at (cv_fs env) kind path = Inr r"
  shows "custody_spec (AskClaim env kind path who) (Inr [c]) (holders cs) (holders cs')"
proof -
  obtain o' where sc: "custody_scan r w cs = Inr o'" using b by (auto simp: claim_body_def split: sum.splits)
  have d: "distinct (map cl_claim_id cs)" using ok by (simp add: ledger_ok_def)
  show ?thesis
  proof (cases o')
    case None
    then have c: "cs' = cs @ [c]" "cl_claim_id c = ''claim_'' @ cv_uuid env" "holding c = (1, Some w, r)"
      using b sc by (auto simp: claim_body_def holding_def Let_def)
    have fresh: "cl_claim_id c \<notin> cl_claim_id ` set cs" using new c(2) by simp
    then have "holders cs (cl_claim_id c) = None" by (auto simp: holders_def map_of_eq_None_iff)
    from spec_acquire [OF w r this unclaimed_ground [OF ok custody_scan_None] c(3)] sc None
    have "custody_spec (AskClaim env kind path who) (Inr [c]) (holders cs) ((holders cs)(cl_claim_id c \<mapsto> holding c))"
      using c(3) by simp
    then show ?thesis using holders_append [of cs c] d fresh c(1) by simp
  next
    case (Some c0)
    then have c: "c = c0" "cs' = cs" using b sc by (simp_all add: claim_body_def)
    have "c \<in> set cs" "holding c = (cl_generation c, Some w, r)"
      using custody_scan_Some [of r w cs c0] sc Some c(1) by (auto simp: holding_def)
    then show ?thesis using spec_again [OF w r _ , of "holders cs" c "cl_generation c"] holders_in [OF ok] c(2) by simp
  qed
qed

lemma transfer_body_spec:
  assumes ok: "ledger_ok cs" and b: "transfer_body env i generation w' reason cs = Inr (c', cs')"
    and op: "check_operator operator reason = Inr u" and w: "validated who (cv_now env) = Some w'"
  shows "custody_spec (AskTransfer env i generation who operator reason) (Inr [c']) (holders cs) (holders cs')"
proof -
  obtain c where c: "find_claim cs i = Inr c" "current_generation c generation" "same_resource (cv_fs env) c = Inr ()"
    and c': "cl_claim_id c' = cl_claim_id c" "holding c' = (cl_generation c + 1, Some w', cl_resource c)" "cs' = put_claim c' cs"
    using b by (auto simp: transfer_body_def Let_def holding_def current_generation_def split: sum.splits if_splits)
  note fc = find_claim_Inr [OF c(1)]
  have g: "generation = JInt (cl_generation c)" "holding c = (cl_generation c, Some (cl_owner c), cl_resource c)"
    using c(2) by (simp_all add: current_generation_def holding_def)
  have "operator = JBool True" using op by (auto simp: check_operator_def split: json.splits bool.splits)
  moreover have "holders cs i = Some (cl_generation c, Some (cl_owner c), cl_resource c)"
    using holders_in [OF ok, of c] fc g(2) by simp
  moreover have "resource_at (cv_fs env) (re_kind (cl_resource c)) (re_path (cl_resource c)) = Inr (cl_resource c)"
    using c(3) by (auto simp: same_resource_def split: sum.splits if_splits)
  ultimately show ?thesis
    using spec_transfer [of operator who env w' "holders cs" i "cl_generation c" "cl_owner c" "cl_resource c" c' reason]
      w c' fc g(1) holders_put [OF ok, of c c'] by simp
qed

lemma release_body_spec:
  assumes ok: "ledger_ok cs" and b: "release_body env i generation who operator reason cs = Inr (c', cs')"
  shows "custody_spec (AskRelease env i generation who operator reason) (Inr [c']) (holders cs) (holders cs')"
proof -
  obtain c actor where c: "find_claim cs i = Inr c" "release_actor env c generation who operator = Inr actor"
    and c': "cl_claim_id c' = cl_claim_id c" "holding c' = (cl_generation c + 1, None, cl_resource c)" "cs' = put_claim c' cs"
    using b by (auto simp: release_body_def Let_def holding_def split: sum.splits)
  note fc = find_claim_Inr [OF c(1)]
  have g: "generation = JInt (cl_generation c)" "cl_status c = ClaimActive"
    and who: "may_release env (cl_owner c) (cl_resource c) who operator"
    using c(2)
    by (auto simp: release_actor_def check_current_def current_generation_def may_release_def same_resource_def
        split: if_splits option.splits sum.splits dest: checked_Inr)
  have "holders cs i = Some (cl_generation c, Some (cl_owner c), cl_resource c)"
    using holders_in [OF ok, of c] fc g(2) by (simp add: holding_def)
  then show ?thesis
    using spec_release [of "holders cs" i "cl_generation c" "cl_owner c" "cl_resource c" env who operator c' reason]
      who c' fc g(1) holders_put [OF ok, of c c'] by simp
qed

lemma guard_body_spec:
  assumes ok: "ledger_ok cs" and b: "guard_body env i generation who cs = Inr c"
  shows "custody_spec (AskGuard env i generation who) (Inr [c]) (holders cs) (holders cs)"
proof -
  note g = guard_body_Inr [OF b]
  have h: "holding c = (cl_generation c, Some (cl_owner c), cl_resource c)" using g(4) by (simp add: holding_def)
  then show ?thesis
    using spec_guard [of who env "cl_owner c" "holders cs" i "cl_generation c" "cl_resource c" c] holders_in [OF ok g(1)] g by simp
qed

text \<open>What a transaction does to the map, from what its body does.\<close>

lemma transaction_spec:
  assumes s: "custody.sound f" and cs: "current claims_format f = Some cs"
    and tr: "transaction claims_format writes env body f = (r, f')" and sound: "custody.sound f'"
    and keep: "\<And>cs x cs'. current claims_format f = Some cs \<Longrightarrow> ledger_ok cs \<Longrightarrow> body cs = Inr (x, cs') \<Longrightarrow> ledger_ok cs'"
    and spec: "\<And>x cs'. ledger_ok cs \<Longrightarrow> body cs = Inr (x, cs') \<Longrightarrow> custody_spec call (Inr (answer x)) (holders cs) (holders cs')"
    and lost: "writes \<Longrightarrow> ce_last env = LostAfter \<Longrightarrow> write_lost call"
    and calm: "\<And>x cs'. \<not> writes \<Longrightarrow> body cs = Inr (x, cs') \<Longrightarrow> cs' = cs"
  shows "\<exists>cs'. current claims_format f' = Some cs' \<and> custody_spec call (map_sum id answer r) (holders cs) (holders cs')"
proof -
  have ok: "ledger_ok cs" using s cs by (auto elim: custody.sound_current)
  have b: "\<forall>st x st'. current claims_format f = Some st \<longrightarrow> ledger_ok st \<longrightarrow> body st = Inr (x, st') \<longrightarrow> ledger_ok st'"
    using keep by blast
  from custody.transaction_effect(3) [OF s tr b]
  show ?thesis
  proof (elim disjE conjE exE)
    assume same: "current claims_format f' = current claims_format f" and "isl r"
    then show ?thesis using cs spec_refused by (cases r) auto
  next
    assume same: "current claims_format f' = current claims_format f" and w: "\<not> writes"
    show ?thesis
    proof (cases r)
      case (Inr x)
      obtain st' where "body cs = Inr (x, st')"
        using tr Inr cs custody.opened_Inr(1) [OF s] by (auto simp: transaction_def w split: sum.splits prod.splits)
      then show ?thesis using spec [OF ok] calm [OF w] same cs Inr by fastforce
    qed (use same cs spec_refused in auto)
  next
    fix st x st'
    assume st: "current claims_format f = Some st" "body st = Inr (x, st')" "writes" "current claims_format f' = Some (map norm_claim st')"
    note sp = spec [OF ok, of x st']
    { assume "r = Inr x" then show ?thesis using st cs sp by auto }
    { assume "isl r" "ce_last env = LostAfter"
      then show ?thesis using st cs spec_lost [OF sp lost] by (cases r) auto }
  qed
qed

section \<open>Histories\<close>

lemma one_claim_eq: "one_claim p = (a, f') \<Longrightarrow> \<exists>r. p = (r, f') \<and> a = map_sum id (\<lambda>c. [c]) r"
  by (cases p) (auto simp: one_claim_def)

lemma serve_step: "call_fits c f \<Longrightarrow> serve c f = (a, f') \<Longrightarrow> custody_step f f'"
  by (cases c) (auto dest!: one_claim_eq intro: custody_step.intros)

lemma serve_claim_spec:
  assumes s: "custody.sound f" and cs: "current claims_format f = Some cs" and fits: "call_ok env f"
    and call: "claim_resource env kind path who f = (r, f')"
  shows "\<exists>cs'. current claims_format f' = Some cs'
    \<and> custody_spec (AskClaim env kind path who) (map_sum id (\<lambda>c. [c]) r) (holders cs) (holders cs')"
proof (cases "\<exists>w q. checked_owner who (cv_now env) = Inr w \<and> resource_at (cv_fs env) kind path = Inr q")
  case True
  then obtain w q where w: "checked_owner who (cv_now env) = Inr w" and q: "resource_at (cv_fs env) kind path = Inr q" by blast
  then have tr: "transaction claims_format True (cv_call env) (claim_body env q w) f = (r, f')"
    using call by (simp add: claim_resource_def)
  have new: "''claim_'' @ cv_uuid env \<notin> cl_claim_id ` set cs" using fits cs by (simp add: call_ok_def)
  show ?thesis
  proof (rule transaction_spec [OF s cs tr])
    show "custody.sound f'" using claim_recorded [OF s fits call] by simp
    show "ledger_ok cs2" if "current claims_format f = Some cs1" "ledger_ok cs1" "claim_body env q w cs1 = Inr (x, cs2)" for cs1 x cs2
      using claim_body_evolves [OF that(3) resource_at_ok [OF q] checked_owner_ok [OF w]] that fits evolves_ok
      by (auto simp: call_ok_def)
  qed (simp_all add: claim_body_spec [OF _ _ new checked_Inr [OF w] q])
next
  case False
  then have "f' = f" "isl r" using call by (auto simp: claim_resource_def split: sum.splits)
  then show ?thesis using cs spec_refused by (cases r) auto
qed

lemma serve_transfer_spec:
  assumes s: "custody.sound f" and cs: "current claims_format f = Some cs" and fits: "is_reading (cv_later env)"
    and call: "transfer env i generation who operator reason f = (r, f')"
  shows "\<exists>cs'. current claims_format f' = Some cs'
    \<and> custody_spec (AskTransfer env i generation who operator reason) (map_sum id (\<lambda>c. [c]) r) (holders cs) (holders cs')"
proof (cases "\<exists>u w. check_operator operator reason = Inr u \<and> checked_owner who (cv_now env) = Inr w")
  case True
  then obtain u w where u: "check_operator operator reason = Inr u" and w: "checked_owner who (cv_now env) = Inr w" by blast
  then have tr: "transaction claims_format True (cv_call env) (transfer_body env i generation w reason) f = (r, f')"
    using call by (simp add: transfer_def)
  show ?thesis
  proof (rule transaction_spec [OF s cs tr])
    show "custody.sound f'" using transfer_recorded [OF s fits call] by simp
    show "ledger_ok cs2" if "ledger_ok cs1" "transfer_body env i generation w reason cs1 = Inr (x, cs2)" for cs1 x cs2
      using transfer_body_evolves [OF that(2,1) checked_owner_ok [OF w] fits check_operator_wf [OF u]] evolves_ok that(1) by blast
  qed (simp_all add: transfer_body_spec [OF _ _ u checked_Inr [OF w]])
next
  case False
  then have "f' = f" "isl r" using call by (auto simp: transfer_def split: sum.splits)
  then show ?thesis using cs spec_refused by (cases r) auto
qed

lemma serve_release_spec:
  assumes s: "custody.sound f" and cs: "current claims_format f = Some cs" and fits: "is_reading (cv_later env)" "json_wf reason"
    and call: "release env i generation who operator reason f = (r, f')"
  shows "\<exists>cs'. current claims_format f' = Some cs'
    \<and> custody_spec (AskRelease env i generation who operator reason) (map_sum id (\<lambda>c. [c]) r) (holders cs) (holders cs')"
proof (cases "truthy operator \<and> isl (check_operator operator reason)")
  case True
  then show ?thesis using call cs spec_refused by (auto simp: release_def)
next
  case False
  then have tr: "transaction claims_format True (cv_call env) (release_body env i generation who operator reason) f = (r, f')"
    using call by (auto simp: release_def)
  show ?thesis
  proof (rule transaction_spec [OF s cs tr])
    show "custody.sound f'" using release_recorded [OF s fits call] by simp
    show "ledger_ok cs2" if "ledger_ok cs1" "release_body env i generation who operator reason cs1 = Inr (x, cs2)" for cs1 x cs2
      using release_body_evolves [OF that(2,1) fits] evolves_ok that(1) by blast
  qed (simp_all add: release_body_spec)
qed

lemma serve_guard_spec:
  assumes s: "custody.sound f" and cs: "current claims_format f = Some cs"
    and call: "guard_claim env i generation who f = (r, f')"
  shows "\<exists>cs'. current claims_format f' = Some cs'
    \<and> custody_spec (AskGuard env i generation who) (map_sum id (\<lambda>c. [c]) r) (holders cs) (holders cs')"
proof -
  from custody.enter_guard_effect [OF s call [unfolded guard_claim_def]]
  have same: "current claims_format f' = Some cs"
    and r: "isl r \<or> (\<exists>x. ledger_ok cs \<and> guard_body env i generation who cs = Inr x \<and> r = Inr x)" using cs by auto
  from r have "custody_spec (AskGuard env i generation who) (map_sum id (\<lambda>c. [c]) r) (holders cs) (holders cs)"
    by (cases r) (auto intro: spec_refused guard_body_spec)
  with same show ?thesis by blast
qed

lemma serve_inspect_spec:
  assumes s: "custody.sound f" and cs: "current claims_format f = Some cs"
  shows "inspect_claim cenv i f = (r, f') \<Longrightarrow> \<exists>cs'. current claims_format f' = Some cs'
      \<and> custody_spec (AskOne cenv i) (map_sum id (\<lambda>c. [c]) r) (holders cs) (holders cs')"
    and "inspect_all cenv f = (r', f') \<Longrightarrow> \<exists>cs'. current claims_format f' = Some cs'
      \<and> custody_spec (AskAll cenv) r' (holders cs) (holders cs')"
proof -
  assume call: "inspect_claim cenv i f = (r, f')"
  have body: "custody_spec (AskOne cenv i) (Inr [x]) (holders cs) (holders cs2)"
    if "ledger_ok cs" "(case find_claim cs i of Inl e \<Rightarrow> Inl e | Inr c \<Rightarrow> Inr (c, cs)) = Inr (x, cs2)" for x cs2
    using that by (auto split: sum.splits dest!: find_claim_Inr intro!: spec_one holders_in)
  show "\<exists>cs'. current claims_format f' = Some cs'
      \<and> custody_spec (AskOne cenv i) (map_sum id (\<lambda>c. [c]) r) (holders cs) (holders cs')"
  proof (rule transaction_spec [OF s cs call [unfolded inspect_claim_def]])
    show "custody.sound f'" using inspect_recorded(1) [OF s call] by simp
  qed (auto split: sum.splits intro: body)
next
  assume call: "inspect_all cenv f = (r', f')"
  have "\<exists>cs'. current claims_format f' = Some cs' \<and> custody_spec (AskAll cenv) (map_sum id id r') (holders cs) (holders cs')"
  proof (rule transaction_spec [OF s cs call [unfolded inspect_all_def]])
    show "custody.sound f'" using inspect_recorded(2) [OF s call] by simp
  qed (auto intro!: spec_all simp: ledger_ok_def)
  then show "\<exists>cs'. current claims_format f' = Some cs' \<and> custody_spec (AskAll cenv) r' (holders cs) (holders cs')"
    by (simp add: sum.map_id)
qed

lemma serve_spec:
  assumes "custody.sound f" "current claims_format f = Some cs" "call_fits c f" "serve c f = (a, f')"
  shows "\<exists>cs'. current claims_format f' = Some cs' \<and> custody_spec c a (holders cs) (holders cs')"
proof (cases c)
  case (AskClaim env kind path who)
  then show ?thesis using assms(3,4) serve_claim_spec [OF assms(1,2)] by (auto dest!: one_claim_eq)
next
  case (AskTransfer env i generation who operator reason)
  then show ?thesis using assms(3,4) serve_transfer_spec [OF assms(1,2)] by (auto simp: call_ok_def dest!: one_claim_eq)
next
  case (AskRelease env i generation who operator reason)
  then show ?thesis using assms(3,4) serve_release_spec [OF assms(1,2)] by (auto simp: call_ok_def dest!: one_claim_eq)
next
  case (AskGuard env i generation who)
  then show ?thesis using assms(4) serve_guard_spec [OF assms(1,2)] by (auto dest!: one_claim_eq)
next
  case LeaveGuard
  then show ?thesis using assms(2,4) spec_leave custody.leave_guard_effect(2) by auto
next
  case (AskOne cenv i)
  then show ?thesis using assms(4) serve_inspect_spec(1) [OF assms(1,2)] by (auto dest!: one_claim_eq)
next
  case (AskAll cenv)
  then show ?thesis using assms(4) serve_inspect_spec(2) [OF assms(1,2)] by auto
qed

lemma serve_all_spec:
  assumes "custody.sound f" "current claims_format f = Some cs" "all_fit calls f" "serve_all calls f = (answers, f')"
  shows "\<exists>cs'. current claims_format f' = Some cs' \<and> custody_trace calls answers (holders cs) (holders cs')"
  using assms
proof (induction calls arbitrary: f cs answers)
  case Nil
  then show ?case by (auto intro: trace_nil)
next
  case (Cons c calls)
  obtain a g as where one: "serve c f = (a, g)" and rest: "serve_all calls g = (as, f')" and answers: "answers = a # as"
    using Cons.prems(4) by (auto split: prod.splits)
  have fits: "call_fits c f" "all_fit calls g" using Cons.prems(3) one by simp_all
  obtain cs1 where cs1: "current claims_format g = Some cs1" "custody_spec c a (holders cs) (holders cs1)"
    using serve_spec [OF Cons.prems(1,2) fits(1) one] by blast
  have "custody.sound g" using step_recorded [OF serve_step [OF fits(1) one] Cons.prems(1)] by simp
  from Cons.IH [OF this cs1(1) fits(2) rest] show ?case using cs1(2) answers by (auto intro: trace_cons)
qed

end
