(* ===== verification/CustodyGuarantees.thy ===== *)
theory CustodyGuarantees
  imports CustodyRefines
begin

text \<open>The guarantees of the claim ledger, each over any history of calls that begins with an empty folder.\<close>

section \<open>Exclusive custody\<close>

text \<open>C7. Custody is exclusive: whatever processes have called in whatever order, two active claims whose directories
  are the same or lie one inside the other are the same claim.\<close>

theorem custody_is_exclusive:
  assumes "custody_step\<^sup>*\<^sup>* new_folder f" "current claims_format f = Some cs"
    and "c \<in> set cs" "d \<in> set cs" "cl_status c = ClaimActive" "cl_status d = ClaimActive"
    and "is_relative_to (parse_path (re_path (cl_resource c))) (parse_path (re_path (cl_resource d)))"
  shows "c = d"
proof -
  have ok: "ledger_ok cs" using run_sound [OF assms(1)] assms(2) by (auto elim: custody.sound_current)
  have "overlaps (cl_resource c) (cl_resource d)" using assms(7) by (simp add: overlaps_def Let_def)
  then have "cl_claim_id c = cl_claim_id d"
    using ok assms(3-6) unfolding ledger_ok_def exclusive_def by blast
  with same_id [OF ok assms(3,4)] show ?thesis .
qed

theorem custody_is_exclusive_witness:
  "\<exists>c. current claims_format shared_folder = Some [c, norm_claim other_claim] \<and> cl_status c = ClaimActive
     \<and> \<not> is_relative_to (parse_path (re_path (cl_resource c))) (parse_path (re_path (cl_resource other_claim)))"
proof -
  obtain c where c: "current claims_format shared_folder = Some [c, norm_claim other_claim]" "cl_status c = ClaimActive"
    "cl_claim_id c \<noteq> cl_claim_id other_claim"
    using current_shared by blast
  have "c = norm_claim other_claim"
    if "is_relative_to (parse_path (re_path (cl_resource c))) (parse_path (re_path (cl_resource other_claim)))"
    using custody_is_exclusive [OF run_shared c(1), of c "norm_claim other_claim"] that c(2)
    by (simp add: other_claim_def)
  then show ?thesis using c by auto
qed

section \<open>What is written is accepted\<close>

text \<open>C28. The ledger never locks itself out: after any history its file, if it is there, passes the validation of the
  next call, and the claims it gives have the types, ids and owners the validation asks for.\<close>

theorem own_file_is_accepted:
  assumes "custody_step\<^sup>*\<^sup>* new_folder f"
  shows "\<exists>cs. current claims_format f = Some cs \<and> distinct (map cl_claim_id cs) \<and> (\<forall>c\<in>set cs. claim_ok c)"
  using run_ledger [OF assms] by (auto simp: ledger_ok_def)

theorem own_file_is_accepted_witness:
  "current claims_format claimed_folder = Some [norm_claim first_claim] \<and> claim_ok (norm_claim first_claim)"
  using own_file_is_accepted [OF run_claimed] current_claimed by simp

text \<open>The file stays within 4 MiB: no history of calls makes it larger than a later call would read.\<close>

theorem file_stays_within_limit:
  assumes "custody_step\<^sup>*\<^sup>* new_folder f" "fo_text f = Some t"
  shows "utf8_len t \<le> 4194304"
  using run_sound [OF assms(1)] assms(2) by (auto simp: custody.sound_def max_bytes_def)

theorem file_stays_within_limit_witness:
  "fo_text claimed_folder = Some (claims_text [first_claim]) \<and> utf8_len (claims_text [first_claim]) \<le> 4194304"
  using file_stays_within_limit [OF run_claimed, of "claims_text [first_claim]"] by (simp add: claimed_folder_def)

section \<open>Calls that are refused\<close>

text \<open>A refused call leaves the file: a claim, transfer, release or guard that raises, for whatever reason except a
  write lost after the rename, keeps the file's text as it was, be it readable or not, or has only written the
  empty ledger of a first use.\<close>

theorem refused_call_keeps_the_file:
  assumes "claim_resource env kind path who f = (Inl e, f') \<or> transfer env i generation who operator reason f = (Inl e, f')
      \<or> release env i generation who' operator reason f = (Inl e, f') \<or> guard_claim env i generation who f = (Inl e, f')"
    and "ce_last (cv_call env) \<noteq> LostAfter"
  shows "fo_text f' = fo_text f \<or> fo_text f = None \<and> fo_text f' = Some (claims_text [])"
proof -
  have t: "transaction claims_format True (cv_call env) body f = (Inl e, f') \<Longrightarrow> same_text claims_format f f'" for body
    using transaction_same_text assms(2) by fastforce
  from assms(1) have "same_text claims_format f f'"
  proof (elim disjE)
    assume "guard_claim env i generation who f = (Inl e, f')"
    then show ?thesis unfolding guard_claim_def by (rule enter_guard_same_text)
  qed (auto simp: claim_resource_def transfer_def release_def split: sum.splits if_splits dest: t)
  then show ?thesis by (simp add: same_text_def claims_format_def)
qed

theorem refused_call_keeps_the_file_witness:
  "claim_resource (call_at CHR ''1'') ''worktree'' ''/w/tree'' bob claimed_folder = (Inl (Refused ''resource_conflict''), claimed_folder)
   \<and> fo_text claimed_folder = Some (claims_text [first_claim])"
proof -
  have op: "opened claims_format quiet_call claimed_folder = (Inr [norm_claim first_claim], claimed_folder)"
    using custody.opened_clear [OF run_sound [OF run_claimed] current_claimed, of quiet_call]
    by (simp add: claimed_folder_def)
  have "claim_body (call_at CHR ''1'') tree bob_owner [norm_claim first_claim] = Inl (Refused ''resource_conflict'')"
    by (simp add: claim_body_def first_claim_def alice_owner_def bob_owner_def overlaps_def Let_def)
  then have call: "claim_resource (call_at CHR ''1'') ''worktree'' ''/w/tree'' bob claimed_folder
      = (Inl (Refused ''resource_conflict''), claimed_folder)"
    by (simp add: claim_resource_def transaction_def op)
  have "ce_last (cv_call (call_at CHR ''1'')) \<noteq> LostAfter" by (simp add: quiet_call_def)
  from refused_call_keeps_the_file [OF disjI1 [OF call] this] call show ?thesis by (simp add: claimed_folder_def)
qed

lemma unreadable_calls:
  assumes "current claims_format f = None"
  shows "\<exists>e. claim_resource env kind path who f = (Inl e, f)" "\<exists>e. transfer env i generation who operator reason f = (Inl e, f)"
    "\<exists>e. release env i generation who' operator reason f = (Inl e, f)" "\<exists>e. guard_claim env i generation who f = (Inl e, f)"
    "\<exists>e. inspect_claim cenv i f = (Inl e, f)" "\<exists>e. inspect_all cenv f = (Inl e, f)"
  using unreadable_transaction [OF assms] unreadable_guard [OF assms]
  by (auto simp: claim_resource_def transfer_def release_def guard_claim_def inspect_claim_def inspect_all_def split: sum.splits)

lemma one_claim_fails: "\<exists>e. p = (Inl e, f) \<Longrightarrow> \<exists>e. one_claim p = (Inl e, f)"
  by (auto simp: one_claim_def)

text \<open>C35. An unreadable file is retained: while the file holds something the validation refuses, every call of the ledger,
  reading or writing, fails and leaves the folder exactly as it was; only leaving a guard, which does not look at the file,
  has nothing to refuse.\<close>

theorem unreadable_file_is_retained:
  assumes "current claims_format f = None" and "call \<noteq> LeaveGuard"
  shows "\<exists>e. serve call f = (Inl e, f)"
  using assms(2) by (cases call) (simp_all add: one_claim_fails unreadable_calls [OF assms(1)])

theorem unreadable_file_is_retained_witness:
  "\<exists>e. inspect_all quiet_call \<lparr>fo_held = False, fo_text = Some ''{}'', fo_marker = True\<rparr>
     = (Inl e, \<lparr>fo_held = False, fo_text = Some ''{}'', fo_marker = True\<rparr>)"
proof -
  have l: "loads_unique ''{}'' = Some (JObj [])"
    using loads_unique_dumps [of "JObj []" True] by (simp add: dumps_def)
  have "current claims_format \<lparr>fo_held = False, fo_text = Some ''{}'', fo_marker = True\<rparr> = None"
    by (simp add: current_def read_state_def claims_format_def max_bytes_def claims_of_def l has_fields_def)
  from unreadable_file_is_retained [OF this, of "AskAll quiet_call"] show ?thesis by simp
qed

section \<open>The ledger as a map\<close>

definition two_calls :: "custody_call list" where
  "two_calls = [AskClaim (call_at CHR ''0'') ''worktree'' ''/w/tree'' alice,
     AskTransfer (call_at CHR ''1'') (cl_claim_id first_claim) (JInt 1) bob (JBool True) (JStr ''handoff'')]"

text \<open>C27. The ledger refines a map from claim ids to generation, holder and directory, call by call: for every history of
  calls, whatever the operating system does to them, the sequence of calls with the answers they got is a history of the
  map.  There a claim takes a new id at generation one on ground that no holder has; a transfer or a release needs the
  current generation of a held claim, moves to the next one and keeps the claim in the map; a guard and the readings answer
  what the map says; a refusal changes nothing; and only a write lost after the rename hides a change behind an error.\<close>

theorem custody_refines_map:
  assumes "all_fit calls new_folder" "serve_all calls new_folder = (answers, f)"
  shows "\<exists>cs. current claims_format f = Some cs \<and> custody_trace calls answers Map.empty (holders cs)"
proof -
  have "current claims_format new_folder = Some []" by (simp add: current_def new_folder_def claims_format_def)
  from serve_all_spec [OF sound_new_folder this assms] show ?thesis by (simp add: holders_def)
qed

theorem custody_refines_map_witness:
  "\<exists>f cs. serve_all two_calls new_folder = ([Inr [first_claim], Inr [second_claim]], f) \<and> current claims_format f = Some cs
    \<and> custody_trace two_calls [Inr [first_claim], Inr [second_claim]] Map.empty (holders cs)"
proof -
  obtain f where two: "transfer (call_at CHR ''1'') (cl_claim_id first_claim) (JInt 1) bob (JBool True) (JStr ''handoff'') claimed_folder
      = (Inr second_claim, f)"
    using second_call by blast
  have run: "serve_all two_calls new_folder = ([Inr [first_claim], Inr [second_claim]], f)"
    by (simp add: two_calls_def one_claim_def first_call two)
  have "all_fit two_calls new_folder"
    by (simp add: two_calls_def call_ok_first one_claim_def first_call call_ok_other)
  from custody_refines_map [OF this run] run show ?thesis by blast
qed

section \<open>Tokens and guards\<close>

text \<open>C8. A token that was given up is fenced for good: once a transfer or a release with it was accepted, then after any
  further history, by whomever, a guard, a transfer or a release with that id and generation fails.\<close>

theorem spent_token_is_fenced:
  assumes "custody_step\<^sup>*\<^sup>* new_folder f" "is_reading (cv_later env)" "json_wf reason"
    and "transfer env i (JInt g) who operator reason f = (Inr c, f1) \<or> release env i (JInt g) who' operator reason f = (Inr c, f1)"
    and "custody_step\<^sup>*\<^sup>* f1 f2"
  shows "isl (fst (guard_claim env2 i (JInt g) who2 f2))
    \<and> isl (fst (transfer env2 i (JInt g) who2 operator2 reason2 f2))
    \<and> isl (fst (release env2 i (JInt g) who3 operator2 reason2 f2))"
proof -
  note s = run_sound [OF assms(1)]
  obtain cs where cs: "current claims_format f1 = Some cs" "spent i g cs" "custody.sound f1"
    using assms(4) by (elim disjE) (erule accepted_transfer [OF _ s assms(2)] accepted_release [OF _ s assms(2,3)], blast)+
  obtain cs2 where cs2: "current claims_format f2 = Some cs2" "spent i g cs2"
    using spent_for_good [OF assms(5) cs(3,1,2)] .
  from spent_refused [OF steps_sound [OF assms(5) cs(3)] cs2] show ?thesis by blast
qed

theorem spent_token_is_fenced_witness:
  "\<exists>f1. fst (transfer (call_at CHR ''1'') (cl_claim_id first_claim) (JInt 1) bob (JBool True) (JStr ''handoff'') claimed_folder)
      = Inr second_claim
     \<and> f1 = snd (transfer (call_at CHR ''1'') (cl_claim_id first_claim) (JInt 1) bob (JBool True) (JStr ''handoff'') claimed_folder)
     \<and> isl (fst (guard_claim (call_at CHR ''1'') (cl_claim_id first_claim) (JInt 1) alice f1))"
proof -
  obtain f1 where tr: "transfer (call_at CHR ''1'') (cl_claim_id first_claim) (JInt 1) bob (JBool True) (JStr ''handoff'') claimed_folder
      = (Inr second_claim, f1)"
    using second_call by blast
  have "is_reading (cv_later (call_at CHR ''1''))" "json_wf (JStr ''handoff'')" by (simp_all add: is_reading_def)
  from spent_token_is_fenced [OF run_claimed this disjI1 [OF tr] rtranclp.rtrancl_refl] tr show ?thesis by simp
qed

text \<open>C15. An open guard keeps everyone out: a guard is granted only for the active claim's current generation, to its
  freshly observed owner, on the same directory, and until it is left or its process dies no call of any process
  succeeds in changing the folder.\<close>

theorem guard_keeps_everyone_out:
  assumes "custody_step\<^sup>*\<^sup>* new_folder f" "guard_claim env i g who f = (Inr c, f')"
  shows "(\<exists>cs. current claims_format f' = Some cs \<and> c \<in> set cs) \<and> cl_claim_id c = i \<and> cl_status c = ClaimActive
    \<and> g = JInt (cl_generation c) \<and> validated who (cv_now env) = Some (cl_owner c)
    \<and> resource_at (cv_fs env) (re_kind (cl_resource c)) (re_path (cl_resource c)) = Inr (cl_resource c)
    \<and> (\<forall>f''. custody_step f' f'' \<longrightarrow> f'' = f' \<or> f'' = leave_guard f')"
proof -
  from custody.enter_guard_effect [OF run_sound [OF assms(1)] assms(2) [unfolded guard_claim_def]]
  obtain cs where cs: "current claims_format f = Some cs" "guard_body env i g who cs = Inr c"
    "current claims_format f' = Some cs" "fo_held f'"
    by auto
  note b = guard_body_Inr [OF cs(2)]
  show ?thesis using b cs(3) held_step [OF _ cs(4)] by (auto simp: b(3) [symmetric])
qed

theorem guard_keeps_everyone_out_witness:
  "\<exists>f'. guard_claim (call_at CHR ''1'') (cl_claim_id first_claim) (JInt 1) alice claimed_folder = (Inr (norm_claim first_claim), f')
     \<and> (\<forall>f''. custody_step f' f'' \<longrightarrow> f'' = f' \<or> f'' = leave_guard f')"
proof -
  obtain f' where g: "guard_claim (call_at CHR ''1'') (cl_claim_id first_claim) (JInt 1) alice claimed_folder
      = (Inr (norm_claim first_claim), f')"
    using first_guard by blast
  from guard_keeps_everyone_out [OF run_claimed g] g show ?thesis by blast
qed

text \<open>A granted claim admits its owner: after a claim was answered, a guard with the id and generation of the answer
  is granted on an undisturbed call as long as the owner's evidence is fresh and the directory is unchanged.\<close>

theorem granted_claim_admits_its_owner:
  assumes "custody_step\<^sup>*\<^sup>* new_folder f" "call_ok env f" "claim_resource env kind path who f = (Inr c, f')"
    and "clear_call (cv_call env')" "cv_fs env' = cv_fs env" "validated who (cv_now env') \<noteq> None"
  shows "fst (guard_claim env' (cl_claim_id c) (JInt (cl_generation c)) who f') = Inr (norm_claim c)"
proof -
  note s = run_sound [OF assms(1)]
  obtain w r where w: "checked_owner who (cv_now env) = Inr w" and r: "resource_at (cv_fs env) kind path = Inr r"
    and tr: "transaction claims_format True (cv_call env) (claim_body env r w) f = (Inr c, f')"
    using assms(3) by (auto simp: claim_resource_def split: sum.splits)
  obtain cs cs' where cs: "current claims_format f = Some cs" "ledger_ok cs" "claim_body env r w cs = Inr (c, cs')"
    "fo_text f' = Some (claims_text cs')" "utf8_len (claims_text cs') \<le> int max_bytes" "\<not> fo_held f'"
    using custody_Inr [OF s tr] by blast
  note s' = conjunct1 [OF claim_recorded [OF s assms(2,3)]]
  have "evolves cs cs'"
    using claim_body_evolves [OF cs(3) resource_at_ok [OF r] checked_owner_ok [OF w]] assms(2) cs(1)
    by (simp add: call_ok_def)
  then have ok': "ledger_ok cs'" using evolves_ok cs(2) by blast
  note ans = claim_body_answer [OF cs(3)]
  have "checked_owner who (cv_now env') = Inr (cl_owner c)"
    using w assms(6) validated_again [of who "cv_now env" w "cv_now env'"] ans(4)
    by (auto simp: checked_owner_def split: option.splits)
  then have "guard_body env' (cl_claim_id c) (JInt (cl_generation c)) who (map norm_claim cs') = Inr (norm_claim c)"
    using resource_again [OF r] ans assms(5) by (intro guard_granted [OF ok']) simp_all
  from custody.enter_guard_clear [OF s' written_current [OF s' cs(4) ok' cs(5)] _ cs(6) assms(4),
      of "guard_body env' (cl_claim_id c) (JInt (cl_generation c)) who", OF _ this]
  show ?thesis using cs(4) by (simp add: guard_claim_def)
qed

theorem granted_claim_admits_its_owner_witness:
  "fst (guard_claim (call_at CHR ''1'') (cl_claim_id first_claim) (JInt 1) alice claimed_folder) = Inr (norm_claim first_claim)"
proof -
  have "validated alice (JInt 100) \<noteq> None"
    using checked(1) by (auto simp: checked_owner_def split: option.splits)
  then show ?thesis
    using granted_claim_admits_its_owner [OF rtranclp.rtrancl_refl call_ok_first first_call, of "call_at CHR ''1''"]
    by (simp add: first_claim_def)
qed

end
