(* ===== verification/Permissions.thy ===== *)
theory Permissions
  imports ResourceClaims Sha256
begin

text \<open>
  \<open>session_permissions.py\<close>: the policy that decides what a session may do.  A policy is a JSON object: layers
  (global, profile, session, assignment) with a default and rules per action, mandatory prohibitions, approvals, delegations and
  what an adoption retained.  This theory has its validation and the decision; the stored policy and
  its changes are in \<^theory_text>\<open>PermissionStore\<close>.
\<close>

section \<open>Actions and decisions\<close>

definition actions :: "(string \<times> string) list" where
  "actions =
     [(''session.inspect'', ''allow''), (''refresh.self'', ''allow''),
      (''refresh.connection'', ''allow''), (''refresh.shared'', ''approval_required''),
      (''handoff.self'', ''allow''), (''resume.self'', ''allow''), (''resume.recover'', ''approval_required''),
      (''enforcement.self_watch'', ''allow''), (''enforcement.enroll'', ''allow''),
      (''enforcement.watcher_start'', ''approval_required''), (''enforcement.increase'', ''approval_required''),
      (''enforcement.disable'', ''approval_required''), (''enforcement.recover'', ''approval_required''),
      (''a2a.send'', ''allow''), (''a2a.receive'', ''allow''), (''a2a.claim'', ''allow''), (''a2a.reply'', ''allow''),
      (''wake.background'', ''allow''), (''wake.existing_tab'', ''allow''),
      (''wake.new_tab'', ''allow''), (''wake.fresh_task'', ''allow''),
      (''acceptance.verify'', ''approval_required''), (''job.launch'', ''approval_required''),
      (''job.cancel'', ''approval_required''), (''attention.request'', ''allow''),
      (''attention.respond'', ''approval_required''), (''attention.consume'', ''allow''),
      (''workspace.order'', ''approval_required''), (''workspace.undo'', ''approval_required''),
      (''workspace.navigate'', ''approval_required''), (''terminal.menu'', ''approval_required''),
      (''terminal.takeover'', ''approval_required''), (''terminal.return'', ''approval_required'')]"

definition decisions :: "string list" where
  "decisions = [''allow'', ''deny'', ''approval_required'', ''inherit'']"

definition relationships :: "string list" where
  "relationships = [''self'', ''peer'', ''successor'', ''shared'']"

definition self_actions :: "string list" where
  "self_actions = [''session.inspect'', ''refresh.self'', ''refresh.connection'', ''handoff.self'', ''resume.self'',
     ''enforcement.self_watch'']"

definition lifecycle_actions :: "string list" where
  "lifecycle_actions = [''refresh.self'', ''refresh.connection'', ''refresh.shared'', ''handoff.self'', ''resume.self'']"

definition max_policy_bytes :: int where
  "max_policy_bytes = 262144"

section \<open>Reading a policy\<close>

text \<open>\<open>d.get(k, {})\<close> and \<open>d.get(k, [])\<close> of a validated policy, and an optional argument as a value.\<close>

definition member_dict :: "(string, json) dict \<Rightarrow> string \<Rightarrow> (string, json) dict" where
  "member_dict d k = (case dict_get d k of Some (JObj e) \<Rightarrow> e | _ \<Rightarrow> [])"

definition member_list :: "(string, json) dict \<Rightarrow> string \<Rightarrow> json list" where
  "member_list d k = (case dict_get d k of Some (JArr xs) \<Rightarrow> xs | _ \<Rightarrow> [])"

definition str_or_none :: "string option \<Rightarrow> json" where
  "str_or_none t = (case t of None \<Rightarrow> JNull | Some s \<Rightarrow> JStr s)"

definition is_name :: "json \<Rightarrow> bool" where
  "is_name v = (case v of JStr s \<Rightarrow> s \<noteq> [] | _ \<Rightarrow> False)"

definition is_action :: "json \<Rightarrow> bool" where
  "is_action v = (case v of JStr s \<Rightarrow> s \<in> set (dict_keys actions) | _ \<Rightarrow> False)"

definition is_decision :: "json \<Rightarrow> bool" where
  "is_decision v = (case v of JStr s \<Rightarrow> s \<in> set decisions | _ \<Rightarrow> False)"

text \<open>A member that is absent or passes the test.\<close>

definition optional :: "(json \<Rightarrow> bool) \<Rightarrow> (string, json) dict \<Rightarrow> string \<Rightarrow> bool" where
  "optional P d k = (case dict_get d k of None \<Rightarrow> True | Some v \<Rightarrow> P v)"

definition list_of :: "(json \<Rightarrow> bool) \<Rightarrow> json \<Rightarrow> bool" where
  "list_of P v = (case v of JArr xs \<Rightarrow> list_all P xs | _ \<Rightarrow> False)"

definition keys_within :: "string list \<Rightarrow> (string, json) dict \<Rightarrow> bool" where
  "keys_within ks d = list_all (\<lambda>k. k \<in> set ks) (dict_keys d)"

section \<open>Validation\<close>

definition scope_ok :: "json \<Rightarrow> bool" where
  "scope_ok v = (list_of is_name v \<and> v \<noteq> JArr [])"

definition rule_ok :: "json \<Rightarrow> bool" where
  "rule_ok v =
     (case v of
        JStr s \<Rightarrow> s \<in> set decisions
      | JObj r \<Rightarrow>
          keys_within [''decision'', ''relationships'', ''targets'', ''tasks''] r \<and> is_decision (jget r ''decision'')
          \<and> optional scope_ok r ''relationships'' \<and> optional scope_ok r ''targets'' \<and> optional scope_ok r ''tasks''
          \<and> list_all (\<lambda>x. x \<in> JStr ` set relationships) (member_list r ''relationships'')
      | _ \<Rightarrow> False)"

definition actions_ok :: "json \<Rightarrow> bool" where
  "actions_ok v = (case v of JObj d \<Rightarrow> list_all (\<lambda>(a, r). a \<in> set (dict_keys actions) \<and> rule_ok r) d | _ \<Rightarrow> False)"

definition layer_ok :: "json \<Rightarrow> bool" where
  "layer_ok v =
     (case v of
        JObj d \<Rightarrow>
          keys_within [''default'', ''actions'', ''profile'', ''authorized_profiles''] d
          \<and> optional is_decision d ''default'' \<and> optional actions_ok d ''actions''
          \<and> optional is_name d ''profile'' \<and> optional (list_of is_name) d ''authorized_profiles''
      | _ \<Rightarrow> False)"

definition group_ok :: "json \<Rightarrow> bool" where
  "group_ok v = (case v of JObj d \<Rightarrow> list_all (\<lambda>(n, l). n \<noteq> [] \<and> layer_ok l) d | _ \<Rightarrow> False)"

text \<open>\<open>parse_timestamp\<close>: surrounding space is dropped, the instant is cut to whole seconds.\<close>

definition parse_timestamp :: "string \<Rightarrow> nat option" where
  "parse_timestamp s = map_option (\<lambda>t. micros t div 1000000) (parse_time (strip s))"

definition epoch_seconds :: "nat \<Rightarrow> int" where
  "epoch_seconds n = int n - 62135596800"

definition timestamp_ok :: "json \<Rightarrow> bool" where
  "timestamp_ok v = (case v of JStr s \<Rightarrow> parse_timestamp s \<noteq> None | _ \<Rightarrow> False)"

definition is_bool :: "json \<Rightarrow> bool" where
  "is_bool v = (v = JBool True \<or> v = JBool False)"

definition approval_ok :: "json \<Rightarrow> bool" where
  "approval_ok v =
     (case v of
        JObj a \<Rightarrow>
          keys_within [''id'', ''action'', ''subject'', ''scope'', ''issuer'', ''task_id'', ''expires_at'', ''target'', ''successors''] a
          \<and> list_all (\<lambda>k. is_name (jget a k)) [''id'', ''action'', ''subject'', ''scope'', ''issuer'']
          \<and> is_action (jget a ''action'')
          \<and> jget a ''scope'' \<in> {JStr ''operation'', JStr ''task'', JStr ''standing''}
          \<and> optional is_bool a ''successors''
          \<and> (jget a ''scope'' = JStr ''standing''
              \<or> ''expires_at'' \<in> set (dict_keys a) \<and> ''task_id'' \<in> set (dict_keys a))
          \<and> optional timestamp_ok a ''expires_at''
      | _ \<Rightarrow> False)"

definition delegation_ok :: "json \<Rightarrow> bool" where
  "delegation_ok v =
     (case v of
        JObj d \<Rightarrow> has_fields [''actions'', ''sessions''] d \<and> list_of is_action (jget d ''actions'')
          \<and> list_of is_name (jget d ''sessions'')
      | _ \<Rightarrow> False)"

definition adoption_ok :: "json \<Rightarrow> bool" where
  "adoption_ok v =
     (case v of
        JNull \<Rightarrow> True
      | JObj d \<Rightarrow>
          has_fields [''version'', ''source_sha256'', ''legacy_profile_grants''] d \<and> jget d ''version'' = JInt 1
          \<and> (case jget d ''source_sha256'' of
               JStr s \<Rightarrow> length s = 64 \<and> list_all (\<lambda>c. c \<in> set ''0123456789abcdef'') s
             | _ \<Rightarrow> False)
          \<and> (case jget d ''legacy_profile_grants'' of
               JObj g \<Rightarrow> list_all (\<lambda>(n, xs). n \<noteq> [] \<and> list_of is_name xs) g
             | _ \<Rightarrow> False)
      | _ \<Rightarrow> False)"

definition profile_known :: "(string, json) dict \<Rightarrow> (string, json) dict \<Rightarrow> bool" where
  "profile_known p l =
     (case dict_get l ''profile'' of
        Some (JStr s) \<Rightarrow> s \<in> set (dict_keys (member_dict p ''profiles'')) \<or> s = ''permissive''
      | _ \<Rightarrow> True)"

definition as_dict :: "json \<Rightarrow> (string, json) dict" where
  "as_dict v = (case v of JObj d \<Rightarrow> d | _ \<Rightarrow> [])"

text \<open>\<open>json.dumps\<close> with its default separators.\<close>

primrec render_spaced :: "json \<Rightarrow> string" where
  "render_spaced JNull = ''null''"
| "render_spaced (JBool b) = (if b then ''true'' else ''false'')"
| "render_spaced (JInt i) = int_str i"
| "render_spaced (JFloat m e) = float_str m e"
| "render_spaced (JStr s) = dumps_str True s"
| "render_spaced (JArr xs) = ''['' @ join '', '' (map render_spaced xs) @ '']''"
| "render_spaced (JObj d) =
     ''{'' @ join '', '' (map (\<lambda>(k, t). dumps_str True k @ '': '' @ t) (map (map_prod id render_spaced) d)) @ ''}''"

definition dumps_spaced :: "json \<Rightarrow> string" where
  "dumps_spaced v = render_spaced (sort_json v)"

definition policy_fields :: "string list" where
  "policy_fields = [''version'', ''global'', ''profiles'', ''sessions'', ''assignments'', ''mandatory'', ''approvals'',
     ''delegations'', ''known_actions'', ''future_actions_inherit'', ''adoption'']"

definition delegations_ok :: "json \<Rightarrow> bool" where
  "delegations_ok v = (case v of JObj d \<Rightarrow> list_all (\<lambda>(n, w). delegation_ok w) d | _ \<Rightarrow> False)"

definition policy_shape :: "(string, json) dict \<Rightarrow> bool" where
  "policy_shape p =
     (keys_within policy_fields p \<and> jget p ''version'' = JInt 1 \<and> optional is_bool p ''future_actions_inherit''
      \<and> optional layer_ok p ''global'' \<and> optional group_ok p ''profiles''
      \<and> optional group_ok p ''sessions'' \<and> optional group_ok p ''assignments''
      \<and> optional (list_of is_action) p ''known_actions'' \<and> distinct (member_list p ''known_actions'')
      \<and> optional (list_of is_action) p ''mandatory'' \<and> optional (list_of approval_ok) p ''approvals''
      \<and> distinct (map (\<lambda>a. jget (as_dict a) ''id'') (member_list p ''approvals''))
      \<and> optional delegations_ok p ''delegations''
      \<and> profile_known p (member_dict p ''global'')
      \<and> list_all (\<lambda>(n, l). profile_known p (as_dict l)) (member_dict p ''sessions'')
      \<and> list_all (\<lambda>(n, l). profile_known p (as_dict l)) (member_dict p ''assignments'')
      \<and> optional adoption_ok p ''adoption'')"

definition valid_policy :: "json \<Rightarrow> bool" where
  "valid_policy v =
     (utf8_len (render_spaced v) \<le> max_policy_bytes \<and> (case v of JObj p \<Rightarrow> policy_shape p | _ \<Rightarrow> False))"

section \<open>Who asks, and for what\<close>

record principal =
  pr_subject :: string
  pr_role :: string
  pr_tasks :: "string list"
  pr_predecessor :: "string option"
  pr_ancestors :: "string list"

definition principal_ok :: "principal \<Rightarrow> bool" where
  "principal_ok pr =
     (pr_subject pr \<noteq> [] \<and> pr_role pr \<in> set [''session'', ''operator'', ''controller'']
      \<and> [] \<notin> set (pr_tasks pr) \<and> length (pr_ancestors pr) \<le> 256 \<and> distinct (pr_ancestors pr)
      \<and> [] \<notin> set (pr_ancestors pr) \<and> pr_predecessor pr \<noteq> Some [])"

record question =
  qn_action :: string
  qn_target :: "string option"
  qn_relationship :: "string option"
  qn_task :: "string option"
  qn_operation :: "string option"
  qn_capability :: string
  qn_readiness :: string
  qn_launch_profile :: "string option"

record verdict =
  vd_permission :: string
  vd_action :: string
  vd_subject :: string
  vd_target :: string
  vd_relationship :: string
  vd_task :: "string option"
  vd_operation :: "string option"
  vd_rule :: string
  vd_revision :: int
  vd_approval_id :: "string option"
  vd_approval_scope :: "string option"
  vd_approval_issuer :: "string option"
  vd_capability :: string
  vd_readiness :: string
  vd_scope_matched :: bool
  vd_profile :: string

text \<open>\<open>target or subject\<close>, and the relationship this target has: an empty string counts as absent.\<close>

definition given :: "string option \<Rightarrow> string \<Rightarrow> string" where
  "given t d = (case t of Some s \<Rightarrow> if s = [] then d else s | None \<Rightarrow> d)"

definition target_of :: "principal \<Rightarrow> question \<Rightarrow> string" where
  "target_of pr q = given (qn_target q) (pr_subject pr)"

definition relation_to :: "principal \<Rightarrow> question \<Rightarrow> string" where
  "relation_to pr q = given (qn_relationship q) (if target_of pr q = pr_subject pr then ''self'' else ''peer'')"

section \<open>The layers\<close>

definition rule_at :: "(string, json) dict \<Rightarrow> string \<Rightarrow> json" where
  "rule_at l a =
     (case dict_get (member_dict l ''actions'') a of
        Some v \<Rightarrow> v
      | None \<Rightarrow> (case dict_get l ''default'' of Some v \<Rightarrow> v | None \<Rightarrow> JStr ''inherit''))"

definition str_of :: "json \<Rightarrow> string" where
  "str_of v = (case v of JStr s \<Rightarrow> s | _ \<Rightarrow> [])"

definition rule_decision :: "json \<Rightarrow> string" where
  "rule_decision v = (case v of JObj r \<Rightarrow> str_of (jget r ''decision'') | _ \<Rightarrow> str_of v)"

definition scope_holds :: "(string, json) dict \<Rightarrow> string \<Rightarrow> json \<Rightarrow> bool" where
  "scope_holds r k actual = (case dict_get r k of None \<Rightarrow> True | Some (JArr xs) \<Rightarrow> actual \<in> set xs | Some _ \<Rightarrow> False)"

definition rule_matches :: "json \<Rightarrow> string \<Rightarrow> string \<Rightarrow> string option \<Rightarrow> bool" where
  "rule_matches v relation target task =
     (case v of
        JObj r \<Rightarrow> scope_holds r ''relationships'' (JStr relation) \<and> scope_holds r ''targets'' (JStr target)
          \<and> scope_holds r ''tasks'' (str_or_none task)
      | _ \<Rightarrow> True)"

record ruling =
  ru_decision :: string
  ru_source :: string
  ru_failed :: bool

definition apply_layer ::
  "string \<Rightarrow> string \<Rightarrow> string \<Rightarrow> string option \<Rightarrow> string \<times> (string, json) dict \<Rightarrow> ruling \<Rightarrow> ruling" where
  "apply_layer a relation target task nl ru =
     (let v = rule_at (snd nl) a; m = rule_matches v relation target task
      in if rule_decision v = ''inherit'' then ru
         else \<lparr>ru_decision = (if m then rule_decision v else ''deny''), ru_source = fst nl, ru_failed = \<not> m\<rparr>)"

definition assignment_of :: "(string, json) dict \<Rightarrow> string option \<Rightarrow> (string, json) dict" where
  "assignment_of p task =
     (case task of None \<Rightarrow> [] | Some t \<Rightarrow> if t = [] then [] else member_dict (member_dict p ''assignments'') t)"

definition selected_profile :: "(string, json) dict \<Rightarrow> string \<Rightarrow> string option \<Rightarrow> string" where
  "selected_profile p subject task =
     (case dict_get (assignment_of p task) ''profile'' of
        Some v \<Rightarrow> str_of v
      | None \<Rightarrow>
          (case dict_get (member_dict (member_dict p ''sessions'') subject) ''profile'' of
             Some v \<Rightarrow> str_of v
           | None \<Rightarrow>
               (case dict_get (member_dict p ''global'') ''profile'' of Some v \<Rightarrow> str_of v | None \<Rightarrow> ''permissive'')))"

definition layers_of :: "(string, json) dict \<Rightarrow> string \<Rightarrow> string option \<Rightarrow> (string \<times> (string, json) dict) list" where
  "layers_of p subject task =
     (let sel = selected_profile p subject task
      in [(''global'', member_dict p ''global''), (''profile:'' @ sel, member_dict (member_dict p ''profiles'') sel),
          (''session'', member_dict (member_dict p ''sessions'') subject), (''assignment'', assignment_of p task)])"

definition explicitly_configured :: "(string, json) dict \<Rightarrow> string \<Rightarrow> string option \<Rightarrow> string \<Rightarrow> bool" where
  "explicitly_configured p subject task a =
     list_ex (\<lambda>(n, l). a \<in> set (dict_keys (member_dict l ''actions''))) (layers_of p subject task)"

definition initial_ruling :: "string \<Rightarrow> string \<Rightarrow> ruling" where
  "initial_ruling sel a =
     \<lparr>ru_decision = (if sel = ''permissive'' then (case dict_get actions a of Some d \<Rightarrow> d | None \<Rightarrow> []) else ''approval_required''),
      ru_source = ''profile:'' @ sel, ru_failed = False\<rparr>"

definition layered :: "(string, json) dict \<Rightarrow> principal \<Rightarrow> question \<Rightarrow> ruling" where
  "layered p pr q =
     fold (apply_layer (qn_action q) (relation_to pr q) (target_of pr q) (qn_task q)) (layers_of p (pr_subject pr) (qn_task q))
       (initial_ruling (selected_profile p (pr_subject pr) (qn_task q)) (qn_action q))"

section \<open>What overrides the layers\<close>

definition ruled :: "string \<Rightarrow> string \<Rightarrow> ruling \<Rightarrow> ruling" where
  "ruled d s ru = ru\<lparr>ru_decision := d, ru_source := s\<rparr>"

definition known_actions :: "(string, json) dict \<Rightarrow> json list" where
  "known_actions p =
     (case dict_get p ''known_actions'' of Some (JArr xs) \<Rightarrow> xs | _ \<Rightarrow> map JStr (dict_keys actions))"

definition exact_scope :: "principal \<Rightarrow> question \<Rightarrow> ruling \<Rightarrow> ruling" where
  "exact_scope pr q ru =
     (let ru' = (if qn_action q \<in> set self_actions \<and> relation_to pr q \<noteq> ''self''
                 then ruled ''deny'' ''exact_self_required'' ru else ru)
      in if qn_action q = ''refresh.shared'' \<and> relation_to pr q \<noteq> ''shared''
         then ruled ''deny'' ''shared_scope_required'' ru' else ru')"

definition prohibited :: "(string, json) dict \<Rightarrow> principal \<Rightarrow> question \<Rightarrow> ruling \<Rightarrow> ruling" where
  "prohibited p pr q ru =
     (if JStr (qn_action q) \<in> set (member_list p ''mandatory'') then ruled ''deny'' ''mandatory'' ru
      else if JStr (qn_action q) \<notin> set (known_actions p)
              \<and> \<not> explicitly_configured p (pr_subject pr) (qn_task q) (qn_action q)
              \<and> jget p ''future_actions_inherit'' \<noteq> JBool True \<and> ru_decision ru \<noteq> ''deny''
      then ruled ''approval_required'' ''new_action'' ru else ru)"

text \<open>The key of a task among the owners that are finished.\<close>

definition owner_key :: "string \<Rightarrow> string" where
  "owner_key t = sha256_hex (dumps_spaced (JObj [(''kind'', JStr ''task''), (''id'', JStr t)]))"

definition task_finished :: "(string, json) dict \<Rightarrow> string option \<Rightarrow> bool" where
  "task_finished owners task =
     (case task of None \<Rightarrow> False | Some t \<Rightarrow> jget owners (owner_key t) \<noteq> JNull)"

definition legacy_ceiling :: "(string, json) dict \<Rightarrow> principal \<Rightarrow> question \<Rightarrow> bool" where
  "legacy_ceiling p pr q =
     (qn_action q \<in> set lifecycle_actions
      \<and> (case dict_get (member_dict (member_dict p ''adoption'') ''legacy_profile_grants'') (pr_subject pr) of
           Some (JArr xs) \<Rightarrow> str_or_none (qn_launch_profile q) \<notin> set xs
         | _ \<Rightarrow> False))"

definition base_ruling :: "(string, json) dict \<Rightarrow> (string, json) dict \<Rightarrow> principal \<Rightarrow> question \<Rightarrow> ruling" where
  "base_ruling p owners pr q =
     (let r1 = prohibited p pr q (exact_scope pr q (layered p pr q));
          r2 = (if task_finished owners (qn_task q) then ruled ''deny'' ''task_completed'' r1 else r1)
      in if legacy_ceiling p pr q then ruled ''deny'' ''legacy_profile_ceiling'' r2 else r2)"

section \<open>Approvals\<close>

definition expired :: "(string, json) dict \<Rightarrow> json \<Rightarrow> bool" where
  "expired a now =
     (case dict_get a ''expires_at'' of
        Some (JStr s) \<Rightarrow>
          (case (parse_timestamp s, decimal_of now) of
             (Some t, Some n) \<Rightarrow> dec_le (epoch_seconds t, 0) n
           | _ \<Rightarrow> True)
      | Some _ \<Rightarrow> True
      | None \<Rightarrow> False)"

definition approval_for :: "(string, json) dict \<Rightarrow> principal \<Rightarrow> bool" where
  "approval_for a pr =
     (jget a ''subject'' = JStr (pr_subject pr)
      \<or> jget a ''subject'' \<in> set (map JStr (case pr_predecessor pr of None \<Rightarrow> pr_ancestors pr | Some s \<Rightarrow> s # pr_ancestors pr))
        \<and> jget a ''scope'' = JStr ''task'' \<and> optional (\<lambda>b. b = JBool True) a ''successors'')"

definition approval_covers :: "(string, json) dict \<Rightarrow> principal \<Rightarrow> question \<Rightarrow> json \<Rightarrow> bool" where
  "approval_covers a pr q now =
     (jget a ''action'' = JStr (qn_action q) \<and> approval_for a pr
      \<and> optional (\<lambda>t. t = JStr (target_of pr q)) a ''target'' \<and> \<not> expired a now
      \<and> (jget a ''scope'' = JStr ''standing'' \<or> jget a ''task_id'' = str_or_none (qn_task q))
      \<and> (jget a ''scope'' \<noteq> JStr ''operation'' \<or> jget a ''id'' = str_or_none (qn_operation q))
      \<and> (qn_action q \<noteq> ''refresh.shared'' \<or> jget a ''scope'' = JStr ''standing''))"

definition matching_approval :: "(string, json) dict \<Rightarrow> principal \<Rightarrow> question \<Rightarrow> json \<Rightarrow> (string, json) dict option" where
  "matching_approval p pr q now = find (\<lambda>a. approval_covers a pr q now) (map as_dict (member_list p ''approvals''))"

section \<open>The decision\<close>

definition verdict_of :: "(string, json) dict \<Rightarrow> int \<Rightarrow> ruling \<Rightarrow> (string, json) dict option \<Rightarrow> principal \<Rightarrow> question \<Rightarrow> verdict" where
  "verdict_of p revision ru a pr q =
     \<lparr>vd_permission = (if a = None then ru_decision ru else ''allow''), vd_action = qn_action q, vd_subject = pr_subject pr,
      vd_target = target_of pr q, vd_relationship = relation_to pr q, vd_task = qn_task q, vd_operation = qn_operation q,
      vd_rule = ru_source ru, vd_revision = revision, vd_approval_id = map_option (\<lambda>a. str_of (jget a ''id'')) a,
      vd_approval_scope = map_option (\<lambda>a. str_of (jget a ''scope'')) a,
      vd_approval_issuer = map_option (\<lambda>a. str_of (jget a ''issuer'')) a,
      vd_capability = qn_capability q, vd_readiness = qn_readiness q, vd_scope_matched = (\<not> ru_failed ru),
      vd_profile = selected_profile p (pr_subject pr) (qn_task q)\<rparr>"

definition decide :: "(string, json) dict \<Rightarrow> int \<Rightarrow> (string, json) dict \<Rightarrow> json \<Rightarrow> principal \<Rightarrow> question \<Rightarrow> verdict" where
  "decide p revision owners now pr q =
     (let ru = base_ruling p owners pr q;
          a = (if ru_decision ru = ''approval_required'' then matching_approval p pr q now else None)
      in verdict_of p revision ru a pr q)"

text \<open>The checks before the policy is read.\<close>

definition question_ok :: "principal \<Rightarrow> question \<Rightarrow> unit attempt" where
  "question_ok pr q =
     (if \<not> principal_ok pr then Inl (Refused ''permission_identity_unverified'')
      else if qn_action q \<notin> set (dict_keys actions) then Inl (Refused ''permission_action_unknown'')
      else if relation_to pr q \<notin> set relationships \<or> relation_to pr q = ''self'' \<and> target_of pr q \<noteq> pr_subject pr
      then Inl (Refused ''permission_target_mismatch'')
      else (case qn_task q of
              Some t \<Rightarrow> if pr_role pr \<noteq> ''operator'' \<and> t \<notin> set (pr_tasks pr)
                        then Inl (Refused ''permission_task_scope_unverified'') else Inr ()
            | None \<Rightarrow> Inr ()))"

end
