(* ===== verification/PermissionStore.thy ===== *)
theory PermissionStore
  imports Permissions
begin

text \<open>
  \<open>PermissionStore\<close> of \<open>session_permissions.py\<close>: roots with a policy file and its history, roots that are routed to the policy of
  another, the compare-and-set change by an operator and the changes a session or a controller may make.  A file
  is the JSON value it denotes; the order of keys in it means nothing to the code.
\<close>

section \<open>Roots and calls\<close>

record root_state =
  rt_link :: "json option"
  rt_policy :: "json option"
  rt_adopted :: "json option"

type_synonym roots = "string \<Rightarrow> root_state"

text \<open>What the operating system answers: which roots are canonical and private, the finished owners
  and whether their file can be read or made, the clock, the two writes.\<close>

record store_env =
  se_canonical :: "string \<Rightarrow> bool"
  se_private :: "string \<Rightarrow> bool"
  se_owners :: "string \<Rightarrow> (string, json) dict option"
  se_owners_ready :: "string \<Rightarrow> bool"
  se_now :: json
  se_first :: write_fault
  se_second :: write_fault

record store =
  st_root :: string
  st_execution_root :: string
  st_routing_error :: bool

text \<open>The constructor: a link routes a root to the policy of another, over one hop.\<close>

definition routed_root :: "store_env \<Rightarrow> roots \<Rightarrow> string \<Rightarrow> json \<Rightarrow> string option" where
  "routed_root env w root link =
     (case link of
        JObj d \<Rightarrow>
          if \<not> se_private env root \<or> \<not> has_fields [''version'', ''root'', ''issuer''] d \<or> jget d ''version'' \<noteq> JInt 1
             \<or> \<not> is_name (jget d ''issuer'') then None
          else (case jget d ''root'' of
                  JStr t \<Rightarrow>
                    let target = path_str (parse_path t)
                    in if \<not> is_absolute (parse_path t) \<or> \<not> se_canonical env target \<or> target = root
                          \<or> rt_link (w target) \<noteq> None then None
                       else Some target
                | _ \<Rightarrow> None)
      | _ \<Rightarrow> None)"

definition open_store :: "store_env \<Rightarrow> roots \<Rightarrow> string \<Rightarrow> store attempt" where
  "open_store env w root =
     (if \<not> se_canonical env root then Inl (Refused ''permission_root_not_canonical'')
      else case rt_link (w root) of
             None \<Rightarrow> Inr \<lparr>st_root = root, st_execution_root = root, st_routing_error = False\<rparr>
           | Some link \<Rightarrow>
               (case routed_root env w root link of
                  None \<Rightarrow> Inr \<lparr>st_root = root, st_execution_root = root, st_routing_error = True\<rparr>
                | Some target \<Rightarrow> Inr \<lparr>st_root = target, st_execution_root = root, st_routing_error = False\<rparr>))"

definition active_store :: "roots \<Rightarrow> store \<Rightarrow> bool" where
  "active_store w s =
     (st_routing_error s \<or> st_execution_root s \<noteq> st_root s \<or> rt_policy (w (st_root s)) \<noteq> None
      \<or> rt_adopted (w (st_root s)) \<noteq> None)"

section \<open>Reading\<close>

definition max_state_bytes :: int where
  "max_state_bytes = 4194304"

record saved_policy =
  sv_revision :: int
  sv_policy :: "(string, json) dict"
  sv_history :: json

definition saved_of :: "json \<Rightarrow> saved_policy attempt" where
  "saved_of v =
     (case v of
        JObj d \<Rightarrow>
          if \<not> has_fields [''revision'', ''issuer'', ''policy'', ''history''] d then Inl (Refused ''permission_policy_invalid'')
          else (case jget d ''revision'' of
                  JInt n \<Rightarrow>
                    if n < 1 then Inl (Refused ''permission_policy_invalid'')
                    else if \<not> valid_policy (jget d ''policy'') then Inl Escaped
                    else Inr \<lparr>sv_revision = n, sv_policy = as_dict (jget d ''policy''), sv_history = jget d ''history''\<rparr>
                | _ \<Rightarrow> Inl (Refused ''permission_policy_invalid''))
      | _ \<Rightarrow> Inl (Refused ''permission_policy_invalid''))"

definition read_policy :: "store_env \<Rightarrow> roots \<Rightarrow> store \<Rightarrow> saved_policy attempt" where
  "read_policy env w s =
     (if st_routing_error s then Inl (Refused ''permission_root_binding_invalid'')
      else if \<not> se_private env (st_root s) then Inl Escaped
      else case rt_policy (w (st_root s)) of
             None \<Rightarrow> Inl Escaped
           | Some v \<Rightarrow> if max_state_bytes < utf8_len (dumps_spaced v) then Inl Escaped else saved_of v)"

definition evaluate_permission :: "store_env \<Rightarrow> roots \<Rightarrow> store \<Rightarrow> principal \<Rightarrow> question \<Rightarrow> verdict attempt" where
  "evaluate_permission env w s pr q =
     (case question_ok pr q of
        Inl e \<Rightarrow> Inl e
      | Inr _ \<Rightarrow>
          (case read_policy env w s of
             Inl e \<Rightarrow> Inl e
           | Inr sv \<Rightarrow>
               let owners = (if qn_task q = None then Some [] else se_owners env (st_root s))
               in case owners of
                    None \<Rightarrow> Inl Escaped
                  | Some os \<Rightarrow>
                      if dict_get (sv_policy sv) ''adoption'' = Some JNull then Inl Escaped
                      else Inr (decide (sv_policy sv) (sv_revision sv) os (se_now env) pr q)))"

text \<open>\<open>check_operation\<close>: a root without a policy keeps its legacy guards.\<close>

datatype permit = Legacy | Permitted verdict

definition check_operation :: "store_env \<Rightarrow> roots \<Rightarrow> string \<Rightarrow> principal \<Rightarrow> question \<Rightarrow> permit attempt" where
  "check_operation env w root pr q =
     (case open_store env w root of
        Inl e \<Rightarrow> Inl e
      | Inr s \<Rightarrow>
          if \<not> active_store w s then Inr Legacy
          else (case evaluate_permission env w s pr q of
                  Inl e \<Rightarrow> Inl e
                | Inr vd \<Rightarrow> if vd_permission vd \<noteq> ''allow'' then Inl (Refused (''permission_'' @ vd_permission vd))
                            else Inr (Permitted vd)))"

section \<open>Changing the policy\<close>

definition set_policy :: "string \<Rightarrow> json \<Rightarrow> roots \<Rightarrow> roots" where
  "set_policy root v w = w(root := (w root)\<lparr>rt_policy := Some v\<rparr>)"

definition set_adopted :: "string \<Rightarrow> json \<Rightarrow> roots \<Rightarrow> roots" where
  "set_adopted root v w = w(root := (w root)\<lparr>rt_adopted := Some v\<rparr>)"

definition set_link :: "string \<Rightarrow> json \<Rightarrow> roots \<Rightarrow> roots" where
  "set_link root v w = w(root := (w root)\<lparr>rt_link := Some v\<rparr>)"

definition save :: "write_fault \<Rightarrow> (roots \<Rightarrow> roots) \<Rightarrow> roots \<Rightarrow> unit attempt \<times> roots" where
  "save fault f w = (case fault of LostBefore \<Rightarrow> (Inl Escaped, w) | LostAfter \<Rightarrow> (Inl Escaped, f w) | Written \<Rightarrow> (Inr (), f w))"

text \<open>The revision and history before the change, with the adoption it retained.\<close>

definition old_policy :: "store_env \<Rightarrow> roots \<Rightarrow> store \<Rightarrow> (int \<times> json \<times> json) attempt" where
  "old_policy env w s =
     (if active_store w s then
        (case read_policy env w s of
           Inl e \<Rightarrow> Inl e
         | Inr sv \<Rightarrow> Inr (sv_revision sv, sv_history sv, jget (sv_policy sv) ''adoption''))
      else Inr (0, JArr [], JNull))"

definition completed_policy :: "json \<Rightarrow> (string, json) dict \<Rightarrow> (string, json) dict" where
  "completed_policy adoption p =
     (let p1 = (if truthy adoption \<and> dict_get p ''adoption'' = None then dict_set ''adoption'' adoption p else p)
      in if dict_get p1 ''known_actions'' = None then dict_set ''known_actions'' (JArr (map JStr (dict_keys actions))) p1 else p1)"

text \<open>\<open>[*history, entry]\<close>: a list, and what else can be iterated.\<close>

definition items_of :: "json \<Rightarrow> json list option" where
  "items_of v =
     (case v of
        JArr xs \<Rightarrow> Some xs
      | JStr s \<Rightarrow> Some (map (\<lambda>c. JStr [c]) s)
      | JObj d \<Rightarrow> Some (map JStr (dict_keys d))
      | _ \<Rightarrow> None)"

record configured =
  cf_revision :: int
  cf_digest :: string

definition configure :: "store_env \<Rightarrow> store \<Rightarrow> json \<Rightarrow> principal \<Rightarrow> json \<Rightarrow> roots \<Rightarrow> configured attempt \<times> roots" where
  "configure env s policy pr expected w =
     (if \<not> valid_policy policy then (Inl Escaped, w)
      else if st_routing_error s then (Inl (Refused ''permission_root_binding_invalid''), w)
      else if pr_role pr \<noteq> ''operator'' then (Inl (Refused ''permission_operator_required''), w)
      else if \<not> se_private env (st_root s) \<or> \<not> se_owners_ready env (st_root s) then (Inl Escaped, w)
      else case old_policy env w s of
             Inl e \<Rightarrow> (Inl e, w)
           | Inr (revision, history, adoption) \<Rightarrow>
               if expected \<noteq> JInt revision then (Inl (Refused ''permission_revision_conflict''), w)
               else
                 (let p = completed_policy adoption (as_dict policy);
                      digest = sha256_hex (dumps_spaced (JObj p));
                      entry = JObj [(''revision'', JInt (revision + 1)), (''issuer'', JStr (pr_subject pr)),
                                    (''at'', se_now env), (''digest'', JStr digest)]
                  in case items_of history of
                       None \<Rightarrow> (Inl Escaped, w)
                     | Some hs \<Rightarrow>
                         let value = JObj [(''revision'', JInt (revision + 1)), (''issuer'', JStr (pr_subject pr)),
                                           (''policy'', JObj p), (''history'', JArr (hs @ [entry]))]
                         in (case save (se_first env) (set_policy (st_root s) value) w of
                               (Inl e, w1) \<Rightarrow> (Inl e, w1)
                             | (Inr _, w1) \<Rightarrow>
                                 (case save (se_second env) (set_adopted (st_root s)
                                         (JObj [(''version'', JInt 1), (''initial_issuer'', JStr (pr_subject pr))])) w1 of
                                    (Inl e, w2) \<Rightarrow> (Inl e, w2)
                                  | (Inr _, w2) \<Rightarrow> (Inr \<lparr>cf_revision = revision + 1, cf_digest = digest\<rparr>, w2)))))"

text \<open>What a session or controller may put into a session's layer, by the policy it was read from.\<close>

definition change_scope :: "(string, json) dict \<Rightarrow> string \<Rightarrow> (string, json) dict \<Rightarrow> principal \<Rightarrow> unit attempt" where
  "change_scope p subject layer pr =
     (let before = member_dict (member_dict p ''sessions'') subject;
          delegation = (if pr_role pr = ''controller'' then member_dict (member_dict p ''delegations'') (pr_subject pr) else [])
      in if pr_role pr = ''operator'' then Inr ()
         else if JStr subject \<in> set (member_list delegation ''sessions'') then
           (if \<not> keys_within [''actions''] layer
               \<or> \<not> list_all (\<lambda>a. JStr a \<in> set (member_list delegation ''actions'')) (dict_keys (member_dict layer ''actions''))
            then Inl (Refused ''permission_delegation_exceeded'') else Inr ())
         else if subject = pr_subject pr then
           (let authorized = (case dict_get before ''authorized_profiles'' of
                                Some v \<Rightarrow> v
                              | None \<Rightarrow> JArr (member_list (member_dict p ''global'') ''authorized_profiles''))
            in if \<not> keys_within [''actions'', ''profile''] layer
                  \<or> (case dict_get layer ''profile'' of
                       None \<Rightarrow> False
                     | Some v \<Rightarrow> (case authorized of JArr xs \<Rightarrow> v \<notin> set xs | _ \<Rightarrow> True))
               then Inl (Refused ''permission_self_promotion'')
               else if \<not> list_all (\<lambda>(a, v). v = JStr ''deny'') (member_dict layer ''actions'')
               then Inl (Refused ''permission_self_promotion'') else Inr ())
         else Inl (Refused ''permission_delegation_exceeded''))"

text \<open>\<open>{**d, **e}\<close>.\<close>

definition dict_merge :: "('k \<times> 'v) list \<Rightarrow> ('k, 'v) dict \<Rightarrow> ('k, 'v) dict" where
  "dict_merge e d = foldl (\<lambda>d (k, v). dict_set k v d) d e"

definition merged_layer :: "(string, json) dict \<Rightarrow> (string, json) dict \<Rightarrow> (string, json) dict" where
  "merged_layer before layer =
     dict_set ''actions'' (JObj (dict_merge (member_dict layer ''actions'') (member_dict before ''actions'')))
       (dict_merge layer before)"

definition with_session :: "(string, json) dict \<Rightarrow> string \<Rightarrow> (string, json) dict \<Rightarrow> (string, json) dict" where
  "with_session p subject layer =
     dict_set ''sessions''
       (JObj (dict_set subject (JObj (merged_layer (member_dict (member_dict p ''sessions'') subject) layer))
                (member_dict p ''sessions''))) p"

text \<open>The policy is read before the lock is taken: \<open>w0\<close> is what that reading saw, \<open>w\<close> what the change is compared with.\<close>

definition change_session ::
  "store_env \<Rightarrow> store \<Rightarrow> string \<Rightarrow> json \<Rightarrow> principal \<Rightarrow> json \<Rightarrow> roots \<Rightarrow> roots \<Rightarrow> configured attempt \<times> roots" where
  "change_session env s subject layer pr expected w0 w =
     (if \<not> layer_ok layer then (Inl Escaped, w)
      else case read_policy env w0 s of
             Inl e \<Rightarrow> (Inl e, w)
           | Inr sv \<Rightarrow>
               (case change_scope (sv_policy sv) subject (as_dict layer) pr of
                  Inl e \<Rightarrow> (Inl e, w)
                | Inr _ \<Rightarrow>
                    configure env s (JObj (with_session (sv_policy sv) subject (as_dict layer)))
                      (pr\<lparr>pr_role := ''operator'', pr_tasks := [], pr_predecessor := None, pr_ancestors := []\<rparr>) expected w))"

section \<open>Routing another root here\<close>

definition bind_domain :: "store_env \<Rightarrow> store \<Rightarrow> string \<Rightarrow> principal \<Rightarrow> roots \<Rightarrow> bool attempt \<times> roots" where
  "bind_domain env s domain pr w =
     (if pr_role pr \<noteq> ''operator'' then (Inl (Refused ''permission_operator_required''), w)
      else case read_policy env w s of
             Inl e \<Rightarrow> (Inl e, w)
           | Inr _ \<Rightarrow>
               if \<not> se_canonical env domain then (Inl (Refused ''permission_root_not_canonical''), w)
               else if domain = st_root s then (Inr False, w)
               else if \<not> se_private env domain then (Inl Escaped, w)
               else case rt_link (w domain) of
                      Some link \<Rightarrow>
                        (case link of
                           JObj d \<Rightarrow>
                             if jget d ''root'' \<noteq> JStr (st_root s) then (Inl (Refused ''permission_root_binding_conflict''), w)
                             else (case open_store env w domain of
                                     Inl e \<Rightarrow> (Inl e, w)
                                   | Inr sd \<Rightarrow> (case read_policy env w sd of Inl e \<Rightarrow> (Inl e, w) | Inr _ \<Rightarrow> (Inr False, w)))
                         | _ \<Rightarrow> (Inl Escaped, w))
                    | None \<Rightarrow>
                        (case open_store env w domain of
                           Inl e \<Rightarrow> (Inl e, w)
                         | Inr sd \<Rightarrow>
                             if active_store w sd then (Inl (Refused ''permission_domain_migration_required''), w)
                             else (case save (se_first env) (set_link domain
                                       (JObj [(''version'', JInt 1), (''root'', JStr (st_root s)), (''issuer'', JStr (pr_subject pr))])) w of
                                     (Inl e, w1) \<Rightarrow> (Inl e, w1)
                                   | (Inr _, w1) \<Rightarrow> (Inr True, w1))))"

end
