(* ===== verification/PermissionLaws.thy ===== *)
theory PermissionLaws
  imports PermissionStore
begin

text \<open>
  What the permission policy guarantees: what an allowed action rests on, what an accepted change leaves to be read, and
  that a session's change to itself does not widen what anyone may do.
\<close>

section \<open>Decisions\<close>

lemma ruled_simps [simp]: "ru_decision (ruled d s ru) = d" "ru_source (ruled d s ru) = s" "ru_failed (ruled d s ru) = ru_failed ru"
  by (simp_all add: ruled_def)

definition settled :: "(string, json) dict \<Rightarrow> principal \<Rightarrow> question \<Rightarrow> bool" where
  "settled p pr q = (JStr (qn_action q) \<in> set (known_actions p)
     \<or> explicitly_configured p (pr_subject pr) (qn_task q) (qn_action q) \<or> jget p ''future_actions_inherit'' = JBool True)"

lemma base_cases:
  "base_ruling p os pr q =
     (if legacy_ceiling p pr q then ruled ''deny'' ''legacy_profile_ceiling'' (base_ruling p os pr q)
      else if task_finished os (qn_task q) then ruled ''deny'' ''task_completed'' (prohibited p pr q (exact_scope pr q (layered p pr q)))
      else prohibited p pr q (exact_scope pr q (layered p pr q)))"
  by (simp add: base_ruling_def Let_def ruled_def)

lemma prohibited_cases:
  "prohibited p pr q ru =
     (if JStr (qn_action q) \<in> set (member_list p ''mandatory'') then ruled ''deny'' ''mandatory'' ru
      else if settled p pr q \<or> ru_decision ru = ''deny'' then ru else ruled ''approval_required'' ''new_action'' ru)"
  by (simp add: prohibited_def settled_def)

definition in_scope :: "principal \<Rightarrow> question \<Rightarrow> bool" where
  "in_scope pr q = ((qn_action q \<in> set self_actions \<longrightarrow> relation_to pr q = ''self'')
     \<and> (qn_action q = ''refresh.shared'' \<longrightarrow> relation_to pr q = ''shared''))"

lemma exact_scope_cases:
  "in_scope pr q \<Longrightarrow> exact_scope pr q ru = ru" "\<not> in_scope pr q \<Longrightarrow> ru_decision (exact_scope pr q ru) = ''deny''"
  by (auto simp: in_scope_def exact_scope_def Let_def)

lemma base_not_deny:
  assumes nd: "ru_decision (base_ruling p os pr q) \<noteq> ''deny''"
  shows "\<not> legacy_ceiling p pr q" "\<not> task_finished os (qn_task q)" "JStr (qn_action q) \<notin> set (member_list p ''mandatory'')"
    "in_scope pr q" "ru_decision (layered p pr q) \<noteq> ''deny''"
    "base_ruling p os pr q = (if settled p pr q then layered p pr q else ruled ''approval_required'' ''new_action'' (layered p pr q))"
proof -
  show 1: "\<not> legacy_ceiling p pr q" using nd base_cases [of p os pr q] by (metis ruled_simps(1))
  show 2: "\<not> task_finished os (qn_task q)" using nd 1 base_cases [of p os pr q] by (metis ruled_simps(1))
  have base: "base_ruling p os pr q = prohibited p pr q (exact_scope pr q (layered p pr q))"
    using 1 2 base_cases [of p os pr q] by simp
  show 3: "JStr (qn_action q) \<notin> set (member_list p ''mandatory'')"
    using nd base by (auto simp: prohibited_cases)
  then have pro: "ru_decision (exact_scope pr q (layered p pr q)) \<noteq> ''deny''"
    using nd base by (auto simp: prohibited_cases)
  then show 4: "in_scope pr q" using exact_scope_cases(2) by blast
  then show 5: "ru_decision (layered p pr q) \<noteq> ''deny''" using pro by (simp add: exact_scope_cases(1))
  show "base_ruling p os pr q = (if settled p pr q then layered p pr q else ruled ''approval_required'' ''new_action'' (layered p pr q))"
    using base 3 4 5 by (simp add: prohibited_cases exact_scope_cases(1))
qed

lemma base_of_layered:
  assumes "ru_decision (layered p pr q) \<noteq> ''deny''" "\<not> legacy_ceiling p pr q" "\<not> task_finished os (qn_task q)"
    "JStr (qn_action q) \<notin> set (member_list p ''mandatory'')" "in_scope pr q"
  shows "base_ruling p os pr q = (if settled p pr q then layered p pr q else ruled ''approval_required'' ''new_action'' (layered p pr q))"
  using assms base_cases [of p os pr q] by (simp add: prohibited_cases exact_scope_cases(1))

text \<open>
  On what an allowed action rests, told without the code: the last layer that speaks about the action allows it within
  the scope of its rule, or no layer does and the action is free in the permissive profile; or an approval grants it.
\<close>

definition speaking :: "(string, json) dict \<Rightarrow> principal \<Rightarrow> question \<Rightarrow> (string \<times> (string, json) dict) list" where
  "speaking p pr q =
     filter (\<lambda>nl. rule_decision (rule_at (snd nl) (qn_action q)) \<noteq> ''inherit'') (layers_of p (pr_subject pr) (qn_task q))"

definition scope_met :: "json \<Rightarrow> principal \<Rightarrow> question \<Rightarrow> bool" where
  "scope_met v pr q =
     (\<forall>r k x xs. v = JObj r \<and> dict_get r k = Some xs
        \<and> (k, x) \<in> {(''relationships'', JStr (relation_to pr q)), (''targets'', JStr (target_of pr q)),
                    (''tasks'', str_or_none (qn_task q))}
        \<longrightarrow> (\<exists>ys. xs = JArr ys \<and> x \<in> set ys))"

definition layers_allow :: "(string, json) dict \<Rightarrow> principal \<Rightarrow> question \<Rightarrow> bool" where
  "layers_allow p pr q =
     (if speaking p pr q = []
      then selected_profile p (pr_subject pr) (qn_task q) = ''permissive'' \<and> dict_get actions (qn_action q) = Some ''allow''
      else rule_decision (rule_at (snd (last (speaking p pr q))) (qn_action q)) = ''allow''
           \<and> scope_met (rule_at (snd (last (speaking p pr q))) (qn_action q)) pr q)"

definition names_asker :: "(string, json) dict \<Rightarrow> principal \<Rightarrow> bool" where
  "names_asker a pr =
     (\<exists>x. jget a ''subject'' = JStr x
        \<and> (x = pr_subject pr
           \<or> (x \<in> set (pr_ancestors pr) \<or> pr_predecessor pr = Some x) \<and> jget a ''scope'' = JStr ''task''
              \<and> (dict_get a ''successors'' = None \<or> dict_get a ''successors'' = Some (JBool True))))"

definition names_operation :: "(string, json) dict \<Rightarrow> question \<Rightarrow> bool" where
  "names_operation a q =
     (jget a ''scope'' = JStr ''standing''
      \<or> qn_action q \<noteq> ''refresh.shared'' \<and> jget a ''task_id'' = str_or_none (qn_task q)
        \<and> (jget a ''scope'' = JStr ''task''
           \<or> jget a ''scope'' = JStr ''operation'' \<and> qn_operation q \<noteq> None \<and> jget a ''id'' = str_or_none (qn_operation q)))"

definition still_good :: "(string, json) dict \<Rightarrow> json \<Rightarrow> bool" where
  "still_good a now =
     (\<forall>e. dict_get a ''expires_at'' = Some e \<longrightarrow>
        (\<exists>s t n. e = JStr s \<and> parse_timestamp s = Some t \<and> decimal_of now = Some n \<and> \<not> dec_le (epoch_seconds t, 0) n))"

definition grants :: "(string, json) dict \<Rightarrow> principal \<Rightarrow> question \<Rightarrow> json \<Rightarrow> bool" where
  "grants a pr q now =
     (jget a ''action'' = JStr (qn_action q) \<and> names_asker a pr \<and> names_operation a q \<and> still_good a now
      \<and> (\<forall>t. dict_get a ''target'' = Some t \<longrightarrow> t = JStr (target_of pr q)))"

definition ground :: "(string, json) dict \<Rightarrow> json \<Rightarrow> principal \<Rightarrow> question \<Rightarrow> verdict \<Rightarrow> bool" where
  "ground p now pr q vd =
     (vd_approval_id vd = None \<and> settled p pr q \<and> layers_allow p pr q
      \<or> (\<exists>a. JObj a \<in> set (member_list p ''approvals'') \<and> grants a pr q now
           \<and> vd_approval_id vd = Some (str_of (jget a ''id''))))"

lemma fold_layers:
  "ru_decision (fold (apply_layer a relation target task) ls ru)
     = (let sp = filter (\<lambda>nl. rule_decision (rule_at (snd nl) a) \<noteq> ''inherit'') ls; v = rule_at (snd (last sp)) a
        in if sp = [] then ru_decision ru
           else if rule_matches v relation target task then rule_decision v else ''deny'')"
  by (induction ls rule: rev_induct) (auto simp: apply_layer_def Let_def)

lemma rule_matches_scope: "rule_matches v (relation_to pr q) (target_of pr q) (qn_task q) \<Longrightarrow> scope_met v pr q"
proof -
  assume m: "rule_matches v (relation_to pr q) (target_of pr q) (qn_task q)"
  have "\<exists>ys. xs = JArr ys \<and> x \<in> set ys" if "scope_holds r k x" "dict_get r k = Some xs" for r k x xs
    using that by (cases xs) (simp_all add: scope_holds_def)
  with m show ?thesis by (auto simp: rule_matches_def scope_met_def)
qed

lemma layered_allow:
  assumes "ru_decision (layered p pr q) = ''allow''"
  shows "layers_allow p pr q"
proof (cases "speaking p pr q = []")
  case True
  then have "ru_decision (initial_ruling (selected_profile p (pr_subject pr) (qn_task q)) (qn_action q)) = ''allow''"
    using assms by (simp add: layered_def fold_layers speaking_def Let_def)
  then show ?thesis using True by (simp add: layers_allow_def initial_ruling_def split: if_splits option.splits)
next
  case False
  let ?v = "rule_at (snd (last (speaking p pr q))) (qn_action q)"
  have "(if rule_matches ?v (relation_to pr q) (target_of pr q) (qn_task q) then rule_decision ?v else ''deny'') = ''allow''"
    using assms False by (simp only: layered_def fold_layers speaking_def [symmetric] Let_def if_False)
  then have "rule_decision ?v = ''allow''" "rule_matches ?v (relation_to pr q) (target_of pr q) (qn_task q)"
    by (simp_all split: if_splits)
  then show ?thesis using False rule_matches_scope by (simp add: layers_allow_def)
qed

lemma covers_grants:
  assumes "approval_ok (JObj a)" "approval_covers a pr q now"
  shows "grants a pr q now"
proof -
  have id: "is_name (jget a ''id'')" and scope: "jget a ''scope'' \<in> {JStr ''operation'', JStr ''task'', JStr ''standing''}"
    using assms(1) by (simp_all add: approval_ok_def)
  have fo: "approval_for a pr" and task: "jget a ''scope'' = JStr ''standing'' \<or> jget a ''task_id'' = str_or_none (qn_task q)"
    and op: "jget a ''scope'' \<noteq> JStr ''operation'' \<or> jget a ''id'' = str_or_none (qn_operation q)"
    and shared: "qn_action q \<noteq> ''refresh.shared'' \<or> jget a ''scope'' = JStr ''standing''"
    and now: "\<not> expired a now" and act: "jget a ''action'' = JStr (qn_action q)"
    and target: "optional (\<lambda>t. t = JStr (target_of pr q)) a ''target''"
    using assms(2) by (simp_all add: approval_covers_def)
  have "names_asker a pr"
    using fo by (auto simp: approval_for_def names_asker_def optional_def split: option.splits)
  moreover have "qn_operation q \<noteq> None" if "jget a ''scope'' = JStr ''operation''"
    using op id that by (auto simp: is_name_def str_or_none_def split: json.splits option.splits)
  then have "names_operation a q" using task op shared scope by (auto simp: names_operation_def)
  moreover have "still_good a now" using now by (auto simp: expired_def still_good_def split: json.splits option.splits)
  moreover have "\<forall>t. dict_get a ''target'' = Some t \<longrightarrow> t = JStr (target_of pr q)"
    using target by (auto simp: optional_def)
  ultimately show ?thesis using act by (simp add: grants_def)
qed

lemma approvals_objects:
  assumes "valid_policy (JObj p)" "a \<in> set (member_list p ''approvals'')"
  shows "\<exists>d. a = JObj d \<and> approval_ok a"
proof -
  have "optional (list_of approval_ok) p ''approvals''" using assms(1) by (simp add: valid_policy_def policy_shape_def)
  then have "approval_ok a"
    using assms(2) by (simp add: optional_def member_list_def list_of_def list_all_iff split: option.splits json.splits)
  then show ?thesis by (cases a) (simp_all add: approval_ok_def)
qed

lemma decide_allow:
  assumes v: "valid_policy (JObj p)" and vd: "vd = decide p n os now pr q" and allow: "vd_permission vd = ''allow''"
  shows "ru_decision (base_ruling p os pr q) \<noteq> ''deny''" "ground p now pr q vd"
proof -
  let ?ru = "base_ruling p os pr q"
  let ?a = "if ru_decision ?ru = ''approval_required'' then matching_approval p pr q now else None"
  have perm: "(if ?a = None then ru_decision ?ru else ''allow'') = ''allow''"
    using vd allow by (simp add: decide_def verdict_of_def Let_def)
  then show nd: "ru_decision ?ru \<noteq> ''deny''" by (auto split: if_splits)
  show "ground p now pr q vd"
  proof (cases ?a)
    case None
    then have "ru_decision ?ru = ''allow''" using perm by (simp split: if_splits)
    then have "settled p pr q" "ru_decision (layered p pr q) = ''allow''"
      using base_not_deny(6) [OF nd] by (auto split: if_splits)
    moreover have "vd_approval_id vd = None" using vd None by (simp add: decide_def verdict_of_def Let_def)
    ultimately show ?thesis using layered_allow by (simp add: ground_def)
  next
    case (Some a)
    then have m: "matching_approval p pr q now = Some a" by (simp split: if_splits)
    then obtain x where x: "x \<in> set (member_list p ''approvals'')" "a = as_dict x" "approval_covers a pr q now"
      by (auto simp: matching_approval_def dest!: find_SomeD)
    from approvals_objects [OF v x(1)] obtain d where d: "x = JObj d" "approval_ok x" by blast
    then have "JObj a \<in> set (member_list p ''approvals'')" "grants a pr q now"
      using x covers_grants [of d] by (simp_all add: as_dict_def)
    moreover have "vd_approval_id vd = Some (str_of (jget a ''id''))"
      using vd Some by (simp add: decide_def verdict_of_def Let_def)
    ultimately show ?thesis by (auto simp: ground_def)
  qed
qed

section \<open>Reading\<close>

lemma saved_valid: "saved_of v = Inr sv \<Longrightarrow> valid_policy (JObj (sv_policy sv)) \<and> 1 \<le> sv_revision sv"
proof -
  assume s: "saved_of v = Inr sv"
  then obtain d where d: "v = JObj d" "valid_policy (jget d ''policy'')" "sv_policy sv = as_dict (jget d ''policy'')" "1 \<le> sv_revision sv"
    by (auto simp: saved_of_def split: json.splits if_splits)
  then obtain p where "jget d ''policy'' = JObj p" by (auto simp: valid_policy_def split: json.splits)
  with d show ?thesis by (simp add: as_dict_def)
qed

lemma read_valid: "read_policy env w s = Inr sv \<Longrightarrow> valid_policy (JObj (sv_policy sv)) \<and> 1 \<le> sv_revision sv"
  by (auto simp: read_policy_def split: if_splits option.splits dest: saved_valid)

lemma evaluate_Inr:
  assumes "evaluate_permission env w s pr q = Inr vd"
  obtains sv os where "read_policy env w s = Inr sv" "question_ok pr q = Inr ()" "dict_get (sv_policy sv) ''adoption'' \<noteq> Some JNull"
    "if qn_task q = None then os = [] else se_owners env (st_root s) = Some os"
    "vd = decide (sv_policy sv) (sv_revision sv) os (se_now env) pr q"
  using assms by (auto simp: evaluate_permission_def Let_def split: sum.splits option.splits if_splits)

section \<open>A session's layer\<close>

lemma dict_merge_get:
  "dict_get (dict_merge e d) k = (case dict_get (rev e) k of Some v \<Rightarrow> Some v | None \<Rightarrow> dict_get d k)"
proof (induction e rule: rev_induct)
  case (snoc kv e)
  then show ?case by (cases kv) (simp add: dict_merge_def dict_set_get)
qed (simp add: dict_merge_def)

lemma dict_merge_other: "k \<notin> set (dict_keys e) \<Longrightarrow> dict_get (dict_merge e d) k = dict_get d k"
proof -
  assume "k \<notin> set (dict_keys e)"
  then have "dict_get (rev e) k = None" by (simp add: map_of_eq_None_iff)
  then show ?thesis by (simp add: dict_merge_get)
qed

lemma dict_merge_in: "k \<in> set (dict_keys e) \<Longrightarrow> \<exists>v. (k, v) \<in> set e \<and> dict_get (dict_merge e d) k = Some v"
proof -
  assume "k \<in> set (dict_keys e)"
  then have "dict_get (rev e) k \<noteq> None" by (simp add: map_of_eq_None_iff)
  then obtain v where v: "dict_get (rev e) k = Some v" by blast
  then have "(k, v) \<in> set (rev e)" by (rule map_of_SomeD)
  with v show ?thesis by (auto simp: dict_merge_get)
qed

lemma keys_merge: "k \<in> set (dict_keys d) \<Longrightarrow> k \<in> set (dict_keys (dict_merge e d))"
proof -
  assume "k \<in> set (dict_keys d)"
  then have "dict_get d k \<noteq> None" by (simp only: map_of_eq_None_iff set_map not_not)
  then have "dict_get (dict_merge e d) k \<noteq> None" by (auto simp: dict_merge_get split: option.splits)
  then show ?thesis by (simp only: map_of_eq_None_iff set_map not_not)
qed

lemma apply_layer_cong:
  "rule_at l a = rule_at l' a \<Longrightarrow> apply_layer a relation target task (n, l) ru = apply_layer a relation target task (n, l') ru"
  by (simp add: apply_layer_def Let_def split: if_split)

lemma member_dict_set [simp]:
  "member_dict (dict_set k v d) k' = (if k' = k then as_dict v else member_dict d k')"
  by (simp add: member_dict_def dict_set_get as_dict_def split: json.split)

lemma member_list_set [simp]: "k' \<noteq> k \<Longrightarrow> member_list (dict_set k v d) k' = member_list d k'"
  by (simp add: member_list_def dict_set_get)

lemma jget_set [simp]: "jget (dict_set k v d) k' = (if k' = k then v else jget d k')"
  by (simp add: jget_def dict_set_get)

lemma as_dict_JObj [simp]: "as_dict (JObj d) = d"
  by (simp add: as_dict_def)

text \<open>The layer a restriction of oneself makes.\<close>

definition self_denial :: "(string, json) dict \<Rightarrow> bool" where
  "self_denial l = (keys_within [''actions''] l \<and> (\<forall>(a, v)\<in>set (member_dict l ''actions''). v = JStr ''deny''))"

lemma merged_actions [simp]:
  "member_dict (merged_layer b l) ''actions'' = dict_merge (member_dict l ''actions'') (member_dict b ''actions'')"
  by (simp add: merged_layer_def)

lemma merged_other:
  assumes "self_denial l" "k \<noteq> ''actions''"
  shows "dict_get (merged_layer b l) k = dict_get b k"
proof -
  have "k \<notin> set (dict_keys l)" using assms by (auto simp: self_denial_def keys_within_def list_all_iff)
  then show ?thesis using assms(2) by (simp add: merged_layer_def dict_set_get dict_merge_other)
qed

lemma rule_at_merged:
  assumes "self_denial l"
  shows "rule_at (merged_layer b l) a = (if a \<in> set (dict_keys (member_dict l ''actions'')) then JStr ''deny'' else rule_at b a)"
proof (cases "a \<in> set (dict_keys (member_dict l ''actions''))")
  case True
  with assms show ?thesis
    using dict_merge_in [OF True, of "member_dict b ''actions''"] by (auto simp: rule_at_def self_denial_def)
next
  case False
  have "dict_get (merged_layer b l) ''default'' = dict_get b ''default''"
    by (rule merged_other [OF assms]) simp
  with False show ?thesis by (simp add: rule_at_def dict_merge_other split: option.split)
qed

section \<open>The policy with that layer\<close>

lemma with_session_get: "k \<noteq> ''sessions'' \<Longrightarrow> dict_get (with_session p u l) k = dict_get p k"
  by (simp add: with_session_def dict_set_get)

lemma with_session_layer:
  "member_dict (member_dict (with_session p u l) ''sessions'') v
     = (if v = u then merged_layer (member_dict (member_dict p ''sessions'') u) l else member_dict (member_dict p ''sessions'') v)"
  by (simp add: with_session_def)

lemma completed_get:
  assumes "dict_get p ''adoption'' = None \<Longrightarrow> \<not> truthy ad" "k \<noteq> ''known_actions''"
  shows "dict_get (completed_policy ad p) k = dict_get p k"
  using assms by (auto simp: completed_policy_def Let_def dict_set_get)

lemma completed_known:
  assumes "dict_get p ''adoption'' = None \<Longrightarrow> \<not> truthy ad" "valid_policy (JObj p)"
  shows "known_actions (completed_policy ad p) = known_actions p"
  using assms by (auto simp: completed_policy_def Let_def dict_set_get known_actions_def)

text \<open>Two policies that agree outside one session's layer and the catalog they were written with.\<close>

definition restricts :: "string \<Rightarrow> (string, json) dict \<Rightarrow> (string, json) dict \<Rightarrow> (string, json) dict \<Rightarrow> bool" where
  "restricts u l p p' =
     (self_denial l \<and> (\<forall>k. k \<noteq> ''sessions'' \<longrightarrow> k \<noteq> ''known_actions'' \<longrightarrow> dict_get p' k = dict_get p k)
      \<and> known_actions p' = known_actions p
      \<and> (\<forall>v. member_dict (member_dict p' ''sessions'') v
           = (if v = u then merged_layer (member_dict (member_dict p ''sessions'') u) l else member_dict (member_dict p ''sessions'') v)))"

lemma get_same:
  "restricts u l p p' \<Longrightarrow> k \<noteq> ''sessions'' \<Longrightarrow> k \<noteq> ''known_actions'' \<Longrightarrow> dict_get p' k = dict_get p k"
  by (simp add: restricts_def)

lemma member_same:
  "restricts u l p p' \<Longrightarrow> k \<noteq> ''sessions'' \<Longrightarrow> k \<noteq> ''known_actions'' \<Longrightarrow> member_dict p' k = member_dict p k"
  by (simp add: member_dict_def get_same)

lemma list_same:
  "restricts u l p p' \<Longrightarrow> k \<noteq> ''sessions'' \<Longrightarrow> k \<noteq> ''known_actions'' \<Longrightarrow> member_list p' k = member_list p k"
  by (simp add: member_list_def get_same)

lemma session_layer:
  "restricts u l p p' \<Longrightarrow> member_dict (member_dict p' ''sessions'') v
     = (if v = u then merged_layer (member_dict (member_dict p ''sessions'') u) l else member_dict (member_dict p ''sessions'') v)"
  by (simp add: restricts_def)

lemma assignment_same: "restricts u l p p' \<Longrightarrow> assignment_of p' t = assignment_of p t"
  by (simp add: assignment_of_def member_same split: option.split)

lemma selected_same:
  assumes r: "restricts u l p p'"
  shows "selected_profile p' v t = selected_profile p v t"
proof -
  have "self_denial l" using r by (simp add: restricts_def)
  then show ?thesis
    by (simp add: selected_profile_def assignment_same [OF r] member_same [OF r] session_layer [OF r] merged_other
        split: option.split)
qed

lemma layers_same:
  assumes r: "restricts u l p p'"
  shows "layers_of p' v t =
   [(''global'', member_dict p ''global''),
    (''profile:'' @ selected_profile p v t, member_dict (member_dict p ''profiles'') (selected_profile p v t)),
    (''session'', member_dict (member_dict p' ''sessions'') v), (''assignment'', assignment_of p t)]"
  by (simp add: layers_of_def Let_def selected_same [OF r] member_same [OF r] assignment_same [OF r])

lemma layered_same:
  assumes r: "restricts u l p p'" and nd: "ru_decision (layered p' pr q) \<noteq> ''deny''"
  shows "layered p' pr q = layered p pr q"
proof -
  have sd: "self_denial l" using r by (simp add: restricts_def)
  let ?ap = "apply_layer (qn_action q) (relation_to pr q) (target_of pr q) (qn_task q)"
  let ?sel = "selected_profile p (pr_subject pr) (qn_task q)"
  let ?r2 = "?ap (''profile:'' @ ?sel, member_dict (member_dict p ''profiles'') ?sel)
      (?ap (''global'', member_dict p ''global'') (initial_ruling ?sel (qn_action q)))"
  let ?as = "(''assignment'', assignment_of p (qn_task q))"
  have new: "layered p' pr q = ?ap ?as (?ap (''session'', member_dict (member_dict p' ''sessions'') (pr_subject pr)) ?r2)"
    by (simp add: layered_def layers_same [OF r] selected_same [OF r])
  have old: "layered p pr q = ?ap ?as (?ap (''session'', member_dict (member_dict p ''sessions'') (pr_subject pr)) ?r2)"
    by (simp add: layered_def layers_of_def Let_def)
  show ?thesis
  proof (cases "pr_subject pr = u \<and> qn_action q \<in> set (dict_keys (member_dict l ''actions''))")
    case True
    show ?thesis
    proof (cases "rule_decision (rule_at (assignment_of p (qn_task q)) (qn_action q)) = ''inherit''")
      case inh: True
      then have "ru_decision (layered p' pr q) = ''deny''"
        using True by (simp add: new session_layer [OF r] apply_layer_def Let_def rule_at_merged [OF sd] rule_decision_def
            rule_matches_def str_of_def)
      with nd show ?thesis by simp
    next
      case False
      then show ?thesis by (simp add: new old apply_layer_def Let_def)
    qed
  next
    case False
    then have "rule_at (member_dict (member_dict p' ''sessions'') (pr_subject pr)) (qn_action q)
        = rule_at (member_dict (member_dict p ''sessions'') (pr_subject pr)) (qn_action q)"
      by (auto simp: session_layer [OF r] rule_at_merged [OF sd])
    then show ?thesis unfolding new old by (rule arg_cong [OF apply_layer_cong])
  qed
qed

lemma ceiling_same: "restricts u l p p' \<Longrightarrow> legacy_ceiling p' pr q = legacy_ceiling p pr q"
  by (simp add: legacy_ceiling_def member_same)

lemma explicit_more:
  assumes r: "restricts u l p p'" and ex: "explicitly_configured p v t a"
  shows "explicitly_configured p' v t a"
proof -
  have "a \<in> set (dict_keys (member_dict (member_dict (member_dict p' ''sessions'') v) ''actions''))"
    if "a \<in> set (dict_keys (member_dict (member_dict (member_dict p ''sessions'') v) ''actions''))"
    using keys_merge [of a "member_dict (member_dict (member_dict p ''sessions'') u) ''actions''"] that
    by (cases "v = u") (simp_all add: session_layer [OF r])
  then show ?thesis using ex
    by (auto simp: explicitly_configured_def layers_same [OF r]) (auto simp: layers_of_def Let_def)
qed

lemma settled_more:
  assumes r: "restricts u l p p'" and st: "settled p pr q"
  shows "settled p' pr q"
proof -
  have "known_actions p' = known_actions p" using r by (simp add: restricts_def)
  moreover have "jget p' ''future_actions_inherit'' = jget p ''future_actions_inherit''"
    by (simp add: jget_def get_same [OF r])
  ultimately show ?thesis using st explicit_more [OF r] by (auto simp: settled_def)
qed

lemma base_same:
  assumes r: "restricts u l p p'" and nd: "ru_decision (base_ruling p' os pr q) \<noteq> ''deny''" and st: "settled p pr q"
  shows "base_ruling p' os pr q = base_ruling p os pr q"
proof -
  note b = base_not_deny [OF nd]
  have l: "layered p' pr q = layered p pr q" using b(5) by (rule layered_same [OF r])
  have "base_ruling p os pr q = layered p pr q"
    using base_of_layered [of p pr q os] b l st by (simp add: ceiling_same [OF r] list_same [OF r])
  with b(6) l settled_more [OF r st] show ?thesis by simp
qed

lemma decide_same:
  assumes r: "restricts u l p p'" and "vd_permission (decide p' n' os now pr q) = ''allow''" "settled p pr q"
    "valid_policy (JObj p')"
  shows "vd_permission (decide p n os now pr q) = ''allow''"
proof -
  have nd: "ru_decision (base_ruling p' os pr q) \<noteq> ''deny''" by (rule decide_allow(1) [OF assms(4) refl assms(2)])
  have "matching_approval p' pr q now = matching_approval p pr q now" by (simp add: matching_approval_def list_same [OF r])
  then show ?thesis
    using assms(2) base_same [OF r nd assms(3)] by (simp add: decide_def verdict_of_def Let_def split: if_splits)
qed

section \<open>Accepted changes\<close>

lemma optional_set [simp]: "k' \<noteq> k \<Longrightarrow> optional P (dict_set k v d) k' = optional P d k'" "optional P (dict_set k v d) k = P v"
  by (simp_all add: optional_def dict_set_get)

lemma dict_set_keys: "set (dict_keys (dict_set k v d)) = insert k (set (dict_keys d))"
  by (induction d) auto

lemma keys_within_set: "keys_within ks d \<Longrightarrow> k \<in> set ks \<Longrightarrow> keys_within ks (dict_set k v d)"
  using dict_set_keys [of k v d] by (auto simp: keys_within_def list_all_iff)

lemma profile_known_set: "k \<noteq> ''profiles'' \<Longrightarrow> profile_known (dict_set k v p) l = profile_known p l"
  by (simp add: profile_known_def split: option.split json.split)

lemma shape_adoption: "policy_shape p \<Longrightarrow> adoption_ok a \<Longrightarrow> policy_shape (dict_set ''adoption'' a p)"
  by (simp add: policy_shape_def keys_within_set policy_fields_def profile_known_set)

definition catalog :: json where
  "catalog = JArr (map JStr (dict_keys actions))"

lemma catalog_ok: "list_of is_action catalog" "member_list (dict_set ''known_actions'' catalog p) ''known_actions'' = map JStr (dict_keys actions)"
  by (auto simp: catalog_def list_of_def is_action_def list_all_iff member_list_def dict_set_get)

lemma action_names_distinct: "distinct (dict_keys actions)"
  by code_simp

lemma actions_distinct: "distinct (map JStr (dict_keys actions))"
proof -
  have "inj_on JStr (set (dict_keys actions))" by (simp add: inj_on_def)
  with action_names_distinct show ?thesis by (rule distinct_map [THEN iffD2, OF conjI])
qed

lemma shape_known: "policy_shape p \<Longrightarrow> policy_shape (dict_set ''known_actions'' catalog p)"
  using actions_distinct catalog_ok
  by (simp add: policy_shape_def keys_within_set policy_fields_def profile_known_set)

lemma completed_policy_catalog:
  "completed_policy ad p =
     (let p1 = (if truthy ad \<and> dict_get p ''adoption'' = None then dict_set ''adoption'' ad p else p)
      in if dict_get p1 ''known_actions'' = None then dict_set ''known_actions'' catalog p1 else p1)"
  unfolding completed_policy_def catalog_def by (rule refl)

lemma shape_completed: "policy_shape p \<Longrightarrow> adoption_ok ad \<Longrightarrow> policy_shape (completed_policy ad p)"
  by (simp add: completed_policy_catalog Let_def shape_adoption shape_known)

lemma old_adoption: "old_policy env w s = Inr (n, h, ad) \<Longrightarrow> adoption_ok ad \<and> 0 \<le> n"
proof -
  assume old: "old_policy env w s = Inr (n, h, ad)"
  show ?thesis
  proof (cases "active_store w s")
    case True
    then obtain sv where sv: "read_policy env w s = Inr sv" "ad = jget (sv_policy sv) ''adoption''" "n = sv_revision sv"
      using old by (auto simp: old_policy_def split: sum.splits)
    have "policy_shape (sv_policy sv)" "1 \<le> sv_revision sv" using read_valid [OF sv(1)] by (auto simp: valid_policy_def)
    then have "optional adoption_ok (sv_policy sv) ''adoption''" by (simp add: policy_shape_def)
    then have "adoption_ok (jget (sv_policy sv) ''adoption'')"
      by (simp add: optional_def jget_def adoption_ok_def split: option.splits)
    with sv \<open>1 \<le> sv_revision sv\<close> show ?thesis by simp
  qed (use old in \<open>simp add: old_policy_def adoption_ok_def\<close>)
qed

definition entry_of :: "store_env \<Rightarrow> int \<Rightarrow> principal \<Rightarrow> (string, json) dict \<Rightarrow> json" where
  "entry_of env n pr p = JObj [(''revision'', JInt n), (''issuer'', JStr (pr_subject pr)), (''at'', se_now env),
     (''digest'', JStr (sha256_hex (dumps_spaced (JObj p))))]"

definition value_of :: "int \<Rightarrow> principal \<Rightarrow> (string, json) dict \<Rightarrow> json list \<Rightarrow> json" where
  "value_of n pr p hs = JObj [(''revision'', JInt n), (''issuer'', JStr (pr_subject pr)), (''policy'', JObj p), (''history'', JArr hs)]"

lemma save_Inr: "save fault f w = (Inr u, w') \<Longrightarrow> w' = f w"
  by (auto simp: save_def split: write_fault.splits)

lemma configure_Inr:
  assumes "configure env s policy pr expected w = (Inr cf, w')"
  obtains n h ad hs where "old_policy env w s = Inr (n, h, ad)" "expected = JInt n" "items_of h = Some hs"
    "valid_policy policy" "\<not> st_routing_error s" "pr_role pr = ''operator''" "se_private env (st_root s)"
    "cf_revision cf = n + 1"
    "rt_policy (w' (st_root s)) = Some (value_of (n + 1) pr (completed_policy ad (as_dict policy))
        (hs @ [entry_of env (n + 1) pr (completed_policy ad (as_dict policy))]))"
    "rt_link (w' (st_root s)) = rt_link (w (st_root s))" "\<forall>x. x \<noteq> st_root s \<longrightarrow> w' x = w x"
proof -
  obtain n h ad where old: "old_policy env w s = Inr (n, h, ad)"
    using assms by (auto simp: configure_def split: if_splits sum.splits)
  obtain hs where hs: "items_of h = Some hs"
    using assms old by (auto simp: configure_def Let_def split: if_splits option.splits)
  let ?p = "completed_policy ad (as_dict policy)"
  let ?v = "value_of (n + 1) pr ?p (hs @ [entry_of env (n + 1) pr ?p])"
  have e: "expected = JInt n" "valid_policy policy" "\<not> st_routing_error s" "pr_role pr = ''operator''" "se_private env (st_root s)"
    using assms old by (auto simp: configure_def split: if_splits)
  obtain w1 where w1: "save (se_first env) (set_policy (st_root s) ?v) w = (Inr (), w1)"
    and w2: "save (se_second env) (set_adopted (st_root s)
          (JObj [(''version'', JInt 1), (''initial_issuer'', JStr (pr_subject pr))])) w1 = (Inr (), w')"
    and cf: "cf_revision cf = n + 1"
    using assms old hs e
    by (auto simp: configure_def Let_def value_of_def entry_of_def split: if_splits sum.splits prod.splits)
  have "w' = set_adopted (st_root s) (JObj [(''version'', JInt 1), (''initial_issuer'', JStr (pr_subject pr))])
      (set_policy (st_root s) ?v w)"
    using save_Inr [OF w1] save_Inr [OF w2] by simp
  then show ?thesis
    by (intro that [OF old e(1) hs e(2-5) cf]) (simp_all add: set_adopted_def set_policy_def)
qed

lemma read_value:
  assumes "\<not> st_routing_error s" "se_private env (st_root s)" "rt_policy (w (st_root s)) = Some (value_of n pr p hs)"
    "1 \<le> n" "valid_policy (JObj p)" "utf8_len (dumps_spaced (value_of n pr p hs)) \<le> max_state_bytes"
  shows "read_policy env w s = Inr \<lparr>sv_revision = n, sv_policy = p, sv_history = JArr hs\<rparr>"
  using assms by (simp add: read_policy_def saved_of_def value_of_def has_fields_def jget_def)

lemma read_value_policy:
  assumes "read_policy env w s = Inr sv" "rt_policy (w (st_root s)) = Some (value_of n pr p hs)"
  shows "sv_policy sv = p"
  using assms by (auto simp: read_policy_def saved_of_def value_of_def has_fields_def jget_def split: if_splits)

text \<open>Reading depends on the moment only by the privacy of the folder.\<close>

lemma read_later:
  "read_policy env w s = Inr sv \<Longrightarrow> se_private env' (st_root s) \<Longrightarrow> read_policy env' w s = Inr sv"
  by (auto simp: read_policy_def split: if_splits option.splits)

lemma read_private: "read_policy env w s = Inr sv \<Longrightarrow> se_private env (st_root s) \<and> \<not> st_routing_error s \<and> active_store w s"
  by (auto simp: read_policy_def active_store_def split: if_splits option.splits)

text \<open>A session's own change is a restriction.\<close>

lemma scope_self_denial:
  assumes "change_scope p u l pr = Inr x" "pr_role pr = ''session''" "''profile'' \<notin> set (dict_keys l)"
  shows "u = pr_subject pr \<and> self_denial l"
proof -
  have "u = pr_subject pr" and kw: "keys_within [''actions'', ''profile''] l" and "list_all (\<lambda>(a, v). v = JStr ''deny'') (member_dict l ''actions'')"
    using assms(1,2) by (auto simp: change_scope_def Let_def member_list_def split: if_splits)
  then have "k = ''actions''" if "k \<in> set (dict_keys l)" for k
  proof -
    have "k \<in> set [''actions'', ''profile'']" using kw that unfolding keys_within_def list_all_iff by blast
    moreover have "k \<noteq> ''profile''" using that assms(3) by blast
    ultimately show ?thesis by simp
  qed
  then show ?thesis
    using \<open>u = pr_subject pr\<close> \<open>list_all _ _\<close> by (simp add: self_denial_def keys_within_def list_all_iff)
qed

lemma restricts_completed:
  assumes "self_denial l" "valid_policy (JObj p)"
  shows "restricts u l p (completed_policy (jget p ''adoption'') (with_session p u l))"
proof -
  let ?p' = "completed_policy (jget p ''adoption'') (with_session p u l)"
  have ad: "dict_get (with_session p u l) ''adoption'' = None \<Longrightarrow> \<not> truthy (jget p ''adoption'')"
    by (simp add: with_session_get jget_def)
  have g: "dict_get ?p' k = dict_get (with_session p u l) k" if "k \<noteq> ''known_actions''" for k
    using ad that by (rule completed_get)
  have "known_actions ?p' = known_actions (with_session p u l)"
    using ad by (auto simp: completed_policy_def Let_def dict_set_get known_actions_def)
  then have k: "known_actions ?p' = known_actions p" by (simp add: known_actions_def with_session_get)
  have "member_dict ?p' ''sessions'' = member_dict (with_session p u l) ''sessions''"
    by (simp add: member_dict_def g)
  then show ?thesis
    using assms(1) k g by (simp add: restricts_def with_session_get with_session_layer)
qed

end
