(* ===== verification/PermissionRuns.thy ===== *)
theory PermissionRuns
  imports PermissionLaws
begin

text \<open>
  Histories of the permission store: changes by operators, sessions and controllers and the routing of roots, by any
  number of processes.  The revision in a policy file names its content: a file that changes gets a higher one.
\<close>

text \<open>One call of one process.  What \<^const>\<open>change_session\<close> read before it took the lock may be any earlier state.\<close>

inductive policy_step :: "roots \<Rightarrow> roots \<Rightarrow> bool" where
  step_configure: "configure env s policy pr expected w = (r, w') \<Longrightarrow> policy_step w w'"
| step_change: "change_session env s u layer pr expected w0 w = (r, w') \<Longrightarrow> policy_step w w'"
| step_bind: "bind_domain env s domain pr w = (b, w') \<Longrightarrow> policy_step w w'"

definition policy_revision :: "roots \<Rightarrow> string \<Rightarrow> int" where
  "policy_revision w root =
     (case rt_policy (w root) of
        Some (JObj d) \<Rightarrow> (case jget d ''revision'' of JInt n \<Rightarrow> n | _ \<Rightarrow> 0)
      | _ \<Rightarrow> 0)"

lemma policy_revision_read: "read_policy env w s = Inr sv \<Longrightarrow> policy_revision w (st_root s) = sv_revision sv"
  by (auto simp: read_policy_def saved_of_def policy_revision_def split: if_splits option.splits json.splits)

lemma policy_revision_old: "old_policy env w s = Inr (n, h, ad) \<Longrightarrow> n = policy_revision w (st_root s)"
  by (auto simp: old_policy_def active_store_def policy_revision_def dest!: policy_revision_read
      split: if_splits sum.splits)

text \<open>A file changes or keeps its content, and a change raises its revision.\<close>

definition policy_grows :: "roots \<Rightarrow> roots \<Rightarrow> bool" where
  "policy_grows w w' = (\<forall>x. rt_policy (w' x) = rt_policy (w x) \<or> policy_revision w x < policy_revision w' x)"

lemma policy_same: "rt_policy (w' x) = rt_policy (w x) \<Longrightarrow> policy_revision w' x = policy_revision w x"
  by (simp add: policy_revision_def)

lemma policy_grows_refl: "policy_grows w w"
  by (simp add: policy_grows_def)

lemma policy_grows_trans: "policy_grows u v \<Longrightarrow> policy_grows v w \<Longrightarrow> policy_grows u w"
  unfolding policy_grows_def using policy_same less_trans by metis

lemma save_cases: "save fault g w = (r, w') \<Longrightarrow> w' = w \<or> w' = g w"
  by (auto simp: save_def split: write_fault.splits)

lemma configure_grows:
  assumes "configure env s policy pr expected w = (r, w')"
  shows "policy_grows w w'"
proof (cases "w' = w")
  case False
  then obtain n h ad where old: "old_policy env w s = Inr (n, h, ad)" "expected = JInt n"
    using assms by (auto simp: configure_def split: if_splits sum.splits)
  obtain hs where hs: "items_of h = Some hs"
    using assms old False by (auto simp: configure_def Let_def split: if_splits option.splits)
  let ?p = "completed_policy ad (as_dict policy)"
  let ?v = "value_of (n + 1) pr ?p (hs @ [entry_of env (n + 1) pr ?p])"
  let ?set = "set_policy (st_root s) ?v w"
    and ?both = "set_adopted (st_root s) (JObj [(''version'', JInt 1), (''initial_issuer'', JStr (pr_subject pr))]) (set_policy (st_root s) ?v w)"
  obtain r1 w1 where w1: "save (se_first env) (set_policy (st_root s) ?v) w = (r1, w1)" by fastforce
  obtain r2 w2 where w2: "save (se_second env) (set_adopted (st_root s)
      (JObj [(''version'', JInt 1), (''initial_issuer'', JStr (pr_subject pr))])) w1 = (r2, w2)" by fastforce
  have "w' = w1 \<or> r1 = Inr () \<and> w' = w2"
    using assms old hs False w1 w2
    by (auto simp: configure_def Let_def value_of_def entry_of_def split: if_splits sum.splits prod.splits)
  then have "w' = ?set \<or> w' = ?both"
  proof (elim disjE conjE)
    assume "r1 = Inr ()" "w' = w2"
    then show ?thesis using save_cases [OF w2] save_Inr [of "se_first env" "set_policy (st_root s) ?v" w "()" w1] w1 by auto
  qed (use False save_cases [OF w1] in simp)
  then have here: "rt_policy (w' (st_root s)) = Some ?v" and there: "\<And>x. x \<noteq> st_root s \<Longrightarrow> rt_policy (w' x) = rt_policy (w x)"
    by (auto simp: set_policy_def set_adopted_def)
  have "policy_revision w' (st_root s) = n + 1" using here by (simp add: policy_revision_def value_of_def jget_def)
  then have up: "policy_revision w (st_root s) < policy_revision w' (st_root s)" using policy_revision_old [OF old(1)] by simp
  show ?thesis unfolding policy_grows_def
  proof
    fix x
    show "rt_policy (w' x) = rt_policy (w x) \<or> policy_revision w x < policy_revision w' x"
      using up there by (cases "x = st_root s") simp_all
  qed
qed (simp add: policy_grows_refl)

lemma policy_step_grows: "policy_step w w' \<Longrightarrow> policy_grows w w'"
proof (induction rule: policy_step.induct)
  case (step_configure env s policy pr expected w r w')
  then show ?case by (rule configure_grows)
next
  case (step_change env s u layer pr expected w0 w r w')
  then show ?case
    by (auto simp: change_session_def policy_grows_refl split: if_splits sum.splits intro: configure_grows)
next
  case (step_bind env s domain pr w b w')
  then have "w' = w \<or> (\<exists>v. w' = set_link domain v w)"
    by (auto simp: bind_domain_def split: if_splits sum.splits option.splits json.splits prod.splits dest!: save_cases)
  then show ?case by (auto simp: policy_grows_def set_link_def)
qed

lemma policy_steps_grow: "policy_step\<^sup>*\<^sup>* w w' \<Longrightarrow> policy_grows w w'"
  by (induction rule: rtranclp_induct) (auto intro: policy_grows_refl policy_grows_trans policy_step_grows)

text \<open>Whoever names the revision of a file that was read before gets his change accepted only on that very file.\<close>

lemma named_revision_same:
  assumes "policy_step\<^sup>*\<^sup>* w0 w" "read_policy env w0 s = Inr sv" "old_policy env' w s = Inr (sv_revision sv, h, ad)"
  shows "rt_policy (w (st_root s)) = rt_policy (w0 (st_root s))"
  using policy_steps_grow [OF assms(1)] policy_revision_read [OF assms(2)] policy_revision_old [OF assms(3)]
  unfolding policy_grows_def by force

lemma read_same_policy: "rt_policy (w' (st_root s)) = rt_policy (w (st_root s)) \<Longrightarrow> read_policy env w' s = read_policy env w s"
  by (simp add: read_policy_def)

text \<open>A revision that was replaced is never accepted again.\<close>

lemma replaced_revision_refused:
  assumes "policy_step\<^sup>*\<^sup>* w w'" "n < policy_revision w (st_root s)"
  shows "isl (fst (configure env s policy pr (JInt n) w'))"
proof (cases "configure env s policy pr (JInt n) w'")
  case (Pair r w2)
  show ?thesis
  proof (cases r)
    case (Inr cf)
    obtain h ad where "old_policy env w' s = Inr (n, h, ad)"
      using configure_Inr [of env s policy pr "JInt n" w' cf w2] Pair Inr by (metis json.inject(2))
    from policy_revision_old [OF this] have "policy_revision w' (st_root s) = n" by simp
    then show ?thesis
      using policy_steps_grow [OF assms(1)] policy_same [of w' "st_root s" w] assms(2) unfolding policy_grows_def by force
  qed (simp add: Pair)
qed

text \<open>A stored file reads back unless it, or the policy in it, has outgrown its limit.\<close>

lemma read_stored:
  assumes "\<not> st_routing_error s" "se_private env (st_root s)" "rt_policy (w (st_root s)) = Some (value_of n pr p hs)"
    "1 \<le> n" "policy_shape p"
  shows "read_policy env w s =
    (if utf8_len (dumps_spaced (value_of n pr p hs)) \<le> max_state_bytes \<and> utf8_len (render_spaced (JObj p)) \<le> max_policy_bytes
     then Inr \<lparr>sv_revision = n, sv_policy = p, sv_history = JArr hs\<rparr> else Inl Escaped)"
proof -
  have v: "valid_policy (JObj p) \<longleftrightarrow> utf8_len (render_spaced (JObj p)) \<le> max_policy_bytes"
    using assms(5) by (simp add: valid_policy_def)
  have saved: "saved_of (value_of n pr p hs) = (if valid_policy (JObj p)
      then Inr \<lparr>sv_revision = n, sv_policy = p, sv_history = JArr hs\<rparr> else Inl Escaped)"
    using assms(4) by (simp add: saved_of_def value_of_def has_fields_def jget_def)
  show ?thesis using assms(1-3) by (simp add: read_policy_def saved v)
qed

end
