(* ===== verification/PermissionGuarantees.thy ===== *)
theory PermissionGuarantees
  imports PermissionRuns CustodySamples
begin

text \<open>The guarantees of the common permission policy, with the policies their witnesses use.\<close>

section \<open>A small policy\<close>

definition host_env :: store_env where
  "host_env = \<lparr>se_canonical = (\<lambda>_. True), se_private = (\<lambda>_. True), se_owners = (\<lambda>_. Some []), se_owners_ready = (\<lambda>_. True),
     se_now = JInt 100, se_first = Written, se_second = Written\<rparr>"

definition host_store :: store where
  "host_store = \<lparr>st_root = ''/wake'', st_execution_root = ''/wake'', st_routing_error = False\<rparr>"

definition operator :: principal where
  "operator = \<lparr>pr_subject = ''op'', pr_role = ''operator'', pr_tasks = [], pr_predecessor = None, pr_ancestors = []\<rparr>"

definition agent :: principal where
  "agent = \<lparr>pr_subject = ''a'', pr_role = ''session'', pr_tasks = [], pr_predecessor = None, pr_ancestors = []\<rparr>"

definition plain_policy :: "(string, json) dict" where
  "plain_policy = [(''version'', JInt 1), (''known_actions'', JArr [JStr ''refresh.self''])]"

definition host_roots :: roots where
  "host_roots = (\<lambda>_. \<lparr>rt_link = None, rt_policy = Some (value_of 1 operator plain_policy []), rt_adopted = None\<rparr>)"

definition ask :: "string \<Rightarrow> question" where
  "ask a = \<lparr>qn_action = a, qn_target = None, qn_relationship = None, qn_task = None, qn_operation = None,
     qn_capability = ''not_observed'', qn_readiness = ''not_observed'', qn_launch_profile = None\<rparr>"

lemma host_simps [simp]:
  "se_canonical host_env x" "se_private host_env x" "se_owners host_env x = Some []" "se_owners_ready host_env x"
  "se_now host_env = JInt 100" "se_first host_env = Written" "se_second host_env = Written"
  "st_root host_store = ''/wake''" "st_execution_root host_store = ''/wake''" "\<not> st_routing_error host_store"
  "pr_role operator = ''operator''" "pr_subject operator = ''op''"
  by (simp_all add: host_env_def host_store_def operator_def)

lemma small_text: "2 * length t \<le> 262144 \<Longrightarrow> utf8_len t \<le> max_policy_bytes" "2 * length t \<le> 4194304 \<Longrightarrow> utf8_len t \<le> max_state_bytes"
  using utf8_len_le [of t] by (simp_all add: max_policy_bytes_def max_state_bytes_def)

lemma escape_length: "length (concat (map (escape_char b) s)) \<le> 6 * length s"
proof (induction s)
  case (Cons c s)
  have "length (escape_char b c) \<le> 6" by (simp add: escape_char_def)
  with Cons show ?case by simp
qed simp

lemma plain_shape: "policy_shape plain_policy"
  by (simp add: policy_shape_def plain_policy_def keys_within_def policy_fields_def jget_def optional_def list_of_def
      is_action_def actions_def member_list_def member_dict_def profile_known_def)

lemma plain_valid: "valid_policy (JObj plain_policy)"
proof -
  have "utf8_len (render_spaced (JObj plain_policy)) \<le> max_policy_bytes"
    by (rule small_text) (simp add: plain_policy_def dumps_str_def escape_char_def int_str_def nat_str.simps digit_char_def)
  then show ?thesis by (simp add: valid_policy_def plain_shape)
qed

lemma host_reads: "read_policy host_env host_roots host_store = Inr \<lparr>sv_revision = 1, sv_policy = plain_policy, sv_history = JArr []\<rparr>"
proof (rule read_value)
  show "utf8_len (dumps_spaced (value_of 1 operator plain_policy [])) \<le> max_state_bytes"
    by (rule small_text)
       (simp add: dumps_spaced_def value_of_def operator_def plain_policy_def dumps_str_def escape_char_def int_str_def
         nat_str.simps digit_char_def)
qed (simp_all add: host_store_def host_env_def host_roots_def plain_valid)

lemma agent_asks: "question_ok agent (ask ''refresh.self'') = Inr ()"
  by (simp add: question_ok_def principal_ok_def agent_def ask_def actions_def relation_to_def target_of_def given_def
      relationships_def)

lemma plain_ruling: "base_ruling plain_policy [] agent (ask ''refresh.self'')
    = \<lparr>ru_decision = ''allow'', ru_source = ''profile:permissive'', ru_failed = False\<rparr>"
  by (simp add: base_ruling_def prohibited_def exact_scope_def layered_def layers_of_def selected_profile_def
      plain_policy_def agent_def ask_def member_dict_def member_list_def assignment_of_def apply_layer_def rule_at_def
      rule_decision_def str_of_def initial_ruling_def actions_def known_actions_def task_finished_def legacy_ceiling_def
      lifecycle_actions_def self_actions_def relation_to_def target_of_def given_def Let_def)

lemma agent_allowed: "\<exists>vd. evaluate_permission host_env host_roots host_store agent (ask ''refresh.self'') = Inr vd \<and> vd_permission vd = ''allow''"
  using plain_ruling
  by (simp add: evaluate_permission_def agent_asks host_reads decide_def verdict_of_def Let_def)
     (simp add: ask_def plain_policy_def)

section \<open>Decisions\<close>

text \<open>C9. What is allowed has grounds: an evaluation answers allow only to a well-formed principal, for a task that it holds
  (an operator may name any) and that is not finished, within the exact scope of self actions and of shared refresh, for an action that is not
  prohibited and whose legacy ceiling is met; and then either the layers of the stored policy allow the action and no
  approval is named, or the approval named is one of the policy, unexpired, and covers the action, subject, target, task and operation.\<close>

theorem allowed_action_has_grounds:
  assumes "evaluate_permission env w s pr q = Inr vd" "vd_permission vd = ''allow''"
  shows "\<exists>sv. read_policy env w s = Inr sv \<and> principal_ok pr
    \<and> (\<forall>t. qn_task q = Some t \<longrightarrow> (pr_role pr = ''operator'' \<or> t \<in> set (pr_tasks pr))
         \<and> (\<exists>os. se_owners env (st_root s) = Some os \<and> jget os (owner_key t) = JNull))
    \<and> (qn_action q \<in> set self_actions \<longrightarrow> target_of pr q = pr_subject pr)
    \<and> (qn_action q = ''refresh.shared'' \<longrightarrow> relation_to pr q = ''shared'')
    \<and> JStr (qn_action q) \<notin> set (member_list (sv_policy sv) ''mandatory'') \<and> \<not> legacy_ceiling (sv_policy sv) pr q
    \<and> ground (sv_policy sv) (se_now env) pr q vd"
proof -
  obtain sv os where e: "read_policy env w s = Inr sv" "question_ok pr q = Inr ()"
    "if qn_task q = None then os = [] else se_owners env (st_root s) = Some os"
    "vd = decide (sv_policy sv) (sv_revision sv) os (se_now env) pr q"
    using evaluate_Inr [OF assms(1)] by metis
  have v: "valid_policy (JObj (sv_policy sv))" using read_valid [OF e(1)] by simp
  note d = decide_allow [OF v e(4) assms(2)]
  note b = base_not_deny [OF d(1)]
  have self: "qn_action q \<in> set self_actions \<longrightarrow> target_of pr q = pr_subject pr"
    using b(4) e(2) by (auto simp: in_scope_def question_ok_def split: if_splits)
  have task: "(pr_role pr = ''operator'' \<or> t \<in> set (pr_tasks pr))
      \<and> (\<exists>os. se_owners env (st_root s) = Some os \<and> jget os (owner_key t) = JNull)" if "qn_task q = Some t" for t
    using that e(2,3) b(2) by (auto simp: question_ok_def task_finished_def split: if_splits)
  have "principal_ok pr" using e(2) by (auto simp: question_ok_def split: if_splits)
  with e(1) self task b(1,3,4) d(2) show ?thesis by (auto simp: in_scope_def)
qed

theorem allowed_action_has_grounds_witness:
  "\<exists>vd. evaluate_permission host_env host_roots host_store agent (ask ''refresh.self'') = Inr vd \<and> vd_permission vd = ''allow''
     \<and> ground plain_policy (JInt 100) agent (ask ''refresh.self'') vd"
proof -
  obtain vd where vd: "evaluate_permission host_env host_roots host_store agent (ask ''refresh.self'') = Inr vd"
    "vd_permission vd = ''allow''"
    using agent_allowed by blast
  from allowed_action_has_grounds [OF vd] obtain sv where "read_policy host_env host_roots host_store = Inr sv"
    "ground (sv_policy sv) (se_now host_env) agent (ask ''refresh.self'') vd"
    by blast
  with vd show ?thesis by (auto simp: host_reads)
qed

section \<open>Changes\<close>

text \<open>C17. An accepted change is what is stored and read next: a configuration is accepted only from an operator who names the current
  revision; it stores the completed policy under the next revision, with the history extended by exactly the entry of that
  revision, issuer, time and digest, and leaves other roots alone; the next reading gives exactly that if the completed policy is within the
  limit on policies and the file within the limit on files, and fails otherwise; and after any further changes, by whomever and with
  writes lost or not, no change that names the same revision is accepted.\<close>

theorem accepted_change_is_what_is_read:
  assumes "configure env s policy pr expected w = (Inr cf, w')"
  shows "\<exists>n hist ad hs p e v. old_policy env w s = Inr (n, hist, ad) \<and> items_of hist = Some hs
    \<and> pr_role pr = ''operator'' \<and> expected = JInt n \<and> cf_revision cf = n + 1
    \<and> p = completed_policy ad (as_dict policy)
    \<and> e = JObj [(''revision'', JInt (n + 1)), (''issuer'', JStr (pr_subject pr)), (''at'', se_now env),
                (''digest'', JStr (sha256_hex (dumps_spaced (JObj p))))]
    \<and> v = JObj [(''revision'', JInt (n + 1)), (''issuer'', JStr (pr_subject pr)), (''policy'', JObj p), (''history'', JArr (hs @ [e]))]
    \<and> rt_policy (w' (st_root s)) = Some v \<and> (\<forall>x. x \<noteq> st_root s \<longrightarrow> w' x = w x)
    \<and> read_policy env w' s =
        (if utf8_len (dumps_spaced v) \<le> max_state_bytes \<and> utf8_len (render_spaced (JObj p)) \<le> max_policy_bytes
         then Inr \<lparr>sv_revision = n + 1, sv_policy = p, sv_history = JArr (hs @ [e])\<rparr> else Inl Escaped)
    \<and> (\<forall>env2 policy2 pr2 w2. policy_step\<^sup>*\<^sup>* w' w2 \<longrightarrow> isl (fst (configure env2 s policy2 pr2 expected w2)))"
proof -
  obtain n hist ad hs where old: "old_policy env w s = Inr (n, hist, ad)" and c: "expected = JInt n"
    "items_of hist = Some hs" "valid_policy policy" "\<not> st_routing_error s"
    "pr_role pr = ''operator''" "se_private env (st_root s)" "cf_revision cf = n + 1"
    "rt_policy (w' (st_root s)) = Some (value_of (n + 1) pr (completed_policy ad (as_dict policy))
        (hs @ [entry_of env (n + 1) pr (completed_policy ad (as_dict policy))]))"
    "rt_link (w' (st_root s)) = rt_link (w (st_root s))" "\<forall>x. x \<noteq> st_root s \<longrightarrow> w' x = w x"
    by (rule configure_Inr [OF assms])
  define p where "p = completed_policy ad (as_dict policy)"
  define e where "e = entry_of env (n + 1) pr p"
  have shape: "policy_shape p"
    unfolding p_def using c(3) old_adoption [OF old] by (intro shape_completed) (auto simp: valid_policy_def split: json.splits)
  have stored: "rt_policy (w' (st_root s)) = Some (value_of (n + 1) pr p (hs @ [e]))" using c(8) by (simp add: p_def e_def)
  have read: "read_policy env w' s =
      (if utf8_len (dumps_spaced (value_of (n + 1) pr p (hs @ [e]))) \<le> max_state_bytes \<and> utf8_len (render_spaced (JObj p)) \<le> max_policy_bytes
       then Inr \<lparr>sv_revision = n + 1, sv_policy = p, sv_history = JArr (hs @ [e])\<rparr> else Inl Escaped)"
    using old_adoption [OF old] by (intro read_stored c(4,6) stored shape) simp
  have "policy_revision w' (st_root s) = n + 1" using stored by (simp add: policy_revision_def value_of_def jget_def)
  then have "isl (fst (configure env2 s policy2 pr2 expected w2))" if "policy_step\<^sup>*\<^sup>* w' w2" for env2 policy2 pr2 w2
    using replaced_revision_refused [OF that, of n s] c(1) by simp
  then show ?thesis
    using old c(1,2,5,7,10) stored read p_def e_def unfolding value_of_def entry_of_def by blast
qed

lemma host_old: "old_policy host_env host_roots host_store = Inr (1, JArr [], JNull)"
proof -
  have "active_store host_roots host_store" by (simp add: active_store_def host_roots_def)
  then show ?thesis by (simp add: old_policy_def host_reads) (simp add: plain_policy_def jget_def)
qed

lemma host_completed: "completed_policy JNull plain_policy = plain_policy"
  by (simp add: completed_policy_def plain_policy_def Let_def)

lemma digest_length: "length (sha256_hex t) = 64"
  by (rule length_sha256_hex)

lemma host_configures:
  "\<exists>cf w'. configure host_env host_store (JObj plain_policy) operator (JInt 1) host_roots = (Inr cf, w')
     \<and> rt_policy (w' (st_root host_store)) = Some (value_of 2 operator plain_policy [entry_of host_env 2 operator plain_policy])"
  by (simp add: configure_def plain_valid host_old host_completed items_of_def save_def Let_def
      set_policy_def set_adopted_def value_of_def entry_of_def)

lemma host_state_fits:
  "utf8_len (dumps_spaced (value_of 2 operator plain_policy [entry_of host_env 2 operator plain_policy])) \<le> max_state_bytes"
proof (rule small_text)
  define d where "d = sha256_hex (dumps_spaced (JObj plain_policy))"
  have "length (concat (map (escape_char True) d)) \<le> 384"
    using escape_length [of True d] digest_length by (simp add: d_def)
  then show "2 * length (dumps_spaced (value_of 2 operator plain_policy [entry_of host_env 2 operator plain_policy])) \<le> 4194304"
    unfolding value_of_def entry_of_def d_def [symmetric]
    by (simp add: dumps_spaced_def plain_policy_def dumps_str_def escape_char_def int_str_def nat_str.simps digit_char_def)
qed

theorem accepted_change_is_what_is_read_witness:
  "\<exists>cf w'. configure host_env host_store (JObj plain_policy) operator (JInt 1) host_roots = (Inr cf, w') \<and> cf_revision cf = 2
     \<and> (\<exists>sv. read_policy host_env w' host_store = Inr sv \<and> sv_policy sv = plain_policy)
     \<and> isl (fst (configure host_env host_store (JObj plain_policy) operator (JInt 1) w'))"
proof -
  obtain cf w' where c: "configure host_env host_store (JObj plain_policy) operator (JInt 1) host_roots = (Inr cf, w')"
    "rt_policy (w' (st_root host_store)) = Some (value_of 2 operator plain_policy [entry_of host_env 2 operator plain_policy])"
    using host_configures by blast
  have fits: "utf8_len (render_spaced (JObj plain_policy)) \<le> max_policy_bytes" using plain_valid by (simp add: valid_policy_def)
  from accepted_change_is_what_is_read [OF c(1)] obtain n hist ad hs e v where a:
    "old_policy host_env host_roots host_store = Inr (n, hist, ad)" "cf_revision cf = n + 1"
    "rt_policy (w' (st_root host_store)) = Some v"
    "read_policy host_env w' host_store = (if utf8_len (dumps_spaced v) \<le> max_state_bytes
        \<and> utf8_len (render_spaced (JObj (completed_policy ad (as_dict (JObj plain_policy))))) \<le> max_policy_bytes
      then Inr \<lparr>sv_revision = n + 1, sv_policy = completed_policy ad (as_dict (JObj plain_policy)), sv_history = JArr (hs @ [e])\<rparr> else Inl Escaped)"
    and later: "\<And>w2. policy_step\<^sup>*\<^sup>* w' w2 \<Longrightarrow> isl (fst (configure host_env host_store (JObj plain_policy) operator (JInt 1) w2))"
    by metis
  have "n = 1" "ad = JNull" using a(1) host_old by simp_all
  then have "cf_revision cf = 2" "\<exists>sv. read_policy host_env w' host_store = Inr sv \<and> sv_policy sv = plain_policy"
    using a(2-4) c(2) fits host_state_fits by (auto simp: host_completed)
  with c(1) later [OF rtranclp.rtrancl_refl] show ?thesis by blast
qed

section \<open>Restricting oneself\<close>

text \<open>C16. A session cannot widen anything by changing its own layer when it names the revision its call read: whatever other changes
  come between that reading and the lock, after an accepted change that selects no profile, whatever an evaluation for any principal
  allows was allowed just before it, for every action that the policy had settled, that is known to its catalog, configured for that
  principal, or covered by the inheritance of future actions.  A session that names a newer revision than the one its call read is not covered:
  its change brings back the older policy.\<close>

theorem self_restriction_never_widens:
  assumes "read_policy env w0 s = Inr sv" "policy_step\<^sup>*\<^sup>* w0 w"
    and "change_session env s u layer pr (JInt (sv_revision sv)) w0 w = (Inr cf, w')" "pr_role pr = ''session''"
    and "''profile'' \<notin> set (dict_keys (as_dict layer))" "settled (sv_policy sv) pr2 q"
    and "evaluate_permission env2 w' s pr2 q = Inr vd" "vd_permission vd = ''allow''"
  shows "\<exists>vd0. evaluate_permission env2 w s pr2 q = Inr vd0 \<and> vd_permission vd0 = ''allow''"
proof -
  let ?p = "sv_policy sv" and ?l = "as_dict layer"
  let ?op = "pr\<lparr>pr_role := ''operator'', pr_tasks := [], pr_predecessor := None, pr_ancestors := []\<rparr>"
  have sc: "change_scope ?p u ?l pr = Inr ()"
    and cf: "configure env s (JObj (with_session ?p u ?l)) ?op (JInt (sv_revision sv)) w = (Inr cf, w')"
    using assms(1,3) by (auto simp: change_session_def split: if_splits sum.splits)
  have sd: "self_denial ?l" using scope_self_denial [OF sc assms(4,5)] by simp
  have v: "valid_policy (JObj ?p)" using read_valid [OF assms(1)] by simp
  let ?p' = "completed_policy (jget ?p ''adoption'') (with_session ?p u ?l)"
  have r: "restricts u ?l ?p ?p'" by (rule restricts_completed [OF sd v])
  obtain n h ad0 hs where old': "old_policy env w s = Inr (n, h, ad0)" and new: "JInt (sv_revision sv) = JInt n" "items_of h = Some hs"
    "valid_policy (JObj (with_session ?p u ?l))" "\<not> st_routing_error s" "pr_role ?op = ''operator''"
    "se_private env (st_root s)" "cf_revision cf = n + 1"
    "rt_policy (w' (st_root s)) = Some (value_of (n + 1) ?op (completed_policy ad0 (as_dict (JObj (with_session ?p u ?l))))
        (hs @ [entry_of env (n + 1) ?op (completed_policy ad0 (as_dict (JObj (with_session ?p u ?l))))]))"
    "rt_link (w' (st_root s)) = rt_link (w (st_root s))" "\<forall>x. x \<noteq> st_root s \<longrightarrow> w' x = w x"
    by (rule configure_Inr [OF cf])
  have "rt_policy (w (st_root s)) = rt_policy (w0 (st_root s))"
    using named_revision_same [OF assms(2,1), of env h ad0] old' new(1) by simp
  then have here: "read_policy env w s = Inr sv" using assms(1) read_same_policy by metis
  have old: "old_policy env w s = Inr (sv_revision sv, sv_history sv, jget ?p ''adoption'')"
    using read_private [OF here] here by (simp add: old_policy_def)
  have ad0: "ad0 = jget ?p ''adoption''" using old old' by simp
  have val: "rt_policy (w' (st_root s)) = Some (value_of (n + 1) ?op ?p' (hs @ [entry_of env (n + 1) ?op ?p']))"
    using new(8) by (simp add: ad0 as_dict_def)
  obtain sv' os where e: "read_policy env2 w' s = Inr sv'" "question_ok pr2 q = Inr ()"
    "dict_get (sv_policy sv') ''adoption'' \<noteq> Some JNull"
    "if qn_task q = None then os = [] else se_owners env2 (st_root s) = Some os"
    "vd = decide (sv_policy sv') (sv_revision sv') os (se_now env2) pr2 q"
    using evaluate_Inr [OF assms(7)] by metis
  have p': "sv_policy sv' = ?p'" by (rule read_value_policy [OF e(1) val])
  have v': "valid_policy (JObj ?p')" using read_valid [OF e(1)] p' by simp
  have rd: "read_policy env2 w s = Inr sv"
    using read_later [OF here] read_private [OF e(1)] by simp
  have ad: "dict_get ?p ''adoption'' \<noteq> Some JNull" using e(3) p' get_same [OF r, of "''adoption''"] by simp
  have "vd_permission (decide ?p' (sv_revision sv') os (se_now env2) pr2 q) = ''allow''" using assms(8) e(5) p' by simp
  then have "vd_permission (decide ?p (sv_revision sv) os (se_now env2) pr2 q) = ''allow''"
    using decide_same [OF r _ assms(6) v'] by simp
  then show ?thesis
    using e(2,4) rd ad by (auto simp: evaluate_permission_def Let_def split: if_splits)
qed

text \<open>A session denies itself one action; the other it keeps.\<close>

definition two_policy :: "(string, json) dict" where
  "two_policy = [(''version'', JInt 1), (''known_actions'', JArr [JStr ''refresh.self'', JStr ''a2a.send''])]"

definition deny_send :: "(string, json) dict" where
  "deny_send = [(''actions'', JObj [(''a2a.send'', JStr ''deny'')])]"

definition two_roots :: roots where
  "two_roots = (\<lambda>_. \<lparr>rt_link = None, rt_policy = Some (value_of 1 operator two_policy []), rt_adopted = None\<rparr>)"

definition denied_policy :: "(string, json) dict" where
  "denied_policy = [(''version'', JInt 1), (''known_actions'', JArr [JStr ''refresh.self'', JStr ''a2a.send'']),
     (''sessions'', JObj [(''a'', JObj [(''actions'', JObj [(''a2a.send'', JStr ''deny'')])])])]"

lemma denied_session: "completed_policy (jget two_policy ''adoption'') (with_session two_policy ''a'' deny_send) = denied_policy"
  by (simp add: completed_policy_def with_session_def merged_layer_def dict_merge_def two_policy_def deny_send_def
      denied_policy_def member_dict_def jget_def Let_def)

lemmas shapes = policy_shape_def keys_within_def policy_fields_def jget_def optional_def list_of_def is_action_def
  member_list_def member_dict_def profile_known_def group_ok_def layer_ok_def actions_ok_def rule_ok_def decisions_def as_dict_def

lemma two_shape: "policy_shape two_policy" "policy_shape denied_policy"
  by (simp_all add: shapes two_policy_def denied_policy_def actions_def)

lemma two_valid: "valid_policy (JObj two_policy)" "valid_policy (JObj denied_policy)"
proof -
  have "utf8_len (render_spaced (JObj two_policy)) \<le> max_policy_bytes" "utf8_len (render_spaced (JObj denied_policy)) \<le> max_policy_bytes"
    by (rule small_text, simp add: two_policy_def denied_policy_def dumps_str_def escape_char_def int_str_def nat_str.simps digit_char_def)+
  then show "valid_policy (JObj two_policy)" "valid_policy (JObj denied_policy)" by (simp_all add: valid_policy_def two_shape)
qed

lemma denied_with: "with_session two_policy ''a'' deny_send = denied_policy"
  by (simp add: with_session_def merged_layer_def dict_merge_def two_policy_def deny_send_def denied_policy_def member_dict_def)

lemma two_reads: "read_policy host_env two_roots host_store = Inr \<lparr>sv_revision = 1, sv_policy = two_policy, sv_history = JArr []\<rparr>"
proof (rule read_value)
  show "utf8_len (dumps_spaced (value_of 1 operator two_policy [])) \<le> max_state_bytes"
    by (rule small_text)
       (simp add: dumps_spaced_def value_of_def two_policy_def dumps_str_def escape_char_def int_str_def nat_str.simps digit_char_def)
qed (simp_all add: two_roots_def two_valid)

definition self_operator :: principal where
  "self_operator = agent\<lparr>pr_role := ''operator''\<rparr>"

lemma agent_changes:
  "\<exists>cf w'. change_session host_env host_store ''a'' (JObj deny_send) agent (JInt 1) two_roots two_roots = (Inr cf, w')
     \<and> rt_policy (w' ''/wake'') = Some (value_of 2 self_operator denied_policy [entry_of host_env 2 self_operator denied_policy])"
proof -
  have l: "layer_ok (JObj deny_send)" by (simp add: shapes deny_send_def actions_def)
  have sc: "change_scope two_policy ''a'' deny_send agent = Inr ()"
    by (simp add: change_scope_def agent_def two_policy_def deny_send_def member_dict_def member_list_def keys_within_def Let_def)
  have op: "agent\<lparr>pr_role := ''operator'', pr_tasks := [], pr_predecessor := None, pr_ancestors := []\<rparr> = self_operator"
    by (simp add: agent_def self_operator_def)
  have old: "old_policy host_env two_roots host_store = Inr (1, JArr [], jget two_policy ''adoption'')"
  proof -
    have "active_store two_roots host_store" by (simp add: active_store_def two_roots_def)
    then show ?thesis by (simp add: old_policy_def two_reads)
  qed
  have "completed_policy (jget two_policy ''adoption'') denied_policy = denied_policy"
    using denied_session denied_with by simp
  then show ?thesis
    by (simp add: change_session_def l two_reads sc op denied_with configure_def two_valid old items_of_def save_def Let_def
        set_policy_def set_adopted_def value_of_def entry_of_def)
       (simp add: self_operator_def agent_def)
qed

lemma denied_state_fits:
  "utf8_len (dumps_spaced (value_of 2 self_operator denied_policy [entry_of host_env 2 self_operator denied_policy])) \<le> max_state_bytes"
proof (rule small_text)
  define d where "d = sha256_hex (dumps_spaced (JObj denied_policy))"
  have "length (concat (map (escape_char True) d)) \<le> 384"
    using escape_length [of True d] digest_length by (simp add: d_def)
  then show "2 * length (dumps_spaced (value_of 2 self_operator denied_policy [entry_of host_env 2 self_operator denied_policy])) \<le> 4194304"
    unfolding value_of_def entry_of_def d_def [symmetric]
    by (simp add: dumps_spaced_def denied_policy_def self_operator_def agent_def dumps_str_def escape_char_def int_str_def
        nat_str.simps digit_char_def)
qed

lemma denied_ruling: "ru_decision (base_ruling denied_policy [] agent (ask ''refresh.self'')) = ''allow''"
  by (simp add: base_ruling_def prohibited_def exact_scope_def layered_def layers_of_def selected_profile_def
      denied_policy_def agent_def ask_def member_dict_def member_list_def assignment_of_def apply_layer_def rule_at_def
      rule_decision_def str_of_def initial_ruling_def actions_def known_actions_def task_finished_def legacy_ceiling_def
      lifecycle_actions_def self_actions_def relation_to_def target_of_def given_def Let_def)

theorem self_restriction_never_widens_witness:
  "\<exists>cf w'. change_session host_env host_store ''a'' (JObj deny_send) agent (JInt 1) two_roots two_roots = (Inr cf, w')
     \<and> (\<exists>vd0. evaluate_permission host_env two_roots host_store agent (ask ''refresh.self'') = Inr vd0 \<and> vd_permission vd0 = ''allow'')"
proof -
  obtain cf w' where c: "change_session host_env host_store ''a'' (JObj deny_send) agent (JInt 1) two_roots two_roots = (Inr cf, w')"
    "rt_policy (w' ''/wake'') = Some (value_of 2 self_operator denied_policy [entry_of host_env 2 self_operator denied_policy])"
    using agent_changes by blast
  have r: "read_policy host_env w' host_store = Inr \<lparr>sv_revision = 2, sv_policy = denied_policy,
      sv_history = JArr [entry_of host_env 2 self_operator denied_policy]\<rparr>"
    using c(2) two_valid denied_state_fits by (intro read_value) simp_all
  have "dict_get denied_policy ''adoption'' \<noteq> Some JNull" by (simp add: denied_policy_def)
  then have ev: "evaluate_permission host_env w' host_store agent (ask ''refresh.self'')
      = Inr (decide denied_policy 2 [] (JInt 100) agent (ask ''refresh.self''))"
    using r agent_asks by (simp add: evaluate_permission_def Let_def ask_def)
  have "vd_permission (decide denied_policy 2 [] (JInt 100) agent (ask ''refresh.self'')) = ''allow''"
    using denied_ruling by (simp add: decide_def verdict_of_def Let_def)
  moreover have "pr_role agent = ''session''" "''profile'' \<notin> set (dict_keys (as_dict (JObj deny_send)))"
    by (simp_all add: agent_def deny_send_def)
  moreover have "settled (sv_policy \<lparr>sv_revision = 1, sv_policy = two_policy, sv_history = JArr []\<rparr>) agent (ask ''refresh.self'')"
    by (simp add: settled_def known_actions_def two_policy_def ask_def)
  moreover have "change_session host_env host_store ''a'' (JObj deny_send) agent
      (JInt (sv_revision \<lparr>sv_revision = 1, sv_policy = two_policy, sv_history = JArr []\<rparr>)) two_roots two_roots = (Inr cf, w')"
    using c(1) by simp
  ultimately show ?thesis using self_restriction_never_widens [OF two_reads rtranclp.rtrancl_refl _ _ _ _ ev] c(1) by blast
qed

text \<open>
  Without that condition it can: an action that is new to the catalog needs approval although an assignment's default allows it;
  once the session has denied it to itself the action counts as configured, and the assignment's default decides.
\<close>

lemma self_denial_of_a_new_action:
  defines "p \<equiv> [(''version'', JInt 1), (''known_actions'', JArr []), (''assignments'', JObj [(''t'', JObj [(''default'', JStr ''allow'')])])]"
    and "q \<equiv> (ask ''a2a.send'')\<lparr>qn_task := Some ''t''\<rparr>" and "a \<equiv> agent\<lparr>pr_tasks := [''t'']\<rparr>"
  shows "vd_permission (decide p 1 [] now a q) = ''approval_required''"
    and "vd_permission (decide (with_session p ''a'' deny_send) 2 [] now a q) = ''allow''"
  unfolding p_def q_def a_def
  by (simp_all add: decide_def verdict_of_def matching_approval_def base_ruling_def prohibited_def exact_scope_def layered_def
      layers_of_def selected_profile_def agent_def ask_def member_dict_def member_list_def assignment_of_def apply_layer_def
      rule_at_def rule_decision_def rule_matches_def str_of_def initial_ruling_def actions_def known_actions_def
      task_finished_def legacy_ceiling_def lifecycle_actions_def self_actions_def relation_to_def target_of_def given_def
      explicitly_configured_def with_session_def merged_layer_def dict_merge_def deny_send_def jget_def Let_def)

end
