(* ===== verification/Attention.thy ===== *)
theory Attention
  imports PermissionStore JsonMembers
begin

text \<open>
  \<open>attention_queue.py\<close>: questions to a human about blocked operations and the answers given, kept with their history in one
  locked JSON file (\<^theory_text>\<open>LockedFile\<close>).  An answer is data: it is consumed once, and only while the operation it
  was asked for is still the one that is blocked and the common policy still says what it said.
\<close>

section \<open>The context of an operation\<close>

record op_context =
  hc_owner :: string
  hc_operation_id :: string
  hc_attempt :: int
  hc_task_id :: string
  hc_allocation_id :: string
  hc_runtime :: string
  hc_conversation_id :: string
  hc_account :: string
  hc_target :: string
  hc_action :: string
  hc_effect_scope :: string
  hc_policy_root :: string
  hc_policy_revision :: int
  hc_operation_state :: string

definition context_fields :: "string list" where
  "context_fields = [''owner'', ''operation_id'', ''attempt'', ''task_id'', ''allocation_id'', ''runtime'', ''conversation_id'',
     ''account'', ''target'', ''action'', ''effect_scope'', ''policy_root'', ''policy_revision'', ''operation_state'']"

definition bounded_text :: "nat \<Rightarrow> json \<Rightarrow> string option" where
  "bounded_text n v = (case v of JStr s \<Rightarrow> if s = [] \<or> n < length s then None else Some s | _ \<Rightarrow> None)"

definition positive_int :: "json \<Rightarrow> int option" where
  "positive_int v = (case v of JInt i \<Rightarrow> if i < 1 then None else Some i | _ \<Rightarrow> None)"

definition context_of :: "json \<Rightarrow> op_context option" where
  "context_of v =
     (case v of
        JObj d \<Rightarrow>
          if \<not> has_fields context_fields d then None
          else do {
            owner \<leftarrow> bounded_text 2048 (jget d ''owner'');
            operation \<leftarrow> bounded_text 2048 (jget d ''operation_id'');
            attempt \<leftarrow> positive_int (jget d ''attempt'');
            task \<leftarrow> bounded_text 2048 (jget d ''task_id'');
            allocation \<leftarrow> bounded_text 2048 (jget d ''allocation_id'');
            runtime \<leftarrow> bounded_text 2048 (jget d ''runtime'');
            conversation \<leftarrow> bounded_text 2048 (jget d ''conversation_id'');
            account \<leftarrow> bounded_text 2048 (jget d ''account'');
            target \<leftarrow> bounded_text 2048 (jget d ''target'');
            action \<leftarrow> bounded_text 2048 (jget d ''action'');
            effect_scope \<leftarrow> bounded_text 2048 (jget d ''effect_scope'');
            policy_root \<leftarrow> bounded_text 2048 (jget d ''policy_root'');
            policy_revision \<leftarrow> positive_int (jget d ''policy_revision'');
            operation_state \<leftarrow> bounded_text 2048 (jget d ''operation_state'');
            Some \<lparr>hc_owner = owner, hc_operation_id = operation, hc_attempt = attempt, hc_task_id = task,
              hc_allocation_id = allocation, hc_runtime = runtime, hc_conversation_id = conversation, hc_account = account,
              hc_target = target, hc_action = action, hc_effect_scope = effect_scope, hc_policy_root = policy_root,
              hc_policy_revision = policy_revision, hc_operation_state = operation_state\<rparr> }
      | _ \<Rightarrow> None)"

definition context_json :: "op_context \<Rightarrow> json" where
  "context_json c =
     JObj [(''owner'', JStr (hc_owner c)), (''operation_id'', JStr (hc_operation_id c)), (''attempt'', JInt (hc_attempt c)),
       (''task_id'', JStr (hc_task_id c)), (''allocation_id'', JStr (hc_allocation_id c)), (''runtime'', JStr (hc_runtime c)),
       (''conversation_id'', JStr (hc_conversation_id c)), (''account'', JStr (hc_account c)), (''target'', JStr (hc_target c)),
       (''action'', JStr (hc_action c)), (''effect_scope'', JStr (hc_effect_scope c)), (''policy_root'', JStr (hc_policy_root c)),
       (''policy_revision'', JInt (hc_policy_revision c)), (''operation_state'', JStr (hc_operation_state c))]"

section \<open>Requests\<close>

record human_request =
  hr_key :: string
  hr_kind :: string
  hr_question :: string
  hr_options :: "string list"
  hr_evidence :: "string list"
  hr_priority :: string
  hr_expires_at :: json
  hr_context :: op_context
  hr_permission_decision :: bool

definition request_fields :: "string list" where
  "request_fields = [''key'', ''kind'', ''question'', ''options'', ''evidence'', ''priority'', ''expires_at'', ''context'',
     ''permission_decision'']"

definition one_of :: "string list \<Rightarrow> json \<Rightarrow> string option" where
  "one_of xs v = (case v of JStr s \<Rightarrow> if s \<in> set xs then Some s else None | _ \<Rightarrow> None)"

definition number_of :: "json \<Rightarrow> json option" where
  "number_of v = (if is_reading v then Some v else None)"

definition flag_of :: "json \<Rightarrow> bool option" where
  "flag_of v = (case v of JBool b \<Rightarrow> Some b | _ \<Rightarrow> None)"

definition texts_of :: "json \<Rightarrow> string list option" where
  "texts_of v =
     (case v of
        JArr xs \<Rightarrow>
          if xs = [] \<or> 32 < length xs then None
          else (case those (map (bounded_text 4096) xs) of
                  None \<Rightarrow> None
                | Some ts \<Rightarrow> if distinct ts then Some ts else None)
      | _ \<Rightarrow> None)"

text \<open>\<open>_request_shape\<close>: everything but the context is an invalid request, the context is checked last.\<close>

definition shape_of :: "(string, json) dict \<Rightarrow> (op_context \<Rightarrow> human_request) option" where
  "shape_of d =
     do {
       key \<leftarrow> bounded_text 4096 (jget d ''key'');
       question \<leftarrow> bounded_text 4096 (jget d ''question'');
       kind \<leftarrow> one_of [''notice'', ''decision''] (jget d ''kind'');
       priority \<leftarrow> one_of [''low'', ''normal'', ''high'', ''urgent''] (jget d ''priority'');
       expires \<leftarrow> number_of (jget d ''expires_at'');
       permission \<leftarrow> flag_of (jget d ''permission_decision'');
       options \<leftarrow> texts_of (jget d ''options'');
       evidence \<leftarrow> texts_of (jget d ''evidence'');
       if kind = ''notice'' \<and> (options \<noteq> [''acknowledge''] \<or> permission)
          \<or> kind = ''decision'' \<and> options \<noteq> [''accept'', ''decline''] then None
       else Some (\<lambda>c. \<lparr>hr_key = key, hr_kind = kind, hr_question = question, hr_options = options, hr_evidence = evidence,
              hr_priority = priority, hr_expires_at = expires, hr_context = c, hr_permission_decision = permission\<rparr>) }"

definition request_of :: "json \<Rightarrow> human_request attempt" where
  "request_of v =
     (case v of
        JObj d \<Rightarrow>
          if \<not> has_fields request_fields d then Inl (Refused ''request_invalid'')
          else (case shape_of d of
                  None \<Rightarrow> Inl (Refused ''request_invalid'')
                | Some mk \<Rightarrow>
                    (case context_of (jget d ''context'') of
                       None \<Rightarrow> Inl (Refused ''context_invalid'')
                     | Some c \<Rightarrow> Inr (mk c)))
      | _ \<Rightarrow> Inl (Refused ''request_invalid''))"

definition request_json :: "human_request \<Rightarrow> json" where
  "request_json q =
     JObj [(''key'', JStr (hr_key q)), (''kind'', JStr (hr_kind q)), (''question'', JStr (hr_question q)),
       (''options'', JArr (map JStr (hr_options q))), (''evidence'', JArr (map JStr (hr_evidence q))),
       (''priority'', JStr (hr_priority q)), (''expires_at'', hr_expires_at q), (''context'', context_json (hr_context q)),
       (''permission_decision'', JBool (hr_permission_decision q))]"

definition request_fingerprint :: "json \<Rightarrow> string" where
  "request_fingerprint v = sha256_hex (dumps True v)"

section \<open>Rows\<close>

datatype event_kind = EvRequested | EvResponded | EvConsumed | EvClosed | EvUnknown

text \<open>The detail is the response id of a response and its consumption, the reason of a closing.\<close>

record human_event =
  he_event :: event_kind
  he_actor :: string
  he_at :: json
  he_detail :: json

record approval_ref =
  hf_approval_id :: string
  hf_policy_revision :: int

record human_response =
  hp_response_id :: string
  hp_choice :: string
  hp_actor :: string
  hp_at :: json
  hp_request_revision :: int
  hp_fingerprint :: string
  hp_approval :: "approval_ref option"

datatype row_status = RowOpen | RowResponded | RowConsumed | RowClosed | RowUnknown

record human_row =
  hw_request_id :: string
  hw_revision :: int
  hw_status :: row_status
  hw_created_at :: json
  hw_request :: human_request
  hw_fingerprint :: string
  hw_response :: "human_response option"
  hw_history :: "human_event list"

definition event_names :: "(string \<times> event_kind) list" where
  "event_names = [(''requested'', EvRequested), (''responded'', EvResponded), (''consumed'', EvConsumed), (''closed'', EvClosed),
     (''unknown'', EvUnknown)]"

definition event_name :: "event_kind \<Rightarrow> string" where
  "event_name k = (case k of EvRequested \<Rightarrow> ''requested'' | EvResponded \<Rightarrow> ''responded'' | EvConsumed \<Rightarrow> ''consumed''
     | EvClosed \<Rightarrow> ''closed'' | EvUnknown \<Rightarrow> ''unknown'')"

definition detail_field :: "event_kind \<Rightarrow> string list" where
  "detail_field k = (case k of EvRequested \<Rightarrow> [] | EvResponded \<Rightarrow> [''response_id''] | EvConsumed \<Rightarrow> [''response_id'']
     | EvClosed \<Rightarrow> [''reason''] | EvUnknown \<Rightarrow> [''reason''])"

definition human_event_json :: "human_event \<Rightarrow> json" where
  "human_event_json e = JObj ([(''event'', JStr (event_name (he_event e))), (''actor'', JStr (he_actor e)), (''at'', he_at e)]
     @ map (\<lambda>k. (k, he_detail e)) (detail_field (he_event e)))"

definition event_of :: "json \<Rightarrow> human_event option" where
  "event_of v =
     (case v of
        JObj d \<Rightarrow>
          (case jget d ''event'' of
             JStr s \<Rightarrow>
               do {
                 k \<leftarrow> dict_get event_names s;
                 actor \<leftarrow> (case jget d ''actor'' of JStr a \<Rightarrow> if a = [] then None else Some a | _ \<Rightarrow> None);
                 at \<leftarrow> number_of (jget d ''at'');
                 if has_fields ([''event'', ''actor'', ''at''] @ detail_field k) d
                 then Some \<lparr>he_event = k, he_actor = actor, he_at = at,
                   he_detail = (case detail_field k of [] \<Rightarrow> JNull | f # _ \<Rightarrow> jget d f)\<rparr>
                 else None }
           | _ \<Rightarrow> None)
      | _ \<Rightarrow> None)"

definition approval_json :: "approval_ref option \<Rightarrow> json" where
  "approval_json a =
     (case a of
        None \<Rightarrow> JNull
      | Some r \<Rightarrow> JObj [(''approval_id'', JStr (hf_approval_id r)), (''policy_revision'', JInt (hf_policy_revision r))])"

definition approval_of :: "json \<Rightarrow> approval_ref option option" where
  "approval_of v =
     (case v of
        JNull \<Rightarrow> Some None
      | JObj d \<Rightarrow>
          if \<not> has_fields [''approval_id'', ''policy_revision''] d then None
          else (case (jget d ''approval_id'', positive_int (jget d ''policy_revision'')) of
                  (JStr s, Some n) \<Rightarrow> if s = [] then None else Some (Some \<lparr>hf_approval_id = s, hf_policy_revision = n\<rparr>)
                | _ \<Rightarrow> None)
      | _ \<Rightarrow> None)"

definition response_json :: "human_response option \<Rightarrow> json" where
  "response_json p =
     (case p of
        None \<Rightarrow> JNull
      | Some r \<Rightarrow>
          JObj [(''response_id'', JStr (hp_response_id r)), (''choice'', JStr (hp_choice r)), (''actor'', JStr (hp_actor r)),
            (''at'', hp_at r), (''request_revision'', JInt (hp_request_revision r)), (''fingerprint'', JStr (hp_fingerprint r)),
            (''approval'', approval_json (hp_approval r))])"

definition response_of :: "json \<Rightarrow> human_response option option" where
  "response_of v =
     (case v of
        JNull \<Rightarrow> Some None
      | JObj d \<Rightarrow>
          if \<not> has_fields [''response_id'', ''choice'', ''actor'', ''at'', ''request_revision'', ''fingerprint'', ''approval''] d
          then None
          else (case (jget d ''response_id'', jget d ''choice'', jget d ''actor'', number_of (jget d ''at''),
                      jget d ''request_revision'', jget d ''fingerprint'', approval_of (jget d ''approval'')) of
                  (JStr i, JStr c, JStr a, Some at, JInt n, JStr f, Some ap) \<Rightarrow>
                    if a = [] \<or> \<not> starts_with ''response_'' i then None
                    else Some (Some \<lparr>hp_response_id = i, hp_choice = c, hp_actor = a, hp_at = at, hp_request_revision = n,
                           hp_fingerprint = f, hp_approval = ap\<rparr>)
                | _ \<Rightarrow> None)
      | _ \<Rightarrow> None)"

definition status_name :: "row_status \<Rightarrow> string" where
  "status_name s = (case s of RowOpen \<Rightarrow> ''open'' | RowResponded \<Rightarrow> ''responded'' | RowConsumed \<Rightarrow> ''consumed''
     | RowClosed \<Rightarrow> ''closed'' | RowUnknown \<Rightarrow> ''unknown'')"

definition status_names :: "(string \<times> row_status) list" where
  "status_names = [(''open'', RowOpen), (''responded'', RowResponded), (''consumed'', RowConsumed), (''closed'', RowClosed),
     (''unknown'', RowUnknown)]"

section \<open>Validation\<close>

text \<open>Numbers are compared as numbers: \<open>1 == 1.0\<close>.\<close>

definition same_number :: "json \<Rightarrow> json \<Rightarrow> bool" where
  "same_number v w =
     (case (decimal_of v, decimal_of w) of (Some a, Some b) \<Rightarrow> dec_le a b \<and> dec_le b a | _ \<Rightarrow> False)"

definition last_event :: "human_row \<Rightarrow> event_kind" where
  "last_event r = he_event (last (hw_history r))"

definition expected_last :: "human_row \<Rightarrow> event_kind" where
  "expected_last r =
     (case hw_status r of
        RowOpen \<Rightarrow> EvRequested
      | RowResponded \<Rightarrow> EvResponded
      | RowConsumed \<Rightarrow> EvConsumed
      | RowClosed \<Rightarrow> if hr_kind (hw_request r) = ''notice'' \<and> last_event r = EvResponded then EvResponded else EvClosed
      | RowUnknown \<Rightarrow> EvUnknown)"

definition events_of_kind :: "event_kind list \<Rightarrow> human_row \<Rightarrow> human_event list" where
  "events_of_kind ks r = filter (\<lambda>e. he_event e \<in> set ks) (hw_history r)"

definition response_valid :: "human_row \<Rightarrow> bool" where
  "response_valid r =
     (case hw_response r of
        None \<Rightarrow> hw_status r \<noteq> RowResponded \<and> hw_status r \<noteq> RowConsumed \<and> events_of_kind [EvResponded, EvConsumed] r = []
      | Some p \<Rightarrow>
          hp_choice p \<in> set (hr_options (hw_request r)) \<and> hp_fingerprint p = hw_fingerprint r \<and> hp_request_revision p = 1
          \<and> (case events_of_kind [EvResponded] r of
               [e] \<Rightarrow> he_detail e = JStr (hp_response_id p) \<and> he_actor e = hp_actor p \<and> same_number (he_at e) (hp_at p)
             | _ \<Rightarrow> False)
          \<and> (hr_permission_decision (hw_request r) \<and> hp_choice p = ''accept'' \<longrightarrow> hp_approval p \<noteq> None))"

definition history_valid :: "human_row \<Rightarrow> bool" where
  "history_valid r =
     (hw_revision r = int (length (hw_history r))
      \<and> (case hw_history r of
           [] \<Rightarrow> False
         | e # es \<Rightarrow> he_event e = EvRequested \<and> list_all (\<lambda>x. he_event x \<noteq> EvRequested) es)
      \<and> last_event r = expected_last r)"

definition row_of :: "json \<Rightarrow> human_row option" where
  "row_of v =
     (case v of
        JObj d \<Rightarrow>
          if \<not> has_fields [''request_id'', ''revision'', ''status'', ''created_at'', ''request'', ''fingerprint'', ''response'', ''history''] d
          then None
          else (case (request_of (jget d ''request''), jget d ''request_id'', jget d ''fingerprint'', jget d ''status'',
                      jget d ''revision'', jget d ''history'') of
                  (Inr q, JStr i, JStr f, JStr st, JInt n, JArr es) \<Rightarrow>
                    do {
                      status \<leftarrow> dict_get status_names st;
                      created \<leftarrow> number_of (jget d ''created_at'');
                      events \<leftarrow> those (map event_of es);
                      response \<leftarrow> response_of (jget d ''response'');
                      let r = \<lparr>hw_request_id = i, hw_revision = n, hw_status = status, hw_created_at = created, hw_request = q,
                               hw_fingerprint = f, hw_response = response, hw_history = events\<rparr>
                      in if starts_with ''attention_'' i \<and> f = request_fingerprint (jget d ''request'') \<and> history_valid r \<and> response_valid r
                         then Some r else None }
                | _ \<Rightarrow> None)
      | _ \<Rightarrow> None)"

definition row_json :: "human_row \<Rightarrow> json" where
  "row_json r =
     JObj [(''request_id'', JStr (hw_request_id r)), (''revision'', JInt (hw_revision r)), (''status'', JStr (status_name (hw_status r))),
       (''created_at'', hw_created_at r), (''request'', request_json (hw_request r)), (''fingerprint'', JStr (hw_fingerprint r)),
       (''response'', response_json (hw_response r)), (''history'', JArr (map human_event_json (hw_history r)))]"

definition queue_json :: "human_row list \<Rightarrow> json" where
  "queue_json rs = JObj [(''version'', JInt 1), (''requests'', JArr (map row_json rs))]"

definition queue_of :: "json \<Rightarrow> human_row list option" where
  "queue_of v =
     (case v of
        JObj d \<Rightarrow>
          if \<not> has_fields [''version'', ''requests''] d \<or> jget d ''version'' \<noteq> JInt 1 then None
          else (case jget d ''requests'' of
                  JArr xs \<Rightarrow>
                    do {
                      rs \<leftarrow> those (map row_of xs);
                      if distinct (map hw_request_id rs) \<and> distinct (map (hr_key \<circ> hw_request) rs) then Some rs else None }
                | _ \<Rightarrow> None)
      | _ \<Rightarrow> None)"

definition queue_text :: "human_row list \<Rightarrow> string" where
  "queue_text rs = dumps True (queue_json rs)"

definition queue_of_text :: "string \<Rightarrow> human_row list option" where
  "queue_of_text raw =
     do { v \<leftarrow> loads_unique raw;
          if utf8_len raw > int max_bytes then None else queue_of v }"

definition queue_format :: "human_row list file_format" where
  "queue_format = \<lparr>ff_busy = ''attention_busy'', ff_decode = queue_of_text, ff_encode = queue_text, ff_empty = []\<rparr>"

end
