(* ===== verification/AttentionCalls.thy ===== *)
theory AttentionCalls
  imports Attention
begin

text \<open>
  The operations of \<open>AttentionQueue\<close>.  Before it acts each asks the common policy (\<open>check_operation\<close> of \<^theory_text>\<open>PermissionStore\<close>),
  and for a blocked operation the validator of the feature that owns it, an argument of the queue.
\<close>

section \<open>What a call brings\<close>

text \<open>
  The folder's surroundings, the roots of the permission policy and what the operating system answers for them (\<open>hv_perm\<close> at the
  clock of the permission check, \<open>hv_eval\<close> at the queue's own), the validator, the readings of the clock, and a random id.
\<close>

record human_env =
  hv_call :: call_env
  hv_root :: string
  hv_roots :: roots
  hv_perm :: store_env
  hv_eval :: store_env
  hv_validator :: "(human_row \<Rightarrow> json attempt) option"
  hv_created :: json
  hv_checked :: json
  hv_rechecked :: json
  hv_event :: json
  hv_uuid :: string

section \<open>Checks\<close>

text \<open>One check after the other: the first that raises ends the call.\<close>

definition and_then :: "'a attempt \<Rightarrow> ('a \<Rightarrow> 'b attempt) \<Rightarrow> 'b attempt" where
  "and_then m f = (case m of Inl e \<Rightarrow> Inl e | Inr x \<Rightarrow> f x)"

definition require :: "bool \<Rightarrow> string \<Rightarrow> unit attempt" where
  "require b code = (if b then Inr () else Inl (Refused code))"

lemma require_Inr [simp]: "require b code = Inr u \<longleftrightarrow> b"
  by (simp add: require_def)

lemma and_then_Inr [simp]: "and_then m f = Inr y \<longleftrightarrow> (\<exists>x. m = Inr x \<and> f x = Inr y)"
  by (simp add: and_then_def split: sum.split)

lemma and_then_simps [simp]: "and_then (Inr x) f = f x" "and_then (Inl e) f = Inl e"
  by (simp_all add: and_then_def)

definition check_owner :: "principal \<Rightarrow> human_row \<Rightarrow> unit attempt" where
  "check_owner pr r =
     require (pr_role pr = ''operator'' \<or> pr_subject pr = hc_owner (hr_context (hw_request r))) ''attention_owner_required''"

definition question_for :: "string \<Rightarrow> op_context \<Rightarrow> question" where
  "question_for a c = \<lparr>qn_action = a, qn_target = None, qn_relationship = None, qn_task = Some (hc_task_id c),
     qn_operation = Some (hc_operation_id c), qn_capability = ''not_observed'', qn_readiness = ''not_observed'', qn_launch_profile = None\<rparr>"

definition check_permission :: "human_env \<Rightarrow> string \<Rightarrow> principal \<Rightarrow> human_row \<Rightarrow> unit attempt" where
  "check_permission env a pr r =
     (case check_operation (hv_perm env) (hv_roots env) (hv_root env) pr (question_for a (hr_context (hw_request r))) of
        Inl e \<Rightarrow> Inl e
      | Inr _ \<Rightarrow> Inr ())"

definition reached :: "json \<Rightarrow> json \<Rightarrow> bool" where
  "reached limit now = (case (decimal_of limit, decimal_of now) of (Some l, Some n) \<Rightarrow> dec_le l n | _ \<Rightarrow> True)"

definition current_policy :: "human_env \<Rightarrow> json \<Rightarrow> human_row \<Rightarrow> unit attempt" where
  "current_policy env now r =
     (if reached (hr_expires_at (hw_request r)) now then Inl (Refused ''attention_expired'')
      else case open_store (hv_perm env) (hv_roots env) (hv_root env) of
             Inl e \<Rightarrow> Inl e
           | Inr s \<Rightarrow>
               let c = hr_context (hw_request r)
               in if \<not> active_store (hv_roots env) s then Inr ()
                  else if st_root s \<noteq> hc_policy_root c then Inl (Refused ''attention_policy_changed'')
                  else (case read_policy (hv_perm env) (hv_roots env) s of
                          Inl e \<Rightarrow> Inl e
                        | Inr sv \<Rightarrow> if sv_revision sv \<noteq> hc_policy_revision c then Inl (Refused ''attention_policy_changed'')
                                    else Inr ()))"

definition check_live :: "human_env \<Rightarrow> human_row \<Rightarrow> unit attempt" where
  "check_live env r =
     (case current_policy env (hv_rechecked env) r of
        Inl e \<Rightarrow> Inl e
      | Inr _ \<Rightarrow>
          (case hv_validator env of
             None \<Rightarrow> Inl (Refused ''context_unavailable'')
           | Some observe \<Rightarrow>
               (case observe r of
                  Inl e \<Rightarrow> Inl e
                | Inr v \<Rightarrow>
                    (case context_of v of
                       None \<Rightarrow> Inl (Refused ''context_invalid'')
                     | Some live \<Rightarrow>
                         if live \<noteq> hr_context (hw_request r) then Inl (Refused ''attention_stale'')
                         else if hc_operation_state live \<noteq> ''blocked'' then Inl (Refused ''operation_unknown'')
                         else Inr ()))))"

text \<open>A decision is checked against the live operation where a validator is there to ask.\<close>

definition check_decision :: "human_env \<Rightarrow> human_row \<Rightarrow> unit attempt" where
  "check_decision env r =
     (if hr_kind (hw_request r) = ''decision'' \<and> hv_validator env \<noteq> None then check_live env r else Inr ())"

definition check_expected :: "human_row \<Rightarrow> json \<Rightarrow> json \<Rightarrow> unit attempt" where
  "check_expected r revision digest =
     require (revision = JInt (hw_revision r) \<and> digest = JStr (hw_fingerprint r)) ''attention_revision_conflict''"

definition find_row :: "human_row list \<Rightarrow> string \<Rightarrow> human_row attempt" where
  "find_row rs i = (case find (\<lambda>r. hw_request_id r = i) rs of None \<Rightarrow> Inl (Refused ''attention_not_found'') | Some r \<Rightarrow> Inr r)"

text \<open>The approval an accepted permission decision names, as the common policy gives it to the owner now.\<close>

definition owner_principal :: "op_context \<Rightarrow> principal" where
  "owner_principal c = \<lparr>pr_subject = hc_owner c, pr_role = ''session'', pr_tasks = [hc_task_id c], pr_predecessor = None, pr_ancestors = []\<rparr>"

definition effect_question :: "op_context \<Rightarrow> question" where
  "effect_question c =
     (question_for (hc_action c) c)\<lparr>qn_target := Some (hc_target c),
       qn_relationship := (if hc_action c = ''refresh.shared'' then Some ''shared'' else None)\<rparr>"

definition find_approval :: "human_env \<Rightarrow> human_row \<Rightarrow> string option \<Rightarrow> approval_ref attempt" where
  "find_approval env r approval =
     (let c = hr_context (hw_request r)
      in case open_store (hv_eval env) (hv_roots env) (hv_root env) of
           Inl e \<Rightarrow> Inl e
         | Inr s \<Rightarrow>
             (case evaluate_permission (hv_eval env) (hv_roots env) s (owner_principal c) (effect_question c) of
                Inl e \<Rightarrow> Inl e
              | Inr vd \<Rightarrow>
                  (case approval of
                     None \<Rightarrow> Inl (Refused ''attention_approval_required'')
                   | Some i \<Rightarrow>
                       if i = [] \<or> vd_permission vd \<noteq> ''allow'' \<or> vd_approval_id vd \<noteq> Some i
                       then Inl (Refused ''attention_approval_required'')
                       else Inr \<lparr>hf_approval_id = i, hf_policy_revision = vd_revision vd\<rparr>)))"

section \<open>The operations\<close>

definition with_event :: "human_env \<Rightarrow> event_kind \<Rightarrow> principal \<Rightarrow> json \<Rightarrow> human_row \<Rightarrow> human_row" where
  "with_event env k pr detail r =
     r\<lparr>hw_history := hw_history r @ [\<lparr>he_event = k, he_actor = pr_subject pr, he_at = hv_event env, he_detail = detail\<rparr>],
       hw_revision := int (length (hw_history r) + 1)\<rparr>"

definition put_request :: "human_row \<Rightarrow> human_row list \<Rightarrow> human_row list" where
  "put_request r rs = update_where (\<lambda>x. hw_request_id x = hw_request_id r) (\<lambda>_. r) rs"

text \<open>A writing transaction validates what its body made before it is published.\<close>

definition validated_body :: "(human_row list \<Rightarrow> ('a \<times> human_row list) attempt) \<Rightarrow> human_row list \<Rightarrow> ('a \<times> human_row list) attempt" where
  "validated_body body rs =
     (case body rs of
        Inl e \<Rightarrow> Inl e
      | Inr (x, rs') \<Rightarrow> if queue_of (queue_json rs') = None then Inl Escaped else Inr (x, rs'))"

definition queue_transaction ::
  "human_env \<Rightarrow> (human_row list \<Rightarrow> ('a \<times> human_row list) attempt) \<Rightarrow> folder \<Rightarrow> 'a attempt \<times> folder" where
  "queue_transaction env body = transaction queue_format True (hv_call env) (validated_body body)"

definition new_row :: "human_env \<Rightarrow> json \<Rightarrow> human_request \<Rightarrow> human_row" where
  "new_row env v q =
     \<lparr>hw_request_id = ''attention_'' @ hv_uuid env, hw_revision = 0, hw_status = RowOpen, hw_created_at = hv_created env,
      hw_request = q, hw_fingerprint = request_fingerprint v, hw_response = None, hw_history = []\<rparr>"

definition request_body :: "human_env \<Rightarrow> principal \<Rightarrow> human_row \<Rightarrow> human_row list \<Rightarrow> (human_row \<times> human_row list) attempt" where
  "request_body env pr row rs =
     (case find (\<lambda>old. hr_key (hw_request old) = hr_key (hw_request row)) rs of
        Some old \<Rightarrow>
          and_then (check_owner pr old) (\<lambda>_.
            and_then (require (hw_fingerprint old = hw_fingerprint row) ''attention_key_conflict'') (\<lambda>_. Inr (old, rs)))
      | None \<Rightarrow>
          and_then (check_permission env ''attention.request'' pr row) (\<lambda>_.
            and_then (current_policy env (hv_checked env) row) (\<lambda>_.
            and_then (check_decision env row) (\<lambda>_.
            let row' = with_event env EvRequested pr JNull row in Inr (row', rs @ [row'])))))"

definition request_attention :: "human_env \<Rightarrow> principal \<Rightarrow> json \<Rightarrow> folder \<Rightarrow> human_row attempt \<times> folder" where
  "request_attention env pr v f =
     (case request_of v of
        Inl e \<Rightarrow> (Inl e, f)
      | Inr q \<Rightarrow>
          (case check_owner pr (new_row env v q) of
             Inl e \<Rightarrow> (Inl e, f)
           | Inr _ \<Rightarrow> queue_transaction env (request_body env pr (new_row env v q)) f))"

definition inspect_attention :: "call_env \<Rightarrow> principal \<Rightarrow> string \<Rightarrow> folder \<Rightarrow> human_row attempt \<times> folder" where
  "inspect_attention cenv pr i =
     transaction queue_format False cenv (\<lambda>rs. and_then (find_row rs i) (\<lambda>r. and_then (check_owner pr r) (\<lambda>_. Inr (r, rs))))"

definition list_attention :: "call_env \<Rightarrow> principal \<Rightarrow> bool \<Rightarrow> folder \<Rightarrow> human_row list attempt \<times> folder" where
  "list_attention cenv pr include_closed =
     transaction queue_format False cenv
       (\<lambda>rs. Inr (filter (\<lambda>r. (pr_role pr = ''operator'' \<or> hc_owner (hr_context (hw_request r)) = pr_subject pr)
                     \<and> (include_closed \<or> hw_status r \<in> {RowOpen, RowResponded, RowUnknown})) rs, rs))"

definition needs_approval :: "human_row \<Rightarrow> string \<Rightarrow> bool" where
  "needs_approval r choice = (hr_permission_decision (hw_request r) \<and> choice = ''accept'')"

definition answered :: "human_env \<Rightarrow> principal \<Rightarrow> string \<Rightarrow> approval_ref option \<Rightarrow> human_row \<Rightarrow> human_row" where
  "answered env pr choice approval r =
     (let i = ''response_'' @ hv_uuid env;
          p = \<lparr>hp_response_id = i, hp_choice = choice, hp_actor = pr_subject pr, hp_at = hv_event env,
               hp_request_revision = hw_revision r, hp_fingerprint = hw_fingerprint r, hp_approval = approval\<rparr>
      in with_event env EvResponded pr (JStr i)
           (r\<lparr>hw_response := Some p, hw_status := (if hr_kind (hw_request r) = ''notice'' then RowClosed else RowResponded)\<rparr>))"

definition respond_body ::
  "human_env \<Rightarrow> principal \<Rightarrow> string \<Rightarrow> string \<Rightarrow> json \<Rightarrow> json \<Rightarrow> string option \<Rightarrow> human_row list \<Rightarrow> (human_row \<times> human_row list) attempt" where
  "respond_body env pr i choice revision digest approval rs =
     and_then (find_row rs i) (\<lambda>r.
     and_then (check_expected r revision digest) (\<lambda>_.
     and_then (require (hw_status r = RowOpen \<and> choice \<in> set (hr_options (hw_request r))) ''attention_not_open'') (\<lambda>_.
     and_then (check_permission env ''attention.respond'' pr r) (\<lambda>_.
     and_then (current_policy env (hv_checked env) r) (\<lambda>_.
     and_then (check_decision env r) (\<lambda>_.
     and_then (if needs_approval r choice then (case find_approval env r approval of Inl e \<Rightarrow> Inl e | Inr a \<Rightarrow> Inr (Some a)) else Inr None) (\<lambda>ref.
     let r' = answered env pr choice ref r in Inr (r', put_request r' rs))))))))"

definition respond_attention ::
  "human_env \<Rightarrow> principal \<Rightarrow> string \<Rightarrow> string \<Rightarrow> json \<Rightarrow> json \<Rightarrow> string option \<Rightarrow> folder \<Rightarrow> human_row attempt \<times> folder" where
  "respond_attention env pr i choice revision digest approval f =
     (if pr_role pr \<noteq> ''operator'' then (Inl (Refused ''attention_operator_required''), f)
      else queue_transaction env (respond_body env pr i choice revision digest approval) f)"

text \<open>What consuming gives to the caller: it neither executes the operation nor grants a permission.\<close>

record consumed_answer =
  hz_request_id :: string
  hz_revision :: int
  hz_fingerprint :: string
  hz_choice :: string
  hz_response_id :: string
  hz_context :: op_context
  hz_executes_operation :: bool
  hz_grants_permission :: bool

definition answer_of :: "human_row \<Rightarrow> human_response \<Rightarrow> consumed_answer" where
  "answer_of r p = \<lparr>hz_request_id = hw_request_id r, hz_revision = hw_revision r, hz_fingerprint = hw_fingerprint r,
     hz_choice = hp_choice p, hz_response_id = hp_response_id p, hz_context = hr_context (hw_request r),
     hz_executes_operation = False, hz_grants_permission = False\<rparr>"

definition consume_body ::
  "human_env \<Rightarrow> principal \<Rightarrow> string \<Rightarrow> json \<Rightarrow> json \<Rightarrow> human_row list \<Rightarrow> (consumed_answer \<times> human_row list) attempt" where
  "consume_body env pr i revision digest rs =
     and_then (find_row rs i) (\<lambda>r.
     and_then (check_owner pr r) (\<lambda>_.
     and_then (check_expected r revision digest) (\<lambda>_.
     and_then (require (hw_status r = RowResponded \<and> hr_kind (hw_request r) = ''decision'') ''attention_not_consumable'') (\<lambda>_.
     and_then (check_permission env ''attention.consume'' pr r) (\<lambda>_.
     and_then (check_live env r) (\<lambda>_.
     and_then (case hw_response r of None \<Rightarrow> Inl Escaped | Some p \<Rightarrow> Inr p) (\<lambda>p.
     and_then (if needs_approval r (hp_choice p)
               then (case hp_approval p of
                       None \<Rightarrow> Inl Escaped
                     | Some a \<Rightarrow> (case find_approval env r (Some (hf_approval_id a)) of Inl e \<Rightarrow> Inl e | Inr _ \<Rightarrow> Inr ()))
               else Inr ()) (\<lambda>_.
     let r' = with_event env EvConsumed pr (JStr (hp_response_id p)) (r\<lparr>hw_status := RowConsumed\<rparr>)
     in Inr (answer_of r' p, put_request r' rs)))))))))"

definition consume_attention ::
  "human_env \<Rightarrow> principal \<Rightarrow> string \<Rightarrow> json \<Rightarrow> json \<Rightarrow> folder \<Rightarrow> consumed_answer attempt \<times> folder" where
  "consume_attention env pr i revision digest = queue_transaction env (consume_body env pr i revision digest)"

definition disposition_of :: "string \<Rightarrow> (row_status \<times> event_kind) option" where
  "disposition_of s = (if s = ''closed'' then Some (RowClosed, EvClosed) else if s = ''unknown'' then Some (RowUnknown, EvUnknown) else None)"

definition close_body ::
  "human_env \<Rightarrow> principal \<Rightarrow> string \<Rightarrow> json \<Rightarrow> json \<Rightarrow> row_status \<times> event_kind \<Rightarrow> string \<Rightarrow> human_row list
     \<Rightarrow> (human_row \<times> human_row list) attempt" where
  "close_body env pr i revision digest disposition reason rs =
     and_then (find_row rs i) (\<lambda>r.
     and_then (check_owner pr r) (\<lambda>_.
     and_then (check_expected r revision digest) (\<lambda>_.
     and_then (require (hw_status r \<noteq> RowClosed \<and> hw_status r \<noteq> RowConsumed) ''attention_closed'') (\<lambda>_.
     and_then (check_permission env ''attention.consume'' pr r) (\<lambda>_.
     let r' = with_event env (snd disposition) pr (JStr reason) (r\<lparr>hw_status := fst disposition\<rparr>)
     in Inr (r', put_request r' rs))))))"

definition close_attention ::
  "human_env \<Rightarrow> principal \<Rightarrow> string \<Rightarrow> json \<Rightarrow> json \<Rightarrow> string \<Rightarrow> json \<Rightarrow> folder \<Rightarrow> human_row attempt \<times> folder" where
  "close_attention env pr i revision digest disposition reason f =
     (case (disposition_of disposition, bounded_text 4096 reason) of
        (Some d, Some t) \<Rightarrow> queue_transaction env (close_body env pr i revision digest d t) f
      | _ \<Rightarrow> (Inl (Refused ''request_invalid''), f))"

end
