(* ===== verification/AttentionOk.thy ===== *)
theory AttentionOk
  imports AttentionCalls
begin

text \<open>
  The queue reads back what it writes: no decoder sees the order of keys, and what a decoder admits is encoded to the same
  value up to that order.  So the queue is a \<^theory_text>\<open>ledger_format\<close>, and every operation keeps it.
\<close>

section \<open>Decoders and the order of keys\<close>

lemma sort_json_eqI:
  assumes "distinct (dict_keys d)" "distinct (dict_keys e)" "set (dict_keys d) = set (dict_keys e)"
    and "\<And>k. k \<in> set (dict_keys d) \<Longrightarrow> sort_json (jget d k) = sort_json (jget e k)"
  shows "sort_json (JObj d) = sort_json (JObj e)"
proof -
  have get: "map_of (sorted_members x) k = map_option sort_json (map_of x k)" if "distinct (dict_keys x)" for x :: "(string, json) dict" and k
  proof -
    have "map_of (sorted_members x) = map_of (map (map_prod id sort_json) x)"
      unfolding sorted_members_def using that by (intro map_of_sort_key) (simp add: comp_def map_prod_def split_def)
    then show ?thesis by (simp add: map_prod_def id_def split_def map_of_map [unfolded split_def])
  qed
  have same: "map_of (sorted_members d) k = map_of (sorted_members e) k" for k
  proof (cases "k \<in> set (dict_keys d)")
    case True
    then obtain v w where "map_of d k = Some v" "map_of e k = Some w"
      using assms(3) by (metis list.set_map map_of_eq_None_iff not_None_eq)
    then show ?thesis using assms(4) [OF True] by (simp add: get assms(1,2) jget_def)
  next
    case False
    then have "map_of d k = None" "map_of e k = None" using assms(3) by (simp_all add: map_of_eq_None_iff)
    then show ?thesis by (simp add: get assms(1,2))
  qed
  have dist: "distinct (dict_keys (sorted_members x))" if "distinct (dict_keys x)" for x :: "(string, json) dict"
    unfolding sorted_members_def using that by (simp add: distinct_map_fst_sort comp_def map_prod_def split_def)
  have "set (sorted_members d) = set (sorted_members e)"
    using same map_of_inject_set [OF dist [OF assms(1)] dist [OF assms(2)]] by auto
  moreover have "sorted (dict_keys (sorted_members x))" for x :: "(string, json) dict"
    by (simp add: sorted_members_def)
  ultimately have "sorted_members d = sorted_members e"
    using dist assms(1,2)
    by (intro map_sorted_distinct_set_unique [of fst]) (auto intro: inj_onI dest: map_of_is_SomeI simp: distinct_map inj_on_def)
  then show ?thesis by (simp only: sort_json_members)
qed

lemma bounded_text_Some: "bounded_text n v = Some s \<longleftrightarrow> v = JStr s \<and> s \<noteq> [] \<and> length s \<le> n"
  by (auto simp: bounded_text_def split: json.splits if_splits)

lemma positive_int_Some: "positive_int v = Some i \<longleftrightarrow> v = JInt i \<and> 1 \<le> i"
  by (auto simp: positive_int_def split: json.splits if_splits)

lemma one_of_Some: "one_of xs v = Some s \<longleftrightarrow> v = JStr s \<and> s \<in> set xs"
  by (auto simp: one_of_def split: json.splits if_splits)

lemma number_of_Some: "number_of v = Some w \<longleftrightarrow> v = w \<and> is_reading w"
  by (auto simp: number_of_def)

lemma flag_of_Some: "flag_of v = Some b \<longleftrightarrow> v = JBool b"
  by (auto simp: flag_of_def split: json.splits)

lemma those_Some: "those (map f xs) = Some ys \<longleftrightarrow> map f xs = map Some ys"
  by (induction xs arbitrary: ys) (auto split: option.splits simp: Cons_eq_map_conv)

lemma texts_of_Some:
  "texts_of v = Some ts \<longleftrightarrow> v = JArr (map JStr ts) \<and> ts \<noteq> [] \<and> length ts \<le> 32 \<and> distinct ts \<and> (\<forall>t\<in>set ts. t \<noteq> [] \<and> length t \<le> 4096)"
proof (cases v)
  case (JArr xs)
  have "map (bounded_text 4096) xs = map Some ts \<longleftrightarrow> xs = map JStr ts \<and> (\<forall>t\<in>set ts. t \<noteq> [] \<and> length t \<le> 4096)"
    by (induction xs arbitrary: ts) (auto simp: bounded_text_Some Cons_eq_map_conv)
  then have "those (map (bounded_text 4096) xs) = Some ts \<longleftrightarrow> xs = map JStr ts \<and> (\<forall>t\<in>set ts. t \<noteq> [] \<and> length t \<le> 4096)"
    by (simp only: those_Some)
  moreover have "texts_of v = Some ts \<longleftrightarrow> xs \<noteq> [] \<and> length xs \<le> 32 \<and> distinct ts \<and> those (map (bounded_text 4096) xs) = Some ts"
    using JArr by (cases "those (map (bounded_text 4096) xs)") (auto simp: texts_of_def)
  ultimately show ?thesis using JArr by auto
qed (simp_all add: texts_of_def)

lemma sort_leaf [simp]: "sort_json v = JStr s \<longleftrightarrow> v = JStr s" "sort_json v = JInt i \<longleftrightarrow> v = JInt i"
  "sort_json v = JBool b \<longleftrightarrow> v = JBool b"
  by (cases v, simp_all)+

lemma sort_reading: "is_reading v \<Longrightarrow> sort_json v = v"
  by (cases v) (simp_all add: is_reading_def)

lemma is_reading_sort [simp]: "is_reading (sort_json v) = is_reading v"
  by (cases v) (simp_all add: is_reading_def)

lemma decoders_sorted [simp]:
  "bounded_text n (sort_json v) = bounded_text n v" "positive_int (sort_json v) = positive_int v"
  "one_of xs (sort_json v) = one_of xs v" "number_of (sort_json v) = number_of v" "flag_of (sort_json v) = flag_of v"
  "texts_of (sort_json v) = texts_of v"
proof -
  show "bounded_text n (sort_json v) = bounded_text n v" "positive_int (sort_json v) = positive_int v"
    "one_of xs (sort_json v) = one_of xs v" "flag_of (sort_json v) = flag_of v"
    by (cases v, simp_all add: bounded_text_def positive_int_def one_of_def flag_of_def)+
  show "number_of (sort_json v) = number_of v"
    by (simp add: number_of_def sort_reading)
  have "bounded_text 4096 \<circ> sort_json = bounded_text 4096"
    by (rule ext) (rename_tac w, case_tac w, simp_all add: bounded_text_def)
  then show "texts_of (sort_json v) = texts_of v"
    by (cases v) (simp_all add: texts_of_def)
qed

lemma json_wf_members: "json_wf (JObj d) \<Longrightarrow> distinct (dict_keys d)" "json_wf (JObj d) \<Longrightarrow> json_wf (jget d k)"
proof -
  show "json_wf (JObj d) \<Longrightarrow> distinct (dict_keys d)" by simp
  show "json_wf (JObj d) \<Longrightarrow> json_wf (jget d k)"
    by (cases "map_of d k") (auto simp: jget_def dest: map_of_SomeD)
qed

text \<open>Reading an object that was written: its members by name.\<close>

lemmas read_object = sort_json_members has_fields_sorted jget_members

lemma context_of_sorted: "json_wf v \<Longrightarrow> context_of (sort_json v) = context_of v"
  by (cases v) (simp_all add: context_of_def read_object json_wf_members(1) del: sort_json.simps(7) cong: if_cong)

lemma shape_of_sorted: "distinct (dict_keys d) \<Longrightarrow> shape_of (sorted_members d) = shape_of d"
  by (simp add: shape_of_def jget_members)

lemma request_of_sorted: "json_wf v \<Longrightarrow> request_of (sort_json v) = request_of v"
proof (cases v)
  case (JObj d)
  assume "json_wf v"
  then have "json_wf (jget d k)" "distinct (dict_keys d)" for k using JObj json_wf_members by blast+
  moreover from this have "context_of (jget (sorted_members d) ''context'') = context_of (jget d ''context'')"
    by (simp add: jget_members context_of_sorted)
  ultimately show ?thesis
    using JObj by (simp add: request_of_def read_object(1,2) shape_of_sorted del: sort_json.simps(7) split: option.split)
qed (simp_all add: request_of_def)

text \<open>What a decoder admits is encoded to the same value, up to the order of keys.\<close>

lemma keys_of_fields: "has_fields ks d \<Longrightarrow> set (dict_keys d) = set ks"
  by (auto simp: has_fields_def list_all_iff)

lemma context_json_of:
  assumes "context_of v = Some c" "json_wf v"
  shows "sort_json (context_json c) = sort_json v"
proof -
  obtain d where d: "v = JObj d" "has_fields context_fields d"
    using assms(1) by (cases v) (auto simp: context_of_def split: if_splits)
  obtain owner operation attempt task allocation runtime conversation account target action effect_scope policy_root policy_revision operation_state where f:
    "bounded_text 2048 (jget d ''owner'') = Some owner" "bounded_text 2048 (jget d ''operation_id'') = Some operation"
    "positive_int (jget d ''attempt'') = Some attempt" "bounded_text 2048 (jget d ''task_id'') = Some task"
    "bounded_text 2048 (jget d ''allocation_id'') = Some allocation" "bounded_text 2048 (jget d ''runtime'') = Some runtime"
    "bounded_text 2048 (jget d ''conversation_id'') = Some conversation" "bounded_text 2048 (jget d ''account'') = Some account"
    "bounded_text 2048 (jget d ''target'') = Some target" "bounded_text 2048 (jget d ''action'') = Some action"
    "bounded_text 2048 (jget d ''effect_scope'') = Some effect_scope" "bounded_text 2048 (jget d ''policy_root'') = Some policy_root"
    "positive_int (jget d ''policy_revision'') = Some policy_revision" "bounded_text 2048 (jget d ''operation_state'') = Some operation_state"
    and c: "\<lparr>hc_owner = owner, hc_operation_id = operation, hc_attempt = attempt, hc_task_id = task, hc_allocation_id = allocation, hc_runtime = runtime, hc_conversation_id = conversation, hc_account = account, hc_target = target, hc_action = action, hc_effect_scope = effect_scope, hc_policy_root = policy_root, hc_policy_revision = policy_revision, hc_operation_state = operation_state\<rparr> = c"
    using assms(1) d(2) unfolding d(1) context_of_def json.case
    by (simp only: simp_thms if_False bind_eq_Some_conv option.inject) (elim exE conjE, rule that, assumption+)
  note get = f [unfolded bounded_text_Some positive_int_Some, THEN conjunct1]
  obtain e where e: "context_json c = JObj e" "distinct (dict_keys e)" "set (dict_keys e) = set context_fields"
    by (simp add: context_json_def context_fields_def)
  have "jget d k = jget e k" if "k \<in> set context_fields" for k
    using that e(1) by (auto simp: context_json_def context_fields_def get) (simp_all add: jget_def c [symmetric])
  then show ?thesis
    unfolding e(1) d(1) using keys_of_fields [OF d(2)] e assms(2) d(1)
    by (intro sort_json_eqI) (auto simp del: sort_json.simps)
qed

lemma request_json_of:
  assumes "request_of v = Inr q" "json_wf v"
  shows "sort_json (request_json q) = sort_json v"
proof -
  obtain d mk c where d: "v = JObj d" "has_fields request_fields d" and mk: "shape_of d = Some mk"
    and c: "context_of (jget d ''context'') = Some c" and q: "q = mk c"
    using assms(1) by (auto simp: request_of_def split: json.splits if_splits option.splits)
  obtain key question kind priority expires permission options evidence where f:
    "bounded_text 4096 (jget d ''key'') = Some key" "bounded_text 4096 (jget d ''question'') = Some question"
    "one_of [''notice'', ''decision''] (jget d ''kind'') = Some kind"
    "one_of [''low'', ''normal'', ''high'', ''urgent''] (jget d ''priority'') = Some priority"
    "number_of (jget d ''expires_at'') = Some expires" "flag_of (jget d ''permission_decision'') = Some permission"
    "texts_of (jget d ''options'') = Some options" "texts_of (jget d ''evidence'') = Some evidence"
    "mk = (\<lambda>c. \<lparr>hr_key = key, hr_kind = kind, hr_question = question, hr_options = options, hr_evidence = evidence,
              hr_priority = priority, hr_expires_at = expires, hr_context = c, hr_permission_decision = permission\<rparr>)"
    using mk unfolding shape_of_def bind_eq_Some_conv by (elim exE conjE) (simp split: if_split_asm)
  note g = f(1-8) [unfolded bounded_text_Some one_of_Some number_of_Some flag_of_Some texts_of_Some]
  have get: "jget d ''key'' = JStr (hr_key q)" "jget d ''kind'' = JStr (hr_kind q)" "jget d ''question'' = JStr (hr_question q)"
    "jget d ''options'' = JArr (map JStr (hr_options q))" "jget d ''evidence'' = JArr (map JStr (hr_evidence q))"
    "jget d ''priority'' = JStr (hr_priority q)" "jget d ''expires_at'' = hr_expires_at q"
    "jget d ''permission_decision'' = JBool (hr_permission_decision q)" "hr_context q = c"
    using g by (simp_all add: q f(9))
  have ctx: "sort_json (jget d ''context'') = sort_json (context_json c)"
    using context_json_of [OF c] json_wf_members(2) assms(2) d(1) by simp
  obtain e where e: "request_json q = JObj e" "distinct (dict_keys e)" "set (dict_keys e) = set request_fields"
    by (simp add: request_json_def request_fields_def)
  have "sort_json (jget e k) = sort_json (jget d k)" if "k \<in> set request_fields" for k
    using that e(1) by (auto simp: request_json_def request_fields_def get ctx simp del: sort_json.simps) (simp_all add: jget_def get(9))
  then show ?thesis
    unfolding e(1) d(1) using keys_of_fields [OF d(2)] e assms(2) d(1)
    by (intro sort_json_eqI) (auto simp del: sort_json.simps)
qed

lemma context_json_wf [simp]: "json_wf (context_json c)"
  by (simp add: context_json_def)

definition request_ok :: "human_request \<Rightarrow> bool" where
  "request_ok q = (request_of (request_json q) = Inr q \<and> is_reading (hr_expires_at q))"

lemma request_json_wf [simp]: "is_reading (hr_expires_at q) \<Longrightarrow> json_wf (request_json q)"
  by (simp add: request_json_def reading_wf)

lemma request_of_ok: "request_of v = Inr q \<Longrightarrow> json_wf v \<Longrightarrow> request_ok q \<and> request_fingerprint v = request_fingerprint (request_json q)"
proof -
  assume v: "request_of v = Inr q" "json_wf v"
  have r: "is_reading (hr_expires_at q)"
    using v(1) by (auto simp: request_of_def shape_of_def number_of_Some bind_eq_Some_conv split: json.splits if_splits option.splits)
  note s = request_json_of [OF v]
  have "request_of (request_json q) = request_of (sort_json (request_json q))" using request_of_sorted r by simp
  also have "\<dots> = Inr q" using s v request_of_sorted by simp
  finally have "request_of (request_json q) = Inr q" .
  moreover have "request_fingerprint v = request_fingerprint (request_json q)" unfolding request_fingerprint_def using s by (metis dumps_sort_json)
  ultimately show ?thesis using r by (simp add: request_ok_def)
qed

section \<open>Rows are read back\<close>

definition event_ok :: "human_event \<Rightarrow> bool" where
  "event_ok e = (he_actor e \<noteq> [] \<and> is_reading (he_at e)
     \<and> (if he_event e = EvRequested then he_detail e = JNull else (\<exists>s. he_detail e = JStr s)))"

definition ref_ok :: "approval_ref \<Rightarrow> bool" where
  "ref_ok a = (hf_approval_id a \<noteq> [] \<and> 1 \<le> hf_policy_revision a)"

definition response_ok :: "human_response \<Rightarrow> bool" where
  "response_ok p = (starts_with ''response_'' (hp_response_id p) \<and> hp_actor p \<noteq> [] \<and> is_reading (hp_at p)
     \<and> (\<forall>a. hp_approval p = Some a \<longrightarrow> ref_ok a))"

definition row_ok :: "human_row \<Rightarrow> bool" where
  "row_ok r = (starts_with ''attention_'' (hw_request_id r) \<and> request_ok (hw_request r)
     \<and> hw_fingerprint r = request_fingerprint (request_json (hw_request r)) \<and> is_reading (hw_created_at r)
     \<and> (\<forall>e\<in>set (hw_history r). event_ok e) \<and> (\<forall>p. hw_response r = Some p \<longrightarrow> response_ok p)
     \<and> history_valid r \<and> response_valid r)"

definition queue_ok :: "human_row list \<Rightarrow> bool" where
  "queue_ok rs = ((\<forall>r\<in>set rs. row_ok r) \<and> distinct (map hw_request_id rs) \<and> distinct (map (\<lambda>r. hr_key (hw_request r)) rs))"

lemma event_of_name: "dict_get event_names (event_name k) = Some k"
  by (cases k) (simp_all add: event_names_def event_name_def)

lemma event_of_json:
  assumes "event_ok e"
  shows "event_of (sort_json (human_event_json e)) = Some e"
proof -
  obtain k a t v where e: "e = \<lparr>he_event = k, he_actor = a, he_at = t, he_detail = v\<rparr>" by (cases e)
  define d where "d = [(''event'', JStr (event_name k)), (''actor'', JStr a), (''at'', t)] @ map (\<lambda>f. (f, v)) (detail_field k)"
  have d: "human_event_json e = JObj d" "distinct (dict_keys d)" "has_fields ([''event'', ''actor'', ''at''] @ detail_field k) d"
    "jget d ''event'' = JStr (event_name k)" "jget d ''actor'' = JStr a" "jget d ''at'' = t"
    by (cases k; simp add: e d_def human_event_json_def detail_field_def has_fields_def jget_def)+
  have ok: "a \<noteq> []" "is_reading t" using assms by (simp_all add: event_ok_def e)
  have v: "(case detail_field k of [] \<Rightarrow> JNull | f # fs \<Rightarrow> sort_json (jget d f)) = v"
    using assms by (cases k) (auto simp: event_ok_def e detail_field_def d_def jget_def)
  have "(case detail_field k of [] \<Rightarrow> JNull | f # fs \<Rightarrow> jget (sorted_members d) f) = v"
    using v by (cases "detail_field k") (simp_all add: jget_members d(2))
  then show ?thesis
    using d(1,3-6) ok by (simp add: event_of_def read_object d(2) event_of_name number_of_def sort_reading e del: sort_json.simps(7))
qed

lemma approval_of_json: "\<forall>r. a = Some r \<longrightarrow> ref_ok r \<Longrightarrow> approval_of (sort_json (approval_json a)) = Some a"
proof (cases a)
  case (Some r)
  assume "\<forall>r. a = Some r \<longrightarrow> ref_ok r"
  then have "ref_ok r" using Some by simp
  then show ?thesis
    using Some by (simp add: approval_json_def approval_of_def read_object ref_ok_def del: sort_json.simps(7))
      (simp add: jget_def has_fields_def positive_int_def)
qed (simp add: approval_json_def approval_of_def)

lemma response_of_json: "\<forall>r. p = Some r \<longrightarrow> response_ok r \<Longrightarrow> response_of (sort_json (response_json p)) = Some p"
proof (cases p)
  case (Some r)
  assume "\<forall>r. p = Some r \<longrightarrow> response_ok r"
  then have r: "response_ok r" using Some by simp
  then have "approval_of (sort_json (approval_json (hp_approval r))) = Some (hp_approval r)"
    by (intro approval_of_json) (simp add: response_ok_def)
  with r show ?thesis
    using Some by (simp add: response_json_def response_of_def read_object response_ok_def del: sort_json.simps(7))
      (simp add: jget_def has_fields_def number_of_def)
qed (simp add: response_json_def response_of_def)

lemma status_of_name: "dict_get status_names (status_name s) = Some s"
  by (cases s) (simp_all add: status_names_def status_name_def)

text \<open>A row from its members, whatever their order.\<close>

lemma row_of_members:
  assumes ok: "row_ok r"
    and d: "has_fields [''request_id'', ''revision'', ''status'', ''created_at'', ''request'', ''fingerprint'', ''response'', ''history''] d"
    "jget d ''request_id'' = JStr (hw_request_id r)" "jget d ''revision'' = JInt (hw_revision r)"
    "jget d ''status'' = JStr (status_name (hw_status r))" "jget d ''created_at'' = hw_created_at r"
    "jget d ''fingerprint'' = JStr (hw_fingerprint r)" "jget d ''history'' = JArr es"
    and parts: "request_of (jget d ''request'') = Inr (hw_request r)" "request_fingerprint (jget d ''request'') = hw_fingerprint r"
    "response_of (jget d ''response'') = Some (hw_response r)" "map event_of es = map Some (hw_history r)"
  shows "row_of (JObj d) = Some r"
proof -
  have v: "number_of (hw_created_at r) = Some (hw_created_at r)" "starts_with ''attention_'' (hw_request_id r)" "history_valid r" "response_valid r"
    using ok by (simp_all add: row_ok_def number_of_def)
  obtain i n st c q f p h where r: "r = \<lparr>hw_request_id = i, hw_revision = n, hw_status = st, hw_created_at = c,
      hw_request = q, hw_fingerprint = f, hw_response = p, hw_history = h\<rparr>"
    by (cases r)
  have "those (map event_of es) = Some (hw_history r)" using parts(4) by (simp only: those_Some)
  then show ?thesis using d parts(1-3) v unfolding r by (simp add: row_of_def Let_def status_of_name)
qed

lemma row_members:
  obtains d where "row_json r = JObj d" "distinct (dict_keys d)"
    "has_fields [''request_id'', ''revision'', ''status'', ''created_at'', ''request'', ''fingerprint'', ''response'', ''history''] d"
    "jget d ''request_id'' = JStr (hw_request_id r)" "jget d ''revision'' = JInt (hw_revision r)"
    "jget d ''status'' = JStr (status_name (hw_status r))" "jget d ''created_at'' = hw_created_at r"
    "jget d ''fingerprint'' = JStr (hw_fingerprint r)" "jget d ''history'' = JArr (map human_event_json (hw_history r))"
    "jget d ''request'' = request_json (hw_request r)" "jget d ''response'' = response_json (hw_response r)"
  by (simp add: row_json_def jget_def has_fields_def)

lemma row_of_json:
  assumes "row_ok r"
  shows "row_of (sort_json (row_json r)) = Some r"
proof -
  obtain d where d: "row_json r = JObj d" "distinct (dict_keys d)"
    "has_fields [''request_id'', ''revision'', ''status'', ''created_at'', ''request'', ''fingerprint'', ''response'', ''history''] d"
    "jget d ''request_id'' = JStr (hw_request_id r)" "jget d ''revision'' = JInt (hw_revision r)"
    "jget d ''status'' = JStr (status_name (hw_status r))" "jget d ''created_at'' = hw_created_at r"
    "jget d ''fingerprint'' = JStr (hw_fingerprint r)" "jget d ''history'' = JArr (map human_event_json (hw_history r))"
    "jget d ''request'' = request_json (hw_request r)" "jget d ''response'' = response_json (hw_response r)"
    by (rule row_members)
  have "row_of (JObj (sorted_members d)) = Some r"
  proof (rule row_of_members [OF assms, where es = "map (\<lambda>e. sort_json (human_event_json e)) (hw_history r)"])
    show "response_of (jget (sorted_members d) ''response'') = Some (hw_response r)"
      using assms by (simp add: jget_members d response_of_json row_ok_def)
    show "map event_of (map (\<lambda>e. sort_json (human_event_json e)) (hw_history r)) = map Some (hw_history r)"
      using assms by (simp add: event_of_json row_ok_def)
  qed (use assms request_of_sorted in \<open>simp_all add: jget_members d has_fields_sorted row_ok_def request_ok_def request_fingerprint_def
      sort_reading comp_def\<close>)
  then show ?thesis by (simp only: d(1) sort_json_members)
qed

text \<open>The same before the keys are sorted: what validation sees of a row that is still in memory.\<close>

lemma plain_parts:
  "event_ok e \<Longrightarrow> event_of (human_event_json e) = Some e"
  "(\<And>r. p = Some r \<Longrightarrow> response_ok r) \<Longrightarrow> response_of (response_json p) = Some p"
proof -
  assume ok: "event_ok e"
  obtain k a t v where e: "e = \<lparr>he_event = k, he_actor = a, he_at = t, he_detail = v\<rparr>" by (cases e)
  show "event_of (human_event_json e) = Some e"
    using ok by (cases k) (auto simp: e human_event_json_def event_of_def event_ok_def detail_field_def event_name_def event_names_def
        jget_def has_fields_def number_of_def)
next
  assume ok: "\<And>r. p = Some r \<Longrightarrow> response_ok r"
  show "response_of (response_json p) = Some p"
  proof (cases p)
    case (Some r)
    then have r: "response_ok r" by (rule ok)
    then have "approval_of (approval_json (hp_approval r)) = Some (hp_approval r)"
      by (cases "hp_approval r") (simp_all add: approval_json_def approval_of_def response_ok_def ref_ok_def has_fields_def jget_def positive_int_def)
    with r show ?thesis
      using Some by (simp add: response_json_def response_of_def response_ok_def has_fields_def jget_def number_of_def)
  qed (simp add: response_json_def response_of_def)
qed

lemma row_of_plain:
  assumes "row_ok r"
  shows "row_of (row_json r) = Some r"
proof -
  obtain d where d: "row_json r = JObj d" "distinct (dict_keys d)"
    "has_fields [''request_id'', ''revision'', ''status'', ''created_at'', ''request'', ''fingerprint'', ''response'', ''history''] d"
    "jget d ''request_id'' = JStr (hw_request_id r)" "jget d ''revision'' = JInt (hw_revision r)"
    "jget d ''status'' = JStr (status_name (hw_status r))" "jget d ''created_at'' = hw_created_at r"
    "jget d ''fingerprint'' = JStr (hw_fingerprint r)" "jget d ''history'' = JArr (map human_event_json (hw_history r))"
    "jget d ''request'' = request_json (hw_request r)" "jget d ''response'' = response_json (hw_response r)"
    by (rule row_members)
  show ?thesis
    unfolding d(1)
  proof (rule row_of_members [OF assms d(3-9)])
    show "response_of (jget d ''response'') = Some (hw_response r)"
      using assms by (simp add: d plain_parts(2) row_ok_def)
    show "map event_of (map human_event_json (hw_history r)) = map Some (hw_history r)"
      using assms by (simp add: plain_parts(1) row_ok_def)
  qed (use assms in \<open>simp_all add: d row_ok_def request_ok_def\<close>)
qed

lemma human_event_json_wf: "event_ok e \<Longrightarrow> json_wf (human_event_json e)"
  by (cases "he_event e") (auto simp: human_event_json_def event_ok_def detail_field_def reading_wf)

lemma row_json_wf: "row_ok r \<Longrightarrow> json_wf (row_json r)"
  by (auto simp: row_json_def row_ok_def request_ok_def reading_wf human_event_json_wf response_json_def approval_json_def response_ok_def
      split: option.split)

lemma queue_of_json:
  assumes "queue_ok rs"
  shows "queue_of (sort_json (queue_json rs)) = Some rs"
proof -
  have "those (map row_of (map (\<lambda>r. sort_json (row_json r)) rs)) = Some rs"
    using assms those_each [of rs "\<lambda>r. row_of (sort_json (row_json r))" id] by (simp add: row_of_json queue_ok_def comp_def)
  then show ?thesis
    using assms by (simp add: queue_json_def queue_of_def read_object del: sort_json.simps(7))
      (simp add: jget_def has_fields_def queue_ok_def comp_def)
qed

lemma queue_of_plain:
  assumes "queue_ok rs"
  shows "queue_of (queue_json rs) = Some rs"
proof -
  have "those (map row_of (map row_json rs)) = Some rs"
    using assms by (simp only: those_Some) (simp add: row_of_plain queue_ok_def)
  then show ?thesis
    using assms by (simp add: queue_json_def queue_of_def jget_def has_fields_def queue_ok_def comp_def)
qed

lemma queue_text_back:
  assumes "queue_ok rs" "utf8_len (queue_text rs) \<le> int max_bytes"
  shows "queue_of_text (queue_text rs) = Some rs"
proof -
  have "json_wf (queue_json rs)" using assms(1) by (simp add: queue_json_def queue_ok_def row_json_wf)
  then have "loads_unique (queue_text rs) = Some (sort_json (queue_json rs))"
    unfolding queue_text_def by (rule loads_unique_dumps)
  then show ?thesis using assms queue_of_json [OF assms(1)] by (simp add: queue_of_text_def)
qed

lemma empty_queue_text: "queue_text [] = ''{\"requests\":[],\"version\":1}''"
  by code_simp

interpretation attention: ledger_format queue_format queue_ok "\<lambda>rs. rs"
proof
  show "ff_decode queue_format (ff_encode queue_format s) = Some s"
    if "queue_ok s" "utf8_len (ff_encode queue_format s) \<le> int max_bytes" for s
    using that by (simp add: queue_format_def queue_text_back)
  show "utf8_len (ff_encode queue_format (ff_empty queue_format)) \<le> int max_bytes"
    by (simp add: queue_format_def empty_queue_text utf8_len_def utf8_def utf8_char_def max_bytes_def)
qed (simp_all add: queue_format_def queue_ok_def)

end
