(* ===== verification/AttentionRuns.thy ===== *)
theory AttentionRuns
  imports AttentionOk PermissionLaws
begin

text \<open>
  Histories of the queue: what one operation makes of a row, that it keeps rows valid, and the calls of any number of agents and
  operators in any order, with writes that are lost.
\<close>

section \<open>The steps of a row\<close>

inductive row_step :: "human_row \<Rightarrow> human_row \<Rightarrow> bool" where
  row_answer: "hw_status r = RowOpen \<Longrightarrow> choice \<in> set (hr_options (hw_request r)) \<Longrightarrow> is_reading (hv_event env) \<Longrightarrow> pr_subject pr \<noteq> []
    \<Longrightarrow> (\<And>a. ref = Some a \<Longrightarrow> ref_ok a) \<Longrightarrow> (needs_approval r choice \<Longrightarrow> ref \<noteq> None)
    \<Longrightarrow> row_step r (answered env pr choice ref r)"
| row_consume: "hw_status r = RowResponded \<Longrightarrow> hw_response r = Some p \<Longrightarrow> is_reading (hv_event env) \<Longrightarrow> pr_subject pr \<noteq> []
    \<Longrightarrow> row_step r (with_event env EvConsumed pr (JStr (hp_response_id p)) (r\<lparr>hw_status := RowConsumed\<rparr>))"
| row_close: "hw_status r \<noteq> RowClosed \<Longrightarrow> hw_status r \<noteq> RowConsumed \<Longrightarrow> is_reading (hv_event env) \<Longrightarrow> pr_subject pr \<noteq> []
    \<Longrightarrow> (st, k) = (RowClosed, EvClosed) \<or> (st, k) = (RowUnknown, EvUnknown)
    \<Longrightarrow> row_step r (with_event env k pr (JStr reason) (r\<lparr>hw_status := st\<rparr>))"

inductive_cases row_stepE: "row_step r r'"

lemma with_event_simps [simp]:
  "hw_request_id (with_event env k pr v r) = hw_request_id r" "hw_status (with_event env k pr v r) = hw_status r"
  "hw_created_at (with_event env k pr v r) = hw_created_at r" "hw_request (with_event env k pr v r) = hw_request r"
  "hw_fingerprint (with_event env k pr v r) = hw_fingerprint r" "hw_response (with_event env k pr v r) = hw_response r"
  "hw_revision (with_event env k pr v r) = int (length (hw_history r) + 1)"
  "hw_history (with_event env k pr v r) = hw_history r @ [\<lparr>he_event = k, he_actor = pr_subject pr, he_at = hv_event env, he_detail = v\<rparr>]"
  by (simp_all add: with_event_def)

lemma answered_simps [simp]:
  "hw_request_id (answered env pr c a r) = hw_request_id r" "hw_created_at (answered env pr c a r) = hw_created_at r"
  "hw_request (answered env pr c a r) = hw_request r" "hw_fingerprint (answered env pr c a r) = hw_fingerprint r"
  "hw_status (answered env pr c a r) = (if hr_kind (hw_request r) = ''notice'' then RowClosed else RowResponded)"
  "hw_revision (answered env pr c a r) = int (length (hw_history r) + 1)"
  "hw_history (answered env pr c a r) = hw_history r @ [\<lparr>he_event = EvResponded, he_actor = pr_subject pr, he_at = hv_event env,
     he_detail = JStr (''response_'' @ hv_uuid env)\<rparr>]"
  "hw_response (answered env pr c a r) = Some \<lparr>hp_response_id = ''response_'' @ hv_uuid env, hp_choice = c, hp_actor = pr_subject pr,
     hp_at = hv_event env, hp_request_revision = hw_revision r, hp_fingerprint = hw_fingerprint r, hp_approval = a\<rparr>"
  by (simp_all add: answered_def Let_def)

text \<open>What every step keeps, and what it adds.\<close>

lemma row_step_keeps:
  assumes "row_step r r'"
  shows "hw_request_id r' = hw_request_id r" "hw_request r' = hw_request r" "hw_fingerprint r' = hw_fingerprint r"
    "hw_created_at r' = hw_created_at r" "hw_revision r' = int (length (hw_history r'))"
    "\<exists>e. hw_history r' = hw_history r @ [e] \<and> event_ok e \<and> he_event e \<noteq> EvRequested \<and> expected_last r' = he_event e"
  using assms
  by (induction rule: row_step.induct; auto simp: event_ok_def expected_last_def last_event_def split: if_splits)+

lemma open_history:
  assumes "history_valid r" "hw_status r = RowOpen"
  shows "\<exists>e. hw_history r = [e] \<and> he_event e = EvRequested"
proof -
  obtain e es where h: "hw_history r = e # es" "he_event e = EvRequested" "list_all (\<lambda>x. he_event x \<noteq> EvRequested) es"
    using assms(1) by (auto simp: history_valid_def split: list.splits)
  have "he_event (last (e # es)) = EvRequested" using assms h(1) by (simp add: history_valid_def last_event_def expected_last_def)
  then have "es = []" using h(3) by (cases es rule: rev_cases) auto
  with h show ?thesis by simp
qed

lemma history_valid_step:
  assumes "history_valid r" "row_step r r'"
  shows "history_valid r'"
proof -
  obtain e where e: "hw_history r' = hw_history r @ [e]" "he_event e \<noteq> EvRequested" "expected_last r' = he_event e"
    using row_step_keeps(6) [OF assms(2)] by blast
  then show ?thesis
    using assms(1) row_step_keeps(5) [OF assms(2)]
    by (auto simp: history_valid_def last_event_def split: list.splits)
qed

lemma events_of_kind_append:
  "hw_history r' = hw_history r @ [e] \<Longrightarrow> events_of_kind ks r' = events_of_kind ks r @ (if he_event e \<in> set ks then [e] else [])"
  by (simp add: events_of_kind_def)

lemma same_number_refl: "is_reading v \<Longrightarrow> same_number v v"
  by (cases v) (auto simp: is_reading_def same_number_def)

lemma response_valid_step:
  assumes "response_valid r" "history_valid r" "row_step r r'"
  shows "response_valid r'"
  using assms(3)
proof cases
  case (row_answer choice env pr ref)
  obtain e where e: "hw_history r = [e]" "he_event e = EvRequested" using open_history [OF assms(2)] row_answer by blast
  then have "hw_revision r = 1" using assms(2) by (simp add: history_valid_def)
  then show ?thesis
    using row_answer e by (auto simp: response_valid_def events_of_kind_def same_number_refl needs_approval_def)
next
  case (row_consume p env pr)
  then have "events_of_kind [EvResponded] r' = events_of_kind [EvResponded] r" by (simp add: events_of_kind_def)
  then show ?thesis using row_consume assms(1) by (simp add: response_valid_def)
next
  case (row_close env pr st k reason)
  then have "events_of_kind ks r' = events_of_kind ks r" if "EvClosed \<notin> set ks" "EvUnknown \<notin> set ks" for ks
    using that by (auto simp: events_of_kind_def)
  then show ?thesis using row_close assms(1) by (auto simp: response_valid_def split: option.splits)
qed

lemma row_ok_step:
  assumes "row_ok r" "row_step r r'"
  shows "row_ok r'"
proof -
  obtain e where e: "hw_history r' = hw_history r @ [e]" "event_ok e" using row_step_keeps(6) [OF assms(2)] by blast
  have "\<forall>p. hw_response r' = Some p \<longrightarrow> response_ok p"
    using assms(2)
  proof cases
    case (row_answer choice env pr ref)
    have "starts_with ''response_'' (''response_'' @ hv_uuid env)" by simp
    then show ?thesis using row_answer by (simp add: response_ok_def)
  qed (use assms(1) in \<open>simp_all add: row_ok_def\<close>)
  then show ?thesis
    using assms(1) e row_step_keeps(1-4) [OF assms(2)] history_valid_step [OF _ assms(2)] response_valid_step [OF _ _ assms(2)]
    by (simp add: row_ok_def)
qed

section \<open>The steps of the queue\<close>

definition asked_anew :: "human_row list \<Rightarrow> human_row \<Rightarrow> bool" where
  "asked_anew rs r = (row_ok r \<and> hw_request_id r \<notin> hw_request_id ` set rs \<and> hr_key (hw_request r) \<notin> (\<lambda>x. hr_key (hw_request x)) ` set rs
     \<and> hw_status r = RowOpen \<and> hw_response r = None)"

definition queue_evolves :: "human_row list \<Rightarrow> human_row list \<Rightarrow> bool" where
  "queue_evolves rs rs' = (rs' = rs \<or> (\<exists>r. asked_anew rs r \<and> rs' = rs @ [r])
     \<or> (\<exists>r r'. r \<in> set rs \<and> row_step r r' \<and> rs' = put_request r' rs))"

lemma put_request_set: "set (put_request r' rs) = (\<lambda>x. if hw_request_id x = hw_request_id r' then r' else x) ` set rs"
  by (simp add: put_request_def set_update_where)

lemma same_row_id: "queue_ok rs \<Longrightarrow> r \<in> set rs \<Longrightarrow> x \<in> set rs \<Longrightarrow> hw_request_id r = hw_request_id x \<Longrightarrow> r = x"
  by (auto simp: queue_ok_def distinct_map inj_on_def)

lemma put_request_maps:
  assumes "queue_ok rs" "r \<in> set rs" "row_step r r'"
  shows "map hw_request_id (put_request r' rs) = map hw_request_id rs"
    "map (\<lambda>x. hr_key (hw_request x)) (put_request r' rs) = map (\<lambda>x. hr_key (hw_request x)) rs"
proof -
  show "map hw_request_id (put_request r' rs) = map hw_request_id rs" by (simp add: put_request_def update_where_def)
  have "hr_key (hw_request (if hw_request_id x = hw_request_id r' then r' else x)) = hr_key (hw_request x)" if "x \<in> set rs" for x
  proof (cases "hw_request_id x = hw_request_id r'")
    case True
    then have "hw_request_id r = hw_request_id x" using row_step_keeps(1) [OF assms(3)] by simp
    then have "r = x" by (rule same_row_id [OF assms(1,2) that])
    then show ?thesis using True row_step_keeps(2) [OF assms(3)] by simp
  qed simp
  then show "map (\<lambda>x. hr_key (hw_request x)) (put_request r' rs) = map (\<lambda>x. hr_key (hw_request x)) rs"
    by (simp add: put_request_def update_where_def)
qed

lemma queue_evolves_ok: "queue_ok rs \<Longrightarrow> queue_evolves rs rs' \<Longrightarrow> queue_ok rs'"
  unfolding queue_evolves_def
proof (elim disjE exE conjE)
  fix r assume "queue_ok rs" "asked_anew rs r" "rs' = rs @ [r]"
  then show "queue_ok rs'" by (auto simp: queue_ok_def asked_anew_def)
next
  fix r r' assume a: "queue_ok rs" "r \<in> set rs" "row_step r r'" and rs': "rs' = put_request r' rs"
  have "row_ok r'" using a row_ok_step by (auto simp: queue_ok_def)
  then show "queue_ok rs'"
    using a(1) put_request_maps [OF a] unfolding rs' by (auto simp: queue_ok_def put_request_set)
qed simp

lemma find_row_Inr: "find_row rs i = Inr r \<Longrightarrow> r \<in> set rs \<and> hw_request_id r = i"
  by (auto simp: find_row_def split: option.splits dest: find_SomeD)

definition human_call :: "human_env \<Rightarrow> principal \<Rightarrow> bool" where
  "human_call env pr = (is_reading (hv_event env) \<and> is_reading (hv_created env) \<and> principal_ok pr)"

text \<open>The random id of a new request is one that no row has.\<close>

definition fresh_row :: "human_env \<Rightarrow> folder \<Rightarrow> bool" where
  "fresh_row env f = (\<forall>rs. current queue_format f = Some rs \<longrightarrow> ''attention_'' @ hv_uuid env \<notin> hw_request_id ` set rs)"

lemma principal_named: "principal_ok pr \<Longrightarrow> pr_subject pr \<noteq> []"
  by (simp add: principal_ok_def)

lemma request_body_evolves:
  assumes "request_body env pr (new_row env v q) rs = Inr (x, rs')" "request_of v = Inr q" "json_wf v"
    "is_reading (hv_event env)" "is_reading (hv_created env)" "principal_ok pr" "''attention_'' @ hv_uuid env \<notin> hw_request_id ` set rs"
  shows "queue_evolves rs rs'"
proof (cases "find (\<lambda>old. hr_key (hw_request old) = hr_key q) rs")
  case None
  let ?r = "with_event env EvRequested pr JNull (new_row env v q)"
  have "hr_key (hw_request (new_row env v q)) = hr_key q" by (simp add: new_row_def)
  then have rs': "rs' = rs @ [?r]" using assms(1) None by (auto simp: request_body_def Let_def)
  note q = request_of_ok [OF assms(2,3)]
  have "history_valid ?r" "response_valid ?r"
    by (simp_all add: history_valid_def response_valid_def events_of_kind_def last_event_def expected_last_def new_row_def)
  moreover have "starts_with ''attention_'' (''attention_'' @ hv_uuid env)" by simp
  ultimately have "row_ok ?r"
    using q assms(4-6) principal_named by (simp add: row_ok_def event_ok_def) (simp add: new_row_def)
  then have "asked_anew rs ?r"
    using assms(7) None by (auto simp: asked_anew_def new_row_def find_None_iff)
  then show ?thesis using rs' by (auto simp: queue_evolves_def)
next
  case (Some old)
  then show ?thesis using assms(1) by (auto simp: request_body_def new_row_def queue_evolves_def)
qed

lemma decide_revision [simp]: "vd_revision (decide p n os now pr q) = n"
  by (simp add: decide_def verdict_of_def Let_def)

lemma find_approval_Inr:
  assumes "find_approval env r approval = Inr a"
  obtains s vd where "open_store (hv_eval env) (hv_roots env) (hv_root env) = Inr s"
    "evaluate_permission (hv_eval env) (hv_roots env) s (owner_principal (hr_context (hw_request r))) (effect_question (hr_context (hw_request r))) = Inr vd"
    "vd_permission vd = ''allow''" "vd_approval_id vd = Some (hf_approval_id a)" "approval = Some (hf_approval_id a)" "ref_ok a"
proof -
  obtain s vd where s: "open_store (hv_eval env) (hv_roots env) (hv_root env) = Inr s"
    and vd: "evaluate_permission (hv_eval env) (hv_roots env) s (owner_principal (hr_context (hw_request r))) (effect_question (hr_context (hw_request r))) = Inr vd"
    using assms by (auto simp: find_approval_def Let_def split: sum.splits)
  then have a: "vd_permission vd = ''allow''" "vd_approval_id vd = Some (hf_approval_id a)" "approval = Some (hf_approval_id a)"
    "hf_approval_id a \<noteq> []" "hf_policy_revision a = vd_revision vd"
    using assms by (auto simp: find_approval_def Let_def split: option.splits if_splits)
  obtain sv os where "read_policy (hv_eval env) (hv_roots env) s = Inr sv"
    "vd = decide (sv_policy sv) (sv_revision sv) os (se_now (hv_eval env)) (owner_principal (hr_context (hw_request r)))
       (effect_question (hr_context (hw_request r)))"
    by (rule evaluate_Inr [OF vd])
  then have "1 \<le> vd_revision vd" using read_valid by simp
  then have "ref_ok a" using a by (simp add: ref_ok_def)
  with that [OF s vd] a show ?thesis by blast
qed

lemma respond_body_evolves:
  assumes "respond_body env pr i choice revision digest approval rs = Inr (x, rs')" "is_reading (hv_event env)" "principal_ok pr"
  shows "queue_evolves rs rs'"
proof -
  obtain r ref where r: "find_row rs i = Inr r" "hw_status r = RowOpen" "choice \<in> set (hr_options (hw_request r))"
    and ref: "(if needs_approval r choice then (case find_approval env r approval of Inl e \<Rightarrow> Inl e | Inr a \<Rightarrow> Inr (Some a)) else Inr None) = Inr ref"
    and rs': "rs' = put_request (answered env pr choice ref r) rs"
    using assms(1) by (auto simp: respond_body_def Let_def)
  have "row_step r (answered env pr choice ref r)"
    using r(2,3) assms(2) principal_named [OF assms(3)]
  proof (rule row_answer)
    show "ref_ok a" if "ref = Some a" for a
      using ref that by (auto split: if_splits sum.splits elim: find_approval_Inr)
    show "ref \<noteq> None" if "needs_approval r choice" using ref that by (auto split: sum.splits)
  qed
  then show ?thesis using find_row_Inr [OF r(1)] rs' by (auto simp: queue_evolves_def)
qed

lemma consume_body_Inr:
  assumes "consume_body env pr i revision digest rs = Inr (x, rs')"
  obtains r p where "r \<in> set rs" "hw_request_id r = i" "check_owner pr r = Inr ()" "check_expected r revision digest = Inr ()"
    "hw_status r = RowResponded" "hr_kind (hw_request r) = ''decision''" "check_permission env ''attention.consume'' pr r = Inr ()"
    "check_live env r = Inr ()" "hw_response r = Some p"
    "needs_approval r (hp_choice p) \<longrightarrow> (\<exists>a b. hp_approval p = Some a \<and> find_approval env r (Some (hf_approval_id a)) = Inr b)"
    "x = answer_of (with_event env EvConsumed pr (JStr (hp_response_id p)) (r\<lparr>hw_status := RowConsumed\<rparr>)) p"
    "rs' = put_request (with_event env EvConsumed pr (JStr (hp_response_id p)) (r\<lparr>hw_status := RowConsumed\<rparr>)) rs"
proof -
  obtain r p where r: "find_row rs i = Inr r" and p: "(case hw_response r of None \<Rightarrow> Inl Escaped | Some p \<Rightarrow> Inr p) = Inr p"
    and a: "(if needs_approval r (hp_choice p)
               then (case hp_approval p of None \<Rightarrow> Inl Escaped
                     | Some a \<Rightarrow> (case find_approval env r (Some (hf_approval_id a)) of Inl e \<Rightarrow> Inl e | Inr _ \<Rightarrow> Inr ()))
               else Inr ()) = Inr ()"
    and c: "check_owner pr r = Inr ()" "check_expected r revision digest = Inr ()" "hw_status r = RowResponded" "hr_kind (hw_request r) = ''decision''"
    "check_permission env ''attention.consume'' pr r = Inr ()" "check_live env r = Inr ()"
    and x: "x = answer_of (with_event env EvConsumed pr (JStr (hp_response_id p)) (r\<lparr>hw_status := RowConsumed\<rparr>)) p"
    "rs' = put_request (with_event env EvConsumed pr (JStr (hp_response_id p)) (r\<lparr>hw_status := RowConsumed\<rparr>)) rs"
    using assms by (auto simp: consume_body_def Let_def)
  have "hw_response r = Some p" using p by (simp split: option.splits)
  moreover have "needs_approval r (hp_choice p) \<longrightarrow> (\<exists>a b. hp_approval p = Some a \<and> find_approval env r (Some (hf_approval_id a)) = Inr b)"
    using a by (auto split: option.splits sum.splits)
  ultimately show ?thesis using that c x find_row_Inr [OF r] by blast
qed

lemma consume_body_evolves:
  assumes "consume_body env pr i revision digest rs = Inr (x, rs')" "is_reading (hv_event env)" "principal_ok pr"
  shows "queue_evolves rs rs'"
proof -
  from assms(1) obtain r p where r: "r \<in> set rs" "hw_status r = RowResponded" "hw_response r = Some p"
    "rs' = put_request (with_event env EvConsumed pr (JStr (hp_response_id p)) (r\<lparr>hw_status := RowConsumed\<rparr>)) rs"
    by (rule consume_body_Inr)
  from row_consume [OF r(2,3) assms(2) principal_named [OF assms(3)]] r(1,4) show ?thesis by (auto simp: queue_evolves_def)
qed

lemma disposition_cases: "disposition_of s = Some d \<Longrightarrow> d = (RowClosed, EvClosed) \<or> d = (RowUnknown, EvUnknown)"
  by (auto simp: disposition_of_def split: if_splits)

lemma close_body_evolves:
  assumes "close_body env pr i revision digest d reason rs = Inr (x, rs')" "is_reading (hv_event env)" "principal_ok pr"
    "d = (RowClosed, EvClosed) \<or> d = (RowUnknown, EvUnknown)"
  shows "queue_evolves rs rs'"
proof -
  obtain r where r: "find_row rs i = Inr r" "hw_status r \<noteq> RowClosed" "hw_status r \<noteq> RowConsumed"
    "rs' = put_request (with_event env (snd d) pr (JStr reason) (r\<lparr>hw_status := fst d\<rparr>)) rs"
    using assms(1) by (auto simp: close_body_def Let_def)
  from row_close [OF r(2,3) assms(2) principal_named [OF assms(3)], of "fst d" "snd d" reason] assms(4) r(4) find_row_Inr [OF r(1)]
  show ?thesis by (auto simp: queue_evolves_def)
qed

section \<open>Calls in any order\<close>

inductive queue_step :: "folder \<Rightarrow> folder \<Rightarrow> bool" where
  queue_request: "human_call env pr \<Longrightarrow> fresh_row env f \<Longrightarrow> json_wf v \<Longrightarrow> request_attention env pr v f = (r, f') \<Longrightarrow> queue_step f f'"
| queue_respond: "human_call env pr \<Longrightarrow> respond_attention env pr i choice revision digest approval f = (r, f') \<Longrightarrow> queue_step f f'"
| queue_consume: "human_call env pr \<Longrightarrow> consume_attention env pr i revision digest f = (a, f') \<Longrightarrow> queue_step f f'"
| queue_close: "human_call env pr \<Longrightarrow> close_attention env pr i revision digest disposition reason f = (r, f') \<Longrightarrow> queue_step f f'"
| queue_inspect: "inspect_attention cenv pr i f = (r, f') \<Longrightarrow> queue_step f f'"
| queue_list: "list_attention cenv pr closed f = (l, f') \<Longrightarrow> queue_step f f'"

definition empty_folder :: folder where
  "empty_folder = \<lparr>fo_held = False, fo_text = None, fo_marker = False\<rparr>"

text \<open>What a call does to the recorded rows, told by the body it ran.\<close>

definition queue_recorded :: "(human_row list \<Rightarrow> human_row list \<Rightarrow> bool) \<Rightarrow> folder \<Rightarrow> folder \<Rightarrow> bool" where
  "queue_recorded P f f' = (attention.sound f' \<and> (current queue_format f' = current queue_format f
     \<or> (\<exists>rs rs'. current queue_format f = Some rs \<and> queue_ok rs \<and> P rs rs' \<and> current queue_format f' = Some rs')))"

lemma queue_recorded_mono: "queue_recorded P f f' \<Longrightarrow> (\<And>rs rs'. P rs rs' \<Longrightarrow> Q rs rs') \<Longrightarrow> queue_recorded Q f f'"
  unfolding queue_recorded_def by blast

lemma validated_Inr: "validated_body body rs = Inr (x, rs') \<Longrightarrow> body rs = Inr (x, rs')"
  by (auto simp: validated_body_def split: sum.splits if_splits)

lemma queue_transaction_recorded:
  assumes s: "attention.sound f" and tr: "queue_transaction env body f = (r, f')"
    and body: "\<And>rs x rs'. current queue_format f = Some rs \<Longrightarrow> queue_ok rs \<Longrightarrow> body rs = Inr (x, rs') \<Longrightarrow> queue_evolves rs rs'"
  shows "queue_recorded (\<lambda>rs rs'. queue_evolves rs rs' \<and> (\<exists>x. body rs = Inr (x, rs'))) f f'"
proof -
  have b: "\<forall>rs x rs'. current queue_format f = Some rs \<longrightarrow> queue_ok rs \<longrightarrow> validated_body body rs = Inr (x, rs') \<longrightarrow> queue_ok rs'"
    by (intro allI impI) (rule queue_evolves_ok, assumption, rule body, assumption+, erule validated_Inr)
  note eff = attention.transaction_effect [OF s tr [unfolded queue_transaction_def] b]
  have "current queue_format f' = current queue_format f
    \<or> (\<exists>st x st'. current queue_format f = Some st \<and> queue_ok st \<and> validated_body body st = Inr (x, st') \<and> current queue_format f' = Some st')"
    using eff(3) by metis
  then show ?thesis
  proof (elim disjE exE conjE)
    assume "current queue_format f' = current queue_format f"
    with eff(1) show ?thesis by (simp add: queue_recorded_def)
  next
    fix st x st' assume c: "current queue_format f = Some st" "queue_ok st" "current queue_format f' = Some st'"
      and "validated_body body st = Inr (x, st')"
    from validated_Inr [OF this(4)] have b: "body st = Inr (x, st')" .
    have "queue_evolves st st'" by (rule body [OF c(1,2) b])
    with eff(1) c b show ?thesis unfolding queue_recorded_def by (intro conjI disjI2 exI)
  qed
qed

lemma reading_recorded:
  assumes s: "attention.sound f" and tr: "transaction queue_format False env body f = (r, f')"
    and body: "\<And>rs x rs'. body rs = Inr (x, rs') \<Longrightarrow> rs' = rs"
  shows "queue_recorded P f f'"
proof -
  have b: "\<forall>rs x rs'. current queue_format f = Some rs \<longrightarrow> queue_ok rs \<longrightarrow> body rs = Inr (x, rs') \<longrightarrow> queue_ok rs'"
    using body by blast
  show ?thesis using attention.transaction_effect [OF s tr b] by (auto simp: queue_recorded_def)
qed

lemma queue_unchanged: "attention.sound f \<Longrightarrow> queue_recorded P f f"
  by (simp add: queue_recorded_def)

lemma request_recorded:
  assumes "attention.sound f" "human_call env pr" "fresh_row env f" "json_wf v" "request_attention env pr v f = (r, f')"
  shows "queue_recorded (\<lambda>rs rs'. queue_evolves rs rs'
    \<and> (\<exists>q x. request_of v = Inr q \<and> request_body env pr (new_row env v q) rs = Inr (x, rs'))) f f'"
proof (cases "request_of v")
  case (Inl e)
  then show ?thesis using assms by (auto simp: request_attention_def intro: queue_unchanged)
next
  case q: (Inr q)
  show ?thesis
  proof (cases "check_owner pr (new_row env v q)")
    case (Inl e)
    then show ?thesis using assms q by (auto simp: request_attention_def intro: queue_unchanged)
  next
    case (Inr u)
    then have tr: "queue_transaction env (request_body env pr (new_row env v q)) f = (r, f')"
      using assms(5) q by (simp add: request_attention_def)
    have "queue_evolves rs rs'" if "current queue_format f = Some rs" "request_body env pr (new_row env v q) rs = Inr (x, rs')" for rs x rs'
      using request_body_evolves [OF that(2) q assms(4)] that(1) assms(2,3) by (simp add: human_call_def fresh_row_def)
    note k = queue_transaction_recorded [OF assms(1) tr this]
    show ?thesis by (rule queue_recorded_mono [OF k]) (use q in blast)+
  qed
qed

lemma respond_recorded:
  assumes "attention.sound f" "human_call env pr" "respond_attention env pr i choice revision digest approval f = (r, f')"
  shows "queue_recorded (\<lambda>rs rs'. queue_evolves rs rs' \<and> pr_role pr = ''operator''
    \<and> (\<exists>x. respond_body env pr i choice revision digest approval rs = Inr (x, rs'))) f f'"
proof (cases "pr_role pr = ''operator''")
  case True
  then have tr: "queue_transaction env (respond_body env pr i choice revision digest approval) f = (r, f')"
    using assms(3) by (simp add: respond_attention_def)
  have "queue_evolves rs rs'" if "respond_body env pr i choice revision digest approval rs = Inr (x, rs')" for rs x rs'
    using respond_body_evolves [OF that] assms(2) by (simp add: human_call_def)
  note k = queue_transaction_recorded [OF assms(1) tr this]
  show ?thesis by (rule queue_recorded_mono [OF k]) (use True in blast)+
qed (use assms in \<open>auto simp: respond_attention_def intro: queue_unchanged\<close>)

lemma consume_recorded:
  assumes "attention.sound f" "human_call env pr" "consume_attention env pr i revision digest f = (a, f')"
  shows "queue_recorded (\<lambda>rs rs'. queue_evolves rs rs' \<and> (\<exists>x. consume_body env pr i revision digest rs = Inr (x, rs'))) f f'"
proof (rule queue_transaction_recorded [OF assms(1) assms(3) [unfolded consume_attention_def]])
  show "queue_evolves rs rs'" if "consume_body env pr i revision digest rs = Inr (x, rs')" for rs x rs'
    using consume_body_evolves [OF that] assms(2) by (simp add: human_call_def)
qed

lemma close_recorded:
  assumes "attention.sound f" "human_call env pr" "close_attention env pr i revision digest disposition reason f = (r, f')"
  shows "queue_recorded (\<lambda>rs rs'. queue_evolves rs rs' \<and> (\<exists>d t x. (d = (RowClosed, EvClosed) \<or> d = (RowUnknown, EvUnknown))
    \<and> close_body env pr i revision digest d t rs = Inr (x, rs'))) f f'"
proof (cases "disposition_of disposition")
  case None
  then show ?thesis using assms by (auto simp: close_attention_def intro: queue_unchanged)
next
  case d: (Some d)
  show ?thesis
  proof (cases "bounded_text 4096 reason")
    case None
    then show ?thesis using assms d by (auto simp: close_attention_def intro: queue_unchanged)
  next
    case (Some t)
    then have tr: "queue_transaction env (close_body env pr i revision digest d t) f = (r, f')"
      using assms(3) d by (simp add: close_attention_def)
    have "queue_evolves rs rs'" if "close_body env pr i revision digest d t rs = Inr (x, rs')" for rs x rs'
      using close_body_evolves [OF that _ _ disposition_cases [OF d]] assms(2) by (simp add: human_call_def)
    note k = queue_transaction_recorded [OF assms(1) tr this]
    show ?thesis by (rule queue_recorded_mono [OF k]) (use disposition_cases [OF d] in blast)+
  qed
qed

lemma views_recorded:
  assumes "attention.sound f"
  shows "inspect_attention cenv pr i f = (r, f') \<Longrightarrow> queue_recorded P f f'"
    and "list_attention cenv pr closed f = (l, f') \<Longrightarrow> queue_recorded P f f'"
  unfolding inspect_attention_def list_attention_def
  by (erule reading_recorded [OF assms]; force)+

lemma queue_step_recorded:
  assumes "queue_step f f'" "attention.sound f"
  shows "queue_recorded queue_evolves f f'"
  using assms
proof (induction rule: queue_step.induct)
  case (queue_request env pr f v r f')
  from request_recorded [OF queue_request(5,1,2,3,4)] show ?case by (rule queue_recorded_mono) blast
next
  case (queue_respond env pr i choice revision digest approval f r f')
  from respond_recorded [OF queue_respond(3,1,2)] show ?case by (rule queue_recorded_mono) blast
next
  case (queue_consume env pr i revision digest f a f')
  from consume_recorded [OF queue_consume(3,1,2)] show ?case by (rule queue_recorded_mono) blast
next
  case (queue_close env pr i revision digest disposition reason f r f')
  from close_recorded [OF queue_close(3,1,2)] show ?case by (rule queue_recorded_mono) blast
qed (blast intro: views_recorded)+

lemma empty_sound: "attention.sound empty_folder"
  by (simp add: attention.sound_def empty_folder_def)

lemma queue_run_sound: "queue_step\<^sup>*\<^sup>* f f' \<Longrightarrow> attention.sound f \<Longrightarrow> attention.sound f'"
  by (induction rule: rtranclp_induct) (auto dest: queue_step_recorded simp: queue_recorded_def)

lemma queue_runs_sound: "queue_step\<^sup>*\<^sup>* empty_folder f \<Longrightarrow> attention.sound f"
  using queue_run_sound empty_sound by blast

text \<open>What every step keeps of the recorded rows, every history keeps.\<close>

lemma queue_run_keeps:
  assumes "queue_step\<^sup>*\<^sup>* f f'" "attention.sound f" "\<exists>rs. current queue_format f = Some rs \<and> P rs"
    and keep: "\<And>rs rs'. queue_ok rs \<Longrightarrow> P rs \<Longrightarrow> queue_evolves rs rs' \<Longrightarrow> P rs'"
  shows "\<exists>rs. current queue_format f' = Some rs \<and> P rs"
  using assms(1-3)
proof (induction rule: rtranclp_induct)
  case (step g h)
  then have s: "attention.sound g" and "\<exists>rs. current queue_format g = Some rs \<and> P rs"
    using queue_run_sound by blast+
  with queue_step_recorded [OF step.hyps(2) s] keep show ?case unfolding queue_recorded_def by auto
qed simp

end
