(* ===== verification/AttentionLaws.thy ===== *)
theory AttentionLaws
  imports AttentionRuns
begin

text \<open>
  What the queue promises along every history: rows are retained with all they recorded, a row that has ended never moves
  again, and every answer was given by an operator.
\<close>

section \<open>Rows are retained\<close>

definition ended_row :: "human_row \<Rightarrow> bool" where
  "ended_row r = (hw_status r = RowConsumed \<or> hw_status r = RowClosed)"

definition retained :: "human_row \<Rightarrow> human_row \<Rightarrow> bool" where
  "retained r r' = (hw_request_id r' = hw_request_id r \<and> hw_request r' = hw_request r \<and> hw_fingerprint r' = hw_fingerprint r
     \<and> hw_created_at r' = hw_created_at r \<and> (\<exists>es. hw_history r' = hw_history r @ es)
     \<and> (\<forall>p. hw_response r = Some p \<longrightarrow> hw_response r' = Some p) \<and> (ended_row r \<longrightarrow> r' = r))"

lemma retained_refl [simp]: "retained r r"
  by (simp add: retained_def)

lemma retained_trans: "retained r s \<Longrightarrow> retained s t \<Longrightarrow> retained r t"
  by (auto simp: retained_def)

lemma row_step_retained:
  assumes "row_step r r'" "row_ok r"
  shows "retained r r'"
proof -
  have "\<not> ended_row r" using assms(1) by cases (simp_all add: ended_row_def)
  moreover have "hw_response r' = Some p" if "hw_response r = Some p" for p
    using assms(1)
  proof cases
    case (row_answer choice env pr ref)
    obtain e where "hw_history r = [e]" "he_event e = EvRequested"
      using open_history [of r] assms(2) row_answer by (auto simp: row_ok_def)
    then have "hw_response r = None"
      using assms(2) by (auto simp: row_ok_def response_valid_def events_of_kind_def split: option.splits)
    with that show ?thesis by simp
  qed (use that in simp_all)
  ultimately show ?thesis
    using row_step_keeps [OF assms(1)] by (auto simp: retained_def)
qed

lemma queue_evolves_retains:
  assumes "queue_ok rs" "queue_evolves rs rs'" "r \<in> set rs"
  shows "\<exists>r'\<in>set rs'. retained r r'"
  using assms(2) unfolding queue_evolves_def
proof (elim disjE exE conjE)
  fix s s' assume s: "s \<in> set rs" "row_step s s'" and rs': "rs' = put_request s' rs"
  show ?thesis
  proof (cases "hw_request_id r = hw_request_id s'")
    case True
    then have "hw_request_id r = hw_request_id s" using row_step_keeps(1) [OF s(2)] by simp
    then have "r = s" by (rule same_row_id [OF assms(1,3) s(1)])
    moreover have "row_ok s" using assms(1) s(1) by (simp add: queue_ok_def)
    ultimately have "retained r s'" using row_step_retained [OF s(2)] by simp
    moreover have "s' \<in> set rs'" unfolding rs' put_request_set using assms(3) True by (intro image_eqI [of _ _ r]) simp_all
    ultimately show ?thesis by blast
  next
    case False
    then have "r \<in> set rs'" unfolding rs' put_request_set using assms(3) by (intro image_eqI [of _ _ r]) simp_all
    then show ?thesis using retained_refl by blast
  qed
qed (use assms(3) retained_refl in \<open>auto intro: bexI [of _ r]\<close>)

lemma queue_run_retains:
  assumes "queue_step\<^sup>*\<^sup>* f f'" "attention.sound f" "current queue_format f = Some rs" "r \<in> set rs"
  obtains rs' r' where "current queue_format f' = Some rs'" "r' \<in> set rs'" "retained r r'"
proof -
  have "\<exists>rs. current queue_format f' = Some rs \<and> (\<exists>r'\<in>set rs. retained r r')"
  proof (rule queue_run_keeps [OF assms(1,2)])
    show "\<exists>rs. current queue_format f = Some rs \<and> (\<exists>r'\<in>set rs. retained r r')" using assms(3,4) by (auto intro: bexI [of _ r])
    show "\<exists>r'\<in>set rs'. retained r r'" if "queue_ok rs" "\<exists>r'\<in>set rs. retained r r'" "queue_evolves rs rs'" for rs rs'
      using queue_evolves_retains [OF that(1,3)] that(2) retained_trans by blast
  qed
  then show ?thesis using that by blast
qed

lemma run_queue:
  assumes "queue_step\<^sup>*\<^sup>* empty_folder f"
  obtains rs where "current queue_format f = Some rs" "queue_ok rs"
  using queue_runs_sound [OF assms] by (rule attention.sound_current)

section \<open>Rows that have ended\<close>

lemma find_row_same: "queue_ok rs \<Longrightarrow> r \<in> set rs \<Longrightarrow> find_row rs (hw_request_id r) = Inr r"
  using find_key [of hw_request_id rs r] by (simp add: find_row_def queue_ok_def)

lemma attempt_isl: "(\<And>y. m = Inr y \<Longrightarrow> False) \<Longrightarrow> isl m"
  by (cases m) auto

lemma ended_bodies:
  assumes "queue_ok rs" "r \<in> set rs" "ended_row r"
  shows "isl (respond_body env pr (hw_request_id r) choice revision digest approval rs)"
    "isl (consume_body env pr (hw_request_id r) revision digest rs)"
    "isl (close_body env pr (hw_request_id r) revision digest d reason rs)"
  using assms(3)
  by (auto intro!: attempt_isl simp: respond_body_def consume_body_def close_body_def find_row_same [OF assms(1,2)] ended_row_def)

lemma validated_isl: "isl (body rs) \<Longrightarrow> isl (validated_body body rs)"
  by (cases "body rs") (simp_all add: validated_body_def)

lemma queue_refuses:
  assumes "attention.sound f" "current queue_format f = Some rs" "isl (body rs)"
  shows "isl (fst (queue_transaction env body f))"
  using attention.refused_body [of f rs "validated_body body", OF assms(1,2) validated_isl [of body, OF assms(3)]] by (simp add: queue_transaction_def)

lemma ended_calls:
  assumes "attention.sound f" "current queue_format f = Some rs" "r \<in> set rs" "ended_row r"
  shows "isl (fst (respond_attention env pr (hw_request_id r) choice revision digest approval f))"
    "isl (fst (consume_attention env pr (hw_request_id r) revision digest f))"
    "isl (fst (close_attention env pr (hw_request_id r) revision digest disposition reason f))"
proof -
  have "queue_ok rs" using assms(1,2) by (auto elim: attention.sound_current)
  note b = ended_bodies [OF this assms(3,4)]
  show "isl (fst (respond_attention env pr (hw_request_id r) choice revision digest approval f))"
    using queue_refuses [of f rs "respond_body env pr (hw_request_id r) choice revision digest approval", OF assms(1,2) b(1)] by (simp add: respond_attention_def)
  show "isl (fst (consume_attention env pr (hw_request_id r) revision digest f))"
    using queue_refuses [of f rs "consume_body env pr (hw_request_id r) revision digest", OF assms(1,2) b(2)] by (simp add: consume_attention_def)
  show "isl (fst (close_attention env pr (hw_request_id r) revision digest disposition reason f))"
    using queue_refuses [of f rs "close_body env pr (hw_request_id r) revision digest d t" for d t, OF assms(1,2) b(3)]
    by (simp add: close_attention_def split: option.split)
qed

section \<open>Consuming\<close>

text \<open>What an accepted call has run, and what it left.\<close>

lemma answered_transaction:
  assumes "attention.sound f" "queue_transaction env body f = (Inr x, f')"
    and "\<And>rs x rs'. queue_ok rs \<Longrightarrow> body rs = Inr (x, rs') \<Longrightarrow> current queue_format f = Some rs \<Longrightarrow> queue_evolves rs rs'"
  obtains rs rs' where "current queue_format f = Some rs" "queue_ok rs" "body rs = Inr (x, rs')" "current queue_format f' = Some rs'"
    "attention.sound f'"
proof -
  have ok: "\<forall>rs x rs'. current queue_format f = Some rs \<longrightarrow> queue_ok rs \<longrightarrow> validated_body body rs = Inr (x, rs') \<longrightarrow> queue_ok rs'"
    by (intro allI impI) (rule queue_evolves_ok, assumption, rule assms(3), assumption, erule validated_Inr, assumption)
  obtain rs rs' where "current queue_format f = Some rs" "queue_ok rs" "validated_body body rs = Inr (x, rs')"
    "current queue_format f' = Some rs'" "attention.sound f'"
    by (rule attention.transaction_answered [OF assms(1) assms(2) [unfolded queue_transaction_def] ok])
  with that validated_Inr show ?thesis by metis
qed

lemma consume_answered:
  assumes "attention.sound f" "human_call env pr" "consume_attention env pr i revision digest f = (Inr a, f')"
  obtains rs rs' where "current queue_format f = Some rs" "queue_ok rs" "consume_body env pr i revision digest rs = Inr (a, rs')"
    "current queue_format f' = Some rs'" "attention.sound f'"
proof (rule answered_transaction [OF assms(1) assms(3) [unfolded consume_attention_def]])
  show "queue_evolves rs rs'" if "consume_body env pr i revision digest rs = Inr (x, rs')" for rs x rs'
    using consume_body_evolves [OF that] assms(2) by (simp add: human_call_def)
qed (rule that)

lemma consumed_row:
  assumes "consume_body env pr i revision digest rs = Inr (a, rs')"
  obtains r' where "r' \<in> set rs'" "hw_request_id r' = i" "hw_status r' = RowConsumed"
proof -
  from assms obtain r p where r: "r \<in> set rs" "hw_request_id r = i" and "hw_response r = Some p"
    and rs': "rs' = put_request (with_event env EvConsumed pr (JStr (hp_response_id p)) (r\<lparr>hw_status := RowConsumed\<rparr>)) rs"
    by (rule consume_body_Inr) blast
  let ?r = "with_event env EvConsumed pr (JStr (hp_response_id p)) (r\<lparr>hw_status := RowConsumed\<rparr>)"
  have "?r \<in> set rs'" unfolding rs' put_request_set using r(1) by (intro image_eqI [of _ _ r]) simp_all
  then show ?thesis using that r(2) by simp
qed

lemma current_policy_Inr:
  assumes "current_policy env now r = Inr u"
  shows "\<not> reached (hr_expires_at (hw_request r)) now"
    "\<exists>s. open_store (hv_perm env) (hv_roots env) (hv_root env) = Inr s
       \<and> (active_store (hv_roots env) s \<longrightarrow> st_root s = hc_policy_root (hr_context (hw_request r))
            \<and> (\<exists>sv. read_policy (hv_perm env) (hv_roots env) s = Inr sv \<and> sv_revision sv = hc_policy_revision (hr_context (hw_request r))))"
  using assms by (auto simp: current_policy_def Let_def split: if_splits sum.splits)

lemma check_live_Inr:
  assumes "check_live env r = Inr u"
  shows "current_policy env (hv_rechecked env) r = Inr ()"
    "\<exists>observe v. hv_validator env = Some observe \<and> observe r = Inr v \<and> context_of v = Some (hr_context (hw_request r))"
    "hc_operation_state (hr_context (hw_request r)) = ''blocked''"
  using assms by (auto simp: check_live_def split: if_splits sum.splits option.splits)

text \<open>An approval found is one that the policy holds and that grants the effect to the owner.\<close>

lemma find_approval_grants:
  assumes "find_approval env r (Some i) = Inr b"
  shows "\<exists>s sv d. open_store (hv_eval env) (hv_roots env) (hv_root env) = Inr s \<and> read_policy (hv_eval env) (hv_roots env) s = Inr sv
    \<and> JObj d \<in> set (member_list (sv_policy sv) ''approvals'') \<and> jget d ''id'' = JStr i
    \<and> grants d (owner_principal (hr_context (hw_request r))) (effect_question (hr_context (hw_request r))) (se_now (hv_eval env))"
proof -
  let ?pr = "owner_principal (hr_context (hw_request r))" and ?q = "effect_question (hr_context (hw_request r))"
  obtain s vd where s: "open_store (hv_eval env) (hv_roots env) (hv_root env) = Inr s"
    and vd: "evaluate_permission (hv_eval env) (hv_roots env) s ?pr ?q = Inr vd" "vd_permission vd = ''allow''"
      "vd_approval_id vd = Some (hf_approval_id b)" "Some i = Some (hf_approval_id b)" and "ref_ok b"
    by (rule find_approval_Inr [OF assms])
  obtain sv os where sv: "read_policy (hv_eval env) (hv_roots env) s = Inr sv" and "question_ok ?pr ?q = Inr ()"
    and "dict_get (sv_policy sv) ''adoption'' \<noteq> Some JNull"
    and "if qn_task ?q = None then os = [] else se_owners (hv_eval env) (st_root s) = Some os"
    and d: "vd = decide (sv_policy sv) (sv_revision sv) os (se_now (hv_eval env)) ?pr ?q"
    by (rule evaluate_Inr [OF vd(1)])
  have v: "valid_policy (JObj (sv_policy sv))" using read_valid [OF sv] by simp
  from decide_allow(2) [OF v d vd(2)] vd(3) obtain a where a: "JObj a \<in> set (member_list (sv_policy sv) ''approvals'')"
    "grants a ?pr ?q (se_now (hv_eval env))" "str_of (jget a ''id'') = hf_approval_id b"
    by (auto simp: ground_def)
  have "is_name (jget a ''id'')" using approvals_objects [OF v a(1)] by (auto simp: approval_ok_def)
  then have "jget a ''id'' = JStr i" using a(3) vd(4) by (auto simp: is_name_def str_of_def split: json.splits)
  with s sv a show ?thesis by blast
qed

section \<open>Who answered\<close>

text \<open>Rows of the second list with an answer had it in the first.\<close>

definition no_new_answer :: "human_row list \<Rightarrow> human_row list \<Rightarrow> bool" where
  "no_new_answer rs rs' = (\<forall>r'\<in>set rs'. \<forall>p. hw_response r' = Some p
     \<longrightarrow> (\<exists>r\<in>set rs. hw_request_id r = hw_request_id r' \<and> hw_fingerprint r = hw_fingerprint r' \<and> hw_response r = Some p))"

lemma no_new_answer_put:
  assumes "r \<in> set rs" "hw_request_id r' = hw_request_id r" "hw_fingerprint r' = hw_fingerprint r" "hw_response r' = hw_response r"
  shows "no_new_answer rs (put_request r' rs)"
  using assms by (auto simp: no_new_answer_def put_request_set split: if_splits)

lemma no_new_answer_refl: "no_new_answer rs rs"
  by (auto simp: no_new_answer_def)

lemma request_no_answer: "request_body env pr (new_row env v q) rs = Inr (x, rs') \<Longrightarrow> no_new_answer rs rs'"
  by (auto simp: request_body_def Let_def new_row_def no_new_answer_def split: option.splits)

lemma consume_no_answer: "consume_body env pr i revision digest rs = Inr (x, rs') \<Longrightarrow> no_new_answer rs rs'"
  by (erule consume_body_Inr) (simp add: no_new_answer_put)

lemma close_no_answer: "close_body env pr i revision digest d t rs = Inr (x, rs') \<Longrightarrow> no_new_answer rs rs'"
  by (auto simp: close_body_def Let_def dest!: find_row_Inr intro: no_new_answer_put)

lemma unanswered_row: "row_ok r \<Longrightarrow> hw_status r = RowOpen \<Longrightarrow> hw_response r = None"
proof -
  assume ok: "row_ok r" and "hw_status r = RowOpen"
  then obtain e where "hw_history r = [e]" "he_event e = EvRequested"
    using open_history [of r] by (auto simp: row_ok_def)
  with ok show ?thesis by (auto simp: row_ok_def response_valid_def events_of_kind_def split: option.splits)
qed

lemma respond_answers:
  assumes "queue_ok rs" "respond_body env pr i choice revision digest approval rs = Inr (x, rs')" "r' \<in> set rs'" "hw_response r' = Some p"
  shows "(\<exists>r\<in>set rs. hw_request_id r = hw_request_id r' \<and> hw_fingerprint r = hw_fingerprint r' \<and> hw_response r = Some p)
    \<or> hw_request_id r' = i \<and> choice = hp_choice p \<and> pr_subject pr = hp_actor p \<and> digest = JStr (hw_fingerprint r')
      \<and> (\<exists>r\<in>set rs. hw_request_id r = i \<and> hw_fingerprint r = hw_fingerprint r' \<and> hw_response r = None)"
proof -
  obtain r ref where r: "find_row rs i = Inr r" "check_expected r revision digest = Inr ()" "hw_status r = RowOpen"
    "rs' = put_request (answered env pr choice ref r) rs"
    using assms(2) by (auto simp: respond_body_def Let_def)
  from find_row_Inr [OF r(1)] have i: "hw_request_id r = i" "r \<in> set rs" by simp_all
  show ?thesis
  proof (cases "hw_request_id r' = i")
    case True
    then have "r' = answered env pr choice ref r" using assms(3) i unfolding r(4) put_request_set by auto
    moreover have "hw_response r = None" using assms(1) i(2) r(3) by (intro unanswered_row) (simp_all add: queue_ok_def)
    ultimately show ?thesis using assms(4) r(2) i by (auto simp: check_expected_def)
  next
    case False
    then have "r' \<in> set rs" using assms(3) i unfolding r(4) put_request_set by (auto split: if_splits)
    then show ?thesis using assms(4) by blast
  qed
qed

text \<open>The calls as data, so that a history names them.\<close>

datatype queue_call =
    AskHuman human_env principal json
  | AnswerRequest human_env principal string string json json "string option"
  | ConsumeAnswer human_env principal string json json
  | CloseRequest human_env principal string json json string json
  | SeeRequest call_env principal string
  | SeeRequests call_env principal bool

fun queue_effect :: "queue_call \<Rightarrow> folder \<Rightarrow> folder" where
  "queue_effect (AskHuman env pr v) f = snd (request_attention env pr v f)"
| "queue_effect (AnswerRequest env pr i choice revision digest approval) f =
     snd (respond_attention env pr i choice revision digest approval f)"
| "queue_effect (ConsumeAnswer env pr i revision digest) f = snd (consume_attention env pr i revision digest f)"
| "queue_effect (CloseRequest env pr i revision digest disposition reason) f =
     snd (close_attention env pr i revision digest disposition reason f)"
| "queue_effect (SeeRequest cenv pr i) f = snd (inspect_attention cenv pr i f)"
| "queue_effect (SeeRequests cenv pr closed) f = snd (list_attention cenv pr closed f)"

fun queue_call_fits :: "queue_call \<Rightarrow> folder \<Rightarrow> bool" where
  "queue_call_fits (AskHuman env pr v) f = (human_call env pr \<and> fresh_row env f \<and> json_wf v)"
| "queue_call_fits (AnswerRequest env pr i choice revision digest approval) f = human_call env pr"
| "queue_call_fits (ConsumeAnswer env pr i revision digest) f = human_call env pr"
| "queue_call_fits (CloseRequest env pr i revision digest disposition reason) f = human_call env pr"
| "queue_call_fits _ f = True"

text \<open>The folder after a list of calls.\<close>

fun queue_after :: "queue_call list \<Rightarrow> folder \<Rightarrow> folder" where
  "queue_after [] f = f"
| "queue_after (c # cs) f = queue_after cs (queue_effect c f)"

fun queue_calls_fit :: "queue_call list \<Rightarrow> folder \<Rightarrow> bool" where
  "queue_calls_fit [] f = True"
| "queue_calls_fit (c # cs) f = (queue_call_fits c f \<and> queue_calls_fit cs (queue_effect c f))"

lemma queue_after_append [simp]: "queue_after (cs @ ds) f = queue_after ds (queue_after cs f)"
  by (induction cs arbitrary: f) simp_all

lemma queue_calls_fit_append [simp]:
  "queue_calls_fit (cs @ ds) f \<longleftrightarrow> queue_calls_fit cs f \<and> queue_calls_fit ds (queue_after cs f)"
  by (induction cs arbitrary: f) simp_all

lemmas call_steps =
  queue_request [OF _ _ _ prod.collapse [symmetric]] queue_respond [OF _ prod.collapse [symmetric]]
  queue_consume [OF _ prod.collapse [symmetric]] queue_close [OF _ prod.collapse [symmetric]]
  queue_inspect [OF prod.collapse [symmetric]] queue_list [OF prod.collapse [symmetric]]

lemma queue_call_step: "queue_call_fits c f \<Longrightarrow> queue_step f (queue_effect c f)"
  by (cases c) (simp_all add: call_steps)

lemma queue_after_steps: "queue_calls_fit cs f \<Longrightarrow> queue_step\<^sup>*\<^sup>* f (queue_after cs f)"
  by (induction cs arbitrary: f) (auto dest: queue_call_step intro: converse_rtranclp_into_rtranclp)

text \<open>A call that gives a row an answer it did not have is that of an operator.\<close>

definition had_answer :: "folder \<Rightarrow> human_row \<Rightarrow> human_response option \<Rightarrow> bool" where
  "had_answer f r a = (\<exists>rs s. current queue_format f = Some rs \<and> s \<in> set rs \<and> hw_request_id s = hw_request_id r
     \<and> hw_fingerprint s = hw_fingerprint r \<and> hw_response s = a)"

definition operator_gave :: "queue_call \<Rightarrow> human_row \<Rightarrow> human_response \<Rightarrow> bool" where
  "operator_gave c r p = (\<exists>env pr revision approval.
     c = AnswerRequest env pr (hw_request_id r) (hp_choice p) revision (JStr (hw_fingerprint r)) approval
     \<and> pr_role pr = ''operator'' \<and> pr_subject pr = hp_actor p)"

lemma call_answers:
  assumes s: "attention.sound f" and "queue_call_fits c f" "current queue_format (queue_effect c f) = Some rs'" "r' \<in> set rs'" "hw_response r' = Some p"
  shows "had_answer f r' (Some p) \<or> operator_gave c r' p \<and> had_answer f r' None"
proof -
  have quiet: ?thesis if "queue_recorded no_new_answer f (queue_effect c f)"
    using that assms(3-5) unfolding queue_recorded_def no_new_answer_def had_answer_def by fastforce
  show ?thesis
  proof (cases c)
    case (AskHuman env pr v)
    then have "human_call env pr" "fresh_row env f" "json_wf v" using assms(2) by simp_all
    from queue_recorded_mono [OF request_recorded [OF s this prod.collapse [symmetric]]] have "queue_recorded no_new_answer f (queue_effect c f)"
      unfolding AskHuman queue_effect.simps by (blast intro: request_no_answer)
    then show ?thesis by (rule quiet)
  next
    case (ConsumeAnswer env pr i revision digest)
    then have "human_call env pr" using assms(2) by simp_all
    from queue_recorded_mono [OF consume_recorded [OF s this prod.collapse [symmetric]]] have "queue_recorded no_new_answer f (queue_effect c f)"
      unfolding ConsumeAnswer queue_effect.simps by (blast intro: consume_no_answer)
    then show ?thesis by (rule quiet)
  next
    case (CloseRequest env pr i revision digest disposition reason)
    then have "human_call env pr" using assms(2) by simp_all
    from queue_recorded_mono [OF close_recorded [OF s this prod.collapse [symmetric]]] have "queue_recorded no_new_answer f (queue_effect c f)"
      unfolding CloseRequest queue_effect.simps by (blast intro: close_no_answer)
    then show ?thesis by (rule quiet)
  next
    case (AnswerRequest env pr i choice revision digest approval)
    from respond_recorded [OF s _ prod.collapse [symmetric]] assms(2) AnswerRequest
    have rec: "queue_recorded (\<lambda>rs rs'. queue_evolves rs rs' \<and> pr_role pr = ''operator''
        \<and> (\<exists>x. respond_body env pr i choice revision digest approval rs = Inr (x, rs'))) f (queue_effect c f)" by simp
    consider "current queue_format (queue_effect c f) = current queue_format f"
      | rs x where "current queue_format f = Some rs" "pr_role pr = ''operator''"
        "respond_body env pr i choice revision digest approval rs = Inr (x, rs')"
      using rec assms(3) unfolding queue_recorded_def by auto
    then show ?thesis
    proof cases
      case 1
      then have "current queue_format f = Some rs'" using assms(3) by simp
      then have "had_answer f r' (Some p)" using assms(4,5) by (auto simp: had_answer_def)
      then show ?thesis ..
    next
      case (2 rs x)
      have "queue_ok rs" using s 2(1) by (auto elim: attention.sound_current)
      from respond_answers [OF this 2(3) assms(4,5)] 2(1,2) AnswerRequest show ?thesis
        unfolding had_answer_def operator_gave_def by blast
    qed
  next
    case (SeeRequest cenv pr i)
    then show ?thesis by (intro quiet) (simp add: views_recorded(1) [OF s prod.collapse [symmetric]])
  next
    case (SeeRequests cenv pr closed)
    then show ?thesis by (intro quiet) (simp add: views_recorded(2) [OF s prod.collapse [symmetric]])
  qed
qed

lemma answers_have_operator:
  assumes "queue_calls_fit calls empty_folder" "current queue_format (queue_after calls empty_folder) = Some rs" "r \<in> set rs" "hw_response r = Some p"
  shows "\<exists>earlier c later. calls = earlier @ c # later \<and> operator_gave c r p \<and> had_answer (queue_after earlier empty_folder) r None"
  using assms
proof (induction calls arbitrary: rs r rule: rev_induct)
  case Nil
  then show ?case by (simp add: current_def empty_folder_def queue_format_def)
next
  case (snoc c calls)
  have "attention.sound (queue_after calls empty_folder)"
    using snoc.prems(1) queue_after_steps queue_runs_sound by simp
  moreover have "queue_call_fits c (queue_after calls empty_folder)" using snoc.prems(1) by simp
  moreover have "current queue_format (queue_effect c (queue_after calls empty_folder)) = Some rs" using snoc.prems(2) by simp
  ultimately have "had_answer (queue_after calls empty_folder) r (Some p)
      \<or> operator_gave c r p \<and> had_answer (queue_after calls empty_folder) r None"
    using snoc.prems(3,4) by (rule call_answers)
  then show ?case
  proof
    assume "had_answer (queue_after calls empty_folder) r (Some p)"
    then obtain rs0 s where s: "current queue_format (queue_after calls empty_folder) = Some rs0" "s \<in> set rs0"
      "hw_request_id s = hw_request_id r" "hw_fingerprint s = hw_fingerprint r" "hw_response s = Some p"
      by (auto simp: had_answer_def)
    from snoc.IH [OF _ s(1,2,5)] snoc.prems(1) obtain earlier d later where
      "calls = earlier @ d # later" "operator_gave d s p" "had_answer (queue_after earlier empty_folder) s None" by auto
    then have "calls @ [c] = earlier @ d # later @ [c]" "operator_gave d r p" "had_answer (queue_after earlier empty_folder) r None"
      using s(3,4) by (simp_all add: operator_gave_def had_answer_def)
    then show ?thesis by blast
  next
    assume "operator_gave c r p \<and> had_answer (queue_after calls empty_folder) r None"
    then show ?thesis by blast
  qed
qed

end
