(* ===== verification/AttentionSamples.thy ===== *)
theory AttentionSamples
  imports AttentionLaws PermissionGuarantees
begin

text \<open>One blocked operation, the question about it, the operator's answer and its consumption.\<close>

definition blocked_context :: op_context where
  "blocked_context = \<lparr>hc_owner = ''a'', hc_operation_id = ''o'', hc_attempt = 1, hc_task_id = ''t'', hc_allocation_id = ''n'',
     hc_runtime = ''r'', hc_conversation_id = ''c'', hc_account = ''n'', hc_target = ''a'', hc_action = ''refresh.self'',
     hc_effect_scope = ''self'', hc_policy_root = ''/wake'', hc_policy_revision = 1, hc_operation_state = ''blocked''\<rparr>"

definition blocked_request :: human_request where
  "blocked_request = \<lparr>hr_key = ''k'', hr_kind = ''decision'', hr_question = ''go on?'', hr_options = [''accept'', ''decline''],
     hr_evidence = [''e''], hr_priority = ''normal'', hr_expires_at = JInt 500, hr_context = blocked_context,
     hr_permission_decision = False\<rparr>"

definition bare_roots :: roots where
  "bare_roots = (\<lambda>_. \<lparr>rt_link = None, rt_policy = None, rt_adopted = None\<rparr>)"

text \<open>The validator of the feature that owns the operation: it still finds it blocked.\<close>

definition human_at :: "json \<Rightarrow> human_env" where
  "human_at now = \<lparr>hv_call = quiet_call, hv_root = ''/wake'', hv_roots = bare_roots, hv_perm = host_env, hv_eval = host_env,
     hv_validator = Some (\<lambda>_. Inr (context_json blocked_context)), hv_created = now, hv_checked = now, hv_rechecked = now,
     hv_event = now, hv_uuid = ''1''\<rparr>"

definition asked_row :: human_row where
  "asked_row = with_event (human_at (JInt 100)) EvRequested agent JNull (new_row (human_at (JInt 100)) (request_json blocked_request) blocked_request)"

definition answered_row :: human_row where
  "answered_row = answered (human_at (JInt 200)) operator ''accept'' None asked_row"

definition consumed_row :: human_row where
  "consumed_row = with_event (human_at (JInt 300)) EvConsumed agent (JStr ''response_1'') (answered_row\<lparr>hw_status := RowConsumed\<rparr>)"

definition queue_folder :: "human_row \<Rightarrow> folder" where
  "queue_folder r = \<lparr>fo_held = False, fo_text = Some (queue_text [r]), fo_marker = True\<rparr>"

lemma human_at_simps [simp]:
  "hv_call (human_at n) = quiet_call" "hv_event (human_at n) = n" "hv_created (human_at n) = n" "hv_uuid (human_at n) = ''1''"
  "hv_checked (human_at n) = n" "hv_rechecked (human_at n) = n"
  "hv_validator (human_at n) = Some (\<lambda>_. Inr (context_json blocked_context))"
  by (simp_all add: human_at_def)

lemma principals_ok [simp]: "principal_ok agent" "principal_ok operator" "pr_role agent = ''session''" "pr_subject agent = ''a''"
  by (simp_all add: principal_ok_def agent_def operator_def)

lemma blocked_reads: "context_of (context_json blocked_context) = Some blocked_context"
  by (simp add: context_of_def context_json_def blocked_context_def has_fields_def context_fields_def jget_def bounded_text_def positive_int_def)

lemma request_reads: "request_of (request_json blocked_request) = Inr blocked_request"
proof -
  have "jget [(''key'', JStr (hr_key q)), (''kind'', JStr (hr_kind q)), (''question'', JStr (hr_question q)),
       (''options'', JArr (map JStr (hr_options q))), (''evidence'', JArr (map JStr (hr_evidence q))),
       (''priority'', JStr (hr_priority q)), (''expires_at'', hr_expires_at q), (''context'', context_json (hr_context q)),
       (''permission_decision'', JBool (hr_permission_decision q))] ''context'' = context_json (hr_context q)" for q
    by (simp add: jget_def)
  then show ?thesis
    by (simp add: request_of_def request_json_def has_fields_def request_fields_def blocked_reads blocked_request_def shape_of_def)
       (simp add: jget_def bounded_text_def one_of_def number_of_def is_reading_def flag_of_def texts_of_def blocked_reads)
qed

lemma no_policy: "check_permission (human_at n) a pr r = Inr ()" "open_store host_env bare_roots ''/wake'' = Inr \<lparr>st_root = ''/wake'',
    st_execution_root = ''/wake'', st_routing_error = False\<rparr>" "\<not> active_store bare_roots \<lparr>st_root = ''/wake'', st_execution_root = ''/wake'', st_routing_error = False\<rparr>"
proof -
  show o: "open_store host_env bare_roots ''/wake'' = Inr \<lparr>st_root = ''/wake'', st_execution_root = ''/wake'', st_routing_error = False\<rparr>"
    by (simp add: open_store_def bare_roots_def)
  show a: "\<not> active_store bare_roots \<lparr>st_root = ''/wake'', st_execution_root = ''/wake'', st_routing_error = False\<rparr>"
    by (simp add: active_store_def bare_roots_def)
  show "check_permission (human_at n) a pr r = Inr ()"
    using o a by (simp add: check_permission_def check_operation_def human_at_def)
qed

lemma policy_passes: "\<not> reached (hr_expires_at (hw_request r)) m \<Longrightarrow> current_policy (human_at n) m r = Inr ()"
  using no_policy(2,3) by (simp add: current_policy_def human_at_def Let_def)

lemma live_passes:
  assumes "hw_request r = blocked_request" "\<not> reached (JInt 500) n"
  shows "check_live (human_at n) r = Inr ()"
proof -
  have "current_policy (human_at n) n r = Inr ()" using assms by (intro policy_passes) (simp add: blocked_request_def)
  then show ?thesis
    using assms by (simp add: check_live_def blocked_reads) (simp add: blocked_request_def blocked_context_def)
qed

lemma decision_passes: "hw_request r = blocked_request \<Longrightarrow> \<not> reached (JInt 500) n \<Longrightarrow> check_decision (human_at n) r = Inr ()"
  by (simp add: check_decision_def live_passes)

lemma row_requests [simp]: "hw_request asked_row = blocked_request" "hw_request answered_row = blocked_request"
  "hw_request consumed_row = blocked_request" "hw_request_id asked_row = ''attention_1''" "hw_request_id answered_row = ''attention_1''"
  "hw_request_id consumed_row = ''attention_1''"
  by (simp_all add: asked_row_def answered_row_def consumed_row_def new_row_def)

lemma row_statuses [simp]: "hw_status asked_row = RowOpen" "hw_status answered_row = RowResponded" "hw_status consumed_row = RowConsumed"
  by (simp_all add: asked_row_def answered_row_def consumed_row_def new_row_def blocked_request_def)

lemma not_reached [simp]: "\<not> reached (JInt 500) (JInt 100)" "\<not> reached (JInt 500) (JInt 200)" "\<not> reached (JInt 500) (JInt 300)"
  by (simp_all add: reached_def)

lemma expiry [simp]: "hr_expires_at blocked_request = JInt 500" "hr_kind blocked_request = ''decision''"
  "hr_options blocked_request = [''accept'', ''decline'']" "\<not> hr_permission_decision blocked_request"
  "hc_owner blocked_context = ''a''" "hr_context blocked_request = blocked_context"
  by (simp_all add: blocked_request_def blocked_context_def)

section \<open>The texts fit\<close>

lemma fingerprint_text: "length (dumps_str True (request_fingerprint v)) \<le> 400"
proof -
  have "length (concat (map (escape_char True) (request_fingerprint v))) \<le> 6 * length (request_fingerprint v)"
    by (rule escape_length)
  also have "\<dots> = 384" by (simp add: request_fingerprint_def length_sha256_hex)
  finally show ?thesis by (simp add: dumps_str_def)
qed

lemma queue_fits: "r \<in> {asked_row, answered_row, consumed_row} \<Longrightarrow> utf8_len (queue_text [r]) \<le> int max_bytes"
proof (rule fits_of_length)
  define d where "d = request_fingerprint (request_json blocked_request)"
  have d: "length (concat (map (escape_char True) d)) \<le> 400"
    using fingerprint_text [of "request_json blocked_request"] by (simp add: d_def dumps_str_def)
  assume "r \<in> {asked_row, answered_row, consumed_row}"
  then show "length (queue_text [r]) \<le> 2000000"
  proof (elim insertE emptyE)
    assume r: "r = asked_row"
    show ?thesis
      using d unfolding r asked_row_def new_row_def d_def [symmetric]
      by (simp add: queue_text_def dumps_def queue_json_def row_json_def request_json_def context_json_def human_event_json_def
          with_event_def response_json_def approval_json_def status_name_def event_name_def detail_field_def blocked_request_def
          blocked_context_def dumps_str_def escape_char_def int_str_def nat_str.simps digit_char_def)
  next
    assume r: "r = answered_row"
    show ?thesis
      using d unfolding r answered_row_def asked_row_def new_row_def d_def [symmetric]
      by (simp add: queue_text_def dumps_def queue_json_def row_json_def request_json_def context_json_def human_event_json_def
          with_event_def response_json_def approval_json_def status_name_def event_name_def detail_field_def blocked_request_def answered_def
          blocked_context_def dumps_str_def escape_char_def int_str_def nat_str.simps digit_char_def Let_def agent_def operator_def)
  next
    assume r: "r = consumed_row"
    show ?thesis
      using d unfolding r consumed_row_def answered_row_def asked_row_def new_row_def d_def [symmetric]
      by (simp add: queue_text_def dumps_def queue_json_def row_json_def request_json_def context_json_def human_event_json_def
          with_event_def response_json_def approval_json_def status_name_def event_name_def detail_field_def blocked_request_def answered_def
          blocked_context_def dumps_str_def escape_char_def int_str_def nat_str.simps digit_char_def Let_def agent_def operator_def)
  qed
qed

section \<open>The three calls\<close>

lemma blocked_ok: "request_ok blocked_request"
  by (simp add: request_ok_def request_reads is_reading_def)

lemma asked_ok: "row_ok asked_row"
proof -
  have "history_valid asked_row" "response_valid asked_row"
    by (simp_all add: history_valid_def response_valid_def events_of_kind_def last_event_def expected_last_def asked_row_def new_row_def)
  then show ?thesis
    using blocked_ok by (simp add: row_ok_def event_ok_def) (simp add: asked_row_def new_row_def is_reading_def)
qed

lemma answered_step: "row_step asked_row answered_row"
  unfolding answered_row_def
  by (rule row_answer) (simp_all add: is_reading_def needs_approval_def)

lemma answered_response: "\<exists>p. hw_response answered_row = Some p \<and> hp_response_id p = ''response_1'' \<and> hp_choice p = ''accept''
    \<and> hp_actor p = ''op'' \<and> hp_approval p = None"
  by (simp add: answered_row_def)

lemma consumed_step: "row_step answered_row consumed_row"
proof -
  obtain p where "hw_response answered_row = Some p" "hp_response_id p = ''response_1''" using answered_response by blast
  from row_consume [OF _ this(1), of "human_at (JInt 300)" agent] this(2) show ?thesis
    unfolding consumed_row_def by (simp add: is_reading_def)
qed

lemma one_row_ok: "row_ok r \<Longrightarrow> queue_ok [r]"
  by (simp add: queue_ok_def)

lemma rows_ok: "queue_ok [asked_row]" "queue_ok [answered_row]" "queue_ok [consumed_row]"
  using asked_ok row_ok_step [OF asked_ok answered_step] row_ok_step [OF row_ok_step [OF asked_ok answered_step] consumed_step]
  by (simp_all add: one_row_ok)

lemma folder_reads:
  assumes "r \<in> {asked_row, answered_row, consumed_row}"
  shows "current queue_format (queue_folder r) = Some [r]" "attention.sound (queue_folder r)"
proof -
  have ok: "queue_ok [r]" using assms rows_ok by auto
  note fits = queue_fits [OF assms]
  have "read_state queue_format (queue_text [r]) = Some [r]"
    using attention.read_encode [OF ok] fits by (simp add: queue_format_def)
  then show "current queue_format (queue_folder r) = Some [r]" by (simp add: current_def queue_folder_def)
  have "ff_encode queue_format = queue_text" by (simp add: queue_format_def)
  then show "attention.sound (queue_folder r)" using ok fits by (auto simp: attention.sound_def queue_folder_def)
qed

lemma accepted_call:
  assumes "r \<in> {asked_row, answered_row, consumed_row}" "r' \<in> {asked_row, answered_row, consumed_row}" "body [r] = Inr (x, [r'])"
    "hv_call env = quiet_call"
  shows "queue_transaction env body (queue_folder r) = (Inr x, queue_folder r')"
proof -
  have "validated_body body [r] = Inr (x, [r'])"
    using assms(2,3) rows_ok queue_of_plain [of "[r']"] by (auto simp: validated_body_def)
  moreover have "fo_text (queue_folder r) \<noteq> None" "\<not> fo_held (queue_folder r)" "clear_call quiet_call"
    by (simp_all add: queue_folder_def)
  moreover have e: "ff_encode queue_format [r'] = queue_text [r']" by (simp add: queue_format_def)
  ultimately have "transaction queue_format True quiet_call (validated_body body) (queue_folder r)
      = (Inr x, (queue_folder r)\<lparr>fo_marker := True, fo_text := Some (ff_encode queue_format [r'])\<rparr>)"
    using queue_fits [OF assms(2)] folder_reads [OF assms(1)] by (intro attention.transaction_clear) simp_all
  then show ?thesis using e assms(4) by (simp add: queue_transaction_def queue_folder_def)
qed

lemma first_request: "request_attention (human_at (JInt 100)) agent (request_json blocked_request) empty_folder = (Inr asked_row, queue_folder asked_row)"
proof -
  have own: "check_owner agent (new_row (human_at (JInt 100)) (request_json blocked_request) blocked_request) = Inr ()"
    by (simp add: check_owner_def new_row_def)
  have body: "request_body (human_at (JInt 100)) agent (new_row (human_at (JInt 100)) (request_json blocked_request) blocked_request) []
      = Inr (asked_row, [asked_row])"
    using policy_passes [of "new_row (human_at (JInt 100)) (request_json blocked_request) blocked_request" "JInt 100"]
      decision_passes [of "new_row (human_at (JInt 100)) (request_json blocked_request) blocked_request" "JInt 100"]
    by (simp add: request_body_def no_policy(1) asked_row_def Let_def) (simp add: new_row_def)
  have "validated_body (request_body (human_at (JInt 100)) agent (new_row (human_at (JInt 100)) (request_json blocked_request) blocked_request)) []
      = Inr (asked_row, [asked_row])"
    using body rows_ok(1) queue_of_plain [of "[asked_row]"] by (simp add: validated_body_def)
  moreover have "utf8_len (queue_text []) \<le> int max_bytes"
    using attention.fits_empty by (simp add: queue_format_def)
  ultimately show ?thesis
    using own queue_fits [of asked_row] request_reads
    by (simp add: request_attention_def queue_transaction_def transaction_def opened_def empty_folder_def quiet_call_def
        ensure_marker_def queue_format_def publish_text_def queue_folder_def)
qed

lemma answer_given: "respond_attention (human_at (JInt 200)) operator ''attention_1'' ''accept'' (JInt 1) (JStr (hw_fingerprint asked_row)) None
    (queue_folder asked_row) = (Inr answered_row, queue_folder answered_row)"
proof -
  have rev: "hw_revision asked_row = 1" by (simp add: asked_row_def new_row_def)
  have "respond_body (human_at (JInt 200)) operator ''attention_1'' ''accept'' (JInt 1) (JStr (hw_fingerprint asked_row)) None [asked_row]
      = Inr (answered_row, [answered_row])"
    using policy_passes [of asked_row "JInt 200"] decision_passes [of asked_row "JInt 200"]
    by (simp add: respond_body_def find_row_def check_expected_def rev no_policy(1) needs_approval_def Let_def put_request_def update_where_def)
       (simp add: answered_row_def)
  then show ?thesis by (simp add: respond_attention_def accepted_call)
qed

lemma answer_consumed: "\<exists>a. consume_attention (human_at (JInt 300)) agent ''attention_1'' (JInt 2) (JStr (hw_fingerprint asked_row))
    (queue_folder answered_row) = (Inr a, queue_folder consumed_row) \<and> hz_choice a = ''accept''"
proof -
  obtain p where p: "hw_response answered_row = Some p" "hp_response_id p = ''response_1''" "hp_choice p = ''accept''"
    using answered_response by blast
  have rev: "hw_revision answered_row = 2" "hw_fingerprint answered_row = hw_fingerprint asked_row"
    by (simp_all add: answered_row_def asked_row_def new_row_def)
  have "consume_body (human_at (JInt 300)) agent ''attention_1'' (JInt 2) (JStr (hw_fingerprint asked_row)) [answered_row]
      = Inr (answer_of consumed_row p, [consumed_row])"
    using live_passes [of answered_row "JInt 300"] p
    by (simp add: consume_body_def find_row_def check_expected_def check_owner_def rev no_policy(1) needs_approval_def Let_def
        put_request_def update_where_def consumed_row_def [symmetric])
  then have "consume_attention (human_at (JInt 300)) agent ''attention_1'' (JInt 2) (JStr (hw_fingerprint asked_row)) (queue_folder answered_row)
      = (Inr (answer_of consumed_row p), queue_folder consumed_row)"
    by (simp add: consume_attention_def accepted_call)
  then show ?thesis using p(3) by (simp add: answer_of_def)
qed

section \<open>The run\<close>

lemma calls_ok: "human_call (human_at (JInt n)) agent" "human_call (human_at (JInt n)) operator" "fresh_row env empty_folder"
  by (simp_all add: human_call_def is_reading_def fresh_row_def empty_folder_def current_def queue_format_def)

lemma run_asked: "queue_step\<^sup>*\<^sup>* empty_folder (queue_folder asked_row)"
proof (rule r_into_rtranclp)
  have "json_wf (request_json blocked_request)" by (simp add: is_reading_def)
  then show "queue_step empty_folder (queue_folder asked_row)" by (rule queue_request [OF calls_ok(1,3) _ first_request])
qed

lemma run_answered: "queue_step\<^sup>*\<^sup>* empty_folder (queue_folder answered_row)"
  using run_asked queue_respond [OF calls_ok(2) answer_given] by (rule rtranclp.rtrancl_into_rtrancl)

lemma run_consumed: "queue_step\<^sup>*\<^sup>* empty_folder (queue_folder consumed_row)"
  using run_answered answer_consumed queue_consume [OF calls_ok(1)] by (metis rtranclp.rtrancl_into_rtrancl)

end
