(* ===== verification/AttentionGuarantees.thy ===== *)
theory AttentionGuarantees
  imports AttentionSamples
begin

text \<open>The guarantees of the attention queue, each over any history of calls that begins with an empty folder.\<close>

section \<open>Consuming an answer\<close>

text \<open>C18. An answer is consumed only while its operation is still blocked: by the operator or the owner, who names the current revision
  and the fingerprint of the request; the validator has just observed exactly the retained context, blocked; the
  request is not expired; where a policy is active it is the one and at the revision of the request; and an accepted
  permission decision rests on an approval that the policy holds now and that grants the effect to the owner.\<close>

theorem consumed_only_while_blocked:
  assumes "queue_step\<^sup>*\<^sup>* empty_folder f" "human_call env pr"
    and "consume_attention env pr i revision digest f = (Inr a, f')"
  shows "\<exists>rs r p c. current queue_format f = Some rs \<and> r \<in> set rs \<and> hw_request_id r = i \<and> hw_status r = RowResponded
    \<and> hw_response r = Some p \<and> c = hr_context (hw_request r)
    \<and> (pr_role pr = ''operator'' \<or> pr_subject pr = hc_owner c)
    \<and> revision = JInt (int (length (hw_history r))) \<and> digest = JStr (sha256_hex (dumps True (request_json (hw_request r))))
    \<and> (\<exists>observe v. hv_validator env = Some observe \<and> observe r = Inr v \<and> context_of v = Some c) \<and> hc_operation_state c = ''blocked''
    \<and> \<not> reached (hr_expires_at (hw_request r)) (hv_rechecked env)
    \<and> (\<exists>s. open_store (hv_perm env) (hv_roots env) (hv_root env) = Inr s
         \<and> (active_store (hv_roots env) s \<longrightarrow> st_root s = hc_policy_root c
              \<and> (\<exists>sv. read_policy (hv_perm env) (hv_roots env) s = Inr sv \<and> sv_revision sv = hc_policy_revision c)))
    \<and> (hr_permission_decision (hw_request r) \<and> hp_choice p = ''accept'' \<longrightarrow>
         (\<exists>ref s sv d. hp_approval p = Some ref \<and> open_store (hv_eval env) (hv_roots env) (hv_root env) = Inr s
            \<and> read_policy (hv_eval env) (hv_roots env) s = Inr sv \<and> JObj d \<in> set (member_list (sv_policy sv) ''approvals'')
            \<and> jget d ''id'' = JStr (hf_approval_id ref) \<and> grants d (owner_principal c) (effect_question c) (se_now (hv_eval env))))
    \<and> hz_choice a = hp_choice p \<and> hz_context a = c \<and> \<not> hz_executes_operation a \<and> \<not> hz_grants_permission a"
proof -
  note s = queue_runs_sound [OF assms(1)]
  obtain rs rs' where rs: "current queue_format f = Some rs" "queue_ok rs" "consume_body env pr i revision digest rs = Inr (a, rs')"
    using consume_answered [OF s assms(2,3)] by metis
  obtain r p where r: "r \<in> set rs" "hw_request_id r = i" "check_owner pr r = Inr ()" "check_expected r revision digest = Inr ()"
    "hw_status r = RowResponded" "hr_kind (hw_request r) = ''decision''" "check_permission env ''attention.consume'' pr r = Inr ()"
    "check_live env r = Inr ()" "hw_response r = Some p"
    "needs_approval r (hp_choice p) \<longrightarrow> (\<exists>a b. hp_approval p = Some a \<and> find_approval env r (Some (hf_approval_id a)) = Inr b)"
    "a = answer_of (with_event env EvConsumed pr (JStr (hp_response_id p)) (r\<lparr>hw_status := RowConsumed\<rparr>)) p"
    "rs' = put_request (with_event env EvConsumed pr (JStr (hp_response_id p)) (r\<lparr>hw_status := RowConsumed\<rparr>)) rs"
    by (rule consume_body_Inr [OF rs(3)])
  let ?c = "hr_context (hw_request r)"
  have ok: "row_ok r" using rs(2) r(1) by (simp add: queue_ok_def)
  note live = check_live_Inr [OF r(8)]
  note policy = current_policy_Inr [OF live(1)]
  have own: "pr_role pr = ''operator'' \<or> pr_subject pr = hc_owner ?c" using r(3) by (simp add: check_owner_def)
  have named: "revision = JInt (int (length (hw_history r)))" "digest = JStr (sha256_hex (dumps True (request_json (hw_request r))))"
    using r(4) ok by (simp_all add: check_expected_def row_ok_def history_valid_def request_fingerprint_def)
  have approval: "hr_permission_decision (hw_request r) \<and> hp_choice p = ''accept'' \<longrightarrow>
         (\<exists>ref s sv d. hp_approval p = Some ref \<and> open_store (hv_eval env) (hv_roots env) (hv_root env) = Inr s
            \<and> read_policy (hv_eval env) (hv_roots env) s = Inr sv \<and> JObj d \<in> set (member_list (sv_policy sv) ''approvals'')
            \<and> jget d ''id'' = JStr (hf_approval_id ref) \<and> grants d (owner_principal ?c) (effect_question ?c) (se_now (hv_eval env)))"
    using r(10) find_approval_grants unfolding needs_approval_def by metis
  have ans: "hz_choice a = hp_choice p" "hz_context a = ?c" "\<not> hz_executes_operation a" "\<not> hz_grants_permission a"
    by (simp_all add: r(11) answer_of_def)
  show ?thesis
    by (intro exI [of _ rs] exI [of _ r] exI [of _ p] exI [of _ ?c] conjI refl rs(1) r(1,2,5,9) own named live(2,3) policy approval ans)
qed

theorem consumed_only_while_blocked_witness:
  "\<exists>a. consume_attention (human_at (JInt 300)) agent ''attention_1'' (JInt 2) (JStr (hw_fingerprint asked_row)) (queue_folder answered_row)
     = (Inr a, queue_folder consumed_row) \<and> hz_context a = blocked_context \<and> hc_operation_state blocked_context = ''blocked''"
proof -
  obtain a where a: "consume_attention (human_at (JInt 300)) agent ''attention_1'' (JInt 2) (JStr (hw_fingerprint asked_row))
      (queue_folder answered_row) = (Inr a, queue_folder consumed_row)"
    using answer_consumed by blast
  from consumed_only_while_blocked [OF run_answered calls_ok(1) a] obtain rs r where
    "current queue_format (queue_folder answered_row) = Some rs" "r \<in> set rs" "hz_context a = hr_context (hw_request r)"
    "hc_operation_state (hr_context (hw_request r)) = ''blocked''"
    by metis
  with a folder_reads(1) [of answered_row] show ?thesis by auto
qed

text \<open>C19. An answer is consumed once: after an accepted consumption, whatever calls follow, the same request is never consumed,
  answered or closed again.\<close>

theorem answer_is_consumed_once:
  assumes "queue_step\<^sup>*\<^sup>* empty_folder f" "human_call env pr"
    and "consume_attention env pr i revision digest f = (Inr a, f1)" "queue_step\<^sup>*\<^sup>* f1 f2"
  shows "isl (fst (consume_attention env2 pr2 i revision2 digest2 f2))
    \<and> isl (fst (respond_attention env2 pr2 i choice revision2 digest2 approval f2))
    \<and> isl (fst (close_attention env2 pr2 i revision2 digest2 disposition reason f2))"
proof -
  note s = queue_runs_sound [OF assms(1)]
  obtain rs rs' where rs: "consume_body env pr i revision digest rs = Inr (a, rs')" "current queue_format f1 = Some rs'" "attention.sound f1"
    using consume_answered [OF s assms(2,3)] by metis
  obtain r where r: "r \<in> set rs'" "hw_request_id r = i" "hw_status r = RowConsumed" by (rule consumed_row [OF rs(1)])
  obtain rs2 r2 where r2: "current queue_format f2 = Some rs2" "r2 \<in> set rs2" "retained r r2"
    by (rule queue_run_retains [OF assms(4) rs(3,2) r(1)])
  then have "r2 = r" using r(3) by (simp add: retained_def ended_row_def)
  then have e: "r \<in> set rs2" "ended_row r" using r2 r(3) by (simp_all add: ended_row_def)
  from ended_calls [OF queue_run_sound [OF assms(4) rs(3)] r2(1) e] r(2) show ?thesis by simp
qed

theorem answer_is_consumed_once_witness:
  "\<exists>a. consume_attention (human_at (JInt 300)) agent ''attention_1'' (JInt 2) (JStr (hw_fingerprint asked_row)) (queue_folder answered_row)
     = (Inr a, queue_folder consumed_row)
     \<and> isl (fst (consume_attention (human_at (JInt 300)) agent ''attention_1'' (JInt 3) (JStr (hw_fingerprint asked_row)) (queue_folder consumed_row)))"
proof -
  obtain a where a: "consume_attention (human_at (JInt 300)) agent ''attention_1'' (JInt 2) (JStr (hw_fingerprint asked_row))
      (queue_folder answered_row) = (Inr a, queue_folder consumed_row)"
    using answer_consumed by blast
  from answer_is_consumed_once [OF run_answered calls_ok(1) a rtranclp.rtrancl_refl] a show ?thesis by blast
qed

section \<open>What is retained\<close>

text \<open>C20. The queue forgets nothing: whatever calls follow, with writes lost or not, a request that is recorded stays with its question
  and fingerprint, its history is only extended, an answer once given is never changed, and a row that was consumed
  or closed is exactly as it was.\<close>

theorem requests_are_retained:
  assumes "queue_step\<^sup>*\<^sup>* empty_folder f" "queue_step\<^sup>*\<^sup>* f f'" "current queue_format f = Some rs" "r \<in> set rs"
  shows "\<exists>rs' r'. current queue_format f' = Some rs' \<and> r' \<in> set rs' \<and> hw_request_id r' = hw_request_id r
    \<and> hw_request r' = hw_request r \<and> hw_fingerprint r' = hw_fingerprint r \<and> (\<exists>es. hw_history r' = hw_history r @ es)
    \<and> (\<forall>p. hw_response r = Some p \<longrightarrow> hw_response r' = Some p)
    \<and> (hw_status r = RowConsumed \<or> hw_status r = RowClosed \<longrightarrow> r' = r)"
proof -
  obtain rs' r' where "current queue_format f' = Some rs'" "r' \<in> set rs'" "retained r r'"
    by (rule queue_run_retains [OF assms(2) queue_runs_sound [OF assms(1)] assms(3,4)])
  then show ?thesis by (auto simp: retained_def ended_row_def intro: exI [of _ rs'] exI [of _ r'])
qed

theorem requests_are_retained_witness:
  "\<exists>r'. current queue_format (queue_folder consumed_row) = Some [r'] \<and> hw_request r' = blocked_request
     \<and> (\<exists>es. hw_history r' = hw_history asked_row @ es)"
proof -
  have later: "queue_step\<^sup>*\<^sup>* (queue_folder asked_row) (queue_folder consumed_row)"
  proof -
    have "queue_step (queue_folder asked_row) (queue_folder answered_row)" by (rule queue_respond [OF calls_ok(2) answer_given])
    moreover obtain a where "consume_attention (human_at (JInt 300)) agent ''attention_1'' (JInt 2) (JStr (hw_fingerprint asked_row))
        (queue_folder answered_row) = (Inr a, queue_folder consumed_row)"
      using answer_consumed by blast
    then have "queue_step (queue_folder answered_row) (queue_folder consumed_row)" by (rule queue_consume [OF calls_ok(1)])
    ultimately show ?thesis by (rule converse_rtranclp_into_rtranclp [OF _ r_into_rtranclp])
  qed
  have "current queue_format (queue_folder asked_row) = Some [asked_row]" by (rule folder_reads) simp
  from requests_are_retained [OF run_asked later this, of asked_row] folder_reads(1) [of consumed_row] show ?thesis by auto
qed

definition asked_and_answered :: "queue_call list" where
  "asked_and_answered =
     [AskHuman (human_at (JInt 100)) agent (request_json blocked_request),
      AnswerRequest (human_at (JInt 200)) operator ''attention_1'' ''accept'' (JInt 1) (JStr (hw_fingerprint asked_row)) None]"

text \<open>C21. Every answer was given by an operator: in any history of calls that begins with an empty folder, when a row carries a
  response at the end, the history itself holds a call to answer that very request, by an operator whom the response names,
  with exactly the choice of the response and the fingerprint of the request; and before that call the row was there
  without a response.\<close>

theorem answers_come_from_operators:
  assumes "queue_calls_fit calls empty_folder" "current queue_format (queue_after calls empty_folder) = Some rs"
    and "r \<in> set rs" "hw_response r = Some p"
  shows "\<exists>earlier env pr revision approval later rs0 r0.
    calls = earlier @ AnswerRequest env pr (hw_request_id r) (hp_choice p) revision (JStr (hw_fingerprint r)) approval # later
    \<and> pr_role pr = ''operator'' \<and> pr_subject pr = hp_actor p
    \<and> current queue_format (queue_after earlier empty_folder) = Some rs0 \<and> r0 \<in> set rs0
    \<and> hw_request_id r0 = hw_request_id r \<and> hw_fingerprint r0 = hw_fingerprint r \<and> hw_response r0 = None"
  using answers_have_operator [OF assms] unfolding operator_gave_def had_answer_def by blast

theorem answers_come_from_operators_witness:
  "\<exists>p. hw_response answered_row = Some p \<and> current queue_format (queue_after asked_and_answered empty_folder) = Some [answered_row]
     \<and> (\<exists>earlier env pr revision approval later. asked_and_answered
         = earlier @ AnswerRequest env pr ''attention_1'' (hp_choice p) revision (JStr (hw_fingerprint answered_row)) approval # later
         \<and> pr_role pr = ''operator'' \<and> pr_subject pr = hp_actor p)"
proof -
  obtain p where p: "hw_response answered_row = Some p" using answered_response by blast
  have asked: "queue_effect (AskHuman (human_at (JInt 100)) agent (request_json blocked_request)) empty_folder = queue_folder asked_row"
    by (simp add: first_request)
  have answered: "queue_after asked_and_answered empty_folder = queue_folder answered_row"
    unfolding asked_and_answered_def queue_after.simps asked by (simp add: answer_given)
  have "queue_calls_fit asked_and_answered empty_folder"
    unfolding asked_and_answered_def queue_calls_fit.simps asked by (simp add: calls_ok is_reading_def)
  moreover have here: "current queue_format (queue_after asked_and_answered empty_folder) = Some [answered_row]"
    unfolding answered by (rule folder_reads) simp
  ultimately show ?thesis
    using answers_come_from_operators [OF _ here list.set_intros(1) p] p by (simp only: row_requests) blast
qed

end
