(* ===== verification/Budget.thy ===== *)
theory Budget
  imports LockedFile PyTime PyPath Sha256 Complex_Main
begin

text \<open>
  \<open>objective_ledger.py\<close>: the account of one objective.  It holds the authorised limits, what every actor has used or holds
  reserved, the threads of a request transport with their shares, and the obligations whose funds are protected until
  the objective is complete.  This theory has the stored state and the views computed from it.  Times are exact rationals: a
  reading of a clock is the number its decimal text denotes.
\<close>

section \<open>Times and counts\<close>

definition number_value :: "json \<Rightarrow> rat option" where
  "number_value v =
     (case decimal_of v of
        None \<Rightarrow> None
      | Some (m, e) \<Rightarrow> Some (if 0 \<le> e then of_int (m * 10 ^ nat e) else of_int m / of_int (10 ^ nat (- e))))"

definition epoch :: "json \<Rightarrow> rat option" where
  "epoch v =
     (case v of
        JStr s \<Rightarrow> map_option (\<lambda>t. of_int (int (micros t) - 62135596800000000) / 1000000) (parse_time s)
      | _ \<Rightarrow> number_value v)"

definition count_of :: "json \<Rightarrow> int option" where
  "count_of v = (case v of JInt i \<Rightarrow> if i < 0 then None else Some i | _ \<Rightarrow> None)"

section \<open>The configuration\<close>

text \<open>The configuration as it is stored, with the members that are read.\<close>

record budget_terms =
  bt_fields :: "(string, json) dict"
  bt_tokens :: int
  bt_session_tokens :: int
  bt_session_seconds :: int
  bt_cycles :: int
  bt_started :: rat
  bt_deadline :: rat

definition configuration_of :: "json \<Rightarrow> budget_terms option" where
  "configuration_of v =
     (case v of
        JObj d \<Rightarrow>
          do {
            tokens \<leftarrow> count_of (jget d ''objective_token_limit'');
            seconds \<leftarrow> count_of (jget d ''objective_time_limit_seconds'');
            session_tokens \<leftarrow> count_of (jget d ''session_token_limit'');
            session_seconds \<leftarrow> count_of (jget d ''session_time_limit_seconds'');
            cycles \<leftarrow> count_of (jget d ''max_correction_cycles'');
            if \<not> truthy (jget d ''revision'') \<or> 2 < cycles then None
            else do {
              started \<leftarrow> epoch (jget d ''started_at'');
              deadline \<leftarrow> epoch (jget d ''objective_deadline'');
              if deadline < started then None
              else Some \<lparr>bt_fields = d, bt_tokens = tokens, bt_session_tokens = session_tokens, bt_session_seconds = session_seconds,
                bt_cycles = cycles, bt_started = started, bt_deadline = deadline\<rparr> } }
      | _ \<Rightarrow> None)"

definition same_terms :: "budget_terms \<Rightarrow> budget_terms \<Rightarrow> bool" where
  "same_terms c c' = py_eq (JObj (bt_fields c)) (JObj (bt_fields c'))"

section \<open>Actors and threads\<close>

text \<open>The terms of an actor: a reservation, or the quota of a native goal.\<close>

datatype actor_terms = ReservedTerms int int | GoalTerms int

record budget_actor =
  ba_terms :: "actor_terms option"
  ba_reservation :: int
  ba_used :: int
  ba_settled :: bool
  ba_known :: bool
  ba_deadline :: "rat option"
  ba_thread :: "string option"
  ba_purpose :: "string option"

record budget_session =
  bs_prior :: int
  bs_deadline :: rat
  bs_parent :: "string option"
  bs_provenance :: json
  bs_group :: "string option"
  bs_purpose :: "string option"

record request_proof =
  rp_actor :: string
  rp_tokens :: "int option"
  rp_fingerprint :: json

definition same_proof :: "request_proof \<Rightarrow> request_proof \<Rightarrow> bool" where
  "same_proof p q = (rp_actor p = rp_actor q \<and> rp_tokens p = rp_tokens q \<and> py_eq (rp_fingerprint p) (rp_fingerprint q))"

section \<open>Completion obligations\<close>

datatype obligation_state = Pending | Completed | Deferred

text \<open>A pinned source: path and digest.\<close>

type_synonym source_pin = "string \<times> string"

record disposition =
  ds_state :: obligation_state
  ds_source :: source_pin
  ds_note :: string

record obligation =
  og_id :: string
  og_kind :: string
  og_tokens :: int
  og_seconds :: int
  og_criterion :: string
  og_state :: obligation_state
  og_disposition :: "disposition option"
  og_started :: bool

record completion_plan =
  pl_source :: source_pin
  pl_obligations :: "(string \<times> obligation) list"

datatype completion_event =
    AssignedThread string string source_pin rat
  | DisposedOf obligation_state string source_pin string rat

section \<open>The ledger\<close>

record authorization =
  au_action :: string
  au_terms :: budget_terms
  au_approval :: json
  au_at :: rat

text \<open>Members that are absent until they are first set are empty here; an absent binding is \<^const>\<open>JNull\<close>.\<close>

record objective =
  ol_terms :: budget_terms
  ol_original_deadline :: json
  ol_prior :: int
  ol_actors :: "(string \<times> budget_actor) list"
  ol_cycles :: int
  ol_authorizations :: "authorization list"
  ol_observed :: rat
  ol_aliases :: "(string \<times> string \<times> int) list"
  ol_binding :: json
  ol_sessions :: "(string \<times> budget_session) list"
  ol_completions :: "(string \<times> request_proof) list"
  ol_plan :: "completion_plan option"
  ol_plan_history :: "completion_event list"
  ol_decisions :: "(string \<times> bool) list"

definition bound_to_requests :: "objective \<Rightarrow> bool" where
  "bound_to_requests s = truthy (ol_binding s)"

section \<open>What is used and what is held\<close>

definition sum_values :: "('a \<Rightarrow> int) \<Rightarrow> (string \<times> 'a) list \<Rightarrow> int" where
  "sum_values f d = sum_list (map (\<lambda>(k, x). f x) d)"

definition held :: "budget_actor \<Rightarrow> int" where
  "held a = (if ba_settled a then 0 else max 0 (ba_reservation a - ba_used a))"

definition charged :: "budget_actor \<Rightarrow> int" where
  "charged a = (if ba_settled a then ba_used a else max (ba_reservation a) (ba_used a))"

definition tokens_used :: "objective \<Rightarrow> int" where
  "tokens_used s = ol_prior s + sum_values ba_used (ol_actors s)"

definition tokens_reserved :: "objective \<Rightarrow> int" where
  "tokens_reserved s = sum_values held (ol_actors s)"

definition accounting_known :: "objective \<Rightarrow> bool" where
  "accounting_known s = list_all (\<lambda>(i, a). ba_known a) (ol_actors s)"

definition remaining_tokens :: "objective \<Rightarrow> int" where
  "remaining_tokens s = max 0 (bt_tokens (ol_terms s) - tokens_used s - tokens_reserved s)"

definition deadline_passed :: "objective \<Rightarrow> rat \<Rightarrow> bool" where
  "deadline_passed s now = (bt_deadline (ol_terms s) \<le> max now (ol_observed s))"

definition ledger_state :: "objective \<Rightarrow> rat \<Rightarrow> string" where
  "ledger_state s now =
     (if \<not> accounting_known s then ''accounting_unknown''
      else if deadline_passed s now \<or> remaining_tokens s = 0 then ''exhausted'' else ''ready'')"

section \<open>The completion path\<close>

record obligation_view =
  ov_obligation :: obligation
  ov_charged :: int
  ov_charged_seconds :: int
  ov_tokens :: int
  ov_seconds :: int

record completion_view =
  cn_source :: source_pin
  cn_obligations :: "(string \<times> obligation_view) list"
  cn_tokens :: int
  cn_seconds :: int
  cn_pending :: "string list"
  cn_deferred :: "string list"
  cn_feasible :: bool
  cn_completed :: bool
  cn_deadline :: rat
  cn_available :: rat
  cn_outcome :: string

text \<open>The seconds of a reservation; only requests serve an obligation, and their terms are reservations.\<close>

definition reserved_seconds :: "budget_actor \<Rightarrow> int" where
  "reserved_seconds a = (case ba_terms a of Some (ReservedTerms tokens seconds) \<Rightarrow> seconds | _ \<Rightarrow> 0)"

definition serving :: "objective \<Rightarrow> string \<Rightarrow> (string \<times> budget_actor) list" where
  "serving s name = filter (\<lambda>(i, a). ba_purpose a = Some name) (ol_actors s)"

definition obligation_status :: "objective \<Rightarrow> string \<Rightarrow> obligation \<Rightarrow> obligation_view" where
  "obligation_status s name ob =
     (let c = sum_values charged (serving s name);
          n = sum_values reserved_seconds (serving s name);
          closed = (og_state ob = Completed)
      in \<lparr>ov_obligation = ob, ov_charged = c, ov_charged_seconds = n,
          ov_tokens = (if closed then 0 else max 0 (og_tokens ob - c)),
          ov_seconds = (if closed then 0 else max 0 (og_seconds ob - n))\<rparr>)"

definition path_deadline :: "objective \<Rightarrow> string list \<Rightarrow> rat" where
  "path_deadline s pending =
     foldr min (map (\<lambda>(t, x). bs_deadline x) (filter (\<lambda>(t, x). \<exists>name\<in>set pending. bs_purpose x = Some name) (ol_sessions s)))
       (bt_deadline (ol_terms s))"

definition completion_status :: "objective \<Rightarrow> rat \<Rightarrow> completion_view option" where
  "completion_status s now =
     (case ol_plan s of
        None \<Rightarrow> None
      | Some plan \<Rightarrow>
          let obs = map (\<lambda>(name, ob). (name, obligation_status s name ob)) (pl_obligations plan);
              tokens = sum_values ov_tokens obs;
              seconds = sum_values ov_seconds obs;
              pending = map fst (filter (\<lambda>(name, ob). og_state ob \<noteq> Completed) (pl_obligations plan));
              deferred = map fst (filter (\<lambda>(name, ob). og_state ob = Deferred) (pl_obligations plan));
              deadline = path_deadline s pending;
              available = max 0 (deadline - max now (ol_observed s));
              feasible = (accounting_known s \<and> tokens \<le> remaining_tokens s \<and> of_int seconds \<le> available)
          in Some \<lparr>cn_source = pl_source plan, cn_obligations = obs, cn_tokens = tokens, cn_seconds = seconds,
               cn_pending = pending, cn_deferred = deferred, cn_feasible = feasible, cn_completed = (pending = []),
               cn_deadline = deadline, cn_available = available,
               cn_outcome = (if pending = [] then ''obligations_completed''
                             else if \<not> feasible \<or> deferred \<noteq> [] then ''checkpoint_required'' else ''pending'')\<rparr>)"

section \<open>The view that every operation answers\<close>

record budget_view =
  bv_terms :: budget_terms
  bv_objective_id :: string
  bv_used :: int
  bv_reserved :: int
  bv_remaining :: int
  bv_known :: bool
  bv_state :: string
  bv_ready :: bool
  bv_exhausted :: bool
  bv_original_deadline :: json
  bv_cycles :: int
  bv_aliases :: "(string \<times> string \<times> int) list"
  bv_binding :: json
  bv_sessions :: "(string \<times> budget_session) list"
  bv_authorizations :: "authorization list"
  bv_remaining_seconds :: rat
  bv_actors :: "(string \<times> budget_actor \<times> int) list"
  bv_completion :: "completion_view option"
  bv_admitted :: "bool option"
  bv_reason :: "string option"

definition view_of :: "string \<Rightarrow> objective \<Rightarrow> rat \<Rightarrow> bool option \<Rightarrow> budget_view" where
  "view_of oid s now admitted =
     \<lparr>bv_terms = ol_terms s, bv_objective_id = oid, bv_used = tokens_used s, bv_reserved = tokens_reserved s,
      bv_remaining = remaining_tokens s, bv_known = accounting_known s, bv_state = ledger_state s now,
      bv_ready = (ledger_state s now = ''ready''),
      bv_exhausted = (deadline_passed s now \<or> bt_tokens (ol_terms s) \<le> tokens_used s + tokens_reserved s),
      bv_original_deadline = ol_original_deadline s, bv_cycles = ol_cycles s, bv_aliases = ol_aliases s,
      bv_binding = ol_binding s, bv_sessions = ol_sessions s, bv_authorizations = ol_authorizations s,
      bv_remaining_seconds = max 0 (bt_deadline (ol_terms s) - max now (ol_observed s)),
      bv_actors = map (\<lambda>(i, a). (i, a, max 0 (ba_reservation a - ba_used a))) (ol_actors s),
      bv_completion = completion_status s now, bv_admitted = admitted, bv_reason = None\<rparr>"

end
