(* ===== verification/BudgetCalls.thy ===== *)
theory BudgetCalls
  imports Budget Publisher
begin

text \<open>
  The operations of \<open>ObjectiveLedger\<close>.  Each is a body that takes the reading of the clock and the stored state, and answers a view
  with the next state or raises (\<^const>\<open>None\<close>), which stores nothing; \<open>ledger_transaction\<close> runs it on the file.
\<close>

section \<open>The file under its lock\<close>

text \<open>
  What the operating system answers in one call: whether directory, lock and file are owned and private, how the replacement of the
  file ends, the clock, and the bytes of a canonical, regular and owned file.
\<close>

record ledger_env =
  le_private :: bool
  le_write :: write_fault
  le_now :: json
  le_source :: "string \<Rightarrow> nat list option"

definition ledger_transaction ::
  "bool \<Rightarrow> ledger_env \<Rightarrow> (rat \<Rightarrow> objective option \<Rightarrow> ('a \<times> objective) option) \<Rightarrow> objective option \<Rightarrow> 'a option \<times> objective option"
where
  "ledger_transaction writes env body s =
     (if \<not> le_private env then (None, s)
      else case epoch (le_now env) of
             None \<Rightarrow> (None, s)
           | Some now \<Rightarrow>
               (case body now s of
                  None \<Rightarrow> (None, s)
                | Some (x, s') \<Rightarrow>
                    if \<not> writes then (Some x, s)
                    else case le_write env of
                           Written \<Rightarrow> (Some x, Some s')
                         | LostBefore \<Rightarrow> (None, s)
                         | LostAfter \<Rightarrow> (None, Some s')))"

text \<open>Every operation but the first needs a configured objective.\<close>

definition configured_only :: "(rat \<Rightarrow> objective \<Rightarrow> ('a \<times> objective) option) \<Rightarrow> rat \<Rightarrow> objective option \<Rightarrow> ('a \<times> objective) option" where
  "configured_only body now s = (case s of None \<Rightarrow> None | Some t \<Rightarrow> body now t)"

definition observe :: "rat \<Rightarrow> objective \<Rightarrow> objective" where
  "observe now s = s\<lparr>ol_observed := max now (ol_observed s)\<rparr>"

definition put_actor :: "string \<Rightarrow> budget_actor \<Rightarrow> objective \<Rightarrow> objective" where
  "put_actor i a s = s\<lparr>ol_actors := dict_set i a (ol_actors s)\<rparr>"

definition put_session :: "string \<Rightarrow> budget_session \<Rightarrow> objective \<Rightarrow> objective" where
  "put_session t x s = s\<lparr>ol_sessions := dict_set t x (ol_sessions s)\<rparr>"

section \<open>Configuration\<close>

definition first_state :: "budget_terms \<Rightarrow> json \<Rightarrow> int \<Rightarrow> rat \<Rightarrow> objective" where
  "first_state c approval prior now =
     \<lparr>ol_terms = c, ol_original_deadline = jget (bt_fields c) ''objective_deadline'', ol_prior = prior, ol_actors = [], ol_cycles = 0,
      ol_authorizations = [\<lparr>au_action = ''initial'', au_terms = c, au_approval = approval, au_at = now\<rparr>],
      ol_observed = now, ol_aliases = [], ol_binding = JNull, ol_sessions = [], ol_completions = [], ol_plan = None,
      ol_plan_history = [], ol_decisions = []\<rparr>"

definition configure_body ::
  "string \<Rightarrow> budget_terms \<Rightarrow> json \<Rightarrow> int \<Rightarrow> rat \<Rightarrow> objective option \<Rightarrow> (budget_view \<times> objective) option"
where
  "configure_body oid c approval prior now s0 =
     (case s0 of
        Some s \<Rightarrow>
          if \<not> same_terms (ol_terms s) c then None
          else let s' = observe now s in Some (view_of oid s' now None, s')
      | None \<Rightarrow> let s' = first_state c approval prior now in Some (view_of oid s' now None, s'))"

definition configure_ledger :: "ledger_env \<Rightarrow> string \<Rightarrow> json \<Rightarrow> json \<Rightarrow> json \<Rightarrow> objective option \<Rightarrow> budget_view option \<times> objective option" where
  "configure_ledger env oid config approval prior s =
     (case (configuration_of config, count_of prior) of
        (Some c, Some n) \<Rightarrow>
          if \<not> truthy approval then (None, s) else ledger_transaction True env (configure_body oid c approval n) s
      | _ \<Rightarrow> (None, s))"

definition view_body :: "string \<Rightarrow> rat \<Rightarrow> objective \<Rightarrow> (budget_view \<times> objective) option" where
  "view_body oid now s = (let s' = observe now s in Some (view_of oid s' now None, s'))"

definition view_ledger :: "ledger_env \<Rightarrow> string \<Rightarrow> objective option \<Rightarrow> budget_view option \<times> objective option" where
  "view_ledger env oid = ledger_transaction True env (configured_only (view_body oid))"

definition inspect_ledger :: "ledger_env \<Rightarrow> string \<Rightarrow> objective option \<Rightarrow> budget_view option \<times> objective option" where
  "inspect_ledger env oid =
     ledger_transaction False env (configured_only (\<lambda>now s. Some (view_of oid s now None, s)))"

text \<open>An extension keeps what was granted, a reset may lower it; both keep the origin and all that was spent.\<close>

definition authorize_body :: "string \<Rightarrow> budget_terms \<Rightarrow> json \<Rightarrow> string \<Rightarrow> rat \<Rightarrow> objective \<Rightarrow> (budget_view \<times> objective) option" where
  "authorize_body oid c approval action now s0 =
     (let s = observe now s0; p = ol_terms s; l = last (ol_authorizations s)
      in if same_terms c p \<and> au_action l = action \<and> py_eq (au_approval l) approval then Some (view_of oid s now None, s)
         else if py_eq (jget (bt_fields c) ''revision'') (jget (bt_fields p) ''revision'')
              \<or> \<not> py_eq (jget (bt_fields c) ''started_at'') (jget (bt_fields p) ''started_at'')
              \<or> action = ''extend'' \<and> (bt_tokens c < bt_tokens p \<or> bt_deadline c < bt_deadline p) then None
         else if action = ''reset'' \<and> \<not> list_all (\<lambda>(i, a). ba_settled a \<and> ba_known a) (ol_actors s) then None
         else let s' = s\<lparr>ol_terms := c,
                    ol_authorizations := ol_authorizations s @ [\<lparr>au_action = action, au_terms = c, au_approval = approval, au_at = now\<rparr>]\<rparr>
              in Some (view_of oid s' now None, s'))"

definition authorize_ledger :: "string \<Rightarrow> ledger_env \<Rightarrow> string \<Rightarrow> json \<Rightarrow> json \<Rightarrow> objective option \<Rightarrow> budget_view option \<times> objective option" where
  "authorize_ledger action env oid config approval s =
     (case configuration_of config of
        None \<Rightarrow> (None, s)
      | Some c \<Rightarrow>
          if \<not> truthy approval then (None, s)
          else ledger_transaction True env (configured_only (authorize_body oid c approval action)) s)"

definition extend_ledger :: "ledger_env \<Rightarrow> string \<Rightarrow> json \<Rightarrow> json \<Rightarrow> objective option \<Rightarrow> budget_view option \<times> objective option" where
  "extend_ledger = authorize_ledger ''extend''"

definition reset_ledger :: "ledger_env \<Rightarrow> string \<Rightarrow> json \<Rightarrow> json \<Rightarrow> objective option \<Rightarrow> budget_view option \<times> objective option" where
  "reset_ledger = authorize_ledger ''reset''"

section \<open>Actors of the lifecycle\<close>

definition replayed :: "objective \<Rightarrow> budget_actor \<Rightarrow> rat \<Rightarrow> bool" where
  "replayed s a deadline =
     (accounting_known s \<and> tokens_used s + tokens_reserved s \<le> bt_tokens (ol_terms s) \<and> \<not> ba_settled a
      \<and> ba_used a < ba_reservation a \<and> ol_observed s < min deadline (bt_deadline (ol_terms s)))"

definition reservation_fits :: "objective \<Rightarrow> rat \<Rightarrow> int \<Rightarrow> int \<Rightarrow> bool" where
  "reservation_fits s now tokens seconds =
     (ledger_state s now = ''ready'' \<and> tokens \<le> remaining_tokens s \<and> tokens \<le> bt_session_tokens (ol_terms s)
      \<and> seconds \<le> bt_session_seconds (ol_terms s) \<and> ol_observed s + of_int seconds \<le> bt_deadline (ol_terms s))"

definition reserve_body :: "string \<Rightarrow> string \<Rightarrow> int \<Rightarrow> int \<Rightarrow> rat \<Rightarrow> objective \<Rightarrow> (budget_view \<times> objective) option" where
  "reserve_body oid i tokens seconds now s0 =
     (let s = observe now s0; old = dict_get (ol_actors s) i
      in if bound_to_requests s then None
         else case Option.bind old ba_terms of
                Some t \<Rightarrow>
                  if t \<noteq> ReservedTerms tokens seconds then None
                  else do {
                    a \<leftarrow> old;
                    deadline \<leftarrow> ba_deadline a;
                    Some (view_of oid s now (Some (replayed s a deadline)), s) }
              | None \<Rightarrow>
                  if \<not> reservation_fits s now tokens seconds then Some (view_of oid s now (Some False), s)
                  else if old \<noteq> None then None
                  else let s' = put_actor i \<lparr>ba_terms = Some (ReservedTerms tokens seconds), ba_reservation = tokens, ba_used = 0,
                             ba_settled = False, ba_known = True, ba_deadline = Some (ol_observed s + of_int seconds),
                             ba_thread = None, ba_purpose = None\<rparr> s
                       in Some (view_of oid s' now (Some True), s'))"

definition reserve_actor ::
  "ledger_env \<Rightarrow> string \<Rightarrow> string \<Rightarrow> json \<Rightarrow> json \<Rightarrow> objective option \<Rightarrow> budget_view option \<times> objective option"
where
  "reserve_actor env oid i tokens seconds s =
     (case (count_of tokens, count_of seconds) of
        (Some m, Some n) \<Rightarrow>
          if i = [] then (None, s) else ledger_transaction True env (configured_only (reserve_body oid i m n)) s
      | _ \<Rightarrow> (None, s))"

text \<open>\<open>_record\<close>: a cumulative reading that is missing or went down makes the accounting unknown and keeps the floor.\<close>

definition observed_actor :: budget_actor where
  "observed_actor = \<lparr>ba_terms = None, ba_reservation = 0, ba_used = 0, ba_settled = False, ba_known = True, ba_deadline = None,
     ba_thread = None, ba_purpose = None\<rparr>"

definition with_reading :: "int option \<Rightarrow> bool \<Rightarrow> budget_actor \<Rightarrow> budget_actor" where
  "with_reading cumulative settled a =
     (case cumulative of
        None \<Rightarrow> a\<lparr>ba_known := False, ba_settled := False\<rparr>
      | Some n \<Rightarrow> if n < ba_used a then a\<lparr>ba_known := False, ba_settled := False\<rparr>
                  else a\<lparr>ba_used := n, ba_known := True, ba_settled := (ba_settled a \<or> settled)\<rparr>)"

definition goal_alias :: "objective \<Rightarrow> string \<Rightarrow> string \<times> int" where
  "goal_alias s g = (case dict_get (ol_aliases s) g of None \<Rightarrow> (g, 0) | Some b \<Rightarrow> b)"

definition record_body ::
  "string \<Rightarrow> bool \<Rightarrow> string \<Rightarrow> int option \<Rightarrow> bool \<Rightarrow> rat \<Rightarrow> objective \<Rightarrow> (budget_view \<times> objective) option"
where
  "record_body oid goal i cumulative settled now s0 =
     (let s = observe now s0
      in if bound_to_requests s then None
         else let (j, offset) = (if goal then goal_alias s i else (i, 0));
                  a = (case dict_get (ol_actors s) j of None \<Rightarrow> observed_actor | Some a \<Rightarrow> a);
                  s' = put_actor j (with_reading (map_option (\<lambda>n. n + offset) cumulative) settled a) s
              in Some (view_of oid s' now None, s'))"

definition optional_count :: "json \<Rightarrow> int option option" where
  "optional_count v = (if v = JNull then Some None else map_option Some (count_of v))"

definition record_usage ::
  "bool \<Rightarrow> ledger_env \<Rightarrow> string \<Rightarrow> string \<Rightarrow> json \<Rightarrow> bool \<Rightarrow> objective option \<Rightarrow> budget_view option \<times> objective option"
where
  "record_usage goal env oid i cumulative settled s =
     (case optional_count cumulative of
        None \<Rightarrow> (None, s)
      | Some n \<Rightarrow> if i = [] then (None, s) else ledger_transaction True env (configured_only (record_body oid goal i n settled)) s)"

definition record_actor ::
  "ledger_env \<Rightarrow> string \<Rightarrow> string \<Rightarrow> json \<Rightarrow> bool \<Rightarrow> objective option \<Rightarrow> budget_view option \<times> objective option"
where
  "record_actor = record_usage False"

definition record_goal ::
  "ledger_env \<Rightarrow> string \<Rightarrow> string \<Rightarrow> json \<Rightarrow> bool \<Rightarrow> objective option \<Rightarrow> budget_view option \<times> objective option"
where
  "record_goal = record_usage True"

definition floor_body :: "string \<Rightarrow> string \<Rightarrow> int \<Rightarrow> rat \<Rightarrow> objective \<Rightarrow> (budget_view \<times> objective) option" where
  "floor_body oid i cumulative now s0 =
     (let s = observe now s0
      in case dict_get (ol_actors s) i of
           None \<Rightarrow> None
         | Some a \<Rightarrow>
             let s' = put_actor i (a\<lparr>ba_used := max (ba_used a) cumulative, ba_known := False, ba_settled := False\<rparr>) s
             in Some (view_of oid s' now None, s'))"

definition record_sampled_floor ::
  "ledger_env \<Rightarrow> string \<Rightarrow> string \<Rightarrow> json \<Rightarrow> objective option \<Rightarrow> budget_view option \<times> objective option"
where
  "record_sampled_floor env oid i cumulative s =
     (case count_of cumulative of
        None \<Rightarrow> (None, s)
      | Some n \<Rightarrow> ledger_transaction True env (configured_only (floor_body oid i n)) s)"

text \<open>The quota of a native goal that is already running.\<close>

definition adopted ::
  "string \<Rightarrow> rat \<Rightarrow> string \<Rightarrow> int \<Rightarrow> rat \<Rightarrow> int \<Rightarrow> objective \<Rightarrow> (budget_view \<times> objective) option"
where
  "adopted oid now i quota deadline used s =
     (if remaining_tokens s < quota - used \<or> quota \<le> used then Some (view_of oid s now (Some False), s)
      else let s' = put_actor i \<lparr>ba_terms = Some (GoalTerms quota), ba_reservation = quota, ba_used = used, ba_settled = False,
                  ba_known = True, ba_deadline = Some (min deadline (bt_deadline (ol_terms s))), ba_thread = None, ba_purpose = None\<rparr> s
           in Some (view_of oid s' now (Some True), s'))"

definition adopt_body :: "string \<Rightarrow> string \<Rightarrow> int \<Rightarrow> json \<Rightarrow> rat \<Rightarrow> objective \<Rightarrow> (budget_view \<times> objective) option" where
  "adopt_body oid g budget deadline now s0 =
     (let s = observe now s0; (i, offset) = goal_alias s g; quota = budget + offset
      in if bound_to_requests s then None
         else if quota \<le> 0 \<or> bt_session_tokens (ol_terms s) < quota \<or> \<not> accounting_known s
         then Some (view_of oid s now (Some False), s)
         else (case epoch deadline of
                 None \<Rightarrow> None
               | Some d \<Rightarrow>
                   if d \<le> ol_observed s then Some (view_of oid s now (Some False), s)
                   else (case dict_get (ol_actors s) i of
                           None \<Rightarrow> adopted oid now i quota d 0 s
                         | Some a \<Rightarrow>
                             if ba_terms a = None then adopted oid now i quota d (ba_used a) s
                             else (case ba_deadline a of
                                     None \<Rightarrow> None
                                   | Some e \<Rightarrow>
                                       Some (view_of oid s now (Some (ba_reservation a = quota \<and> \<not> ba_settled a \<and> ba_known a
                                               \<and> ba_used a < quota \<and> ol_observed s < e)), s)))))"

definition adopt_active_goal ::
  "ledger_env \<Rightarrow> string \<Rightarrow> string \<Rightarrow> json \<Rightarrow> json \<Rightarrow> objective option \<Rightarrow> budget_view option \<times> objective option"
where
  "adopt_active_goal env oid g budget deadline s =
     (case count_of budget of
        None \<Rightarrow> (None, s)
      | Some n \<Rightarrow> ledger_transaction True env (configured_only (adopt_body oid g n deadline)) s)"

definition bind_goal_body :: "string \<Rightarrow> string \<Rightarrow> string \<Rightarrow> int \<Rightarrow> rat \<Rightarrow> objective \<Rightarrow> (budget_view \<times> objective) option" where
  "bind_goal_body oid g i preflight now s0 =
     (let s = observe now s0
      in if bound_to_requests s then None
         else case dict_get (ol_actors s) i of
                None \<Rightarrow> None
              | Some a \<Rightarrow>
                  if ba_used a < preflight then None
                  else if dict_get (ol_aliases s) g \<notin> {None, Some (i, preflight)} then None
                  else let s' = s\<lparr>ol_aliases := dict_set g (i, preflight) (ol_aliases s)\<rparr> in Some (view_of oid s' now None, s'))"

definition bind_goal ::
  "ledger_env \<Rightarrow> string \<Rightarrow> string \<Rightarrow> string \<Rightarrow> json \<Rightarrow> objective option \<Rightarrow> budget_view option \<times> objective option"
where
  "bind_goal env oid g i preflight s =
     (case count_of preflight of
        None \<Rightarrow> (None, s)
      | Some n \<Rightarrow> ledger_transaction True env (configured_only (bind_goal_body oid g i n)) s)"

section \<open>The request transport\<close>

definition prior_counts :: "(string, json) dict \<Rightarrow> (string \<times> int) list option" where
  "prior_counts d = those (map (\<lambda>(t, v). map_option (Pair t) (count_of v)) d)"

definition window :: "objective \<Rightarrow> rat \<Rightarrow> rat" where
  "window s start = min (bt_deadline (ol_terms s)) (start + of_int (bt_session_seconds (ol_terms s)))"

definition plain_session :: "int \<Rightarrow> rat \<Rightarrow> budget_session" where
  "plain_session prior deadline = \<lparr>bs_prior = prior, bs_deadline = deadline, bs_parent = None, bs_provenance = JNull,
     bs_group = None, bs_purpose = None\<rparr>"

definition bind_requests_body ::
  "string \<Rightarrow> json \<Rightarrow> (string, json) dict \<Rightarrow> rat \<Rightarrow> objective \<Rightarrow> (budget_view \<times> objective) option"
where
  "bind_requests_body oid binding priors now s =
     (if py_eq (ol_binding s) binding then Some (view_of oid s now None, s)
      else if bound_to_requests s \<or> ol_actors s \<noteq> [] \<or> ol_aliases s \<noteq> [] then None
      else case prior_counts priors of
             None \<Rightarrow> None
           | Some ps \<Rightarrow>
               if sum_values id ps \<noteq> ol_prior s then None
               else let s' = s\<lparr>ol_binding := binding,
                          ol_sessions := map (\<lambda>(t, n). (t, plain_session n (window s (bt_started (ol_terms s))))) ps,
                          ol_completions := []\<rparr>
                    in Some (view_of oid s' now None, s'))"

definition bind_requests ::
  "ledger_env \<Rightarrow> string \<Rightarrow> json \<Rightarrow> (string, json) dict \<Rightarrow> objective option \<Rightarrow> budget_view option \<times> objective option"
where
  "bind_requests env oid binding priors = ledger_transaction True env (configured_only (bind_requests_body oid binding priors))"

definition register_body :: "string \<Rightarrow> string \<Rightarrow> string \<Rightarrow> json \<Rightarrow> rat \<Rightarrow> objective \<Rightarrow> (budget_view \<times> objective) option" where
  "register_body oid t parent provenance now s =
     (if \<not> bound_to_requests s \<or> dict_get (ol_sessions s) parent = None then None
      else case dict_get (ol_sessions s) t of
             None \<Rightarrow>
               let s' = put_session t ((plain_session 0 (window s now))\<lparr>bs_parent := Some parent, bs_provenance := provenance\<rparr>) s
               in Some (view_of oid s' now None, s')
           | Some x \<Rightarrow> if bs_parent x \<noteq> Some parent then None else Some (view_of oid s now None, s))"

definition register_request_thread ::
  "ledger_env \<Rightarrow> string \<Rightarrow> string \<Rightarrow> string \<Rightarrow> json \<Rightarrow> objective option \<Rightarrow> budget_view option \<times> objective option"
where
  "register_request_thread env oid t parent provenance =
     ledger_transaction True env (configured_only (register_body oid t parent provenance))"

definition session_group :: "string \<Rightarrow> budget_session \<Rightarrow> string" where
  "session_group t x = (case bs_group x of None \<Rightarrow> t | Some g \<Rightarrow> g)"

definition continue_body :: "string \<Rightarrow> string \<Rightarrow> string \<Rightarrow> json \<Rightarrow> rat \<Rightarrow> objective \<Rightarrow> (budget_view \<times> objective) option" where
  "continue_body oid t source provenance now s =
     (if \<not> bound_to_requests s then None
      else case dict_get (ol_sessions s) source of
             None \<Rightarrow> None
           | Some x \<Rightarrow>
               (case dict_get (ol_sessions s) t of
                  Some y \<Rightarrow>
                    if bs_prior y = 0 \<and> bs_parent y = Some source \<and> py_eq (bs_provenance y) provenance
                       \<and> bs_deadline y = bs_deadline x \<and> bs_group y = Some (session_group source x)
                    then Some (view_of oid s now None, s) else None
                | None \<Rightarrow>
                    let s' = put_session t \<lparr>bs_prior = 0, bs_deadline = bs_deadline x, bs_parent = Some source,
                          bs_provenance = provenance, bs_group = Some (session_group source x), bs_purpose = bs_purpose x\<rparr> s
                    in Some (view_of oid s' now None, s')))"

definition continue_request_thread ::
  "ledger_env \<Rightarrow> string \<Rightarrow> string \<Rightarrow> string \<Rightarrow> json \<Rightarrow> objective option \<Rightarrow> budget_view option \<times> objective option"
where
  "continue_request_thread env oid t source provenance s =
     (if t = [] \<or> t = source \<or> \<not> truthy provenance then (None, s)
      else ledger_transaction True env (configured_only (continue_body oid t source provenance)) s)"

end
