(* ===== verification/BudgetRequests.thy ===== *)
theory BudgetRequests
  imports BudgetCalls
begin

text \<open>
  The operations of \<open>ObjectiveLedger\<close> on the completion obligations, on the attempts of a request transport, and on correction
  cycles, and one name for all operations (\<open>ledger_op\<close>), from which histories are made.
\<close>

section \<open>Completion obligations\<close>

definition hex_digest :: "nat list \<Rightarrow> string" where
  "hex_digest bs = concat (map hex_word (sha256_words bs))"

definition completion_source :: "(string \<Rightarrow> nat list option) \<Rightarrow> json \<Rightarrow> source_pin option" where
  "completion_source files v =
     (case v of
        JObj d \<Rightarrow>
          if \<not> has_fields [''path'', ''sha256''] d then None
          else (case jget d ''path'' of
                  JStr p \<Rightarrow>
                    if \<not> is_absolute (parse_path p) then None
                    else (case files p of
                            None \<Rightarrow> None
                          | Some raw \<Rightarrow>
                              if 1048576 < length raw \<or> jget d ''sha256'' \<noteq> JStr (hex_digest raw) then None
                              else Some (p, hex_digest raw))
                | _ \<Rightarrow> None)
      | _ \<Rightarrow> None)"

definition blank :: "string \<Rightarrow> bool" where
  "blank s = (strip s = [])"

definition obligation_kinds :: "string list" where
  "obligation_kinds = [''acceptance'', ''review'', ''remediation'']"

definition obligation_of :: "json \<Rightarrow> obligation option" where
  "obligation_of v =
     (case v of
        JObj d \<Rightarrow>
          if \<not> has_fields [''id'', ''kind'', ''tokens'', ''seconds'', ''criterion''] d then None
          else (case (jget d ''id'', jget d ''kind'', jget d ''criterion'', count_of (jget d ''tokens''), count_of (jget d ''seconds'')) of
                  (JStr i, JStr k, JStr c, Some m, Some n) \<Rightarrow>
                    if i = [] \<or> 64 < length i \<or> k \<notin> set obligation_kinds \<or> blank c \<or> 4096 < length c \<or> m = 0 \<or> n = 0 then None
                    else Some \<lparr>og_id = i, og_kind = k, og_tokens = m, og_seconds = n, og_criterion = c, og_state = Pending,
                           og_disposition = None, og_started = False\<rparr>
                | _ \<Rightarrow> None)
      | _ \<Rightarrow> None)"

definition obligations_of :: "json \<Rightarrow> (string \<times> obligation) list option" where
  "obligations_of v =
     (case v of
        JArr items \<Rightarrow>
          if length items \<noteq> 3 then None
          else (case those (map obligation_of items) of
                  None \<Rightarrow> None
                | Some obs \<Rightarrow>
                    if distinct (map og_id obs) \<and> set (map og_kind obs) = set obligation_kinds
                    then Some (map (\<lambda>ob. (og_id ob, ob)) obs) else None)
      | _ \<Rightarrow> None)"

definition same_obligation :: "obligation \<Rightarrow> obligation \<Rightarrow> bool" where
  "same_obligation o1 o2 =
     (og_id o1 = og_id o2 \<and> og_kind o1 = og_kind o2 \<and> og_tokens o1 = og_tokens o2 \<and> og_seconds o1 = og_seconds o2
      \<and> og_criterion o1 = og_criterion o2)"

definition same_plan :: "completion_plan \<Rightarrow> source_pin \<Rightarrow> (string \<times> obligation) list \<Rightarrow> bool" where
  "same_plan plan source obs =
     (pl_source plan = source \<and> set (map fst (pl_obligations plan)) = set (map fst obs)
      \<and> list_all (\<lambda>(name, ob). case dict_get (pl_obligations plan) name of None \<Rightarrow> False | Some old \<Rightarrow> same_obligation old ob) obs)"

definition protect_body :: "string \<Rightarrow> source_pin \<Rightarrow> (string \<times> obligation) list \<Rightarrow> rat \<Rightarrow> objective \<Rightarrow> (budget_view \<times> objective) option" where
  "protect_body oid source obs now s0 =
     (let s = observe now s0
      in case ol_plan s of
           Some plan \<Rightarrow> if same_plan plan source obs then Some (view_of oid s now None, s) else None
         | None \<Rightarrow>
             if \<not> bound_to_requests s \<or> ol_actors s \<noteq> [] then None
             else let s' = s\<lparr>ol_plan := Some \<lparr>pl_source = source, pl_obligations = obs\<rparr>, ol_plan_history := []\<rparr>
                  in Some (view_of oid s' now None, s'))"

definition protect_completion :: "ledger_env \<Rightarrow> string \<Rightarrow> json \<Rightarrow> json \<Rightarrow> objective option \<Rightarrow> budget_view option \<times> objective option" where
  "protect_completion env oid obligations source s =
     (case (completion_source (le_source env) source, obligations_of obligations) of
        (Some src, Some obs) \<Rightarrow> ledger_transaction True env (configured_only (protect_body oid src obs)) s
      | _ \<Rightarrow> (None, s))"

definition plan_obligation :: "objective \<Rightarrow> string \<Rightarrow> obligation option" where
  "plan_obligation s name = (case ol_plan s of None \<Rightarrow> None | Some plan \<Rightarrow> dict_get (pl_obligations plan) name)"

definition put_obligation :: "string \<Rightarrow> obligation \<Rightarrow> objective \<Rightarrow> objective" where
  "put_obligation name ob s =
     s\<lparr>ol_plan := map_option (\<lambda>plan. plan\<lparr>pl_obligations := dict_set name ob (pl_obligations plan)\<rparr>) (ol_plan s)\<rparr>"

definition assign_body :: "string \<Rightarrow> string \<Rightarrow> string \<Rightarrow> source_pin \<Rightarrow> rat \<Rightarrow> objective \<Rightarrow> (budget_view \<times> objective) option" where
  "assign_body oid t name source now s0 =
     (let s = observe now s0
      in case (plan_obligation s name, dict_get (ol_sessions s) t) of
           (Some ob, Some x) \<Rightarrow>
             if bs_purpose x = Some name then Some (view_of oid s now None, s)
             else let s' = (put_session t (x\<lparr>bs_purpose := Some name\<rparr>) s)
                        \<lparr>ol_plan_history := ol_plan_history s @ [AssignedThread t name source (ol_observed s)]\<rparr>
                  in Some (view_of oid s' now None, s')
         | _ \<Rightarrow> None)"

definition assign_completion ::
  "ledger_env \<Rightarrow> string \<Rightarrow> string \<Rightarrow> string \<Rightarrow> json \<Rightarrow> objective option \<Rightarrow> budget_view option \<times> objective option"
where
  "assign_completion env oid t name source s =
     (case completion_source (le_source env) source of
        None \<Rightarrow> (None, s)
      | Some src \<Rightarrow> ledger_transaction True env (configured_only (assign_body oid t name src)) s)"

definition work_unsettled :: "objective \<Rightarrow> string \<Rightarrow> bool" where
  "work_unsettled s name = (\<not> list_all (\<lambda>(i, a). ba_settled a \<and> ba_known a) (serving s name))"

definition resolve_body :: "string \<Rightarrow> string \<Rightarrow> disposition \<Rightarrow> rat \<Rightarrow> objective \<Rightarrow> (budget_view \<times> objective) option" where
  "resolve_body oid name d now s0 =
     (let s = observe now s0
      in case plan_obligation s name of
           None \<Rightarrow> None
         | Some ob \<Rightarrow>
             if og_state ob = Completed then
               (if og_disposition ob \<noteq> Some d then None else Some (view_of oid s now None, s))
             else if ds_state d = Completed \<and> work_unsettled s name then None
             else if og_disposition ob = Some d then Some (view_of oid s now None, s)
             else let s' = (put_obligation name (ob\<lparr>og_state := ds_state d, og_disposition := Some d\<rparr>) s)
                        \<lparr>ol_plan_history := ol_plan_history s @ [DisposedOf (ds_state d) name (ds_source d) (ds_note d) (ol_observed s)]\<rparr>
                  in Some (view_of oid s' now None, s'))"

definition outcome_of :: "string \<Rightarrow> obligation_state option" where
  "outcome_of s = (if s = ''completed'' then Some Completed else if s = ''deferred'' then Some Deferred else None)"

definition resolve_completion ::
  "ledger_env \<Rightarrow> string \<Rightarrow> string \<Rightarrow> string \<Rightarrow> json \<Rightarrow> json \<Rightarrow> objective option \<Rightarrow> budget_view option \<times> objective option"
where
  "resolve_completion env oid name outcome source note s =
     (case (completion_source (le_source env) source, outcome_of outcome, note) of
        (Some src, Some st, JStr n) \<Rightarrow>
          if blank n \<or> 4096 < length n then (None, s)
          else ledger_transaction True env (configured_only (resolve_body oid name \<lparr>ds_state = st, ds_source = src, ds_note = n\<rparr>)) s
      | _ \<Rightarrow> (None, s))"

section \<open>Admission of an attempt\<close>

text \<open>A thread shares its allowance with the contexts it continues.\<close>

definition group_members :: "objective \<Rightarrow> string \<Rightarrow> (string \<times> budget_session) list" where
  "group_members s g = filter (\<lambda>(t, x). session_group t x = g) (ol_sessions s)"

definition group_spent :: "objective \<Rightarrow> string \<Rightarrow> int" where
  "group_spent s g =
     (let members = set (map fst (group_members s g))
      in sum_values bs_prior (group_members s g)
         + sum_values charged (filter (\<lambda>(i, a). \<exists>t\<in>members. ba_thread a = Some t) (ol_actors s)))"

definition request_fits :: "objective \<Rightarrow> rat \<Rightarrow> string \<Rightarrow> budget_session \<Rightarrow> int \<Rightarrow> int \<Rightarrow> bool" where
  "request_fits s now t x tokens seconds =
     (ledger_state s now = ''ready'' \<and> tokens \<le> remaining_tokens s
      \<and> group_spent s (session_group t x) + tokens \<le> bt_session_tokens (ol_terms s)
      \<and> seconds \<le> bt_session_seconds (ol_terms s) \<and> ol_observed s + of_int seconds \<le> bs_deadline x)"

definition denial :: "objective \<Rightarrow> string \<Rightarrow> budget_session \<Rightarrow> int \<Rightarrow> int \<Rightarrow> string" where
  "denial s t x tokens seconds =
     (if \<not> accounting_known s then ''request_accounting_unknown''
      else if bt_deadline (ol_terms s) < ol_observed s + of_int seconds then ''objective_deadline_unavailable''
      else if remaining_tokens s < tokens then ''objective_token_allowance_unavailable''
      else if bt_session_tokens (ol_terms s) < group_spent s (session_group t x) + tokens then ''session_token_allowance_unavailable''
      else ''session_time_allowance_unavailable'')"

text \<open>The funds of the other obligations stay available; a remediation that begins takes a correction cycle.\<close>

definition cycle_needed :: "objective \<Rightarrow> string option \<Rightarrow> bool" where
  "cycle_needed s purpose =
     (case Option.bind purpose (plan_obligation s) of
        None \<Rightarrow> False
      | Some ob \<Rightarrow> og_kind ob = ''remediation'' \<and> \<not> og_started ob)"

definition protection_refusal :: "objective \<Rightarrow> completion_view \<Rightarrow> string option \<Rightarrow> int \<Rightarrow> int \<Rightarrow> string option" where
  "protection_refusal s c purpose tokens seconds =
     (let own = Option.bind purpose (dict_get (cn_obligations c));
          own_tokens = (case own of None \<Rightarrow> 0 | Some v \<Rightarrow> ov_tokens v);
          own_seconds = (case own of None \<Rightarrow> 0 | Some v \<Rightarrow> ov_seconds v);
          own_completed = (case own of None \<Rightarrow> False | Some v \<Rightarrow> og_state (ov_obligation v) = Completed)
      in if cycle_needed s purpose \<and> bt_cycles (ol_terms s) \<le> ol_cycles s then Some ''completion_remediation_cycle_limit''
         else if \<not> cn_feasible c then Some ''completion_path_infeasible''
         else if purpose = None \<and> cn_deferred c \<noteq> [] then Some ''mandatory_completion_deferred''
         else if purpose \<noteq> None \<and> (own_completed \<or> own_tokens < tokens \<or> own_seconds < seconds)
         then Some ''completion_obligation_allowance_unavailable''
         else if remaining_tokens s < tokens + (cn_tokens c - own_tokens)
              \<or> cn_available c < of_int (seconds + (cn_seconds c - own_seconds)) then Some ''completion_resources_protected''
         else None)"

definition start_remediation :: "string option \<Rightarrow> objective \<Rightarrow> objective option" where
  "start_remediation purpose s =
     (if ol_plan s = None then Some s
      else case purpose of
             None \<Rightarrow> Some s
           | Some name \<Rightarrow>
               (case plan_obligation s name of
                  None \<Rightarrow> None
                | Some ob \<Rightarrow>
                    if cycle_needed s purpose
                    then Some ((put_obligation name (ob\<lparr>og_started := True\<rparr>) s)\<lparr>ol_cycles := ol_cycles s + 1\<rparr>)
                    else Some s))"

definition request_refusal :: "bool \<Rightarrow> objective \<Rightarrow> rat \<Rightarrow> string \<Rightarrow> budget_session \<Rightarrow> int \<Rightarrow> int \<Rightarrow> string option" where
  "request_refusal enforce s now t x tokens seconds =
     (if \<not> enforce then None
      else if \<not> request_fits s now t x tokens seconds then Some (denial s t x tokens seconds)
      else case completion_status s now of
             None \<Rightarrow> None
           | Some c \<Rightarrow> protection_refusal s c (bs_purpose x) tokens seconds)"

definition request_actor :: "string \<Rightarrow> budget_session \<Rightarrow> int \<Rightarrow> int \<Rightarrow> budget_actor" where
  "request_actor t x tokens seconds =
     \<lparr>ba_terms = Some (ReservedTerms tokens seconds), ba_reservation = tokens, ba_used = 0, ba_settled = False, ba_known = True,
      ba_deadline = Some (bs_deadline x), ba_thread = Some t, ba_purpose = bs_purpose x\<rparr>"

definition reserve_request_body ::
  "string \<Rightarrow> string \<Rightarrow> string \<Rightarrow> int \<Rightarrow> int \<Rightarrow> bool \<Rightarrow> rat \<Rightarrow> objective \<Rightarrow> (budget_view \<times> objective) option"
where
  "reserve_request_body oid i t tokens seconds enforce now s0 =
     (let s1 = observe now s0
      in if \<not> bound_to_requests s1 \<or> \<not> starts_with ''request:'' i \<or> dict_get (ol_actors s1) i \<noteq> None then None
         else let x = (case dict_get (ol_sessions s1) t of None \<Rightarrow> plain_session 0 (window s1 now) | Some x \<Rightarrow> x);
                  s = (if dict_get (ol_sessions s1) t = None then put_session t x s1 else s1)
              in case request_refusal enforce s now t x tokens seconds of
                   Some reason \<Rightarrow> Some ((view_of oid s now (Some False))\<lparr>bv_reason := Some reason\<rparr>, s)
                 | None \<Rightarrow>
                     (case start_remediation (bs_purpose x) s of
                        None \<Rightarrow> None
                      | Some s2 \<Rightarrow>
                          let s' = put_actor i (request_actor t x tokens seconds) s2 in Some (view_of oid s' now (Some True), s')))"

definition reserve_request ::
  "ledger_env \<Rightarrow> string \<Rightarrow> string \<Rightarrow> string \<Rightarrow> json \<Rightarrow> json \<Rightarrow> bool \<Rightarrow> objective option \<Rightarrow> budget_view option \<times> objective option"
where
  "reserve_request env oid i t tokens seconds enforce s =
     (case (count_of tokens, count_of seconds) of
        (Some m, Some n) \<Rightarrow> ledger_transaction True env (configured_only (reserve_request_body oid i t m n enforce)) s
      | _ \<Rightarrow> (None, s))"

section \<open>Settlement\<close>

text \<open>An answer that is missing, contradicted or beyond the reservation leaves the reservation and makes the accounting unknown.\<close>

definition earlier_proof :: "objective \<Rightarrow> string option \<Rightarrow> request_proof option" where
  "earlier_proof s response = (case response of None \<Rightarrow> None | Some r \<Rightarrow> if r = [] then None else dict_get (ol_completions s) r)"

definition ambiguous :: "objective \<Rightarrow> budget_actor \<Rightarrow> string option \<Rightarrow> int option \<Rightarrow> bool" where
  "ambiguous s a response tokens =
     (tokens = None \<or> response = None \<or> response = Some [] \<or> earlier_proof s response \<noteq> None \<or> ba_settled a
      \<or> ba_reservation a \<noteq> 0 \<and> (case tokens of None \<Rightarrow> False | Some n \<Rightarrow> ba_reservation a < n))"

definition unsettled :: "int option \<Rightarrow> budget_actor \<Rightarrow> budget_actor" where
  "unsettled tokens a =
     a\<lparr>ba_known := False, ba_settled := False, ba_used := (case tokens of None \<Rightarrow> ba_used a | Some n \<Rightarrow> max (ba_used a) n)\<rparr>"

definition settle_request_body ::
  "string \<Rightarrow> string \<Rightarrow> string option \<Rightarrow> int option \<Rightarrow> json \<Rightarrow> rat \<Rightarrow> objective \<Rightarrow> (budget_view \<times> objective) option"
where
  "settle_request_body oid i response tokens digest now s0 =
     (let s = observe now s0; given = \<lparr>rp_actor = i, rp_tokens = tokens, rp_fingerprint = digest\<rparr>
      in case dict_get (ol_actors s) i of
           None \<Rightarrow> None
         | Some a \<Rightarrow>
             if \<not> bound_to_requests s \<or> \<not> starts_with ''request:'' i then None
             else if (case earlier_proof s response of None \<Rightarrow> False | Some p \<Rightarrow> same_proof p given) then Some (view_of oid s now None, s)
             else if ambiguous s a response tokens then
               let s' = put_actor i (unsettled tokens a) s in Some (view_of oid s' now None, s')
             else (case (response, tokens) of
                     (Some r, Some n) \<Rightarrow>
                       let s' = (put_actor i (a\<lparr>ba_used := n, ba_settled := True, ba_known := True\<rparr>) s)
                             \<lparr>ol_completions := dict_set r given (ol_completions s)\<rparr>
                       in Some (view_of oid s' now None, s')
                   | _ \<Rightarrow> None))"

definition settle_request ::
  "ledger_env \<Rightarrow> string \<Rightarrow> string \<Rightarrow> string option \<Rightarrow> json \<Rightarrow> json \<Rightarrow> objective option \<Rightarrow> budget_view option \<times> objective option"
where
  "settle_request env oid i response tokens digest s =
     (case optional_count tokens of
        None \<Rightarrow> (None, s)
      | Some n \<Rightarrow> ledger_transaction True env (configured_only (settle_request_body oid i response n digest)) s)"

section \<open>Correction cycles\<close>

definition correction_eligible :: "objective \<Rightarrow> rat \<Rightarrow> string option \<Rightarrow> bool" where
  "correction_eligible s now actor =
     (case actor of
        None \<Rightarrow> ledger_state s now = ''ready''
      | Some i \<Rightarrow>
          (case dict_get (ol_actors s) i of
             None \<Rightarrow> False
           | Some a \<Rightarrow>
               accounting_known s \<and> ba_known a \<and> \<not> ba_settled a \<and> ba_used a < ba_reservation a
               \<and> ol_observed s < min (case ba_deadline a of None \<Rightarrow> 0 | Some d \<Rightarrow> d) (bt_deadline (ol_terms s))
               \<and> tokens_used s + tokens_reserved s \<le> bt_tokens (ol_terms s)))"

definition correction_body :: "string \<Rightarrow> string option \<Rightarrow> string option \<Rightarrow> rat \<Rightarrow> objective \<Rightarrow> (budget_view \<times> objective) option" where
  "correction_body oid key actor now s0 =
     (let s = observe now s0; eligible = correction_eligible s now actor
      in case Option.bind key (dict_get (ol_decisions s)) of
           Some decided \<Rightarrow> Some (view_of oid s now (Some (decided \<and> eligible)), s)
         | None \<Rightarrow>
             let admitted = (eligible \<and> ol_cycles s < bt_cycles (ol_terms s));
                 s1 = (if admitted then s\<lparr>ol_cycles := ol_cycles s + 1\<rparr> else s);
                 s' = (case key of None \<Rightarrow> s1 | Some k \<Rightarrow> s1\<lparr>ol_decisions := dict_set k admitted (ol_decisions s1)\<rparr>)
             in Some (view_of oid s' now (Some admitted), s'))"

definition correction ::
  "ledger_env \<Rightarrow> string \<Rightarrow> string option \<Rightarrow> string option \<Rightarrow> objective option \<Rightarrow> budget_view option \<times> objective option"
where
  "correction env oid key actor = ledger_transaction True env (configured_only (correction_body oid key actor))"

end
