(* ===== verification/BudgetRuns.thy ===== *)
theory BudgetRuns
  imports BudgetRequests
begin

text \<open>
  Histories of calls on one ledger, of any number of processes: every call is one step under the exclusive lock.  What a call may do to
  the stored objective is told by a few kinds of change (\<open>ledger_change\<close>).
\<close>

section \<open>Calls\<close>

datatype ledger_op =
    Configure json json json
  | View
  | Inspect
  | Extend json json
  | Reset json json
  | Reserve string json json
  | RecordActor string json bool
  | RecordGoal string json bool
  | SampleFloor string json
  | AdoptGoal string json json
  | BindGoal string string json
  | BindRequests json "(string, json) dict"
  | RegisterThread string string json
  | ContinueThread string string json
  | Protect json json
  | Assign string string json
  | Resolve string string json json
  | ReserveRequest string string json json bool
  | SettleRequest string "string option" json json
  | Correct "string option" "string option"

fun run_op :: "ledger_env \<Rightarrow> string \<Rightarrow> ledger_op \<Rightarrow> objective option \<Rightarrow> budget_view option \<times> objective option" where
  "run_op env oid (Configure c ap n) s = configure_ledger env oid c ap n s"
| "run_op env oid View s = view_ledger env oid s"
| "run_op env oid Inspect s = inspect_ledger env oid s"
| "run_op env oid (Extend c ap) s = extend_ledger env oid c ap s"
| "run_op env oid (Reset c ap) s = reset_ledger env oid c ap s"
| "run_op env oid (Reserve i m n) s = reserve_actor env oid i m n s"
| "run_op env oid (RecordActor i m settled) s = record_actor env oid i m settled s"
| "run_op env oid (RecordGoal g m settled) s = record_goal env oid g m settled s"
| "run_op env oid (SampleFloor i m) s = record_sampled_floor env oid i m s"
| "run_op env oid (AdoptGoal g m d) s = adopt_active_goal env oid g m d s"
| "run_op env oid (BindGoal g i m) s = bind_goal env oid g i m s"
| "run_op env oid (BindRequests b ps) s = bind_requests env oid b ps s"
| "run_op env oid (RegisterThread t p v) s = register_request_thread env oid t p v s"
| "run_op env oid (ContinueThread t p v) s = continue_request_thread env oid t p v s"
| "run_op env oid (Protect obs v) s = protect_completion env oid obs v s"
| "run_op env oid (Assign t name v) s = assign_completion env oid t name v s"
| "run_op env oid (Resolve name out v note) s = resolve_completion env oid name out v note s"
| "run_op env oid (ReserveRequest i t m n enforce) s = reserve_request env oid i t m n enforce s"
| "run_op env oid (SettleRequest i r m d) s = settle_request env oid i r m d s"
| "run_op env oid (Correct k i) s = correction env oid k i s"

definition ledger_step :: "string \<Rightarrow> objective option \<Rightarrow> objective option \<Rightarrow> bool" where
  "ledger_step oid s s' = (\<exists>env op r. run_op env oid op s = (r, s'))"

section \<open>Changes\<close>

text \<open>A reservation, once made, keeps its terms.\<close>

definition same_actor_terms :: "budget_actor \<Rightarrow> budget_actor \<Rightarrow> bool" where
  "same_actor_terms a a' =
     (ba_terms a \<noteq> None \<longrightarrow> ba_terms a' = ba_terms a \<and> ba_reservation a' = ba_reservation a \<and> ba_deadline a' = ba_deadline a
        \<and> ba_thread a' = ba_thread a \<and> ba_purpose a' = ba_purpose a)"

inductive ledger_change :: "rat \<Rightarrow> ledger_op \<Rightarrow> objective \<Rightarrow> objective \<Rightarrow> bool" for now :: rat and op :: ledger_op where
  change_none: "ledger_change now op s s"
| change_observed: "ledger_change now op s (observe now s)"
| change_authorized: "ledger_change now op s ((observe now s)\<lparr>ol_terms := c,
      ol_authorizations := ol_authorizations s @ [\<lparr>au_action = action, au_terms = c, au_approval = ap, au_at = now\<rparr>]\<rparr>)"
| change_lifecycle: "\<not> bound_to_requests s \<Longrightarrow> (\<And>a. dict_get (ol_actors s) i = Some a \<Longrightarrow> same_actor_terms a a') \<Longrightarrow>
    ledger_change now op s (put_actor i a' (observe now s))"
| change_floor: "dict_get (ol_actors s) i = Some a \<Longrightarrow>
    ledger_change now op s (put_actor i (a\<lparr>ba_used := n, ba_known := False, ba_settled := False\<rparr>) (observe now s))"
| change_alias: "\<not> bound_to_requests s \<Longrightarrow> dict_get (ol_aliases s) g \<in> {None, Some b} \<Longrightarrow>
    ledger_change now op s ((observe now s)\<lparr>ol_aliases := dict_set g b (ol_aliases s)\<rparr>)"
| change_bound: "\<not> bound_to_requests s \<Longrightarrow> ol_actors s = [] \<Longrightarrow>
    ledger_change now op s (s\<lparr>ol_binding := binding, ol_sessions := xs, ol_completions := []\<rparr>)"
| change_session: "bound_to_requests s \<Longrightarrow> dict_get (ol_sessions s) t = None \<Longrightarrow> s1 = s \<or> s1 = observe now s \<Longrightarrow>
    ledger_change now op s (put_session t x s1)"
| change_protected: "bound_to_requests s \<Longrightarrow> ol_plan s = None \<Longrightarrow> ol_actors s = [] \<Longrightarrow>
    ledger_change now op s ((observe now s)\<lparr>ol_plan := Some plan, ol_plan_history := []\<rparr>)"
| change_assigned: "dict_get (ol_sessions s) t = Some x \<Longrightarrow>
    ledger_change now op s ((put_session t (x\<lparr>bs_purpose := p\<rparr>) (observe now s))\<lparr>ol_plan_history := h\<rparr>)"
| change_resolved: "plan_obligation s name = Some ob \<Longrightarrow> og_state ob \<noteq> Completed \<Longrightarrow>
    ledger_change now op s ((put_obligation name (ob\<lparr>og_state := st, og_disposition := d\<rparr>) (observe now s))\<lparr>ol_plan_history := h\<rparr>)"
| change_admitted: "op = ReserveRequest i t (JInt m) (JInt n) enforce \<Longrightarrow> 0 \<le> m \<Longrightarrow> 0 \<le> n \<Longrightarrow> bound_to_requests s \<Longrightarrow>
    dict_get (ol_actors s) i = None \<Longrightarrow>
    x = (case dict_get (ol_sessions s) t of None \<Rightarrow> plain_session 0 (window s now) | Some x \<Rightarrow> x) \<Longrightarrow>
    s1 = (if dict_get (ol_sessions s) t = None then put_session t x (observe now s) else observe now s) \<Longrightarrow>
    request_refusal enforce s1 now t x m n = None \<Longrightarrow> start_remediation (bs_purpose x) s1 = Some s2 \<Longrightarrow>
    ledger_change now op s (put_actor i (request_actor t x m n) s2)"
| change_unsettled: "bound_to_requests s \<Longrightarrow> dict_get (ol_actors s) i = Some a \<Longrightarrow>
    ledger_change now op s (put_actor i (unsettled n a) (observe now s))"
| change_settled: "op = SettleRequest i (Some r) (JInt n) digest \<Longrightarrow> bound_to_requests s \<Longrightarrow> dict_get (ol_actors s) i = Some a \<Longrightarrow>
    \<not> ambiguous s a (Some r) (Some n) \<Longrightarrow>
    ledger_change now op s ((put_actor i (a\<lparr>ba_used := n, ba_settled := True, ba_known := True\<rparr>) (observe now s))
      \<lparr>ol_completions := dict_set r \<lparr>rp_actor = i, rp_tokens = Some n, rp_fingerprint = digest\<rparr> (ol_completions s)\<rparr>)"
| change_corrected: "cycles = ol_cycles s \<or> cycles = ol_cycles s + 1 \<and> ol_cycles s < bt_cycles (ol_terms s) \<Longrightarrow>
    (\<And>k b. dict_get (ol_decisions s) k = Some b \<Longrightarrow> dict_get ds k = Some b) \<Longrightarrow>
    ledger_change now op s ((observe now s)\<lparr>ol_cycles := cycles, ol_decisions := ds\<rparr>)"

inductive_cases ledger_changeE: "ledger_change now op s s'"

section \<open>Observing\<close>

lemma observe_simps [simp]:
  "ol_terms (observe now s) = ol_terms s" "ol_original_deadline (observe now s) = ol_original_deadline s"
  "ol_prior (observe now s) = ol_prior s" "ol_actors (observe now s) = ol_actors s" "ol_cycles (observe now s) = ol_cycles s"
  "ol_authorizations (observe now s) = ol_authorizations s" "ol_observed (observe now s) = max now (ol_observed s)"
  "ol_aliases (observe now s) = ol_aliases s" "ol_binding (observe now s) = ol_binding s" "ol_sessions (observe now s) = ol_sessions s"
  "ol_completions (observe now s) = ol_completions s" "ol_plan (observe now s) = ol_plan s"
  "ol_plan_history (observe now s) = ol_plan_history s" "ol_decisions (observe now s) = ol_decisions s"
  by (simp_all add: observe_def)

lemma put_actor_simps [simp]:
  "ol_terms (put_actor i a s) = ol_terms s" "ol_original_deadline (put_actor i a s) = ol_original_deadline s"
  "ol_prior (put_actor i a s) = ol_prior s" "ol_actors (put_actor i a s) = dict_set i a (ol_actors s)"
  "ol_cycles (put_actor i a s) = ol_cycles s" "ol_authorizations (put_actor i a s) = ol_authorizations s"
  "ol_observed (put_actor i a s) = ol_observed s" "ol_aliases (put_actor i a s) = ol_aliases s"
  "ol_binding (put_actor i a s) = ol_binding s" "ol_sessions (put_actor i a s) = ol_sessions s"
  "ol_completions (put_actor i a s) = ol_completions s" "ol_plan (put_actor i a s) = ol_plan s"
  "ol_plan_history (put_actor i a s) = ol_plan_history s" "ol_decisions (put_actor i a s) = ol_decisions s"
  by (simp_all add: put_actor_def)

lemma put_session_simps [simp]:
  "ol_terms (put_session t x s) = ol_terms s" "ol_original_deadline (put_session t x s) = ol_original_deadline s"
  "ol_prior (put_session t x s) = ol_prior s" "ol_actors (put_session t x s) = ol_actors s" "ol_cycles (put_session t x s) = ol_cycles s"
  "ol_authorizations (put_session t x s) = ol_authorizations s" "ol_observed (put_session t x s) = ol_observed s"
  "ol_aliases (put_session t x s) = ol_aliases s" "ol_binding (put_session t x s) = ol_binding s"
  "ol_sessions (put_session t x s) = dict_set t x (ol_sessions s)"
  "ol_completions (put_session t x s) = ol_completions s" "ol_plan (put_session t x s) = ol_plan s"
  "ol_plan_history (put_session t x s) = ol_plan_history s" "ol_decisions (put_session t x s) = ol_decisions s"
  by (simp_all add: put_session_def)

lemma bound_simps [simp]:
  "bound_to_requests (observe now s) = bound_to_requests s" "bound_to_requests (put_actor i a s) = bound_to_requests s"
  "bound_to_requests (put_session t x s) = bound_to_requests s"
  by (simp_all add: bound_to_requests_def)

section \<open>Every call makes such a change\<close>

lemma transaction_state:
  assumes "ledger_transaction writes env (configured_only body) (Some s) = (r, s')"
    and "\<And>now v t. body now s = Some (v, t) \<Longrightarrow> ledger_change now op s t"
  shows "\<exists>now t. s' = Some t \<and> ledger_change now op s t"
  using assms(1) assms(2) change_none [of _ op s]
  by (fastforce simp: ledger_transaction_def configured_only_def split: if_splits option.splits write_fault.splits)

lemma count_of_Some: "count_of v = Some n \<longleftrightarrow> v = JInt n \<and> 0 \<le> n"
  by (auto simp: count_of_def split: json.splits)

lemma some_change [simp]: "\<exists>now. ledger_change now op s s"
  using change_none by blast

lemma unchanged: "\<exists>now t. Some s = Some t \<and> ledger_change now op s t"
  using change_none by blast

lemma authorize_change: "authorize_body oid c ap action now s = Some (v, t) \<Longrightarrow> ledger_change now op s t"
  using change_authorized [where now = now and op = op and s = s and c = c and action = action and ap = ap] change_observed [of now op s]
  by (auto simp: authorize_body_def Let_def split: if_splits)

lemma reserve_change:
  assumes "reserve_body oid i m n now s = Some (v, t)"
  shows "ledger_change now op s t"
proof -
  have "ledger_change now op s (put_actor i a' (observe now s))"
    if "\<not> bound_to_requests s" "dict_get (ol_actors s) i = None" for a'
    using that by (intro change_lifecycle) auto
  with assms show ?thesis
    using change_observed [of now op s]
    by (auto simp: reserve_body_def Let_def split: if_splits option.splits bind_splits)
qed

lemma same_actor_terms_recorded: "same_actor_terms a (with_reading n settled a)"
  by (simp add: same_actor_terms_def with_reading_def split: option.split)

lemma record_change:
  assumes "record_body oid goal i n settled now s = Some (v, t)"
  shows "ledger_change now op s t"
proof -
  have "ledger_change now op s (put_actor j (with_reading n' settled (case dict_get (ol_actors s) j of None \<Rightarrow> observed_actor | Some a \<Rightarrow> a)) (observe now s))"
    if "\<not> bound_to_requests s" for j n'
    using that by (intro change_lifecycle) (auto simp: same_actor_terms_recorded)
  with assms show ?thesis
    by (auto simp: record_body_def Let_def split: if_splits prod.splits)
qed

lemma floor_change: "floor_body oid i n now s = Some (v, t) \<Longrightarrow> ledger_change now op s t"
  using change_floor by (auto simp: floor_body_def Let_def split: option.splits)

lemma adopted_change:
  assumes "adopted oid now i quota d used (observe now s) = Some (v, t)" "\<not> bound_to_requests s"
    and "\<And>a. dict_get (ol_actors s) i = Some a \<Longrightarrow> ba_terms a = None"
  shows "ledger_change now op s t"
proof -
  have "ledger_change now op s (put_actor i a' (observe now s))" for a'
    using assms(2,3) by (intro change_lifecycle) (auto simp: same_actor_terms_def)
  with assms(1) show ?thesis
    using change_observed [of now op s] by (auto simp: adopted_def Let_def split: if_splits)
qed

lemma adopt_change:
  assumes "adopt_body oid g budget deadline now s = Some (v, t)"
  shows "ledger_change now op s t"
  using assms change_observed [of now op s]
  by (auto simp: adopt_body_def Let_def split: prod.splits if_splits option.splits intro: adopted_change)

lemma bind_goal_change: "bind_goal_body oid g i n now s = Some (v, t) \<Longrightarrow> ledger_change now op s t"
  using change_alias [of s g "(i, n)" now op] by (auto simp: bind_goal_body_def Let_def split: if_splits option.splits)

lemma bind_requests_change: "bind_requests_body oid b ps now s = Some (v, t) \<Longrightarrow> ledger_change now op s t"
  using change_bound [where now = now and op = op and s = s and binding = b] change_none by (auto simp: bind_requests_body_def Let_def split: if_splits option.splits)

lemma register_change: "register_body oid t p prov now s = Some (v, s') \<Longrightarrow> ledger_change now op s s'"
  using change_session [of s t s now op] change_none by (auto simp: register_body_def Let_def split: if_splits option.splits)

lemma continue_change: "continue_body oid t p prov now s = Some (v, s') \<Longrightarrow> ledger_change now op s s'"
  using change_session [of s t s now op] change_none by (auto simp: continue_body_def Let_def split: if_splits option.splits)

lemma protect_change: "protect_body oid src obs now s = Some (v, t) \<Longrightarrow> ledger_change now op s t"
  using change_protected change_observed by (auto simp: protect_body_def Let_def split: if_splits option.splits)

lemma plan_obligation_observe [simp]: "plan_obligation (observe now s) name = plan_obligation s name"
  by (simp add: plan_obligation_def)

lemma assign_change: "assign_body oid t name src now s = Some (v, s') \<Longrightarrow> ledger_change now op s s'"
  using change_assigned change_observed by (auto simp: assign_body_def Let_def split: if_splits option.splits)

lemma resolve_change: "resolve_body oid name d now s = Some (v, s') \<Longrightarrow> ledger_change now op s s'"
  using change_resolved change_observed by (auto simp: resolve_body_def Let_def split: if_splits option.splits)

lemma view_change: "view_body oid now s = Some (v, t) \<Longrightarrow> ledger_change now op s t"
  using change_observed by (auto simp: view_body_def Let_def)

lemma same_fields: "ol_decisions x = d \<Longrightarrow> x\<lparr>ol_decisions := d\<rparr> = x" "ol_cycles x = c \<Longrightarrow> x\<lparr>ol_cycles := c\<rparr> = x"
  by auto

lemma correction_change:
  assumes "correction_body oid k i now s = Some (v, t)"
  shows "ledger_change now op s t"
proof (cases "Option.bind k (dict_get (ol_decisions s))")
  case None
  let ?b = "correction_eligible (observe now s) now i \<and> ol_cycles s < bt_cycles (ol_terms s)"
  have raw: "t = (let s1 = (if ?b then (observe now s)\<lparr>ol_cycles := ol_cycles s + 1\<rparr> else observe now s)
      in case k of None \<Rightarrow> s1 | Some k \<Rightarrow> s1\<lparr>ol_decisions := dict_set k ?b (ol_decisions s1)\<rparr>)"
    using assms None by (cases ?b; cases k; clarsimp simp: correction_body_def Let_def)
  have t: "t = (observe now s)\<lparr>ol_cycles := (if ?b then ol_cycles s + 1 else ol_cycles s),
      ol_decisions := (case k of None \<Rightarrow> ol_decisions s | Some k \<Rightarrow> dict_set k ?b (ol_decisions s))\<rparr>"
    unfolding raw by (cases k; cases ?b) (simp_all add: Let_def same_fields)
  have "dict_get (case k of None \<Rightarrow> ol_decisions s | Some k \<Rightarrow> dict_set k ?b (ol_decisions s)) j = Some b"
    if "dict_get (ol_decisions s) j = Some b" for j b
    using that None by (cases k) (auto simp: dict_set_get)
  moreover have "(if ?b then ol_cycles s + 1 else ol_cycles s) = ol_cycles s
      \<or> (if ?b then ol_cycles s + 1 else ol_cycles s) = ol_cycles s + 1 \<and> ol_cycles s < bt_cycles (ol_terms s)"
    by simp
  ultimately show ?thesis unfolding t by (intro change_corrected)
next
  case (Some b)
  with assms change_observed [of now op s] show ?thesis by (auto simp: correction_body_def Let_def)
qed

lemma window_observe [simp]: "window (observe now s) start = window s start"
  by (simp add: window_def)

lemma reserve_request_change:
  assumes "reserve_request_body oid i t m n enforce now s = Some (v, s')" "0 \<le> m" "0 \<le> n"
  shows "ledger_change now (ReserveRequest i t (JInt m) (JInt n) enforce) s s'"
proof -
  let ?op = "ReserveRequest i t (JInt m) (JInt n) enforce"
  let ?x = "case dict_get (ol_sessions s) t of None \<Rightarrow> plain_session 0 (window s now) | Some x \<Rightarrow> x"
  let ?s1 = "if dict_get (ol_sessions s) t = None then put_session t ?x (observe now s) else observe now s"
  have ok: "bound_to_requests s" "dict_get (ol_actors s) i = None"
    using assms(1) by (auto simp: reserve_request_body_def Let_def split: if_splits)
  show ?thesis
  proof (cases "request_refusal enforce ?s1 now t ?x m n")
    case None
    with assms(1) obtain s2 where s2: "start_remediation (bs_purpose ?x) ?s1 = Some s2" "s' = put_actor i (request_actor t ?x m n) s2"
      by (auto simp: reserve_request_body_def Let_def split: if_splits option.splits)
    show ?thesis unfolding s2(2) by (rule change_admitted [OF refl assms(2,3) ok refl refl None s2(1)])
  next
    case (Some reason)
    with assms(1) have "s' = ?s1" by (simp add: reserve_request_body_def Let_def split: if_splits)
    then show ?thesis
      using change_session [OF ok(1), of t "observe now s" now ?op ?x] change_observed [of now ?op s] by (cases "dict_get (ol_sessions s) t") auto
  qed
qed

lemma earlier_proof_observe [simp]: "earlier_proof (observe now s) r = earlier_proof s r"
  by (cases r) (simp_all add: earlier_proof_def)

lemma ambiguous_observe [simp]: "ambiguous (observe now s) a r n = ambiguous s a r n"
  by (simp add: ambiguous_def)

lemma settle_change:
  assumes "settle_request_body oid i r n digest now s = Some (v, s')" "m = (case n of None \<Rightarrow> JNull | Some k \<Rightarrow> JInt k)"
  shows "ledger_change now (SettleRequest i r m digest) s s'"
proof -
  obtain a where a: "dict_get (ol_actors s) i = Some a" and b: "bound_to_requests s"
    using assms(1) by (auto simp: settle_request_body_def Let_def split: option.splits if_splits)
  consider "s' = observe now s" | "s' = put_actor i (unsettled n a) (observe now s)"
    | r' k where "r = Some r'" "n = Some k" "\<not> ambiguous s a r n"
      "s' = (put_actor i (a\<lparr>ba_used := k, ba_settled := True, ba_known := True\<rparr>) (observe now s))
         \<lparr>ol_completions := dict_set r' \<lparr>rp_actor = i, rp_tokens = Some k, rp_fingerprint = digest\<rparr> (ol_completions s)\<rparr>"
    using assms(1) a by (auto simp: settle_request_body_def Let_def split: option.splits if_splits)
  then show ?thesis
  proof cases
    case 3
    then show ?thesis unfolding 3(4) using assms(2) by (intro change_settled [OF _ b a]) auto
  qed (simp_all add: change_observed change_unsettled [OF b a])
qed

lemma configure_change:
  assumes "configure_ledger env oid c ap n (Some s) = (r, s')"
  shows "\<exists>now t. s' = Some t \<and> ledger_change now op s t"
proof -
  have "\<exists>now t. s' = Some t \<and> ledger_change now op s t"
    if "ledger_transaction True env (configure_body oid c' ap n') (Some s) = (r, s')" for c' n'
    using that change_observed [of _ op s] unchanged [of s op]
    by (fastforce simp: ledger_transaction_def configure_body_def Let_def split: if_splits option.splits write_fault.splits)
  with assms unchanged show ?thesis by (auto simp: configure_ledger_def split: option.splits if_splits)
qed

lemma optional_count_Some: "optional_count v = Some n \<Longrightarrow> v = (case n of None \<Rightarrow> JNull | Some k \<Rightarrow> JInt k)"
  by (auto simp: optional_count_def count_of_Some split: if_splits)

text \<open>A ledger that is configured stays configured, and every call makes one of the changes.\<close>

lemma op_changes:
  assumes "run_op env oid op (Some s) = (r, s')"
  shows "\<exists>now t. s' = Some t \<and> ledger_change now op s t"
proof -
  note ts = transaction_state [of _ env _ s r s']
  have inspect: "\<exists>now t. s' = Some t \<and> ledger_change now op s t" if "inspect_ledger env oid (Some s) = (r, s')"
    using that unfolding inspect_ledger_def by (rule ts) (auto simp: change_none)
  from assms show ?thesis
  proof (cases op)
    case (Configure c ap n)
    with assms show ?thesis using configure_change by simp
  next
    case View
    with assms have "ledger_transaction True env (configured_only (view_body oid)) (Some s) = (r, s')" by (simp add: view_ledger_def)
    then show ?thesis by (rule ts) (rule view_change)
  next
    case Inspect
    with assms inspect show ?thesis by simp
  next
    case (Extend c ap)
    with assms show ?thesis
      by (auto simp: extend_ledger_def authorize_ledger_def split: option.splits if_splits intro: ts authorize_change)
  next
    case (Reset c ap)
    with assms show ?thesis
      by (auto simp: reset_ledger_def authorize_ledger_def split: option.splits if_splits intro: ts authorize_change)
  next
    case (Reserve i m n)
    with assms show ?thesis by (auto simp: reserve_actor_def split: option.splits if_splits intro: ts reserve_change)
  next
    case (RecordActor i m n)
    with assms show ?thesis
      by (auto simp: record_actor_def record_usage_def split: option.splits if_splits intro: ts record_change)
  next
    case (RecordGoal i m n)
    with assms show ?thesis
      by (auto simp: record_goal_def record_usage_def split: option.splits if_splits intro: ts record_change)
  next
    case (SampleFloor i m)
    with assms show ?thesis by (auto simp: record_sampled_floor_def split: option.splits intro: ts floor_change)
  next
    case (AdoptGoal g m d)
    with assms show ?thesis by (auto simp: adopt_active_goal_def split: option.splits intro: ts adopt_change)
  next
    case (BindGoal g i m)
    with assms show ?thesis by (auto simp: bind_goal_def split: option.splits intro: ts bind_goal_change)
  next
    case (BindRequests b ps)
    with assms show ?thesis by (auto simp: bind_requests_def intro: ts bind_requests_change)
  next
    case (RegisterThread t p v)
    with assms show ?thesis by (auto simp: register_request_thread_def intro: ts register_change)
  next
    case (ContinueThread t p v)
    with assms show ?thesis by (auto simp: continue_request_thread_def split: if_splits intro: ts continue_change)
  next
    case (Protect obs v)
    with assms show ?thesis by (auto simp: protect_completion_def split: option.splits intro: ts protect_change)
  next
    case (Assign t name v)
    with assms show ?thesis by (auto simp: assign_completion_def split: option.splits intro: ts assign_change)
  next
    case (Resolve name out v memo)
    with assms show ?thesis
      by (auto simp: resolve_completion_def split: option.splits json.splits if_splits intro: ts resolve_change)
  next
    case (ReserveRequest i t m n enforce)
    with assms show ?thesis
      by (auto simp: reserve_request_def count_of_Some split: option.splits intro: ts reserve_request_change)
  next
    case (SettleRequest i q m d)
    with assms show ?thesis
      by (auto simp: settle_request_def split: option.splits dest: optional_count_Some intro: ts settle_change)
  next
    case (Correct k i)
    with assms show ?thesis by (auto simp: correction_def intro: ts correction_change)
  qed
qed

end
