(* ===== verification/BudgetLaws.thy ===== *)
theory BudgetLaws
  imports BudgetRuns
begin

text \<open>
  What holds along the histories of a ledger: nothing recorded is lost, and a transport whose requests are all admitted under
  the limits never commits more than was authorised.
\<close>

section \<open>Steps that keep a promise\<close>

text \<open>The contract of a component whose every step keeps an invariant and relates the new state to the old one.\<close>

locale keeping =
  fixes step :: "'s \<Rightarrow> 's \<Rightarrow> bool" and ok :: "'s \<Rightarrow> bool" and keeps :: "'s \<Rightarrow> 's \<Rightarrow> bool"
  assumes keeps_refl: "keeps s s"
    and keeps_trans: "keeps s t \<Longrightarrow> keeps t u \<Longrightarrow> keeps s u"
    and step_ok: "ok s \<Longrightarrow> step s t \<Longrightarrow> ok t"
    and step_keeps: "ok s \<Longrightarrow> step s t \<Longrightarrow> keeps s t"
begin

lemma run:
  assumes "step\<^sup>*\<^sup>* s t" "ok s"
  shows "ok t \<and> keeps s t"
  using assms(1)
proof (induction rule: rtranclp_induct)
  case base
  then show ?case using assms(2) keeps_refl by blast
next
  case (step t u)
  then show ?case using step_ok step_keeps keeps_trans by blast
qed

lemmas run_ok = run [THEN conjunct1] and run_keeps = run [THEN conjunct2]

end

section \<open>Entries of a dictionary\<close>

definition entries_kept :: "('a \<Rightarrow> 'a \<Rightarrow> bool) \<Rightarrow> (string, 'a) dict \<Rightarrow> (string, 'a) dict \<Rightarrow> bool" where
  "entries_kept R d e = (\<forall>k x. dict_get d k = Some x \<longrightarrow> (\<exists>y. dict_get e k = Some y \<and> R x y))"

lemma entries_kept_refl [simp]: "reflp R \<Longrightarrow> entries_kept R d d"
  by (simp add: entries_kept_def reflp_def)

lemma entries_kept_trans: "entries_kept R d e \<Longrightarrow> entries_kept R e f \<Longrightarrow> transp R \<Longrightarrow> entries_kept R d f"
  unfolding entries_kept_def transp_def by metis

lemma entries_kept_set: "reflp R \<Longrightarrow> (\<And>x. dict_get d k = Some x \<Longrightarrow> R x y) \<Longrightarrow> entries_kept R d (dict_set k y d)"
  by (simp add: entries_kept_def reflp_def dict_set_get)

lemma entries_kept_new: "dict_get d k = None \<Longrightarrow> reflp R \<Longrightarrow> entries_kept R d (dict_set k y d)"
  by (rule entries_kept_set) simp_all

lemma entries_kept_Nil [simp]: "entries_kept R [] d"
  by (simp add: entries_kept_def)

lemma entries_keptD: "entries_kept R d e \<Longrightarrow> dict_get d k = Some x \<Longrightarrow> \<exists>y. dict_get e k = Some y \<and> R x y"
  by (simp add: entries_kept_def)

section \<open>Nothing recorded is lost\<close>

definition same_share :: "budget_session \<Rightarrow> budget_session \<Rightarrow> bool" where
  "same_share x y = (bs_prior y = bs_prior x \<and> bs_deadline y = bs_deadline x \<and> bs_parent y = bs_parent x \<and> bs_group y = bs_group x)"

definition obligation_kept :: "obligation \<Rightarrow> obligation \<Rightarrow> bool" where
  "obligation_kept ob ob' =
     (same_obligation ob ob' \<and> (og_started ob \<longrightarrow> og_started ob')
      \<and> (og_state ob = Completed \<longrightarrow> og_state ob' = Completed \<and> og_disposition ob' = og_disposition ob))"

definition plan_entries :: "objective \<Rightarrow> (string, obligation) dict" where
  "plan_entries s = (case ol_plan s of None \<Rightarrow> [] | Some plan \<Rightarrow> pl_obligations plan)"

lemma plan_obligation_entry: "plan_obligation s n = dict_get (plan_entries s) n"
  by (simp add: plan_obligation_def plan_entries_def split: option.split)

definition transport_kept :: "objective \<Rightarrow> objective \<Rightarrow> bool" where
  "transport_kept s t =
     (ol_binding t = ol_binding s \<and> entries_kept (=) (ol_completions s) (ol_completions t)
      \<and> entries_kept same_share (ol_sessions s) (ol_sessions t))"

definition kept :: "objective \<Rightarrow> objective \<Rightarrow> bool" where
  "kept s t =
     (ol_prior t = ol_prior s \<and> ol_original_deadline t = ol_original_deadline s
      \<and> (\<exists>xs. ol_authorizations t = ol_authorizations s @ xs) \<and> ol_cycles s \<le> ol_cycles t \<and> ol_observed s \<le> ol_observed t
      \<and> entries_kept same_actor_terms (ol_actors s) (ol_actors t) \<and> entries_kept (=) (ol_aliases s) (ol_aliases t)
      \<and> entries_kept (=) (ol_decisions s) (ol_decisions t) \<and> entries_kept obligation_kept (plan_entries s) (plan_entries t)
      \<and> (bound_to_requests s \<longrightarrow> transport_kept s t))"

lemma kept_orders [simp]:
  "reflp same_actor_terms" "transp same_actor_terms" "reflp same_share" "transp same_share" "reflp obligation_kept"
  "transp obligation_kept"
  by (auto simp: reflp_def transp_def same_actor_terms_def same_share_def obligation_kept_def same_obligation_def)

lemma transport_kept_refl [simp]: "transport_kept s s"
  by (simp add: transport_kept_def)

lemma transport_kept_trans: "transport_kept s t \<Longrightarrow> transport_kept t u \<Longrightarrow> transport_kept s u"
  by (auto simp: transport_kept_def intro: entries_kept_trans)

lemma transport_kept_bound: "transport_kept s t \<Longrightarrow> bound_to_requests t = bound_to_requests s"
  by (simp add: transport_kept_def bound_to_requests_def)

lemma kept_refl [simp]: "kept s s"
  by (simp add: kept_def)

lemma kept_trans:
  assumes "kept s t" "kept t u"
  shows "kept s u"
proof -
  have "bound_to_requests s \<longrightarrow> transport_kept s u"
    using assms transport_kept_trans [of s t u] transport_kept_bound [of s t] by (simp add: kept_def)
  moreover have "entries_kept same_actor_terms (ol_actors s) (ol_actors u)" "entries_kept (=) (ol_aliases s) (ol_aliases u)"
    "entries_kept (=) (ol_decisions s) (ol_decisions u)" "entries_kept obligation_kept (plan_entries s) (plan_entries u)"
    using assms by (auto simp: kept_def intro: entries_kept_trans)
  moreover have "\<exists>xs. ol_authorizations u = ol_authorizations s @ xs" using assms by (auto simp: kept_def)
  ultimately show ?thesis using assms by (simp add: kept_def)
qed

section \<open>Every change keeps what is recorded\<close>

lemma plan_entries_simps [simp]:
  "plan_entries (observe now s) = plan_entries s" "plan_entries (put_actor i a s) = plan_entries s"
  "plan_entries (put_session t x s) = plan_entries s" "plan_entries (s\<lparr>ol_plan_history := h\<rparr>) = plan_entries s"
  "plan_entries (s\<lparr>ol_cycles := c\<rparr>) = plan_entries s" "plan_entries (s\<lparr>ol_aliases := g\<rparr>) = plan_entries s"
  "plan_entries (s\<lparr>ol_decisions := ds\<rparr>) = plan_entries s" "plan_entries (s\<lparr>ol_completions := cs\<rparr>) = plan_entries s"
  "plan_entries (s\<lparr>ol_authorizations := as\<rparr>) = plan_entries s" "plan_entries (s\<lparr>ol_terms := c'\<rparr>) = plan_entries s"
  "plan_entries (s\<lparr>ol_sessions := xs\<rparr>) = plan_entries s" "plan_entries (s\<lparr>ol_binding := b\<rparr>) = plan_entries s"
  by (simp_all add: plan_entries_def)

lemma put_obligation_simps [simp]:
  "ol_terms (put_obligation n ob s) = ol_terms s" "ol_original_deadline (put_obligation n ob s) = ol_original_deadline s"
  "ol_prior (put_obligation n ob s) = ol_prior s" "ol_actors (put_obligation n ob s) = ol_actors s"
  "ol_cycles (put_obligation n ob s) = ol_cycles s" "ol_authorizations (put_obligation n ob s) = ol_authorizations s"
  "ol_observed (put_obligation n ob s) = ol_observed s" "ol_aliases (put_obligation n ob s) = ol_aliases s"
  "ol_binding (put_obligation n ob s) = ol_binding s" "ol_sessions (put_obligation n ob s) = ol_sessions s"
  "ol_completions (put_obligation n ob s) = ol_completions s" "ol_decisions (put_obligation n ob s) = ol_decisions s"
  by (simp_all add: put_obligation_def)

lemma put_obligation_entries: "plan_obligation s n \<noteq> None \<Longrightarrow> plan_entries (put_obligation n ob s) = dict_set n ob (plan_entries s)"
  by (auto simp: plan_obligation_def plan_entries_def put_obligation_def split: option.splits)

lemma started_obligation:
  assumes "start_remediation p s = Some t"
  obtains "t = s" | n ob where "plan_obligation s n = Some ob" "t = (put_obligation n (ob\<lparr>og_started := True\<rparr>) s)\<lparr>ol_cycles := ol_cycles s + 1\<rparr>"
proof (cases "t = s")
  case True
  then show ?thesis by (rule that(1))
next
  case False
  then obtain n where n: "p = Some n" using assms by (cases p) (simp_all add: start_remediation_def split: if_splits)
  with assms False obtain ob where "plan_obligation s n = Some ob" "cycle_needed s p"
    by (cases "plan_obligation s n") (simp_all add: start_remediation_def split: if_splits)
  with assms n False that(2) show ?thesis by (simp add: start_remediation_def split: if_splits)
qed

lemma start_remediation_kept:
  assumes "start_remediation p s = Some t"
  shows "ol_actors t = ol_actors s \<and> kept s t"
  using assms
proof (cases rule: started_obligation)
  case (2 n ob)
  have "entries_kept obligation_kept (plan_entries s) (plan_entries t)"
    using 2(1) by (simp add: 2(2) put_obligation_entries)
      (rule entries_kept_set, simp_all add: plan_obligation_entry obligation_kept_def same_obligation_def)
  then show ?thesis by (simp add: 2(2) kept_def transport_kept_def)
qed simp

lemma kept_observe [simp]: "kept s (observe now s)"
  by (simp add: kept_def transport_kept_def)

lemma kept_actor:
  assumes "\<And>a. dict_get (ol_actors s) i = Some a \<Longrightarrow> same_actor_terms a b"
  shows "kept s (put_actor i b s)"
  using assms by (simp add: kept_def transport_kept_def entries_kept_set)

lemma kept_session:
  assumes "\<And>y. dict_get (ol_sessions s) t = Some y \<Longrightarrow> same_share y x"
  shows "kept s (put_session t x s)"
  using assms by (simp add: kept_def transport_kept_def entries_kept_set)

lemma settled_response_is_new: "\<not> ambiguous s a (Some r) (Some n) \<Longrightarrow> dict_get (ol_completions s) r = None"
  by (auto simp: ambiguous_def earlier_proof_def split: if_splits)

lemma change_kept: "ledger_change now op s t \<Longrightarrow> kept s t"
proof (induction rule: ledger_change.induct)
  case (change_lifecycle s i a')
  then have "kept (observe now s) (put_actor i a' (observe now s))" by (intro kept_actor) simp
  then show ?case by (rule kept_trans [OF kept_observe])
next
  case (change_floor s i a n)
  then have "kept (observe now s) (put_actor i (a\<lparr>ba_used := n, ba_known := False, ba_settled := False\<rparr>) (observe now s))"
    by (intro kept_actor) (simp add: same_actor_terms_def)
  then show ?case by (rule kept_trans [OF kept_observe])
next
  case (change_alias s g b)
  then have "entries_kept (=) (ol_aliases s) (dict_set g b (ol_aliases s))" by (intro entries_kept_set) auto
  then show ?case by (simp add: kept_def transport_kept_def)
next
  case (change_session s t s1 x)
  then have "kept s s1" "kept s1 (put_session t x s1)" by (auto intro!: kept_session)
  then show ?case by (rule kept_trans)
next
  case (change_protected s plan)
  then show ?case by (simp add: kept_def transport_kept_def plan_entries_def)
next
  case (change_assigned s t x h p)
  then have "kept (observe now s) (put_session t (x\<lparr>bs_purpose := p\<rparr>) (observe now s))"
    by (intro kept_session) (simp add: same_share_def)
  then have "kept s (put_session t (x\<lparr>bs_purpose := p\<rparr>) (observe now s))" by (rule kept_trans [OF kept_observe])
  then show ?case by (simp add: kept_def transport_kept_def)
next
  case (change_resolved s name ob h d st)
  have "entries_kept obligation_kept (plan_entries s) (dict_set name (ob\<lparr>og_state := st, og_disposition := d\<rparr>) (plan_entries s))"
    using change_resolved by (intro entries_kept_set) (auto simp: plan_obligation_entry obligation_kept_def same_obligation_def)
  then show ?case using change_resolved by (simp add: kept_def transport_kept_def put_obligation_entries)
next
  case (change_admitted i t m n enforce s x s1 s2)
  have "kept s s1"
  proof (cases "dict_get (ol_sessions s) t")
    case None
    then have "kept (observe now s) (put_session t x (observe now s))" by (intro kept_session) simp
    with None change_admitted(7) show ?thesis by (simp add: kept_trans [OF kept_observe])
  qed (simp add: change_admitted(7))
  moreover have "ol_actors s1 = ol_actors s" using change_admitted(7) by simp
  moreover have "kept s1 s2" "ol_actors s2 = ol_actors s1" using start_remediation_kept [OF change_admitted(9)] by simp_all
  moreover have "kept s2 (put_actor i (request_actor t x m n) s2)"
    using calculation(2,4) change_admitted(5) by (intro kept_actor) simp
  ultimately show ?case by (blast intro: kept_trans)
next
  case (change_unsettled s i a n)
  then have "kept (observe now s) (put_actor i (unsettled n a) (observe now s))"
    by (intro kept_actor) (simp add: same_actor_terms_def unsettled_def)
  then show ?case by (rule kept_trans [OF kept_observe])
next
  case (change_settled i r n digest s a)
  then have "kept (observe now s) (put_actor i (a\<lparr>ba_used := n, ba_settled := True, ba_known := True\<rparr>) (observe now s))"
    by (intro kept_actor) (simp add: same_actor_terms_def)
  then have "kept s (put_actor i (a\<lparr>ba_used := n, ba_settled := True, ba_known := True\<rparr>) (observe now s))"
    by (rule kept_trans [OF kept_observe])
  moreover have "entries_kept (=) (ol_completions s)
      (dict_set r \<lparr>rp_actor = i, rp_tokens = Some n, rp_fingerprint = digest\<rparr> (ol_completions s))"
    using settled_response_is_new [OF change_settled(4)] by (intro entries_kept_new) auto
  ultimately show ?case by (simp add: kept_def transport_kept_def)
next
  case (change_corrected cycles s ds)
  then have "entries_kept (=) (ol_decisions s) ds" by (simp add: entries_kept_def)
  then show ?case using change_corrected(1) by (auto simp: kept_def transport_kept_def)
qed (auto simp: kept_def transport_kept_def)

text \<open>A ledger without a configuration promises nothing.\<close>

definition ledger_kept :: "objective option \<Rightarrow> objective option \<Rightarrow> bool" where
  "ledger_kept s s' = (\<forall>t. s = Some t \<longrightarrow> (\<exists>t'. s' = Some t' \<and> kept t t'))"

interpretation ledger: keeping "ledger_step oid" "\<lambda>_. True" ledger_kept
proof
  show "ledger_kept s s" for s by (simp add: ledger_kept_def)
  show "ledger_kept s u" if "ledger_kept s t" "ledger_kept t u" for s t u
    using that kept_trans unfolding ledger_kept_def by metis
  show "ledger_kept s t" if "ledger_step oid s t" for s t
  proof (cases s)
    case (Some u)
    with that obtain env op r where "run_op env oid op (Some u) = (r, t)" by (auto simp: ledger_step_def)
    from op_changes [OF this] Some show ?thesis using change_kept by (auto simp: ledger_kept_def)
  qed (simp add: ledger_kept_def)
qed simp

lemma ledger_run_keeps:
  assumes "(ledger_step oid)\<^sup>*\<^sup>* (Some s) s'"
  obtains t where "s' = Some t" "kept s t"
  using ledger.run_keeps [OF assms] by (auto simp: ledger_kept_def)

end
