(* ===== verification/BudgetAllowance.thy ===== *)
theory BudgetAllowance
  imports BudgetLaws
begin

text \<open>
  The arithmetic of the ledger: what an admission adds and what a settlement frees, the bound on what is committed, and the funds
  of the completion path.
\<close>

section \<open>Totals\<close>

lemma sum_values_Nil [simp]: "sum_values f [] = 0"
  by (simp add: sum_values_def)

lemma sum_values_Cons [simp]: "sum_values f ((k, x) # d) = f x + sum_values f d"
  by (simp add: sum_values_def)

lemma sum_values_append: "sum_values f (d @ e) = sum_values f d + sum_values f e"
  by (simp add: sum_values_def)

lemma sum_values_set:
  "sum_values f (dict_set k y d) = sum_values f d + f y - (case dict_get d k of None \<Rightarrow> 0 | Some x \<Rightarrow> f x)"
  by (induction d) auto

lemma sum_values_plus: "sum_values (\<lambda>x. f x + g x) d = sum_values f d + sum_values g d"
  by (induction d) auto

lemma used_and_held: "ba_used a + held a = charged a"
  by (auto simp: held_def charged_def)

text \<open>What is used and held is what is charged.\<close>

lemma committed: "tokens_used s + tokens_reserved s = ol_prior s + sum_values charged (ol_actors s)"
  unfolding tokens_used_def tokens_reserved_def
  by (simp flip: sum_values_plus add: used_and_held)

section \<open>Known accounts\<close>

lemma all_known_before:
  assumes "list_all (\<lambda>(i, a). P a) (dict_set k b d)" "\<And>a. dict_get d k = Some a \<Longrightarrow> P a"
  shows "list_all (\<lambda>(i, a). P a) d"
  using assms by (induction d) (auto split: if_splits)

lemma all_known_value: "list_all (\<lambda>(i, a). P a) (dict_set k b d) \<Longrightarrow> P b"
  by (induction d) (auto split: if_splits)

lemma all_known_set: "list_all (\<lambda>(i, a). P a) d \<Longrightarrow> P b \<Longrightarrow> list_all (\<lambda>(i, a). P a) (dict_set k b d)"
  by (induction d) auto

lemma known_actor: "accounting_known s \<Longrightarrow> dict_get (ol_actors s) i = Some a \<Longrightarrow> ba_known a"
  by (auto simp: accounting_known_def list_all_iff dest!: map_of_SomeD)

section \<open>The ceiling\<close>

text \<open>The highest limit that was ever authorised, or what was spent before the ledger began.\<close>

definition ceiling :: "objective \<Rightarrow> int" where
  "ceiling s = foldr max (map (bt_tokens \<circ> au_terms) (ol_authorizations s)) (ol_prior s)"

lemma foldr_max_ge: "b \<le> foldr max xs (b :: int)" "x \<in> set xs \<Longrightarrow> x \<le> foldr max xs b"
  by (induction xs) (auto simp: le_max_iff_disj)

lemma foldr_max_append: "foldr max xs b \<le> foldr max (xs @ ys) (b :: int)"
  by (induction xs) (auto simp: le_max_iff_disj intro: foldr_max_ge)

text \<open>Calls of a governed transport: requests are admitted under the limits and with funds of their own, and no provider answer settles
  an attempt whose accounting has become unknown.\<close>

definition governed :: "ledger_op \<Rightarrow> objective option \<Rightarrow> bool" where
  "governed op s =
     (case op of
        ReserveRequest i t m n enforce \<Rightarrow> enforce \<and> m \<noteq> JInt 0
      | SettleRequest i r m digest \<Rightarrow>
          r = None \<or> (case s of None \<Rightarrow> True
                      | Some l \<Rightarrow> (case dict_get (ol_actors l) i of None \<Rightarrow> True | Some a \<Rightarrow> ba_known a))
      | _ \<Rightarrow> True)"

definition governed_step :: "string \<Rightarrow> objective option \<Rightarrow> objective option \<Rightarrow> bool" where
  "governed_step oid s s' = (\<exists>env op r. governed op s \<and> run_op env oid op s = (r, s'))"

definition within_allowance :: "objective \<Rightarrow> bool" where
  "within_allowance s =
     (ol_terms s \<in> set (map au_terms (ol_authorizations s))
      \<and> (bound_to_requests s \<longrightarrow> (\<forall>i a. dict_get (ol_actors s) i = Some a \<longrightarrow> 0 < ba_reservation a)
           \<and> (accounting_known s \<longrightarrow> ol_prior s + sum_values charged (ol_actors s) \<le> ceiling s)))"

lemma limit_below_ceiling: "within_allowance s \<Longrightarrow> bt_tokens (ol_terms s) \<le> ceiling s"
  unfolding within_allowance_def ceiling_def by (auto intro!: foldr_max_ge)

lemma ceiling_mono:
  assumes "kept s t"
  shows "ceiling s \<le> ceiling t"
  using assms foldr_max_append by (auto simp: kept_def ceiling_def)

lemma not_known_again:
  assumes "\<not> ba_known b"
  shows "\<not> list_all (\<lambda>(i, a). ba_known a) (dict_set i b d)"
proof
  assume "list_all (\<lambda>(i, a). ba_known a) (dict_set i b d)"
  then have "ba_known b" by (rule all_known_value)
  with assms show False by simp
qed

lemma within_kept:
  assumes "within_allowance s" "kept s t" "ol_terms t = ol_terms s" "bound_to_requests t = bound_to_requests s"
    and "bound_to_requests s \<Longrightarrow> ol_actors t = ol_actors s"
  shows "within_allowance t"
proof -
  have "ol_terms t \<in> set (map au_terms (ol_authorizations t))" using assms(1-3) by (auto simp: within_allowance_def kept_def)
  moreover have "ol_prior t = ol_prior s" using assms(2) by (simp add: kept_def)
  ultimately show ?thesis using assms(1,4,5) ceiling_mono [OF assms(2)] by (auto simp: within_allowance_def accounting_known_def)
qed

lemma within_same:
  assumes "within_allowance s" "ledger_change now op s t" "ol_terms t = ol_terms s" "ol_binding t = ol_binding s" "ol_actors t = ol_actors s"
  shows "within_allowance t"
  by (rule within_kept [OF assms(1) change_kept [OF assms(2)] assms(3) _ assms(5)]) (simp add: bound_to_requests_def assms(4))

text \<open>What an admission under the limits adds is still below the limit.\<close>

lemma fits_limit:
  assumes "request_fits s now t x m n" "0 \<le> m"
  shows "ol_prior s + sum_values charged (ol_actors s) + m \<le> bt_tokens (ol_terms s)" "accounting_known s"
  using assms committed [of s]
  by (auto simp: request_fits_def ledger_state_def remaining_tokens_def split: if_splits)

lemma refusal_None:
  assumes "request_refusal True s now t x m n = None"
  shows "request_fits s now t x m n" "completion_status s now = Some c \<Longrightarrow> protection_refusal s c (bs_purpose x) m n = None"
  using assms by (auto simp: request_refusal_def split: if_splits)

lemma charged_request_actor [simp]: "0 \<le> m \<Longrightarrow> charged (request_actor t x m n) = m"
  by (simp add: charged_def request_actor_def)

lemma change_within:
  assumes "ledger_change now op s t" "governed op (Some s)" "within_allowance s"
  shows "within_allowance t"
  using assms
proof (induction rule: ledger_change.induct)
  case (change_authorized s action c ap)
  let ?t = "(observe now s)\<lparr>ol_terms := c,
      ol_authorizations := ol_authorizations s @ [\<lparr>au_action = action, au_terms = c, au_approval = ap, au_at = now\<rparr>]\<rparr>"
  have "kept s ?t" using ledger_change.change_authorized by (rule change_kept)
  then have "ceiling s \<le> ceiling ?t" by (rule ceiling_mono)
  with change_authorized show ?case by (auto simp: within_allowance_def bound_to_requests_def accounting_known_def)
next
  case (change_lifecycle s i a')
  then show ?case by (intro within_kept [OF _ change_kept [OF ledger_change.change_lifecycle]]) auto
next
  case (change_floor s i a n)
  then show ?case
    by (auto simp: within_allowance_def accounting_known_def not_known_again dict_set_get)
next
  case (change_bound s binding xs)
  then show ?case
    by (auto simp: within_allowance_def ceiling_def foldr_max_ge)
next
  case (change_admitted i t m n enforce s x s1 s2)
  have gov: "enforce" "0 < m" using change_admitted by (auto simp: governed_def)
  have s1: "ol_actors s1 = ol_actors s" "ol_prior s1 = ol_prior s" "ol_terms s1 = ol_terms s"
    using change_admitted(7) by simp_all
  have s2: "ol_actors s2 = ol_actors s1" "kept s1 s2" using start_remediation_kept [OF change_admitted(9)] by simp_all
  have fits: "request_fits s1 now t x m n" using refusal_None(1) change_admitted(8) gov(1) by simp
  let ?t = "put_actor i (request_actor t x m n) s2"
  have new: "dict_get (ol_actors s2) i = None" using change_admitted(5) s1 s2 by simp
  have prior: "ol_prior ?t = ol_prior s" using s1 s2(2) by (simp add: kept_def)
  have "sum_values charged (ol_actors ?t) = sum_values charged (ol_actors s) + m"
    using new s1 s2 change_admitted(2) by (simp add: sum_values_set)
  then have le: "ol_prior ?t + sum_values charged (ol_actors ?t) \<le> bt_tokens (ol_terms s)"
    using fits_limit [OF fits] s1 prior gov(2) by simp
  have kept: "kept s ?t" using ledger_change.change_admitted [OF change_admitted(1-9)] by (rule change_kept)
  have terms: "ol_terms ?t = ol_terms s" using change_admitted(9) s1 by (auto elim!: started_obligation)
  have "bt_tokens (ol_terms s) \<le> ceiling ?t"
    using limit_below_ceiling [OF change_admitted(11)] ceiling_mono [OF kept] by simp
  moreover have "ol_terms ?t \<in> set (map au_terms (ol_authorizations ?t))"
    using terms change_admitted(11) kept by (auto simp: within_allowance_def kept_def)
  moreover have "0 < ba_reservation a" if "dict_get (ol_actors ?t) j = Some a" for j a
    using that change_admitted(4,11) s1 s2 gov(2) by (auto simp: within_allowance_def dict_set_get request_actor_def split: if_splits)
  ultimately show ?case using le by (simp add: within_allowance_def)
next
  case (change_unsettled s i a n)
  then show ?case
    by (auto simp: within_allowance_def accounting_known_def not_known_again dict_set_get unsettled_def)
next
  case (change_settled i r n digest s a)
  let ?t = "(put_actor i (a\<lparr>ba_used := n, ba_settled := True, ba_known := True\<rparr>) (observe now s))
      \<lparr>ol_completions := dict_set r \<lparr>rp_actor = i, rp_tokens = Some n, rp_fingerprint = digest\<rparr> (ol_completions s)\<rparr>"
  have kept: "kept s ?t" using ledger_change.change_settled [OF change_settled(1-4)] by (rule change_kept)
  have a: "ba_known a" using change_settled by (auto simp: governed_def)
  have res: "0 < ba_reservation a" using change_settled by (auto simp: within_allowance_def)
  then have "n \<le> ba_reservation a" "\<not> ba_settled a" using change_settled(4) by (auto simp: ambiguous_def)
  then have drop: "sum_values charged (ol_actors ?t) \<le> sum_values charged (ol_actors s)"
    using change_settled(3) by (simp add: sum_values_set charged_def)
  have "ol_prior s + sum_values charged (ol_actors ?t) \<le> ceiling ?t" if "accounting_known ?t"
  proof -
    have "accounting_known s" using that all_known_before [of ba_known i _ "ol_actors s"] change_settled(3) a
      by (simp add: accounting_known_def)
    then have "ol_prior s + sum_values charged (ol_actors s) \<le> ceiling s"
      using change_settled(2,6) by (simp add: within_allowance_def)
    with drop ceiling_mono [OF kept] show ?thesis by simp
  qed
  moreover have "0 < ba_reservation b" if "dict_get (ol_actors ?t) j = Some b" for j b
    using that change_settled(2,6) res by (auto simp: within_allowance_def dict_set_get split: if_splits)
  ultimately show ?case using change_settled(6) by (simp add: within_allowance_def)
next
  case (change_none s)
  then show ?case by simp
next
  case (change_observed s)
  show ?case using change_observed(2) by (rule within_same [OF _ ledger_change.change_observed]) simp_all
next
  case (change_alias s g b)
  show ?case using change_alias(4) by (rule within_same [OF _ ledger_change.change_alias [OF change_alias(1,2)]]) simp_all
next
  case (change_session s t s1 x)
  show ?case using change_session(5) change_session(3)
    by (intro within_same [OF _ ledger_change.change_session [OF change_session(1-3)]]) auto
next
  case (change_protected s plan)
  show ?case using change_protected(5) by (rule within_same [OF _ ledger_change.change_protected [OF change_protected(1-3)]]) simp_all
next
  case (change_assigned s t x h p)
  show ?case using change_assigned(3) by (rule within_same [OF _ ledger_change.change_assigned [OF change_assigned(1)]]) simp_all
next
  case (change_resolved s name ob h d st)
  show ?case using change_resolved(4) by (rule within_same [OF _ ledger_change.change_resolved [OF change_resolved(1,2)]]) simp_all
next
  case (change_corrected cycles s ds)
  show ?case using change_corrected(4)
    by (rule within_same [OF _ ledger_change.change_corrected [OF change_corrected(1,2)]]) simp_all
qed

section \<open>Governed histories\<close>

lemma unconfigured [simp]: "ledger_transaction writes env (configured_only body) None = (None, None)"
  by (simp add: ledger_transaction_def configured_only_def split: option.split)

lemma first_ledger_call:
  assumes "run_op env oid op None = (r, s')"
  shows "s' = None \<or> (\<exists>c ap n now. s' = Some (first_state c ap n now))"
proof (cases op)
  case (Configure c ap n)
  with assms show ?thesis
    by (fastforce simp: configure_ledger_def ledger_transaction_def configure_body_def Let_def
        split: option.splits if_splits write_fault.splits)
next
  case (Resolve name out v memo)
  with assms show ?thesis by (auto simp: resolve_completion_def split: option.splits json.splits if_splits)
qed (use assms in \<open>auto simp: view_ledger_def inspect_ledger_def extend_ledger_def reset_ledger_def authorize_ledger_def reserve_actor_def
      record_actor_def record_goal_def record_usage_def record_sampled_floor_def adopt_active_goal_def bind_goal_def bind_requests_def
      register_request_thread_def continue_request_thread_def protect_completion_def assign_completion_def reserve_request_def
      settle_request_def correction_def split: option.splits if_splits\<close>)

lemma first_within: "within_allowance (first_state c ap n now)"
  by (simp add: within_allowance_def first_state_def bound_to_requests_def)

definition ledger_within :: "objective option \<Rightarrow> bool" where
  "ledger_within s = (\<forall>t. s = Some t \<longrightarrow> within_allowance t)"

interpretation governed: keeping "governed_step oid" ledger_within "\<lambda>_ _. True"
proof
  show "ledger_within t" if "ledger_within s" "governed_step oid s t" for s t
  proof (cases s)
    case None
    with that(2) obtain env op r where "run_op env oid op None = (r, t)" by (auto simp: governed_step_def)
    from first_ledger_call [OF this] show ?thesis using first_within by (auto simp: ledger_within_def)
  next
    case (Some u)
    with that(2) obtain env op r where "governed op (Some u)" "run_op env oid op (Some u) = (r, t)" by (auto simp: governed_step_def)
    with op_changes [of env oid op u r t] that(1) Some show ?thesis
      using change_within by (auto simp: ledger_within_def)
  qed
qed simp_all

lemma governed_within:
  assumes "(governed_step oid)\<^sup>*\<^sup>* None (Some s)"
  shows "within_allowance s"
  using governed.run_ok [OF assms] by (simp add: ledger_within_def)

section \<open>An admitted request\<close>

lemma admitted_call:
  assumes "reserve_request env oid i t tokens seconds enforce (Some s) = (Some v, s')" "bv_admitted v = Some True"
  obtains now m n x s1 s2 where "epoch (le_now env) = Some now" "tokens = JInt m" "0 \<le> m" "seconds = JInt n" "0 \<le> n"
    "bound_to_requests s" "dict_get (ol_actors s) i = None"
    "x = (case dict_get (ol_sessions s) t of None \<Rightarrow> plain_session 0 (window s now) | Some x \<Rightarrow> x)"
    "s1 = (if dict_get (ol_sessions s) t = None then put_session t x (observe now s) else observe now s)"
    "request_refusal enforce s1 now t x m n = None" "start_remediation (bs_purpose x) s1 = Some s2"
    "s' = Some (put_actor i (request_actor t x m n) s2)" "v = view_of oid (put_actor i (request_actor t x m n) s2) now (Some True)"
proof -
  obtain m n where mn: "tokens = JInt m" "0 \<le> m" "seconds = JInt n" "0 \<le> n"
    and call: "ledger_transaction True env (configured_only (reserve_request_body oid i t m n enforce)) (Some s) = (Some v, s')"
    using assms(1) by (auto simp: reserve_request_def count_of_Some split: option.splits)
  obtain now u where now: "epoch (le_now env) = Some now" and body: "reserve_request_body oid i t m n enforce now s = Some (v, u)" and u: "s' = Some u"
    using call by (auto simp: ledger_transaction_def configured_only_def split: if_splits option.splits write_fault.splits)
  define x where "x = (case dict_get (ol_sessions s) t of None \<Rightarrow> plain_session 0 (window s now) | Some x \<Rightarrow> x)"
  define s1 where "s1 = (if dict_get (ol_sessions s) t = None then put_session t x (observe now s) else observe now s)"
  have ok: "bound_to_requests s" "dict_get (ol_actors s) i = None"
    using body by (auto simp: reserve_request_body_def Let_def split: if_splits)
  have st: "starts_with ''request:'' i" using body by (auto simp: reserve_request_body_def Let_def split: if_splits)
  have eq: "reserve_request_body oid i t m n enforce now s =
      (case request_refusal enforce s1 now t x m n of
         Some reason \<Rightarrow> Some ((view_of oid s1 now (Some False))\<lparr>bv_reason := Some reason\<rparr>, s1)
       | None \<Rightarrow> (case start_remediation (bs_purpose x) s1 of
           None \<Rightarrow> None
         | Some s2 \<Rightarrow> Some (view_of oid (put_actor i (request_actor t x m n) s2) now (Some True), put_actor i (request_actor t x m n) s2)))"
    using ok st by (cases "dict_get (ol_sessions s) t") (simp_all add: reserve_request_body_def Let_def x_def s1_def cong: option.case_cong)
  have refusal: "request_refusal enforce s1 now t x m n = None"
    using body assms(2) unfolding eq by (cases "request_refusal enforce s1 now t x m n") (auto simp: view_of_def)
  with body obtain s2 where "start_remediation (bs_purpose x) s1 = Some s2" "u = put_actor i (request_actor t x m n) s2"
    "v = view_of oid (put_actor i (request_actor t x m n) s2) now (Some True)"
    unfolding eq by (auto split: option.splits)
  with that [OF now mn ok x_def s1_def refusal] u show ?thesis by simp
qed

end
