(* ===== verification/BudgetPath.thy ===== *)
theory BudgetPath
  imports BudgetAllowance
begin

text \<open>
  What an admitted request leaves: its thread's share is not exceeded, and where obligations are protected their funds and
  time are still there.
\<close>

section \<open>Sums over entries\<close>

definition keyed :: "(string \<Rightarrow> 'a \<Rightarrow> int) \<Rightarrow> (string \<times> 'a) list \<Rightarrow> int" where
  "keyed g d = sum_list (map (\<lambda>(k, x). g k x) d)"

lemma keyed_Nil [simp]: "keyed g [] = 0"
  by (simp add: keyed_def)

lemma keyed_Cons [simp]: "keyed g ((k, x) # d) = g k x + keyed g d"
  by (simp add: keyed_def)

lemma keyed_mapped: "sum_values f (map (\<lambda>(k, x). (k, h k x)) d) = keyed (\<lambda>k x. f (h k x)) d"
  by (induction d) auto

lemma keyed_set_same: "dict_get d k = Some x \<Longrightarrow> g k y = g k x \<Longrightarrow> keyed g (dict_set k y d) = keyed g d"
  by (induction d) auto

lemma keyed_mono: "(\<And>k x. g' k x \<le> g k x) \<Longrightarrow> keyed g' d \<le> keyed g d"
  by (induction d) (auto simp: add_mono)

lemma keyed_less:
  assumes "dict_get d k = Some x" "g' k x \<le> g k x - m" "\<And>k x. g' k x \<le> g k x"
  shows "keyed g' d \<le> keyed g d - m"
  using assms(1)
proof (induction d)
  case (Cons p d)
  obtain j y where p: "p = (j, y)" by (cases p)
  show ?case
  proof (cases "j = k")
    case True
    with Cons.prems p have "y = x" by simp
    with True p assms(2) keyed_mono [of g' g d, OF assms(3)] show ?thesis by simp
  next
    case False
    with Cons p have "keyed g' d \<le> keyed g d - m" by simp
    with p assms(3) [of j y] show ?thesis by simp
  qed
qed simp

lemma get_mapped: "dict_get (map (\<lambda>(k, x). (k, h k x)) d) k = map_option (h k) (dict_get d k)"
  by (induction d) auto

lemma names_set_same:
  "dict_get d k = Some x \<Longrightarrow> P k y = P k x \<Longrightarrow> map fst (filter (\<lambda>(k, x). P k x) (dict_set k y d)) = map fst (filter (\<lambda>(k, x). P k x) d)"
  by (induction d) auto

lemma actors_fresh: "dict_get (ol_actors s) i = None \<Longrightarrow> ol_actors (put_actor i a s) = ol_actors s @ [(i, a)]"
  by (simp add: dict_set_fresh map_of_eq_None_iff)

section \<open>Protected funds\<close>

definition protected_tokens :: "objective \<Rightarrow> int" where
  "protected_tokens s = keyed (\<lambda>n ob. ov_tokens (obligation_status s n ob)) (plan_entries s)"

definition protected_seconds :: "objective \<Rightarrow> int" where
  "protected_seconds s = keyed (\<lambda>n ob. ov_seconds (obligation_status s n ob)) (plan_entries s)"

definition pending_names :: "objective \<Rightarrow> string list" where
  "pending_names s = map fst (filter (\<lambda>(n, ob). og_state ob \<noteq> Completed) (plan_entries s))"

definition time_available :: "objective \<Rightarrow> rat \<Rightarrow> rat" where
  "time_available s now = max 0 (path_deadline s (pending_names s) - max now (ol_observed s))"

lemma completion_parts:
  assumes "completion_status s now = Some c"
  shows "cn_tokens c = protected_tokens s" "cn_seconds c = protected_seconds s" "cn_available c = time_available s now"
    "cn_obligations c = map (\<lambda>(n, ob). (n, obligation_status s n ob)) (plan_entries s)"
    "cn_feasible c \<longleftrightarrow> accounting_known s \<and> protected_tokens s \<le> remaining_tokens s \<and> of_int (protected_seconds s) \<le> time_available s now"
  using assms
  by (auto simp: completion_status_def plan_entries_def protected_tokens_def protected_seconds_def pending_names_def time_available_def
      Let_def keyed_mapped split: option.splits)

lemma serving_admitted:
  assumes "dict_get (ol_actors s) i = None"
  shows "serving (put_actor i (request_actor t x m n) s) name
    = serving s name @ (if bs_purpose x = Some name then [(i, request_actor t x m n)] else [])"
  unfolding serving_def actors_fresh [OF assms] by (simp add: request_actor_def)

lemma status_admitted:
  assumes "dict_get (ol_actors s) i = None" "0 \<le> m" "0 \<le> n"
  shows "ov_tokens (obligation_status (put_actor i (request_actor t x m n) s) name ob) =
      (if og_state ob = Completed then 0
       else max 0 (og_tokens ob - sum_values charged (serving s name) - (if bs_purpose x = Some name then m else 0)))"
    "ov_seconds (obligation_status (put_actor i (request_actor t x m n) s) name ob) =
      (if og_state ob = Completed then 0
       else max 0 (og_seconds ob - sum_values reserved_seconds (serving s name) - (if bs_purpose x = Some name then n else 0)))"
  using assms(2,3)
  by (auto simp: obligation_status_def Let_def serving_admitted [OF assms(1)] sum_values_append)
     (simp_all add: reserved_seconds_def request_actor_def diff_diff_eq)

lemma status_plain:
  "ov_tokens (obligation_status s name ob) = (if og_state ob = Completed then 0 else max 0 (og_tokens ob - sum_values charged (serving s name)))"
  "ov_seconds (obligation_status s name ob)
     = (if og_state ob = Completed then 0 else max 0 (og_seconds ob - sum_values reserved_seconds (serving s name)))"
  by (simp_all add: obligation_status_def Let_def)

lemma started_path:
  assumes "start_remediation p s = Some t"
  shows "protected_tokens t = protected_tokens s" "protected_seconds t = protected_seconds s" "pending_names t = pending_names s"
    "time_available t now = time_available s now" "remaining_tokens t = remaining_tokens s" "accounting_known t = accounting_known s"
proof -
  have "protected_tokens t = protected_tokens s \<and> protected_seconds t = protected_seconds s \<and> pending_names t = pending_names s"
    using assms
  proof (cases rule: started_obligation)
    case (2 n ob)
    then have get: "dict_get (plan_entries s) n = Some ob" by (simp add: plan_obligation_entry)
    have e: "plan_entries t = dict_set n (ob\<lparr>og_started := True\<rparr>) (plan_entries s)" using 2 by (simp add: put_obligation_entries)
    have st: "obligation_status t k ob' = obligation_status s k ob'" for k ob'
      by (simp add: obligation_status_def serving_def 2(2))
    show ?thesis
      unfolding protected_tokens_def protected_seconds_def pending_names_def e st
      using get by (simp add: keyed_set_same names_set_same status_plain)
  qed simp
  moreover have "ol_sessions t = ol_sessions s" "ol_terms t = ol_terms s" "ol_observed t = ol_observed s" "ol_actors t = ol_actors s"
      "ol_prior t = ol_prior s"
    using assms by (auto elim!: started_obligation)
  ultimately show "protected_tokens t = protected_tokens s" "protected_seconds t = protected_seconds s" "pending_names t = pending_names s"
    "time_available t now = time_available s now" "remaining_tokens t = remaining_tokens s" "accounting_known t = accounting_known s"
    by (simp_all add: time_available_def path_deadline_def remaining_tokens_def tokens_used_def tokens_reserved_def accounting_known_def)
qed

section \<open>An admission leaves the path feasible\<close>

lemma committed_admitted:
  assumes "dict_get (ol_actors s) i = None" "0 \<le> m"
  shows "tokens_used (put_actor i (request_actor t x m n) s) + tokens_reserved (put_actor i (request_actor t x m n) s)
    = tokens_used s + tokens_reserved s + m"
  using assms by (simp add: committed sum_values_set)

lemma remaining_admitted:
  assumes "request_fits s now t' y m n'" "dict_get (ol_actors s) i = None" "0 \<le> m"
  shows "remaining_tokens (put_actor i (request_actor t x m n) s) = remaining_tokens s - m"
  using fits_limit(1) [OF assms(1,3)] committed_admitted [OF assms(2,3), of t x n] committed [of s] assms(3)
  by (simp add: remaining_tokens_def)

lemma completion_without_plan: "ol_plan s = None \<Longrightarrow> completion_status s now = None"
  by (simp add: completion_status_def)

lemma completion_with_plan: "ol_plan s \<noteq> None \<Longrightarrow> \<exists>c. completion_status s now = Some c"
  by (auto simp: completion_status_def Let_def)

lemma unassigned_refusal:
  "protection_refusal s c None m n = None \<Longrightarrow> m + cn_tokens c \<le> remaining_tokens s \<and> of_int (n + cn_seconds c) \<le> cn_available c"
  by (simp add: protection_refusal_def Let_def split: if_splits)

lemma assigned_refusal:
  "protection_refusal s c (Some p) m n = None \<Longrightarrow> dict_get (cn_obligations c) p = Some v
     \<Longrightarrow> cn_feasible c \<and> og_state (ov_obligation v) \<noteq> Completed \<and> m \<le> ov_tokens v \<and> n \<le> ov_seconds v"
  by (simp add: protection_refusal_def Let_def split: if_splits)

lemma path_after:
  assumes "dict_get (ol_actors s) i = None" "0 \<le> m" "0 \<le> n" "start_remediation (bs_purpose x) s \<noteq> None"
    and c: "completion_status s now = Some c" and ok: "protection_refusal s c (bs_purpose x) m n = None"
  shows "protected_tokens (put_actor i (request_actor t x m n) s) \<le> remaining_tokens s - m
    \<and> of_int (protected_seconds (put_actor i (request_actor t x m n) s)) \<le> time_available s now"
proof -
  let ?t = "put_actor i (request_actor t x m n) s"
  note parts = completion_parts [OF c]
  have step: "ov_tokens (obligation_status ?t k b) \<le> ov_tokens (obligation_status s k b)"
      "ov_seconds (obligation_status ?t k b) \<le> ov_seconds (obligation_status s k b)" for k b
    using assms(2,3) by (simp_all only: status_admitted [OF assms(1-3)]) (auto simp: status_plain)
  show ?thesis
  proof (cases "bs_purpose x")
    case None
    have "protected_tokens ?t \<le> protected_tokens s" "protected_seconds ?t \<le> protected_seconds s"
      unfolding protected_tokens_def protected_seconds_def plan_entries_simps by (intro keyed_mono step)+
    moreover have "m + protected_tokens s \<le> remaining_tokens s" "of_int (n + protected_seconds s) \<le> time_available s now"
      using unassigned_refusal [of s c m n] ok None parts(1-3) by simp_all
    moreover have "(of_int (protected_seconds ?t) :: rat) \<le> of_int (n + protected_seconds s)"
      using calculation(2) assms(3) by (simp only: of_int_le_iff)
    ultimately show ?thesis by linarith
  next
    case (Some p)
    have "ol_plan s \<noteq> None" using completion_without_plan c by fastforce
    with assms(4) Some have "plan_obligation s p \<noteq> None"
      by (cases "plan_obligation s p") (simp_all add: start_remediation_def)
    then obtain ob where ob: "dict_get (plan_entries s) p = Some ob" by (auto simp: plan_obligation_entry)
    let ?own = "obligation_status s p ob"
    have own: "og_state ob \<noteq> Completed" "m \<le> ov_tokens ?own" "n \<le> ov_seconds ?own" "cn_feasible c"
      using assigned_refusal [OF ok [unfolded Some], of ?own] ob
      by (simp_all add: parts(4) get_mapped) (simp add: obligation_status_def Let_def)
    have less: "ov_tokens (obligation_status ?t p ob) \<le> ov_tokens ?own - m" "ov_seconds (obligation_status ?t p ob) \<le> ov_seconds ?own - n"
      using own(1-3) Some by (simp_all only: status_admitted [OF assms(1-3)]) (simp_all add: status_plain)
    have "protected_tokens ?t \<le> protected_tokens s - m" "protected_seconds ?t \<le> protected_seconds s - n"
      unfolding protected_tokens_def protected_seconds_def plan_entries_simps by (intro keyed_less [OF ob] less step)+
    moreover have "(of_int (protected_seconds ?t) :: rat) \<le> of_int (protected_seconds s)"
      using calculation(2) assms(3) by (simp only: of_int_le_iff)
    moreover have "protected_tokens s \<le> remaining_tokens s" "of_int (protected_seconds s) \<le> time_available s now"
      using own(4) parts(5) by simp_all
    ultimately show ?thesis by linarith
  qed
qed

lemma put_actor_obligation: "plan_obligation (put_actor i a s) n = plan_obligation s n"
  by (simp add: plan_obligation_def)

lemma cycle_needed_put_actor: "cycle_needed (put_actor i a s) p = cycle_needed s p"
  by (cases p) (simp_all add: cycle_needed_def put_actor_obligation)

lemma put_obligation_put_actor:
  "(put_obligation n ob (put_actor i a s))\<lparr>ol_cycles := c\<rparr> = put_actor i a ((put_obligation n ob s)\<lparr>ol_cycles := c\<rparr>)"
  by (simp add: put_obligation_def put_actor_def)

lemma start_put_actor:
  assumes "start_remediation p s = Some t"
  shows "start_remediation p (put_actor i a s) = Some (put_actor i a t)"
proof (cases "ol_plan s = None \<or> p = None")
  case True
  with assms show ?thesis by (cases "ol_plan s") (auto simp: start_remediation_def)
next
  case False
  then obtain n where n: "p = Some n" and plan: "ol_plan s \<noteq> None" by auto
  have "plan_obligation s n \<noteq> None"
    using assms n plan by (cases "plan_obligation s n") (simp_all add: start_remediation_def)
  then obtain ob where "plan_obligation s n = Some ob" by blast
  with assms n plan show ?thesis
    by (cases "cycle_needed s p")
       (auto simp: start_remediation_def put_actor_obligation cycle_needed_put_actor put_obligation_put_actor)
qed

lemma feasible_after:
  assumes "dict_get (ol_actors s) i = None" "0 \<le> m" "0 \<le> n" "start_remediation (bs_purpose x) s = Some s2"
    and refusal: "request_refusal True s now t x m n = None"
    and c: "completion_status (put_actor i (request_actor t x m n) s2) now = Some c'"
  shows "cn_feasible c'"
proof -
  let ?t = "put_actor i (request_actor t x m n) s"
  note fits = refusal_None(1) [OF refusal]
  note started = started_path [OF start_put_actor [OF assms(4), of i "request_actor t x m n"]]
  have plan: "ol_plan s \<noteq> None"
  proof
    assume "ol_plan s = None"
    with assms(4) have "s2 = s" by (simp add: start_remediation_def)
    with c \<open>ol_plan s = None\<close> show False by (simp add: completion_without_plan)
  qed
  then obtain c0 where c0: "completion_status s now = Some c0" using completion_with_plan by blast
  have funds: "protected_tokens ?t \<le> remaining_tokens s - m" "of_int (protected_seconds ?t) \<le> time_available s now"
    using path_after [OF assms(1-3) _ c0 refusal_None(2) [OF refusal c0]] assms(4) by simp_all
  have "accounting_known ?t"
    using fits_limit(2) [OF fits assms(2)] assms(1) by (simp add: accounting_known_def all_known_set request_actor_def)
  moreover have "time_available ?t now = time_available s now"
    by (simp add: time_available_def path_deadline_def pending_names_def)
  ultimately show ?thesis
    using funds remaining_admitted [OF fits assms(1,2), of t x n] completion_parts(5) [OF c] started by simp
qed

section \<open>The share of a thread\<close>

lemma group_admitted:
  assumes "dict_get (ol_actors s) i = None" "dict_get (ol_sessions s) t = Some x" "0 \<le> m"
  shows "group_spent (put_actor i (request_actor t x m n) s) (session_group t x) = group_spent s (session_group t x) + m"
proof -
  have "(t, x) \<in> set (group_members s (session_group t x))"
    using assms(2) by (auto simp: group_members_def dest: map_of_SomeD)
  then have mem: "t \<in> set (map fst (group_members s (session_group t x)))" by force
  show ?thesis
    unfolding group_spent_def actors_fresh [OF assms(1)] using mem assms(3)
    by (simp add: Let_def sum_values_append group_members_def request_actor_def charged_def) 
qed

lemma started_fields:
  assumes "start_remediation p s = Some s2"
  shows "ol_sessions s2 = ol_sessions s" "ol_terms s2 = ol_terms s" "ol_observed s2 = ol_observed s" "ol_actors s2 = ol_actors s"
    "ol_prior s2 = ol_prior s"
  using assms by (auto elim!: started_obligation)

lemma admitted_state:
  assumes "dict_get (ol_actors s) i = None" "dict_get (ol_sessions s) t = Some x" "start_remediation p s = Some s2"
    and fits: "request_fits s now t x m n" and m: "0 \<le> m"
  defines "u \<equiv> put_actor i (request_actor t x m n) s2"
  shows "dict_get (ol_sessions u) t = Some x" "dict_get (ol_actors u) i = Some (request_actor t x m n)" "accounting_known u"
    "tokens_used u + tokens_reserved u \<le> bt_tokens (ol_terms u)" "group_spent u (session_group t x) \<le> bt_session_tokens (ol_terms u)"
    "ol_terms u = ol_terms s" "ol_observed u = ol_observed s"
proof -
  note f = started_fields [OF assms(3)]
  have group: "group_spent s2 g = group_spent s g" for g by (simp add: group_spent_def group_members_def f)
  show "dict_get (ol_sessions u) t = Some x" "dict_get (ol_actors u) i = Some (request_actor t x m n)" "ol_terms u = ol_terms s"
    "ol_observed u = ol_observed s"
    using assms(2) by (simp_all add: u_def f dict_set_get)
  show "accounting_known u"
    using fits_limit(2) [OF fits m] by (simp add: u_def f accounting_known_def all_known_set request_actor_def)
  show "tokens_used u + tokens_reserved u \<le> bt_tokens (ol_terms u)"
    using fits_limit(1) [OF fits m] assms(1) m by (simp add: u_def f committed sum_values_set)
  show "group_spent u (session_group t x) \<le> bt_session_tokens (ol_terms u)"
    using group_admitted [of s2 i t x m n] assms(1,2) m fits by (simp add: u_def f group request_fits_def)
qed

section \<open>Calls on threads and attempts\<close>

lemma admitted_before:
  assumes "dict_get (ol_actors s) i = Some a"
  shows "fst (reserve_request env oid i t tokens seconds enforce (Some s)) = None"
  using assms
  by (simp add: reserve_request_def ledger_transaction_def configured_only_def reserve_request_body_def Let_def split: option.split)

lemma continued:
  assumes "continue_request_thread env oid t source provenance s = (Some v, s')"
  obtains s0 x r y where "s = Some s0" "bound_to_requests s0" "dict_get (ol_sessions s0) source = Some x" "s' = Some r" "bound_to_requests r"
    "dict_get (ol_sessions r) source = Some x" "dict_get (ol_sessions r) t = Some y" "session_group t y = session_group source x"
    "bs_deadline y = bs_deadline x"
proof -
  have ne: "t \<noteq> source" and call: "ledger_transaction True env (configured_only (continue_body oid t source provenance)) s = (Some v, s')"
    using assms by (auto simp: continue_request_thread_def split: if_splits)
  then obtain now s0 r where s0: "s = Some s0" "continue_body oid t source provenance now s0 = Some (v, r)" "s' = Some r"
    by (auto simp: ledger_transaction_def configured_only_def split: if_splits option.splits write_fault.splits)
  then obtain x where x: "bound_to_requests s0" "dict_get (ol_sessions s0) source = Some x"
    by (auto simp: continue_body_def split: if_splits option.splits)
  show ?thesis
  proof (cases "dict_get (ol_sessions s0) t")
    case None
    let ?y = "\<lparr>bs_prior = 0, bs_deadline = bs_deadline x, bs_parent = Some source,
        bs_provenance = provenance, bs_group = Some (session_group source x), bs_purpose = bs_purpose x\<rparr>"
    from None have r: "r = put_session t ?y s0"
      using s0(2) x by (simp add: continue_body_def Let_def)
    show ?thesis
      by (rule that [OF s0(1) x s0(3), of ?y]) (use x ne in \<open>simp_all add: r dict_set_get session_group_def\<close>)
  next
    case (Some y)
    then have r: "r = s0" "bs_deadline y = bs_deadline x" "bs_group y = Some (session_group source x)"
      using s0(2) x by (auto simp: continue_body_def split: if_splits)
    show ?thesis by (rule that [OF s0(1) x s0(3), of y]) (use x Some r in \<open>simp_all add: session_group_def [of t]\<close>)
  qed
qed

lemma admitted_share:
  assumes "reserve_request env oid i t tokens seconds True (Some s) = (Some v, s')" "bv_admitted v = Some True"
  obtains n u where "s' = Some u" "seconds = JInt n" "kept s u"
    "\<forall>z. dict_get (ol_sessions u) t = Some z \<longrightarrow>
       group_spent u (session_group t z) \<le> bt_session_tokens (ol_terms u) \<and> ol_observed u + of_int n \<le> bs_deadline z"
proof -
  obtain now m n x s1 s2 where call: "tokens = JInt m" "0 \<le> m" "seconds = JInt n" "0 \<le> n" "bound_to_requests s" "dict_get (ol_actors s) i = None"
    and x: "x = (case dict_get (ol_sessions s) t of None \<Rightarrow> plain_session 0 (window s now) | Some x \<Rightarrow> x)"
    and s1: "s1 = (if dict_get (ol_sessions s) t = None then put_session t x (observe now s) else observe now s)"
    and ok: "request_refusal True s1 now t x m n = None" "start_remediation (bs_purpose x) s1 = Some s2"
    and s': "s' = Some (put_actor i (request_actor t x m n) s2)"
    by (rule admitted_call [OF assms])
  note fits = refusal_None(1) [OF ok(1)]
  have new: "dict_get (ol_actors s1) i = None" "dict_get (ol_sessions s1) t = Some x" using call(6) x s1 by (auto simp: dict_set_get)
  note after = admitted_state [OF new ok(2) fits call(2)]
  have "kept s (put_actor i (request_actor t x m n) s2)"
    by (rule change_kept [OF change_admitted [OF refl call(2,4,5,6) x s1 ok]])
  then show ?thesis using after fits by (intro that [OF s' call(3)]) (simp_all add: request_fits_def)
qed

lemma kept_sessions:
  assumes "kept r u" "bound_to_requests r" "dict_get (ol_sessions r) a = Some x" "dict_get (ol_sessions r) b = Some y"
  obtains x' y' where "dict_get (ol_sessions u) a = Some x'" "same_share x x'" "dict_get (ol_sessions u) b = Some y'" "same_share y y'"
proof -
  have "entries_kept same_share (ol_sessions r) (ol_sessions u)" using assms(1,2) by (simp add: kept_def transport_kept_def)
  from entries_keptD [OF this assms(3)] entries_keptD [OF this assms(4)] that show ?thesis by blast
qed

end
