(* ===== verification/BudgetSamples.thy ===== *)
theory BudgetSamples
  imports BudgetPath
begin

text \<open>
  A small objective: 100 tokens until time 200, a transport with one thread and its successor, and one attempt that is admitted and
  settled; and two concrete histories that show where the ledger forgets.
\<close>

section \<open>The calls\<close>

definition clock_at :: "int \<Rightarrow> ledger_env" where
  "clock_at n = \<lparr>le_private = True, le_write = Written, le_now = JInt n, le_source = (\<lambda>_. None)\<rparr>"

definition sample_config :: "int \<Rightarrow> int \<Rightarrow> (string, json) dict" where
  "sample_config revision deadline =
     [(''revision'', JInt revision), (''objective_token_limit'', JInt 100), (''objective_time_limit_seconds'', JInt 100),
      (''session_token_limit'', JInt 60), (''session_time_limit_seconds'', JInt 50), (''max_correction_cycles'', JInt 2),
      (''started_at'', JInt 100), (''objective_deadline'', JInt deadline)]"

definition sample_terms :: "int \<Rightarrow> int \<Rightarrow> budget_terms" where
  "sample_terms revision deadline =
     \<lparr>bt_fields = sample_config revision deadline, bt_tokens = 100, bt_session_tokens = 60, bt_session_seconds = 50, bt_cycles = 2,
      bt_started = 100, bt_deadline = of_int deadline\<rparr>"

lemma clock_at_simps [simp]:
  "le_private (clock_at n)" "le_write (clock_at n) = Written" "epoch (le_now (clock_at n)) = Some (of_int n)"
  by (simp_all add: clock_at_def epoch_def number_value_def)

lemma call_at: "ledger_transaction True (clock_at n) body s = (case body (of_int n) s of None \<Rightarrow> (None, s) | Some (x, s') \<Rightarrow> (Some x, Some s'))"
  by (simp add: ledger_transaction_def split: option.split)

lemma sample_configuration:
  "revision \<noteq> 0 \<Longrightarrow> 100 \<le> deadline \<Longrightarrow> configuration_of (JObj (sample_config revision deadline)) = Some (sample_terms revision deadline)"
  by (simp add: configuration_of_def sample_config_def sample_terms_def jget_def count_of_def epoch_def number_value_def)

lemma sample_fields: "jget (sample_config r d) ''revision'' = JInt r" "jget (sample_config r d) ''started_at'' = JInt 100"
  by (simp_all add: sample_config_def jget_def)

definition opened_ledger :: objective where
  "opened_ledger = first_state (sample_terms 1 200) (JStr ''operator'') 0 100"

lemma first_configuration: "run_op (clock_at 100) ''o'' (Configure (JObj (sample_config 1 200)) (JStr ''operator'') (JInt 0)) None
    = (Some (view_of ''o'' opened_ledger 100 None), Some opened_ledger)"
  by (simp add: configure_ledger_def sample_configuration count_of_def call_at configure_body_def opened_ledger_def Let_def)

definition thread_session :: budget_session where
  "thread_session = plain_session 0 150"

definition bound_ledger :: objective where
  "bound_ledger = opened_ledger\<lparr>ol_binding := JStr ''gateway'', ol_sessions := [(''source'', thread_session)]\<rparr>"

lemma transport_bound: "run_op (clock_at 100) ''o'' (BindRequests (JStr ''gateway'') [(''source'', JInt 0)]) (Some opened_ledger)
    = (Some (view_of ''o'' bound_ledger 100 None), Some bound_ledger)"
  by (simp add: bind_requests_def call_at configured_only_def bind_requests_body_def opened_ledger_def first_state_def bound_to_requests_def
      prior_counts_def count_of_def bound_ledger_def window_def sample_terms_def thread_session_def py_eq_def Let_def)

definition held_actor :: budget_actor where
  "held_actor = request_actor ''source'' thread_session 40 10"

definition held_ledger :: objective where
  "held_ledger = put_actor ''request:first'' held_actor (observe 101 bound_ledger)"

lemma bound_ledger_simps [simp]:
  "bound_to_requests bound_ledger" "ol_actors bound_ledger = []" "ol_sessions bound_ledger = [(''source'', thread_session)]"
  "ol_observed bound_ledger = 100" "ol_prior bound_ledger = 0" "ol_terms bound_ledger = sample_terms 1 200" "ol_plan bound_ledger = None"
  "ol_completions bound_ledger = []" "ol_authorizations bound_ledger = ol_authorizations opened_ledger"
  by (simp_all add: bound_ledger_def opened_ledger_def first_state_def bound_to_requests_def)

lemma thread_session_simps [simp]:
  "bs_prior thread_session = 0" "bs_deadline thread_session = 150" "bs_group thread_session = None" "bs_purpose thread_session = None"
  by (simp_all add: thread_session_def plain_session_def)

lemma sample_terms_simps [simp]:
  "bt_tokens (sample_terms r d) = 100" "bt_session_tokens (sample_terms r d) = 60" "bt_session_seconds (sample_terms r d) = 50"
  "bt_deadline (sample_terms r d) = of_int d" "bt_cycles (sample_terms r d) = 2" "bt_fields (sample_terms r d) = sample_config r d"
  by (simp_all add: sample_terms_def)

lemmas admission_defs = reserve_request_def count_of_def call_at configured_only_def reserve_request_body_def Let_def request_refusal_def
  request_fits_def ledger_state_def accounting_known_def deadline_passed_def remaining_tokens_def tokens_used_def tokens_reserved_def
  group_spent_def group_members_def session_group_def completion_status_def start_remediation_def

lemma first_admission:
  "reserve_request (clock_at 101) ''o'' ''request:first'' ''source'' (JInt 40) (JInt 10) True (Some bound_ledger)
     = (Some (view_of ''o'' held_ledger 101 (Some True)), Some held_ledger)"
  by (simp add: admission_defs held_ledger_def held_actor_def)

lemma held_ledger_simps [simp]:
  "bound_to_requests held_ledger" "ol_actors held_ledger = [(''request:first'', held_actor)]"
  "ol_sessions held_ledger = [(''source'', thread_session)]" "ol_observed held_ledger = 101" "ol_prior held_ledger = 0"
  "ol_terms held_ledger = sample_terms 1 200" "ol_plan held_ledger = None" "ol_completions held_ledger = []"
  "ol_authorizations held_ledger = ol_authorizations opened_ledger"
  by (simp_all add: held_ledger_def)

lemma held_actor_simps [simp]:
  "ba_reservation held_actor = 40" "ba_used held_actor = 0" "\<not> ba_settled held_actor" "ba_known held_actor"
  "ba_thread held_actor = Some ''source''" "ba_purpose held_actor = None"
  by (simp_all add: held_actor_def request_actor_def)

definition settled_ledger :: "int \<Rightarrow> objective" where
  "settled_ledger n = (put_actor ''request:first'' (held_actor\<lparr>ba_used := n, ba_settled := True, ba_known := True\<rparr>) (observe 102 held_ledger))
     \<lparr>ol_completions := [(''response'', \<lparr>rp_actor = ''request:first'', rp_tokens = Some n, rp_fingerprint = JStr ''print''\<rparr>)]\<rparr>"

lemmas settlement_defs = settle_request_def optional_count_def count_of_def call_at configured_only_def settle_request_body_def Let_def
  earlier_proof_def ambiguous_def

lemma first_settlement:
  "0 \<le> n \<Longrightarrow> n \<le> 40 \<Longrightarrow> settle_request (clock_at 102) ''o'' ''request:first'' (Some ''response'') (JInt n) (JStr ''print'') (Some held_ledger)
     = (Some (view_of ''o'' (settled_ledger n) 102 None), Some (settled_ledger n))"
  by (simp add: settlement_defs settled_ledger_def)

lemma settled_ledger_simps [simp]:
  "bound_to_requests (settled_ledger n)"
  "ol_actors (settled_ledger n) = [(''request:first'', held_actor\<lparr>ba_used := n, ba_settled := True, ba_known := True\<rparr>)]"
  "ol_sessions (settled_ledger n) = [(''source'', thread_session)]" "ol_observed (settled_ledger n) = 102" "ol_prior (settled_ledger n) = 0"
  "ol_terms (settled_ledger n) = sample_terms 1 200" "ol_plan (settled_ledger n) = None"
  "ol_completions (settled_ledger n) = [(''response'', \<lparr>rp_actor = ''request:first'', rp_tokens = Some n, rp_fingerprint = JStr ''print''\<rparr>)]"
  "ol_authorizations (settled_ledger n) = ol_authorizations opened_ledger"
  by (simp_all add: settled_ledger_def bound_to_requests_def) (simp add: held_ledger_def bound_ledger_def)

section \<open>A completion plan\<close>

definition sample_obligation :: "string \<Rightarrow> obligation" where
  "sample_obligation k = \<lparr>og_id = k, og_kind = k, og_tokens = 20, og_seconds = 4, og_criterion = ''c'', og_state = Pending,
     og_disposition = None, og_started = False\<rparr>"

definition planned_ledger :: objective where
  "planned_ledger = bound_ledger\<lparr>ol_plan := Some \<lparr>pl_source = (''/plan'', ''digest''),
     pl_obligations = map (\<lambda>k. (k, sample_obligation k)) obligation_kinds\<rparr>\<rparr>"

lemma planned_ledger_simps [simp]:
  "bound_to_requests planned_ledger" "ol_actors planned_ledger = []" "ol_sessions planned_ledger = [(''source'', thread_session)]"
  "ol_observed planned_ledger = 100" "ol_prior planned_ledger = 0" "ol_terms planned_ledger = sample_terms 1 200"
  "plan_entries planned_ledger = [(''acceptance'', sample_obligation ''acceptance''), (''review'', sample_obligation ''review''),
     (''remediation'', sample_obligation ''remediation'')]" "ol_plan planned_ledger \<noteq> None"
  by (simp_all add: planned_ledger_def bound_to_requests_def plan_entries_def obligation_kinds_def) (simp add: bound_ledger_def)

lemma planned_refusal: "request_refusal True (observe 101 planned_ledger) 101 ''source'' thread_session 40 10 = None"
proof -
  let ?s = "observe 101 planned_ledger"
  have fits: "request_fits ?s 101 ''source'' thread_session 40 10" "remaining_tokens ?s = 100"
    by (simp_all add: admission_defs)
  obtain c where c: "completion_status ?s 101 = Some c" using completion_with_plan [of ?s 101] by auto
  note parts = completion_parts [OF c]
  have funds: "protected_tokens ?s = 60" "protected_seconds ?s = 12" "time_available ?s 101 = 99" "accounting_known ?s"
    by (simp_all add: protected_tokens_def protected_seconds_def status_plain serving_def sample_obligation_def time_available_def
        pending_names_def path_deadline_def accounting_known_def)
  have "cn_deferred c = []"
    using c by (auto simp: completion_status_def planned_ledger_def obligation_kinds_def sample_obligation_def Let_def)
  with parts funds fits(2) have "protection_refusal ?s c None 40 10 = None"
    by (simp add: protection_refusal_def cycle_needed_def Let_def)
  with fits(1) c show ?thesis by (simp add: request_refusal_def)
qed

lemma planned_admission:
  "\<exists>v u c. reserve_request (clock_at 101) ''o'' ''request:first'' ''source'' (JInt 40) (JInt 10) True (Some planned_ledger) = (Some v, Some u)
     \<and> bv_admitted v = Some True \<and> bv_completion v = Some c"
proof -
  let ?u = "put_actor ''request:first'' (request_actor ''source'' thread_session 40 10) (observe 101 planned_ledger)"
  have call: "reserve_request (clock_at 101) ''o'' ''request:first'' ''source'' (JInt 40) (JInt 10) True (Some planned_ledger)
      = (Some (view_of ''o'' ?u 101 (Some True)), Some ?u)"
    using planned_refusal
    by (simp add: reserve_request_def count_of_def call_at configured_only_def reserve_request_body_def Let_def start_remediation_def)
  obtain c where "completion_status ?u 101 = Some c" using completion_with_plan [of ?u 101] by auto
  then have "bv_completion (view_of ''o'' ?u 101 (Some True)) = Some c" "bv_admitted (view_of ''o'' ?u 101 (Some True)) = Some True"
    by (simp_all add: view_of_def)
  with call show ?thesis by blast
qed

section \<open>A successor\<close>

definition successor_session :: budget_session where
  "successor_session = \<lparr>bs_prior = 0, bs_deadline = 150, bs_parent = Some ''source'', bs_provenance = JStr ''switch'',
     bs_group = Some ''source'', bs_purpose = None\<rparr>"

definition continued_ledger :: objective where
  "continued_ledger = put_session ''successor'' successor_session (settled_ledger 10)"

lemma continuation: "continue_request_thread (clock_at 103) ''o'' ''successor'' ''source'' (JStr ''switch'') (Some (settled_ledger 10))
    = (Some (view_of ''o'' continued_ledger 103 None), Some continued_ledger)"
  by (simp add: continue_request_thread_def call_at configured_only_def continue_body_def session_group_def Let_def continued_ledger_def
      successor_session_def)

lemma successor_admission:
  "\<exists>v s'. reserve_request (clock_at 104) ''o'' ''request:second'' ''successor'' (JInt 50) (JInt 10) True (Some continued_ledger) = (Some v, s')
     \<and> bv_admitted v = Some True"
  by (simp add: admission_defs continued_ledger_def successor_session_def charged_def held_def view_of_def)

section \<open>Where the ledger forgets\<close>

text \<open>A second answer makes the accounting of a settled attempt unknown, and a third settles it anew with less: 30 used tokens become 5.\<close>

lemma settled_usage_is_forgotten:
  defines "unknown \<equiv> put_actor ''request:first'' (unsettled (Some 5) (held_actor\<lparr>ba_used := 30, ba_settled := True, ba_known := True\<rparr>))
      (observe 103 (settled_ledger 30))"
  shows "\<exists>v w s. settle_request (clock_at 103) ''o'' ''request:first'' (Some ''other'') (JInt 5) (JStr ''print'') (Some (settled_ledger 30))
      = (Some v, Some unknown)
    \<and> settle_request (clock_at 104) ''o'' ''request:first'' (Some ''third'') (JInt 5) (JStr ''print'') (Some unknown) = (Some w, Some s)
    \<and> tokens_used (settled_ledger 30) = 30 \<and> \<not> accounting_known unknown \<and> accounting_known s \<and> tokens_used s = 5"
  unfolding unknown_def
  by (simp add: settlement_defs unsettled_def tokens_used_def accounting_known_def)

text \<open>A reset may bring the deadline forward, but the threads keep their own: at 115 an attempt of 30 seconds is admitted beyond 120.\<close>

definition reset_state :: objective where
  "reset_state = (observe 101 bound_ledger)\<lparr>ol_terms := sample_terms 2 120,
     ol_authorizations := ol_authorizations opened_ledger
       @ [\<lparr>au_action = ''reset'', au_terms = sample_terms 2 120, au_approval = JStr ''operator'', au_at = 101\<rparr>]\<rparr>"

lemma sample_reset: "reset_ledger (clock_at 101) ''o'' (JObj (sample_config 2 120)) (JStr ''operator'') (Some bound_ledger)
    = (Some (view_of ''o'' reset_state 101 None), Some reset_state)"
proof -
  have "ol_authorizations opened_ledger = [\<lparr>au_action = ''initial'', au_terms = sample_terms 1 200, au_approval = JStr ''operator'', au_at = 100\<rparr>]"
    by (simp add: opened_ledger_def first_state_def)
  then show ?thesis
    by (simp add: reset_ledger_def authorize_ledger_def sample_configuration call_at configured_only_def authorize_body_def Let_def
        reset_state_def sample_fields py_eq_def)
qed

lemma reset_state_simps [simp]:
  "bound_to_requests reset_state" "ol_actors reset_state = []" "ol_sessions reset_state = [(''source'', thread_session)]"
  "ol_observed reset_state = 101" "ol_prior reset_state = 0" "ol_terms reset_state = sample_terms 2 120" "ol_plan reset_state = None"
  by (simp_all add: reset_state_def bound_to_requests_def) (simp add: bound_ledger_def)

lemma request_outlives_the_deadline:
  "\<exists>w s'. reserve_request (clock_at 115) ''o'' ''request:late'' ''source'' (JInt 10) (JInt 30) True (Some reset_state) = (Some w, Some s')
    \<and> bv_admitted w = Some True \<and> bt_deadline (ol_terms s') = 120 \<and> ol_observed s' + 30 = 145"
  by (simp add: admission_defs view_of_def)

section \<open>Histories\<close>

lemma governed_stepI: "run_op env oid op s = (r, s') \<Longrightarrow> governed op s \<Longrightarrow> governed_step oid s s'"
  by (auto simp: governed_step_def)

lemma governed_steps:
  "governed_step ''o'' None (Some opened_ledger)" "governed_step ''o'' (Some opened_ledger) (Some bound_ledger)"
  "governed_step ''o'' (Some bound_ledger) (Some held_ledger)" "governed_step ''o'' (Some held_ledger) (Some (settled_ledger 10))"
proof -
  show "governed_step ''o'' None (Some opened_ledger)"
    by (rule governed_stepI [OF first_configuration]) (simp add: governed_def)
  show "governed_step ''o'' (Some opened_ledger) (Some bound_ledger)"
    by (rule governed_stepI [OF transport_bound]) (simp add: governed_def)
  have "run_op (clock_at 101) ''o'' (ReserveRequest ''request:first'' ''source'' (JInt 40) (JInt 10) True) (Some bound_ledger)
      = (Some (view_of ''o'' held_ledger 101 (Some True)), Some held_ledger)"
    by (simp add: first_admission)
  then show "governed_step ''o'' (Some bound_ledger) (Some held_ledger)"
    by (rule governed_stepI) (simp add: governed_def)
  have "run_op (clock_at 102) ''o'' (SettleRequest ''request:first'' (Some ''response'') (JInt 10) (JStr ''print'')) (Some held_ledger)
      = (Some (view_of ''o'' (settled_ledger 10) 102 None), Some (settled_ledger 10))"
    by (simp add: first_settlement)
  then show "governed_step ''o'' (Some held_ledger) (Some (settled_ledger 10))"
    by (rule governed_stepI) (simp add: governed_def)
qed

lemma governed_history: "(governed_step ''o'')\<^sup>*\<^sup>* None (Some (settled_ledger 10))"
  by (rule converse_rtranclp_into_rtranclp, rule governed_steps(1), rule converse_rtranclp_into_rtranclp, rule governed_steps(2),
      rule converse_rtranclp_into_rtranclp, rule governed_steps(3), rule r_into_rtranclp, rule governed_steps(4))

lemma governed_is_step: "governed_step oid s s' \<Longrightarrow> ledger_step oid s s'"
  by (auto simp: governed_step_def ledger_step_def)

lemma settled_later: "(ledger_step ''o'')\<^sup>*\<^sup>* (Some held_ledger) (Some (settled_ledger 10))"
  by (rule r_into_rtranclp) (rule governed_is_step [OF governed_steps(4)])

end
