(* ===== verification/BudgetGuarantees.thy ===== *)
theory BudgetGuarantees
  imports BudgetSamples
begin

text \<open>The guarantees of the objective ledger.\<close>

section \<open>Limits\<close>

text \<open>C22. A governed transport never commits more than was authorised: along every history of calls, with writes lost or not, in which
  requests are admitted under enforcement with tokens of their own and no answer settles an attempt whose accounting is
  unknown, while the accounting is known the tokens used and reserved are at most the highest limit ever
  authorised (or what had been spent before).\<close>

theorem requests_stay_within_authorization:
  assumes "(governed_step oid)\<^sup>*\<^sup>* None (Some s)" "bound_to_requests s" "accounting_known s"
  shows "tokens_used s + tokens_reserved s \<le> foldr max (map (bt_tokens \<circ> au_terms) (ol_authorizations s)) (ol_prior s)"
  using governed_within [OF assms(1)] assms(2,3) by (simp add: within_allowance_def committed ceiling_def)

theorem requests_stay_within_authorization_witness:
  "tokens_used (settled_ledger 10) + tokens_reserved (settled_ledger 10)
     \<le> foldr max (map (bt_tokens \<circ> au_terms) (ol_authorizations (settled_ledger 10))) (ol_prior (settled_ledger 10))
   \<and> tokens_used (settled_ledger 10) = 10"
  using requests_stay_within_authorization [OF governed_history] by (simp add: accounting_known_def tokens_used_def)

text \<open>C23. An admitted request fits everywhere: with enforcement, after an admission the accounting is known, all that is used and
  reserved is within the objective's limit, the thread with the contexts it continues is within the session's, the whole timeout ends
  before the thread's deadline, and where obligations are protected their remaining tokens and seconds are still available.\<close>

theorem admitted_request_fits:
  assumes "reserve_request env oid i t tokens seconds True (Some s) = (Some v, s')" "bv_admitted v = Some True"
  shows "\<exists>m n u x a. tokens = JInt m \<and> seconds = JInt n \<and> s' = Some u \<and> dict_get (ol_sessions u) t = Some x
    \<and> dict_get (ol_actors s) i = None \<and> dict_get (ol_actors u) i = Some a \<and> ba_reservation a = m \<and> accounting_known u
    \<and> tokens_used u + tokens_reserved u \<le> bt_tokens (ol_terms u)
    \<and> group_spent u (session_group t x) \<le> bt_session_tokens (ol_terms u)
    \<and> n \<le> bt_session_seconds (ol_terms u) \<and> ol_observed u + of_int n \<le> bs_deadline x
    \<and> (\<forall>c. bv_completion v = Some c \<longrightarrow> cn_feasible c)"
proof -
  obtain now m n x s1 s2 where call: "tokens = JInt m" "0 \<le> m" "seconds = JInt n" "0 \<le> n" "dict_get (ol_actors s) i = None"
    and x: "x = (case dict_get (ol_sessions s) t of None \<Rightarrow> plain_session 0 (window s now) | Some x \<Rightarrow> x)"
    and s1: "s1 = (if dict_get (ol_sessions s) t = None then put_session t x (observe now s) else observe now s)"
    and ok: "request_refusal True s1 now t x m n = None" "start_remediation (bs_purpose x) s1 = Some s2"
    and s': "s' = Some (put_actor i (request_actor t x m n) s2)" "v = view_of oid (put_actor i (request_actor t x m n) s2) now (Some True)"
    by (rule admitted_call [OF assms])
  let ?u = "put_actor i (request_actor t x m n) s2"
  note fits = refusal_None(1) [OF ok(1)]
  have new: "dict_get (ol_actors s1) i = None" "dict_get (ol_sessions s1) t = Some x" using call(5) x s1 by (auto simp: dict_set_get)
  note after = admitted_state [OF new ok(2) fits call(2)]
  have "\<forall>c. bv_completion v = Some c \<longrightarrow> cn_feasible c"
    using feasible_after [OF new(1) call(2,4) ok(2,1)] by (simp add: s'(2) view_of_def)
  with call s'(1) after fits show ?thesis
    by (intro exI [of _ m] exI [of _ n] exI [of _ ?u] exI [of _ x] exI [of _ "request_actor t x m n"])
       (simp add: request_fits_def request_actor_def)
qed

theorem admitted_request_fits_witness:
  "\<exists>v u c. reserve_request (clock_at 101) ''o'' ''request:first'' ''source'' (JInt 40) (JInt 10) True (Some planned_ledger) = (Some v, Some u)
     \<and> bv_completion v = Some c \<and> cn_feasible c \<and> tokens_used u + tokens_reserved u \<le> bt_tokens (ol_terms u)"
proof -
  obtain v u c where call: "reserve_request (clock_at 101) ''o'' ''request:first'' ''source'' (JInt 40) (JInt 10) True (Some planned_ledger)
      = (Some v, Some u)" "bv_admitted v = Some True" "bv_completion v = Some c"
    using planned_admission by blast
  from admitted_request_fits [OF call(1,2)] call(3)
  have "cn_feasible c" "tokens_used u + tokens_reserved u \<le> bt_tokens (ol_terms u)" by auto
  with call(1,3) show ?thesis by blast
qed

section \<open>Attempts\<close>

text \<open>C24. An attempt is admitted once: after an accepted admission, whatever calls follow, the same attempt is never admitted again,
  and its reservation stays what it was.\<close>

theorem attempt_is_admitted_once:
  assumes "reserve_request env oid i t tokens seconds enforce s = (Some v, s1)" "bv_admitted v = Some True"
    and "(ledger_step oid)\<^sup>*\<^sup>* s1 s2"
  shows "fst (reserve_request env2 oid i t2 tokens2 seconds2 enforce2 s2) = None
    \<and> (\<exists>u a. s2 = Some u \<and> dict_get (ol_actors u) i = Some a \<and> tokens = JInt (ba_reservation a) \<and> ba_thread a = Some t)"
proof -
  obtain s0 where s0: "s = Some s0"
    using assms(1) by (cases s) (auto simp: reserve_request_def split: option.splits)
  obtain m n x r where m: "tokens = JInt m" "s1 = Some (put_actor i (request_actor t x m n) r)"
    by (rule admitted_call [OF assms(1) [unfolded s0] assms(2)])
  obtain u where u: "s2 = Some u" "kept (put_actor i (request_actor t x m n) r) u"
    by (rule ledger_run_keeps [OF assms(3) [unfolded m(2)]])
  obtain a where a: "dict_get (ol_actors u) i = Some a" "same_actor_terms (request_actor t x m n) a"
    using u(2) by (auto simp: kept_def dict_set_get dest!: entries_keptD [of _ _ _ i "request_actor t x m n"])
  have "fst (reserve_request env2 oid i t2 tokens2 seconds2 enforce2 (Some u)) = None"
    using admitted_before [OF a(1)] by blast
  moreover have "ba_reservation a = m" "ba_thread a = Some t" using a(2) by (auto simp: same_actor_terms_def request_actor_def)
  ultimately show ?thesis using u(1) a(1) m(1) by simp
qed

theorem attempt_is_admitted_once_witness:
  "fst (reserve_request (clock_at 110) ''o'' ''request:first'' ''other'' (JInt 5) (JInt 1) False (Some (settled_ledger 10))) = None"
proof -
  have "bv_admitted (view_of ''o'' held_ledger 101 (Some True)) = Some True" by (simp add: view_of_def)
  from attempt_is_admitted_once [OF first_admission this settled_later]
  show ?thesis by blast
qed

section \<open>What is retained\<close>

text \<open>C25. The ledger forgets no grant and no work: whatever calls follow, with writes lost or not, the spending before the ledger and the
  original deadline stay, the authorisations are only extended, correction cycles and the observed time only grow, every actor
  keeps the terms, amount and deadline it was admitted with, a settled response stays settled by the same attempt,
  the threads of a transport keep their share and deadline, and a completed obligation stays completed with its evidence.\<close>

theorem accounting_is_retained:
  assumes "(ledger_step oid)\<^sup>*\<^sup>* (Some s) s'"
  shows "\<exists>t. s' = Some t \<and> ol_prior t = ol_prior s \<and> ol_original_deadline t = ol_original_deadline s
    \<and> (\<exists>xs. ol_authorizations t = ol_authorizations s @ xs) \<and> ol_cycles s \<le> ol_cycles t \<and> ol_observed s \<le> ol_observed t
    \<and> (\<forall>i a. dict_get (ol_actors s) i = Some a \<and> ba_terms a \<noteq> None \<longrightarrow>
         (\<exists>b. dict_get (ol_actors t) i = Some b \<and> ba_terms b = ba_terms a \<and> ba_reservation b = ba_reservation a \<and> ba_deadline b = ba_deadline a))
    \<and> (bound_to_requests s \<longrightarrow> ol_binding t = ol_binding s
         \<and> (\<forall>r p. dict_get (ol_completions s) r = Some p \<longrightarrow> dict_get (ol_completions t) r = Some p)
         \<and> (\<forall>u x. dict_get (ol_sessions s) u = Some x \<longrightarrow>
              (\<exists>y. dict_get (ol_sessions t) u = Some y \<and> bs_prior y = bs_prior x \<and> bs_deadline y = bs_deadline x \<and> bs_group y = bs_group x)))
    \<and> (\<forall>n ob. plan_obligation s n = Some ob \<and> og_state ob = Completed \<longrightarrow>
         (\<exists>ob'. plan_obligation t n = Some ob' \<and> og_state ob' = Completed \<and> og_disposition ob' = og_disposition ob))"
proof -
  obtain t where t: "s' = Some t" "kept s t" by (rule ledger_run_keeps [OF assms])
  have "\<exists>b. dict_get (ol_actors t) i = Some b \<and> ba_terms b = ba_terms a \<and> ba_reservation b = ba_reservation a \<and> ba_deadline b = ba_deadline a"
    if "dict_get (ol_actors s) i = Some a" "ba_terms a \<noteq> None" for i a
    using that t(2) entries_keptD [of same_actor_terms "ol_actors s" "ol_actors t" i a] by (auto simp: kept_def same_actor_terms_def)
  moreover have "\<exists>ob'. plan_obligation t n = Some ob' \<and> og_state ob' = Completed \<and> og_disposition ob' = og_disposition ob"
    if "plan_obligation s n = Some ob" "og_state ob = Completed" for n ob
    using that t(2) entries_keptD [of obligation_kept "plan_entries s" "plan_entries t" n ob]
    by (auto simp: kept_def obligation_kept_def plan_obligation_entry)
  moreover have "dict_get (ol_completions t) r = Some p"
    if "bound_to_requests s" "dict_get (ol_completions s) r = Some p" for r p
    using that t(2) entries_keptD [of "(=)" "ol_completions s" "ol_completions t" r p] by (simp add: kept_def transport_kept_def)
  moreover have "\<exists>y. dict_get (ol_sessions t) u = Some y \<and> bs_prior y = bs_prior x \<and> bs_deadline y = bs_deadline x \<and> bs_group y = bs_group x"
    if "bound_to_requests s" "dict_get (ol_sessions s) u = Some x" for u x
    using that t(2) entries_keptD [of same_share "ol_sessions s" "ol_sessions t" u x]
    by (auto simp: kept_def transport_kept_def same_share_def)
  moreover have "ol_prior t = ol_prior s" "ol_original_deadline t = ol_original_deadline s"
      "\<exists>xs. ol_authorizations t = ol_authorizations s @ xs" "ol_cycles s \<le> ol_cycles t" "ol_observed s \<le> ol_observed t"
      "bound_to_requests s \<longrightarrow> ol_binding t = ol_binding s"
    using t(2) by (simp_all add: kept_def transport_kept_def)
  ultimately show ?thesis using t(1) by simp
qed

theorem accounting_is_retained_witness:
  "\<exists>b. dict_get (ol_actors (settled_ledger 10)) ''request:first'' = Some b \<and> ba_reservation b = 40"
proof -
  have "dict_get (ol_actors held_ledger) ''request:first'' = Some held_actor" "ba_terms held_actor \<noteq> None"
    by simp (simp add: held_actor_def request_actor_def)
  with accounting_is_retained [OF settled_later] show ?thesis by fastforce
qed

text \<open>C26. A context successor gets no allowance of its own: after it was accepted as the continuation of a thread, whatever
  calls follow, a request of the successor that is admitted under enforcement leaves the spending of both threads together within one session's
  limit, and ends before the deadline the source had.\<close>

theorem successor_shares_the_allowance:
  assumes "continue_request_thread env oid t source provenance s = (Some v, s1)" "(ledger_step oid)\<^sup>*\<^sup>* s1 s2"
    and "reserve_request env2 oid i t tokens seconds True s2 = (Some w, s3)" "bv_admitted w = Some True"
  shows "\<exists>s0 x u n. s = Some s0 \<and> dict_get (ol_sessions s0) source = Some x \<and> s3 = Some u \<and> seconds = JInt n
    \<and> {source, t} \<subseteq> set (map fst (group_members u (session_group source x)))
    \<and> group_spent u (session_group source x) \<le> bt_session_tokens (ol_terms u) \<and> ol_observed u + of_int n \<le> bs_deadline x"
proof -
  obtain s0 x r y where s0: "s = Some s0" "bound_to_requests s0" "dict_get (ol_sessions s0) source = Some x" and r: "s1 = Some r"
    "bound_to_requests r" "dict_get (ol_sessions r) source = Some x"
    and y: "dict_get (ol_sessions r) t = Some y" "session_group t y = session_group source x" "bs_deadline y = bs_deadline x"
    by (rule continued [OF assms(1)])
  obtain q where q: "s2 = Some q" "kept r q" by (rule ledger_run_keeps [OF assms(2) [unfolded r(1)]])
  obtain u n where u: "s3 = Some u" "seconds = JInt n" "kept q u" and fit: "\<forall>z. dict_get (ol_sessions u) t = Some z \<longrightarrow>
      group_spent u (session_group t z) \<le> bt_session_tokens (ol_terms u) \<and> ol_observed u + of_int n \<le> bs_deadline z"
    by (rule admitted_share [OF assms(3) [unfolded q(1)] assms(4)])
  have kept: "kept r u" using q(2) u(3) by (rule kept_trans)
  obtain x' y' where xy: "dict_get (ol_sessions u) source = Some x'" "same_share x x'" "dict_get (ol_sessions u) t = Some y'" "same_share y y'"
    by (rule kept_sessions [OF kept r(2,3) y(1)])
  have g: "session_group source x' = session_group source x" "session_group t y' = session_group source x"
    using xy(2,4) y(2) by (simp_all add: same_share_def session_group_def)
  then have "{source, t} \<subseteq> set (map fst (group_members u (session_group source x)))"
    using xy(1,3) by (force simp: group_members_def dest: map_of_SomeD)
  moreover have "bs_deadline y' = bs_deadline x" using xy(4) y(3) by (simp add: same_share_def)
  ultimately show ?thesis using s0 u(1,2) fit xy(3) g(2) by simp
qed

theorem successor_shares_the_allowance_witness:
  "\<exists>u. {''source'', ''successor''} \<subseteq> set (map fst (group_members u ''source''))
     \<and> group_spent u ''source'' \<le> bt_session_tokens (ol_terms u) \<and> ol_observed u + 10 \<le> 150"
proof -
  obtain v s' where call: "reserve_request (clock_at 104) ''o'' ''request:second'' ''successor'' (JInt 50) (JInt 10) True (Some continued_ledger)
      = (Some v, s')" "bv_admitted v = Some True"
    using successor_admission by blast
  from successor_shares_the_allowance [OF continuation rtranclp.rtrancl_refl call] show ?thesis
    by (auto simp: session_group_def)
qed

end
